(* ===== verification/A4_Prelude.thy ===== *)
theory A4_Prelude
  imports Complex_Main "HOL-Library.AList" "HOL-Library.Sublist" "HOL-Library.Word"
begin

text \<open>
  Shared vocabulary of the development.

  JavaScript values are modelled as the source uses them: a \<open>Map\<close> is an association list
  in insertion order (\<open>Map.set\<close> is \<open>AList.update\<close>, which replaces in place or
  appends; \<open>Map.delete\<close> is \<open>AList.delete\<close>; \<open>Map.get\<close> is \<open>map_of\<close>; the iterators
  of a \<open>Map\<close> run over the list from the front); a finite number is a \<open>rat\<close> (every finite
  double is one; rounding of arithmetic is not modelled) or an \<open>int\<close> where the code only
  handles integers (millisecond timestamps, counters); a string is a list of characters; a
  byte array is a list of 8-bit words; what a JSON decoder returns is \<open>json\<close>.
\<close>

type_synonym did = string
type_synonym msec = int
type_synonym byte = "8 word"
type_synonym bytes = "byte list"
type_synonym ('k, 'v) jsmap = "('k \<times> 'v) list"

datatype json =
    JNull
  | JBool bool
  | JNum rat
  | JStr string
  | JArr "json list"
  | JObj "(string \<times> json) list"

named_theorems a4_simps \<open>computation rules of small operations\<close>
named_theorems a4_inv \<open>preservation of invariants\<close>


section \<open>Insertion-ordered maps\<close>

abbreviation jm_get :: "('k, 'v) jsmap \<Rightarrow> 'k \<Rightarrow> 'v option" where
  "jm_get m k \<equiv> map_of m k"

abbreviation jm_set :: "'k \<Rightarrow> 'v \<Rightarrow> ('k, 'v) jsmap \<Rightarrow> ('k, 'v) jsmap" where
  "jm_set k v m \<equiv> AList.update k v m"

abbreviation jm_del :: "'k \<Rightarrow> ('k, 'v) jsmap \<Rightarrow> ('k, 'v) jsmap" where
  "jm_del k m \<equiv> AList.delete k m"

abbreviation jm_keys :: "('k, 'v) jsmap \<Rightarrow> 'k list" where
  "jm_keys m \<equiv> map fst m"

abbreviation jm_vals :: "('k, 'v) jsmap \<Rightarrow> 'v list" where
  "jm_vals m \<equiv> map snd m"

abbreviation jm_has :: "('k, 'v) jsmap \<Rightarrow> 'k \<Rightarrow> bool" where
  "jm_has m k \<equiv> map_of m k \<noteq> None"

text \<open>Keys of a \<open>Map\<close> are distinct; every operation keeps them so.\<close>

abbreviation jm_ok :: "('k, 'v) jsmap \<Rightarrow> bool" where
  "jm_ok m \<equiv> distinct (map fst m)"

lemma jm_get_set [simp]: "jm_get (jm_set k v m) k' = (if k' = k then Some v else jm_get m k')"
  by (simp add: update_conv')

lemma jm_get_del [simp]: "jm_get (jm_del k m) k' = (if k' = k then None else jm_get m k')"
  by (simp add: delete_conv')

lemma jm_ok_set [simp]: "jm_ok m \<Longrightarrow> jm_ok (jm_set k v m)"
  by (rule distinct_update)

lemma jm_ok_del [simp]: "jm_ok m \<Longrightarrow> jm_ok (jm_del k m)"
  by (rule distinct_delete)

lemma jm_keys_set: "set (jm_keys (jm_set k v m)) = insert k (set (jm_keys m))"
  by (induction m) auto

lemma jm_keys_del: "set (jm_keys (jm_del k m)) = set (jm_keys m) - {k}"
  by (simp add: delete_keys)

lemma jm_ok_filter [simp]: "jm_ok m \<Longrightarrow> jm_ok (filter P m)"
  by (simp add: distinct_map_filter)

lemma jm_in_set_iff: "jm_ok m \<Longrightarrow> (k, v) \<in> set m \<longleftrightarrow> jm_get m k = Some v"
  by (metis map_of_SomeD map_of_is_SomeI)

lemma jm_vals_get: "jm_ok m \<Longrightarrow> v \<in> set (jm_vals m) \<longleftrightarrow> (\<exists>k. jm_get m k = Some v)"
  using jm_in_set_iff [of m _ v] by (metis (no_types, lifting) image_iff prod.collapse set_map snd_conv)

lemma jm_get_in: "jm_get m k = Some v \<Longrightarrow> v \<in> set (jm_vals m)"
  by (force dest: map_of_SomeD)

lemma jm_length_set: "length (jm_set k v m) = (if jm_has m k then length m else Suc (length m))"
  by (induction m) auto

lemma jm_length_del_le: "length (jm_del k m) \<le> length m"
  by (simp add: AList.delete_eq)

lemma jm_get_filter:
  "jm_ok m \<Longrightarrow> jm_get (filter P m) k
     = (case jm_get m k of None \<Rightarrow> None | Some v \<Rightarrow> if P (k, v) then Some v else None)"
proof (induction m)
  case Nil
  then show ?case by simp
next
  case (Cons p m)
  obtain a b where p: "p = (a, b)" by (cases p)
  have "jm_get m a = None" if "k = a"
    using Cons.prems p by (simp add: map_of_eq_None_iff)
  with Cons p show ?case by (auto split: option.splits)
qed

lemma jm_get_map: "jm_get (map (\<lambda>(k, v). (k, f v)) m) k = map_option f (jm_get m k)"
  by (induction m) auto

lemma jm_keys_map [simp]: "jm_keys (map (\<lambda>(k, v). (k, f v)) m) = jm_keys m"
  by (induction m) auto

lemma jm_get_del_fold [simp]: "jm_get (fold jm_del ks m) k = (if k \<in> set ks then None else jm_get m k)"
  by (induction ks arbitrary: m) auto

lemma jm_ok_del_fold [simp]: "jm_ok m \<Longrightarrow> jm_ok (fold jm_del ks m)"
  by (induction ks arbitrary: m) auto

text \<open>In-place mutation of the object a \<open>Map\<close> holds under a key.\<close>

definition jm_modify :: "'k \<Rightarrow> ('v \<Rightarrow> 'v) \<Rightarrow> ('k, 'v) jsmap \<Rightarrow> ('k, 'v) jsmap" where
  "jm_modify k f m = AList.map_entry k f m"

lemma jm_get_modify [simp]:
  "jm_get (jm_modify k f m) k' = (if k' = k then map_option f (jm_get m k) else jm_get m k')"
  unfolding jm_modify_def by (induction m) (auto split: if_splits)

lemma jm_keys_modify [simp]: "jm_keys (jm_modify k f m) = jm_keys m"
  unfolding jm_modify_def by (induction m) auto

lemma jm_modify_None: "jm_get m k = None \<Longrightarrow> jm_modify k f m = m"
  unfolding jm_modify_def by (induction m) (auto split: if_splits)

lemma jm_length_modify [simp]: "length (jm_modify k f m) = length m"
  by (metis jm_keys_modify length_map)


section \<open>Strings\<close>

abbreviation js_startsWith :: "'a list \<Rightarrow> 'a list \<Rightarrow> bool" where
  "js_startsWith s p \<equiv> prefix p s"

text \<open>\<open>s.split(c)\<close> for a one-character separator: never empty, \<open>''.split(c)\<close> is \<open>['']\<close>.\<close>

fun js_split :: "'a \<Rightarrow> 'a list \<Rightarrow> 'a list list" where
  "js_split c [] = [[]]"
| "js_split c (x # xs) =
     (if x = c then [] # js_split c xs
      else (case js_split c xs of [] \<Rightarrow> [[x]] | w # ws \<Rightarrow> (x # w) # ws))"

text \<open>\<open>parts.join(c)\<close>.\<close>

fun js_join :: "'a \<Rightarrow> 'a list list \<Rightarrow> 'a list" where
  "js_join c [] = []"
| "js_join c [w] = w"
| "js_join c (w # v # ws) = w @ c # js_join c (v # ws)"

lemma js_split_ne [simp]: "js_split c s \<noteq> []"
  by (induction s) (auto split: list.splits)

lemma js_join_Cons: "ws \<noteq> [] \<Longrightarrow> js_join c (w # ws) = w @ c # js_join c ws"
  by (cases ws) auto

lemma js_join_split [simp]: "js_join c (js_split c s) = s"
proof (induction s)
  case Nil
  then show ?case by simp
next
  case (Cons x xs)
  obtain w ws where "js_split c xs = w # ws" by (cases "js_split c xs") auto
  with Cons show ?case by (cases ws) auto
qed

lemma js_split_no_sep: "c \<notin> set s \<Longrightarrow> js_split c s = [s]"
  by (induction s) auto

lemma js_split_append_sep: "js_split c (s @ c # t) = js_split c s @ js_split c t"
proof (induction s)
  case Nil
  then show ?case by simp
next
  case (Cons x s)
  obtain w ws where "js_split c s = w # ws" by (cases "js_split c s") auto
  with Cons show ?case by auto
qed

lemma js_split_parts: "w \<in> set (js_split c s) \<Longrightarrow> c \<notin> set w"
proof (induction s arbitrary: w)
  case Nil
  then show ?case by simp
next
  case (Cons x s)
  obtain v ws where "js_split c s = v # ws" by (cases "js_split c s") auto
  with Cons show ?case by (auto split: if_splits)
qed

lemma js_split_join: "ws \<noteq> [] \<Longrightarrow> \<forall>w \<in> set ws. c \<notin> set w \<Longrightarrow> js_split c (js_join c ws) = ws"
proof (induction ws)
  case (Cons w ws)
  then show ?case
    by (cases "ws = []") (simp_all add: js_join_Cons js_split_append_sep js_split_no_sep)
qed simp

lemma js_split_join_take:
  "0 < i \<Longrightarrow> js_split c (js_join c (take i (js_split c s))) = take i (js_split c s)"
  by (rule js_split_join) (auto dest: in_set_takeD js_split_parts)

text \<open>Separator-aware prefixes: a proper segment prefix is a character prefix that ends at a separator.\<close>

lemma js_split_prefix_iff:
  "prefix (js_split c p) (js_split c s) \<longleftrightarrow> s = p \<or> prefix (p @ [c]) s"
proof
  assume "prefix (js_split c p) (js_split c s)"
  then obtain us where us: "js_split c s = js_split c p @ us" by (auto simp: prefix_def)
  show "s = p \<or> prefix (p @ [c]) s"
  proof (cases us)
    case Nil
    with us have "js_join c (js_split c s) = js_join c (js_split c p)" by simp
    then show ?thesis by simp
  next
    case (Cons u us')
    have j: "js_join c (xs @ ys) = js_join c xs @ c # js_join c ys" if "xs \<noteq> []" "ys \<noteq> []" for xs ys :: "'a list list"
      using that
    proof (induction xs)
      case (Cons a xs)
      then show ?case by (cases "xs = []") (auto simp: js_join_Cons)
    qed simp
    have "js_join c (js_split c s) = js_join c (js_split c p) @ c # js_join c us"
      using us Cons j [of "js_split c p" us] by simp
    then show ?thesis by (auto simp: prefix_def)
  qed
next
  assume "s = p \<or> prefix (p @ [c]) s"
  then show "prefix (js_split c p) (js_split c s)"
    by (auto simp: prefix_def js_split_append_sep)
qed

section \<open>DIDs\<close>

text \<open>A validated agent DID (\<open>validateDID\<close> accepts only base58 after the method prefix): the
  identifier has no colon.\<close>

definition plain_did :: "did \<Rightarrow> bool" where
  "plain_did d \<longleftrightarrow> js_startsWith d ''did:agent:'' \<and> CHR '':'' \<notin> set (drop 10 d)"

lemma plain_didE:
  assumes "plain_did d"
  obtains b where "d = ''did:agent:'' @ b" "CHR '':'' \<notin> set b"
  using assms unfolding plain_did_def by (auto elim!: prefixE)

lemma split_at_sep:
  "x @ c # y = x' @ c # y' \<Longrightarrow> c \<notin> set x \<Longrightarrow> c \<notin> set x' \<Longrightarrow> x = x' \<and> y = y'"
  by (induction x arbitrary: x') (case_tac [!] x', auto)

lemma plain_did_sep:
  assumes "plain_did a" "plain_did b" "a @ CHR '':'' # u = b @ CHR '':'' # v"
  shows "a = b \<and> u = v"
proof -
  obtain a' b' where "a = ''did:agent:'' @ a'" "CHR '':'' \<notin> set a'" "b = ''did:agent:'' @ b'" "CHR '':'' \<notin> set b'"
    using assms(1,2) by (metis plain_didE)
  with split_at_sep [of a' "CHR '':''" u b' v] assms(3) show ?thesis by auto
qed

end
