(* ===== verification/Level_Store.thy ===== *)
theory Level_Store
  imports A4_Prelude "HOL-Library.Char_ord" "HOL-Library.List_Lexorder" "HOL-Library.RBT"
begin

text \<open>
  The \<open>level\<close> package (a key-value store on disk, ordered by key) is not part of the
  repository. The components that use it take its operations as a parameter, the record
  \<open>level_ops\<close>; the locale \<open>level_store\<close> states what its documentation promises and
  what the code relies on: a \<open>get\<close> after \<open>put\<close> or \<open>del\<close>, and an iterator that
  yields each stored entry once, in ascending key order, restricted to a key range, with a
  closed or an open upper end, when one is given. \<open>rbt_level\<close> is a store that keeps the promises; the witnesses run on it.
  Keys are compared byte by byte, so a string stands here for its UTF-8 encoding.
\<close>

record ('d, 'v) level_ops =
  lv_get :: "'d \<Rightarrow> string \<Rightarrow> 'v option"
  lv_put :: "string \<Rightarrow> 'v \<Rightarrow> 'd \<Rightarrow> 'd"
  lv_del :: "string \<Rightarrow> 'd \<Rightarrow> 'd"
  lv_iter :: "'d \<Rightarrow> (string \<times> 'v) list"
  lv_range :: "string \<Rightarrow> string \<Rightarrow> 'd \<Rightarrow> (string \<times> 'v) list"
  lv_range_lt :: "string \<Rightarrow> string \<Rightarrow> 'd \<Rightarrow> (string \<times> 'v) list"

locale level_store =
  fixes ops :: "('d, 'v) level_ops"
  assumes get_put: "lv_get ops (lv_put ops k v d) k' = (if k' = k then Some v else lv_get ops d k')"
    and get_del: "lv_get ops (lv_del ops k d) k' = (if k' = k then None else lv_get ops d k')"
    and iter_get: "map_of (lv_iter ops d) k = lv_get ops d k"
    and iter_sorted: "sorted (map fst (lv_iter ops d))"
    and iter_distinct: "distinct (map fst (lv_iter ops d))"
    and range_iter: "lv_range ops lo hi d = filter (\<lambda>(k, _). lo \<le> k \<and> k \<le> hi) (lv_iter ops d)"
    and range_lt_iter: "lv_range_lt ops lo hi d = filter (\<lambda>(k, _). lo \<le> k \<and> k < hi) (lv_iter ops d)"
begin

lemma iter_mem: "(k, v) \<in> set (lv_iter ops d) \<longleftrightarrow> lv_get ops d k = Some v"
  by (simp add: jm_in_set_iff iter_distinct iter_get)

lemma iter_mem': "p \<in> set (lv_iter ops d) \<longleftrightarrow> lv_get ops d (fst p) = Some (snd p)"
  by (cases p) (simp add: iter_mem)

lemma dom_finite: "finite {k. \<exists>v. lv_get ops d k = Some v \<and> Q k v}"
proof (rule finite_subset)
  show "{k. \<exists>v. lv_get ops d k = Some v \<and> Q k v} \<subseteq> fst ` set (lv_iter ops d)"
  proof clarify
    fix k v assume "lv_get ops d k = Some v"
    then have "(k, v) \<in> set (lv_iter ops d)" by (simp add: iter_mem)
    then show "k \<in> fst ` set (lv_iter ops d)" by force
  qed
qed simp

lemma count_card:
  "length (filter (\<lambda>(k, v). Q k v) (lv_iter ops d)) = card {k. \<exists>v. lv_get ops d k = Some v \<and> Q k v}"
proof -
  let ?xs = "filter (\<lambda>(k, v). Q k v) (lv_iter ops d)"
  have "distinct (map fst ?xs)" by (simp add: distinct_map_filter iter_distinct)
  then have "length (map fst ?xs) = card (set (map fst ?xs))"
    by (simp only: distinct_card)
  moreover have "set (map fst ?xs) = {k. \<exists>v. (k, v) \<in> set (lv_iter ops d) \<and> Q k v}"
    by force
  then have "set (map fst ?xs) = {k. \<exists>v. lv_get ops d k = Some v \<and> Q k v}"
    by (simp only: iter_mem)
  ultimately show ?thesis by simp
qed

lemma count_put_le:
  "length (filter (\<lambda>(k, _). P k) (lv_iter ops (lv_put ops k v d)))
     \<le> (if P k then Suc else id) (length (filter (\<lambda>(k, _). P k) (lv_iter ops d)))"
proof -
  let ?A = "\<lambda>d. {k. \<exists>v. lv_get ops d k = Some v \<and> P k}"
  have fin: "finite (?A d)" using dom_finite [of d "\<lambda>k _. P k"] .
  have "?A (lv_put ops k v d) \<subseteq> (if P k then insert k (?A d) else ?A d)"
    by (auto simp: get_put split: if_splits)
  then have "card (?A (lv_put ops k v d)) \<le> card (if P k then insert k (?A d) else ?A d)"
    by (rule card_mono [rotated]) (use fin in auto)
  also have "\<dots> \<le> (if P k then Suc else id) (card (?A d))"
    using fin by (auto simp: card_insert_if)
  finally show ?thesis by (simp add: count_card)
qed

lemma count_put_same:
  assumes "lv_get ops d k \<noteq> None"
  shows "length (filter (\<lambda>(k, _). P k) (lv_iter ops (lv_put ops k v d)))
     = length (filter (\<lambda>(k, _). P k) (lv_iter ops d))"
proof -
  have "{k'. \<exists>v'. lv_get ops (lv_put ops k v d) k' = Some v' \<and> P k'} = {k'. \<exists>v'. lv_get ops d k' = Some v' \<and> P k'}"
    using assms by (auto simp: get_put split: if_splits)
  then show ?thesis by (simp add: count_card)
qed

lemma count_del_le:
  "length (filter (\<lambda>(k, _). P k) (lv_iter ops (lv_del ops k d)))
     \<le> length (filter (\<lambda>(k, _). P k) (lv_iter ops d))"
proof -
  have "{k'. \<exists>v. lv_get ops (lv_del ops k d) k' = Some v \<and> P k'} \<subseteq> {k'. \<exists>v. lv_get ops d k' = Some v \<and> P k'}"
    by (auto simp: get_del split: if_splits)
  then show ?thesis
    unfolding count_card by (rule card_mono [rotated]) (rule dom_finite)
qed

lemma get_del_fold:
  "lv_get ops (fold (lv_del ops) ks d) k = (if k \<in> set ks then None else lv_get ops d k)"
  by (induction ks arbitrary: d) (auto simp: get_del)

lemma count_del_fold_le:
  "length (filter (\<lambda>(k, _). P k) (lv_iter ops (fold (lv_del ops) ks d)))
     \<le> length (filter (\<lambda>(k, _). P k) (lv_iter ops d))"
proof (induction ks arbitrary: d)
  case (Cons k ks)
  show ?case
    using Cons [of "lv_del ops k d"] count_del_le [of P k d] by simp
qed simp

lemma range_mem: "(k, v) \<in> set (lv_range ops lo hi d) \<longleftrightarrow> lo \<le> k \<and> k \<le> hi \<and> lv_get ops d k = Some v"
  by (auto simp: range_iter iter_mem)

lemma range_lt_mem: "(k, v) \<in> set (lv_range_lt ops lo hi d) \<longleftrightarrow> lo \<le> k \<and> k < hi \<and> lv_get ops d k = Some v"
  by (auto simp: range_lt_iter iter_mem)

end

text \<open>The character \<open>\xff\<close> that ends the ranges of the code, in UTF-8.\<close>

definition js_ff :: string where
  "js_ff = [char_of (0xC3 :: nat), char_of (0xBF :: nat)]"

lemma range_prefix: "p \<le> k \<Longrightarrow> k < p @ s \<Longrightarrow> prefix p (k :: string)"
proof (induction p arbitrary: k)
  case (Cons c p)
  then obtain c' k' where "k = c' # k'" by (cases k) auto
  with Cons show ?case by auto
qed simp

section \<open>A store that keeps the promises\<close>

definition rbt_level :: "((string, 'v) rbt, 'v) level_ops" where
  "rbt_level = \<lparr>lv_get = RBT.lookup, lv_put = RBT.insert, lv_del = RBT.delete, lv_iter = RBT.entries,
     lv_range = (\<lambda>lo hi d. filter (\<lambda>(k, _). lo \<le> k \<and> k \<le> hi) (RBT.entries d)),
     lv_range_lt = (\<lambda>lo hi d. filter (\<lambda>(k, _). lo \<le> k \<and> k < hi) (RBT.entries d))\<rparr>"

lemma rbt_level_simps [simp]:
  "lv_get rbt_level = RBT.lookup" "lv_put rbt_level = RBT.insert" "lv_del rbt_level = RBT.delete"
  "lv_iter rbt_level = RBT.entries"
  by (simp_all add: rbt_level_def)

lemma rbt_entries_empty [simp]: "RBT.entries RBT.empty = []"
  by (simp add: RBT.entries_def RBT.impl_of_empty)

interpretation rbt: level_store rbt_level
  by unfold_locales
    (auto simp: rbt_level_def RBT.map_of_entries RBT.sorted_entries RBT.distinct_entries)

lemma rbt_level_store: "level_store rbt_level"
  by (rule rbt.level_store_axioms)

end
