(* ===== verification/Js_Number.thy ===== *)
theory Js_Number
  imports A4_Prelude
begin

text \<open>
  The language's number parsing (\<open>Number(s)\<close>), integer test and decimal printing, which the
  relay uses on the keys of a byte object and on paging cursors, and the fact that parsing a
  printed natural number gives it back.
\<close>

section \<open>\<open>Number(s)\<close>\<close>

text \<open>
  The string-to-number conversion of the language: white space is trimmed, the empty string
  is 0, then a binary, octal or hexadecimal literal or a signed decimal literal with optional
  fraction and exponent. \<open>None\<close> stands for \<open>NaN\<close> and the infinities.
\<close>

definition js_space :: "char \<Rightarrow> bool" where
  "js_space c \<longleftrightarrow> c \<in> {CHR '' '', CHR 0x09, CHR 0x0A, CHR 0x0B, CHR 0x0C, CHR 0x0D}"

definition js_trim :: "string \<Rightarrow> string" where
  "js_trim s = rev (dropWhile js_space (rev (dropWhile js_space s)))"

definition js_digit :: "char \<Rightarrow> bool" where
  "js_digit c \<longleftrightarrow> c \<in> set ''0123456789''"

definition js_digit_val :: "char \<Rightarrow> nat option" where
  "js_digit_val c =
     map_of (zip ''0123456789abcdefABCDEF'' [0, 1, 2, 3, 4, 5, 6, 7, 8, 9, 10, 11, 12, 13, 14, 15, 10, 11, 12, 13, 14, 15]) c"

definition js_radix :: "nat \<Rightarrow> string \<Rightarrow> nat option" where
  "js_radix b s =
     (if s = [] then None
      else fold (\<lambda>c acc. case (acc, js_digit_val c) of
                   (Some n, Some d) \<Rightarrow> if d < b then Some (n * b + d) else None
                 | _ \<Rightarrow> None) s (Some 0))"

definition js_decimal :: "string \<Rightarrow> rat option" where
  "js_decimal s =
     (let ip = takeWhile js_digit s; r1 = dropWhile js_digit s;
          (fp, r2) = (case r1 of c # t \<Rightarrow> if c = CHR ''.'' then (takeWhile js_digit t, dropWhile js_digit t) else ([], r1)
                               | [] \<Rightarrow> ([], []));
          m = (case js_radix 10 (ip @ fp) of None \<Rightarrow> None | Some n \<Rightarrow> Some (of_nat n / 10 ^ length fp :: rat))
      in case (m, r2) of
           (None, _) \<Rightarrow> None
         | (Some q, []) \<Rightarrow> Some q
         | (Some q, c # t) \<Rightarrow>
             if c = CHR ''e'' \<or> c = CHR ''E'' then
               (if prefix ''-'' t then map_option (\<lambda>e. q / 10 ^ e) (js_radix 10 (tl t))
                else if prefix ''+'' t then map_option (\<lambda>e. q * 10 ^ e) (js_radix 10 (tl t))
                else map_option (\<lambda>e. q * 10 ^ e) (js_radix 10 t))
             else None)"

definition js_Number :: "string \<Rightarrow> rat option" where
  "js_Number s0 =
     (let s = js_trim s0; p = take 2 s; t = drop 2 s in
      if s = [] then Some 0
      else if p = ''0x'' \<or> p = ''0X'' then map_option of_nat (js_radix 16 t)
      else if p = ''0o'' \<or> p = ''0O'' then map_option of_nat (js_radix 8 t)
      else if p = ''0b'' \<or> p = ''0B'' then map_option of_nat (js_radix 2 t)
      else if prefix ''-'' s then map_option uminus (js_decimal (tl s))
      else if prefix ''+'' s then js_decimal (tl s)
      else js_decimal s)"

text \<open>\<open>Number.isInteger(x)\<close> and the integer it is.\<close>

definition js_integer :: "rat \<Rightarrow> int option" where
  "js_integer q = (if of_int \<lfloor>q\<rfloor> = q then Some \<lfloor>q\<rfloor> else None)"

lemma js_integer_of_int [simp]: "js_integer (of_int i) = Some i"
  by (simp add: js_integer_def)

lemma js_integer_of_nat [simp]: "js_integer (of_nat n) = Some (int n)"
  by (simp add: js_integer_def)

lemma js_integer_SomeD: "js_integer q = Some i \<Longrightarrow> q = of_int i"
  by (auto simp: js_integer_def split: if_splits)

text \<open>The decimal digits of a natural number, \<open>String(n)\<close>.\<close>

fun js_show_nat :: "nat \<Rightarrow> string" where
  "js_show_nat n =
     (if n < 10 then [''0123456789'' ! n] else js_show_nat (n div 10) @ [''0123456789'' ! (n mod 10)])"

declare js_show_nat.simps [simp del]

lemma digit_cases:
  "(d::nat) < 10 \<Longrightarrow> d = 0 \<or> d = 1 \<or> d = 2 \<or> d = 3 \<or> d = 4 \<or> d = 5 \<or> d = 6 \<or> d = 7 \<or> d = 8 \<or> d = 9"
  by presburger

lemma js_digit_val_char: "(d::nat) < 10 \<Longrightarrow> js_digit_val (''0123456789'' ! d) = Some d"
  by (drule digit_cases, elim disjE; simp add: js_digit_val_def)

lemma js_digit_char: "(d::nat) < 10 \<Longrightarrow> js_digit (''0123456789'' ! d)"
  by (drule digit_cases, elim disjE; simp add: js_digit_def)

lemma js_show_nat_ne [simp]: "js_show_nat n \<noteq> []"
  by (subst js_show_nat.simps) simp

lemma js_show_nat_digits: "c \<in> set (js_show_nat n) \<Longrightarrow> js_digit c"
proof (induction n rule: js_show_nat.induct)
  case (1 n)
  then show ?case
    by (subst (asm) js_show_nat.simps) (auto split: if_splits intro: js_digit_char)
qed

lemma js_radix_show: "js_radix 10 (js_show_nat n) = Some n"
proof -
  let ?f = "\<lambda>c acc. case (acc, js_digit_val c) of
                   (Some n, Some d) \<Rightarrow> if d < 10 then Some (n * 10 + d) else None
                 | _ \<Rightarrow> None"
  have "fold ?f (js_show_nat n) (Some 0) = Some n"
  proof (induction n rule: js_show_nat.induct)
    case (1 n)
    show ?case
    proof (cases "n < 10")
      case True
      then show ?thesis by (subst js_show_nat.simps) (simp add: js_digit_val_char)
    next
      case False
      with 1 have "fold ?f (js_show_nat (n div 10)) (Some 0) = Some (n div 10)" by simp
      with False show ?thesis
        by (subst js_show_nat.simps) (simp add: js_digit_val_char)
    qed
  qed
  then show ?thesis by (simp add: js_radix_def)
qed

lemma js_Number_show [simp]: "js_Number (js_show_nat n) = Some (of_nat n)"
proof -
  have dig: "js_digit c" if "c \<in> set (js_show_nat n)" for c
    using that by (rule js_show_nat_digits)
  have nsp: "\<not> js_space c" if "js_digit c" for c
    using that by (auto simp: js_digit_def js_space_def)
  obtain c t where ct: "js_show_nat n = c # t" by (cases "js_show_nat n") auto
  have dw: "dropWhile js_space (js_show_nat n) = js_show_nat n"
    using ct dig nsp by (metis dropWhile.simps(2) list.set_intros(1))
  have "dropWhile js_space (rev (js_show_nat n)) = rev (js_show_nat n)"
  proof (cases "rev (js_show_nat n)")
    case (Cons a l)
    then have "a \<in> set (js_show_nat n)" by (metis in_set_conv_decomp set_rev append_Nil)
    with Cons dig nsp show ?thesis by (metis dropWhile.simps(2))
  qed simp
  with dw have trim: "js_trim (js_show_nat n) = js_show_nat n"
    by (simp add: js_trim_def)
  have tw: "takeWhile js_digit (js_show_nat n) = js_show_nat n"
    and dw2: "dropWhile js_digit (js_show_nat n) = []"
    using dig by (auto simp: takeWhile_eq_all_conv)
  have dec: "js_decimal (js_show_nat n) = Some (of_nat n)"
    by (simp add: js_decimal_def tw dw2 js_radix_show)
  have c: "js_digit c" using ct dig by auto
  have t: "t = [] \<or> js_digit (hd t)" using ct dig by (cases t) auto
  have "\<not> js_digit (CHR ''x'')" "\<not> js_digit (CHR ''X'')" "\<not> js_digit (CHR ''o'')"
    "\<not> js_digit (CHR ''O'')" "\<not> js_digit (CHR ''b'')" "\<not> js_digit (CHR ''B'')"
    "\<not> js_digit (CHR ''-'')" "\<not> js_digit (CHR ''+'')"
    by (simp_all add: js_digit_def)
  with c t have "take 2 (c # t) \<notin> {''0x'', ''0X'', ''0o'', ''0O'', ''0b'', ''0B''}"
    and "\<not> prefix ''-'' (c # t)" and "\<not> prefix ''+'' (c # t)"
    by (cases t; auto)+
  with trim dec ct show ?thesis by (auto simp: js_Number_def Let_def)
qed

section \<open>\<open>parseInt(s, 10)\<close>\<close>

text \<open>Leading white space, a sign, and as many digits as there are; \<open>None\<close> is \<open>NaN\<close>.\<close>

definition js_parseInt :: "string \<Rightarrow> int option" where
  "js_parseInt s =
     (let t = dropWhile js_space s; neg = prefix ''-'' t;
          u = (if neg \<or> prefix ''+'' t then tl t else t)
      in map_option (\<lambda>n. if neg then - int n else int n) (js_radix 10 (takeWhile js_digit u)))"

lemma js_parseInt_show [simp]: "js_parseInt (js_show_nat n) = Some (int n)"
proof -
  obtain c t where ct: "js_show_nat n = c # t" by (cases "js_show_nat n") auto
  have dig: "\<forall>c \<in> set (js_show_nat n). js_digit c" using js_show_nat_digits by blast
  then have "js_digit c" using ct by simp
  then have "\<not> js_space c" "c \<noteq> CHR ''-''" "c \<noteq> CHR ''+''" by (auto simp: js_digit_def js_space_def)
  then have "dropWhile js_space (js_show_nat n) = js_show_nat n" "\<not> prefix ''-'' (js_show_nat n)"
    "\<not> prefix ''+'' (js_show_nat n)" by (simp_all add: ct)
  moreover have "js_radix 10 (takeWhile js_digit (js_show_nat n)) = Some n"
    using dig takeWhile_eq_all_conv js_radix_show by metis
  ultimately show ?thesis by (simp add: js_parseInt_def)
qed

text \<open>\<open>String(n)\<close> of an integer.\<close>

definition js_show_int :: "int \<Rightarrow> string" where
  "js_show_int n = (if n < 0 then CHR ''-'' # js_show_nat (nat (- n)) else js_show_nat (nat n))"

lemma js_parseInt_show_int: "0 \<le> n \<Longrightarrow> js_parseInt (js_show_int n) = Some n"
  by (simp add: js_show_int_def)

end
