(* ===== verification/Relay_Queue.thy ===== *)
theory Relay_Queue
  imports Level_Store Js_Number "HOL-Library.Multiset"
begin

text \<open>
  The relay's offline message queue, \<open>js/relay/src/queue.ts\<close>: the stored forms of an
  envelope and their decoding, and the operations of class \<open>MessageQueue\<close> over a level
  store. Each operation is one atomic step on the store; the clock and the random message id
  are arguments. Timers and logging are not modelled.
\<close>

section \<open>Envelopes\<close>

datatype stored_envelope = EnvArr "json list" | EnvObj "(string \<times> json) list"

datatype queue_error =
    NonByteValues | ArrayNonByte | BufferNonByte | NotSerializedU8 | MissingPositions
  | QueueFull did nat

definition isByte :: "json \<Rightarrow> bool" where
  "isByte v = (case v of
     JNum q \<Rightarrow> (case js_integer q of Some i \<Rightarrow> 0 \<le> i \<and> i \<le> 255 | None \<Rightarrow> False)
   | _ \<Rightarrow> False)"

definition byte_val :: "json \<Rightarrow> byte" where
  "byte_val v = (case v of JNum q \<Rightarrow> word_of_int \<lfloor>q\<rfloor> | _ \<Rightarrow> 0)"

definition byte_json :: "byte \<Rightarrow> json" where
  "byte_json b = JNum (of_int (uint b))"

definition u8_json :: "bytes \<Rightarrow> json list" where
  "u8_json bs = map byte_json bs"

lemma isByte_u8 [simp]: "isByte (byte_json b)"
proof -
  have "js_integer (rat_of_int (uint b)) = Some (uint b)" by (rule js_integer_of_int)
  moreover have "0 \<le> uint b \<and> uint b \<le> 255" using uint_lt2p [of b] by simp
  ultimately show ?thesis by (simp only: isByte_def byte_json_def json.case option.case)
qed

lemma byte_val_u8 [simp]: "byte_val (byte_json b) = b"
proof -
  have "\<lfloor>rat_of_int (uint b)\<rfloor> = uint b" by (rule floor_of_int)
  then show ?thesis by (simp only: byte_val_def byte_json_def json.case word_of_int_uint)
qed

lemma list_all_u8 [simp]: "list_all isByte (u8_json bs)"
  by (simp add: u8_json_def list_all_iff)

lemma map_byte_val_u8 [simp]: "map byte_val (u8_json bs) = bs"
  by (simp add: u8_json_def comp_def)

definition serializeQueuedEnvelope :: "json list \<Rightarrow> queue_error + bytes" where
  "serializeQueuedEnvelope xs = (if list_all isByte xs then Inr (map byte_val xs) else Inl NonByteValues)"

fun index_entries :: "(string \<times> json) list \<Rightarrow> (int \<times> byte) list option" where
  "index_entries [] = Some []"
| "index_entries ((key, v) # rest) =
     (case js_Number key of
        None \<Rightarrow> None
      | Some q \<Rightarrow>
          (case js_integer q of
             None \<Rightarrow> None
           | Some index \<Rightarrow>
               if index < 0 \<or> \<not> isByte v then None
               else map_option (\<lambda>r. (index, byte_val v) # r) (index_entries rest)))"

definition buffer_data :: "(string \<times> json) list \<Rightarrow> json list option" where
  "buffer_data fs = (case (map_of fs ''type'', map_of fs ''data'') of
     (Some (JStr t), Some (JArr xs)) \<Rightarrow> if t = ''Buffer'' then Some xs else None
   | _ \<Rightarrow> None)"

definition deserializeQueuedEnvelope :: "stored_envelope \<Rightarrow> queue_error + bytes" where
  "deserializeQueuedEnvelope env = (case env of
     EnvArr xs \<Rightarrow> if list_all isByte xs then Inr (map byte_val xs) else Inl ArrayNonByte
   | EnvObj fs \<Rightarrow>
       (case buffer_data fs of
          Some xs \<Rightarrow> if list_all isByte xs then Inr (map byte_val xs) else Inl BufferNonByte
        | None \<Rightarrow>
            (case index_entries fs of
               None \<Rightarrow> Inl NotSerializedU8
             | Some entries \<Rightarrow>
                 let indexed = sort_key fst entries in
                 if map fst indexed = map int [0..<length indexed] then Inr (map snd indexed)
                 else Inl MissingPositions)))"

text \<open>A \<open>Uint8Array\<close> as \<open>JSON.stringify\<close> writes it: one property per index.\<close>

definition u8_object :: "bytes \<Rightarrow> (string \<times> json) list" where
  "u8_object bs = map (\<lambda>(i, b). (js_show_nat i, byte_json b)) (enumerate 0 bs)"

lemma index_entries_show:
  "index_entries (map (\<lambda>(i, b). (js_show_nat i, byte_json b)) ps)
     = Some (map (\<lambda>(i, b). (int i, b)) ps)"
proof (induction ps)
  case (Cons p ps)
  then show ?case by (cases p) simp
qed simp

lemma buffer_data_show:
  "buffer_data (map (\<lambda>(i, b). (js_show_nat i, byte_json b)) ps) = None"
proof -
  have ne: "js_show_nat n \<noteq> ''type''" for n
  proof
    assume "js_show_nat n = ''type''"
    then have "CHR ''t'' \<in> set (js_show_nat n)" by (metis list.set_intros(1))
    then have "js_digit (CHR ''t'')" by (rule js_show_nat_digits)
    then show False by (simp add: js_digit_def)
  qed
  then have "map_of (map (\<lambda>(i, b). (js_show_nat i, byte_json b)) ps) ''type'' = None"
    by (auto simp: map_of_eq_None_iff dest: sym)
  then show ?thesis by (simp add: buffer_data_def)
qed

lemma sort_key_perm_enumerate:
  assumes "mset ps = mset (enumerate 0 bs)"
  shows "sort_key fst (map (\<lambda>(i, b). (int i, b)) ps) = map (\<lambda>(i, b). (int i, b)) (enumerate 0 bs)"
    (is "?l = ?r")
proof -
  have s: "set ps = set (enumerate 0 bs)" using assms by (metis set_mset_mset)
  have fst_r: "map fst ?r = map int [0..<length bs]"
    by (rule nth_equalityI) (auto simp: nth_enumerate_eq)
  have "mset (map fst ?l) = mset (map fst ?r)"
    using assms by (metis mset_map mset_sort)
  then have "map fst ?l = sort (map fst ?r)"
    by (metis properties_for_sort sorted_sort_key)
  also have "\<dots> = map fst ?r"
    unfolding fst_r by (simp add: sorted_sort_id sorted_map sorted_wrt_map strict_sorted_imp_sorted)
  finally have fst_l: "map fst ?l = map fst ?r" .
  have d: "distinct (map fst ?r)" unfolding fst_r by (simp add: distinct_map)
  show ?thesis
  proof (rule map_sorted_distinct_set_unique [where f = fst])
    show "inj_on fst (set ?l \<union> set ?r)"
      using s by (auto simp: inj_on_def in_set_enumerate_eq)
    show "sorted (map fst ?l)" by simp
    show "distinct (map fst ?l)" using fst_l d by simp
    show "sorted (map fst ?r)" using fst_l by (metis sorted_sort_key)
    show "distinct (map fst ?r)" by (rule d)
    show "set ?l = set ?r" using s by simp
  qed
qed

lemma deserialize_array [simp]: "deserializeQueuedEnvelope (EnvArr (u8_json bs)) = Inr bs"
  by (simp add: deserializeQueuedEnvelope_def)

lemma mset_map_permuted: "mset fs = mset (map g xs) \<Longrightarrow> \<exists>ps. fs = map g ps \<and> mset ps = mset xs"
proof (induction fs arbitrary: xs)
  case Nil
  then show ?case by simp
next
  case (Cons f fs)
  then have "f \<in> set (map g xs)" by (metis list.set_intros(1) mset_eq_setD)
  then obtain x where x: "x \<in> set xs" "f = g x" by auto
  have "mset fs = mset (map g (remove1 x xs))"
  proof -
    have "mset xs = add_mset x (mset (remove1 x xs))" using x(1) by simp
    then have "image_mset g (mset xs) = image_mset g (add_mset x (mset (remove1 x xs)))" by (rule arg_cong)
    then have "mset (map g xs) = add_mset (g x) (mset (map g (remove1 x xs)))"
      by (simp only: mset_map image_mset_add_mset)
    with Cons.prems x(2) show ?thesis by simp
  qed
  from Cons.IH [OF this] obtain ps where "fs = map g ps" "mset ps = mset (remove1 x xs)" by blast
  with x show ?case by (intro exI [of _ "x # ps"]) simp
qed

lemma deserialize_object:
  assumes "mset fs = mset (u8_object bs)"
  shows "deserializeQueuedEnvelope (EnvObj fs) = Inr bs"
proof -
  let ?g = "\<lambda>(i, b). (js_show_nat i, byte_json b)"
  have "mset fs = mset (map ?g (enumerate 0 bs))" using assms by (simp add: u8_object_def)
  then obtain ps where ps: "fs = map ?g ps" "mset ps = mset (enumerate 0 bs)"
    by (blast dest: mset_map_permuted)
  have "map snd (sort_key fst (map (\<lambda>(i, b). (int i, b)) ps)) = bs"
    by (subst sort_key_perm_enumerate [OF ps(2)], rule nth_equalityI) (auto simp: nth_enumerate_eq)
  moreover have "length ps = length bs" using mset_eq_length [OF ps(2)] by simp
  moreover have "map fst (sort_key fst (map (\<lambda>(i, b). (int i, b)) ps)) = map int [0..<length ps]"
    using mset_eq_length [OF ps(2)]
    by (subst sort_key_perm_enumerate [OF ps(2)], intro nth_equalityI) (auto simp: nth_enumerate_eq)
  ultimately show ?thesis
    by (simp add: deserializeQueuedEnvelope_def ps(1) buffer_data_show index_entries_show Let_def)
qed


section \<open>Messages\<close>

datatype stored_status = SQueued | SInflight | SExpired | SDelivered | SAcked

datatype queued_status = Queued | Inflight | Expired

fun normalizeQueuedStatus :: "stored_status \<Rightarrow> queued_status" where
  "normalizeQueuedStatus SDelivered = Inflight"
| "normalizeQueuedStatus SAcked = Expired"
| "normalizeQueuedStatus SQueued = Queued"
| "normalizeQueuedStatus SInflight = Inflight"
| "normalizeQueuedStatus SExpired = Expired"

record ('env, 'st) msg_record =
  messageId :: string
  toDid :: did
  fromDid :: did
  envelope :: 'env
  queuedAt :: msec
  expiresAt :: msec
  deliveryAttempts :: nat
  lastAttemptAt :: "msec option"
  status :: 'st

type_synonym stored_msg = "(stored_envelope, stored_status) msg_record"
type_synonym queued_msg = "(bytes, queued_status) msg_record"

definition normalizeQueuedMessage :: "stored_msg \<Rightarrow> queue_error + queued_msg" where
  "normalizeQueuedMessage m = (case deserializeQueuedEnvelope (envelope m) of
     Inl e \<Rightarrow> Inl e
   | Inr bs \<Rightarrow> Inr \<lparr>messageId = messageId m, toDid = toDid m, fromDid = fromDid m, envelope = bs,
       queuedAt = queuedAt m, expiresAt = expiresAt m, deliveryAttempts = deliveryAttempts m,
       lastAttemptAt = lastAttemptAt m, status = normalizeQueuedStatus (status m)\<rparr>)"

text \<open>A normalised message is written back as it is: its byte list and its status are stored forms.\<close>

fun stored_of_status :: "queued_status \<Rightarrow> stored_status" where
  "stored_of_status Queued = SQueued"
| "stored_of_status Inflight = SInflight"
| "stored_of_status Expired = SExpired"

definition stored_of :: "queued_msg \<Rightarrow> stored_msg" where
  "stored_of m = \<lparr>messageId = messageId m, toDid = toDid m, fromDid = fromDid m,
     envelope = EnvArr (u8_json (envelope m)), queuedAt = queuedAt m, expiresAt = expiresAt m,
     deliveryAttempts = deliveryAttempts m, lastAttemptAt = lastAttemptAt m,
     status = stored_of_status (status m)\<rparr>"

lemma normalize_stored_status [simp]: "normalizeQueuedStatus (stored_of_status s) = s"
  by (cases s) auto

lemma normalize_stored_of [simp]: "normalizeQueuedMessage (stored_of m) = Inr m"
  by (simp add: normalizeQueuedMessage_def stored_of_def)

lemma normalize_fields:
  "normalizeQueuedMessage s = Inr m \<Longrightarrow>
     messageId m = messageId s \<and> toDid m = toDid s \<and> fromDid m = fromDid s \<and> queuedAt m = queuedAt s
     \<and> expiresAt m = expiresAt s \<and> deliveryAttempts m = deliveryAttempts s
     \<and> lastAttemptAt m = lastAttemptAt s \<and> status m = normalizeQueuedStatus (status s)"
  by (auto simp: normalizeQueuedMessage_def split: sum.splits)


section \<open>The queue operations\<close>

record queue_config =
  maxMessagesPerDid :: nat
  ttlMs :: msec
  maxRetries :: nat

definition default_queue_config :: queue_config where
  "default_queue_config = \<lparr>maxMessagesPerDid = 1000, ttlMs = 24 * 60 * 60 * 1000, maxRetries = 3\<rparr>"

definition queue_key :: "did \<Rightarrow> string \<Rightarrow> string" where
  "queue_key did mid = did @ '':'' @ mid"

definition getQueueSize :: "('d, stored_msg) level_ops \<Rightarrow> 'd \<Rightarrow> did \<Rightarrow> nat" where
  "getQueueSize ops db did =
     length (filter (\<lambda>(key, _). js_startsWith key (did @ '':'')) (lv_iter ops db))"

definition enqueue :: "('d, stored_msg) level_ops \<Rightarrow> queue_config \<Rightarrow> msec \<Rightarrow> string \<Rightarrow> did \<Rightarrow> did
    \<Rightarrow> json list \<Rightarrow> 'd \<Rightarrow> queue_error + string \<times> 'd" where
  "enqueue ops cfg now mid to from env db =
     (if getQueueSize ops db to \<ge> maxMessagesPerDid cfg then Inl (QueueFull to (maxMessagesPerDid cfg))
      else (case serializeQueuedEnvelope env of
        Inl e \<Rightarrow> Inl e
      | Inr bs \<Rightarrow>
          Inr (mid, lv_put ops (queue_key to mid)
            \<lparr>messageId = mid, toDid = to, fromDid = from, envelope = EnvArr (u8_json bs), queuedAt = now,
             expiresAt = now + ttlMs cfg, deliveryAttempts = 0, lastAttemptAt = None, status = SQueued\<rparr> db)))"

definition normalized_entries :: "(string \<times> stored_msg) list \<Rightarrow> queued_msg list" where
  "normalized_entries es =
     List.map_filter (\<lambda>(_, v). case normalizeQueuedMessage v of Inl _ \<Rightarrow> None | Inr m \<Rightarrow> Some m) es"

definition getQueuedMessages :: "('d, stored_msg) level_ops \<Rightarrow> 'd \<Rightarrow> did \<Rightarrow> queued_msg list" where
  "getQueuedMessages ops db did =
     sort_key queuedAt (normalized_entries
       (filter (\<lambda>(key, v). js_startsWith key (did @ '':'') \<and>
            (normalizeQueuedStatus (status v) = Queued \<or> normalizeQueuedStatus (status v) = Inflight))
          (lv_iter ops db)))"

text \<open>Read, normalise, change, write back; a missing or undecodable record is only reported.\<close>

definition update_msg :: "('d, stored_msg) level_ops \<Rightarrow> string \<Rightarrow> (queued_msg \<Rightarrow> queued_msg) \<Rightarrow> 'd \<Rightarrow> 'd" where
  "update_msg ops key f db = (case lv_get ops db key of
     None \<Rightarrow> db
   | Some st \<Rightarrow> (case normalizeQueuedMessage st of
       Inl _ \<Rightarrow> db
     | Inr m \<Rightarrow> lv_put ops key (stored_of (f m)) db))"

definition markInflight :: "('d, stored_msg) level_ops \<Rightarrow> msec \<Rightarrow> string \<Rightarrow> did \<Rightarrow> 'd \<Rightarrow> 'd" where
  "markInflight ops now mid did db = update_msg ops (queue_key did mid)
     (\<lambda>m. m\<lparr>status := Inflight, deliveryAttempts := Suc (deliveryAttempts m), lastAttemptAt := Some now\<rparr>) db"

definition markExpired :: "('d, stored_msg) level_ops \<Rightarrow> string \<Rightarrow> did \<Rightarrow> 'd \<Rightarrow> 'd" where
  "markExpired ops mid did db = update_msg ops (queue_key did mid) (\<lambda>m. m\<lparr>status := Expired\<rparr>) db"

definition markAcked :: "('d, stored_msg) level_ops \<Rightarrow> string \<Rightarrow> did \<Rightarrow> 'd \<Rightarrow> queued_msg option \<times> 'd" where
  "markAcked ops mid did db = (case lv_get ops db (queue_key did mid) of
     None \<Rightarrow> (None, db)
   | Some st \<Rightarrow> (case normalizeQueuedMessage st of
       Inl _ \<Rightarrow> (None, db)
     | Inr m \<Rightarrow> (Some m, lv_del ops (queue_key did mid) db)))"

definition retry_threshold :: msec where
  "retry_threshold = 60 * 1000"

definition due_for_retry :: "queue_config \<Rightarrow> msec \<Rightarrow> stored_msg \<Rightarrow> bool" where
  "due_for_retry cfg now v \<longleftrightarrow>
     normalizeQueuedStatus (status v) = Inflight
     \<and> (case lastAttemptAt v of None \<Rightarrow> False | Some t \<Rightarrow> t \<noteq> 0 \<and> now - t > retry_threshold)
     \<and> deliveryAttempts v < maxRetries cfg"

definition getMessagesForRetry :: "('d, stored_msg) level_ops \<Rightarrow> queue_config \<Rightarrow> msec \<Rightarrow> 'd \<Rightarrow> queued_msg list" where
  "getMessagesForRetry ops cfg now db =
     normalized_entries (filter (\<lambda>(_, v). due_for_retry cfg now v) (lv_iter ops db))"

definition cleanupExpiredMessages :: "('d, stored_msg) level_ops \<Rightarrow> msec \<Rightarrow> 'd \<Rightarrow> 'd" where
  "cleanupExpiredMessages ops now db =
     fold (lv_del ops)
       (map fst (filter (\<lambda>(_, v). now > expiresAt v \<or> normalizeQueuedStatus (status v) = Expired)
          (lv_iter ops db))) db"

record queue_stats =
  st_total :: nat
  st_queued :: nat
  st_inflight :: nat
  st_expired :: nat

definition getStats :: "('d, stored_msg) level_ops \<Rightarrow> 'd \<Rightarrow> queue_stats" where
  "getStats ops db =
     (let n = (\<lambda>s. length (filter (\<lambda>(_, v). normalizeQueuedStatus (status v) = s) (lv_iter ops db)))
      in \<lparr>st_total = length (lv_iter ops db), st_queued = n Queued, st_inflight = n Inflight, st_expired = n Expired\<rparr>)"

end
