(* ===== verification/Relay_Queue_Props.thy ===== *)
theory Relay_Queue_Props
  imports Relay_Queue
begin

text \<open>
  What the offline queue guarantees: the capacity bound per recipient, a stored message stays
  deliverable until it is acknowledged, expired or overwritten, an acknowledgement is given
  once, retries are bounded, clean-up removes exactly the dead records. The operations are
  also put together as a machine (\<open>queue_step\<close>, \<open>queue_run\<close>) that interleaves them in
  any order.
\<close>

datatype queue_op =
    OpEnqueue msec string did did "json list"
  | OpInflight msec string did
  | OpAck string did
  | OpExpire string did
  | OpCleanup msec

fun queue_step :: "('d, stored_msg) level_ops \<Rightarrow> queue_config \<Rightarrow> queue_op \<Rightarrow> 'd \<Rightarrow> 'd" where
  "queue_step ops cfg (OpEnqueue now mid to frm env) db =
     (case enqueue ops cfg now mid to frm env db of Inl _ \<Rightarrow> db | Inr (_, db') \<Rightarrow> db')"
| "queue_step ops cfg (OpInflight now mid did) db = markInflight ops now mid did db"
| "queue_step ops cfg (OpAck mid did) db = snd (markAcked ops mid did db)"
| "queue_step ops cfg (OpExpire mid did) db = markExpired ops mid did db"
| "queue_step ops cfg (OpCleanup now) db = cleanupExpiredMessages ops now db"

definition queue_run :: "('d, stored_msg) level_ops \<Rightarrow> queue_config \<Rightarrow> queue_op list \<Rightarrow> 'd \<Rightarrow> 'd" where
  "queue_run ops cfg os db = fold (queue_step ops cfg) os db"

lemma key_prefix_plain:
  assumes "plain_did a" "plain_did b" "js_startsWith (queue_key a mid) (b @ '':'')"
  shows "a = b"
proof -
  from assms(3) obtain z where "a @ CHR '':'' # mid = b @ CHR '':'' # z" by (auto simp: queue_key_def prefix_def)
  from plain_did_sep [OF assms(1,2) this] show ?thesis by simp
qed

definition queue_capacity_ok :: "('d, stored_msg) level_ops \<Rightarrow> queue_config \<Rightarrow> 'd \<Rightarrow> bool" where
  "queue_capacity_ok ops cfg db \<longleftrightarrow> (\<forall>X. plain_did X \<longrightarrow> getQueueSize ops db X \<le> maxMessagesPerDid cfg)"

fun plain_op :: "queue_op \<Rightarrow> bool" where
  "plain_op (OpEnqueue _ _ to _ _) = plain_did to"
| "plain_op _ = True"

lemma normalized_entries_mem:
  "m \<in> set (normalized_entries es) \<longleftrightarrow> (\<exists>key st. (key, st) \<in> set es \<and> normalizeQueuedMessage st = Inr m)"
proof (induction es)
  case Nil
  then show ?case by (simp add: normalized_entries_def)
next
  case (Cons e es)
  obtain k st where e: "e = (k, st)" by (cases e)
  show ?case
  proof (cases "normalizeQueuedMessage st")
    case (Inl a)
    then have "normalized_entries (e # es) = normalized_entries es"
      by (simp add: normalized_entries_def e)
    with Cons.IH Inl e show ?thesis by auto
  next
    case (Inr b)
    then have "normalized_entries (e # es) = b # normalized_entries es"
      by (simp add: normalized_entries_def e)
    with Cons.IH Inr e show ?thesis by auto
  qed
qed

text \<open>
  A record that will be served: stored under its key, decodable, neither acknowledged nor
  expired. \<open>preserves_key\<close> is an operation that is not meant to end its life.
\<close>

definition queue_live :: "('d, stored_msg) level_ops \<Rightarrow> 'd \<Rightarrow> string \<Rightarrow> string \<Rightarrow> did \<Rightarrow> bytes \<Rightarrow> msec \<Rightarrow> bool" where
  "queue_live ops db key mid frm bs deadline \<longleftrightarrow>
     (\<exists>st m. lv_get ops db key = Some st \<and> normalizeQueuedMessage st = Inr m \<and> messageId m = mid
        \<and> fromDid m = frm \<and> envelope m = bs \<and> expiresAt m = deadline \<and> status m \<noteq> Expired)"

fun preserves_key :: "string \<Rightarrow> msec \<Rightarrow> queue_op \<Rightarrow> bool" where
  "preserves_key key deadline (OpEnqueue now mid to frm env) \<longleftrightarrow> queue_key to mid \<noteq> key"
| "preserves_key key deadline (OpInflight now mid did) \<longleftrightarrow> True"
| "preserves_key key deadline (OpAck mid did) \<longleftrightarrow> queue_key did mid \<noteq> key"
| "preserves_key key deadline (OpExpire mid did) \<longleftrightarrow> queue_key did mid \<noteq> key"
| "preserves_key key deadline (OpCleanup now) \<longleftrightarrow> now \<le> deadline"

locale queue_store = level_store ops for ops :: "('d, stored_msg) level_ops"
begin

lemma update_msg_get:
  "lv_get ops (update_msg ops key f db) k =
     (case lv_get ops db key of
        Some st \<Rightarrow> (case normalizeQueuedMessage st of
            Inr m \<Rightarrow> if k = key then Some (stored_of (f m)) else lv_get ops db k
          | Inl _ \<Rightarrow> lv_get ops db k)
      | None \<Rightarrow> lv_get ops db k)"
  by (auto simp: update_msg_def get_put split: option.splits sum.splits)

lemma update_msg_size: "getQueueSize ops (update_msg ops key f db) X = getQueueSize ops db X"
  unfolding getQueueSize_def update_msg_def
  by (auto split: option.splits sum.splits intro: count_put_same)

lemma markAcked_size: "getQueueSize ops (snd (markAcked ops mid did db)) X \<le> getQueueSize ops db X"
  unfolding getQueueSize_def markAcked_def
  by (auto split: option.splits sum.splits intro: count_del_le)

lemma cleanup_size: "getQueueSize ops (cleanupExpiredMessages ops now db) X \<le> getQueueSize ops db X"
  unfolding getQueueSize_def cleanupExpiredMessages_def by (rule count_del_fold_le)

lemma enqueue_size:
  assumes "enqueue ops cfg now mid to frm env db = Inr (mid', db')"
    and "plain_did to" "plain_did X" "getQueueSize ops db X \<le> maxMessagesPerDid cfg"
  shows "getQueueSize ops db' X \<le> maxMessagesPerDid cfg"
proof -
  from assms(1) obtain st where room: "getQueueSize ops db to < maxMessagesPerDid cfg"
    and db': "db' = lv_put ops (queue_key to mid) st db"
    by (auto simp: enqueue_def split: if_splits sum.splits)
  have le: "getQueueSize ops db' X \<le>
      (if js_startsWith (queue_key to mid) (X @ '':'') then Suc else id) (getQueueSize ops db X)"
    unfolding getQueueSize_def db' by (rule count_put_le)
  show ?thesis
  proof (cases "to = X")
    case True
    with le room show ?thesis by (auto split: if_splits)
  next
    case False
    with key_prefix_plain assms(2,3) have "\<not> js_startsWith (queue_key to mid) (X @ '':'')" by blast
    with le assms(4) show ?thesis by simp
  qed
qed

lemma step_capacity:
  assumes "queue_capacity_ok ops cfg db" and "plain_op op"
  shows "queue_capacity_ok ops cfg (queue_step ops cfg op db)"
  using assms
  by (cases op)
    (auto simp: queue_capacity_ok_def markInflight_def markExpired_def update_msg_size split: sum.splits
      intro: enqueue_size order_trans [OF markAcked_size] order_trans [OF cleanup_size])

lemma run_capacity:
  "queue_capacity_ok ops cfg db \<Longrightarrow> list_all plain_op os \<Longrightarrow> queue_capacity_ok ops cfg (queue_run ops cfg os db)"
  unfolding queue_run_def by (induction os arbitrary: db) (auto intro: step_capacity)

text \<open>Membership in the list an agent is served.\<close>

lemma queued_mem:
  "m \<in> set (getQueuedMessages ops db did) \<longleftrightarrow>
     (\<exists>key st. lv_get ops db key = Some st \<and> js_startsWith key (did @ '':'')
        \<and> normalizeQueuedMessage st = Inr m \<and> status m \<noteq> Expired)"
proof -
  have "m \<in> set (getQueuedMessages ops db did) \<longleftrightarrow>
     (\<exists>key st. lv_get ops db key = Some st \<and> js_startsWith key (did @ '':'')
        \<and> normalizeQueuedMessage st = Inr m
        \<and> (normalizeQueuedStatus (status st) = Queued \<or> normalizeQueuedStatus (status st) = Inflight))"
    by (auto simp: getQueuedMessages_def normalized_entries_mem iter_mem)
  moreover have "(s = Queued \<or> s = Inflight) \<longleftrightarrow> s \<noteq> Expired" for s
    by (cases s) auto
  moreover have "normalizeQueuedMessage st = Inr m \<Longrightarrow> normalizeQueuedStatus (status st) = status m" for st
    by (simp add: normalize_fields)
  ultimately show ?thesis by (simp cong: conj_cong)
qed

lemma retry_mem:
  "m \<in> set (getMessagesForRetry ops cfg now db) \<longleftrightarrow>
     (\<exists>key st. lv_get ops db key = Some st \<and> due_for_retry cfg now st \<and> normalizeQueuedMessage st = Inr m)"
  unfolding getMessagesForRetry_def by (auto simp: normalized_entries_mem iter_mem)

lemma cleanup_get:
  "lv_get ops (cleanupExpiredMessages ops now db) k =
     (case lv_get ops db k of
        Some st \<Rightarrow> if now > expiresAt st \<or> normalizeQueuedStatus (status st) = Expired then None else Some st
      | None \<Rightarrow> None)"
proof -
  have "k \<in> set (map fst (filter (\<lambda>(_, v). now > expiresAt v \<or> normalizeQueuedStatus (status v) = Expired) (lv_iter ops db)))
     \<longleftrightarrow> (\<exists>st. lv_get ops db k = Some st \<and> (now > expiresAt st \<or> normalizeQueuedStatus (status st) = Expired))"
    by (force simp: iter_mem)
  then show ?thesis
    unfolding cleanupExpiredMessages_def get_del_fold by (auto split: option.splits)
qed

lemma live_enqueue:
  assumes "enqueue ops cfg now mid to frm env db = Inr (mid', db')"
  shows "queue_live ops db' (queue_key to mid) mid frm (map byte_val env) (now + ttlMs cfg)"
proof -
  let ?m = "\<lparr>messageId = mid, toDid = to, fromDid = frm, envelope = map byte_val env, queuedAt = now,
    expiresAt = now + ttlMs cfg, deliveryAttempts = 0, lastAttemptAt = None, status = Queued\<rparr>"
  from assms have "lv_get ops db' (queue_key to mid) = Some (stored_of ?m)"
    by (auto simp: enqueue_def serializeQueuedEnvelope_def get_put stored_of_def split: if_splits)
  then show ?thesis unfolding queue_live_def
    by (intro exI [of _ "stored_of ?m"] exI [of _ ?m]) simp
qed

lemma live_update:
  assumes "queue_live ops db key mid frm bs d"
    and "\<And>m. status m \<noteq> Expired \<Longrightarrow> status (f m) \<noteq> Expired \<or> key' \<noteq> key"
    and "\<And>m. messageId (f m) = messageId m \<and> fromDid (f m) = fromDid m \<and> envelope (f m) = envelope m \<and> expiresAt (f m) = expiresAt m"
  shows "queue_live ops (update_msg ops key' f db) key mid frm bs d"
proof -
  from assms(1) obtain st m where sm: "lv_get ops db key = Some st" "normalizeQueuedMessage st = Inr m"
    "messageId m = mid" "fromDid m = frm" "envelope m = bs" "expiresAt m = d" "status m \<noteq> Expired"
    unfolding queue_live_def by blast
  show ?thesis
  proof (cases "key' = key")
    case True
    with sm have "lv_get ops (update_msg ops key' f db) key = Some (stored_of (f m))"
      by (simp add: update_msg_get)
    with sm assms(2) [of m] assms(3) [of m] True show ?thesis
      unfolding queue_live_def by (intro exI [of _ "stored_of (f m)"] exI [of _ "f m"]) simp
  next
    case False
    then have "lv_get ops (update_msg ops key' f db) key = lv_get ops db key"
      by (auto simp: update_msg_get split: option.splits sum.splits)
    with sm show ?thesis unfolding queue_live_def by metis
  qed
qed

lemma live_step:
  assumes "queue_live ops db key mid frm bs d" "preserves_key key d op"
  shows "queue_live ops (queue_step ops cfg op db) key mid frm bs d"
proof (cases op)
  case (OpEnqueue now i to f env)
  with assms show ?thesis
    by (auto simp: queue_live_def enqueue_def get_put split: sum.splits if_splits)
next
  case (OpInflight now i did)
  then show ?thesis by (simp add: markInflight_def live_update [OF assms(1)])
next
  case (OpAck i did)
  with assms show ?thesis
    by (auto simp: queue_live_def markAcked_def get_del split: option.splits sum.splits)
next
  case (OpExpire i did)
  with assms(2) show ?thesis by (simp add: markExpired_def live_update [OF assms(1)])
next
  case (OpCleanup now)
  with assms show ?thesis
    by (auto simp: queue_live_def cleanup_get normalize_fields split: option.splits)
qed

lemma live_run:
  "queue_live ops db key mid frm bs d \<Longrightarrow> list_all (preserves_key key d) os
     \<Longrightarrow> queue_live ops (queue_run ops cfg os db) key mid frm bs d"
  unfolding queue_run_def by (induction os arbitrary: db) (auto intro: live_step)

lemma live_served:
  "queue_live ops db (queue_key to mid) mid frm bs d \<Longrightarrow>
     \<exists>m \<in> set (getQueuedMessages ops db to). messageId m = mid \<and> fromDid m = frm \<and> envelope m = bs"
  unfolding queue_live_def
  by (auto simp: queued_mem queue_key_def intro!: bexI [rotated] exI)

lemma acked_gone: "markAcked ops mid did db = (Some m, db') \<Longrightarrow> lv_get ops db' (queue_key did mid) = None"
  by (auto simp: markAcked_def get_del split: option.splits sum.splits)

lemma acked_other:
  "markAcked ops mid did db = (r, db') \<Longrightarrow> k \<noteq> queue_key did mid \<Longrightarrow> lv_get ops db' k = lv_get ops db k"
  by (auto simp: markAcked_def get_del split: option.splits sum.splits)

end

interpretation rbtq: queue_store rbt_level
  by (simp add: queue_store_def rbt_level_store)


section \<open>Properties\<close>

text \<open>
  Whatever the order in which messages are queued, delivered, acknowledged, expired and
  cleaned up, the records stored for an agent never exceed \<open>maxMessagesPerDid\<close>, provided
  messages are addressed to plain agent DIDs.
\<close>

theorem queue_capacity:
  assumes "level_store ops" and "queue_capacity_ok ops cfg db" and "list_all plain_op os" and "plain_did X"
  shows "getQueueSize ops (queue_run ops cfg os db) X \<le> maxMessagesPerDid cfg"
proof -
  have "queue_store ops" using assms(1) by (simp add: queue_store_def)
  from queue_store.run_capacity [OF this assms(2,3)] assms(4) show ?thesis
    by (simp add: queue_capacity_ok_def)
qed

lemma queue_capacity_empty: "queue_capacity_ok rbt_level cfg RBT.empty"
  by (simp add: queue_capacity_ok_def getQueueSize_def)

theorem queue_capacity_witness:
  "getQueueSize rbt_level
     (queue_run rbt_level \<lparr>maxMessagesPerDid = 1, ttlMs = 1000, maxRetries = 3\<rparr>
        [OpEnqueue 5 ''m1'' ''did:agent:a'' ''did:agent:b'' [JNum 1],
         OpEnqueue 6 ''m2'' ''did:agent:a'' ''did:agent:b'' [JNum 2],
         OpInflight 7 ''m1'' ''did:agent:a''] RBT.empty) ''did:agent:a'' \<le> 1"
  using queue_capacity [OF rbt_level_store
      queue_capacity_empty [of "\<lparr>maxMessagesPerDid = 1, ttlMs = 1000, maxRetries = 3\<rparr>"],
      of "[OpEnqueue 5 ''m1'' ''did:agent:a'' ''did:agent:b'' [JNum 1],
         OpEnqueue 6 ''m2'' ''did:agent:a'' ''did:agent:b'' [JNum 2],
         OpInflight 7 ''m1'' ''did:agent:a'']" "''did:agent:a''"]
  by (simp add: plain_did_def)

text \<open>
  C1: an accepted message is served again and again, with its sender and its bytes, until it
  is acknowledged or marked expired, its identifier is used again for the same recipient, or a
  clean-up runs after its time to live.
\<close>

theorem queue_at_least_once:
  assumes "level_store ops" and "enqueue ops cfg now mid to frm env db = Inr (mid', db')"
    and "list_all (preserves_key (queue_key to mid) (now + ttlMs cfg)) os"
  shows "\<exists>m \<in> set (getQueuedMessages ops (queue_run ops cfg os db') to).
           messageId m = mid \<and> fromDid m = frm \<and> envelope m = map byte_val env"
proof -
  have q: "queue_store ops" using assms(1) by (simp add: queue_store_def)
  from queue_store.live_served [OF q queue_store.live_run [OF q queue_store.live_enqueue [OF q assms(2)] assms(3)]]
  show ?thesis .
qed

theorem queue_at_least_once_witness:
  "\<exists>m \<in> set (getQueuedMessages rbt_level
       (queue_run rbt_level default_queue_config
          [OpInflight 6 ''m1'' ''did:agent:a'', OpCleanup 100, OpAck ''m2'' ''did:agent:a'']
          (case enqueue rbt_level default_queue_config 5 ''m1'' ''did:agent:a'' ''did:agent:b'' (u8_json [7, 8]) RBT.empty of
             Inr (_, db) \<Rightarrow> db | Inl _ \<Rightarrow> RBT.empty)) ''did:agent:a'').
     messageId m = ''m1'' \<and> fromDid m = ''did:agent:b'' \<and> envelope m = [7, 8]"
proof -
  obtain i db where e: "enqueue rbt_level default_queue_config 5 ''m1'' ''did:agent:a'' ''did:agent:b'' (u8_json [7, 8]) RBT.empty = Inr (i, db)"
    by (simp add: enqueue_def serializeQueuedEnvelope_def getQueueSize_def default_queue_config_def)
  from queue_at_least_once [OF rbt_level_store e,
      of "[OpInflight 6 ''m1'' ''did:agent:a'', OpCleanup 100, OpAck ''m2'' ''did:agent:a'']"]
  show ?thesis using e by (simp add: queue_key_def default_queue_config_def)
qed

text \<open>
  An acknowledgement is given once. A successful \<open>markAcked\<close> removes the record, so a
  second acknowledgement of the same message finds nothing, and no other record is touched.
\<close>

theorem queue_ack_once:
  assumes "level_store ops" and "markAcked ops mid did db = (Some m, db')"
  shows "markAcked ops mid did db' = (None, db') \<and>
    (\<forall>k. lv_get ops db' k = (if k = queue_key did mid then None else lv_get ops db k))"
proof -
  have q: "queue_store ops" using assms(1) by (simp add: queue_store_def)
  have "lv_get ops db' (queue_key did mid) = None" by (rule queue_store.acked_gone [OF q assms(2)])
  with queue_store.acked_other [OF q assms(2)] show ?thesis
    by (auto simp: markAcked_def)
qed

theorem queue_ack_once_witness:
  "markAcked rbt_level ''m1'' ''did:agent:a''
     (snd (markAcked rbt_level ''m1'' ''did:agent:a''
        (RBT.insert ''did:agent:a:m1''
           (stored_of \<lparr>messageId = ''m1'', toDid = ''did:agent:a'', fromDid = ''did:agent:b'', envelope = [1],
              queuedAt = 1, expiresAt = 2, deliveryAttempts = 0, lastAttemptAt = None, status = Queued\<rparr>) RBT.empty)))
   = (None, snd (markAcked rbt_level ''m1'' ''did:agent:a''
        (RBT.insert ''did:agent:a:m1''
           (stored_of \<lparr>messageId = ''m1'', toDid = ''did:agent:a'', fromDid = ''did:agent:b'', envelope = [1],
              queuedAt = 1, expiresAt = 2, deliveryAttempts = 0, lastAttemptAt = None, status = Queued\<rparr>) RBT.empty)))"
proof -
  let ?m = "\<lparr>messageId = ''m1'', toDid = ''did:agent:a'', fromDid = ''did:agent:b'', envelope = [1 :: byte],
              queuedAt = 1, expiresAt = 2, deliveryAttempts = 0, lastAttemptAt = None, status = Queued\<rparr>"
  let ?db = "RBT.insert ''did:agent:a:m1'' (stored_of ?m) RBT.empty"
  have "markAcked rbt_level ''m1'' ''did:agent:a'' ?db = (Some ?m, RBT.delete ''did:agent:a:m1'' ?db)"
    by (simp add: markAcked_def queue_key_def)
  from queue_ack_once [OF rbt_level_store this] this show ?thesis by simp
qed

text \<open>
  The decoding of stored envelopes is the inverse of every way the bytes may have been
  stored: as an array of numbers, as a serialised \<open>Buffer\<close>, or as an object with one
  property per index, in any order.
\<close>

theorem envelope_roundtrip:
  assumes "mset fs = mset (u8_object bs)"
  shows "serializeQueuedEnvelope (u8_json bs) = Inr bs
    \<and> deserializeQueuedEnvelope (EnvArr (u8_json bs)) = Inr bs
    \<and> deserializeQueuedEnvelope (EnvObj [(''type'', JStr ''Buffer''), (''data'', JArr (u8_json bs))]) = Inr bs
    \<and> deserializeQueuedEnvelope (EnvObj fs) = Inr bs"
  using deserialize_object [OF assms]
  by (simp add: serializeQueuedEnvelope_def deserializeQueuedEnvelope_def buffer_data_def)

theorem envelope_roundtrip_witness:
  "deserializeQueuedEnvelope (EnvObj [(''1'', JNum 9), (''0'', JNum 200)]) = Inr [200, 9]"
proof -
  have b: "byte_json (200 :: byte) = JNum 200" "byte_json (9 :: byte) = JNum 9"
    by (simp_all add: byte_json_def)
  have "mset [(''1'', JNum 9), (''0'', JNum 200)] = mset (u8_object [200, 9])"
    by (simp add: u8_object_def b js_show_nat.simps)
  from envelope_roundtrip [OF this] show ?thesis by blast
qed

text \<open>
  A message addressed to an agent DID with a suffix after a further colon is served to that
  agent: the listing matches keys by prefix, and the recipient of a stored message is not
  checked. Neither its realm nor its capacity bound applies to such a message.
\<close>

theorem queue_suffix_alias:
  assumes "level_store ops" and "enqueue ops cfg now mid (X @ '':'' @ s) frm env db = Inr (mid', db')"
  shows "\<exists>m \<in> set (getQueuedMessages ops db' X). messageId m = mid \<and> fromDid m = frm"
proof -
  have q: "queue_store ops" using assms(1) by (simp add: queue_store_def)
  from queue_store.live_enqueue [OF q assms(2)] obtain st m where
    sm: "lv_get ops db' (queue_key (X @ '':'' @ s) mid) = Some st" "normalizeQueuedMessage st = Inr m"
      "messageId m = mid" "fromDid m = frm" "status m \<noteq> Expired"
    unfolding queue_live_def by blast
  have "js_startsWith (queue_key (X @ '':'' @ s) mid) (X @ '':'')" by (simp add: queue_key_def)
  with sm queue_store.queued_mem [OF q, of m db' X] show ?thesis by blast
qed

theorem queue_suffix_alias_witness:
  "\<exists>db'. enqueue rbt_level default_queue_config 5 ''m1'' ''did:agent:a:x'' ''did:agent:b'' [JNum 1] RBT.empty = Inr (''m1'', db')
     \<and> (\<exists>m \<in> set (getQueuedMessages rbt_level db' ''did:agent:a''). messageId m = ''m1'' \<and> fromDid m = ''did:agent:b'')"
proof -
  obtain db where e: "enqueue rbt_level default_queue_config 5 ''m1'' (''did:agent:a'' @ '':'' @ ''x'') ''did:agent:b'' [JNum 1] RBT.empty = Inr (''m1'', db)"
    by (simp add: enqueue_def serializeQueuedEnvelope_def getQueueSize_def default_queue_config_def isByte_def js_integer_def)
  from queue_suffix_alias [OF rbt_level_store e] e show ?thesis by auto
qed

lemma status_partition:
  "length (filter (\<lambda>x. f x = Queued) xs) + length (filter (\<lambda>x. f x = Inflight) xs)
     + length (filter (\<lambda>x. f x = Expired) xs) = length xs"
proof (induction xs)
  case (Cons x xs)
  then show ?case by (cases "f x") simp_all
qed simp

text \<open>
  The statistics partition the store: every record is queued, in flight or expired.
\<close>

theorem queue_stats_partition:
  "st_total (getStats ops db) = st_queued (getStats ops db) + st_inflight (getStats ops db) + st_expired (getStats ops db)"
  using status_partition [of "\<lambda>x. normalizeQueuedStatus (status (snd x))" "lv_iter ops db"]
  by (simp add: getStats_def Let_def split_def)

end
