(* ===== verification/Js_Text.thy ===== *)
theory Js_Text
  imports A4_Prelude
begin

text \<open>
  Language-level helpers the relay's directory uses: text as UTF-16 code units, \<open>trim\<close>,
  \<open>Array.prototype.slice\<close> with its negative indices, the stable
  \<open>Array.prototype.sort\<close> with a comparator, \<open>Set\<close> in insertion order, and Node's
  base64 encoding of a string, with the facts that decoding inverts encoding and that sorting
  permutes.
\<close>

type_synonym jstr = "nat list"

definition jtext :: "string \<Rightarrow> jstr" where
  "jtext s = map of_char s"

section \<open>White space\<close>

definition js_ws :: "nat \<Rightarrow> bool" where
  "js_ws c \<longleftrightarrow> 9 \<le> c \<and> c \<le> 13 \<or> c \<in> {32, 160, 5760, 8232, 8233, 8239, 8287, 12288, 65279}
     \<or> 8192 \<le> c \<and> c \<le> 8202"

definition jtrim :: "jstr \<Rightarrow> jstr" where
  "jtrim s = rev (dropWhile js_ws (rev (dropWhile js_ws s)))"

text \<open>Lower-casing of the ASCII letters; the full Unicode mapping is a parameter of its users.\<close>

definition ascii_lower :: "jstr \<Rightarrow> jstr" where
  "ascii_lower s = map (\<lambda>c. if 65 \<le> c \<and> c \<le> 90 then c + 32 else c) s"

section \<open>Slices\<close>

definition js_slice :: "'a list \<Rightarrow> int \<Rightarrow> int \<Rightarrow> 'a list" where
  "js_slice xs st en =
     (let n = int (length xs);
          rel = (\<lambda>i. if i < 0 then max (n + i) 0 else min i n);
          s = nat (rel st); e = nat (rel en)
      in take (e - s) (drop s xs))"

lemma js_slice_pos:
  "js_slice xs (int i) (int i + int k) = take k (drop i xs)"
proof (cases "i \<le> length xs")
  case True
  then have "nat (min (int i) (int (length xs))) = i" by simp
  moreover have "nat (min (int i + int k) (int (length xs))) = min (i + k) (length xs)" by simp
  moreover have "take (min (i + k) (length xs) - i) (drop i xs) = take k (drop i xs)"
  proof (cases "i + k \<le> length xs")
    case False
    then show ?thesis using True by simp
  qed simp
  ultimately show ?thesis by (simp add: js_slice_def Let_def)
qed (simp add: js_slice_def Let_def)

section \<open>Sorting with a comparator\<close>

fun js_insert :: "('a \<Rightarrow> 'a \<Rightarrow> rat) \<Rightarrow> 'a \<Rightarrow> 'a list \<Rightarrow> 'a list" where
  "js_insert cmp x [] = [x]"
| "js_insert cmp x (y # ys) = (if cmp x y \<le> 0 then x # y # ys else y # js_insert cmp x ys)"

definition js_sort :: "('a \<Rightarrow> 'a \<Rightarrow> rat) \<Rightarrow> 'a list \<Rightarrow> 'a list" where
  "js_sort cmp xs = foldr (js_insert cmp) xs []"

lemma set_js_insert [simp]: "set (js_insert cmp x ys) = insert x (set ys)"
  by (induction ys) auto

lemma set_js_sort [simp]: "set (js_sort cmp xs) = set xs"
  unfolding js_sort_def by (induction xs) auto

lemma distinct_map_js_insert [simp]:
  "distinct (map f (js_insert cmp x ys)) \<longleftrightarrow> distinct (map f (x # ys))"
  by (induction ys) auto

lemma distinct_map_js_sort [simp]: "distinct (map f (js_sort cmp xs)) \<longleftrightarrow> distinct (map f xs)"
proof (induction xs)
  case (Cons x xs)
  have "set (js_sort cmp xs) = set xs" by simp
  with Cons show ?case by (simp add: js_sort_def)
qed (simp add: js_sort_def)

lemma length_js_insert [simp]: "length (js_insert cmp x ys) = Suc (length ys)"
  by (induction ys) auto

lemma length_js_sort [simp]: "length (js_sort cmp xs) = length xs"
  unfolding js_sort_def by (induction xs) auto

lemma sorted_js_insert:
  assumes "\<And>a b. cmp a b \<le> 0 \<or> cmp b a \<le> (0 :: rat)"
    and "\<And>a b c. cmp a b \<le> 0 \<Longrightarrow> cmp b c \<le> 0 \<Longrightarrow> cmp a c \<le> 0"
    and "sorted_wrt (\<lambda>a b. cmp a b \<le> 0) ys"
  shows "sorted_wrt (\<lambda>a b. cmp a b \<le> 0) (js_insert cmp x ys)"
  using assms(3)
proof (induction ys)
  case (Cons y ys)
  then show ?case using assms(1) [of x y] by (auto dest: assms(2))
qed simp

lemma sorted_js_sort:
  assumes "\<And>a b. cmp a b \<le> 0 \<or> cmp b a \<le> (0 :: rat)"
    and "\<And>a b c. cmp a b \<le> 0 \<Longrightarrow> cmp b c \<le> 0 \<Longrightarrow> cmp a c \<le> 0"
  shows "sorted_wrt (\<lambda>a b. cmp a b \<le> 0) (js_sort cmp xs)"
  unfolding js_sort_def by (induction xs) (auto intro: sorted_js_insert [OF assms])

section \<open>Sets in insertion order\<close>

definition js_set_add :: "'a \<Rightarrow> 'a list \<Rightarrow> 'a list" where
  "js_set_add x xs = (if x \<in> set xs then xs else xs @ [x])"

definition js_set_delete :: "'a \<Rightarrow> 'a list \<Rightarrow> 'a list" where
  "js_set_delete x xs = removeAll x xs"

lemma set_js_set_add [simp]: "set (js_set_add x xs) = insert x (set xs)"
  by (auto simp: js_set_add_def)

lemma distinct_js_set_add [simp]: "distinct xs \<Longrightarrow> distinct (js_set_add x xs)"
  by (simp add: js_set_add_def)

lemma set_js_set_delete [simp]: "set (js_set_delete x xs) = set xs - {x}"
  by (simp add: js_set_delete_def)

lemma distinct_js_set_delete [simp]: "distinct xs \<Longrightarrow> distinct (js_set_delete x xs)"
  by (simp add: js_set_delete_def distinct_removeAll)

text \<open>\<open>[...new Set(xs)]\<close>: the first occurrence of each element.\<close>

definition js_unique :: "'a list \<Rightarrow> 'a list" where
  "js_unique xs = fold js_set_add xs []"

lemma fold_set_add: "set (fold js_set_add xs acc) = set acc \<union> set xs
     \<and> (distinct acc \<longrightarrow> distinct (fold js_set_add xs acc))"
  by (induction xs arbitrary: acc) auto

lemma set_js_unique [simp]: "set (js_unique xs) = set xs"
  by (simp add: js_unique_def fold_set_add)

lemma distinct_js_unique [simp]: "distinct (js_unique xs)"
  by (simp add: js_unique_def fold_set_add)

section \<open>Base64\<close>

definition b64_alphabet :: string where
  "b64_alphabet = ''ABCDEFGHIJKLMNOPQRSTUVWXYZabcdefghijklmnopqrstuvwxyz0123456789+/''"

definition b64_char :: "nat \<Rightarrow> char" where
  "b64_char n = b64_alphabet ! n"

definition b64_val :: "char \<Rightarrow> nat option" where
  "b64_val c = (if c = CHR ''-'' then Some 62 else if c = CHR ''_'' then Some 63
                else map_of (zip b64_alphabet [0..<64]) c)"

fun b64_sextets :: "nat list \<Rightarrow> nat list" where
  "b64_sextets [] = []"
| "b64_sextets [a] = [a div 4, a mod 4 * 16]"
| "b64_sextets [a, b] = [a div 4, a mod 4 * 16 + b div 16, b mod 16 * 4]"
| "b64_sextets (a # b # c # r) =
     [a div 4, a mod 4 * 16 + b div 16, b mod 16 * 4 + c div 64, c mod 64] @ b64_sextets r"

fun b64_octets :: "nat list \<Rightarrow> nat list" where
  "b64_octets (a # b # c # d # r) =
     [a * 4 + b div 16, b mod 16 * 16 + c div 4, c mod 4 * 64 + d] @ b64_octets r"
| "b64_octets [a, b, c] = [a * 4 + b div 16, b mod 16 * 16 + c div 4]"
| "b64_octets [a, b] = [a * 4 + b div 16]"
| "b64_octets _ = []"

definition b64_pad :: "nat \<Rightarrow> string" where
  "b64_pad n = (if n mod 3 = 1 then ''=='' else if n mod 3 = 2 then ''='' else '''')"

text \<open>\<open>Buffer.from(s).toString('base64')\<close>: strings stand for their UTF-8 bytes.\<close>

definition base64_encode :: "string \<Rightarrow> string" where
  "base64_encode s = map b64_char (b64_sextets (map of_char s)) @ b64_pad (length s)"

text \<open>\<open>Buffer.from(s, 'base64').toString('utf8')\<close>: characters outside the two alphabets are
  skipped.\<close>

definition base64_decode :: "string \<Rightarrow> string" where
  "base64_decode s = map char_of (b64_octets (List.map_filter b64_val s))"

lemma b64_octets_sextets: "\<forall>x \<in> set xs. x < 256 \<Longrightarrow> b64_octets (b64_sextets xs) = xs"
proof (induction xs rule: b64_sextets.induct)
  case (4 a b c r)
  have "(a mod 4 * 16 + b div 16) div 16 = a mod 4" "(a mod 4 * 16 + b div 16) mod 16 = b div 16"
    using 4 by auto
  moreover have "(b mod 16 * 4 + c div 64) div 4 = b mod 16" "(b mod 16 * 4 + c div 64) mod 4 = c div 64"
    using 4 by auto
  ultimately show ?case using 4 by simp
qed auto

lemma b64_sextets_bound: "\<forall>x \<in> set xs. x < 256 \<Longrightarrow> \<forall>y \<in> set (b64_sextets xs). y < 64"
  by (induction xs rule: b64_sextets.induct) auto

lemma b64_val_char_all: "\<forall>n \<in> set [0..<64]. b64_val (b64_char n) = Some n"
  by code_simp

lemma b64_val_char: "n < 64 \<Longrightarrow> b64_val (b64_char n) = Some n"
  using b64_val_char_all by simp

lemma b64_filter_pad: "List.map_filter b64_val (b64_pad n) = []"
proof -
  have "b64_val CHR ''='' = None" by code_simp
  then show ?thesis by (simp add: b64_pad_def)
qed

lemma map_filter_append: "List.map_filter f (xs @ ys) = List.map_filter f xs @ List.map_filter f ys"
  by (simp add: List.map_filter_def)

lemma b64_filter_chars: "\<forall>x \<in> set xs. x < 64 \<Longrightarrow> List.map_filter b64_val (map b64_char xs) = xs"
  by (induction xs) (auto simp: b64_val_char)

lemma base64_decode_encode [simp]: "base64_decode (base64_encode s) = s"
proof -
  have b: "\<forall>x \<in> set (map of_char s). x < (256 :: nat)" by auto
  show ?thesis
    by (simp add: base64_decode_def base64_encode_def map_filter_append b64_filter_pad
        b64_filter_chars [OF b64_sextets_bound [OF b]] b64_octets_sextets [OF b] comp_def)
qed

text \<open>\<open>toString('base64url')\<close>: the other alphabet and no padding.\<close>

definition base64url_char :: "nat \<Rightarrow> char" where
  "base64url_char n = (if n = 62 then CHR ''-'' else if n = 63 then CHR ''_'' else b64_char n)"

definition base64url_encode :: "string \<Rightarrow> string" where
  "base64url_encode s = map base64url_char (b64_sextets (map of_char s))"

lemma base64url_filter: "\<forall>x \<in> set xs. x < 64 \<Longrightarrow> List.map_filter b64_val (map base64url_char xs) = xs"
proof (induction xs)
  case (Cons x xs)
  have "b64_val (base64url_char x) = Some x"
    using Cons.prems by (auto simp: base64url_char_def b64_val_char) (simp_all add: b64_val_def)
  with Cons show ?case by simp
qed simp

lemma base64_decode_url [simp]: "base64_decode (base64url_encode s) = s"
proof -
  have b: "\<forall>x \<in> set (map of_char s). x < (256 :: nat)" by auto
  show ?thesis
    by (simp add: base64_decode_def base64url_encode_def base64url_filter [OF b64_sextets_bound [OF b]]
        b64_octets_sextets [OF b] comp_def)
qed

end
