(* ===== verification/Relay_Types.thy ===== *)
theory Relay_Types
  imports Js_Text Relay_Queue
begin

text \<open>
  The relay's wire protocol, \<open>js/relay/src/types.ts\<close>: agent cards, pre-key bundles,
  endorsements and the messages exchanged with agents and with other relays, and the effects
  a handler has on sockets. A socket is a number; its \<open>readyState\<close> is a function of the
  number supplied by the environment. CBOR framing is not modelled: a message sent is the
  message received.
\<close>

section \<open>Cards\<close>

record capability =
  cap_id :: jstr
  cap_name :: jstr
  cap_description :: jstr

record published_device =
  deviceId :: string
  identityKeyPublic :: string
  signedPreKeyPublic :: string
  signedPreKeyId :: int
  signedPreKeySignature :: string
  oneTimePreKeyCount :: nat
  lastResupplyAt :: msec

record one_time_pre_key =
  keyId :: rat
  publicKey :: string

record published_bundle = published_device +
  oneTimePreKeys :: "one_time_pre_key list"

record claimed_bundle = published_device +
  oneTimePreKey :: "one_time_pre_key option"
  remainingOneTimePreKeyCount :: nat

record agent_card =
  card_did :: did
  card_name :: jstr
  card_description :: jstr
  card_version :: string
  card_capabilities :: "capability list"
  card_endpoints :: "string list"
  card_metadata :: "(string \<times> json) list option"
  card_timestamp :: msec
  card_signature :: string

record trust_summary =
  ts_endorsementCount :: nat
  ts_averageScore :: rat
  ts_oldestEndorsement :: msec
  ts_verified :: bool

record discovered_agent =
  da_did :: did
  da_card :: agent_card
  da_online :: bool
  da_lastSeen :: "msec option"
  da_homeRelay :: "did option"
  da_trust :: "trust_summary option"

record endorsement =
  en_version :: int
  en_from :: did
  en_to :: did
  en_score :: rat
  en_domain :: "string option"
  en_reason :: string
  en_timestamp :: msec
  en_expires :: "msec option"
  en_signature :: string

section \<open>Messages\<close>

datatype delivery_status = Accepted | Delivered | ExpiredReport | QueueFullReport | UnknownRecipient

datatype agent_event = Join | Leave | Update | Publish | Unpublish

datatype route_status = RouteDelivered | RouteNotFound | HopLimitExceeded

record hello_msg =
  he_protocolVersion :: int
  he_did :: did
  he_card :: agent_card
  he_timestamp :: msec
  he_signature :: bytes
  he_inviteToken :: "string option"

record discover_msg =
  di_query :: "jstr option"
  di_capability :: "jstr option"
  di_minTrust :: "rat option"
  di_limit :: "int option"
  di_cursor :: "string option"

record trust_query =
  tq_target :: did
  tq_domain :: "string option"
  tq_since :: "msec option"
  tq_cursor :: "string option"

record route_request =
  rr_targetDid :: did
  rr_envelope :: bytes
  rr_fromRelay :: did
  rr_hopCount :: int
  rr_messageId :: string

record federation_hello =
  fh_relayDid :: did
  fh_relayCard :: agent_card
  fh_endpoints :: "string list"
  fh_timestamp :: msec
  fh_signature :: bytes

record federation_welcome =
  fw_relayDid :: did
  fw_peers :: "did list"
  fw_protocolVersion :: int
  fw_relayCard :: "agent_card option"
  fw_endpoints :: "string list option"

datatype (plugins only: code size) relay_msg =
    Hello hello_msg
  | Welcome did nat "did list" string string
  | SendMsg did stored_envelope
  | Deliver string string bytes
  | Discover discover_msg
  | Discovered "discovered_agent list" "string option" nat
      "did list" nat bool
  | Ack string
  | DeliveryReport string delivery_status msec
  | Ping
  | Pong nat
  | FetchCard did
  | Card did "agent_card option"
  | Goodbye
  | Subscribe "agent_event list"
  | SubscribeAck "string option" bool string
  | Unsubscribe string
  | Event string agent_event did "agent_card option" string
  | Endorse endorsement
  | EndorseAck "string option" bool "string option"
  | TrustQuery trust_query
  | TrustResult did "endorsement list" nat rat "string option"
  | PublishCard "agent_card option"
  | UnpublishCard
  | PublishPreKeys "published_bundle list"
  | PreKeysPublished did nat
  | FetchPreKeyBundle did string "string option" "string option"
  | PreKeyBundle did string "claimed_bundle option" "string option"
  | FederationHello federation_hello
  | FederationWelcome federation_welcome
  | FederationAdmitted did msec
  | AgentJoined did agent_card string msec
  | AgentLeft did string msec
  | RouteRequest route_request
  | RouteResponse string route_status "did option"
  | HealthCheck msec
  | HealthResponse msec nat nat msec

section \<open>Effects\<close>

type_synonym ws = nat

text \<open>Sending a message, closing with a code, and opening a connection to a federation endpoint
  (with the relay and the card it is expected to be).\<close>

datatype effect = Send ws relay_msg | CloseWs ws int | OpenWs string "did option" "agent_card option"

definition ws_open :: "(ws \<Rightarrow> nat) \<Rightarrow> ws \<Rightarrow> bool" where
  "ws_open rs w \<longleftrightarrow> rs w = 1"

definition sent_to :: "effect list \<Rightarrow> ws \<Rightarrow> relay_msg list" where
  "sent_to es w = List.map_filter (\<lambda>e. case e of Send w' m \<Rightarrow> (if w' = w then Some m else None) | _ \<Rightarrow> None) es"

lemma sent_to_simps [simp]:
  "sent_to [] w = []"
  "sent_to (Send w' m # es) w = (if w' = w then m # sent_to es w else sent_to es w)"
  "sent_to (CloseWs w' c # es) w = sent_to es w"
  "sent_to (OpenWs p d cd # es) w = sent_to es w"
  "sent_to (es @ fs) w = sent_to es w @ sent_to fs w"
  by (simp_all add: sent_to_def map_filter_append)

end
