(* ===== verification/Relay_Registry.thy ===== *)
theory Relay_Registry
  imports Relay_Types
begin

text \<open>
  The relay's in-memory agent registry and directory search, \<open>js/relay/src/registry.ts\<close>: the
  tokenizer, the capability prefix index, class \<open>AgentRegistry\<close> with its two indexes, and
  \<open>searchDirectoryEntries\<close> with its visibility rules, ranking and keyset pagination. The
  Unicode lower-casing \<open>lc\<close> and the collation \<open>lcmp\<close> (\<open>localeCompare\<close>) of the host
  are parameters. The card hash is not modelled: nothing reads it.
\<close>

section \<open>Tokens and capability identifiers\<close>

text \<open>The separators \<open>[\s,.\-_!?;:'"()[\]{}]\<close> and the CJK ranges.\<close>

definition token_sep :: "nat \<Rightarrow> bool" where
  "token_sep c \<longleftrightarrow> js_ws c \<or> c \<in> {44, 46, 45, 95, 33, 63, 59, 58, 39, 34, 40, 41, 91, 93, 123, 125}"

definition cjk :: "nat \<Rightarrow> bool" where
  "cjk c \<longleftrightarrow> 0x3000 \<le> c \<and> c \<le> 0x9fff \<or> 0xac00 \<le> c \<and> c \<le> 0xd7af \<or> 0xf900 \<le> c \<and> c \<le> 0xfaff"

fun token_chunks :: "jstr \<Rightarrow> jstr \<Rightarrow> jstr list" where
  "token_chunks cur [] = (if cur = [] then [] else [cur])"
| "token_chunks cur (c # cs) =
     (if token_sep c then (if cur = [] then token_chunks [] cs else cur # token_chunks [] cs)
      else token_chunks (cur @ [c]) cs)"

fun cjk_tokens :: "(jstr \<Rightarrow> jstr) \<Rightarrow> jstr \<Rightarrow> jstr \<Rightarrow> jstr list" where
  "cjk_tokens lc current [] = (if current = [] then [] else [lc current])"
| "cjk_tokens lc current (ch # rest) =
     (if cjk ch then (if current = [] then [] else [lc current]) @ [ch] # cjk_tokens lc [] rest
      else cjk_tokens lc (current @ [ch]) rest)"

definition chunk_tokens :: "(jstr \<Rightarrow> jstr) \<Rightarrow> jstr \<Rightarrow> jstr list" where
  "chunk_tokens lc chunk =
     (if list_ex cjk chunk then cjk_tokens lc [] chunk
      else if length (lc chunk) > 1 then [lc chunk] else [])"

definition tokenize :: "(jstr \<Rightarrow> jstr) \<Rightarrow> jstr \<Rightarrow> jstr list" where
  "tokenize lc text = filter (\<lambda>t. length t > 0) (concat (map (chunk_tokens lc) (token_chunks [] text)))"

definition extractCapabilityIds :: "agent_card \<Rightarrow> jstr list" where
  "extractCapabilityIds crd = filter (\<lambda>i. i \<noteq> []) (map cap_id (card_capabilities crd))"

definition extractTokenKeys :: "(jstr \<Rightarrow> jstr) \<Rightarrow> agent_card \<Rightarrow> jstr list" where
  "extractTokenKeys lc crd =
     js_unique (tokenize lc (card_name crd) @ tokenize lc (card_description crd)
       @ concat (map (\<lambda>cap. tokenize lc (cap_name cap) @ tokenize lc (cap_description cap)) (card_capabilities crd)))"

section \<open>The capability prefix index\<close>

type_synonym did_index = "(jstr, did list) jsmap"

text \<open>All prefixes of an identifier that end at a segment boundary: \<open>a/b/c\<close> has \<open>a\<close>,
  \<open>a/b\<close> and \<open>a/b/c\<close>.\<close>

definition slash :: nat where
  "slash = 47"

definition capability_prefixes :: "jstr \<Rightarrow> jstr list" where
  "capability_prefixes capId =
     (let segments = js_split slash capId
      in map (\<lambda>i. js_join slash (take i segments)) [1..<Suc (length segments)])"

definition index_add :: "did \<Rightarrow> jstr \<Rightarrow> did_index \<Rightarrow> did_index" where
  "index_add did key idx = jm_set key (js_set_add did (case jm_get idx key of Some s \<Rightarrow> s | None \<Rightarrow> [])) idx"

definition index_remove :: "did \<Rightarrow> jstr \<Rightarrow> did_index \<Rightarrow> did_index" where
  "index_remove did key idx = jm_modify key (js_set_delete did) idx"

definition cap_add :: "did \<Rightarrow> jstr \<Rightarrow> did_index \<Rightarrow> did_index" where
  "cap_add did capId idx = fold (index_add did) (capability_prefixes capId) idx"

definition cap_remove :: "did \<Rightarrow> jstr \<Rightarrow> did_index \<Rightarrow> did_index" where
  "cap_remove did capId idx = fold (index_remove did) (capability_prefixes capId) idx"

definition index_lookup :: "did_index \<Rightarrow> jstr \<Rightarrow> did list" where
  "index_lookup idx key = (case jm_get idx key of Some s \<Rightarrow> s | None \<Rightarrow> [])"

definition index_all :: "did_index \<Rightarrow> did list" where
  "index_all idx = js_unique (concat (jm_vals idx))"

section \<open>The registry\<close>

record registered_agent =
  ra_did :: did
  ra_card :: agent_card
  ra_capabilityKeys :: "jstr list"
  ra_connectedAt :: msec
  ra_lastSeen :: msec
  ra_online :: bool
  ra_discoverable :: bool
  ra_realm :: string
  ra_tokenJti :: "string option"
  ra_tokenExp :: "msec option"
  ra_ws :: ws

record registry =
  agents :: "(did, registered_agent) jsmap"
  capPrefixIndex :: did_index
  tokenIndex :: did_index

definition empty_registry :: registry where
  "empty_registry = \<lparr>agents = [], capPrefixIndex = [], tokenIndex = []\<rparr>"

definition addToIndexes :: "(jstr \<Rightarrow> jstr) \<Rightarrow> did \<Rightarrow> registered_agent \<Rightarrow> registry \<Rightarrow> registry" where
  "addToIndexes lc did agent r =
     r\<lparr>capPrefixIndex := fold (\<lambda>capId. cap_add did (lc capId)) (extractCapabilityIds (ra_card agent)) (capPrefixIndex r),
       tokenIndex := fold (index_add did) (ra_capabilityKeys agent) (tokenIndex r)\<rparr>"

definition removeFromIndexes :: "(jstr \<Rightarrow> jstr) \<Rightarrow> did \<Rightarrow> registered_agent \<Rightarrow> registry \<Rightarrow> registry" where
  "removeFromIndexes lc did agent r =
     r\<lparr>capPrefixIndex := fold (\<lambda>capId. cap_remove did (lc capId)) (extractCapabilityIds (ra_card agent)) (capPrefixIndex r),
       tokenIndex := fold (index_remove did) (ra_capabilityKeys agent) (tokenIndex r)\<rparr>"

definition reg_get :: "registry \<Rightarrow> did \<Rightarrow> registered_agent option" where
  "reg_get r did = jm_get (agents r) did"

definition reg_put :: "did \<Rightarrow> registered_agent \<Rightarrow> registry \<Rightarrow> registry" where
  "reg_put did agent r = r\<lparr>agents := jm_set did agent (agents r)\<rparr>"

text \<open>\<open>register\<close>: the previous connection of the same agent is closed if it is still
  connecting or open; the new entry is not discoverable.\<close>

definition reg_register :: "(jstr \<Rightarrow> jstr) \<Rightarrow> msec \<Rightarrow> (ws \<Rightarrow> nat) \<Rightarrow> did \<Rightarrow> agent_card \<Rightarrow> ws \<Rightarrow> string
    \<Rightarrow> string option \<Rightarrow> msec option \<Rightarrow> registry \<Rightarrow> registry \<times> effect list" where
  "reg_register lc now rs did crd w realm jti expAt r =
     (let existing = reg_get r did;
          r1 = (case existing of Some a \<Rightarrow> if ra_discoverable a then removeFromIndexes lc did a r else r | None \<Rightarrow> r);
          out = (case existing of Some a \<Rightarrow> if ra_ws a \<noteq> w \<and> rs (ra_ws a) \<le> 1 then [CloseWs (ra_ws a) 4001] else []
                                | None \<Rightarrow> []);
          agent = \<lparr>ra_did = did, ra_card = crd, ra_capabilityKeys = extractTokenKeys lc crd,
                   ra_connectedAt = (case existing of Some a \<Rightarrow> ra_connectedAt a | None \<Rightarrow> now),
                   ra_lastSeen = now, ra_online = True, ra_discoverable = False, ra_realm = realm,
                   ra_tokenJti = jti, ra_tokenExp = expAt, ra_ws = w\<rparr>
      in (reg_put did agent r1, out))"

definition reg_publish :: "(jstr \<Rightarrow> jstr) \<Rightarrow> did \<Rightarrow> agent_card option \<Rightarrow> registry \<Rightarrow> registry \<times> bool" where
  "reg_publish lc did crd r = (case reg_get r did of
     None \<Rightarrow> (r, False)
   | Some agent \<Rightarrow>
       (let (agent1, r1) = (case crd of
              None \<Rightarrow> (agent, r)
            | Some c \<Rightarrow>
                (let r' = (if ra_discoverable agent then removeFromIndexes lc did agent r else r);
                     a' = agent\<lparr>ra_card := c, ra_capabilityKeys := extractTokenKeys lc c\<rparr>
                 in (a', reg_put did a' r')))
        in if \<not> ra_discoverable agent1 then
             (let agent2 = agent1\<lparr>ra_discoverable := True\<rparr>
              in (addToIndexes lc did agent2 (reg_put did agent2 r1), True))
           else (r1, True)))"

definition reg_unpublish :: "(jstr \<Rightarrow> jstr) \<Rightarrow> did \<Rightarrow> registry \<Rightarrow> registry" where
  "reg_unpublish lc did r = (case reg_get r did of
     Some agent \<Rightarrow> if ra_discoverable agent
       then removeFromIndexes lc did agent (reg_put did (agent\<lparr>ra_discoverable := False\<rparr>) r) else r
   | None \<Rightarrow> r)"

definition reg_unregister :: "(jstr \<Rightarrow> jstr) \<Rightarrow> did \<Rightarrow> registry \<Rightarrow> registry" where
  "reg_unregister lc did r = (case reg_get r did of
     Some agent \<Rightarrow>
       (let r1 = (if ra_discoverable agent then removeFromIndexes lc did agent r else r)
        in r1\<lparr>agents := jm_del did (agents r1)\<rparr>)
   | None \<Rightarrow> r)"

definition reg_markOffline :: "msec \<Rightarrow> did \<Rightarrow> registry \<Rightarrow> registry" where
  "reg_markOffline now did r =
     r\<lparr>agents := jm_modify did (\<lambda>a. a\<lparr>ra_online := False, ra_lastSeen := now\<rparr>) (agents r)\<rparr>"

definition reg_updateLastSeen :: "msec \<Rightarrow> did \<Rightarrow> registry \<Rightarrow> registry" where
  "reg_updateLastSeen now did r = r\<lparr>agents := jm_modify did (\<lambda>a. a\<lparr>ra_lastSeen := now\<rparr>) (agents r)\<rparr>"

text \<open>The delivery code writes \<open>target.online = false\<close> on the registered object.\<close>

definition reg_setOffline :: "did \<Rightarrow> registry \<Rightarrow> registry" where
  "reg_setOffline did r = r\<lparr>agents := jm_modify did (\<lambda>a. a\<lparr>ra_online := False\<rparr>) (agents r)\<rparr>"

definition grace_period :: msec where
  "grace_period = 3 * 60 * 1000"

definition reg_cleanup :: "(jstr \<Rightarrow> jstr) \<Rightarrow> msec \<Rightarrow> registry \<Rightarrow> registry" where
  "reg_cleanup lc now r =
     fold (\<lambda>(did, agent) r. if \<not> ra_online agent \<and> ra_lastSeen agent < now - grace_period
                            then reg_unregister lc did r else r) (agents r) r"

definition reg_isOnline :: "registry \<Rightarrow> did \<Rightarrow> bool" where
  "reg_isOnline r did = (case reg_get r did of Some a \<Rightarrow> ra_online a | None \<Rightarrow> False)"

definition getOnlineCount :: "registry \<Rightarrow> nat" where
  "getOnlineCount r = length (filter ra_online (jm_vals (agents r)))"

definition getOnlineCountByRealm :: "registry \<Rightarrow> string \<Rightarrow> nat" where
  "getOnlineCountByRealm r realm =
     length (filter (\<lambda>a. ra_online a \<and> ra_realm a = realm) (jm_vals (agents r)))"

definition countOnlineByTokenJti :: "registry \<Rightarrow> string \<Rightarrow> did option \<Rightarrow> nat" where
  "countOnlineByTokenJti r jti excludeDid =
     length (filter (\<lambda>a. ra_online a
        \<and> \<not> (case excludeDid of Some d \<Rightarrow> d \<noteq> '''' \<and> ra_did a = d | None \<Rightarrow> False)
        \<and> ra_tokenJti a = Some jti) (jm_vals (agents r)))"

definition listAgents :: "registry \<Rightarrow> registered_agent list" where
  "listAgents r = jm_vals (agents r)"

section \<open>Directory search\<close>

record directory_entry =
  de_did :: did
  de_card :: agent_card
  de_online :: bool
  de_discoverable :: bool
  de_visibilityRealm :: "string option"
  de_lastSeen :: "msec option"
  de_homeRelay :: "did option"

definition listDirectoryEntries :: "registry \<Rightarrow> directory_entry list" where
  "listDirectoryEntries r =
     map (\<lambda>a. \<lparr>de_did = ra_did a, de_card = ra_card a, de_online = ra_online a,
                de_discoverable = ra_discoverable a, de_visibilityRealm = Some (ra_realm a),
                de_lastSeen = Some (ra_lastSeen a), de_homeRelay = None\<rparr>) (jm_vals (agents r))"

definition matchesCapabilityPrefix :: "(jstr \<Rightarrow> jstr) \<Rightarrow> agent_card \<Rightarrow> jstr \<Rightarrow> bool" where
  "matchesCapabilityPrefix lc crd query =
     (let normalized = lc query
      in list_ex (\<lambda>capId. let candidate = lc capId
                          in candidate = normalized \<or> js_startsWith candidate (normalized @ [slash]))
           (extractCapabilityIds crd))"

definition entryTokenScore :: "(jstr \<Rightarrow> jstr) \<Rightarrow> directory_entry \<Rightarrow> jstr list \<Rightarrow> nat" where
  "entryTokenScore lc entry queryTokens =
     length (filter (\<lambda>t. t \<in> set (extractTokenKeys lc (de_card entry))) queryTokens)"

fun unique_entries :: "did list \<Rightarrow> directory_entry list \<Rightarrow> directory_entry list" where
  "unique_entries seen [] = []"
| "unique_entries seen (e # es) =
     (if de_did e \<in> set seen then unique_entries seen es
      else e # unique_entries (de_did e # seen) es)"

definition visible_entry :: "string \<Rightarrow> directory_entry \<Rightarrow> bool" where
  "visible_entry requesterRealm e \<longleftrightarrow>
     de_online e \<and> de_discoverable e
     \<and> (case de_visibilityRealm e of Some v \<Rightarrow> v = '''' \<or> v = requesterRealm | None \<Rightarrow> True)"

definition score_cmp :: "(did \<Rightarrow> did \<Rightarrow> rat) \<Rightarrow> directory_entry \<times> nat \<Rightarrow> directory_entry \<times> nat \<Rightarrow> rat" where
  "score_cmp lcmp left right =
     (let d = of_nat (snd right) - of_nat (snd left)
      in if d \<noteq> 0 then d else lcmp (de_did (fst left)) (de_did (fst right)))"

text \<open>The entries a query selects, in order, before paging.\<close>

definition directory_matches :: "(jstr \<Rightarrow> jstr) \<Rightarrow> (did \<Rightarrow> did \<Rightarrow> rat) \<Rightarrow> directory_entry list \<Rightarrow> jstr
    \<Rightarrow> rat option \<Rightarrow> string \<Rightarrow> (did, rat) jsmap option \<Rightarrow> jstr option \<Rightarrow> directory_entry list" where
  "directory_matches lc lcmp entries query minTrust requesterRealm trustSummaries capability =
     (let trimmed = jtrim query;
          visibleEntries = filter (visible_entry requesterRealm) (unique_entries [] entries);
          trimmedCapability = (case capability of Some c \<Rightarrow> lc (jtrim c) | None \<Rightarrow> []);
          orderedEntries =
            (if trimmedCapability \<noteq> [] then
               filter (\<lambda>e. matchesCapabilityPrefix lc (de_card e) trimmedCapability) visibleEntries
             else if trimmed = [] then visibleEntries
             else (let queryTokens = tokenize lc trimmed
                   in map fst (js_sort (score_cmp lcmp)
                        (filter (\<lambda>(_, score). score > 0)
                          (map (\<lambda>e. (e, entryTokenScore lc e queryTokens)) visibleEntries)))))
      in case (minTrust, trustSummaries) of
           (Some m, Some ts) \<Rightarrow>
             if m > 0 then filter (\<lambda>e. case jm_get ts (de_did e) of Some s \<Rightarrow> s \<ge> m | None \<Rightarrow> False) orderedEntries
             else orderedEntries
         | _ \<Rightarrow> orderedEntries)"

definition find_index :: "('a \<Rightarrow> bool) \<Rightarrow> 'a list \<Rightarrow> nat option" where
  "find_index P xs = (let i = length (takeWhile (\<lambda>x. \<not> P x) xs) in if i < length xs then Some i else None)"

definition discovered_of :: "directory_entry \<Rightarrow> discovered_agent" where
  "discovered_of e = \<lparr>da_did = de_did e, da_card = de_card e, da_online = de_online e,
     da_lastSeen = de_lastSeen e, da_homeRelay = de_homeRelay e, da_trust = None\<rparr>"

text \<open>Paging by the DID of the last entry of the page. Reading that DID from an empty page is a
  \<open>TypeError\<close>, which a limit below one provokes.\<close>

datatype search_error = EmptyPageTypeError

definition cursor_start :: "directory_entry list \<Rightarrow> string option \<Rightarrow> nat" where
  "cursor_start filteredEntries cursor = (case cursor of
     Some c \<Rightarrow> if c = '''' then 0
       else (case find_index (\<lambda>e. de_did e = base64_decode c) filteredEntries of
               Some i \<Rightarrow> i + 1 | None \<Rightarrow> 0)
   | None \<Rightarrow> 0)"

definition search_page :: "directory_entry list \<Rightarrow> int option \<Rightarrow> string option
    \<Rightarrow> search_error + discovered_agent list \<times> string option \<times> nat" where
  "search_page filteredEntries limit cursor =
     (let effectiveLimit = min (case limit of Some l \<Rightarrow> l | None \<Rightarrow> 10) 100;
          total = length filteredEntries;
          startIdx = cursor_start filteredEntries cursor;
          page = js_slice filteredEntries (int startIdx) (int startIdx + effectiveLimit)
      in if int startIdx + effectiveLimit < int total
         then (if page = [] then Inl EmptyPageTypeError
               else Inr (map discovered_of page, Some (base64_encode (de_did (last page))), total))
         else Inr (map discovered_of page, None, total))"

definition searchDirectoryEntries :: "(jstr \<Rightarrow> jstr) \<Rightarrow> (did \<Rightarrow> did \<Rightarrow> rat) \<Rightarrow> directory_entry list \<Rightarrow> jstr
    \<Rightarrow> rat option \<Rightarrow> int option \<Rightarrow> string option \<Rightarrow> string \<Rightarrow> (did, rat) jsmap option \<Rightarrow> jstr option
    \<Rightarrow> search_error + discovered_agent list \<times> string option \<times> nat" where
  "searchDirectoryEntries lc lcmp entries query minTrust limit cursor requesterRealm trustSummaries capability =
     search_page (directory_matches lc lcmp entries query minTrust requesterRealm trustSummaries capability)
       limit cursor"

definition reg_search :: "(jstr \<Rightarrow> jstr) \<Rightarrow> (did \<Rightarrow> did \<Rightarrow> rat) \<Rightarrow> registry \<Rightarrow> jstr \<Rightarrow> rat option \<Rightarrow> int option
    \<Rightarrow> string option \<Rightarrow> string \<Rightarrow> (did, rat) jsmap option \<Rightarrow> search_error + discovered_agent list \<times> string option \<times> nat" where
  "reg_search lc lcmp r query minTrust limit cursor realm ts =
     searchDirectoryEntries lc lcmp (listDirectoryEntries r) query minTrust limit cursor realm ts None"

definition reg_searchByCapability :: "(jstr \<Rightarrow> jstr) \<Rightarrow> (did \<Rightarrow> did \<Rightarrow> rat) \<Rightarrow> registry \<Rightarrow> jstr \<Rightarrow> rat option \<Rightarrow> int option
    \<Rightarrow> string option \<Rightarrow> string \<Rightarrow> (did, rat) jsmap option \<Rightarrow> search_error + discovered_agent list \<times> string option \<times> nat" where
  "reg_searchByCapability lc lcmp r capability minTrust limit cursor realm ts =
     searchDirectoryEntries lc lcmp (listDirectoryEntries r) [] minTrust limit cursor realm ts (Some capability)"

end
