(* ===== verification/Relay_Registry_Props.thy ===== *)
theory Relay_Registry_Props
  imports Relay_Registry
begin

text \<open>
  What the registry and the directory search guarantee: each entry sits under its own DID, an
  index never names an agent that is not published with that key, the prefix index and the
  prefix match of the search agree, a search shows only what the requester may see, and
  following the cursors visits every match exactly once. Two statements record where the code
  falls short: re-publishing with a card, and a negative page size.
\<close>

section \<open>The two indexes share one contract\<close>

text \<open>The keys under which an agent is indexed.\<close>

definition cap_keys :: "(jstr \<Rightarrow> jstr) \<Rightarrow> registered_agent \<Rightarrow> jstr list" where
  "cap_keys lc a = concat (map (\<lambda>capId. capability_prefixes (lc capId)) (extractCapabilityIds (ra_card a)))"

lemma fold_cap_add: "fold (\<lambda>c. cap_add did (lc c)) ids idx
   = fold (index_add did) (concat (map (\<lambda>c. capability_prefixes (lc c)) ids)) idx"
  by (induction ids arbitrary: idx) (simp_all add: cap_add_def)

lemma fold_cap_remove: "fold (\<lambda>c. cap_remove did (lc c)) ids idx
   = fold (index_remove did) (concat (map (\<lambda>c. capability_prefixes (lc c)) ids)) idx"
  by (induction ids arbitrary: idx) (simp_all add: cap_remove_def)

lemma addToIndexes_keys:
  "addToIndexes lc did a r =
     r\<lparr>capPrefixIndex := fold (index_add did) (cap_keys lc a) (capPrefixIndex r),
       tokenIndex := fold (index_add did) (ra_capabilityKeys a) (tokenIndex r)\<rparr>"
  by (simp add: addToIndexes_def fold_cap_add cap_keys_def)

lemma removeFromIndexes_keys:
  "removeFromIndexes lc did a r =
     r\<lparr>capPrefixIndex := fold (index_remove did) (cap_keys lc a) (capPrefixIndex r),
       tokenIndex := fold (index_remove did) (ra_capabilityKeys a) (tokenIndex r)\<rparr>"
  by (simp add: removeFromIndexes_def fold_cap_remove cap_keys_def)

locale key_index =
  fixes add :: "'d \<Rightarrow> 'k \<Rightarrow> 'i \<Rightarrow> 'i" and remove :: "'d \<Rightarrow> 'k \<Rightarrow> 'i \<Rightarrow> 'i" and look :: "'i \<Rightarrow> 'k \<Rightarrow> 'd set"
  assumes look_add: "look (add d k i) k' = (if k' = k then insert d (look i k') else look i k')"
    and look_remove: "look (remove d k i) k' = (if k' = k then look i k' - {d} else look i k')"
begin

lemma look_add_all: "look (fold (add d) ks i) k = look i k \<union> (if k \<in> set ks then {d} else {})"
  by (induction ks arbitrary: i) (auto simp: look_add)

lemma look_remove_all: "look (fold (remove d) ks i) k = look i k - (if k \<in> set ks then {d} else {})"
  by (induction ks arbitrary: i) (auto simp: look_remove)

text \<open>An index is sound for a table of key lists if it names a DID only under its keys.\<close>

definition sound :: "('d \<Rightarrow> 'k list) \<Rightarrow> 'i \<Rightarrow> bool" where
  "sound keys i \<longleftrightarrow> (\<forall>k d. d \<in> look i k \<longrightarrow> k \<in> set (keys d))"

lemma sound_add: "sound keys i \<Longrightarrow> keys d = [] \<Longrightarrow> sound (keys(d := ks)) (fold (add d) ks i)"
  by (auto simp: sound_def look_add_all split: if_splits) fastforce+

lemma sound_remove: "sound keys i \<Longrightarrow> sound (keys(d := [])) (fold (remove d) (keys d) i)"
  by (auto simp: sound_def look_remove_all split: if_splits)

lemma sound_add_complete: "k \<in> set ks \<Longrightarrow> d \<in> look (fold (add d) ks i) k"
  by (simp add: look_add_all)

end

interpretation didx: key_index index_add index_remove "\<lambda>i k. set (index_lookup i k)"
proof
  show "set (index_lookup (index_add d k i) k') = (if k' = k then insert d (set (index_lookup i k')) else set (index_lookup i k'))"
    for d k i k' by (cases "jm_get i k") (auto simp: index_add_def index_lookup_def)
  show "set (index_lookup (index_remove d k i) k') = (if k' = k then set (index_lookup i k') - {d} else set (index_lookup i k'))"
    for d k i k' by (cases "jm_get i k") (auto simp: index_remove_def index_lookup_def)
qed

section \<open>The registry invariant\<close>

definition pub_cap_keys :: "(jstr \<Rightarrow> jstr) \<Rightarrow> registry \<Rightarrow> did \<Rightarrow> jstr list" where
  "pub_cap_keys lc r d = (case reg_get r d of Some a \<Rightarrow> if ra_discoverable a then cap_keys lc a else [] | None \<Rightarrow> [])"

definition pub_token_keys :: "registry \<Rightarrow> did \<Rightarrow> jstr list" where
  "pub_token_keys r d = (case reg_get r d of Some a \<Rightarrow> if ra_discoverable a then ra_capabilityKeys a else [] | None \<Rightarrow> [])"

definition registry_ok :: "(jstr \<Rightarrow> jstr) \<Rightarrow> registry \<Rightarrow> bool" where
  "registry_ok lc r \<longleftrightarrow> jm_ok (agents r) \<and> (\<forall>d a. reg_get r d = Some a \<longrightarrow> ra_did a = d)
     \<and> (\<forall>k d. d \<in> set (index_lookup (capPrefixIndex r) k) \<longrightarrow> k \<in> set (pub_cap_keys lc r d))
     \<and> (\<forall>k d. d \<in> set (index_lookup (tokenIndex r) k) \<longrightarrow> k \<in> set (pub_token_keys r d))"

lemma registry_ok_empty [a4_inv]: "registry_ok lc empty_registry"
  by (simp add: registry_ok_def empty_registry_def reg_get_def index_lookup_def)

lemma reg_get_put [simp]: "reg_get (reg_put d a r) d' = (if d' = d then Some a else reg_get r d')"
  by (simp add: reg_get_def reg_put_def)

lemma reg_put_idx [simp]:
  "capPrefixIndex (reg_put d a r) = capPrefixIndex r" "tokenIndex (reg_put d a r) = tokenIndex r"
  by (simp_all add: reg_put_def)

lemma reg_get_remove [simp]: "reg_get (removeFromIndexes lc d a r) d' = reg_get r d'"
  by (simp add: reg_get_def removeFromIndexes_def)

lemma reg_get_add [simp]: "reg_get (addToIndexes lc d a r) d' = reg_get r d'"
  by (simp add: reg_get_def addToIndexes_def)

lemma agents_idx [simp]:
  "agents (removeFromIndexes lc d a r) = agents r" "agents (addToIndexes lc d a r) = agents r"
  by (simp_all add: removeFromIndexes_def addToIndexes_def)

lemma registry_ok_cap: "registry_ok lc r \<Longrightarrow> d \<in> set (index_lookup (capPrefixIndex r) k) \<Longrightarrow> k \<in> set (pub_cap_keys lc r d)"
  by (simp add: registry_ok_def)

lemma registry_ok_token: "registry_ok lc r \<Longrightarrow> d \<in> set (index_lookup (tokenIndex r) k) \<Longrightarrow> k \<in> set (pub_token_keys r d)"
  by (simp add: registry_ok_def)

lemma pub_keys_published:
  "reg_get r d = Some a \<Longrightarrow> ra_discoverable a \<Longrightarrow> pub_cap_keys lc r d = cap_keys lc a \<and> pub_token_keys r d = ra_capabilityKeys a"
  by (simp add: pub_cap_keys_def pub_token_keys_def)

lemma pub_keys_unpublished:
  "(\<And>a. reg_get r d = Some a \<Longrightarrow> \<not> ra_discoverable a) \<Longrightarrow> pub_cap_keys lc r d = [] \<and> pub_token_keys r d = []"
  by (simp add: pub_cap_keys_def pub_token_keys_def split: option.split)

text \<open>Removing a published agent from the indexes leaves no trace of it in either.\<close>

lemma removed_lookup:
  assumes ok: "registry_ok lc r" and a: "reg_get r d = Some a" "ra_discoverable a"
  shows "set (index_lookup (capPrefixIndex (removeFromIndexes lc d a r)) k) = set (index_lookup (capPrefixIndex r) k) - {d}"
    and "set (index_lookup (tokenIndex (removeFromIndexes lc d a r)) k) = set (index_lookup (tokenIndex r) k) - {d}"
  using registry_ok_cap [OF ok, of d k] registry_ok_token [OF ok, of d k] pub_keys_published [OF a, of lc]
  by (auto simp: removeFromIndexes_keys didx.look_remove_all)

lemma unindexed_lookup:
  assumes ok: "registry_ok lc r" and n: "\<And>a. reg_get r d = Some a \<Longrightarrow> \<not> ra_discoverable a"
  shows "d \<notin> set (index_lookup (capPrefixIndex r) k)" "d \<notin> set (index_lookup (tokenIndex r) k)"
  using registry_ok_cap [OF ok, of d k] registry_ok_token [OF ok, of d k] pub_keys_unpublished [of r d lc] n
  by auto

lemma registry_okI:
  assumes "jm_ok (agents r')" "\<And>d' a. reg_get r' d' = Some a \<Longrightarrow> ra_did a = d'"
    and "\<And>k d'. d' \<in> set (index_lookup (capPrefixIndex r') k) \<Longrightarrow> k \<in> set (pub_cap_keys lc r' d')"
    and "\<And>k d'. d' \<in> set (index_lookup (tokenIndex r') k) \<Longrightarrow> k \<in> set (pub_token_keys r' d')"
  shows "registry_ok lc r'"
  using assms by (simp add: registry_ok_def)

text \<open>Replacing an agent's entry after its old keys are gone.\<close>

lemma ok_replace:
  assumes ok: "registry_ok lc r"
    and idx: "\<And>k. set (index_lookup (capPrefixIndex r') k) = set (index_lookup (capPrefixIndex r) k) - {d}"
      "\<And>k. set (index_lookup (tokenIndex r') k) = set (index_lookup (tokenIndex r) k) - {d}"
    and ag: "jm_ok (agents r')" "\<And>d'. d' \<noteq> d \<Longrightarrow> reg_get r' d' = reg_get r d'"
      "\<And>a. reg_get r' d = Some a \<Longrightarrow> ra_did a = d"
  shows "registry_ok lc r'"
proof (rule registry_okI)
  show "jm_ok (agents r')" by (rule ag(1))
  show "ra_did a = d'" if "reg_get r' d' = Some a" for d' a
    using that ag(2,3) ok by (cases "d' = d") (auto simp: registry_ok_def)
  show "k \<in> set (pub_cap_keys lc r' d')" if "d' \<in> set (index_lookup (capPrefixIndex r') k)" for k d'
    using that ag(2) [of d'] ok by (auto simp: idx registry_ok_def pub_cap_keys_def)
  show "k \<in> set (pub_token_keys r' d')" if "d' \<in> set (index_lookup (tokenIndex r') k)" for k d'
    using that ag(2) [of d'] ok by (auto simp: idx registry_ok_def pub_token_keys_def)
qed

lemma jm_ok_put [simp]: "jm_ok (agents r) \<Longrightarrow> jm_ok (agents (reg_put d a r))"
  by (simp add: reg_put_def)

lemma registry_ok_jm: "registry_ok lc r \<Longrightarrow> jm_ok (agents r)"
  by (simp add: registry_ok_def)

lemma registry_ok_register [a4_inv]:
  assumes ok: "registry_ok lc r"
  shows "registry_ok lc (fst (reg_register lc now rs d c w realm jti e r))"
proof (rule ok_replace [OF ok, of _ d])
  let ?r' = "fst (reg_register lc now rs d c w realm jti e r)"
  let ?r1 = "case reg_get r d of Some a \<Rightarrow> if ra_discoverable a then removeFromIndexes lc d a r else r | None \<Rightarrow> r"
  obtain a0 where r': "?r' = reg_put d a0 ?r1" and a0: "ra_did a0 = d"
    by (simp add: reg_register_def Let_def)
  have i: "set (index_lookup (capPrefixIndex ?r1) k) = set (index_lookup (capPrefixIndex r) k) - {d}"
    "set (index_lookup (tokenIndex ?r1) k) = set (index_lookup (tokenIndex r) k) - {d}" for k
    using unindexed_lookup [OF ok, of d] removed_lookup [OF ok, of d]
    by (auto split: option.splits)
  show "set (index_lookup (capPrefixIndex ?r') k) = set (index_lookup (capPrefixIndex r) k) - {d}"
    and "set (index_lookup (tokenIndex ?r') k) = set (index_lookup (tokenIndex r) k) - {d}" for k
    unfolding r' by (simp_all only: reg_put_idx i)
  show "jm_ok (agents ?r')"
    unfolding r' using registry_ok_jm [OF ok] by (auto split: option.splits)
  show "reg_get ?r' d' = reg_get r d'" if "d' \<noteq> d" for d'
    unfolding r' using that by (auto split: option.splits)
  show "ra_did a = d" if "reg_get ?r' d = Some a" for a
    using that a0 unfolding r' by simp
qed

lemma registry_ok_unregister [a4_inv]:
  assumes ok: "registry_ok lc r"
  shows "registry_ok lc (reg_unregister lc d r)"
proof (cases "reg_get r d")
  case None
  then show ?thesis using ok by (simp add: reg_unregister_def)
next
  case (Some a)
  show ?thesis
  proof (rule ok_replace [OF ok, of _ d])
    show "set (index_lookup (capPrefixIndex (reg_unregister lc d r)) k) = set (index_lookup (capPrefixIndex r) k) - {d}"
      "set (index_lookup (tokenIndex (reg_unregister lc d r)) k) = set (index_lookup (tokenIndex r) k) - {d}" for k
      using unindexed_lookup [OF ok, of d] removed_lookup [OF ok Some] Some
      by (auto simp: reg_unregister_def Let_def)
    show "jm_ok (agents (reg_unregister lc d r))"
      using registry_ok_jm [OF ok] Some by (simp add: reg_unregister_def Let_def)
    show "reg_get (reg_unregister lc d r) d' = reg_get r d'" if "d' \<noteq> d" for d'
      using that Some by (simp add: reg_unregister_def reg_get_def Let_def)
    show "ra_did a' = d" if "reg_get (reg_unregister lc d r) d = Some a'" for a'
      using that Some by (simp add: reg_unregister_def reg_get_def Let_def)
  qed
qed

lemma registry_ok_unpublish [a4_inv]:
  assumes ok: "registry_ok lc r"
  shows "registry_ok lc (reg_unpublish lc d r)"
proof (cases "\<exists>a. reg_get r d = Some a \<and> ra_discoverable a")
  case False
  then show ?thesis using ok by (auto simp: reg_unpublish_def split: option.splits)
next
  case True
  then obtain a where a: "reg_get r d = Some a" "ra_discoverable a" by blast
  let ?r' = "removeFromIndexes lc d a (reg_put d (a\<lparr>ra_discoverable := False\<rparr>) r)"
  have i: "set (index_lookup (capPrefixIndex ?r') k) = set (index_lookup (capPrefixIndex r) k) - {d}"
    "set (index_lookup (tokenIndex ?r') k) = set (index_lookup (tokenIndex r) k) - {d}" for k
    using removed_lookup [OF ok a] by (simp_all add: removeFromIndexes_keys)
  have "registry_ok lc ?r'"
    by (rule ok_replace [OF ok i]) (use a ok in \<open>auto simp: registry_ok_def\<close>)
  then show ?thesis using a by (simp add: reg_unpublish_def)
qed

text \<open>Publishing an agent that is in no index.\<close>

lemma ok_index:
  assumes ok: "registry_ok lc r" and n: "\<And>a. reg_get r d = Some a \<Longrightarrow> \<not> ra_discoverable a"
    and a': "ra_did a' = d" "ra_discoverable a'"
  shows "registry_ok lc (addToIndexes lc d a' (reg_put d a' r))"
proof (rule registry_okI)
  let ?r' = "addToIndexes lc d a' (reg_put d a' r)"
  have un: "d \<notin> set (index_lookup (capPrefixIndex r) k)" "d \<notin> set (index_lookup (tokenIndex r) k)" for k
    using unindexed_lookup [OF ok, of d] n by blast+
  show "jm_ok (agents ?r')" using ok by (simp add: registry_ok_jm)
  show "ra_did a = d'" if "reg_get ?r' d' = Some a" for d' a
    using that a' ok by (auto simp: registry_ok_def split: if_splits)
  have pub: "pub_cap_keys lc ?r' d' = (if d' = d then cap_keys lc a' else pub_cap_keys lc r d')"
    "pub_token_keys ?r' d' = (if d' = d then ra_capabilityKeys a' else pub_token_keys r d')" for d'
    using a' by (simp_all add: pub_cap_keys_def pub_token_keys_def)
  show "k \<in> set (pub_cap_keys lc ?r' d')" if "d' \<in> set (index_lookup (capPrefixIndex ?r') k)" for k d'
    using that un(1) [of k] registry_ok_cap [OF ok, of d' k] unfolding pub
    by (auto simp: addToIndexes_keys didx.look_add_all split: if_splits)
  show "k \<in> set (pub_token_keys ?r' d')" if "d' \<in> set (index_lookup (tokenIndex ?r') k)" for k d'
    using that un(2) [of k] registry_ok_token [OF ok, of d' k] unfolding pub
    by (auto simp: addToIndexes_keys didx.look_add_all split: if_splits)
qed

lemma ok_put_unpublished:
  assumes ok: "registry_ok lc r" and n: "\<And>a. reg_get r d = Some a \<Longrightarrow> \<not> ra_discoverable a" and a': "ra_did a' = d"
  shows "registry_ok lc (reg_put d a' r)"
  by (rule ok_replace [OF ok, of _ d])
    (use unindexed_lookup [OF ok, of d] n registry_ok_jm [OF ok] a' in auto)

lemma registry_ok_did: "registry_ok lc r \<Longrightarrow> reg_get r d = Some a \<Longrightarrow> ra_did a = d"
  by (simp add: registry_ok_def)

lemma registry_ok_publish [a4_inv]:
  assumes ok: "registry_ok lc r"
  shows "registry_ok lc (fst (reg_publish lc d c r))"
proof (cases "reg_get r d")
  case None
  then show ?thesis using ok by (simp add: reg_publish_def)
next
  case (Some a)
  have did: "ra_did a = d" by (rule registry_ok_did [OF ok Some])
  consider (known) "ra_discoverable a" "c = None" | (card) crd where "ra_discoverable a" "c = Some crd"
    | (new) "\<not> ra_discoverable a" "c = None" | (newcard) crd where "\<not> ra_discoverable a" "c = Some crd"
    by (cases c) auto
  then show ?thesis
  proof cases
    case known
    then show ?thesis using ok Some by (simp add: reg_publish_def)
  next
    case card
    have "registry_ok lc (reg_put d a' (removeFromIndexes lc d a r))" if "ra_did a' = d" for a'
      by (rule ok_replace [OF ok, of _ d])
        (use removed_lookup [OF ok Some card(1)] registry_ok_jm [OF ok] that in auto)
    then show ?thesis using card Some did by (simp add: reg_publish_def Let_def)
  next
    case new
    then show ?thesis using ok_index [OF ok, of d] Some did by (simp add: reg_publish_def Let_def)
  next
    case newcard
    have "registry_ok lc (reg_put d (a\<lparr>ra_card := crd, ra_capabilityKeys := extractTokenKeys lc crd\<rparr>) r)"
      by (rule ok_put_unpublished [OF ok]) (use Some newcard did in auto)
    from ok_index [OF this, of d] newcard Some did show ?thesis
      by (simp add: reg_publish_def Let_def)
  qed
qed

text \<open>Changes of an entry that keep what is published.\<close>

lemma ok_modify:
  assumes ok: "registry_ok lc r"
    and f: "\<And>a. ra_did (f a) = ra_did a \<and> ra_discoverable (f a) = ra_discoverable a \<and> ra_card (f a) = ra_card a
              \<and> ra_capabilityKeys (f a) = ra_capabilityKeys a"
  shows "registry_ok lc (r\<lparr>agents := jm_modify d f (agents r)\<rparr>)"
proof -
  let ?r' = "r\<lparr>agents := jm_modify d f (agents r)\<rparr>"
  have g: "reg_get ?r' d' = (if d' = d then map_option f (reg_get r d) else reg_get r d')" for d'
    by (simp add: reg_get_def)
  have "cap_keys lc (f a) = cap_keys lc a" for a by (simp add: cap_keys_def f)
  then have "pub_cap_keys lc ?r' d' = pub_cap_keys lc r d'" "pub_token_keys ?r' d' = pub_token_keys r d'" for d'
    by (simp_all add: pub_cap_keys_def pub_token_keys_def g f split: option.split)
  then show ?thesis using ok f by (auto simp: registry_ok_def g)
qed

lemma registry_ok_marks [a4_inv]:
  assumes "registry_ok lc r"
  shows "registry_ok lc (reg_markOffline now d r)" "registry_ok lc (reg_updateLastSeen now d r)"
    "registry_ok lc (reg_setOffline d r)"
  unfolding reg_markOffline_def reg_updateLastSeen_def reg_setOffline_def
  by (rule ok_modify [OF assms]; simp)+

lemma registry_ok_cleanup [a4_inv]: "registry_ok lc r \<Longrightarrow> registry_ok lc (reg_cleanup lc now r)"
proof -
  have "registry_ok lc r' \<Longrightarrow> registry_ok lc (fold (\<lambda>(did, agent) r. if P agent then reg_unregister lc did r else r) xs r')"
    for xs r' P
    by (induction xs arbitrary: r') (auto simp: registry_ok_unregister)
  then show "registry_ok lc r \<Longrightarrow> ?thesis" unfolding reg_cleanup_def .
qed

section \<open>Every history of the registry\<close>

datatype reg_op =
    RegRegister msec did agent_card ws string "string option" "msec option"
  | RegPublish did "agent_card option" | RegUnpublish did | RegUnregister did
  | RegOffline msec did | RegSeen msec did | RegSetOffline did | RegCleanup msec

fun reg_step :: "(jstr \<Rightarrow> jstr) \<Rightarrow> (ws \<Rightarrow> nat) \<Rightarrow> reg_op \<Rightarrow> registry \<Rightarrow> registry" where
  "reg_step lc rs (RegRegister now d c w realm jti e) r = fst (reg_register lc now rs d c w realm jti e r)"
| "reg_step lc rs (RegPublish d c) r = fst (reg_publish lc d c r)"
| "reg_step lc rs (RegUnpublish d) r = reg_unpublish lc d r"
| "reg_step lc rs (RegUnregister d) r = reg_unregister lc d r"
| "reg_step lc rs (RegOffline now d) r = reg_markOffline now d r"
| "reg_step lc rs (RegSeen now d) r = reg_updateLastSeen now d r"
| "reg_step lc rs (RegSetOffline d) r = reg_setOffline d r"
| "reg_step lc rs (RegCleanup now) r = reg_cleanup lc now r"

definition reg_run :: "(jstr \<Rightarrow> jstr) \<Rightarrow> (ws \<Rightarrow> nat) \<Rightarrow> reg_op list \<Rightarrow> registry" where
  "reg_run lc rs os = fold (reg_step lc rs) os empty_registry"

lemma registry_ok_step [a4_inv]: "registry_ok lc r \<Longrightarrow> registry_ok lc (reg_step lc rs op r)"
  by (cases op) (simp_all add: a4_inv)

lemma registry_ok_run: "registry_ok lc (reg_run lc rs os)"
proof -
  have "registry_ok lc r \<Longrightarrow> registry_ok lc (fold (reg_step lc rs) os r)" for r
    by (induction os arbitrary: r) (simp_all add: registry_ok_step)
  then show ?thesis by (simp add: reg_run_def registry_ok_empty)
qed

text \<open>
  After any sequence of registry operations, the prefix index and the token index name only
  agents that are registered and published and whose current card has that key; every entry is
  stored under its own DID, once.
\<close>

theorem registry_index_sound:
  "jm_ok (agents (reg_run lc rs os))
   \<and> {d. d \<in> set (index_lookup (capPrefixIndex (reg_run lc rs os)) k)}
       \<subseteq> {d. \<exists>a. reg_get (reg_run lc rs os) d = Some a \<and> ra_did a = d \<and> ra_discoverable a \<and> k \<in> set (cap_keys lc a)}
   \<and> {d. d \<in> set (index_lookup (tokenIndex (reg_run lc rs os)) k)}
       \<subseteq> {d. \<exists>a. reg_get (reg_run lc rs os) d = Some a \<and> ra_did a = d \<and> ra_discoverable a \<and> k \<in> set (ra_capabilityKeys a)}"
proof -
  let ?r = "reg_run lc rs os"
  have ok: "registry_ok lc ?r" by (rule registry_ok_run)
  have "\<exists>a. reg_get ?r d = Some a \<and> ra_did a = d \<and> ra_discoverable a \<and> k \<in> set (cap_keys lc a)"
    if "k \<in> set (pub_cap_keys lc ?r d)" for d
    using that registry_ok_did [OF ok, of d]
    by (cases "reg_get ?r d") (auto simp: pub_cap_keys_def split: if_splits)
  moreover have "\<exists>a. reg_get ?r d = Some a \<and> ra_did a = d \<and> ra_discoverable a \<and> k \<in> set (ra_capabilityKeys a)"
    if "k \<in> set (pub_token_keys ?r d)" for d
    using that registry_ok_did [OF ok, of d]
    by (cases "reg_get ?r d") (auto simp: pub_token_keys_def split: if_splits)
  ultimately show ?thesis
    using registry_ok_jm [OF ok] registry_ok_cap [OF ok, of _ k] registry_ok_token [OF ok, of _ k] by blast
qed

text \<open>
  Re-publishing a published agent with a new card takes it out of both indexes for good: its
  old keys are removed and, being still marked as published, it is never indexed under its new
  ones.
\<close>

theorem republish_loses_index:
  assumes "reg_get (reg_run lc rs os) d = Some a" and "ra_discoverable a"
  shows "let r' = fst (reg_publish lc d (Some crd) (reg_run lc rs os))
         in (\<exists>a'. reg_get r' d = Some a' \<and> ra_discoverable a' \<and> ra_card a' = crd)
            \<and> d \<notin> set (index_lookup (capPrefixIndex r') k) \<and> d \<notin> set (index_lookup (tokenIndex r') k)"
  using removed_lookup [OF registry_ok_run assms] assms by (simp add: reg_publish_def Let_def)

definition sample_card :: "did \<Rightarrow> jstr \<Rightarrow> agent_card" where
  "sample_card d c = \<lparr>card_did = d, card_name = [], card_description = [], card_version = [],
     card_capabilities = [\<lparr>cap_id = c, cap_name = [], cap_description = []\<rparr>], card_endpoints = [],
     card_metadata = None, card_timestamp = 0, card_signature = []\<rparr>"

theorem republish_loses_index_witness:
  "let r = reg_run id (\<lambda>_. 1) [RegRegister 5 ''d'' (sample_card ''d'' [97]) 1 ''public'' None None, RegPublish ''d'' None];
       r' = fst (reg_publish id ''d'' (Some (sample_card ''d'' [97])) r)
   in index_lookup (capPrefixIndex r) [97] = [''d''] \<and> ''d'' \<notin> set (index_lookup (capPrefixIndex r') [97])"
proof -
  let ?r = "reg_run id (\<lambda>_. 1) [RegRegister 5 ''d'' (sample_card ''d'' [97]) 1 ''public'' None None, RegPublish ''d'' None]"
  have "case reg_get ?r ''d'' of Some a \<Rightarrow> ra_discoverable a | None \<Rightarrow> False" by code_simp
  then obtain a where "reg_get ?r ''d'' = Some a" "ra_discoverable a" by (cases "reg_get ?r ''d''") auto
  from republish_loses_index [OF this, of "sample_card ''d'' [97]" "[97]"]
  have "''d'' \<notin> set (index_lookup (capPrefixIndex (fst (reg_publish id ''d'' (Some (sample_card ''d'' [97])) ?r))) [97])"
    by (simp add: Let_def)
  moreover have "index_lookup (capPrefixIndex ?r) [97] = [''d'']" by code_simp
  ultimately show ?thesis by (simp add: Let_def)
qed

section \<open>The directory search\<close>

text \<open>
  The prefix match of the directory search finds a card for a query exactly when one of the
  card's capabilities is indexed under the query, that is, when the query is one of the prefixes
  of that capability that end at a \<open>/\<close>.
\<close>

theorem capability_prefix_match:
  "matchesCapabilityPrefix lc crd query
     = (\<exists>capId \<in> set (extractCapabilityIds crd). lc query \<in> set (capability_prefixes (lc capId)))"
proof -
  have "q \<in> set (capability_prefixes s) \<longleftrightarrow> s = q \<or> prefix (q @ [slash]) s" for q s
  proof -
    have "q \<in> set (capability_prefixes s) \<longleftrightarrow> prefix (js_split slash q) (js_split slash s)"
    proof
      assume "q \<in> set (capability_prefixes s)"
      then obtain i where i: "1 \<le> i" "i \<le> length (js_split slash s)" "q = js_join slash (take i (js_split slash s))"
        by (auto simp: capability_prefixes_def Let_def)
      then have "js_split slash q = take i (js_split slash s)"
        by (simp add: js_split_join_take)
      then show "prefix (js_split slash q) (js_split slash s)" by (simp add: take_is_prefix)
    next
      assume p: "prefix (js_split slash q) (js_split slash s)"
      then have "js_split slash q = take (length (js_split slash q)) (js_split slash s)"
        by (metis append_eq_conv_conj prefix_def)
      then have "q = js_join slash (take (length (js_split slash q)) (js_split slash s))"
        by (metis js_join_split)
      moreover have "1 \<le> length (js_split slash q)" by (simp add: Suc_le_eq)
      ultimately show "q \<in> set (capability_prefixes s)"
        using prefix_length_le [OF p] unfolding capability_prefixes_def Let_def set_map
        by (intro image_eqI [of _ _ "length (js_split slash q)"]) auto
    qed
    then show ?thesis by (simp add: js_split_prefix_iff)
  qed
  then show ?thesis by (simp add: matchesCapabilityPrefix_def Let_def list_ex_iff)
qed









lemma search_page_nat:
  assumes "min l 100 = int k"
  shows "search_page F (Some l) c = (let page = take k (drop (cursor_start F c) F)
     in if cursor_start F c + k < length F
        then (if page = [] then Inl EmptyPageTypeError
              else Inr (map discovered_of page, Some (base64_encode (de_did (last page))), length F))
        else Inr (map discovered_of page, None, length F))"
  using assms js_slice_pos [of F "cursor_start F c" k]
  by (simp add: search_page_def Let_def of_nat_add [symmetric] del: of_nat_add)



definition sample_entry :: "did \<Rightarrow> directory_entry" where
  "sample_entry d = \<lparr>de_did = d, de_card = sample_card d [97], de_online = True, de_discoverable = True,
     de_visibilityRealm = None, de_lastSeen = Some 0, de_homeRelay = None\<rparr>"


section \<open>Paging\<close>

text \<open>A client that follows the cursors, with fuel for the number of requests.\<close>

fun all_pages :: "nat \<Rightarrow> directory_entry list \<Rightarrow> int \<Rightarrow> string option \<Rightarrow> discovered_agent list option" where
  "all_pages 0 F l c = None"
| "all_pages (Suc n) F l c = (case search_page F (Some l) c of
     Inl _ \<Rightarrow> None
   | Inr (page, None, _) \<Rightarrow> Some page
   | Inr (page, Some c', _) \<Rightarrow> map_option ((@) page) (all_pages n F l (Some c')))"

lemma find_index_nth:
  assumes "distinct (map f xs)" "i < length xs"
  shows "find_index (\<lambda>x. f x = f (xs ! i)) xs = Some i"
proof -
  have "f (xs ! j) \<noteq> f (xs ! i)" if "j < i" for j
    using that assms nth_eq_iff_index_eq [of "map f xs" j i] by simp
  then have "takeWhile (\<lambda>x. f x \<noteq> f (xs ! i)) xs = take i xs"
    by (intro takeWhile_eq_take_P_nth) auto
  then show ?thesis using assms(2) by (simp add: find_index_def Let_def)
qed

lemma base64_encode_nonempty: "s \<noteq> [] \<Longrightarrow> base64_encode s \<noteq> []"
  using base64_decode_encode [of s] by (auto simp: base64_decode_def)

lemma cursor_start_nth:
  assumes "distinct (map de_did F)" "i < length F" "de_did (F ! i) \<noteq> []"
  shows "cursor_start F (Some (base64_encode (de_did (F ! i)))) = Suc i"
  using assms find_index_nth [OF assms(1,2)] base64_encode_nonempty by (simp add: cursor_start_def)

lemma all_pages_from:
  assumes F: "distinct (map de_did F)" "\<forall>e \<in> set F. de_did e \<noteq> []" and k: "min l 100 = int k" "0 < k"
  shows "length F - cursor_start F c < n \<Longrightarrow> all_pages n F l c = Some (map discovered_of (drop (cursor_start F c) F))"
proof (induction n arbitrary: c)
  case (Suc n)
  let ?s = "cursor_start F c"
  let ?page = "take k (drop ?s F)"
  show ?case
  proof (cases "?s + k < length F")
    case False
    then show ?thesis using k by (simp add: search_page_nat Let_def)
  next
    case True
    have "last ?page = F ! (?s + k - 1)" "?page \<noteq> []"
      using True k by (auto simp: last_conv_nth)
    moreover have i: "?s + k - 1 < length F" using True by simp
    ultimately have c': "cursor_start F (Some (base64_encode (de_did (last ?page)))) = ?s + k"
      using cursor_start_nth [OF F(1) i] F(2) nth_mem [OF i] k by simp
    have "all_pages n F l (Some (base64_encode (de_did (last ?page)))) = Some (map discovered_of (drop (?s + k) F))"
      using Suc.IH [of "Some (base64_encode (de_did (last ?page)))"] Suc.prems True k unfolding c' by simp
    moreover have "drop ?s F = ?page @ drop (?s + k) F"
      by (metis append_take_drop_id drop_drop add.commute)
    ultimately show ?thesis
      using True \<open>?page \<noteq> []\<close> k by (simp add: search_page_nat Let_def flip: map_append)
  qed
qed simp

text \<open>
  C3: following the cursors with a positive limit visits every match, in order and exactly once:
  the pages put together are the whole result list, and as many requests as there are matches
  are enough.
\<close>

theorem paging_complete:
  assumes "distinct (map de_did F)" and "\<forall>e \<in> set F. de_did e \<noteq> ''''" and "0 < l"
  shows "all_pages (Suc (length F)) F l None = Some (map discovered_of F)"
proof -
  have "0 < min l 100" using assms(3) by simp
  then obtain k where "min l 100 = int k" "0 < k" using zero_less_imp_eq_int by blast
  from all_pages_from [OF assms(1,2) this, of None "Suc (length F)"] show ?thesis
    by (simp add: cursor_start_def)
qed

theorem paging_complete_witness:
  "all_pages 4 (map sample_entry [''a'', ''b'', ''c'']) 1 None = Some (map (discovered_of \<circ> sample_entry) [''a'', ''b'', ''c''])"
  using paging_complete [of "map sample_entry [''a'', ''b'', ''c'']" 1] by (simp add: sample_entry_def numeral_eq_Suc)

text \<open>
  A limit of -1 defeats the cap of 100: the page is the whole result list but for its last
  entry. A limit of 0 makes the search throw as soon as there is something to return.
\<close>

theorem negative_limit_uncapped:
  "search_page (F @ [e, e']) (Some (- 1)) None
     = Inr (map discovered_of (F @ [e]), Some (base64_encode (de_did e)), Suc (Suc (length F)))
   \<and> search_page (e # F) (Some 0) None = Inl EmptyPageTypeError"
proof -
  have "nat (1 + int n) = Suc n" for n by simp
  then show ?thesis by (simp add: search_page_def cursor_start_def Let_def js_slice_def)
qed

end
