(* ===== verification/Relay_Prekeys.thy ===== *)
theory Relay_Prekeys
  imports Relay_Types
begin

text \<open>
  The relay's pre-key store, \<open>js/relay/src/prekey-store.ts\<close>: the bundles an agent publishes,
  one record per device, from which other agents claim one-time pre-keys. The store is the
  \<open>level\<close> interface. Operations on one DID run one after the other under its lock
  (\<open>withLock\<close>), so each is one atomic step here.
\<close>

record stored_bundle = published_bundle +
  sb_did :: did
  sb_realm :: string
  sb_updatedAt :: msec

definition valid_one_time_key :: "one_time_pre_key \<Rightarrow> bool" where
  "valid_one_time_key key \<longleftrightarrow> js_integer (keyId key) \<noteq> None \<and> keyId key > 0 \<and> length (publicKey key) > 0"

text \<open>The second filter of the chain keeps the first key of each identifier.\<close>

fun first_of_id :: "rat list \<Rightarrow> one_time_pre_key list \<Rightarrow> one_time_pre_key list" where
  "first_of_id seen [] = []"
| "first_of_id seen (key # ks) =
     (if keyId key \<in> set seen then first_of_id seen ks
      else key # first_of_id (js_set_add (keyId key) seen) ks)"

definition normalizeOneTimePreKeys :: "one_time_pre_key list \<Rightarrow> one_time_pre_key list" where
  "normalizeOneTimePreKeys ks =
     first_of_id [] (js_sort (\<lambda>left right. keyId left - keyId right) (filter valid_one_time_key ks))"

definition normalizeBundle :: "published_bundle \<Rightarrow> published_bundle" where
  "normalizeBundle bundle =
     (let ks = normalizeOneTimePreKeys (oneTimePreKeys bundle)
      in bundle\<lparr>oneTimePreKeyCount := length ks, oneTimePreKeys := ks\<rparr>)"

definition bundleKey :: "did \<Rightarrow> string \<Rightarrow> string" where
  "bundleKey did device = ''bundle:'' @ did @ '':'' @ device"

definition stored_bundle_of :: "did \<Rightarrow> string \<Rightarrow> msec \<Rightarrow> published_bundle \<Rightarrow> stored_bundle" where
  "stored_bundle_of did realm now b =
     \<lparr>deviceId = deviceId b, identityKeyPublic = identityKeyPublic b, signedPreKeyPublic = signedPreKeyPublic b,
      signedPreKeyId = signedPreKeyId b, signedPreKeySignature = signedPreKeySignature b,
      oneTimePreKeyCount = length (oneTimePreKeys b), lastResupplyAt = lastResupplyAt b,
      oneTimePreKeys = oneTimePreKeys b, sb_did = did, sb_realm = realm, sb_updatedAt = now\<rparr>"

definition publishBundles :: "('d, stored_bundle) level_ops \<Rightarrow> msec \<Rightarrow> did \<Rightarrow> string \<Rightarrow> published_bundle list \<Rightarrow> 'd \<Rightarrow> 'd" where
  "publishBundles ops now did realm bundles db =
     (let normalizedBundles = map normalizeBundle bundles;
          nextDeviceIds = map deviceId normalizedBundles;
          pre = bundleKey did '''';
          stale = filter (\<lambda>key. drop (length pre) key \<notin> set nextDeviceIds)
                    (map fst (lv_range_lt ops pre (pre @ js_ff) db));
          db1 = fold (lv_del ops) stale db
      in fold (\<lambda>b. lv_put ops (bundleKey did (deviceId b)) (stored_bundle_of did realm now b)) normalizedBundles db1)"

text \<open>Claiming takes the first one-time key of the record, if there is one, for a requester of
  the same realm.\<close>

definition claimBundle :: "('d, stored_bundle) level_ops \<Rightarrow> msec \<Rightarrow> did \<Rightarrow> string \<Rightarrow> string \<Rightarrow> 'd
    \<Rightarrow> claimed_bundle option \<times> 'd" where
  "claimBundle ops now did device requesterRealm db =
     (case lv_get ops db (bundleKey did device) of
        None \<Rightarrow> (None, db)
      | Some stored \<Rightarrow>
          if sb_realm stored \<noteq> requesterRealm then (None, db)
          else
            (let remainingKeys = tl (oneTimePreKeys stored);
                 claimed = (case oneTimePreKeys stored of [] \<Rightarrow> None | k # _ \<Rightarrow> Some k);
                 nextRecord = stored\<lparr>oneTimePreKeys := remainingKeys, oneTimePreKeyCount := length remainingKeys,
                                     sb_updatedAt := now\<rparr>
             in (Some \<lparr>deviceId = deviceId stored, identityKeyPublic = identityKeyPublic stored,
                   signedPreKeyPublic = signedPreKeyPublic stored, signedPreKeyId = signedPreKeyId stored,
                   signedPreKeySignature = signedPreKeySignature stored, oneTimePreKeyCount = length remainingKeys,
                   lastResupplyAt = lastResupplyAt stored, oneTimePreKey = claimed,
                   remainingOneTimePreKeyCount = length remainingKeys\<rparr>,
                 lv_put ops (bundleKey did device) nextRecord db)))"

end
