(* ===== verification/Relay_Prekeys_Props.thy ===== *)
theory Relay_Prekeys_Props
  imports Relay_Prekeys
begin

text \<open>
  What the pre-key store guarantees: stored one-time keys are valid, sorted and distinct after
  any history, a key is handed out at most once between two publications, and only within the
  realm of its owner.
\<close>

lemma first_of_id_subset: "set (first_of_id seen ks) \<subseteq> set ks"
  by (induction ks arbitrary: seen) (simp_all add: subset_insertI2)

lemma first_of_id_unseen: "k \<in> set (first_of_id seen ks) \<Longrightarrow> keyId k \<notin> set seen"
  by (induction ks arbitrary: seen) (simp, fastforce split: if_splits)

lemma first_of_id_distinct: "distinct (map keyId (first_of_id seen ks))"
  by (induction ks arbitrary: seen) (auto dest: first_of_id_unseen)

lemma first_of_id_sorted: "sorted_wrt R ks \<Longrightarrow> sorted_wrt R (first_of_id seen ks)"
  by (induction ks arbitrary: seen) (auto dest: subsetD [OF first_of_id_subset])

lemma first_of_id_ids: "keyId ` set (first_of_id seen ks) = keyId ` set ks - set seen"
  by (induction ks arbitrary: seen) auto

definition one_time_ok :: "one_time_pre_key list \<Rightarrow> bool" where
  "one_time_ok ks \<longleftrightarrow> list_all valid_one_time_key ks \<and> sorted_wrt (\<lambda>a b. keyId a < keyId b) ks"

lemma one_time_ok_distinct: "one_time_ok ks \<Longrightarrow> distinct (map keyId ks)"
  by (induction ks) (auto simp: one_time_ok_def)

lemma one_time_ok_tl: "one_time_ok ks \<Longrightarrow> one_time_ok (tl ks)"
  by (cases ks) (simp_all add: one_time_ok_def)

lemma strict_sorted: "sorted_wrt (\<lambda>a b. f a \<le> f b) ks \<Longrightarrow> distinct (map f ks) \<Longrightarrow> sorted_wrt (\<lambda>a b. f a < (f b :: rat)) ks"
  by (induction ks) (auto simp: order_less_le image_iff)

lemma normalizeOneTimePreKeys_ok: "one_time_ok (normalizeOneTimePreKeys ks)"
proof -
  let ?s = "js_sort (\<lambda>l r. keyId l - keyId r) (filter valid_one_time_key ks)"
  have "sorted_wrt (\<lambda>a b. keyId a - keyId b \<le> 0) ?s" by (rule sorted_js_sort) auto
  then have "sorted_wrt (\<lambda>a b. keyId a \<le> keyId b) (first_of_id [] ?s)"
    by (intro first_of_id_sorted) simp
  then have "sorted_wrt (\<lambda>a b. keyId a < keyId b) (first_of_id [] ?s)"
    by (rule strict_sorted) (rule first_of_id_distinct)
  moreover have "list_all valid_one_time_key (first_of_id [] ?s)"
    using first_of_id_subset [of "[]" ?s] by (auto simp: list_all_iff)
  ultimately show ?thesis by (simp add: one_time_ok_def normalizeOneTimePreKeys_def)
qed

lemma prekey_keys_subset: "set (normalizeOneTimePreKeys ks) \<subseteq> set ks"
  using first_of_id_subset [of "[]" "js_sort (\<lambda>l r. keyId l - keyId r) (filter valid_one_time_key ks)"]
  by (auto simp: normalizeOneTimePreKeys_def)

text \<open>
  Normalising the one-time keys of a bundle keeps exactly one key for each identifier of a
  valid key, drops the others, and leaves them in strictly ascending order of identifier.
\<close>

theorem normalize_prekeys:
  "one_time_ok (normalizeOneTimePreKeys ks)
   \<and> set (normalizeOneTimePreKeys ks) \<subseteq> set ks
   \<and> keyId ` set (normalizeOneTimePreKeys ks) = keyId ` {k \<in> set ks. valid_one_time_key k}
   \<and> distinct (map keyId (normalizeOneTimePreKeys ks))"
proof -
  let ?s = "js_sort (\<lambda>l r. keyId l - keyId r) (filter valid_one_time_key ks)"
  have "keyId ` set (first_of_id [] ?s) = keyId ` {k \<in> set ks. valid_one_time_key k}"
    by (simp add: first_of_id_ids)
  moreover have "set (first_of_id [] ?s) \<subseteq> set ks"
    using first_of_id_subset [of "[]" ?s] by auto
  ultimately show ?thesis
    using normalizeOneTimePreKeys_ok [of ks] one_time_ok_distinct by (simp add: normalizeOneTimePreKeys_def)
qed

section \<open>Histories of the store\<close>

datatype prekey_op = PkPublish msec did string "published_bundle list" | PkClaim msec did string string

fun prekey_step :: "('d, stored_bundle) level_ops \<Rightarrow> prekey_op \<Rightarrow> 'd \<Rightarrow> claimed_bundle option \<times> 'd" where
  "prekey_step ops (PkPublish now did realm bs) db = (None, publishBundles ops now did realm bs db)"
| "prekey_step ops (PkClaim now did device realm) db = claimBundle ops now did device realm db"

fun prekey_run :: "('d, stored_bundle) level_ops \<Rightarrow> prekey_op list \<Rightarrow> 'd \<Rightarrow> (prekey_op \<times> claimed_bundle option) list \<times> 'd" where
  "prekey_run ops [] db = ([], db)"
| "prekey_run ops (op # os) db =
     (let (c, db1) = prekey_step ops op db; (cs, db2) = prekey_run ops os db1 in ((op, c) # cs, db2))"

text \<open>The one-time keys handed out for one device of one agent, in order.\<close>

fun handed :: "did \<Rightarrow> string \<Rightarrow> prekey_op \<times> claimed_bundle option \<Rightarrow> one_time_pre_key list" where
  "handed did device (PkClaim _ d v _, Some b) =
     (if d = did \<and> v = device then (case oneTimePreKey b of Some k \<Rightarrow> [k] | None \<Rightarrow> []) else [])"
| "handed did device _ = []"

definition handed_out :: "did \<Rightarrow> string \<Rightarrow> (prekey_op \<times> claimed_bundle option) list \<Rightarrow> one_time_pre_key list" where
  "handed_out did device tr = concat (map (handed did device) tr)"

fun plain_prekey_op :: "prekey_op \<Rightarrow> bool" where
  "plain_prekey_op (PkPublish _ d _ _) = plain_did d"
| "plain_prekey_op (PkClaim _ d _ _) = plain_did d"

fun publishes :: "did \<Rightarrow> prekey_op \<Rightarrow> bool" where
  "publishes did (PkPublish _ d _ _) = (d = did)"
| "publishes did _ = False"

definition prekeys_ok :: "('d, stored_bundle) level_ops \<Rightarrow> 'd \<Rightarrow> bool" where
  "prekeys_ok ops db \<longleftrightarrow> (\<forall>k st. lv_get ops db k = Some st \<longrightarrow>
     one_time_ok (oneTimePreKeys st) \<and> oneTimePreKeyCount st = length (oneTimePreKeys st))"

definition keys_left :: "('d, stored_bundle) level_ops \<Rightarrow> 'd \<Rightarrow> string \<Rightarrow> one_time_pre_key list" where
  "keys_left ops db k = (case lv_get ops db k of Some st \<Rightarrow> oneTimePreKeys st | None \<Rightarrow> [])"

lemma bundleKey_plain:
  "plain_did a \<Longrightarrow> plain_did b \<Longrightarrow> bundleKey a u = bundleKey b v \<longleftrightarrow> a = b \<and> u = v"
  using plain_did_sep [of a b u v] by (auto simp: bundleKey_def)

lemma bundleKey_prefix:
  "plain_did a \<Longrightarrow> plain_did b \<Longrightarrow> prefix (bundleKey a '''') (bundleKey b v) \<Longrightarrow> a = b"
  using plain_did_sep [of b a v] by (auto simp: bundleKey_def prefix_def)

locale prekey_store = level_store ops for ops :: "('d, stored_bundle) level_ops"
begin

lemma get_put_fold:
  "(\<exists>b \<in> set bs. key b = k \<and> lv_get ops (fold (\<lambda>b. lv_put ops (key b) (f b)) bs d) k = Some (f b))
   \<or> (k \<notin> key ` set bs \<and> lv_get ops (fold (\<lambda>b. lv_put ops (key b) (f b)) bs d) k = lv_get ops d k)"
proof (induction bs arbitrary: d)
  case (Cons b bs)
  from Cons [of "lv_put ops (key b) (f b) d"] show ?case by (auto simp: get_put split: if_splits)
qed simp

lemma publish_get:
  "(\<exists>b. lv_get ops (publishBundles ops now did realm bs db) k = Some (stored_bundle_of did realm now (normalizeBundle b))
        \<and> b \<in> set bs \<and> k = bundleKey did (deviceId b))
   \<or> (lv_get ops (publishBundles ops now did realm bs db) k = None \<and> prefix (bundleKey did '''') k)
   \<or> lv_get ops (publishBundles ops now did realm bs db) k = lv_get ops db k"
proof -
  let ?pre = "bundleKey did ''''"
  define stale where "stale = filter (\<lambda>key. drop (length ?pre) key \<notin> set (map deviceId (map normalizeBundle bs)))
     (map fst (lv_range_lt ops ?pre (?pre @ js_ff) db))"
  have dev: "deviceId (normalizeBundle b) = deviceId b" for b by (simp add: normalizeBundle_def Let_def)
  have p: "publishBundles ops now did realm bs db = fold (\<lambda>b. lv_put ops (bundleKey did (deviceId b)) (stored_bundle_of did realm now b))
      (map normalizeBundle bs) (fold (lv_del ops) stale db)"
    by (simp only: publishBundles_def Let_def stale_def)
  have "prefix ?pre k" if "k \<in> set stale"
    using that range_prefix by (auto simp: stale_def range_lt_mem)
  then show ?thesis
    using get_put_fold [of "map normalizeBundle bs" "\<lambda>b. bundleKey did (deviceId b)" k
        "stored_bundle_of did realm now" "fold (lv_del ops) stale db"]
    unfolding p get_del_fold by (auto simp: dev split: if_splits)
qed

lemma publish_own:
  assumes "b0 \<in> set bs"
  shows "\<exists>b \<in> set bs. deviceId b = deviceId b0
    \<and> lv_get ops (publishBundles ops now did realm bs db) (bundleKey did (deviceId b0)) = Some (stored_bundle_of did realm now (normalizeBundle b))"
proof -
  have dev: "deviceId (normalizeBundle b) = deviceId b" for b by (simp add: normalizeBundle_def Let_def)
  obtain d where p: "publishBundles ops now did realm bs db
      = fold (\<lambda>b. lv_put ops (bundleKey did (deviceId b)) (stored_bundle_of did realm now b)) (map normalizeBundle bs) d"
    by (simp only: publishBundles_def Let_def)
  have "bundleKey did (deviceId b0) \<in> (\<lambda>b. bundleKey did (deviceId b)) ` set (map normalizeBundle bs)"
    using imageI [OF assms, of normalizeBundle] dev [of b0] by (intro image_eqI [of _ _ "normalizeBundle b0"]) simp_all
  then obtain b where "b \<in> set (map normalizeBundle bs)" "bundleKey did (deviceId b) = bundleKey did (deviceId b0)"
      "lv_get ops (publishBundles ops now did realm bs db) (bundleKey did (deviceId b0)) = Some (stored_bundle_of did realm now b)"
    using get_put_fold [of "map normalizeBundle bs" "\<lambda>b. bundleKey did (deviceId b)" "bundleKey did (deviceId b0)"
        "stored_bundle_of did realm now" d] unfolding p by blast
  then show ?thesis using dev by (auto simp: bundleKey_def)
qed

lemma step_ok:
  assumes "prekeys_ok ops db"
  shows "prekeys_ok ops (snd (prekey_step ops op db))"
proof (cases op)
  case (PkPublish now did realm bs)
  have "one_time_ok (oneTimePreKeys (stored_bundle_of did realm now (normalizeBundle b)))
     \<and> oneTimePreKeyCount (stored_bundle_of did realm now (normalizeBundle b))
       = length (oneTimePreKeys (stored_bundle_of did realm now (normalizeBundle b)))" for b
    by (simp add: stored_bundle_of_def normalizeBundle_def Let_def normalizeOneTimePreKeys_ok)
  then show ?thesis
    using assms publish_get [of now did realm bs db] PkPublish unfolding prekeys_ok_def
    by (metis option.distinct(1) option.inject prekey_step.simps(1) snd_conv)
next
  case (PkClaim now did device realm)
  with assms show ?thesis
    by (auto simp: prekeys_ok_def claimBundle_def Let_def get_put one_time_ok_tl split: option.splits if_splits)
qed

lemma run_ok: "prekeys_ok ops db \<Longrightarrow> prekeys_ok ops (snd (prekey_run ops os db))"
proof (induction os arbitrary: db)
  case (Cons op os)
  from Cons.IH [OF step_ok [OF Cons.prems, of op]] show ?case by (simp add: split_def Let_def)
qed simp

lemma step_handed:
  assumes "plain_did did" "plain_prekey_op op" "\<not> publishes did op"
  shows "handed did device (op, fst (prekey_step ops op db)) @ keys_left ops (snd (prekey_step ops op db)) (bundleKey did device)
     = keys_left ops db (bundleKey did device)"
proof (cases op)
  case (PkPublish now d realm bs)
  with assms have "bundleKey d v \<noteq> bundleKey did device" "\<not> prefix (bundleKey d '''') (bundleKey did device)" for v
    using bundleKey_plain bundleKey_prefix by auto
  then have "lv_get ops (publishBundles ops now d realm bs db) (bundleKey did device) = lv_get ops db (bundleKey did device)"
    using publish_get [of now d realm bs db "bundleKey did device"] by metis
  with PkPublish show ?thesis by (simp add: keys_left_def)
next
  case (PkClaim now d v realm)
  with assms bundleKey_plain [of d did v device] show ?thesis
    by (auto simp: keys_left_def claimBundle_def Let_def get_put split: option.splits list.splits)
qed

lemma run_handed:
  assumes "plain_did did" "list_all plain_prekey_op os" "list_all (\<lambda>op. \<not> publishes did op) os"
  shows "handed_out did device (fst (prekey_run ops os db)) @ keys_left ops (snd (prekey_run ops os db)) (bundleKey did device)
     = keys_left ops db (bundleKey did device)"
  using assms(2,3)
proof (induction os arbitrary: db)
  case (Cons op os)
  from Cons.IH [of "snd (prekey_step ops op db)"] step_handed [OF assms(1), of op device db] Cons.prems show ?case
    by (simp add: handed_out_def split_def Let_def)
qed (simp add: handed_out_def)

lemma empty_ok: "lv_iter ops db = [] \<Longrightarrow> prekeys_ok ops db"
  using iter_mem [of _ _ db] by (simp add: prekeys_ok_def)

end

interpretation rbtp: prekey_store rbt_level
  by (simp add: prekey_store_def rbt_level_store)

text \<open>
  Every record of the pre-key store, after any sequence of publications and claims on an
  empty store, holds valid one-time keys in strictly ascending order, and its count is their
  number.
\<close>

theorem prekey_store_invariant:
  assumes "level_store ops" and "lv_iter ops db = []"
  shows "prekeys_ok ops (snd (prekey_run ops os db))"
  using prekey_store.run_ok [of ops, OF _ prekey_store.empty_ok] assms by (simp add: prekey_store_def)

definition sample_bundle :: "string \<Rightarrow> rat list \<Rightarrow> published_bundle" where
  "sample_bundle v ids = \<lparr>deviceId = v, identityKeyPublic = ''i'', signedPreKeyPublic = ''s'', signedPreKeyId = 1,
     signedPreKeySignature = ''g'', oneTimePreKeyCount = 0, lastResupplyAt = 0,
     oneTimePreKeys = map (\<lambda>i. \<lparr>keyId = i, publicKey = ''k''\<rparr>) ids\<rparr>"

abbreviation sample_history :: "prekey_op list" where
  "sample_history \<equiv> [PkPublish 5 ''did:agent:a'' ''public'' [sample_bundle ''p'' [2, 1, 2, 1/2]],
     PkClaim 6 ''did:agent:a'' ''p'' ''public'']"

theorem prekey_store_invariant_witness:
  "prekeys_ok rbt_level (snd (prekey_run rbt_level sample_history RBT.empty))"
  by (rule prekey_store_invariant [OF rbt_level_store]) simp

text \<open>
  C4: a one-time pre-key is handed out at most once: after any history, whatever other agents
  publish and claim, the keys handed out for a device until its owner publishes again are
  distinct, and together with the keys left in the store they are the keys it had.
\<close>

theorem prekey_claimed_once:
  assumes "level_store ops" and "lv_iter ops init = []" and "db = snd (prekey_run ops hist init)" and "plain_did did"
    and "list_all plain_prekey_op later" and "list_all (\<lambda>op. \<not> publishes did op) later"
  shows "distinct (map keyId (handed_out did device (fst (prekey_run ops later db))))
    \<and> handed_out did device (fst (prekey_run ops later db)) @ keys_left ops (snd (prekey_run ops later db)) (bundleKey did device)
        = keys_left ops db (bundleKey did device)"
proof -
  have p: "prekey_store ops" using assms(1) by (simp add: prekey_store_def)
  have ok: "prekeys_ok ops db"
    using prekey_store.run_ok [OF p prekey_store.empty_ok [OF p assms(2)]] assms(3) by simp
  have "one_time_ok (keys_left ops db (bundleKey did device))"
    using ok by (auto simp: keys_left_def prekeys_ok_def one_time_ok_def split: option.split)
  then have "distinct (map keyId (keys_left ops db (bundleKey did device)))" by (rule one_time_ok_distinct)
  moreover note run = prekey_store.run_handed [OF p assms(4,5,6), of device db]
  ultimately have "distinct (map keyId (handed_out did device (fst (prekey_run ops later db))))"
    by (metis distinct_append map_append)
  with run show ?thesis by blast
qed

theorem prekey_claimed_once_witness:
  "let db = snd (prekey_run rbt_level sample_history RBT.empty);
       os2 = [PkPublish 7 ''did:agent:b'' ''public'' [], PkClaim 7 ''did:agent:a'' ''p'' ''other'',
              PkClaim 8 ''did:agent:a'' ''p'' ''public'', PkClaim 9 ''did:agent:a'' ''p'' ''public'']
   in distinct (map keyId (handed_out ''did:agent:a'' ''p'' (fst (prekey_run rbt_level os2 db))))
      \<and> map keyId (handed_out ''did:agent:a'' ''p'' (fst (prekey_run rbt_level os2 db))) = [2]"
proof -
  let ?db = "snd (prekey_run rbt_level sample_history RBT.empty)"
  let ?os2 = "[PkPublish 7 ''did:agent:b'' ''public'' [], PkClaim 7 ''did:agent:a'' ''p'' ''other'',
              PkClaim 8 ''did:agent:a'' ''p'' ''public'', PkClaim 9 ''did:agent:a'' ''p'' ''public'']"
  have "map keyId (handed_out ''did:agent:a'' ''p'' (fst (prekey_run rbt_level ?os2 ?db))) = [2]" by code_simp
  moreover have "distinct (map keyId (handed_out ''did:agent:a'' ''p'' (fst (prekey_run rbt_level ?os2 ?db))))"
    using prekey_claimed_once [OF rbt_level_store _ refl, where init = RBT.empty
        and did = "''did:agent:a''" and later = ?os2 and hist = sample_history and device = "''p''"]
    by (simp add: plain_did_def)
  ultimately show ?thesis by (simp add: Let_def)
qed

text \<open>
  Bundles cross no realm: a claim succeeds only for a stored bundle of the requester's realm,
  and an unsuccessful claim changes nothing.
\<close>

theorem prekey_realm_isolation:
  assumes "claimBundle ops now did device realm db = (r, db')"
  shows "case r of None \<Rightarrow> db' = db
    | Some b \<Rightarrow> \<exists>st. lv_get ops db (bundleKey did device) = Some st \<and> sb_realm st = realm
        \<and> deviceId b = deviceId st \<and> identityKeyPublic b = identityKeyPublic st
        \<and> remainingOneTimePreKeyCount b = length (oneTimePreKeys st) - 1"
  using assms by (auto simp: claimBundle_def Let_def split: option.splits if_splits)

theorem prekey_realm_isolation_witness:
  "let db = snd (prekey_run rbt_level [hd sample_history] RBT.empty)
   in fst (claimBundle rbt_level 6 ''did:agent:a'' ''p'' ''other'' db) = None
      \<and> snd (claimBundle rbt_level 6 ''did:agent:a'' ''p'' ''other'' db) = db"
proof -
  let ?db = "snd (prekey_run rbt_level [hd sample_history] RBT.empty)"
  let ?c = "claimBundle rbt_level 6 ''did:agent:a'' ''p'' ''other'' ?db"
  have "(case fst ?c of None \<Rightarrow> True | Some _ \<Rightarrow> False)" by code_simp
  then have n: "fst ?c = None" by (simp split: option.splits)
  with prekey_realm_isolation [OF prod.collapse [symmetric, of ?c]] show ?thesis by (simp add: Let_def)
qed

end
