(* ===== verification/Rate_Windows.thy ===== *)
theory Rate_Windows
  imports A4_Prelude
begin

text \<open>
  The two rate limiters of the relay as interfaces. A sliding window keeps the times of what it
  let through; a fixed window keeps a counter and the time the window was opened. Each locale
  states what one request does to the limiter's state; its lemmas bound what a whole run lets
  through. The components interpret them on their own state.
\<close>

definition hits :: "msec list \<Rightarrow> (msec \<Rightarrow> bool) \<Rightarrow> nat" where
  "hits A P = length (filter P A)"

lemma hits_simps [simp]: "hits [] P = 0" "hits (A @ [x]) P = hits A P + (if P x then 1 else 0)"
  by (simp_all add: hits_def)

lemma hits_mono: "(\<And>x. x \<in> set A \<Longrightarrow> P x \<Longrightarrow> Q x) \<Longrightarrow> hits A P \<le> hits A Q"
  unfolding hits_def by (induction A) auto

lemma hits_or: "hits A (\<lambda>x. P x \<or> Q x) \<le> hits A P + hits A Q"
  unfolding hits_def by (induction A) auto

section \<open>Sliding windows\<close>

locale sliding_window =
  fixes push :: "msec \<Rightarrow> 's \<Rightarrow> 's \<times> bool" and times :: "'s \<Rightarrow> msec list" and W :: int and limit :: nat
  assumes accept: "snd (push now s) = (length (filter (\<lambda>t. now - t < W) (times s)) < limit)"
    and times_push: "times (fst (push now s)) = filter (\<lambda>t. now - t < W) (times s) @ (if snd (push now s) then [now] else [])"
    and W_pos: "0 < W"
begin

fun run :: "msec list \<Rightarrow> 's \<Rightarrow> msec list" where
  "run [] s = []"
| "run (now # ts) s = (if snd (push now s) then [now] else []) @ run ts (fst (push now s))"

lemma run_bound:
  assumes "sorted ts" "\<forall>t \<in> set ts. t0 \<le> t" "times s = filter (\<lambda>t. t0 - t < W) A"
    "\<And>u. hits A (\<lambda>x. u - W < x \<and> x \<le> u) \<le> limit"
  shows "hits (A @ run ts s) (\<lambda>x. u - W < x \<and> x \<le> u) \<le> limit"
  using assms
proof (induction ts arbitrary: s A t0)
  case (Cons now ts)
  let ?A = "A @ (if snd (push now s) then [now] else [])"
  have old: "filter (\<lambda>t. now - t < W) (times s) = filter (\<lambda>t. now - t < W) A"
    using Cons.prems(2,3) by (auto simp: filter_filter intro: filter_cong)
  have "times (fst (push now s)) = filter (\<lambda>t. now - t < W) ?A"
    using W_pos by (simp add: times_push old)
  moreover have "hits ?A (\<lambda>x. v - W < x \<and> x \<le> v) \<le> limit" for v
  proof (cases "snd (push now s) \<and> now \<le> v")
    case True
    have "hits A (\<lambda>x. v - W < x \<and> x \<le> v) \<le> hits A (\<lambda>t. now - t < W)"
      by (rule hits_mono) (use True in auto)
    moreover have "hits A (\<lambda>t. now - t < W) < limit"
      using True accept [of now s] by (simp add: old hits_def)
    ultimately show ?thesis using True by simp
  next
    case False
    then show ?thesis using Cons.prems(4) [of v] by auto
  qed
  ultimately have "hits (?A @ run ts (fst (push now s))) (\<lambda>x. u - W < x \<and> x \<le> u) \<le> limit"
    using Cons.prems(1) by (intro Cons.IH) auto
  then show ?case by simp
qed simp

text \<open>In every interval of length \<open>W\<close> at most \<open>limit\<close> requests are let through.\<close>

lemma at_most: "sorted ts \<Longrightarrow> times s = [] \<Longrightarrow> hits (run ts s) (\<lambda>x. u - W < x \<and> x \<le> u) \<le> limit"
proof -
  assume s: "sorted ts" "times s = []"
  have "\<forall>t \<in> set ts. (if ts = [] then 0 else hd ts) \<le> t" using s(1) by (cases ts) auto
  from run_bound [OF s(1) this, of s "[]" u] s(2) show ?thesis by simp
qed

end

section \<open>Fixed windows\<close>

locale window_counter =
  fixes consume :: "msec \<Rightarrow> 's \<Rightarrow> 's \<times> bool" and counter :: "'s \<Rightarrow> (nat \<times> msec) option" and W :: int and limit :: nat
  assumes inside: "counter s = Some (c, w) \<Longrightarrow> now - w < W \<Longrightarrow>
      snd (consume now s) = (c < limit) \<and> counter (fst (consume now s)) = Some (if c < limit then Suc c else c, w)"
    and outside: "(\<And>c w. counter s = Some (c, w) \<Longrightarrow> \<not> now - w < W) \<Longrightarrow>
      snd (consume now s) \<and> counter (fst (consume now s)) = Some (1, now)"
    and limit_pos: "0 < limit" and window_pos: "0 < W"
begin

fun run :: "msec list \<Rightarrow> 's \<Rightarrow> msec list" where
  "run [] s = []"
| "run (now # ts) s = (if snd (consume now s) then [now] else []) @ run ts (fst (consume now s))"

definition window_ok :: "msec list \<Rightarrow> 's \<Rightarrow> bool" where
  "window_ok A s \<longleftrightarrow> (case counter s of
     None \<Rightarrow> A = []
   | Some (c, w) \<Rightarrow> (\<forall>x \<in> set A. x < w + W) \<and> hits A (\<lambda>x. w \<le> x) \<le> c \<and> c \<le> limit \<and> hits A (\<lambda>x. w - W \<le> x \<and> x < w) \<le> limit
       \<and> (\<forall>u < w. hits A (\<lambda>x. u - W < x \<and> x \<le> u) \<le> 2 * limit))"

lemma window_ok_bound: "window_ok A s \<Longrightarrow> hits A (\<lambda>x. u - W < x \<and> x \<le> u) \<le> 2 * limit"
proof (cases "counter s")
  case (Some p)
  assume ok: "window_ok A s"
  obtain c w where p: "p = (c, w)" by (cases p)
  show ?thesis
  proof (cases "u < w")
    case False
    have "hits A (\<lambda>x. u - W < x \<and> x \<le> u) \<le> hits A (\<lambda>x. w \<le> x \<or> w - W \<le> x \<and> x < w)"
      by (rule hits_mono) (use False in auto)
    also have "\<dots> \<le> hits A (\<lambda>x. w \<le> x) + hits A (\<lambda>x. w - W \<le> x \<and> x < w)" by (rule hits_or)
    finally show ?thesis using ok Some p by (simp add: window_ok_def)
  qed (use ok Some p in \<open>simp add: window_ok_def\<close>)
qed (simp add: window_ok_def)

lemma window_ok_step:
  assumes ok: "window_ok A s" and now: "\<And>c w. counter s = Some (c, w) \<Longrightarrow> w \<le> now"
  shows "window_ok (A @ (if snd (consume now s) then [now] else [])) (fst (consume now s))
    \<and> (\<forall>c w. counter (fst (consume now s)) = Some (c, w) \<longrightarrow> w \<le> now)"
proof (cases "\<exists>c w. counter s = Some (c, w) \<and> now - w < W")
  case True
  then obtain c w where cw: "counter s = Some (c, w)" "now - w < W" by blast
  from inside [OF this] ok cw now [OF cw(1)] show ?thesis by (auto simp: window_ok_def)
next
  case False
  then have new: "snd (consume now s)" "counter (fst (consume now s)) = Some (1, now)"
    using outside [of s now] by auto
  show ?thesis
  proof (cases "counter s")
    case None
    then show ?thesis using ok new limit_pos window_pos by (simp add: window_ok_def hits_def)
  next
    case (Some p)
    obtain c w where p: "p = (c, w)" by (cases p)
    have w: "w + W \<le> now" using False Some p by auto
    have A: "\<forall>x \<in> set A. x < w + W" and c: "hits A (\<lambda>x. w \<le> x) \<le> limit"
      using ok Some p by (auto simp: window_ok_def)
    have "hits A (\<lambda>x. now - W \<le> x \<and> x < now) \<le> hits A (\<lambda>x. w \<le> x)"
      by (rule hits_mono) (use w in auto)
    moreover have "hits A (\<lambda>x. now \<le> x) = 0" using A w by (auto simp: hits_def filter_empty_conv)
    moreover have "\<forall>x \<in> set A. x < now + W" using A w window_pos by auto
    ultimately show ?thesis
      using new c limit_pos window_pos window_ok_bound [OF ok] by (simp add: window_ok_def)
  qed
qed

lemma run_bound:
  assumes "sorted ts" "window_ok A s" "\<And>c w t. counter s = Some (c, w) \<Longrightarrow> t \<in> set ts \<Longrightarrow> w \<le> t"
  shows "hits (A @ run ts s) (\<lambda>x. u - W < x \<and> x \<le> u) \<le> 2 * limit"
  using assms
proof (induction ts arbitrary: s A)
  case Nil
  then show ?case using window_ok_bound [of A s u] by simp
next
  case (Cons now ts)
  let ?A = "A @ (if snd (consume now s) then [now] else [])"
  have st: "window_ok ?A (fst (consume now s)) \<and> (\<forall>c w. counter (fst (consume now s)) = Some (c, w) \<longrightarrow> w \<le> now)"
    by (rule window_ok_step [OF Cons.prems(2)]) (use Cons.prems(3) in auto)
  have "w \<le> t" if "counter (fst (consume now s)) = Some (c, w)" "t \<in> set ts" for c w t
    using st that Cons.prems(1) by force
  with Cons.IH [of ?A "fst (consume now s)"] st Cons.prems(1) show ?case by simp
qed

text \<open>In every interval of length \<open>W\<close> at most twice \<open>limit\<close> requests are let through.\<close>

lemma at_most: "sorted ts \<Longrightarrow> counter s = None \<Longrightarrow> hits (run ts s) (\<lambda>x. u - W < x \<and> x \<le> u) \<le> 2 * limit"
  using run_bound [of ts "[]" s u] by (simp add: window_ok_def)

end

end
