(* ===== verification/Relay_Subscriptions.thy ===== *)
theory Relay_Subscriptions
  imports Relay_Types Rate_Windows
begin

text \<open>
  The subscription manager of the relay, \<open>js/relay/src/subscription-manager.ts\<close>: who is told
  about agents that join, leave, change, publish and unpublish. The random subscription
  identifier is a parameter of \<open>subscribe\<close>.
\<close>

record subscription =
  sub_id :: string
  sub_did :: did
  sub_ws :: ws
  sub_events :: "agent_event list"
  sub_realm :: string
  eventTimestamps :: "msec list"

record sub_manager =
  subscriptions :: "(string, subscription) jsmap"
  byDid :: "(did, string list) jsmap"

definition empty_subs :: sub_manager where
  "empty_subs = \<lparr>subscriptions = [], byDid = []\<rparr>"

definition max_subscriptions_per_did :: nat where
  "max_subscriptions_per_did = 10"

definition rate_limit_window :: msec where
  "rate_limit_window = 60 * 1000"

definition rate_limit_max_events :: nat where
  "rate_limit_max_events = 1000"

definition ids_of :: "sub_manager \<Rightarrow> did \<Rightarrow> string list" where
  "ids_of m did = (case jm_get (byDid m) did of Some ids \<Rightarrow> ids | None \<Rightarrow> [])"

text \<open>\<open>subscribe\<close>: the new identifier, or \<open>None\<close> when the DID has ten subscriptions.\<close>

definition subscribe :: "string \<Rightarrow> did \<Rightarrow> ws \<Rightarrow> agent_event list \<Rightarrow> string \<Rightarrow> sub_manager \<Rightarrow> string option \<times> sub_manager" where
  "subscribe sid did w events realm m =
     (if length (ids_of m did) \<ge> max_subscriptions_per_did then (None, m)
      else
        (let s = \<lparr>sub_id = sid, sub_did = did, sub_ws = w, sub_events = js_unique events, sub_realm = realm,
                  eventTimestamps = []\<rparr>
         in (Some sid, m\<lparr>subscriptions := jm_set sid s (subscriptions m),
                         byDid := jm_set did (js_set_add sid (ids_of m did)) (byDid m)\<rparr>)))"

definition unsubscribe :: "string \<Rightarrow> sub_manager \<Rightarrow> sub_manager" where
  "unsubscribe sid m = (case jm_get (subscriptions m) sid of
     None \<Rightarrow> m
   | Some s \<Rightarrow>
       (let byDid1 = jm_modify (sub_did s) (js_set_delete sid) (byDid m)
        in m\<lparr>subscriptions := jm_del sid (subscriptions m),
             byDid := (if jm_get byDid1 (sub_did s) = Some [] then jm_del (sub_did s) byDid1 else byDid1)\<rparr>))"

definition unsubscribeAll :: "did \<Rightarrow> sub_manager \<Rightarrow> sub_manager" where
  "unsubscribeAll did m = (case jm_get (byDid m) did of
     None \<Rightarrow> m
   | Some ids \<Rightarrow> m\<lparr>subscriptions := fold jm_del ids (subscriptions m), byDid := jm_del did (byDid m)\<rparr>)"

text \<open>The rate limit of one subscription: whether an event at time \<open>now\<close> passes.\<close>

definition sub_push :: "msec \<Rightarrow> subscription \<Rightarrow> subscription \<times> bool" where
  "sub_push now s =
     (let recent = filter (\<lambda>t. now - t < rate_limit_window) (eventTimestamps s)
      in if length recent \<ge> rate_limit_max_events then (s\<lparr>eventTimestamps := recent\<rparr>, False)
         else (s\<lparr>eventTimestamps := recent @ [now]\<rparr>, True))"

definition wants_event :: "agent_event \<Rightarrow> did \<Rightarrow> string \<Rightarrow> subscription \<Rightarrow> bool" where
  "wants_event event did realm s \<longleftrightarrow> sub_realm s = realm \<and> event \<in> set (sub_events s) \<and> sub_did s \<noteq> did"

definition dispatch_one :: "(ws \<Rightarrow> nat) \<Rightarrow> msec \<Rightarrow> agent_event \<Rightarrow> did \<Rightarrow> agent_card option \<Rightarrow> string
    \<Rightarrow> subscription \<Rightarrow> subscription \<times> effect list" where
  "dispatch_one rs now event did crd realm s =
     (if \<not> wants_event event did realm s then (s, [])
      else
        (let (s', ok) = sub_push now s
         in (s', if ok \<and> ws_open rs (sub_ws s)
                 then [Send (sub_ws s) (Event (sub_id s) event did
                        (if event \<noteq> Leave \<and> event \<noteq> Unpublish then crd else None) realm)]
                 else [])))"

definition dispatch :: "(ws \<Rightarrow> nat) \<Rightarrow> msec \<Rightarrow> agent_event \<Rightarrow> did \<Rightarrow> agent_card option \<Rightarrow> string
    \<Rightarrow> sub_manager \<Rightarrow> sub_manager \<times> effect list" where
  "dispatch rs now event did crd realm m =
     (m\<lparr>subscriptions := map (\<lambda>(k, s). (k, fst (dispatch_one rs now event did crd realm s))) (subscriptions m)\<rparr>,
      concat (map (\<lambda>(k, s). snd (dispatch_one rs now event did crd realm s)) (subscriptions m)))"

end
