(* ===== verification/Relay_Subscriptions_Props.thy ===== *)
theory Relay_Subscriptions_Props
  imports Relay_Subscriptions
begin

text \<open>
  What the subscription manager guarantees: its two maps agree, a DID has at most ten
  subscriptions, an event goes only to interested subscribers of its realm, and a subscription
  receives at most a thousand events in a minute.
\<close>

section \<open>Consistency of the two maps\<close>

definition subs_ok :: "sub_manager \<Rightarrow> bool" where
  "subs_ok m \<longleftrightarrow> jm_ok (subscriptions m) \<and> jm_ok (byDid m)
     \<and> (\<forall>k s. jm_get (subscriptions m) k = Some s \<longrightarrow> sub_id s = k \<and> k \<in> set (ids_of m (sub_did s)))
     \<and> (\<forall>d k. k \<in> set (ids_of m d) \<longrightarrow> (\<exists>s. jm_get (subscriptions m) k = Some s \<and> sub_did s = d))
     \<and> (\<forall>d. length (ids_of m d) \<le> max_subscriptions_per_did \<and> distinct (ids_of m d))"

lemma subs_okD:
  assumes "subs_ok m"
  shows "jm_get (subscriptions m) k = Some s \<Longrightarrow> sub_id s = k \<and> k \<in> set (ids_of m (sub_did s))"
    and "k \<in> set (ids_of m d) \<Longrightarrow> \<exists>s. jm_get (subscriptions m) k = Some s \<and> sub_did s = d"
    and "length (ids_of m d) \<le> max_subscriptions_per_did" "distinct (ids_of m d)"
    and "jm_ok (subscriptions m)" "jm_ok (byDid m)"
  using assms unfolding subs_ok_def by blast+

lemma subs_ok_empty [a4_inv]: "subs_ok empty_subs"
  by (simp add: subs_ok_def empty_subs_def ids_of_def)

lemma ids_of_set [simp]: "ids_of (m\<lparr>subscriptions := S, byDid := jm_set d ids B\<rparr>) d' = (if d' = d then ids else ids_of (m\<lparr>byDid := B\<rparr>) d')"
  by (simp add: ids_of_def)

lemma subs_ok_subscribe [a4_inv]:
  assumes ok: "subs_ok m" and new: "jm_get (subscriptions m) sid = None"
  shows "subs_ok (snd (subscribe sid d w evs realm m))"
proof (cases "length (ids_of m d) \<ge> max_subscriptions_per_did")
  case True
  then show ?thesis using ok by (simp add: subscribe_def)
next
  case False
  let ?m' = "snd (subscribe sid d w evs realm m)"
  have fresh: "sid \<notin> set (ids_of m d')" for d' using subs_okD(2) [OF ok] new by fastforce
  have ids: "ids_of ?m' d' = (if d' = d then ids_of m d @ [sid] else ids_of m d')" for d'
  proof -
    have "js_set_add sid (ids_of m d) = ids_of m d @ [sid]" using fresh by (simp add: js_set_add_def)
    then show ?thesis using False by (simp add: subscribe_def Let_def ids_of_def)
  qed
  have get: "jm_get (subscriptions ?m') k = (if k = sid then Some \<lparr>sub_id = sid, sub_did = d, sub_ws = w,
      sub_events = js_unique evs, sub_realm = realm, eventTimestamps = []\<rparr> else jm_get (subscriptions m) k)" for k
    using False by (simp add: subscribe_def Let_def)
  show ?thesis
    unfolding subs_ok_def get ids
    using False subs_okD [OF ok] fresh by (auto simp: subscribe_def Let_def)
qed

text \<open>Removing subscriptions: what is left agrees with the index that is left.\<close>

lemma subs_ok_remove:
  assumes ok: "subs_ok m"
    and get: "\<And>k. jm_get (subscriptions m') k = (if k \<in> R then None else jm_get (subscriptions m) k)"
    and ids: "\<And>d. ids_of m' d = filter (\<lambda>k. k \<notin> R) (ids_of m d)"
    and maps: "jm_ok (subscriptions m')" "jm_ok (byDid m')"
  shows "subs_ok m'"
proof -
  have "length (filter (\<lambda>k. k \<notin> R) (ids_of m d)) \<le> max_subscriptions_per_did" for d
    using subs_okD(3) [OF ok, of d] order_trans [OF length_filter_le] by blast
  then show ?thesis
    unfolding subs_ok_def get ids using maps subs_okD(1,2,4) [OF ok] by auto
qed

lemma subs_ok_unsubscribe [a4_inv]:
  assumes ok: "subs_ok m"
  shows "subs_ok (unsubscribe sid m)"
proof (cases "jm_get (subscriptions m) sid")
  case None
  then show ?thesis using ok by (simp add: unsubscribe_def)
next
  case (Some s)
  have other: "sid \<notin> set (ids_of m d)" if "d \<noteq> sub_did s" for d
    using subs_okD(2) [OF ok, of sid d] Some that by auto
  have "sid \<in> set (ids_of m (sub_did s))" using subs_okD(1) [OF ok Some] by simp
  then obtain ids0 where ids0: "jm_get (byDid m) (sub_did s) = Some ids0"
    by (cases "jm_get (byDid m) (sub_did s)") (auto simp: ids_of_def)
  have ids: "ids_of (unsubscribe sid m) d = filter (\<lambda>k. k \<notin> {sid}) (ids_of m d)" for d
  proof (cases "d = sub_did s")
    case True
    have "filter (\<lambda>k. k \<notin> {sid}) xs = js_set_delete sid xs" for xs
      by (induction xs) (auto simp: js_set_delete_def)
    then show ?thesis unfolding True using Some ids0 by (simp only:) (simp add: unsubscribe_def ids_of_def Let_def)
  next
    case False
    then have "filter (\<lambda>k. k \<notin> {sid}) (ids_of m d) = ids_of m d"
      using other [of d] by (auto simp: filter_id_conv)
    then show ?thesis using False Some by (simp add: unsubscribe_def ids_of_def Let_def)
  qed
  show ?thesis
    by (rule subs_ok_remove [OF ok _ ids])
      (use Some subs_okD(5,6) [OF ok] in \<open>auto simp: unsubscribe_def Let_def\<close>)
qed

lemma subs_ok_unsubscribeAll [a4_inv]:
  assumes ok: "subs_ok m"
  shows "subs_ok (unsubscribeAll did m)"
proof (cases "jm_get (byDid m) did")
  case None
  then show ?thesis using ok by (simp add: unsubscribeAll_def)
next
  case (Some ids0)
  have "ids_of (unsubscribeAll did m) d = filter (\<lambda>k. k \<notin> set ids0) (ids_of m d)" for d
  proof (cases "d = did")
    case True
    then show ?thesis using Some by (simp add: unsubscribeAll_def ids_of_def)
  next
    case False
    have "k \<notin> set ids0" if "k \<in> set (ids_of m d)" for k
      using subs_okD(2) [OF ok, of k d] subs_okD(2) [OF ok, of k did] Some False that by (auto simp: ids_of_def)
    then have "filter (\<lambda>k. k \<notin> set ids0) (ids_of m d) = ids_of m d" by (simp add: filter_id_conv)
    then show ?thesis using False Some by (simp add: unsubscribeAll_def ids_of_def)
  qed
  then show ?thesis
    by (rule subs_ok_remove [OF ok, where R = "set ids0", rotated])
      (use Some subs_okD(5,6) [OF ok] in \<open>auto simp: unsubscribeAll_def\<close>)
qed

lemma dispatch_one_fields [simp]:
  "sub_id (fst (dispatch_one rs now e d c realm s)) = sub_id s"
  "sub_did (fst (dispatch_one rs now e d c realm s)) = sub_did s"
  by (simp_all add: dispatch_one_def sub_push_def Let_def split_def)

lemma dispatch_one_effects:
  "snd (dispatch_one rs now e d c realm s) =
     (if wants_event e d realm s \<and> snd (sub_push now s) \<and> ws_open rs (sub_ws s)
      then [Send (sub_ws s) (Event (sub_id s) e d (if e \<noteq> Leave \<and> e \<noteq> Unpublish then c else None) realm)] else [])"
  by (simp add: dispatch_one_def sub_push_def Let_def)

lemma dispatch_get:
  "jm_get (subscriptions (fst (dispatch rs now e d c realm m))) k
     = map_option (\<lambda>s. fst (dispatch_one rs now e d c realm s)) (jm_get (subscriptions m) k)"
  by (simp add: dispatch_def jm_get_map)

lemma subs_ok_dispatch [a4_inv]:
  assumes ok: "subs_ok m"
  shows "subs_ok (fst (dispatch rs now e d c realm m))"
proof -
  have "ids_of (fst (dispatch rs now e d c realm m)) d' = ids_of m d'" for d'
    by (simp add: ids_of_def dispatch_def)
  moreover have "jm_ok (subscriptions (fst (dispatch rs now e d c realm m)))" "jm_ok (byDid (fst (dispatch rs now e d c realm m)))"
    using subs_okD(5,6) [OF ok] by (simp_all add: dispatch_def comp_def split_def)
  ultimately show ?thesis using subs_okD(1,2) [OF ok] subs_okD(3,4) [OF ok]
    unfolding subs_ok_def dispatch_get by fastforce
qed

section \<open>Histories of the manager\<close>

datatype sub_op =
    SubNew string did ws "agent_event list" string | SubDel string | SubDelAll did
  | SubEvent msec agent_event did "agent_card option" string

fun sub_step :: "(ws \<Rightarrow> nat) \<Rightarrow> sub_op \<Rightarrow> sub_manager \<Rightarrow> sub_manager \<times> effect list" where
  "sub_step rs (SubNew sid d w evs realm) m = (snd (subscribe sid d w evs realm m), [])"
| "sub_step rs (SubDel sid) m = (unsubscribe sid m, [])"
| "sub_step rs (SubDelAll d) m = (unsubscribeAll d m, [])"
| "sub_step rs (SubEvent now e d c realm) m = dispatch rs now e d c realm m"

definition sub_run :: "(ws \<Rightarrow> nat) \<Rightarrow> sub_op list \<Rightarrow> sub_manager \<Rightarrow> sub_manager" where
  "sub_run rs os m = fold (\<lambda>op m. fst (sub_step rs op m)) os m"

fun new_ids :: "sub_op \<Rightarrow> string list" where
  "new_ids (SubNew sid _ _ _ _) = [sid]"
| "new_ids _ = []"

text \<open>The random identifiers do not repeat.\<close>

definition fresh_ids :: "sub_op list \<Rightarrow> bool" where
  "fresh_ids os \<longleftrightarrow> distinct (concat (map new_ids os))"

lemma step_dom:
  "jm_get (subscriptions (fst (sub_step rs op m))) k \<noteq> None \<Longrightarrow> jm_get (subscriptions m) k \<noteq> None \<or> k \<in> set (new_ids op)"
  by (cases op)
    (auto simp: subscribe_def unsubscribe_def unsubscribeAll_def Let_def dispatch_get simp del: map_of_eq_None_iff
      split: if_splits option.splits)

lemma step_subs_ok:
  "subs_ok m \<Longrightarrow> \<forall>k \<in> set (new_ids op). jm_get (subscriptions m) k = None \<Longrightarrow> subs_ok (fst (sub_step rs op m))"
  by (cases op) (simp_all add: a4_inv del: map_of_eq_None_iff)

definition sub_wf :: "sub_op list \<Rightarrow> sub_manager \<Rightarrow> bool" where
  "sub_wf os m \<longleftrightarrow> subs_ok m \<and> fresh_ids os \<and> (\<forall>i \<in> set (concat (map new_ids os)). jm_get (subscriptions m) i = None)"

lemma sub_wf_step: "sub_wf (op # os) m \<Longrightarrow> sub_wf os (fst (sub_step rs op m))"
proof -
  assume wf: "sub_wf (op # os) m"
  then have "subs_ok (fst (sub_step rs op m))"
    by (intro step_subs_ok) (auto simp: sub_wf_def simp del: map_of_eq_None_iff)
  moreover have "jm_get (subscriptions (fst (sub_step rs op m))) i = None" if "i \<in> set (concat (map new_ids os))" for i
  proof -
    have "i \<notin> set (new_ids op)" "jm_get (subscriptions m) i = None"
      using wf that by (auto simp: sub_wf_def fresh_ids_def simp del: map_of_eq_None_iff)
    then show ?thesis using step_dom [of rs op m i] by blast
  qed
  ultimately show ?thesis using wf by (auto simp: sub_wf_def fresh_ids_def)
qed

lemma sub_wf_run: "sub_wf os m \<Longrightarrow> subs_ok (sub_run rs os m)"
proof (induction os arbitrary: m)
  case (Cons op os)
  from Cons.IH [OF sub_wf_step [OF Cons.prems]] show ?case by (simp add: sub_run_def)
qed (simp add: sub_run_def sub_wf_def)

lemma sub_wf_empty: "fresh_ids os \<Longrightarrow> sub_wf os empty_subs"
  using subs_ok_empty by (simp add: sub_wf_def empty_subs_def)

lemma run_subs_ok_empty: "fresh_ids os \<Longrightarrow> subs_ok (sub_run rs os empty_subs)"
  by (rule sub_wf_run [OF sub_wf_empty])

text \<open>
  After any sequence of subscriptions, cancellations and events, a DID has at most ten
  subscriptions, and the per-DID index lists exactly the subscriptions there are.
\<close>

theorem subscription_limit:
  assumes "fresh_ids os" and "m = sub_run rs os empty_subs"
  shows "card {k. \<exists>s. jm_get (subscriptions m) k = Some s \<and> sub_did s = d} \<le> 10
    \<and> {k. \<exists>s. jm_get (subscriptions m) k = Some s \<and> sub_did s = d} = set (ids_of m d)"
proof -
  have ok: "subs_ok m" using run_subs_ok_empty [OF assms(1)] assms(2) by simp
  have eq: "{k. \<exists>s. jm_get (subscriptions m) k = Some s \<and> sub_did s = d} = set (ids_of m d)"
    using subs_okD(1,2) [OF ok] by blast
  have "card (set (ids_of m d)) \<le> 10"
    using subs_okD(3,4) [OF ok, of d] by (simp add: distinct_card max_subscriptions_per_did_def)
  with eq show ?thesis by simp
qed

theorem subscription_limit_witness:
  "card {k. \<exists>s. jm_get (subscriptions (sub_run (\<lambda>_. 1) (map (\<lambda>i. SubNew [char_of i] ''d'' 0 [Join] ''public'') [1..<(12::nat)]) empty_subs)) k
       = Some s \<and> sub_did s = ''d''} \<le> 10"
proof -
  have "fresh_ids (map (\<lambda>i. SubNew [char_of i] ''d'' 0 [Join] ''public'') [1..<(12::nat)])"
    by code_simp
  from subscription_limit [OF this refl] show ?thesis by blast
qed

text \<open>
  C5: an event reaches a subscriber only inside the realm of the event, only if it subscribed to
  that kind of event, never about itself, only over an open socket, and without the card when
  the agent left or unpublished.
\<close>

theorem event_scope:
  assumes "fresh_ids os" and "m = sub_run rs os empty_subs"
    and "Send w (Event k e' d' c' r') \<in> set (snd (dispatch rs now e d c realm m))"
  shows "r' = realm \<and> e' = e \<and> d' = d \<and> ws_open rs w \<and> (e \<in> {Leave, Unpublish} \<longrightarrow> c' = None)
    \<and> (\<exists>s. jm_get (subscriptions m) k = Some s \<and> sub_ws s = w \<and> sub_realm s = realm \<and> e \<in> set (sub_events s) \<and> sub_did s \<noteq> d)"
proof -
  have ok: "subs_ok m" using run_subs_ok_empty [OF assms(1)] assms(2) by simp
  from assms(3) obtain k0 s where s: "(k0, s) \<in> set (subscriptions m)"
    and snd: "Send w (Event k e' d' c' r') \<in> set (snd (dispatch_one rs now e d c realm s))"
    by (auto simp: dispatch_def)
  have get: "jm_get (subscriptions m) k0 = Some s" using s jm_in_set_iff [OF subs_okD(5) [OF ok]] by blast
  then have "sub_id s = k0" using subs_okD(1) [OF ok] by blast
  moreover from snd have "wants_event e d realm s" "ws_open rs (sub_ws s)" "w = sub_ws s" "k = sub_id s" "e' = e" "d' = d"
    "r' = realm" "e \<in> {Leave, Unpublish} \<longrightarrow> c' = None"
    by (auto simp: dispatch_one_effects split: if_splits)
  ultimately show ?thesis using get by (simp add: wants_event_def)
qed

theorem event_scope_witness:
  "snd (dispatch (\<lambda>_. 1) 5 Join ''x'' None ''public'' (sub_run (\<lambda>_. 1)
       [SubNew ''1'' ''d'' 7 [Join] ''public'', SubNew ''2'' ''e'' 8 [Join] ''other''] empty_subs))
     = [Send 7 (Event ''1'' Join ''x'' None ''public'')]
   \<and> ws_open (\<lambda>_. 1) 7"
proof -
  let ?os = "[SubNew ''1'' ''d'' 7 [Join] ''public'', SubNew ''2'' ''e'' 8 [Join] ''other'']"
  let ?ef = "snd (dispatch (\<lambda>_. 1) 5 Join ''x'' None ''public'' (sub_run (\<lambda>_. 1) ?os empty_subs))"
  have e: "?ef = [Send 7 (Event ''1'' Join ''x'' None ''public'')]"
    by (simp add: sub_run_def subscribe_def empty_subs_def ids_of_def max_subscriptions_per_did_def js_unique_def
        js_set_add_def dispatch_def dispatch_one_def wants_event_def sub_push_def rate_limit_max_events_def ws_open_def Let_def)
  have f: "fresh_ids ?os" by (simp add: fresh_ids_def)
  have "Send 7 (Event ''1'' Join ''x'' None ''public'') \<in> set ?ef" unfolding e by simp
  from event_scope [OF f refl this] e show ?thesis by blast
qed

section \<open>The rate of events\<close>

interpretation sub_rate: sliding_window sub_push eventTimestamps rate_limit_window rate_limit_max_events
  by unfold_locales (simp_all add: sub_push_def Let_def rate_limit_window_def not_le)

text \<open>The times at which a history sends an event for a subscription.\<close>

definition event_for :: "string \<Rightarrow> effect \<Rightarrow> bool" where
  "event_for k e = (case e of Send _ (Event k' _ _ _ _) \<Rightarrow> k' = k | _ \<Rightarrow> False)"

fun op_time :: "sub_op \<Rightarrow> msec list" where
  "op_time (SubEvent now _ _ _ _) = [now]"
| "op_time _ = []"

fun sent_times :: "(ws \<Rightarrow> nat) \<Rightarrow> string \<Rightarrow> sub_op list \<Rightarrow> sub_manager \<Rightarrow> msec list" where
  "sent_times rs k [] m = []"
| "sent_times rs k (op # os) m =
     concat (map (\<lambda>e. if event_for k e then op_time op else []) (snd (sub_step rs op m)))
     @ sent_times rs k os (fst (sub_step rs op m))"

lemma events_of_list:
  assumes "jm_ok xs" "\<forall>(k, s) \<in> set xs. sub_id s = k"
  shows "concat (map (\<lambda>e. if event_for k e then [now] else []) (concat (map (\<lambda>(k, s). snd (dispatch_one rs now e d c realm s)) xs)))
     = (case jm_get xs k of Some s \<Rightarrow> if snd (dispatch_one rs now e d c realm s) \<noteq> [] then [now] else [] | None \<Rightarrow> [])"
  using assms
proof (induction xs)
  case (Cons p xs)
  obtain k0 s where p: "p = (k0, s)" by (cases p)
  have "jm_get xs k0 = None" using Cons.prems(1) p by (simp add: map_of_eq_None_iff)
  with Cons p show ?case
    by (auto simp: dispatch_one_effects event_for_def)
qed simp

lemma sent_times_event:
  assumes ok: "subs_ok m"
  shows "sent_times rs k (SubEvent now e d c realm # os) m =
     (case jm_get (subscriptions m) k of Some s \<Rightarrow> if snd (dispatch_one rs now e d c realm s) \<noteq> [] then [now] else [] | None \<Rightarrow> [])
     @ sent_times rs k os (fst (dispatch rs now e d c realm m))"
proof -
  have "\<forall>(k, s) \<in> set (subscriptions m). sub_id s = k"
    using subs_okD(1) [OF ok] jm_in_set_iff [OF subs_okD(5) [OF ok]] by blast
  from events_of_list [OF subs_okD(5) [OF ok] this, of k now rs e d c realm] show ?thesis
    by (simp add: dispatch_def cong: if_cong)
qed

lemma sent_times_other:
  "op_time op = [] \<Longrightarrow> sent_times rs k (op # os) m = sent_times rs k os (fst (sub_step rs op m))"
  by (cases op) simp_all

lemma sent_times_gone:
  "sub_wf os m \<Longrightarrow> jm_get (subscriptions m) k = None \<Longrightarrow> k \<notin> set (concat (map new_ids os)) \<Longrightarrow> sent_times rs k os m = []"
proof (induction os arbitrary: m)
  case (Cons op os)
  let ?m = "fst (sub_step rs op m)"
  have "jm_get (subscriptions ?m) k = None"
    using step_dom [of rs op m k] Cons.prems(2,3) unfolding list.map concat.simps set_append by blast
  then have rest: "sent_times rs k os ?m = []"
    using Cons.IH [OF sub_wf_step [OF Cons.prems(1)]] Cons.prems(3) by simp
  have ok: "subs_ok m" using Cons.prems(1) by (simp add: sub_wf_def)
  show ?case
  proof (cases op)
    case (SubEvent now e d c realm)
    then show ?thesis using rest Cons.prems(2) sent_times_event [OF ok] by simp
  qed (use rest sent_times_other in \<open>simp_all\<close>)
qed simp

lemma step_known:
  assumes "jm_get (subscriptions m) k = Some s" "k \<notin> set (new_ids op)" "op_time op = []"
  shows "jm_get (subscriptions (fst (sub_step rs op m))) k \<in> {None, Some s}"
  using assms by (cases op) (auto simp: subscribe_def unsubscribe_def unsubscribeAll_def Let_def split: option.splits)

text \<open>While a subscription lives, its events are paced by its own limiter.\<close>

lemma hits_append [simp]: "hits (A @ B) P = hits A P + hits B P"
  by (simp add: hits_def)

lemma sent_times_known:
  assumes "sub_wf os m" "jm_get (subscriptions m) k = Some s" "k \<notin> set (concat (map new_ids os))" "sorted (concat (map op_time os))"
  shows "\<exists>ts. sorted ts \<and> set ts \<subseteq> set (concat (map op_time os))
     \<and> (\<forall>P. hits (sent_times rs k os m) P \<le> hits (sub_rate.run ts s) P)"
  using assms
proof (induction os arbitrary: m s)
  case Nil
  then show ?case by (intro exI [of _ "[]"]) simp
next
  case (Cons op os)
  let ?m = "fst (sub_step rs op m)"
  note wf = sub_wf_step [OF Cons.prems(1), of rs]
  have k: "k \<notin> set (new_ids op)" "k \<notin> set (concat (map new_ids os))" using Cons.prems(3) by auto
  have so: "sorted (concat (map op_time os))" using Cons.prems(4) by (simp add: sorted_append)
  show ?case
  proof (cases "op_time op = []")
    case True
    consider "jm_get (subscriptions ?m) k = None" | "jm_get (subscriptions ?m) k = Some s"
      using step_known [OF Cons.prems(2) k(1) True, of rs] by auto
    then show ?thesis
    proof cases
      case 1
      then show ?thesis unfolding sent_times_other [OF True] sent_times_gone [OF wf 1 k(2)]
        by (intro exI [of _ "[]"]) simp
    next
      case 2
      show ?thesis unfolding sent_times_other [OF True] list.map concat.simps True append_Nil by (rule Cons.IH [OF wf 2 k(2) so])
    qed
  next
    case False
    then obtain now e d c realm where op: "op = SubEvent now e d c realm" by (cases op) auto
    let ?s = "fst (dispatch_one rs now e d c realm s)"
    have "jm_get (subscriptions ?m) k = Some ?s" using Cons.prems(2) by (simp add: op dispatch_get)
    from Cons.IH [OF wf this k(2) so] obtain ts where ts: "sorted ts" "set ts \<subseteq> set (concat (map op_time os))"
      "\<And>P. hits (sent_times rs k os ?m) P \<le> hits (sub_rate.run ts ?s) P" by blast
    have ok: "subs_ok m" using Cons.prems(1) by (simp add: sub_wf_def)
    have sent: "sent_times rs k (op # os) m = (if snd (dispatch_one rs now e d c realm s) \<noteq> [] then [now] else []) @ sent_times rs k os ?m"
      using Cons.prems(2) sent_times_event [OF ok] by (simp add: op)
    show ?thesis
    proof (cases "wants_event e d realm s")
      case True
      then have s': "?s = fst (sub_push now s)" by (simp add: dispatch_one_def split_def Let_def)
      have "sorted (now # ts)" using ts(1,2) Cons.prems(4) by (auto simp: op)
      moreover have "hits (sent_times rs k (op # os) m) P \<le> hits (sub_rate.run (now # ts) s) P" for P
        using ts(3) [of P] True unfolding sent by (simp add: dispatch_one_effects s' hits_def)
      ultimately show ?thesis using ts(2) by (intro exI [of _ "now # ts"]) (auto simp: op)
    next
      case False
      then have same: "?s = s" and quiet: "snd (dispatch_one rs now e d c realm s) = []"
        by (simp_all add: dispatch_one_def)
      have "set ts \<subseteq> set (concat (map op_time (op # os)))" using ts(2) by auto
      with ts(1,3) same show ?thesis unfolding sent quiet by (intro exI [of _ ts]) simp
    qed
  qed
qed

lemma sent_times_any:
  assumes "sub_wf os m" "jm_get (subscriptions m) k = None" "sorted (concat (map op_time os))"
  shows "\<exists>ts s. sorted ts \<and> eventTimestamps s = [] \<and> (\<forall>P. hits (sent_times rs k os m) P \<le> hits (sub_rate.run ts s) P)"
  using assms
proof (induction os arbitrary: m)
  case Nil
  show ?case by (rule exI [of _ "[]"], rule exI [of _ "\<lparr>sub_id = [], sub_did = [], sub_ws = 0, sub_events = [], sub_realm = [], eventTimestamps = []\<rparr>"]) simp
next
  case (Cons op os)
  let ?m = "fst (sub_step rs op m)"
  note wf = sub_wf_step [OF Cons.prems(1), of rs]
  have ok: "subs_ok m" using Cons.prems(1) by (simp add: sub_wf_def)
  have so: "sorted (concat (map op_time os))" using Cons.prems(3) by (simp add: sorted_append)
  have sent: "sent_times rs k (op # os) m = sent_times rs k os ?m"
  proof (cases op)
    case (SubEvent now e d c realm)
    then show ?thesis using Cons.prems(2) sent_times_event [OF ok] by simp
  qed (simp_all add: sent_times_other)
  show ?case
  proof (cases "jm_get (subscriptions ?m) k")
    case None
    show ?thesis unfolding sent by (rule Cons.IH [OF wf None so])
  next
    case (Some s)
    then have new: "k \<in> set (new_ids op)" using step_dom [of rs op m k] Cons.prems(2) by (metis option.distinct(1))
    then obtain d w evs realm where op: "op = SubNew k d w evs realm" by (cases op) auto
    have "k \<notin> set (concat (map new_ids os))"
      using Cons.prems(1) new by (auto simp: sub_wf_def fresh_ids_def)
    moreover have "eventTimestamps s = []"
      using Some Cons.prems(2) by (auto simp: op subscribe_def Let_def split: if_splits)
    ultimately show ?thesis unfolding sent using sent_times_known [OF wf Some _ so] by blast
  qed
qed

text \<open>
  A subscription receives at most a thousand events in any minute, whatever happens to it
  and to other subscriptions.
\<close>

theorem event_rate:
  assumes "fresh_ids os" and "sorted (concat (map op_time os))"
  shows "hits (sent_times rs k os empty_subs) (\<lambda>x. u - 60 * 1000 < x \<and> x \<le> u) \<le> 1000"
proof -
  have "jm_get (subscriptions empty_subs) k = None" by (simp add: empty_subs_def)
  from sent_times_any [OF sub_wf_empty [OF assms(1)] this assms(2), of rs] obtain ts s where
    ts: "sorted ts" "eventTimestamps s = []" "\<And>P. hits (sent_times rs k os empty_subs) P \<le> hits (sub_rate.run ts s) P"
    by blast
  from sub_rate.at_most [OF ts(1,2), of u] ts(3) [of "\<lambda>x. u - 60 * 1000 < x \<and> x \<le> u"] show ?thesis
    by (simp add: rate_limit_window_def rate_limit_max_events_def)
qed

theorem event_rate_witness:
  "let os = [SubNew ''1'' ''d'' 7 [Join] ''public'', SubEvent 5 Join ''x'' None ''public'', SubEvent 9 Join ''y'' None ''public'']
   in sent_times (\<lambda>_. 1) ''1'' os empty_subs = [5, 9]
      \<and> hits (sent_times (\<lambda>_. 1) ''1'' os empty_subs) (\<lambda>x. 9 - 60 * 1000 < x \<and> x \<le> 9) \<le> 1000"
proof -
  let ?os = "[SubNew ''1'' ''d'' 7 [Join] ''public'', SubEvent 5 Join ''x'' None ''public'', SubEvent 9 Join ''y'' None ''public'']"
  have "sent_times (\<lambda>_. 1) ''1'' ?os empty_subs = [5, 9]" by code_simp
  moreover have "fresh_ids ?os" by (simp add: fresh_ids_def)
  ultimately show ?thesis using event_rate [of ?os "\<lambda>_. 1" "''1''" 9] by (simp add: Let_def)
qed

end
