(* ===== verification/Relay_Endorsements.thy ===== *)
theory Relay_Endorsements
  imports Relay_Types
begin

text \<open>
  The relay's endorsement index, \<open>js/relay/src/endorsement-index.ts\<close>, and the handlers that
  fill and read it, \<open>handleEndorse\<close> and \<open>handleTrustQuery\<close> of
  \<open>js/relay/src/relay-agent-client-handlers.ts\<close>, with their rate limits. The hash that makes
  the identifier of an endorsement (\<open>eid\<close>) and the signature check (\<open>verify\<close>) are
  parameters. Reading and writing the index file is I/O and not modelled.
\<close>

section \<open>The index\<close>

record stored_endorsement = endorsement +
  se_id :: string
  se_storedAt :: msec

definition stored_endorsement_of :: "endorsement \<Rightarrow> string \<Rightarrow> msec \<Rightarrow> stored_endorsement" where
  "stored_endorsement_of e i now = \<lparr>en_version = en_version e, en_from = en_from e, en_to = en_to e,
     en_score = en_score e, en_domain = en_domain e, en_reason = en_reason e, en_timestamp = en_timestamp e,
     en_expires = en_expires e, en_signature = en_signature e, se_id = i, se_storedAt = now\<rparr>"

record endorsement_index =
  byTarget :: "(did, (string, stored_endorsement) jsmap) jsmap"
  byEndorser :: "(did, string list) jsmap"
  byId :: "(string, stored_endorsement) jsmap"

definition empty_endorsements :: endorsement_index where
  "empty_endorsements = \<lparr>byTarget = [], byEndorser = [], byId = []\<rparr>"

text \<open>\<open>getKey\<close>: one endorsement per endorser and domain; no domain and the empty domain count
  as the domain \<open>*\<close>.\<close>

definition getKey :: "did \<Rightarrow> string option \<Rightarrow> string" where
  "getKey frm domain = frm @ '':'' @ (case domain of Some d \<Rightarrow> if d = '''' then ''*'' else d | None \<Rightarrow> ''*'')"

definition target_map :: "endorsement_index \<Rightarrow> did \<Rightarrow> (string, stored_endorsement) jsmap" where
  "target_map x to = (case jm_get (byTarget x) to of Some m \<Rightarrow> m | None \<Rightarrow> [])"

definition endorser_ids :: "endorsement_index \<Rightarrow> did \<Rightarrow> string list" where
  "endorser_ids x frm = (case jm_get (byEndorser x) frm of Some s \<Rightarrow> s | None \<Rightarrow> [])"

definition indexStoredEndorsement :: "stored_endorsement \<Rightarrow> endorsement_index \<Rightarrow> endorsement_index" where
  "indexStoredEndorsement e x =
     x\<lparr>byTarget := jm_set (en_to e) (jm_set (getKey (en_from e) (en_domain e)) e (target_map x (en_to e))) (byTarget x),
       byEndorser := jm_set (en_from e) (js_set_add (se_id e) (endorser_ids x (en_from e))) (byEndorser x),
       byId := jm_set (se_id e) e (byId x)\<rparr>"

definition removeStoredEndorsement :: "stored_endorsement \<Rightarrow> endorsement_index \<Rightarrow> endorsement_index" where
  "removeStoredEndorsement e x =
     (let t1 = jm_modify (en_to e) (jm_del (getKey (en_from e) (en_domain e))) (byTarget x);
          t2 = (if jm_get t1 (en_to e) = Some [] then jm_del (en_to e) t1 else t1);
          f1 = jm_modify (en_from e) (js_set_delete (se_id e)) (byEndorser x);
          f2 = (if jm_get f1 (en_from e) = Some [] then jm_del (en_from e) f1 else f1)
      in x\<lparr>byTarget := t2, byEndorser := f2, byId := jm_del (se_id e) (byId x)\<rparr>)"

text \<open>\<open>store\<close>: replaces the endorsement of the same endorser, target and domain.\<close>

definition store_endorsement :: "(endorsement \<Rightarrow> string) \<Rightarrow> msec \<Rightarrow> endorsement \<Rightarrow> endorsement_index \<Rightarrow> string \<times> endorsement_index" where
  "store_endorsement eid now e x =
     (let i = eid e;
          existing = jm_get (target_map x (en_to e)) (getKey (en_from e) (en_domain e));
          x1 = (case existing of Some old \<Rightarrow> removeStoredEndorsement old x | None \<Rightarrow> x)
      in (i, indexStoredEndorsement (stored_endorsement_of e i now) x1))"

definition not_expired :: "msec \<Rightarrow> stored_endorsement \<Rightarrow> bool" where
  "not_expired now e \<longleftrightarrow> (case en_expires e of None \<Rightarrow> True | Some t \<Rightarrow> t = 0 \<or> t > now)"

definition in_domain :: "string option \<Rightarrow> stored_endorsement \<Rightarrow> bool" where
  "in_domain domain e \<longleftrightarrow> (case domain of None \<Rightarrow> True
     | Some d \<Rightarrow> en_domain e = Some d \<or> en_domain e = None \<or> en_domain e = Some ''*'')"

definition query_all :: "msec \<Rightarrow> did \<Rightarrow> string option \<Rightarrow> msec option \<Rightarrow> endorsement_index \<Rightarrow> stored_endorsement list" where
  "query_all now target domain since x =
     js_sort (\<lambda>a b. of_int (en_timestamp b - en_timestamp a))
       (filter (\<lambda>e. case since of None \<Rightarrow> True | Some t \<Rightarrow> en_timestamp e \<ge> t)
         (filter (in_domain domain) (filter (not_expired now) (jm_vals (target_map x target)))))"

definition query_endorsements :: "msec \<Rightarrow> did \<Rightarrow> string option \<Rightarrow> msec option \<Rightarrow> nat \<Rightarrow> endorsement_index
    \<Rightarrow> stored_endorsement list \<times> nat \<times> rat" where
  "query_endorsements now target domain since limit x =
     (let matching = query_all now target domain since x; tot = length matching
      in (take limit matching, tot, if tot > 0 then sum_list (map en_score matching) / of_nat tot else 0))"

definition getTrustSummary :: "msec \<Rightarrow> did \<Rightarrow> endorsement_index \<Rightarrow> trust_summary option" where
  "getTrustSummary now target x =
     (let (es, tot, avg) = query_endorsements now target None None 1000 x
      in if tot < 3 then None
         else Some \<lparr>ts_endorsementCount = tot, ts_averageScore = avg,
                    ts_oldestEndorsement = (if es = [] then now else Min (set (map en_timestamp es))),
                    ts_verified = (tot \<ge> 10 \<and> avg \<ge> 7 / 10)\<rparr>)"

definition getByEndorser :: "did \<Rightarrow> endorsement_index \<Rightarrow> stored_endorsement list" where
  "getByEndorser endorser x = List.map_filter (jm_get (byId x)) (endorser_ids x endorser)"

fun str_includes :: "'a list \<Rightarrow> 'a list \<Rightarrow> bool" where
  "str_includes [] p = (p = [])"
| "str_includes (c # s) p = (prefix p (c # s) \<or> str_includes s p)"

definition hasEndorsementFrom :: "did \<Rightarrow> did \<Rightarrow> endorsement_index \<Rightarrow> bool" where
  "hasEndorsementFrom endorserPrefix target x =
     list_ex (\<lambda>e. str_includes (en_from e) endorserPrefix) (jm_vals (target_map x target))"

definition gc_due :: "msec \<Rightarrow> stored_endorsement \<Rightarrow> bool" where
  "gc_due now e = (case en_expires e of None \<Rightarrow> False
     | Some t \<Rightarrow> t \<noteq> 0 \<and> now > t + (t - en_timestamp e))"

definition garbageCollect :: "msec \<Rightarrow> endorsement_index \<Rightarrow> nat \<times> endorsement_index" where
  "garbageCollect now x =
     (let due = filter (gc_due now) (jm_vals (byId x))
      in (length due, fold removeStoredEndorsement due x))"

section \<open>Endorsing\<close>

type_synonym window_counters = "(did, nat \<times> msec) jsmap"

definition day_ms :: msec where
  "day_ms = 24 * 60 * 60 * 1000"

text \<open>A fixed window of length \<open>W\<close>: the count and the start of the current window.\<close>

definition consume_window :: "int \<Rightarrow> nat \<Rightarrow> msec \<Rightarrow> did \<Rightarrow> window_counters \<Rightarrow> window_counters \<times> bool" where
  "consume_window W limit now did cs = (case jm_get cs did of
     Some (c, start) \<Rightarrow>
       if now - start < W then (if c \<ge> limit then (cs, False) else (jm_set did (Suc c, start) cs, True))
       else (jm_set did (1, now) cs, True)
   | None \<Rightarrow> (jm_set did (1, now) cs, True))"

datatype endorse_error =
    EndorseRateLimit | AlreadyEndorsed | FromMismatch | BadVersion | BadScore | BadDomain
  | ExpiresPast | ExpiresTooFar | BadSignature | VerifyFailed

text \<open>\<open>/^[a-z0-9]+(-[a-z0-9]+)*$/\<close> and at most 64 characters.\<close>

definition valid_domain :: "string \<Rightarrow> bool" where
  "valid_domain d \<longleftrightarrow>
     list_all (\<lambda>w. w \<noteq> [] \<and> list_all (\<lambda>c. c \<in> set ''abcdefghijklmnopqrstuvwxyz0123456789'') w) (js_split (CHR ''-'') d)
     \<and> length d \<le> 64"

text \<open>The checks of the endorsement itself, in the order of the code. The signature check may
  fail to run, which is an error too.\<close>

definition check_endorsement :: "(endorsement \<Rightarrow> bool option) \<Rightarrow> msec \<Rightarrow> did \<Rightarrow> endorsement \<Rightarrow> endorse_error option" where
  "check_endorsement verify now did e =
     (if en_from e \<noteq> did then Some FromMismatch
      else if en_version e \<noteq> 2 then Some BadVersion
      else if en_score e < 0 \<or> en_score e > 1 then Some BadScore
      else if (case en_domain e of Some d \<Rightarrow> d \<noteq> '''' \<and> \<not> valid_domain d | None \<Rightarrow> False) then Some BadDomain
      else if (case en_expires e of Some t \<Rightarrow> t \<noteq> 0 \<and> t < now | None \<Rightarrow> False) then Some ExpiresPast
      else if (case en_expires e of Some t \<Rightarrow> t \<noteq> 0 \<and> t - en_timestamp e > 365 * day_ms | None \<Rightarrow> False) then Some ExpiresTooFar
      else (case verify e of None \<Rightarrow> Some VerifyFailed | Some ok \<Rightarrow> if ok then None else Some BadSignature))"

record endorse_state =
  es_counters :: window_counters
  es_dedup :: "(string, msec) jsmap"
  es_index :: endorsement_index

definition dedup_key :: "did \<Rightarrow> endorsement \<Rightarrow> string" where
  "dedup_key did e = did @ '':'' @ en_to e @ '':'' @ (case en_domain e of Some d \<Rightarrow> d | None \<Rightarrow> ''*'')"

text \<open>\<open>handleEndorse\<close>: the rate limit and the once-a-day rule are charged before the
  endorsement is checked. The result is the acknowledgement: an error or the identifier.\<close>

definition handleEndorse :: "(endorsement \<Rightarrow> string) \<Rightarrow> (endorsement \<Rightarrow> bool option) \<Rightarrow> msec \<Rightarrow> did \<Rightarrow> endorsement
    \<Rightarrow> endorse_state \<Rightarrow> (endorse_error + string) \<times> endorse_state" where
  "handleEndorse eid verify now did e st =
     (let (cs, ok) = consume_window day_ms 20 now did (es_counters st)
      in if \<not> ok then (Inl EndorseRateLimit, st)
         else
           (let st1 = st\<lparr>es_counters := cs\<rparr>; key = dedup_key did e
            in if (case jm_get (es_dedup st1) key of Some t \<Rightarrow> t \<noteq> 0 \<and> now - t < day_ms | None \<Rightarrow> False)
               then (Inl AlreadyEndorsed, st1)
               else
                 (let st2 = st1\<lparr>es_dedup := jm_set key now (es_dedup st1)\<rparr>
                  in case check_endorsement verify now did e of
                       Some err \<Rightarrow> (Inl err, st2)
                     | None \<Rightarrow>
                         (let (i, x) = store_endorsement eid now e (es_index st2)
                          in (Inr i, st2\<lparr>es_index := x\<rparr>)))))"

definition endorse_ack :: "endorse_error + string \<Rightarrow> relay_msg" where
  "endorse_ack r = (case r of
     Inr i \<Rightarrow> EndorseAck (Some i) True None
   | Inl err \<Rightarrow> EndorseAck None False (Some (case err of
        EndorseRateLimit \<Rightarrow> ''Rate limit exceeded: 20 endorsements per day''
      | AlreadyEndorsed \<Rightarrow> ''Already endorsed this target+domain within 24h''
      | FromMismatch \<Rightarrow> ''Endorsement from field must match connected DID''
      | BadVersion \<Rightarrow> ''Only endorsement version 2 is supported''
      | BadScore \<Rightarrow> ''Score must be between 0 and 1''
      | BadDomain \<Rightarrow> ''Invalid domain format''
      | ExpiresPast \<Rightarrow> ''Expires must be in the future''
      | ExpiresTooFar \<Rightarrow> ''Expires cannot be more than 365 days from timestamp''
      | BadSignature \<Rightarrow> ''Invalid endorsement signature''
      | VerifyFailed \<Rightarrow> ''Failed to verify signature'')))"

section \<open>Trust queries\<close>

definition trust_query_window :: msec where
  "trust_query_window = 60 * 60 * 1000"

definition trust_query_page_size :: int where
  "trust_query_page_size = 50"

definition consumeTrustQueryBudget :: "msec \<Rightarrow> did \<Rightarrow> window_counters \<Rightarrow> window_counters \<times> bool" where
  "consumeTrustQueryBudget now did cs = consume_window trust_query_window 100 now did cs"

definition buildRateLimitedTrustResult :: "trust_query \<Rightarrow> relay_msg" where
  "buildRateLimitedTrustResult msg = TrustResult (tq_target msg) [] 0 0 None"

definition cursor_offset :: "string option \<Rightarrow> int option" where
  "cursor_offset cursor = (case cursor of
     None \<Rightarrow> Some 0
   | Some c \<Rightarrow> if c = '''' then Some 0 else js_parseInt (base64_decode c))"

text \<open>A cursor that is not a number makes the offset \<open>NaN\<close>: the page is empty and there is no
  next cursor.\<close>

definition trust_page :: "stored_endorsement list \<Rightarrow> nat \<Rightarrow> int option \<Rightarrow> stored_endorsement list \<times> string option" where
  "trust_page matching tot offset = (case offset of
     None \<Rightarrow> ([], None)
   | Some n \<Rightarrow>
       (js_slice matching n (n + trust_query_page_size),
        if n + trust_query_page_size < int tot
        then Some (base64url_encode (js_show_int (n + trust_query_page_size))) else None))"

definition buildTrustQueryResponse :: "msec \<Rightarrow> trust_query \<Rightarrow> endorsement_index \<Rightarrow> relay_msg" where
  "buildTrustQueryResponse now msg x =
     (let (es, tot, avg) = query_endorsements now (tq_target msg) (tq_domain msg) (tq_since msg) 10000 x;
          (pg, nextCursor) = trust_page es tot (cursor_offset (tq_cursor msg))
      in TrustResult (tq_target msg) (map endorsement.truncate pg) tot avg nextCursor)"

definition handleTrustQuery :: "msec \<Rightarrow> did \<Rightarrow> trust_query \<Rightarrow> endorsement_index \<Rightarrow> window_counters \<Rightarrow> relay_msg \<times> window_counters" where
  "handleTrustQuery now did msg x cs =
     (let (cs', ok) = consumeTrustQueryBudget now did cs
      in (if ok then buildTrustQueryResponse now msg x else buildRateLimitedTrustResult msg, cs'))"

end
