(* ===== verification/Relay_Federation.thy ===== *)
theory Relay_Federation
  imports Relay_Registry Relay_Prekeys
begin

text \<open>
  Relay-to-relay federation, \<open>js/relay/src/federation-manager.ts\<close>: the admission of peer
  relays (handshake guard, quarantine, health and card probes), the routes to remote agents, the
  export policy, message routing with a hop limit, reconnection and health checks.

  A step is one synchronous run of the code: the handling of one message, close event or timer.
  Where the code awaits a probe, the waiting admission is the entry in
  \<open>pendingHealthChecks\<close> or \<open>pendingCardFetches\<close>, and the step that settles it continues
  it. A rejected promise is continued at the end of the step that rejects it (\<open>settle\<close>), as
  the microtask queue does. A close without a code is code 1005. The check of a card's signature (\<open>verify\<close>) is awaited by the
  code; here it is a function whose result is there at once. Timers are recorded by the time at
  which they are due.
\<close>

section \<open>Data\<close>

datatype admission_state = Connecting | Authenticated | Probation | Admitted

datatype eligibility_error = DidMismatch | MissingCapabilities "jstr list" | NoEndpoint

text \<open>Why an admission failed: one constructor for each error message of the code.\<close>

datatype admission_error =
    AdmissionTimedOut | HealthProbeUnavailable | HealthProbeTimedOut | CardProbeUnavailable | CardProbeTimedOut
  | NoRelayCard | MismatchedRelayCard | InvalidRelayCard | NotEligible eligibility_error | PeerDisconnected

record window_counter_entry =
  wc_count :: nat
  wc_windowStart :: msec

definition required_relay_capabilities :: "jstr list" where
  "required_relay_capabilities =
     map jtext [''relay/message-routing'', ''relay/discovery'', ''relay/health-check'', ''relay/federation'']"

fun isMessageAllowedDuringProbation :: "relay_msg \<Rightarrow> bool" where
  "isMessageAllowedDuringProbation (FederationWelcome _) = True"
| "isMessageAllowedDuringProbation (FederationAdmitted _ _) = True"
| "isMessageAllowedDuringProbation (HealthCheck _) = True"
| "isMessageAllowedDuringProbation (HealthResponse _ _ _ _) = True"
| "isMessageAllowedDuringProbation (FetchCard _) = True"
| "isMessageAllowedDuringProbation (Card _ _) = True"
| "isMessageAllowedDuringProbation _ = False"

definition isWebSocketEndpoint :: "string \<Rightarrow> bool" where
  "isWebSocketEndpoint e \<longleftrightarrow> js_startsWith e ''ws://'' \<or> js_startsWith e ''wss://''"

definition normalizeRelayEndpoints :: "string list \<Rightarrow> string list" where
  "normalizeRelayEndpoints es = js_unique (filter isWebSocketEndpoint (filter (\<lambda>e. e \<noteq> '''') (map js_trim es)))"

record fed_relay =
  fr_did :: did
  fr_endpoints :: "string list"
  fr_card :: "agent_card option"
  fr_ws :: "ws option"
  fr_inbound :: bool
  fr_sourceIp :: "string option"
  fr_lastSeen :: msec
  fr_connected :: bool
  fr_admissionState :: admission_state
  fr_admittedByPeer :: bool
  fr_connecting :: bool
  fr_reconnectAttempts :: nat
  fr_reconnectTimer :: "msec option"
  fr_probationTimer :: "msec option"
  fr_agentCount :: nat
  fr_uptime :: msec
  fr_pendingPeerDids :: "did list"
  fr_admissionError :: "admission_error option"
  fr_eligibilityCheckedAt :: "msec option"
  fr_lastHealthCheckAt :: "msec option"
  fr_lastHealthResponseAt :: "msec option"
  fr_lastProbeStartedAt :: "msec option"
  fr_lastProbeSucceededAt :: "msec option"
  fr_violationCount :: nat

record agent_route =
  ar_relayDid :: did
  ar_realm :: string
  ar_card :: agent_card
  ar_lastSeen :: msec

datatype export_policy = ExportNone | ExportSelective | ExportFull

record realm_policy =
  rp_exportPolicy :: "export_policy option"
  rp_selectiveVisibilityValue :: "string option"

record fed_config =
  maxHops :: int
  healthCheckInterval :: int
  connectionTimeout :: int
  reconnectDelay :: int
  maxReconnectDelay :: int
  maxReconnectAttempts :: nat
  handshakeRateLimitWindowMs :: int
  handshakeRateLimitMaxAttempts :: nat
  failedHandshakeWindowMs :: int
  failedHandshakeThreshold :: nat
  failedHandshakeQuarantineMs :: int
  exportPolicy :: export_policy
  selectiveVisibilityValue :: string
  realmPolicies :: "(string, realm_policy) jsmap"

definition default_fed_config :: fed_config where
  "default_fed_config = \<lparr>maxHops = 3, healthCheckInterval = 30000, connectionTimeout = 10000, reconnectDelay = 5000,
     maxReconnectDelay = 60000, maxReconnectAttempts = 5, handshakeRateLimitWindowMs = 60000,
     handshakeRateLimitMaxAttempts = 5, failedHandshakeWindowMs = 300000, failedHandshakeThreshold = 3,
     failedHandshakeQuarantineMs = 300000, exportPolicy = ExportFull, selectiveVisibilityValue = ''public'',
     realmPolicies = []\<rparr>"

record prekey_fetch =
  pf_relayDid :: did
  pf_did :: did
  pf_deviceId :: string

type_synonym window_map = "(string, window_counter_entry) jsmap"

record federation =
  federatedRelays :: "(did, fed_relay) jsmap"
  remoteAgentRoutes :: "(did, agent_route) jsmap"
  exportedLocalAgents :: "did list"
  pendingHealthChecks :: "(did, msec) jsmap"
  pendingCardFetches :: "(did, did \<times> msec) jsmap"
  pendingPreKeyFetches :: "(string, prekey_fetch) jsmap"
  attemptsByIp :: window_map
  attemptsByDid :: window_map
  failuresByIp :: window_map
  failuresByDid :: window_map
  quarantinedSourceIps :: "(string, msec) jsmap"
  quarantinedRelayDids :: "(string, msec) jsmap"

definition empty_federation :: federation where
  "empty_federation = \<lparr>federatedRelays = [], remoteAgentRoutes = [], exportedLocalAgents = [], pendingHealthChecks = [],
     pendingCardFetches = [], pendingPreKeyFetches = [], attemptsByIp = [], attemptsByDid = [], failuresByIp = [],
     failuresByDid = [], quarantinedSourceIps = [], quarantinedRelayDids = []\<rparr>"

text \<open>What the manager reads of its surroundings: its own DID and card, its configuration, the
  socket states, the clock, the process uptime and the card check.\<close>

record fed_env =
  self_did :: did
  self_card :: agent_card
  fconf :: fed_config
  readyState :: "ws \<Rightarrow> nat"
  now_ms :: msec
  uptime_ms :: msec
  verify_card :: "did \<Rightarrow> agent_card \<Rightarrow> bool"

definition get_relay :: "federation \<Rightarrow> did \<Rightarrow> fed_relay option" where
  "get_relay f d = jm_get (federatedRelays f) d"

definition mod_relay :: "did \<Rightarrow> (fed_relay \<Rightarrow> fed_relay) \<Rightarrow> federation \<Rightarrow> federation" where
  "mod_relay d g f = f\<lparr>federatedRelays := jm_modify d g (federatedRelays f)\<rparr>"

definition put_relay :: "did \<Rightarrow> fed_relay \<Rightarrow> federation \<Rightarrow> federation" where
  "put_relay d r f = f\<lparr>federatedRelays := jm_set d r (federatedRelays f)\<rparr>"

definition del_relay :: "did \<Rightarrow> federation \<Rightarrow> federation" where
  "del_relay d f = f\<lparr>federatedRelays := jm_del d (federatedRelays f)\<rparr>"

text \<open>The socket of a relay when it has one and it is open.\<close>

definition open_ws :: "fed_env \<Rightarrow> fed_relay \<Rightarrow> ws option" where
  "open_ws env r = (case fr_ws r of Some w \<Rightarrow> if ws_open (readyState env) w then Some w else None | None \<Rightarrow> None)"

section \<open>Admission predicates and eligibility\<close>

definition isLocallyAdmitted :: "fed_relay \<Rightarrow> bool" where
  "isLocallyAdmitted r \<longleftrightarrow> fr_connected r \<and> fr_admissionState r = Admitted"

definition isDataPlaneActive :: "fed_relay \<Rightarrow> bool" where
  "isDataPlaneActive r \<longleftrightarrow> fr_connected r \<and> fr_admissionState r = Admitted \<and> fr_admittedByPeer r"


definition validateRelayEligibility :: "did \<Rightarrow> agent_card \<Rightarrow> string list option
    \<Rightarrow> eligibility_error + string list" where
  "validateRelayEligibility relayDid relayCard announced =
     (if card_did relayCard \<noteq> relayDid then Inl DidMismatch
      else
        (let missing = filter (\<lambda>c. c \<notin> set (map cap_id (card_capabilities relayCard))) required_relay_capabilities;
             endpoints = normalizeRelayEndpoints ((case announced of Some es \<Rightarrow> es | None \<Rightarrow> []) @ card_endpoints relayCard)
         in if missing \<noteq> [] then Inl (MissingCapabilities missing)
            else if endpoints = [] then Inl NoEndpoint
            else Inr endpoints))"

section \<open>The guard of incoming handshakes\<close>

definition normalizeSourceKey :: "string option \<Rightarrow> string option" where
  "normalizeSourceKey v = (case v of None \<Rightarrow> None
     | Some s \<Rightarrow> (let t = js_trim s in if t = '''' \<or> t = ''unknown'' then None else Some t))"

definition isQuarantined :: "msec \<Rightarrow> (string, msec) jsmap \<Rightarrow> string option \<Rightarrow> bool \<times> (string, msec) jsmap" where
  "isQuarantined now q v = (case normalizeSourceKey v of
     None \<Rightarrow> (False, q)
   | Some key \<Rightarrow> (case jm_get q key of
       None \<Rightarrow> (False, q)
     | Some untilAt \<Rightarrow>
         if untilAt = 0 then (False, q)
         else if untilAt \<le> now then (False, jm_del key q)
         else (True, q)))"

definition incrementWindowCounter :: "msec \<Rightarrow> window_map \<Rightarrow> string option \<Rightarrow> int \<Rightarrow> nat \<times> window_map" where
  "incrementWindowCounter now m v windowMs = (case normalizeSourceKey v of
     None \<Rightarrow> (0, m)
   | Some key \<Rightarrow> (case jm_get m key of
       Some c \<Rightarrow>
         if now - wc_windowStart c \<ge> windowMs then (1, jm_set key \<lparr>wc_count = 1, wc_windowStart = now\<rparr> m)
         else (Suc (wc_count c), jm_set key (c\<lparr>wc_count := Suc (wc_count c)\<rparr>) m)
     | None \<Rightarrow> (1, jm_set key \<lparr>wc_count = 1, wc_windowStart = now\<rparr> m)))"

definition clear_key :: "string option \<Rightarrow> (string, 'v) jsmap \<Rightarrow> (string, 'v) jsmap" where
  "clear_key v m = (case normalizeSourceKey v of Some key \<Rightarrow> jm_del key m | None \<Rightarrow> m)"

datatype guard_result = GuardOk | GuardQuarantined | GuardRateLimited

definition guardIncomingFederationHandshake :: "fed_env \<Rightarrow> string option \<Rightarrow> did \<Rightarrow> federation \<Rightarrow> guard_result \<times> federation" where
  "guardIncomingFederationHandshake env remoteIp relayDid f =
     (let now = now_ms env;
          (qi, qips) = isQuarantined now (quarantinedSourceIps f) remoteIp;
          f1 = f\<lparr>quarantinedSourceIps := qips\<rparr>;
          (qd, qdids) = (if qi then (False, quarantinedRelayDids f1) else isQuarantined now (quarantinedRelayDids f1) (Some relayDid));
          f2 = f1\<lparr>quarantinedRelayDids := qdids\<rparr>
      in if qi \<or> qd then (GuardQuarantined, f2)
         else
           (let (ipAttempts, aip) = incrementWindowCounter now (attemptsByIp f2) remoteIp (handshakeRateLimitWindowMs (fconf env));
                (didAttempts, adid) = incrementWindowCounter now (attemptsByDid f2) (Some relayDid) (handshakeRateLimitWindowMs (fconf env));
                f3 = f2\<lparr>attemptsByIp := aip, attemptsByDid := adid\<rparr>;
                mx = handshakeRateLimitMaxAttempts (fconf env)
            in if ipAttempts > mx \<or> didAttempts > mx then (GuardRateLimited, f3) else (GuardOk, f3)))"

definition quarantine_key :: "string option \<Rightarrow> msec \<Rightarrow> (string, msec) jsmap \<Rightarrow> (string, msec) jsmap" where
  "quarantine_key v deadline q = (case normalizeSourceKey v of Some key \<Rightarrow> jm_set key deadline q | None \<Rightarrow> q)"

definition recordIncomingFederationFailure :: "fed_env \<Rightarrow> did \<Rightarrow> string option \<Rightarrow> federation \<Rightarrow> federation" where
  "recordIncomingFederationFailure env relayDid remoteIp f =
     (let now = now_ms env; c = fconf env;
          (ipFailures, fip) = incrementWindowCounter now (failuresByIp f) remoteIp (failedHandshakeWindowMs c);
          (didFailures, fdid) = incrementWindowCounter now (failuresByDid f) (Some relayDid) (failedHandshakeWindowMs c);
          f1 = f\<lparr>failuresByIp := fip, failuresByDid := fdid\<rparr>;
          f2 = (if ipFailures \<ge> failedHandshakeThreshold c
                then f1\<lparr>quarantinedSourceIps := quarantine_key remoteIp (now + failedHandshakeQuarantineMs c) (quarantinedSourceIps f1),
                        failuresByIp := clear_key remoteIp (failuresByIp f1)\<rparr>
                else f1)
      in if didFailures \<ge> failedHandshakeThreshold c
         then f2\<lparr>quarantinedRelayDids := quarantine_key (Some relayDid) (now + failedHandshakeQuarantineMs c) (quarantinedRelayDids f2),
                 failuresByDid := clear_key (Some relayDid) (failuresByDid f2)\<rparr>
         else f2)"

definition recordSuccessfulIncomingFederationAdmission :: "did \<Rightarrow> string option \<Rightarrow> federation \<Rightarrow> federation" where
  "recordSuccessfulIncomingFederationAdmission relayDid remoteIp f =
     f\<lparr>failuresByIp := clear_key remoteIp (failuresByIp f), failuresByDid := clear_key (Some relayDid) (failuresByDid f),
       quarantinedSourceIps := clear_key remoteIp (quarantinedSourceIps f),
       quarantinedRelayDids := clear_key (Some relayDid) (quarantinedRelayDids f)\<rparr>"

section \<open>Routes and the export policy\<close>

definition upsertRemoteAgentRoute :: "msec \<Rightarrow> did \<Rightarrow> did \<Rightarrow> agent_card \<Rightarrow> string \<Rightarrow> federation \<Rightarrow> federation" where
  "upsertRemoteAgentRoute now relayDid agentDid crd realm f =
     f\<lparr>remoteAgentRoutes := jm_set agentDid
        \<lparr>ar_relayDid = relayDid, ar_realm = realm, ar_card = crd, ar_lastSeen = now\<rparr> (remoteAgentRoutes f)\<rparr>"

definition removeRemoteAgentRoute :: "did \<Rightarrow> did \<Rightarrow> federation \<Rightarrow> federation" where
  "removeRemoteAgentRoute agentDid relayDid f = (case jm_get (remoteAgentRoutes f) agentDid of
     Some route \<Rightarrow> if ar_relayDid route = relayDid then f\<lparr>remoteAgentRoutes := jm_del agentDid (remoteAgentRoutes f)\<rparr> else f
   | None \<Rightarrow> f)"

definition removeRemoteAgentRoutesForRelay :: "did \<Rightarrow> federation \<Rightarrow> federation" where
  "removeRemoteAgentRoutesForRelay relayDid f =
     f\<lparr>remoteAgentRoutes := filter (\<lambda>(_, route). ar_relayDid route \<noteq> relayDid) (remoteAgentRoutes f)\<rparr>"

definition listRemoteDirectoryEntries :: "federation \<Rightarrow> directory_entry list" where
  "listRemoteDirectoryEntries f =
     map (\<lambda>(d, route). \<lparr>de_did = d, de_card = ar_card route, de_online = True, de_discoverable = True,
            de_visibilityRealm = Some (ar_realm route), de_lastSeen = Some (ar_lastSeen route),
            de_homeRelay = Some (ar_relayDid route)\<rparr>) (remoteAgentRoutes f)"

definition getRemoteAgentCard :: "federation \<Rightarrow> did \<Rightarrow> string \<Rightarrow> agent_card option" where
  "getRemoteAgentCard f d requesterRealm = (case jm_get (remoteAgentRoutes f) d of
     None \<Rightarrow> None
   | Some route \<Rightarrow> if ar_realm route \<noteq> requesterRealm then None else Some (ar_card route))"

definition getSelectiveVisibility :: "agent_card \<Rightarrow> string \<Rightarrow> string option" where
  "getSelectiveVisibility crd selective =
     (let metadata = (case card_metadata crd of Some m \<Rightarrow> m | None \<Rightarrow> [])
      in case map_of metadata ''visibility'' of
           Some (JStr v) \<Rightarrow> Some v
         | _ \<Rightarrow> (case map_of metadata ''federationVisibility'' of
             Some (JStr v) \<Rightarrow> Some v
           | _ \<Rightarrow> if selective = ''public'' \<and> (map_of metadata ''public'' = Some (JBool True)
                      \<or> map_of metadata ''federate'' = Some (JBool True))
                 then Some ''public'' else None))"

definition getRealmPolicy :: "fed_config \<Rightarrow> string \<Rightarrow> export_policy \<times> string" where
  "getRealmPolicy c realm = (case jm_get (realmPolicies c) realm of
     None \<Rightarrow> (exportPolicy c, selectiveVisibilityValue c)
   | Some rp \<Rightarrow> (case rp_exportPolicy rp of Some p \<Rightarrow> p | None \<Rightarrow> exportPolicy c,
                 case rp_selectiveVisibilityValue rp of Some v \<Rightarrow> v | None \<Rightarrow> selectiveVisibilityValue c))"

definition shouldExportAgent :: "fed_config \<Rightarrow> agent_card \<Rightarrow> string \<Rightarrow> bool" where
  "shouldExportAgent c crd realm = (case getRealmPolicy c realm of
     (ExportFull, _) \<Rightarrow> True
   | (ExportNone, _) \<Rightarrow> False
   | (ExportSelective, v) \<Rightarrow> getSelectiveVisibility crd v = Some v)"

definition advertiseCurrentAgentsToRelay :: "fed_env \<Rightarrow> registry \<Rightarrow> ws \<Rightarrow> federation \<Rightarrow> federation \<times> effect list" where
  "advertiseCurrentAgentsToRelay env reg w f =
     (let exported = filter (\<lambda>a. ra_online a \<and> ra_did a \<noteq> self_did env \<and> shouldExportAgent (fconf env) (ra_card a) (ra_realm a))
                       (listAgents reg)
      in (f\<lparr>exportedLocalAgents := fold js_set_add (map ra_did exported) (exportedLocalAgents f)\<rparr>,
          map (\<lambda>a. Send w (AgentJoined (ra_did a) (ra_card a) (ra_realm a) (now_ms env))) exported))"

section \<open>Pending probes and admission failure\<close>

datatype rejection = RejectAdmission did admission_error | RejectPreKey string

type_synonym fed_res = "federation \<times> effect list \<times> rejection list"

definition fed_then :: "fed_res \<Rightarrow> (federation \<Rightarrow> fed_res) \<Rightarrow> fed_res" where
  "fed_then r k = (let (f, es, rs) = r; (f', es', rs') = k f in (f', es @ es', rs @ rs'))"

text \<open>Without an error message the waiting promises are dropped and never settle.\<close>

definition clearPendingProbe :: "did \<Rightarrow> admission_error option \<Rightarrow> federation \<Rightarrow> federation \<times> rejection list" where
  "clearPendingProbe relayDid err f =
     (let health = (case (jm_get (pendingHealthChecks f) relayDid, err) of (Some _, Some e) \<Rightarrow> [RejectAdmission relayDid e] | _ \<Rightarrow> []);
          crd = (case (jm_get (pendingCardFetches f) relayDid, err) of (Some _, Some e) \<Rightarrow> [RejectAdmission relayDid e] | _ \<Rightarrow> []);
          own = map fst (filter (\<lambda>(_, p). pf_relayDid p = relayDid) (pendingPreKeyFetches f))
      in (f\<lparr>pendingHealthChecks := jm_del relayDid (pendingHealthChecks f),
            pendingCardFetches := jm_del relayDid (pendingCardFetches f),
            pendingPreKeyFetches := filter (\<lambda>(_, p). pf_relayDid p \<noteq> relayDid) (pendingPreKeyFetches f)\<rparr>,
          health @ crd @ (if err = None then [] else map RejectPreKey own)))"

definition markAdmissionFailure :: "fed_env \<Rightarrow> did \<Rightarrow> admission_error \<Rightarrow> federation \<Rightarrow> fed_res" where
  "markAdmissionFailure env relayDid err f = (case get_relay f relayDid of
     None \<Rightarrow> (f, [], [])
   | Some relay \<Rightarrow>
       (let f1 = (if fr_inbound relay then recordIncomingFederationFailure env relayDid (fr_sourceIp relay) f else f);
            f2 = mod_relay relayDid (\<lambda>r. r\<lparr>fr_admissionError := Some err, fr_connected := False,
                    fr_admissionState := Probation, fr_probationTimer := None\<rparr>) f1;
            (f3, rs) = clearPendingProbe relayDid (Some err) f2;
            f4 = removeRemoteAgentRoutesForRelay relayDid f3
        in (f4, case open_ws env relay of Some w \<Rightarrow> [CloseWs w 1008] | None \<Rightarrow> [], rs)))"

text \<open>The continuation of rejected promises: an admission that was waiting fails, a pre-key fetch
  is reported to its caller.\<close>

definition pending_count :: "federation \<Rightarrow> nat" where
  "pending_count f = length (pendingHealthChecks f) + length (pendingCardFetches f) + length (pendingPreKeyFetches f)"

lemma jm_length_del_less: "jm_get m k \<noteq> None \<Longrightarrow> length (jm_del k m) < length m"
  by (induction m) (auto simp: AList.delete_eq less_Suc_eq_le split: if_splits)

lemma clearPendingProbe_count:
  "length (snd (clearPendingProbe d err f)) + pending_count (fst (clearPendingProbe d err f)) \<le> pending_count f"
proof -
  have del: "length (jm_del d m) + (if jm_get m d = None then 0 else 1) \<le> length m" for m :: "(did, 'v) jsmap"
    using jm_length_del_less [of m d] jm_length_del_le [of d m] by (auto simp: Suc_le_eq)
  have "length (filter (\<lambda>(_, p). pf_relayDid p \<noteq> d) m) + length (filter (\<lambda>(_, p). pf_relayDid p = d) m) = length m"
    for m :: "(string, prekey_fetch) jsmap"
    by (induction m) auto
  from this [of "pendingPreKeyFetches f"] del [of "pendingHealthChecks f"] del [of "pendingCardFetches f"] show ?thesis
    by (auto simp: clearPendingProbe_def Let_def pending_count_def split: option.splits)
qed

lemma markAdmissionFailure_count:
  "markAdmissionFailure env d err f = (f', es, rs) \<Longrightarrow> length rs + pending_count f' \<le> pending_count f"
proof -
  assume m: "markAdmissionFailure env d err f = (f', es, rs)"
  have c: "pending_count (recordIncomingFederationFailure env d ip f) = pending_count f" for ip
    by (simp add: recordIncomingFederationFailure_def Let_def split_def pending_count_def)
  have "pending_count (mod_relay d g f) = pending_count f" "pending_count (removeRemoteAgentRoutesForRelay d f) = pending_count f" for g f
    by (simp_all add: mod_relay_def removeRemoteAgentRoutesForRelay_def pending_count_def)
  with m c show ?thesis
    using clearPendingProbe_count [of d "Some err"]
    by (auto simp: markAdmissionFailure_def Let_def split_def split: option.splits if_splits) metis+
qed

function settle :: "fed_env \<Rightarrow> rejection list \<Rightarrow> federation \<Rightarrow> federation \<times> effect list \<times> string list" where
  "settle env [] f = (f, [], [])"
| "settle env (RejectAdmission d e # rs) f =
     (let (f1, es1, rs1) = markAdmissionFailure env d e f;
          (f2, es2, ks) = settle env (rs @ rs1) f1
      in (f2, es1 @ es2, ks))"
| "settle env (RejectPreKey i # rs) f = (let (f2, es2, ks) = settle env rs f in (f2, es2, i # ks))"
  by pat_completeness auto
termination
  by (relation "measure (\<lambda>(env, rs, f). length rs + pending_count f)") (auto dest: markAdmissionFailure_count [OF sym])

section \<open>Connections\<close>

definition registerFederatedRelay :: "fed_env \<Rightarrow> did \<Rightarrow> agent_card \<Rightarrow> string list \<Rightarrow> ws \<Rightarrow> admission_state
    \<Rightarrow> (bool \<times> string option) option \<Rightarrow> federation \<Rightarrow> federation \<times> effect list" where
  "registerFederatedRelay env relayDid relayCard endpoints w state source f =
     (let existing = get_relay f relayDid;
          closing = (case existing of
              Some r \<Rightarrow> (case open_ws env r of Some w0 \<Rightarrow> if w0 \<noteq> w then [CloseWs w0 4001] else [] | None \<Rightarrow> [])
            | None \<Rightarrow> []);
          old = (\<lambda>sel def. case existing of Some r \<Rightarrow> sel r | None \<Rightarrow> def)
      in (put_relay relayDid
           \<lparr>fr_did = relayDid, fr_endpoints = endpoints, fr_card = Some relayCard, fr_ws = Some w,
            fr_inbound = (case source of Some (i, _) \<Rightarrow> i | None \<Rightarrow> (case existing of Some r \<Rightarrow> fr_inbound r | None \<Rightarrow> False)),
            fr_sourceIp = (case source of Some (_, Some ip) \<Rightarrow> Some ip | _ \<Rightarrow> (case existing of Some r \<Rightarrow> fr_sourceIp r | None \<Rightarrow> None)),
            fr_lastSeen = now_ms env, fr_connected = True, fr_admissionState = state,
            fr_admittedByPeer = (case existing of Some r \<Rightarrow> fr_admittedByPeer r | None \<Rightarrow> False),
            fr_connecting = False, fr_reconnectAttempts = 0, fr_reconnectTimer = None, fr_probationTimer = None,
            fr_agentCount = (case existing of Some r \<Rightarrow> fr_agentCount r | None \<Rightarrow> 0),
            fr_uptime = (case existing of Some r \<Rightarrow> fr_uptime r | None \<Rightarrow> 0),
            fr_pendingPeerDids = (case existing of Some r \<Rightarrow> fr_pendingPeerDids r | None \<Rightarrow> []),
            fr_admissionError = None, fr_eligibilityCheckedAt = Some (now_ms env),
            fr_lastHealthCheckAt = old fr_lastHealthCheckAt None, fr_lastHealthResponseAt = old fr_lastHealthResponseAt None,
            fr_lastProbeStartedAt = old fr_lastProbeStartedAt None, fr_lastProbeSucceededAt = old fr_lastProbeSucceededAt None,
            fr_violationCount = (case existing of Some r \<Rightarrow> fr_violationCount r | None \<Rightarrow> 0)\<rparr> f,
          closing))"

text \<open>\<open>connectToRelay\<close> up to the new socket; how the attempt ends is another step.\<close>

definition connectToRelay :: "fed_env \<Rightarrow> did \<Rightarrow> agent_card \<Rightarrow> federation \<Rightarrow> federation \<times> effect list" where
  "connectToRelay env relayDid relayCard f =
     (if relayDid = self_did env then (f, [])
      else (case validateRelayEligibility relayDid relayCard None of
          Inl _ \<Rightarrow> (f, [])
        | Inr wsEndpoints \<Rightarrow>
            (let existing = get_relay f relayDid
             in if (case existing of Some r \<Rightarrow> isLocallyAdmitted r \<and> open_ws env r \<noteq> None | None \<Rightarrow> False) then (f, [])
                else if (case existing of Some r \<Rightarrow> fr_connecting r | None \<Rightarrow> False) then (f, [])
                else
                  (put_relay relayDid
                    \<lparr>fr_did = relayDid, fr_endpoints = wsEndpoints, fr_card = Some relayCard,
                     fr_ws = (case existing of Some r \<Rightarrow> fr_ws r | None \<Rightarrow> None), fr_inbound = False, fr_sourceIp = None,
                     fr_lastSeen = (case existing of Some r \<Rightarrow> fr_lastSeen r | None \<Rightarrow> now_ms env), fr_connected = False,
                     fr_admissionState = Connecting, fr_admittedByPeer = False, fr_connecting = True,
                     fr_reconnectAttempts = (case existing of Some r \<Rightarrow> fr_reconnectAttempts r | None \<Rightarrow> 0),
                     fr_reconnectTimer = (case existing of Some r \<Rightarrow> fr_reconnectTimer r | None \<Rightarrow> None),
                     fr_probationTimer = None, fr_agentCount = (case existing of Some r \<Rightarrow> fr_agentCount r | None \<Rightarrow> 0),
                     fr_uptime = (case existing of Some r \<Rightarrow> fr_uptime r | None \<Rightarrow> 0),
                     fr_pendingPeerDids = (case existing of Some r \<Rightarrow> fr_pendingPeerDids r | None \<Rightarrow> []),
                     fr_admissionError = None, fr_eligibilityCheckedAt = Some (now_ms env), fr_lastHealthCheckAt = None,
                     fr_lastHealthResponseAt = None, fr_lastProbeStartedAt = None, fr_lastProbeSucceededAt = None,
                     fr_violationCount = (case existing of Some r \<Rightarrow> fr_violationCount r | None \<Rightarrow> 0)\<rparr> f,
                   [OpenWs (hd wsEndpoints) (Some relayDid) (Some relayCard)]))))"

text \<open>The peers a welcome named are tried when the relay becomes active. Each attempt is awaited
  by the code before the next one starts; here they start in one step.\<close>

definition connectPendingPeers :: "fed_env \<Rightarrow> registry \<Rightarrow> did \<Rightarrow> federation \<Rightarrow> federation \<times> effect list" where
  "connectPendingPeers env reg relayDid f = (case get_relay f relayDid of
     None \<Rightarrow> (f, [])
   | Some relay \<Rightarrow>
       (if fr_pendingPeerDids relay = [] then (f, [])
        else
          (let f1 = mod_relay relayDid (\<lambda>r. r\<lparr>fr_pendingPeerDids := []\<rparr>) f
           in fold (\<lambda>peer (f, es).
                 if peer = self_did env \<or> get_relay f peer \<noteq> None then (f, es)
                 else (case reg_get reg peer of
                     None \<Rightarrow> (f, es)
                   | Some a \<Rightarrow> (let (f', es') = connectToRelay env peer (ra_card a) f in (f', es @ es'))))
               (fr_pendingPeerDids relay) (f1, []))))"

definition maybeActivateRelay :: "fed_env \<Rightarrow> registry \<Rightarrow> did \<Rightarrow> federation \<Rightarrow> federation \<times> effect list" where
  "maybeActivateRelay env reg relayDid f = (case get_relay f relayDid of
     None \<Rightarrow> (f, [])
   | Some relay \<Rightarrow>
       (case open_ws env relay of
          None \<Rightarrow> (f, [])
        | Some w \<Rightarrow>
            if \<not> isDataPlaneActive relay then (f, [])
            else
              (let (f1, es1) = advertiseCurrentAgentsToRelay env reg w f;
                   (f2, es2) = connectPendingPeers env reg relayDid f1
               in (f2, es1 @ es2))))"

text \<open>\<open>discoverRelays\<close>: \<open>found\<close> is what the registry search returned.\<close>

definition discoverRelays :: "fed_env \<Rightarrow> (did \<times> agent_card) list \<Rightarrow> federation \<Rightarrow> federation \<times> effect list" where
  "discoverRelays env found f =
     fold (\<lambda>(d, c) (f, es).
         if d = self_did env \<or> get_relay f d \<noteq> None then (f, es)
         else (case validateRelayEligibility d c None of
             Inl _ \<Rightarrow> (f, es)
           | Inr _ \<Rightarrow> (let (f', es') = connectToRelay env d c f in (f', es @ es')))) found (f, [])"

definition backoff_delay :: "fed_config \<Rightarrow> nat \<Rightarrow> int" where
  "backoff_delay c attempts = min (reconnectDelay c * 2 ^ attempts) (maxReconnectDelay c)"

definition scheduleReconnection :: "fed_env \<Rightarrow> did \<Rightarrow> federation \<Rightarrow> federation" where
  "scheduleReconnection env relayDid f = (case get_relay f relayDid of
     None \<Rightarrow> f
   | Some relay \<Rightarrow>
       (if fr_reconnectTimer relay \<noteq> None then f
        else if fr_reconnectAttempts relay \<ge> maxReconnectAttempts (fconf env)
          then removeRemoteAgentRoutesForRelay relayDid (del_relay relayDid f)
        else mod_relay relayDid (\<lambda>r. r\<lparr>fr_reconnectAttempts := Suc (fr_reconnectAttempts r),
               fr_reconnectTimer := Some (now_ms env + backoff_delay (fconf env) (fr_reconnectAttempts r))\<rparr>) f))"

definition getConnectedRelay :: "fed_env \<Rightarrow> federation \<Rightarrow> did \<Rightarrow> ws option" where
  "getConnectedRelay env f relayDid = (case get_relay f relayDid of
     None \<Rightarrow> None | Some r \<Rightarrow> if isDataPlaneActive r then open_ws env r else None)"

definition drop_connection :: "msec \<Rightarrow> fed_relay \<Rightarrow> fed_relay" where
  "drop_connection now r = r\<lparr>fr_connected := False, fr_connecting := False, fr_ws := None, fr_lastSeen := now,
     fr_admittedByPeer := False, fr_probationTimer := None\<rparr>"

definition handleIncomingDisconnect :: "fed_env \<Rightarrow> did \<Rightarrow> federation \<Rightarrow> federation" where
  "handleIncomingDisconnect env relayDid f = (case get_relay f relayDid of
     None \<Rightarrow> f
   | Some _ \<Rightarrow> removeRemoteAgentRoutesForRelay relayDid
       (fst (clearPendingProbe relayDid None (mod_relay relayDid (drop_connection (now_ms env)) f))))"

definition handleRelayDisconnection :: "fed_env \<Rightarrow> did \<Rightarrow> federation \<Rightarrow> federation \<times> rejection list" where
  "handleRelayDisconnection env relayDid f = (case get_relay f relayDid of
     None \<Rightarrow> (f, [])
   | Some relay \<Rightarrow>
       (let f1 = mod_relay relayDid (drop_connection (now_ms env)) f;
            (f2, rs) = clearPendingProbe relayDid (Some PeerDisconnected) f1;
            f3 = removeRemoteAgentRoutesForRelay relayDid f2
        in (if fr_reconnectTimer relay = None then scheduleReconnection env relayDid f3 else f3, rs)))"

section \<open>Admission\<close>

definition send_to_open :: "fed_env \<Rightarrow> federation \<Rightarrow> did \<Rightarrow> relay_msg \<Rightarrow> effect list" where
  "send_to_open env f relayDid m = (case get_relay f relayDid of
     Some r \<Rightarrow> (case open_ws env r of Some w \<Rightarrow> [Send w m] | None \<Rightarrow> []) | None \<Rightarrow> [])"

text \<open>\<open>runHealthProbe\<close> up to the answer it waits for. It first rejects the probe that is still
  waiting for this relay.\<close>

definition runHealthProbe :: "fed_env \<Rightarrow> did \<Rightarrow> federation \<Rightarrow> fed_res" where
  "runHealthProbe env relayDid f =
     (case (case get_relay f relayDid of Some r \<Rightarrow> open_ws env r | None \<Rightarrow> None) of
        None \<Rightarrow> (f, [], [RejectAdmission relayDid HealthProbeUnavailable])
      | Some w \<Rightarrow>
          (let (f1, rs) = clearPendingProbe relayDid (Some PeerDisconnected) f;
               f2 = mod_relay relayDid (\<lambda>r. r\<lparr>fr_lastHealthCheckAt := Some (now_ms env)\<rparr>) f1
           in (f2\<lparr>pendingHealthChecks := jm_set relayDid (now_ms env + connectionTimeout (fconf env)) (pendingHealthChecks f2)\<rparr>,
               [Send w (HealthCheck (now_ms env))], rs)))"

definition beginAdmission :: "fed_env \<Rightarrow> did \<Rightarrow> federation \<Rightarrow> fed_res" where
  "beginAdmission env relayDid f = (case get_relay f relayDid of
     None \<Rightarrow> (f, [], [])
   | Some relay \<Rightarrow>
       (case open_ws env relay of
          None \<Rightarrow> (f, [], [])
        | Some w \<Rightarrow> runHealthProbe env relayDid
            (mod_relay relayDid (\<lambda>r. r\<lparr>fr_admissionState := Probation, fr_admissionError := None,
               fr_lastProbeStartedAt := Some (now_ms env),
               fr_probationTimer := Some (now_ms env + connectionTimeout (fconf env) * 2)\<rparr>) f)))"

text \<open>The admission continues with the card probe once the health probe has been answered.\<close>

definition continueWithCardProbe :: "fed_env \<Rightarrow> did \<Rightarrow> federation \<Rightarrow> fed_res" where
  "continueWithCardProbe env relayDid f =
     (case (case get_relay f relayDid of Some r \<Rightarrow> open_ws env r | None \<Rightarrow> None) of
        None \<Rightarrow> markAdmissionFailure env relayDid CardProbeUnavailable f
      | Some w \<Rightarrow> (f\<lparr>pendingCardFetches := jm_set relayDid (relayDid, now_ms env + connectionTimeout (fconf env))
                       (pendingCardFetches f)\<rparr>,
                   [Send w (FetchCard relayDid)], []))"

text \<open>What \<open>runAdmissionProbe\<close> requires of the answer to the card probe.\<close>

definition check_probe_card :: "fed_env \<Rightarrow> did \<Rightarrow> did \<Rightarrow> agent_card option \<Rightarrow> admission_error + (agent_card \<times> string list)" where
  "check_probe_card env relayDid msgDid crd = (case crd of
     None \<Rightarrow> Inl NoRelayCard
   | Some c \<Rightarrow>
       if msgDid \<noteq> relayDid \<or> card_did c \<noteq> relayDid then Inl MismatchedRelayCard
       else if \<not> verify_card env relayDid c then Inl InvalidRelayCard
       else (case validateRelayEligibility relayDid c None of Inl e \<Rightarrow> Inl (NotEligible e) | Inr es \<Rightarrow> Inr (c, es)))"

definition completeAdmission :: "fed_env \<Rightarrow> registry \<Rightarrow> did \<Rightarrow> did \<Rightarrow> agent_card option \<Rightarrow> federation \<Rightarrow> fed_res" where
  "completeAdmission env reg relayDid msgDid crd f = (case check_probe_card env relayDid msgDid crd of
     Inl e \<Rightarrow> markAdmissionFailure env relayDid e f
   | Inr (c, es) \<Rightarrow>
       (case get_relay f relayDid of
          None \<Rightarrow> (f, [], [])
        | Some relay \<Rightarrow>
            (let f1 = mod_relay relayDid (\<lambda>r. r\<lparr>fr_card := Some c, fr_endpoints := es, fr_admissionState := Admitted,
                        fr_lastProbeSucceededAt := Some (now_ms env), fr_admissionError := None\<rparr>) f;
                 f2 = (if fr_inbound relay then recordSuccessfulIncomingFederationAdmission relayDid (fr_sourceIp relay) f1 else f1);
                 f3 = mod_relay relayDid (\<lambda>r. r\<lparr>fr_probationTimer := None\<rparr>) f2;
                 es1 = send_to_open env f3 relayDid (FederationAdmitted (self_did env) (now_ms env));
                 (f4, es2) = maybeActivateRelay env reg relayDid f3
             in (f4, es1 @ es2, []))))"

section \<open>Handshakes\<close>

datatype hello_refusal =
    Refused guard_result | BadRelayCard | BadHelloSignature | HelloNotEligible eligibility_error

text \<open>\<open>acceptIncomingRelay\<close>; \<open>verify_hello\<close> checks the signature of the hello. The admission
  begins in a step of its own (\<open>setTimeout\<close> with no delay).\<close>

definition acceptIncomingRelay :: "fed_env \<Rightarrow> (federation_hello \<Rightarrow> bool) \<Rightarrow> ws \<Rightarrow> federation_hello \<Rightarrow> string option \<Rightarrow> federation
    \<Rightarrow> (hello_refusal + did) \<times> federation \<times> effect list" where
  "acceptIncomingRelay env verify_hello w msg remoteIp f =
     (let d = fh_relayDid msg; (g, f1) = guardIncomingFederationHandshake env remoteIp d f
      in if g \<noteq> GuardOk then (Inl (Refused g), f1, [])
         else if \<not> verify_card env d (fh_relayCard msg)
           then (Inl BadRelayCard, recordIncomingFederationFailure env d remoteIp f1, [])
         else if \<not> verify_hello msg
           then (Inl BadHelloSignature, recordIncomingFederationFailure env d remoteIp f1, [])
         else (case validateRelayEligibility d (fh_relayCard msg) (Some (fh_endpoints msg)) of
             Inl e \<Rightarrow> (Inl (HelloNotEligible e), recordIncomingFederationFailure env d remoteIp f1, [])
           | Inr endpoints \<Rightarrow>
               (let (f2, es) = registerFederatedRelay env d (fh_relayCard msg) endpoints w Authenticated (Some (True, remoteIp)) f1;
                    welcome = \<lparr>fw_relayDid = self_did env, fw_peers = filter (\<lambda>p. p \<noteq> d) (jm_keys (federatedRelays f2)),
                               fw_protocolVersion = 1, fw_relayCard = Some (self_card env),
                               fw_endpoints = Some (card_endpoints (self_card env))\<rparr>
                in (Inr d, f2, es @ [Send w (FederationWelcome welcome)]))))"

definition handleFederationWelcome :: "fed_env \<Rightarrow> did \<Rightarrow> federation_welcome \<Rightarrow> federation \<Rightarrow> federation" where
  "handleFederationWelcome env relayDid msg f =
     mod_relay relayDid (\<lambda>r. r\<lparr>fr_connected := True,
        fr_admissionState := (if fr_admissionState r = Admitted then Admitted else Authenticated),
        fr_card := (case fw_relayCard msg of Some c \<Rightarrow> Some c | None \<Rightarrow> fr_card r),
        fr_endpoints := (case fw_endpoints msg of
            Some es \<Rightarrow> if es \<noteq> [] then normalizeRelayEndpoints es else fr_endpoints r
          | None \<Rightarrow> fr_endpoints r),
        fr_pendingPeerDids := filter (\<lambda>p. p \<noteq> self_did env) (fw_peers msg)\<rparr>) f"

datatype outbound_refusal = SelfConnection | MissingCard | DidMismatchOutbound | BadCardOutbound | NotEligibleOutbound

text \<open>The welcome that answers our own hello (\<open>openFederationConnection\<close>): the relay is
  registered. The messages that arrived before the welcome are handled by message steps after it,
  and then its admission begins, in a step of its own.\<close>

definition outboundWelcome :: "fed_env \<Rightarrow> ws \<Rightarrow> string \<Rightarrow> did option \<Rightarrow> agent_card option \<Rightarrow> federation_welcome \<Rightarrow> federation
    \<Rightarrow> (outbound_refusal + did) \<times> federation \<times> effect list" where
  "outboundWelcome env w endpoint expectedDid expectedCard welcome f =
     (let d = fw_relayDid welcome;
          crd = (case fw_relayCard welcome of Some c \<Rightarrow> Some c | None \<Rightarrow> expectedCard);
          eps = (case fw_endpoints welcome of Some (e # es) \<Rightarrow> e # es
                 | _ \<Rightarrow> (case crd of Some c \<Rightarrow> card_endpoints c | None \<Rightarrow> [endpoint]))
      in if d = self_did env then (Inl SelfConnection, f, [CloseWs w 1000])
         else (case crd of
           None \<Rightarrow> (Inl MissingCard, f, [CloseWs w 1008])
         | Some c \<Rightarrow>
             if (case expectedDid of Some e \<Rightarrow> e \<noteq> '''' \<and> d \<noteq> e | None \<Rightarrow> False)
               then (Inl DidMismatchOutbound, f, [CloseWs w 1008])
             else if \<not> verify_card env d c then (Inl BadCardOutbound, del_relay d f, [CloseWs w 1008])
             else (case validateRelayEligibility d c (Some eps) of
                 Inl _ \<Rightarrow> (Inl NotEligibleOutbound, del_relay d f, [CloseWs w 1008])
               | Inr endpoints \<Rightarrow>
                   (let (f1, es1) = registerFederatedRelay env d c endpoints w Authenticated None f;
                        f2 = handleFederationWelcome env d welcome f1
                    in (Inr d, f2, es1)))))"

section \<open>Messages between relays\<close>

definition handleFederationAdmitted :: "fed_env \<Rightarrow> registry \<Rightarrow> did \<Rightarrow> federation \<Rightarrow> federation \<times> effect list" where
  "handleFederationAdmitted env reg relayDid f =
     maybeActivateRelay env reg relayDid (mod_relay relayDid (\<lambda>r. r\<lparr>fr_admittedByPeer := True\<rparr>) f)"

text \<open>The first active relay other than the sender, in the order of the map.\<close>

definition forward_target :: "fed_env \<Rightarrow> did option \<Rightarrow> federation \<Rightarrow> ws option" where
  "forward_target env except f =
     (case List.map_filter (\<lambda>(d, r). if Some d \<noteq> except \<and> isDataPlaneActive r then open_ws env r else None) (federatedRelays f) of
        [] \<Rightarrow> None | w # _ \<Rightarrow> Some w)"

definition handleRouteRequest :: "fed_env \<Rightarrow> registry \<Rightarrow> ws \<Rightarrow> did \<Rightarrow> route_request \<Rightarrow> federation \<Rightarrow> effect list" where
  "handleRouteRequest env reg w fromRelayDid msg f =
     (if rr_hopCount msg \<ge> maxHops (fconf env) then [Send w (RouteResponse (rr_messageId msg) HopLimitExceeded None)]
      else (case reg_get reg (rr_targetDid msg) of
          Some a \<Rightarrow>
            if ra_online a then
              (if \<not> shouldExportAgent (fconf env) (ra_card a) (ra_realm a)
               then [Send w (RouteResponse (rr_messageId msg) RouteNotFound None)]
               else [Send (ra_ws a) (Deliver (rr_messageId msg) (''relay:'' @ fromRelayDid) (rr_envelope msg)),
                     Send w (RouteResponse (rr_messageId msg) RouteDelivered (Some (self_did env)))])
            else (case forward_target env (Some fromRelayDid) f of
                Some w' \<Rightarrow> [Send w' (RouteRequest (msg\<lparr>rr_hopCount := rr_hopCount msg + 1, rr_fromRelay := self_did env\<rparr>))]
              | None \<Rightarrow> [Send w (RouteResponse (rr_messageId msg) RouteNotFound None)])
        | None \<Rightarrow> (case forward_target env (Some fromRelayDid) f of
              Some w' \<Rightarrow> [Send w' (RouteRequest (msg\<lparr>rr_hopCount := rr_hopCount msg + 1, rr_fromRelay := self_did env\<rparr>))]
            | None \<Rightarrow> [Send w (RouteResponse (rr_messageId msg) RouteNotFound None)])))"

definition handleFederationHealthResponse :: "fed_env \<Rightarrow> did \<Rightarrow> msec \<Rightarrow> nat \<Rightarrow> federation \<Rightarrow> fed_res" where
  "handleFederationHealthResponse env relayDid uptime connectedAgents f =
     (let f1 = mod_relay relayDid (\<lambda>r. r\<lparr>fr_uptime := uptime, fr_agentCount := connectedAgents,
                  fr_lastSeen := now_ms env, fr_lastHealthResponseAt := Some (now_ms env)\<rparr>) f
      in case jm_get (pendingHealthChecks f1) relayDid of
           None \<Rightarrow> (f1, [], [])
         | Some _ \<Rightarrow> continueWithCardProbe env relayDid (f1\<lparr>pendingHealthChecks := jm_del relayDid (pendingHealthChecks f1)\<rparr>))"

definition handleFederationCard :: "fed_env \<Rightarrow> registry \<Rightarrow> did \<Rightarrow> did \<Rightarrow> agent_card option \<Rightarrow> federation \<Rightarrow> fed_res" where
  "handleFederationCard env reg relayDid msgDid crd f = (case jm_get (pendingCardFetches f) relayDid of
     None \<Rightarrow> (f, [], [])
   | Some (want, _) \<Rightarrow>
       if want \<noteq> msgDid then (f, [], [])
       else completeAdmission env reg relayDid msgDid crd (f\<lparr>pendingCardFetches := jm_del relayDid (pendingCardFetches f)\<rparr>))"

definition find_fetch :: "did \<Rightarrow> did \<Rightarrow> string \<Rightarrow> (string, prekey_fetch) jsmap \<Rightarrow> string option" where
  "find_fetch relayDid d device ps =
     (case filter (\<lambda>(_, p). pf_relayDid p = relayDid \<and> pf_did p = d \<and> pf_deviceId p = device) ps of
        [] \<Rightarrow> None | (i, _) # _ \<Rightarrow> Some i)"

text \<open>The answer to a pre-key request settles the pending fetch: by its identifier, or by agent and
  device when it carries none. The result names the fetch.\<close>

definition handleFederationPreKeyBundle :: "did \<Rightarrow> did \<Rightarrow> string \<Rightarrow> string option \<Rightarrow> federation \<Rightarrow> federation \<times> string option" where
  "handleFederationPreKeyBundle relayDid d device requestId f =
     (let hit = (case requestId of
          Some i \<Rightarrow> if i \<noteq> '''' then
              (case jm_get (pendingPreKeyFetches f) i of
                 Some p \<Rightarrow> if pf_relayDid p = relayDid then Some i else None | None \<Rightarrow> None)
            else find_fetch relayDid d device (pendingPreKeyFetches f)
        | None \<Rightarrow> find_fetch relayDid d device (pendingPreKeyFetches f))
      in case hit of
           None \<Rightarrow> (f, None)
         | Some i \<Rightarrow> (f\<lparr>pendingPreKeyFetches := jm_del i (pendingPreKeyFetches f)\<rparr>, Some i))"

text \<open>The result of a message step: the new manager, the new pre-key store, what is sent, and the
  pre-key fetches it settles, with the bundle (\<open>Inr\<close>) or in failure (\<open>Inl\<close>).\<close>

record 'd fed_step =
  fs_fed :: federation
  fs_store :: 'd
  fs_out :: "effect list"
  fs_fetched :: "(string \<times> (unit + claimed_bundle option)) list"

definition finish_step :: "fed_env \<Rightarrow> 'd \<Rightarrow> fed_res \<Rightarrow> 'd fed_step" where
  "finish_step env db res =
     (let (f, es, rs) = res; (f', es', ks) = settle env rs f
      in \<lparr>fs_fed = f', fs_store = db, fs_out = es @ es', fs_fetched = map (\<lambda>k. (k, Inl ())) ks\<rparr>)"

definition handleFederationMessage :: "('d, stored_bundle) level_ops \<Rightarrow> fed_env \<Rightarrow> registry \<Rightarrow> ws \<Rightarrow> did \<Rightarrow> relay_msg
    \<Rightarrow> federation \<Rightarrow> 'd \<Rightarrow> 'd fed_step" where
  "handleFederationMessage pk env reg w relayDid msg f0 db = (case get_relay f0 relayDid of
     None \<Rightarrow> finish_step env db (f0, [], [])
   | Some relay \<Rightarrow>
       (let f = mod_relay relayDid (\<lambda>r. r\<lparr>fr_lastSeen := now_ms env\<rparr>) f0
        in if \<not> isDataPlaneActive relay \<and> \<not> isMessageAllowedDuringProbation msg then
             finish_step env db (mod_relay relayDid (\<lambda>r. r\<lparr>fr_violationCount := Suc (fr_violationCount r)\<rparr>) f, [], [])
           else (case msg of
               FederationWelcome m \<Rightarrow> finish_step env db (handleFederationWelcome env relayDid m f, [], [])
             | FederationAdmitted _ _ \<Rightarrow> (let (f', es) = handleFederationAdmitted env reg relayDid f in finish_step env db (f', es, []))
             | AgentJoined d c realm _ \<Rightarrow> finish_step env db (upsertRemoteAgentRoute (now_ms env) relayDid d c realm f, [], [])
             | AgentLeft d _ _ \<Rightarrow> finish_step env db (removeRemoteAgentRoute d relayDid f, [], [])
             | RouteRequest m \<Rightarrow> finish_step env db (f, handleRouteRequest env reg w relayDid m f, [])
             | HealthCheck _ \<Rightarrow> finish_step env db (f, [Send w (HealthResponse (uptime_ms env) (getOnlineCount reg) 0 (now_ms env))], [])
             | HealthResponse up n _ _ \<Rightarrow> finish_step env db (handleFederationHealthResponse env relayDid up n f)
             | FetchCard d \<Rightarrow> finish_step env db (f, [Send w (Card d (if d = self_did env then Some (self_card env) else None))], [])
             | Card d c \<Rightarrow> finish_step env db (handleFederationCard env reg relayDid d c f)
             | FetchPreKeyBundle d device rid realm \<Rightarrow>
                 (let requesterRealm = (case realm of Some r \<Rightarrow> if length r > 0 then r else ''public'' | None \<Rightarrow> ''public'');
                      (bundle, db') = claimBundle pk (now_ms env) d device requesterRealm db
                  in finish_step env db' (f, [Send w (PreKeyBundle d device bundle
                       (case rid of Some i \<Rightarrow> if i = '''' then None else Some i | None \<Rightarrow> None))], []))
             | PreKeyBundle d device bundle rid \<Rightarrow>
                 (let (f', hit) = handleFederationPreKeyBundle relayDid d device rid f;
                      st = finish_step env db (f', [], [])
                  in st\<lparr>fs_fetched := (case hit of Some i \<Rightarrow> [(i, Inr bundle)] | None \<Rightarrow> []) @ fs_fetched st\<rparr>)
             | _ \<Rightarrow> finish_step env db (f, [], []))))"

section \<open>Timers and health checks\<close>

text \<open>The three timeouts of an admission, for the entry that is due.\<close>

definition admissionTimeout :: "fed_env \<Rightarrow> did \<Rightarrow> federation \<Rightarrow> fed_res" where
  "admissionTimeout env relayDid f = markAdmissionFailure env relayDid AdmissionTimedOut f"

definition healthProbeTimeout :: "fed_env \<Rightarrow> did \<Rightarrow> federation \<Rightarrow> fed_res" where
  "healthProbeTimeout env relayDid f =
     (case jm_get (pendingHealthChecks f) relayDid of
        None \<Rightarrow> (f, [], [])
      | Some _ \<Rightarrow> (f\<lparr>pendingHealthChecks := jm_del relayDid (pendingHealthChecks f)\<rparr>, [], [RejectAdmission relayDid HealthProbeTimedOut]))"

definition cardProbeTimeout :: "fed_env \<Rightarrow> did \<Rightarrow> federation \<Rightarrow> fed_res" where
  "cardProbeTimeout env relayDid f =
     (case jm_get (pendingCardFetches f) relayDid of
        None \<Rightarrow> (f, [], [])
      | Some _ \<Rightarrow> (f\<lparr>pendingCardFetches := jm_del relayDid (pendingCardFetches f)\<rparr>, [], [RejectAdmission relayDid CardProbeTimedOut]))"

text \<open>\<open>attemptReconnection\<close>, when the reconnection timer fires; \<open>reconnectFailed\<close> is its end
  when the attempt did not succeed.\<close>

definition attemptReconnection :: "fed_env \<Rightarrow> registry \<Rightarrow> did \<Rightarrow> federation \<Rightarrow> federation \<times> effect list" where
  "attemptReconnection env reg relayDid f0 =
     (let f = mod_relay relayDid (\<lambda>r. r\<lparr>fr_reconnectTimer := None\<rparr>) f0
      in case get_relay f relayDid of
           None \<Rightarrow> (f, [])
         | Some relay \<Rightarrow>
             if fr_connected relay \<or> fr_connecting relay then (f, [])
             else (case fr_card relay of
                 Some c \<Rightarrow> connectToRelay env relayDid c f
               | None \<Rightarrow> (case reg_get reg relayDid of
                     Some a \<Rightarrow> connectToRelay env relayDid (ra_card a) f
                   | None \<Rightarrow> (removeRemoteAgentRoutesForRelay relayDid (del_relay relayDid f), []))))"

definition connectFailed :: "did \<Rightarrow> federation \<Rightarrow> federation" where
  "connectFailed relayDid f = mod_relay relayDid (\<lambda>r. if fr_connected r then r else r\<lparr>fr_connecting := False\<rparr>) f"

definition reconnectFailed :: "fed_env \<Rightarrow> did \<Rightarrow> federation \<Rightarrow> federation" where
  "reconnectFailed env relayDid f =
     (let f1 = connectFailed relayDid f
      in case get_relay f1 relayDid of
           Some r \<Rightarrow> if \<not> fr_connected r \<and> fr_reconnectTimer r = None then scheduleReconnection env relayDid f1 else f1
         | None \<Rightarrow> f1)"

definition stale :: "fed_env \<Rightarrow> fed_relay \<Rightarrow> bool" where
  "stale env r \<longleftrightarrow> now_ms env - fr_lastSeen r > healthCheckInterval (fconf env) * 3"

definition performHealthChecks :: "fed_env \<Rightarrow> federation \<Rightarrow> fed_res" where
  "performHealthChecks env f =
     (let probed = filter (\<lambda>(_, r). isLocallyAdmitted r \<and> open_ws env r \<noteq> None) (federatedRelays f);
          f1 = fold (\<lambda>(d, _). mod_relay d (\<lambda>r. r\<lparr>fr_lastHealthCheckAt := Some (now_ms env)\<rparr>)) probed f;
          es1 = List.map_filter (\<lambda>(_, r). map_option (\<lambda>w. Send w (HealthCheck (now_ms env))) (open_ws env r)) probed
      in fed_then (f1, es1, [])
           (\<lambda>f1. fold (\<lambda>(d, r) res. fed_then res (\<lambda>f. (let (f', rs) = handleRelayDisconnection env d f
                    in (f', case fr_ws r of Some w \<Rightarrow> [CloseWs w 1005] | None \<Rightarrow> [], rs))))
              (filter (\<lambda>(_, r). stale env r) (federatedRelays f1)) (f1, [], [])))"

section \<open>The services of the local relay\<close>

definition routeToFederation :: "fed_env \<Rightarrow> string \<Rightarrow> did \<Rightarrow> bytes \<Rightarrow> federation \<Rightarrow> bool \<times> federation \<times> effect list" where
  "routeToFederation env mid targetDid env_bytes f =
     (if filter isDataPlaneActive (jm_vals (federatedRelays f)) = [] then (False, f, [])
      else
        (let request = RouteRequest \<lparr>rr_targetDid = targetDid, rr_envelope = env_bytes, rr_fromRelay = self_did env,
                         rr_hopCount = 0, rr_messageId = mid\<rparr>;
             preferred = (case jm_get (remoteAgentRoutes f) targetDid of
                 Some route \<Rightarrow> getConnectedRelay env f (ar_relayDid route) | None \<Rightarrow> None)
         in case preferred of
              Some w \<Rightarrow> (True, f, [Send w request])
            | None \<Rightarrow>
                (let f1 = f\<lparr>remoteAgentRoutes := jm_del targetDid (remoteAgentRoutes f)\<rparr>
                 in case forward_target env None f1 of
                      Some w \<Rightarrow> (True, f1, [Send w request])
                    | None \<Rightarrow> (False, f1, []))))"

definition broadcastToFederation :: "fed_env \<Rightarrow> relay_msg \<Rightarrow> federation \<Rightarrow> effect list" where
  "broadcastToFederation env m f =
     List.map_filter (\<lambda>r. if isDataPlaneActive r then map_option (\<lambda>w. Send w m) (open_ws env r) else None) (jm_vals (federatedRelays f))"

definition notifyAgentLeft :: "fed_env \<Rightarrow> did \<Rightarrow> string \<Rightarrow> federation \<Rightarrow> federation \<times> effect list" where
  "notifyAgentLeft env agentDid realm f =
     (if agentDid \<in> set (exportedLocalAgents f) then
        (let f1 = f\<lparr>exportedLocalAgents := js_set_delete agentDid (exportedLocalAgents f)\<rparr>
         in (f1, broadcastToFederation env (AgentLeft agentDid realm (now_ms env)) f1))
      else (f, []))"

definition notifyAgentJoined :: "fed_env \<Rightarrow> did \<Rightarrow> agent_card \<Rightarrow> string \<Rightarrow> federation \<Rightarrow> federation \<times> effect list" where
  "notifyAgentJoined env agentDid crd realm f =
     (if \<not> shouldExportAgent (fconf env) crd realm then
        (if agentDid \<in> set (exportedLocalAgents f) then notifyAgentLeft env agentDid realm f else (f, []))
      else
        (let f1 = f\<lparr>exportedLocalAgents := js_set_add agentDid (exportedLocalAgents f)\<rparr>
         in (f1, broadcastToFederation env (AgentJoined agentDid crd realm (now_ms env)) f1)))"

text \<open>\<open>fetchRemotePreKeyBundle\<close> up to the request it sends: \<open>None\<close> when the answer is
  \<open>null\<close> at once, and otherwise the identifier of the pending fetch.\<close>

definition fetchRemotePreKeyBundle :: "fed_env \<Rightarrow> string \<Rightarrow> did \<Rightarrow> string \<Rightarrow> string \<Rightarrow> federation
    \<Rightarrow> string option \<times> federation \<times> effect list" where
  "fetchRemotePreKeyBundle env rnd d device requesterRealm f = (case jm_get (remoteAgentRoutes f) d of
     None \<Rightarrow> (None, f, [])
   | Some route \<Rightarrow>
       if ar_realm route \<noteq> requesterRealm then (None, f, [])
       else (case getConnectedRelay env f (ar_relayDid route) of
           None \<Rightarrow> (None, f\<lparr>remoteAgentRoutes := jm_del d (remoteAgentRoutes f)\<rparr>, [])
         | Some w \<Rightarrow>
             (let rid = ar_relayDid route @ '':'' @ d @ '':'' @ device @ '':'' @ rnd
              in (Some rid,
                  f\<lparr>pendingPreKeyFetches := jm_set rid \<lparr>pf_relayDid = ar_relayDid route, pf_did = d, pf_deviceId = device\<rparr>
                      (pendingPreKeyFetches f)\<rparr>,
                  [Send w (FetchPreKeyBundle d device (Some rid) (Some requesterRealm))]))))"

definition preKeyFetchTimeout :: "string \<Rightarrow> federation \<Rightarrow> federation \<times> (string \<times> (unit + claimed_bundle option)) list" where
  "preKeyFetchTimeout rid f =
     (if jm_get (pendingPreKeyFetches f) rid = None then (f, [])
      else (f\<lparr>pendingPreKeyFetches := jm_del rid (pendingPreKeyFetches f)\<rparr>, [(rid, Inl ())]))"

record federation_status =
  st_relayCount :: nat
  st_connectedRelays :: "did list"
  st_totalAgents :: nat
  st_knownRelayCount :: nat
  st_probationRelays :: "did list"

definition getFederationStatus :: "federation \<Rightarrow> federation_status" where
  "getFederationStatus f =
     (let connected = map fst (filter (\<lambda>(_, r). isDataPlaneActive r) (federatedRelays f))
      in \<lparr>st_relayCount = length connected, st_connectedRelays = connected,
          st_totalAgents = sum_list (map (\<lambda>(_, r). fr_agentCount r) (filter (\<lambda>(_, r). isDataPlaneActive r) (federatedRelays f))),
          st_knownRelayCount = length (federatedRelays f),
          st_probationRelays = map fst (filter (\<lambda>(_, r). fr_connected r \<and> \<not> isDataPlaneActive r) (federatedRelays f))\<rparr>)"

definition stopFederation :: "fed_env \<Rightarrow> federation \<Rightarrow> fed_res" where
  "stopFederation env f =
     (empty_federation,
      List.map_filter (\<lambda>(_, r). map_option (\<lambda>w. CloseWs w 1005) (open_ws env r)) (federatedRelays f),
      map RejectPreKey (jm_keys (pendingPreKeyFetches f)))"

section \<open>The manager as a step function\<close>

text \<open>Everything that can happen to the manager: a message or a handshake of a peer, the admission
  that starts after it, a closed socket, a timer, a call of the local relay. The environment says
  what the clock and the sockets are at that moment, so a run is a list of environments and events.\<close>

datatype fed_event =
    FedMessage ws did relay_msg
  | FedHello ws federation_hello "string option"
  | FedBeginAdmission did
  | FedOutboundWelcome ws string "did option" "agent_card option" federation_welcome
  | FedIncomingClosed did
  | FedOutboundClosed did
  | FedAdmissionTimeout did
  | FedHealthTimeout did
  | FedCardTimeout did
  | FedReconnect did
  | FedConnectEnded did
  | FedReconnectFailed did
  | FedHealthRound
  | FedDiscover "(did \<times> agent_card) list"
  | FedRoute string did bytes
  | FedJoined did agent_card string
  | FedLeft did string
  | FedFetchPreKeys string did string string
  | FedPreKeyTimeout string
  | FedStop

definition fed_event_step :: "('d, stored_bundle) level_ops \<Rightarrow> (federation_hello \<Rightarrow> bool) \<Rightarrow> fed_env \<Rightarrow> registry \<Rightarrow> fed_event
    \<Rightarrow> federation \<Rightarrow> 'd \<Rightarrow> 'd fed_step" where
  "fed_event_step pk verify_hello env reg e f db =
     (let plain = (\<lambda>(f', es). finish_step env db (f', es, []))
      in case e of
        FedMessage w d m \<Rightarrow> handleFederationMessage pk env reg w d m f db
      | FedHello w m ip \<Rightarrow> plain (snd (acceptIncomingRelay env verify_hello w m ip f))
      | FedBeginAdmission d \<Rightarrow> finish_step env db (beginAdmission env d f)
      | FedOutboundWelcome w ep d c m \<Rightarrow> plain (snd (outboundWelcome env w ep d c m f))
      | FedIncomingClosed d \<Rightarrow> plain (handleIncomingDisconnect env d f, [])
      | FedOutboundClosed d \<Rightarrow> (let (f', rs) = handleRelayDisconnection env d f in finish_step env db (f', [], rs))
      | FedAdmissionTimeout d \<Rightarrow> finish_step env db (admissionTimeout env d f)
      | FedHealthTimeout d \<Rightarrow> finish_step env db (healthProbeTimeout env d f)
      | FedCardTimeout d \<Rightarrow> finish_step env db (cardProbeTimeout env d f)
      | FedReconnect d \<Rightarrow> plain (attemptReconnection env reg d f)
      | FedConnectEnded d \<Rightarrow> plain (connectFailed d f, [])
      | FedReconnectFailed d \<Rightarrow> plain (reconnectFailed env d f, [])
      | FedHealthRound \<Rightarrow> finish_step env db (performHealthChecks env f)
      | FedDiscover found \<Rightarrow> plain (discoverRelays env found f)
      | FedRoute i d b \<Rightarrow> plain (snd (routeToFederation env i d b f))
      | FedJoined d c realm \<Rightarrow> plain (notifyAgentJoined env d c realm f)
      | FedLeft d realm \<Rightarrow> plain (notifyAgentLeft env d realm f)
      | FedFetchPreKeys rnd d device realm \<Rightarrow> plain (snd (fetchRemotePreKeyBundle env rnd d device realm f))
      | FedPreKeyTimeout i \<Rightarrow>
          (let (f', ks) = preKeyFetchTimeout i f; st = finish_step env db (f', [], [])
           in st\<lparr>fs_fetched := ks @ fs_fetched st\<rparr>)
      | FedStop \<Rightarrow> finish_step env db (stopFederation env f))"

end
