(* ===== verification/Relay_Federation_Props.thy ===== *)
theory Relay_Federation_Props
  imports Relay_Federation Rate_Windows
begin

text \<open>
  What the federation manager guarantees over every step of \<open>fed_event_step\<close>: who is admitted,
  where a route comes from, what is told to other relays, how far a message is forwarded, and
  what the handshake guard and the reconnection timer allow.
\<close>

lemmas relay_simps [simp] = get_relay_def mod_relay_def put_relay_def del_relay_def

section \<open>Quiet operations\<close>

text \<open>An operation is quiet when it admits no relay and learns no route.\<close>

definition no_new_admission :: "federation \<Rightarrow> federation \<Rightarrow> bool" where
  "no_new_admission f f' \<longleftrightarrow> (\<forall>d r'. get_relay f' d = Some r' \<and> fr_admissionState r' = Admitted \<longrightarrow>
     (\<exists>r. get_relay f d = Some r \<and> fr_admissionState r = Admitted))"

definition quiet :: "federation \<Rightarrow> federation \<Rightarrow> bool" where
  "quiet f f' \<longleftrightarrow> no_new_admission f f' \<and> set (remoteAgentRoutes f') \<subseteq> set (remoteAgentRoutes f)"

lemma no_new_admission_trans: "no_new_admission f g \<Longrightarrow> no_new_admission g h \<Longrightarrow> no_new_admission f h"
  unfolding no_new_admission_def by blast

lemma quiet_refl [simp]: "quiet f f"
  by (simp add: quiet_def no_new_admission_def)

lemma quiet_trans: "quiet f g \<Longrightarrow> quiet g h \<Longrightarrow> quiet f h"
  unfolding quiet_def using no_new_admission_trans by blast

lemma quiet_same: "federatedRelays f' = federatedRelays f \<Longrightarrow> remoteAgentRoutes f' = remoteAgentRoutes f \<Longrightarrow> quiet f f'"
  by (simp add: quiet_def no_new_admission_def)

lemma quiet_mod: "(\<And>r. fr_admissionState (g r) = Admitted \<Longrightarrow> fr_admissionState r = Admitted) \<Longrightarrow> quiet f (mod_relay d g f)"
  by (auto simp: quiet_def no_new_admission_def)

lemma quiet_put: "fr_admissionState r \<noteq> Admitted \<Longrightarrow> quiet f (put_relay d r f)"
  by (auto simp: quiet_def no_new_admission_def split: if_splits)

lemma quiet_del [simp]: "quiet f (del_relay d f)"
  by (auto simp: quiet_def no_new_admission_def split: if_splits)

lemma quiet_routes: "federatedRelays f' = federatedRelays f \<Longrightarrow> set (remoteAgentRoutes f') \<subseteq> set (remoteAgentRoutes f) \<Longrightarrow> quiet f f'"
  by (simp add: quiet_def no_new_admission_def)

lemma set_jm_del: "set (jm_del k m) \<subseteq> set m"
  by (auto simp: AList.delete_eq)

lemma quiet_fold: "(\<And>x g es. quiet g (fst (k x (g, es)))) \<Longrightarrow> quiet f (fst (fold k xs (f, es)))"
proof (induction xs arbitrary: f es)
  case (Cons x xs)
  obtain g es' where g: "k x (f, es) = (g, es')" by (cases "k x (f, es)")
  have "quiet g (fst (fold k xs (g, es')))" by (rule Cons.IH) (rule Cons.prems)
  with Cons.prems [where g = f and es = es and x = x] g show ?case by (auto intro: quiet_trans)
qed simp

lemma quiet_remove_routes [simp]: "quiet f (removeRemoteAgentRoutesForRelay d f)"
  by (rule quiet_routes) (auto simp: removeRemoteAgentRoutesForRelay_def)

lemma quiet_remove_route [simp]: "quiet f (removeRemoteAgentRoute a d f)"
  by (rule quiet_routes) (auto simp: removeRemoteAgentRoute_def AList.delete_eq split: option.splits)

lemma quiet_guard [simp]: "quiet f (snd (guardIncomingFederationHandshake env ip d f))"
  by (rule quiet_same) (simp_all add: guardIncomingFederationHandshake_def Let_def split_def)

lemma quiet_failure [simp]: "quiet f (recordIncomingFederationFailure env d ip f)"
  by (rule quiet_same) (simp_all add: recordIncomingFederationFailure_def Let_def split_def)

lemma quiet_clear [simp]: "quiet f (fst (clearPendingProbe d err f))"
  by (rule quiet_same) (simp_all add: clearPendingProbe_def Let_def)

lemma quiet_advertise [simp]: "quiet f (fst (advertiseCurrentAgentsToRelay env reg w f))"
  by (rule quiet_same) (simp_all add: advertiseCurrentAgentsToRelay_def Let_def)

lemma quiet_mark [simp]: "quiet f (fst (markAdmissionFailure env d err f))"
proof (cases "get_relay f d")
  case (Some relay)
  let ?f1 = "if fr_inbound relay then recordIncomingFederationFailure env d (fr_sourceIp relay) f else f"
  let ?f2 = "mod_relay d (\<lambda>r. r\<lparr>fr_admissionError := Some err, fr_connected := False,
                    fr_admissionState := Probation, fr_probationTimer := None\<rparr>) ?f1"
  have "quiet f ?f1" by simp
  moreover have "quiet ?f1 ?f2" by (rule quiet_mod) simp
  ultimately have "quiet f (removeRemoteAgentRoutesForRelay d (fst (clearPendingProbe d (Some err) ?f2)))"
    using quiet_trans quiet_clear quiet_remove_routes by meson
  with Some show ?thesis by (simp add: markAdmissionFailure_def Let_def split_def)
qed (simp add: markAdmissionFailure_def)

lemma quiet_settle [simp]: "quiet f (fst (settle env rs f))"
proof (induction env rs f rule: settle.induct)
  case (2 env d e rs f)
  obtain f1 es1 rs1 where m: "markAdmissionFailure env d e f = (f1, es1, rs1)" by (cases "markAdmissionFailure env d e f")
  have "quiet f f1" using quiet_mark [of f env d e] m by simp
  with 2 [OF m [symmetric] refl refl] m show ?case
    by (auto simp: split_def Let_def intro: quiet_trans)
qed (auto simp: split_def Let_def)


lemma quiet_fed_then: "quiet f (fst r) \<Longrightarrow> (\<And>g. quiet g (fst (k g))) \<Longrightarrow> quiet f (fst (fed_then r k))"
  by (auto simp: fed_then_def split_def Let_def intro: quiet_trans)

lemma quiet_register: "s \<noteq> Admitted \<Longrightarrow> quiet f (fst (registerFederatedRelay env d c es w s src f))"
  by (auto simp: registerFederatedRelay_def Let_def intro!: quiet_put simp del: put_relay_def)

lemma quiet_connect [simp]: "quiet f (fst (connectToRelay env d c f))"
  by (auto simp: connectToRelay_def Let_def intro!: quiet_put simp del: put_relay_def split: sum.splits)

lemma quiet_pending_peers [simp]: "quiet f (fst (connectPendingPeers env reg d f))"
proof (cases "get_relay f d")
  case (Some relay)
  let ?f1 = "mod_relay d (\<lambda>r. r\<lparr>fr_pendingPeerDids := []\<rparr>) f"
  have "quiet f ?f1" by (rule quiet_mod) simp
  moreover have "quiet ?f1 (fst (fold (\<lambda>peer (f, es).
                 if peer = self_did env \<or> get_relay f peer \<noteq> None then (f, es)
                 else (case reg_get reg peer of
                     None \<Rightarrow> (f, es)
                   | Some a \<Rightarrow> (let (f', es') = connectToRelay env peer (ra_card a) f in (f', es @ es'))))
               (fr_pendingPeerDids relay) (?f1, [])))"
    by (rule quiet_fold) (auto simp: split_def Let_def split: option.splits)
  ultimately show ?thesis
    using Some by (auto simp: connectPendingPeers_def Let_def intro: quiet_trans)
qed (simp add: connectPendingPeers_def)


lemma quiet_activate [simp]: "quiet f (fst (maybeActivateRelay env reg d f))"
  using quiet_trans [OF quiet_advertise quiet_pending_peers]
  by (auto simp: maybeActivateRelay_def Let_def split_def split: option.splits)

lemma quiet_discover [simp]: "quiet f (fst (discoverRelays env found f))"
  unfolding discoverRelays_def by (rule quiet_fold) (auto simp: split_def Let_def split: sum.splits)

lemma quiet_schedule [simp]: "quiet f (scheduleReconnection env d f)"
proof -
  have "quiet f (removeRemoteAgentRoutesForRelay d (del_relay d f))"
    by (rule quiet_trans [OF quiet_del quiet_remove_routes])
  moreover have "quiet f (mod_relay d (\<lambda>r. r\<lparr>fr_reconnectAttempts := Suc (fr_reconnectAttempts r),
               fr_reconnectTimer := Some (now_ms env + backoff_delay (fconf env) (fr_reconnectAttempts r))\<rparr>) f)"
    by (rule quiet_mod) simp
  ultimately show ?thesis by (simp add: scheduleReconnection_def split: option.splits)
qed

lemma quiet_drop [simp]: "quiet f (mod_relay d (drop_connection now) f)"
  by (rule quiet_mod) (simp add: drop_connection_def)

lemma quiet_incoming_closed [simp]: "quiet f (handleIncomingDisconnect env d f)"
  by (auto simp: handleIncomingDisconnect_def simp del: mod_relay_def split: option.splits
      intro: quiet_trans [OF quiet_drop quiet_trans [OF quiet_clear quiet_remove_routes]])

lemma quiet_disconnection [simp]: "quiet f (fst (handleRelayDisconnection env d f))"
  by (auto simp: handleRelayDisconnection_def Let_def split_def simp del: mod_relay_def split: option.splits
      intro: quiet_trans [OF quiet_drop quiet_trans [OF quiet_clear quiet_remove_routes]]
        quiet_trans [OF quiet_drop quiet_trans [OF quiet_clear quiet_trans [OF quiet_remove_routes quiet_schedule]]])

lemma quiet_health_probe [simp]: "quiet f (fst (runHealthProbe env d f))"
proof -
  let ?f1 = "fst (clearPendingProbe d (Some PeerDisconnected) f)"
  let ?f2 = "mod_relay d (\<lambda>r. r\<lparr>fr_lastHealthCheckAt := Some (now_ms env)\<rparr>) ?f1"
  have "quiet ?f1 ?f2" by (rule quiet_mod) simp
  moreover have "quiet ?f2 (?f2\<lparr>pendingHealthChecks := m\<rparr>)" for m by (rule quiet_same) simp_all
  ultimately have "quiet f (?f2\<lparr>pendingHealthChecks := m\<rparr>)" for m
    using quiet_trans quiet_clear by meson
  then show ?thesis by (simp add: runHealthProbe_def Let_def split_def del: relay_simps split: option.split)
qed

lemma quiet_begin [simp]: "quiet f (fst (beginAdmission env d f))"
proof -
  have "quiet f (mod_relay d (\<lambda>r. r\<lparr>fr_admissionState := Probation, fr_admissionError := None,
               fr_lastProbeStartedAt := t, fr_probationTimer := t'\<rparr>) f)" for t t'
    by (rule quiet_mod) simp
  from quiet_trans [OF this quiet_health_probe] show ?thesis
    by (simp add: beginAdmission_def del: relay_simps split: option.split)
qed

lemma quiet_card_probe [simp]: "quiet f (fst (continueWithCardProbe env d f))"
  by (auto simp: continueWithCardProbe_def intro!: quiet_same split: option.splits simp del: get_relay_def)

lemma quiet_welcome [simp]: "quiet f (handleFederationWelcome env d m f)"
  unfolding handleFederationWelcome_def by (rule quiet_mod) (simp split: if_splits)

lemma quiet_admitted_by_peer [simp]: "quiet f (fst (handleFederationAdmitted env reg d f))"
  unfolding handleFederationAdmitted_def by (rule quiet_trans [OF quiet_mod quiet_activate]) simp

lemma quiet_health [simp]: "quiet f (fst (handleFederationHealthResponse env d up n f))"
proof -
  let ?f1 = "mod_relay d (\<lambda>r. r\<lparr>fr_uptime := up, fr_agentCount := n,
                  fr_lastSeen := now_ms env, fr_lastHealthResponseAt := Some (now_ms env)\<rparr>) f"
  have 1: "quiet f ?f1" by (rule quiet_mod) simp
  have "quiet f (?f1\<lparr>pendingHealthChecks := m\<rparr>)" for m
    by (rule quiet_trans [OF 1 quiet_same]) simp_all
  from 1 quiet_trans [OF this quiet_card_probe] show ?thesis
    by (simp add: handleFederationHealthResponse_def Let_def split: option.splits)
qed

lemma quiet_reconnect [simp]: "quiet f (fst (attemptReconnection env reg d f))"
proof -
  let ?f1 = "mod_relay d (\<lambda>r. r\<lparr>fr_reconnectTimer := None\<rparr>) f"
  have 1: "quiet f ?f1" by (rule quiet_mod) simp
  from 1 quiet_trans [OF 1 quiet_connect] quiet_trans [OF 1 quiet_trans [OF quiet_del quiet_remove_routes]] show ?thesis
    by (simp add: attemptReconnection_def Let_def split: option.splits)
qed

lemma quiet_connect_failed [simp]: "quiet f (connectFailed d f)"
  unfolding connectFailed_def by (rule quiet_mod) (simp split: if_splits)

lemma quiet_reconnect_failed [simp]: "quiet f (reconnectFailed env d f)"
  using quiet_trans [OF quiet_connect_failed quiet_schedule]
  by (simp add: reconnectFailed_def Let_def split: option.splits)


lemma quiet_health_round [simp]: "quiet f (fst (performHealthChecks env f))"
proof -
  let ?probed = "filter (\<lambda>(_, r). isLocallyAdmitted r \<and> open_ws env r \<noteq> None) (federatedRelays f)"
  let ?set = "\<lambda>d. mod_relay d (\<lambda>r. r\<lparr>fr_lastHealthCheckAt := Some (now_ms env)\<rparr>)"
  have one: "quiet g (?set d g)" for d g by (rule quiet_mod) simp
  have "quiet g (fold (\<lambda>(d, _). ?set d) ps g)" for ps :: "(did \<times> fed_relay) list" and g
    by (induction ps arbitrary: g) (auto intro: quiet_trans [OF one])
  moreover have "quiet g (fst (fold (\<lambda>(d, r) res. fed_then res (\<lambda>f. (let (f', rs) = handleRelayDisconnection env d f
                    in (f', case fr_ws r of Some w \<Rightarrow> [CloseWs w 1005] | None \<Rightarrow> [], rs)))) ps (g, es)))"
    for ps :: "(did \<times> fed_relay) list" and g es
    by (rule quiet_fold) (auto simp: split_def Let_def intro!: quiet_fed_then)
  ultimately show ?thesis
    by (simp only: performHealthChecks_def Let_def) (rule quiet_fed_then, simp_all only: fst_conv)
qed

lemma quiet_route [simp]: "quiet f (fst (snd (routeToFederation env i d b f)))"
  by (rule quiet_routes) (auto simp: routeToFederation_def Let_def AList.delete_eq split: option.splits)

lemma quiet_fetch [simp]: "quiet f (fst (snd (fetchRemotePreKeyBundle env rnd d device realm f)))"
  by (rule quiet_routes) (auto simp: fetchRemotePreKeyBundle_def Let_def AList.delete_eq split: option.splits)

lemma quiet_joined [simp]: "quiet f (fst (notifyAgentJoined env d c realm f))"
  by (rule quiet_same) (auto simp: notifyAgentJoined_def notifyAgentLeft_def Let_def)

lemma quiet_left [simp]: "quiet f (fst (notifyAgentLeft env d realm f))"
  by (rule quiet_same) (auto simp: notifyAgentLeft_def Let_def)

lemma quiet_stop [simp]: "quiet f (fst (stopFederation env f))"
  by (auto simp: stopFederation_def empty_federation_def quiet_def no_new_admission_def)

lemma quiet_register_new [simp]: "quiet f (fst (registerFederatedRelay env d c es w Authenticated src f))"
  by (rule quiet_register) simp

lemma quiet_accept [simp]: "quiet f (fst (snd (acceptIncomingRelay env vh w m ip f)))"
proof -
  have "quiet f (recordIncomingFederationFailure env d ip (snd (guardIncomingFederationHandshake env ip d f)))" for d
    by (rule quiet_trans [OF quiet_guard quiet_failure])
  moreover have "quiet f (fst (registerFederatedRelay env d c es w Authenticated src (snd (guardIncomingFederationHandshake env ip d f))))"
    for d c es src by (rule quiet_trans [OF quiet_guard quiet_register_new])
  ultimately show ?thesis
    by (simp add: acceptIncomingRelay_def Let_def split_def del: relay_simps split: sum.split)
qed

lemma quiet_outbound [simp]: "quiet f (fst (snd (outboundWelcome env w ep d c m f)))"
proof -
  have "quiet f (handleFederationWelcome env e m (fst (registerFederatedRelay env e cc es w Authenticated None f)))" for e cc es
    by (rule quiet_trans [OF quiet_register_new quiet_welcome])
  then show ?thesis
    by (simp add: outboundWelcome_def Let_def split_def del: relay_simps split: sum.split option.split)
qed

section \<open>Admission\<close>

text \<open>The step that admits relay \<open>d\<close>: an answer to the card probe that is waiting for it, with a card
  of that relay that is signed and eligible.\<close>

definition admits :: "fed_env \<Rightarrow> federation \<Rightarrow> fed_event \<Rightarrow> did \<Rightarrow> bool" where
  "admits env f e d \<longleftrightarrow> (case e of
     FedMessage _ sender (Card md (Some c)) \<Rightarrow> sender = d \<and> md = d \<and> card_did c = d \<and> verify_card env d c
       \<and> (\<exists>es. validateRelayEligibility d c None = Inr es) \<and> jm_get (pendingCardFetches f) d \<noteq> None
   | _ \<Rightarrow> False)"


lemma quiet_finish: "quiet f (fst res) \<Longrightarrow> quiet f (fs_fed (finish_step env db res))"
  by (auto simp: finish_step_def Let_def split_def intro: quiet_trans)

definition learns :: "fed_env \<Rightarrow> federation \<Rightarrow> fed_event \<Rightarrow> did \<Rightarrow> agent_route \<Rightarrow> bool" where
  "learns env f e a route \<longleftrightarrow> (case e of
     FedMessage _ sender (AgentJoined a' c realm _) \<Rightarrow> a' = a
       \<and> route = \<lparr>ar_relayDid = sender, ar_realm = realm, ar_card = c, ar_lastSeen = now_ms env\<rparr>
       \<and> (\<exists>r. get_relay f sender = Some r \<and> isDataPlaneActive r)
   | _ \<Rightarrow> False)"

text \<open>What one step may add: an admission with its evidence, a route with its announcement.\<close>

definition justified :: "fed_env \<Rightarrow> federation \<Rightarrow> fed_event \<Rightarrow> federation \<Rightarrow> bool" where
  "justified env f e f' \<longleftrightarrow>
     (\<forall>d r'. get_relay f' d = Some r' \<and> fr_admissionState r' = Admitted \<longrightarrow>
        admits env f e d \<or> (\<exists>r. get_relay f d = Some r \<and> fr_admissionState r = Admitted))
   \<and> (\<forall>a route. (a, route) \<in> set (remoteAgentRoutes f') \<longrightarrow>
        learns env f e a route \<or> (a, route) \<in> set (remoteAgentRoutes f))"

lemma quiet_justified: "quiet f f' \<Longrightarrow> justified env f e f'"
  by (auto simp: quiet_def justified_def no_new_admission_def simp del: relay_simps)

lemma justified_card:
  assumes p: "jm_get (pendingCardFetches f) d \<noteq> None" and f: "quiet f f1" "pendingCardFetches f1 = pendingCardFetches f"
  shows "justified env f (FedMessage w d (Card md c)) (fst (handleFederationCard env reg d md c f1))"
proof (cases "check_probe_card env d md c")
  case (Inl err)
  have "quiet f1 (fst (handleFederationCard env reg d md c f1))"
  proof -
    have "quiet f1 (fst (markAdmissionFailure env d err (f1\<lparr>pendingCardFetches := m\<rparr>)))" for m
      by (rule quiet_trans [OF quiet_same quiet_mark]) simp_all
    then show ?thesis by (auto simp: handleFederationCard_def completeAdmission_def Inl split: option.splits)
  qed
  with f(1) show ?thesis by (blast intro: quiet_justified quiet_trans)
next
  case (Inr p)
  obtain cd es where ce: "p = (cd, es)" by (cases p)
  have c: "c = Some cd" "md = d" "card_did cd = d" "verify_card env d cd" "validateRelayEligibility d cd None = Inr es"
    using Inr ce by (auto simp: check_probe_card_def split: option.splits if_splits sum.splits)
  have adm: "admits env f (FedMessage w d (Card md c)) d"
    using c assms(1) by (simp add: admits_def)
  show ?thesis
  proof (cases "handleFederationCard env reg d md c f1 = (f1, [], [])")
    case True
    with f(1) show ?thesis by (simp add: quiet_justified)
  next
    case False
    let ?g = "f1\<lparr>pendingCardFetches := jm_del d (pendingCardFetches f1)\<rparr>"
    have h: "handleFederationCard env reg d md c f1 = completeAdmission env reg d md c ?g"
      using False by (auto simp: handleFederationCard_def split: option.splits if_splits)
    have g: "quiet f ?g" by (rule quiet_trans [OF f(1) quiet_same]) simp_all
    show ?thesis
    proof (cases "get_relay ?g d")
      case None
      then have "fst (completeAdmission env reg d md c ?g) = ?g" using Inr ce by (simp add: completeAdmission_def)
      with g h show ?thesis by (simp add: quiet_justified)
    next
      case (Some relay)
      let ?f1 = "mod_relay d (\<lambda>r. r\<lparr>fr_card := Some cd, fr_endpoints := es, fr_admissionState := Admitted,
                        fr_lastProbeSucceededAt := Some (now_ms env), fr_admissionError := None\<rparr>) ?g"
      let ?f2 = "if fr_inbound relay then recordSuccessfulIncomingFederationAdmission d (fr_sourceIp relay) ?f1 else ?f1"
      let ?f3 = "mod_relay d (\<lambda>r. r\<lparr>fr_probationTimer := None\<rparr>) ?f2"
      have "quiet ?f1 ?f2" by (rule quiet_same) (simp_all add: recordSuccessfulIncomingFederationAdmission_def)
      moreover have "quiet ?f2 ?f3" by (rule quiet_mod) simp
      ultimately have q: "quiet ?f1 (fst (maybeActivateRelay env reg d ?f3))"
        using quiet_trans quiet_activate by meson
      have "fst (completeAdmission env reg d md c ?g) = fst (maybeActivateRelay env reg d ?f3)"
        using Inr ce Some by (simp add: completeAdmission_def Let_def split_def del: relay_simps)
      moreover have "justified env f (FedMessage w d (Card md c)) ?f1"
        using g adm by (auto simp: justified_def quiet_def no_new_admission_def split: if_splits)
      ultimately show ?thesis
        using q h by (fastforce simp: justified_def quiet_def no_new_admission_def simp del: relay_simps)
    qed
  qed
qed


lemma quiet_card_none: "jm_get (pendingCardFetches f) d = None \<Longrightarrow> fst (handleFederationCard env reg d md c f) = f"
  by (simp add: handleFederationCard_def)

lemma finish_fed [simp]: "fs_fed (finish_step env db res) = fst (settle env (snd (snd res)) (fst res))"
  by (simp add: finish_step_def Let_def split_def)

lemma justified_settle: "justified env f e g \<Longrightarrow> justified env f e (fst (settle env' rs g))"
  using quiet_settle [of g env' rs] unfolding justified_def quiet_def no_new_admission_def by blast

lemma quiet_seen [simp]: "quiet f (mod_relay d (\<lambda>r. r\<lparr>fr_lastSeen := t\<rparr>) f)"
  by (rule quiet_mod) simp

lemma quiet_prekey [simp]: "quiet f (fst (handleFederationPreKeyBundle d a dev rid f))"
  by (rule quiet_same) (simp_all add: handleFederationPreKeyBundle_def Let_def split: option.split)

lemma set_jm_set: "(a, b) \<in> set (jm_set k v m) \<Longrightarrow> (a, b) = (k, v) \<or> (a, b) \<in> set m"
  by (induction m) (auto split: if_splits)

lemma seen_upsert: "get_relay f d = Some r \<Longrightarrow> isDataPlaneActive r \<Longrightarrow>
   justified env f (FedMessage w d (AgentJoined a c realm t)) (upsertRemoteAgentRoute (now_ms env) d a c realm (mod_relay d (\<lambda>r. r\<lparr>fr_lastSeen := now_ms env\<rparr>) f))"
  by (auto simp: justified_def learns_def upsertRemoteAgentRoute_def split: if_splits dest: set_jm_set)

lemma justified_message: "justified env f (FedMessage w d m) (fs_fed (handleFederationMessage pk env reg w d m f db))"
proof (cases "get_relay f d")
  case None
  then show ?thesis by (simp add: handleFederationMessage_def quiet_justified del: relay_simps)
next
  case (Some relay)
  let ?f = "mod_relay d (\<lambda>r. r\<lparr>fr_lastSeen := now_ms env\<rparr>) f"
  have q: "quiet ?f g \<Longrightarrow> justified env f e (fst (settle env rs g))" for e g rs
    by (rule quiet_justified) (rule quiet_trans [OF quiet_seen], erule quiet_trans [OF _ quiet_settle])
  have q0: "quiet ?f g \<Longrightarrow> justified env f e g" for e g
    by (rule quiet_justified) (rule quiet_trans [OF quiet_seen])
  have viol: "quiet ?f (mod_relay d (\<lambda>r. r\<lparr>fr_violationCount := Suc (fr_violationCount r)\<rparr>) ?f)" by (rule quiet_mod) simp
  show ?thesis
  proof (cases "\<not> isDataPlaneActive relay \<and> \<not> isMessageAllowedDuringProbation m")
    case True
    with Some q0 [OF viol] show ?thesis by (simp add: handleFederationMessage_def Let_def del: relay_simps)
  next
    case False
    show ?thesis
    proof (cases m)
      case (AgentJoined a c realm t)
      from False have "isDataPlaneActive relay" unfolding AgentJoined by simp
      from seen_upsert [OF Some this] show ?thesis
        using False by (simp add: Some AgentJoined handleFederationMessage_def Let_def del: relay_simps)
    next
      case (Card md c)
      have "justified env f (FedMessage w d m) (fst (handleFederationCard env reg d md c ?f))"
      proof (cases "jm_get (pendingCardFetches f) d")
        case None
        then have "jm_get (pendingCardFetches ?f) d = None" by simp
        from quiet_card_none [OF this] quiet_justified [OF quiet_seen] show ?thesis by (simp del: relay_simps)
      next
        case (Some p)
        then show ?thesis unfolding Card by (intro justified_card [OF _ quiet_seen]) simp_all
      qed
      from justified_settle [OF this] show ?thesis
        using False by (simp add: Some Card handleFederationMessage_def Let_def del: relay_simps)
    qed (use False in \<open>simp_all add: Some handleFederationMessage_def Let_def split_def q q0 del: relay_simps\<close>)
  qed
qed


lemma quiet_timeouts [simp]:
  "quiet f (fst (healthProbeTimeout env d f))" "quiet f (fst (cardProbeTimeout env d f))" "quiet f (fst (preKeyFetchTimeout i f))"
  by (rule quiet_same; simp add: healthProbeTimeout_def cardProbeTimeout_def preKeyFetchTimeout_def split: option.split)+

lemma justified_step: "justified env f e (fs_fed (fed_event_step pk vh env reg e f db))"
proof -
  have q: "quiet f g \<Longrightarrow> justified env f e (fst (settle env rs g))" for e g rs
    by (rule quiet_justified) (erule quiet_trans [OF _ quiet_settle])
  note q0 = quiet_justified
  show ?thesis
  proof (cases e)
    case (FedMessage w d m)
    then show ?thesis by (simp add: fed_event_step_def justified_message del: finish_fed)
  qed (simp_all add: fed_event_step_def Let_def split_def admissionTimeout_def q q0)
qed

definition fed_run :: "('d, stored_bundle) level_ops \<Rightarrow> (federation_hello \<Rightarrow> bool) \<Rightarrow> (fed_env \<times> registry \<times> fed_event) list
    \<Rightarrow> federation \<times> 'd \<Rightarrow> federation \<times> 'd" where
  "fed_run pk vh evs s =
     fold (\<lambda>(env, reg, e) (f, db). (let st = fed_event_step pk vh env reg e f db in (fs_fed st, fs_store st))) evs s"

lemma fed_run_Nil [simp]: "fed_run pk vh [] s = s"
  by (simp add: fed_run_def)

lemma fed_run_snoc [simp]: "fst (fed_run pk vh (evs @ [(env, reg, e)]) s)
    = fs_fed (fed_event_step pk vh env reg e (fst (fed_run pk vh evs s)) (snd (fed_run pk vh evs s)))"
  by (simp add: fed_run_def Let_def split_def)

lemma run_justified:
  assumes "get_relay (fst (fed_run pk vh evs (empty_federation, db))) d = Some r" "fr_admissionState r = Admitted"
  shows "\<exists>pre env reg e post. evs = pre @ (env, reg, e) # post
    \<and> admits env (fst (fed_run pk vh pre (empty_federation, db))) e d"
  using assms
proof (induction evs arbitrary: r rule: rev_induct)
  case Nil
  then show ?case by (simp add: empty_federation_def)
next
  case (snoc x evs)
  obtain env reg e where x: "x = (env, reg, e)" by (cases x) auto
  let ?f = "fst (fed_run pk vh evs (empty_federation, db))"
  have "admits env ?f e d \<or> (\<exists>r. get_relay ?f d = Some r \<and> fr_admissionState r = Admitted)"
    using justified_step [of env ?f e pk vh reg "snd (fed_run pk vh evs (empty_federation, db))"] snoc.prems
    unfolding justified_def x fed_run_snoc by blast
  then show ?case
  proof
    assume "admits env ?f e d"
    then show ?thesis using x by blast
  next
    assume "\<exists>r. get_relay ?f d = Some r \<and> fr_admissionState r = Admitted"
    with snoc.IH obtain pre env reg e post where "evs = pre @ (env, reg, e) # post"
        "admits env (fst (fed_run pk vh pre (empty_federation, db))) e d" by blast
    then show ?thesis by (metis append_Cons append_assoc)
  qed
qed

lemma run_route_learned:
  assumes "(a, route) \<in> set (remoteAgentRoutes (fst (fed_run pk vh evs (empty_federation, db))))"
  shows "\<exists>pre env reg e post. evs = pre @ (env, reg, e) # post
    \<and> learns env (fst (fed_run pk vh pre (empty_federation, db))) e a route"
  using assms
proof (induction evs rule: rev_induct)
  case Nil
  then show ?case by (simp add: empty_federation_def)
next
  case (snoc x evs)
  obtain env reg e where x: "x = (env, reg, e)" by (cases x) auto
  let ?f = "fst (fed_run pk vh evs (empty_federation, db))"
  have "learns env ?f e a route \<or> (a, route) \<in> set (remoteAgentRoutes ?f)"
    using justified_step [of env ?f e pk vh reg "snd (fed_run pk vh evs (empty_federation, db))"] snoc.prems
    unfolding justified_def x fed_run_snoc by blast
  then show ?case
  proof
    assume "learns env ?f e a route"
    then show ?thesis using x by blast
  next
    assume "(a, route) \<in> set (remoteAgentRoutes ?f)"
    with snoc.IH obtain pre env reg e post where "evs = pre @ (env, reg, e) # post"
        "learns env (fst (fed_run pk vh pre (empty_federation, db))) e a route" by blast
    then show ?thesis by (metis append_Cons append_assoc)
  qed
qed

lemma normalize_endpoint: "ep \<in> set (normalizeRelayEndpoints es) \<Longrightarrow> isWebSocketEndpoint ep \<and> (\<exists>x \<in> set es. ep = js_trim x)"
  by (auto simp: normalizeRelayEndpoints_def)

lemma eligible_card:
  assumes "validateRelayEligibility d c None = Inr es"
  shows "set required_relay_capabilities \<subseteq> set (map cap_id (card_capabilities c))
    \<and> (\<exists>ep \<in> set (card_endpoints c). isWebSocketEndpoint (js_trim ep))"
proof -
  from assms have m: "filter (\<lambda>x. x \<notin> set (map cap_id (card_capabilities c))) required_relay_capabilities = []"
    and n: "normalizeRelayEndpoints (card_endpoints c) \<noteq> []"
    by (auto simp: validateRelayEligibility_def Let_def simp del: set_map split: if_splits)
  from n obtain ep where "ep \<in> set (normalizeRelayEndpoints (card_endpoints c))" by (meson list.set_sel(1))
  with normalize_endpoint [OF this] m show ?thesis by (auto simp: filter_empty_conv)
qed

text \<open>C7: After any run of the manager from its start, an admitted relay was admitted by its own answer
  to the card probe that was waiting for it, with a card of its DID whose signature was verified and
  that has every required capability and a WebSocket endpoint.\<close>

theorem federation_admission:
  assumes "get_relay (fst (fed_run pk vh evs (empty_federation, db))) d = Some r" "fr_admissionState r = Admitted"
  shows "\<exists>pre env reg w c post. evs = pre @ (env, reg, FedMessage w d (Card d (Some c))) # post
    \<and> jm_get (pendingCardFetches (fst (fed_run pk vh pre (empty_federation, db)))) d \<noteq> None
    \<and> card_did c = d \<and> verify_card env d c
    \<and> set required_relay_capabilities \<subseteq> set (map cap_id (card_capabilities c))
    \<and> (\<exists>ep \<in> set (card_endpoints c). isWebSocketEndpoint (js_trim ep))"
proof -
  obtain pre env reg e post where e: "evs = pre @ (env, reg, e) # post"
      "admits env (fst (fed_run pk vh pre (empty_federation, db))) e d"
    using run_justified [OF assms] by blast
  from e(2) obtain w c es where "e = FedMessage w d (Card d (Some c))" "card_did c = d" "verify_card env d c"
      "validateRelayEligibility d c None = Inr es"
      "jm_get (pendingCardFetches (fst (fed_run pk vh pre (empty_federation, db)))) d \<noteq> None"
    by (auto simp: admits_def split: fed_event.splits relay_msg.splits option.splits)
  with e(1) eligible_card [of d c es] show ?thesis by blast
qed

text \<open>C8: After any run of the manager, every route to a remote agent was announced, with this card and
  this realm, by the relay the route names, at a moment when that relay was connected, admitted here
  and had admitted this relay.\<close>

theorem federation_route_origin:
  assumes "(a, route) \<in> set (remoteAgentRoutes (fst (fed_run pk vh evs (empty_federation, db))))"
  shows "\<exists>pre env reg w t r post. evs = pre @ (env, reg, FedMessage w (ar_relayDid route) (AgentJoined a (ar_card route) (ar_realm route) t)) # post
    \<and> get_relay (fst (fed_run pk vh pre (empty_federation, db))) (ar_relayDid route) = Some r
    \<and> fr_connected r \<and> fr_admissionState r = Admitted \<and> fr_admittedByPeer r"
proof -
  obtain pre env reg e post where e: "evs = pre @ (env, reg, e) # post"
      "learns env (fst (fed_run pk vh pre (empty_federation, db))) e a route"
    using run_route_learned [OF assms] by blast
  from e(2) obtain w t r where "e = FedMessage w (ar_relayDid route) (AgentJoined a (ar_card route) (ar_realm route) t)"
      "get_relay (fst (fed_run pk vh pre (empty_federation, db))) (ar_relayDid route) = Some r" "isDataPlaneActive r"
    by (auto simp: learns_def simp del: relay_simps split: fed_event.splits relay_msg.splits)
  with e(1) show ?thesis unfolding isDataPlaneActive_def by blast
qed


section \<open>What is sent\<close>

text \<open>Control messages carry no data of agents; they are the messages of the admission itself.\<close>

definition sends :: "(relay_msg \<Rightarrow> bool) \<Rightarrow> effect list \<Rightarrow> bool" where
  "sends P es \<longleftrightarrow> (\<forall>w m. Send w m \<in> set es \<longrightarrow> P m)"

lemma sends_simps [simp]:
  "sends P []" "sends P (Send w m # es) \<longleftrightarrow> P m \<and> sends P es" "sends P (CloseWs w c # es) \<longleftrightarrow> sends P es"
  "sends P (OpenWs ep d cd # es) \<longleftrightarrow> sends P es" "sends P (es @ fs) \<longleftrightarrow> sends P es \<and> sends P fs"
  by (auto simp: sends_def)

lemma sends_mono: "sends P es \<Longrightarrow> (\<And>m. P m \<Longrightarrow> Q m) \<Longrightarrow> sends Q es"
  by (auto simp: sends_def)

lemma sends_fold: "(\<And>x f es. sends P es \<Longrightarrow> sends P (snd (k x (f, es)))) \<Longrightarrow> sends P es \<Longrightarrow> sends P (snd (fold k xs (f, es)))"
proof (induction xs arbitrary: f es)
  case (Cons x xs)
  obtain g es' where g: "k x (f, es) = (g, es')" by (cases "k x (f, es)")
  have "sends P es'" using Cons.prems(1) [OF Cons.prems(2), of x f] g by simp
  from Cons.IH [OF Cons.prems(1) this] g show ?case by simp
qed simp

lemma sends_fold_res:
  "(\<And>x f es rs. sends P es \<Longrightarrow> sends P (fst (snd (k x (f, es, rs))))) \<Longrightarrow> sends P es \<Longrightarrow> sends P (fst (snd (fold k xs (f, es, rs))))"
proof (induction xs arbitrary: f es rs)
  case (Cons x xs)
  obtain g es' rs' where g: "k x (f, es, rs) = (g, es', rs')" by (cases "k x (f, es, rs)")
  have "sends P es'" using Cons.prems(1) [OF Cons.prems(2), of x f rs] g by simp
  from Cons.IH [OF Cons.prems(1) this] g show ?case by simp
qed simp

fun control :: "relay_msg \<Rightarrow> bool" where
  "control (HealthCheck _) = True"
| "control (HealthResponse _ _ _ _) = True"
| "control (FetchCard _) = True"
| "control (Card _ _) = True"
| "control (FederationWelcome _) = True"
| "control (FederationAdmitted _ _) = True"
| "control _ = False"

abbreviation only_control :: "effect list \<Rightarrow> bool" where
  "only_control \<equiv> sends control"

lemma control_mark [simp]: "only_control (fst (snd (markAdmissionFailure env d err f)))"
  by (simp add: markAdmissionFailure_def Let_def split_def split: option.split)

lemma control_settle [simp]: "only_control (fst (snd (settle env rs f)))"
proof (induction env rs f rule: settle.induct)
  case (2 env d e rs f)
  obtain f1 es1 rs1 where m: "markAdmissionFailure env d e f = (f1, es1, rs1)" by (cases "markAdmissionFailure env d e f")
  from 2 [OF m [symmetric] refl refl] control_mark [of env d e f] m show ?case by (simp add: split_def Let_def)
qed (simp_all add: split_def Let_def)

lemma control_then: "only_control (fst (snd r)) \<Longrightarrow> (\<And>g. only_control (fst (snd (k g)))) \<Longrightarrow> only_control (fst (snd (fed_then r k)))"
  by (simp add: fed_then_def split_def Let_def)

lemma control_register [simp]: "only_control (snd (registerFederatedRelay env d c es w s src f))"
  by (simp add: registerFederatedRelay_def Let_def split: option.split)

lemma control_connect [simp]: "only_control (snd (connectToRelay env d c f))"
  by (simp add: connectToRelay_def Let_def split: sum.split)

lemma control_pending_peers [simp]: "only_control (snd (connectPendingPeers env reg d f))"
proof (cases "get_relay f d")
  case (Some relay)
  have "only_control (snd (fold (\<lambda>peer (f, es).
                 if peer = self_did env \<or> get_relay f peer \<noteq> None then (f, es)
                 else (case reg_get reg peer of
                     None \<Rightarrow> (f, es)
                   | Some a \<Rightarrow> (let (f', es') = connectToRelay env peer (ra_card a) f in (f', es @ es')))) ps (g, [])))" for ps g
    by (rule sends_fold) (simp_all add: split_def Let_def del: relay_simps split: option.split)
  with Some show ?thesis by (simp add: connectPendingPeers_def Let_def del: relay_simps)
qed (simp add: connectPendingPeers_def)

lemma control_discover [simp]: "only_control (snd (discoverRelays env found f))"
  unfolding discoverRelays_def
  by (rule sends_fold) (simp_all add: split_def Let_def del: relay_simps split: sum.split)

lemma control_begin [simp]: "only_control (fst (snd (beginAdmission env d f)))"
  by (simp add: beginAdmission_def runHealthProbe_def Let_def split_def split: option.split)

lemma control_card_probe [simp]: "only_control (fst (snd (continueWithCardProbe env d f)))"
  by (simp add: continueWithCardProbe_def del: relay_simps split: option.split)

lemma control_health [simp]: "only_control (fst (snd (handleFederationHealthResponse env d up n f)))"
  by (simp add: handleFederationHealthResponse_def Let_def del: relay_simps split: option.split)

lemma control_to_open: "control m \<Longrightarrow> only_control (send_to_open env f d m)"
  by (simp add: send_to_open_def split: option.split)

lemma control_reconnect [simp]: "only_control (snd (attemptReconnection env reg d f))"
  by (simp add: attemptReconnection_def Let_def del: relay_simps split: option.split)

lemma control_accept [simp]: "only_control (snd (snd (acceptIncomingRelay env vh w m ip f)))"
  by (simp add: acceptIncomingRelay_def Let_def split_def split: sum.split)

lemma control_outbound [simp]: "only_control (snd (snd (outboundWelcome env w ep d c m f)))"
  by (simp add: outboundWelcome_def Let_def split_def split: sum.split option.split)

lemma control_timeouts [simp]:
  "only_control (fst (snd (healthProbeTimeout env d f)))" "only_control (fst (snd (cardProbeTimeout env d f)))"
  by (simp_all add: healthProbeTimeout_def cardProbeTimeout_def split: option.split)

lemma control_health_round [simp]: "only_control (fst (snd (performHealthChecks env f)))"
proof -
  have probe: "only_control (List.map_filter (\<lambda>(_, r). map_option (\<lambda>w. Send w (HealthCheck t)) (open_ws env r)) ps)" for ps :: "(did \<times> fed_relay) list" and t
    by (induction ps) (auto simp: List.map_filter_simps split: option.splits)
  have "only_control (fst (snd (fold (\<lambda>(d, r) res. fed_then res (\<lambda>f. (let (f', rs) = handleRelayDisconnection env d f
                    in (f', case fr_ws r of Some w \<Rightarrow> [CloseWs w 1005] | None \<Rightarrow> [], rs)))) ps (g, [], []))))"
    for ps :: "(did \<times> fed_relay) list" and g
    by (rule sends_fold_res) (simp_all add: fed_then_def split_def Let_def split: option.split)
  with probe show ?thesis by (simp only: performHealthChecks_def Let_def) (rule control_then, simp_all only: fst_conv snd_conv)
qed

lemma control_stop [simp]: "only_control (fst (snd (stopFederation env f)))"
proof -
  have "only_control (List.map_filter (\<lambda>(_, r). map_option (\<lambda>w. CloseWs w 1005) (open_ws env r)) ps)" for ps :: "(did \<times> fed_relay) list"
    by (induction ps) (auto simp: List.map_filter_simps split: option.splits)
  then show ?thesis by (simp add: stopFederation_def)
qed


text \<open>What a step may send, by message: agents are announced only when the export policy allows it, and
  the data plane answers only relays that are admitted on both sides.\<close>

definition active_peer :: "federation \<Rightarrow> did \<Rightarrow> bool" where
  "active_peer f d \<longleftrightarrow> (\<exists>r. get_relay f d = Some r \<and> isDataPlaneActive r)"

definition exportable_agent :: "fed_env \<Rightarrow> registry \<Rightarrow> did \<Rightarrow> agent_card \<Rightarrow> string \<Rightarrow> bool" where
  "exportable_agent env reg a c realm \<longleftrightarrow> shouldExportAgent (fconf env) c realm
     \<and> (\<exists>x \<in> set (listAgents reg). ra_did x = a \<and> ra_online x \<and> ra_card x = c \<and> ra_realm x = realm)"

fun allowed :: "fed_env \<Rightarrow> registry \<Rightarrow> federation \<Rightarrow> fed_event \<Rightarrow> relay_msg \<Rightarrow> bool" where
  "allowed env reg f e (AgentJoined a c realm _) = (exportable_agent env reg a c realm
      \<or> e = FedJoined a c realm \<and> shouldExportAgent (fconf env) c realm)"
| "allowed env reg f e (AgentLeft a _ _) = (a \<in> set (exportedLocalAgents f))"
| "allowed env reg f e (Deliver i sender b) = (\<exists>w d req x. e = FedMessage w d (RouteRequest req) \<and> active_peer f d
      \<and> rr_hopCount req < maxHops (fconf env) \<and> reg_get reg (rr_targetDid req) = Some x \<and> ra_online x
      \<and> shouldExportAgent (fconf env) (ra_card x) (ra_realm x)
      \<and> i = rr_messageId req \<and> sender = ''relay:'' @ d \<and> b = rr_envelope req)"
| "allowed env reg f e (RouteRequest req) = ((\<exists>i d b. e = FedRoute i d b \<and> rr_hopCount req = 0 \<and> rr_targetDid req = d \<and> rr_envelope req = b)
      \<or> (\<exists>w d req0. e = FedMessage w d (RouteRequest req0) \<and> active_peer f d \<and> rr_hopCount req0 < maxHops (fconf env)
            \<and> req = req0\<lparr>rr_hopCount := rr_hopCount req0 + 1, rr_fromRelay := self_did env\<rparr>))"
| "allowed env reg f e (RouteResponse i _ _) = (\<exists>w d req. e = FedMessage w d (RouteRequest req) \<and> active_peer f d \<and> i = rr_messageId req)"
| "allowed env reg f e (PreKeyBundle d device _ _) = (\<exists>w peer rid realm. e = FedMessage w peer (FetchPreKeyBundle d device rid realm) \<and> active_peer f peer)"
| "allowed env reg f e (FetchPreKeyBundle d device _ realm) = (\<exists>rnd. e = FedFetchPreKeys rnd d device (the realm) \<and> realm \<noteq> None)"
| "allowed env reg f e m = control m"

lemma control_allowed: "only_control es \<Longrightarrow> sends (allowed env reg f e) es"
proof (rule sends_mono)
  show "allowed env reg f e m" if m: "control m" for m using m by (cases m) simp_all
qed

lemma advertise_allowed: "sends (allowed env reg f e) (snd (advertiseCurrentAgentsToRelay env reg w g))"
  by (auto simp: advertiseCurrentAgentsToRelay_def Let_def sends_def exportable_agent_def)

lemma activate_allowed: "sends (allowed env reg f e) (snd (maybeActivateRelay env reg d g))"
  using advertise_allowed control_allowed [OF control_pending_peers]
  by (simp add: maybeActivateRelay_def Let_def split_def del: relay_simps split: option.split)

lemma card_allowed: "sends (allowed env reg f e) (fst (snd (handleFederationCard env reg d md c g)))"
proof -
  have "sends (allowed env reg f e) (fst (snd (completeAdmission env reg d md c h)))" for h
    using activate_allowed control_allowed [OF control_mark] control_allowed [OF control_to_open]
    by (simp add: completeAdmission_def Let_def split_def del: relay_simps split: option.split sum.split)
  then show ?thesis by (simp add: handleFederationCard_def split: option.split)
qed

lemma route_request_allowed:
  assumes "active_peer f d"
  shows "sends (allowed env reg f (FedMessage w d (RouteRequest req))) (handleRouteRequest env reg w d req g)"
  using assms by (simp add: handleRouteRequest_def split: option.split)

lemma finish_out [simp]: "fs_out (finish_step env db res) = fst (snd res) @ fst (snd (settle env (snd (snd res)) (fst res)))"
  by (simp add: finish_step_def Let_def split_def)

lemma message_allowed: "sends (allowed env reg f (FedMessage w d m)) (fs_out (handleFederationMessage pk env reg w d m f db))"
proof (cases "get_relay f d")
  case None
  then show ?thesis by (simp add: handleFederationMessage_def del: relay_simps)
next
  case (Some relay)
  note c = control_allowed [OF control_settle] control_allowed [OF control_health]
  show ?thesis
  proof (cases "\<not> isDataPlaneActive relay \<and> \<not> isMessageAllowedDuringProbation m")
    case True
    with Some show ?thesis by (simp add: handleFederationMessage_def Let_def del: relay_simps)
  next
    case False
    then show ?thesis
      using Some by (cases m) (simp_all add: handleFederationMessage_def handleFederationAdmitted_def Let_def split_def c
        activate_allowed card_allowed active_peer_def route_request_allowed del: relay_simps)
  qed
qed

lemma broadcast_allowed: "P m \<Longrightarrow> sends P (broadcastToFederation env m f)"
  by (auto simp: broadcastToFederation_def sends_def List.map_filter_def split: option.splits if_splits)

text \<open>C9: In every step, an agent is announced to a relay only under the export policy of its realm, and
  its leaving only when it was announced before; messages are delivered, forwarded or answered, and
  pre-keys given out, only for a relay admitted on both sides, below the hop limit, and delivered
  only to an online agent that the policy exports.\<close>

theorem federation_data_plane:
  "Send w m \<in> set (fs_out (fed_event_step pk vh env reg e f db)) \<Longrightarrow> allowed env reg f e m"
proof -
  note c = control_allowed [OF control_settle] control_allowed [OF control_mark] control_allowed [OF control_timeouts(1)]
    control_allowed [OF control_timeouts(2)] control_allowed [OF control_accept] control_allowed [OF control_outbound]
    control_allowed [OF control_begin] control_allowed [OF control_reconnect] control_allowed [OF control_discover]
    control_allowed [OF control_health_round] control_allowed [OF control_stop]
  have left: "sends (allowed env reg f e) (snd (notifyAgentLeft env d realm f))" for e d realm
    by (simp add: notifyAgentLeft_def Let_def broadcast_allowed)
  have "sends (allowed env reg f e) (fs_out (fed_event_step pk vh env reg e f db))"
  proof (cases e)
    case (FedMessage w d m)
    then show ?thesis by (simp add: fed_event_step_def message_allowed del: finish_out)
  next
    case (FedJoined d c realm)
    then show ?thesis
      by (simp add: fed_event_step_def split_def Let_def notifyAgentJoined_def left broadcast_allowed)
  qed (simp_all add: fed_event_step_def Let_def split_def admissionTimeout_def c left routeToFederation_def
      fetchRemotePreKeyBundle_def preKeyFetchTimeout_def split: option.split)
  then show "Send w m \<in> set (fs_out (fed_event_step pk vh env reg e f db)) \<Longrightarrow> allowed env reg f e m"
    by (simp add: sends_def)
qed


section \<open>The hop limit\<close>

text \<open>A chain of forwards through a network: each relay on it handled the request of the one before.\<close>

record hop =
  hp_env :: fed_env
  hp_reg :: registry
  hp_fed :: federation
  hp_ws :: ws
  hp_sender :: did
  hp_out :: ws

fun forward_chain :: "route_request \<Rightarrow> hop list \<Rightarrow> bool" where
  "forward_chain req [] = True"
| "forward_chain req (h # hs) = (\<exists>req'. handleRouteRequest (hp_env h) (hp_reg h) (hp_ws h) (hp_sender h) req (hp_fed h)
      = [Send (hp_out h) (RouteRequest req')] \<and> forward_chain req' hs)"

lemma forwarded:
  "handleRouteRequest env reg w d req f = [Send w' (RouteRequest req')] \<Longrightarrow>
     rr_hopCount req < maxHops (fconf env) \<and> rr_hopCount req' = rr_hopCount req + 1"
  by (auto simp: handleRouteRequest_def split: if_splits option.splits)

text \<open>C10: In a network of relays whose \<open>maxHops\<close> is at most \<open>M\<close>, a routed message is forwarded at most
  \<open>M - hopCount\<close> times, whatever the topology, cycles included.\<close>

theorem route_hop_limit:
  assumes "forward_chain req hs" "\<forall>h \<in> set hs. maxHops (fconf (hp_env h)) \<le> M"
  shows "length hs \<le> nat (M - rr_hopCount req)"
  using assms
proof (induction hs arbitrary: req)
  case (Cons h hs)
  then obtain req' where r: "handleRouteRequest (hp_env h) (hp_reg h) (hp_ws h) (hp_sender h) req (hp_fed h)
      = [Send (hp_out h) (RouteRequest req')]" "forward_chain req' hs" by auto
  from forwarded [OF r(1)] Cons.IH [OF r(2)] Cons.prems(2) show ?case by auto
qed simp

section \<open>The guard of handshakes\<close>

text \<open>The counter of one key, as the guard reads it: no more than one attempt over the limit is told apart.\<close>

definition attempt :: "string \<Rightarrow> int \<Rightarrow> nat \<Rightarrow> msec \<Rightarrow> window_map \<Rightarrow> window_map \<times> bool" where
  "attempt key W limit now m = (let (n, m') = incrementWindowCounter now m (Some key) W in (m', n \<le> limit))"

definition capped_counter :: "string \<Rightarrow> nat \<Rightarrow> window_map \<Rightarrow> (nat \<times> msec) option" where
  "capped_counter key limit m = map_option (\<lambda>c. (min (wc_count c) limit, wc_windowStart c)) (jm_get m key)"

lemma attempt_window:
  assumes "normalizeSourceKey (Some key) = Some key" "0 < limit" "0 < W"
  shows "window_counter (attempt key W limit) (capped_counter key limit) W limit"
proof
  fix s c w now
  assume "capped_counter key limit s = Some (c, w)" "now - w < W"
  then show "snd (attempt key W limit now s) = (c < limit) \<and>
      capped_counter key limit (fst (attempt key W limit now s)) = Some (if c < limit then Suc c else c, w)"
    using assms by (auto simp: attempt_def capped_counter_def incrementWindowCounter_def Let_def split_def)
next
  fix s now
  assume "\<And>c w. capped_counter key limit s = Some (c, w) \<Longrightarrow> \<not> now - w < W"
  then show "snd (attempt key W limit now s) \<and> capped_counter key limit (fst (attempt key W limit now s)) = Some (1, now)"
    using assms by (auto simp: attempt_def capped_counter_def incrementWindowCounter_def Let_def split_def split: option.splits)
qed (use assms in simp_all)


lemma increment_first: "normalizeSourceKey v = Some key \<Longrightarrow> jm_get m key = None \<Longrightarrow>
   incrementWindowCounter now m v W = (1, jm_set key \<lparr>wc_count = 1, wc_windowStart = now\<rparr> m)"
  by (simp add: incrementWindowCounter_def)

lemma increment_next: "normalizeSourceKey v = Some key \<Longrightarrow> jm_get m key = Some \<lparr>wc_count = n, wc_windowStart = t\<rparr> \<Longrightarrow> now < t + W \<Longrightarrow>
   incrementWindowCounter now m v W = (Suc n, jm_set key \<lparr>wc_count = Suc n, wc_windowStart = t\<rparr> m)"
  by (simp add: incrementWindowCounter_def)

definition failures :: "fed_env \<Rightarrow> string \<Rightarrow> (msec \<times> did) list \<Rightarrow> federation \<Rightarrow> federation" where
  "failures env ip xs f = fold (\<lambda>(t, d). recordIncomingFederationFailure (env\<lparr>now_ms := t\<rparr>) d (Some ip)) xs f"

lemma record_failure_ip:
  assumes "normalizeSourceKey (Some ip) = Some ip"
    "incrementWindowCounter (now_ms env) (failuresByIp f) (Some ip) (failedHandshakeWindowMs (fconf env)) = (n, m)"
  shows "n < failedHandshakeThreshold (fconf env) \<Longrightarrow> failuresByIp (recordIncomingFederationFailure env d (Some ip) f) = m"
    and "failedHandshakeThreshold (fconf env) \<le> n \<Longrightarrow>
      jm_get (quarantinedSourceIps (recordIncomingFederationFailure env d (Some ip) f)) ip
        = Some (now_ms env + failedHandshakeQuarantineMs (fconf env))"
  using assms by (auto simp: recordIncomingFederationFailure_def quarantine_key_def Let_def split_def)

lemma failures_count:
  assumes ip: "normalizeSourceKey (Some ip) = Some ip" and none: "jm_get (failuresByIp f) ip = None"
    and xs: "xs \<noteq> []" "length xs < failedHandshakeThreshold (fconf env)"
    and win: "\<forall>(t, d) \<in> set xs. t < fst (hd xs) + failedHandshakeWindowMs (fconf env)"
  shows "jm_get (failuresByIp (failures env ip xs f)) ip = Some \<lparr>wc_count = length xs, wc_windowStart = fst (hd xs)\<rparr>"
  using xs win
proof (induction xs rule: rev_induct)
  case (snoc x xs)
  obtain t d where x: "x = (t, d)" by (cases x)
  show ?case
  proof (cases "xs = []")
    case True
    from record_failure_ip(1) [OF ip, of "env\<lparr>now_ms := t\<rparr>" f] increment_first [OF ip none] snoc.prems True x show ?thesis
      by (simp add: failures_def)
  next
    case False
    have "jm_get (failuresByIp (failures env ip xs f)) ip = Some \<lparr>wc_count = length xs, wc_windowStart = fst (hd xs)\<rparr>"
      using snoc False by simp
    from record_failure_ip(1) [OF ip, of "env\<lparr>now_ms := t\<rparr>" "failures env ip xs f"]
      increment_next [OF ip this, of t "failedHandshakeWindowMs (fconf env)"] snoc.prems False x show ?thesis
      by (simp add: failures_def)
  qed
qed simp

text \<open>When the handshakes of one address fail \<open>failedHandshakeThreshold\<close> times within the failure
  window, every further handshake from that address, under any relay DID, is refused as quarantined
  until \<open>failedHandshakeQuarantineMs\<close> after the last failure.\<close>

theorem handshake_quarantine:
  assumes "normalizeSourceKey (Some ip) = Some ip" "jm_get (failuresByIp f) ip = None"
    and "xs \<noteq> []" "length xs = failedHandshakeThreshold (fconf env)"
    and "\<forall>(t, d) \<in> set xs. t < fst (hd xs) + failedHandshakeWindowMs (fconf env)"
    and "0 \<le> now" "now < fst (last xs) + failedHandshakeQuarantineMs (fconf env)"
  shows "fst (guardIncomingFederationHandshake (env\<lparr>now_ms := now\<rparr>) (Some ip) d (failures env ip xs f)) = GuardQuarantined"
proof -
  obtain ys t d' where xs: "xs = ys @ [(t, d')]" using assms(3) by (metis rev_exhaust surj_pair)
  let ?g = "failures env ip ys f"
  have "\<exists>m. incrementWindowCounter t (failuresByIp ?g) (Some ip) (failedHandshakeWindowMs (fconf env)) = (length xs, m)"
  proof (cases "ys = []")
    case True
    with increment_first [OF assms(1,2)] show ?thesis by (simp add: failures_def xs)
  next
    case False
    have "jm_get (failuresByIp ?g) ip = Some \<lparr>wc_count = length ys, wc_windowStart = fst (hd ys)\<rparr>"
    proof (rule failures_count [OF assms(1,2) False])
      show "length ys < failedHandshakeThreshold (fconf env)" using assms(4) xs by simp
      show "\<forall>(t, d) \<in> set ys. t < fst (hd ys) + failedHandshakeWindowMs (fconf env)"
        using assms(5) False by (simp add: xs)
    qed
    moreover have "t < fst (hd ys) + failedHandshakeWindowMs (fconf env)" using assms(5) False by (simp add: xs)
    ultimately show ?thesis using increment_next [OF assms(1), where m = "failuresByIp ?g" and n = "length ys" and t = "fst (hd ys)" and now = t and W = "failedHandshakeWindowMs (fconf env)"]
      by (simp add: xs)
  qed
  then obtain m where "incrementWindowCounter t (failuresByIp ?g) (Some ip) (failedHandshakeWindowMs (fconf env)) = (length xs, m)" ..
  then have "jm_get (quarantinedSourceIps (recordIncomingFederationFailure (env\<lparr>now_ms := t\<rparr>) d' (Some ip) ?g)) ip
      = Some (t + failedHandshakeQuarantineMs (fconf env))"
    using record_failure_ip(2) [OF assms(1), of "env\<lparr>now_ms := t\<rparr>" ?g "length xs" m d'] assms(4) by simp
  moreover have "failures env ip xs f = recordIncomingFederationFailure (env\<lparr>now_ms := t\<rparr>) d' (Some ip) ?g"
    by (simp add: failures_def xs)
  ultimately show ?thesis
    using assms(1,6,7) by (simp add: guardIncomingFederationHandshake_def isQuarantined_def Let_def split_def xs)
qed


section \<open>Reconnection\<close>

text \<open>One round: the reconnection timer fires, a connection is tried, the attempt fails.\<close>

definition reconnect_round :: "registry \<Rightarrow> did \<Rightarrow> fed_env \<Rightarrow> federation \<Rightarrow> federation" where
  "reconnect_round reg d env f = reconnectFailed env d (fst (attemptReconnection env reg d f))"

definition offline_relay :: "fed_config \<Rightarrow> did \<Rightarrow> agent_card \<Rightarrow> nat \<Rightarrow> federation \<Rightarrow> bool" where
  "offline_relay cf d c n f \<longleftrightarrow> (\<exists>r. get_relay f d = Some r \<and> \<not> fr_connected r \<and> \<not> fr_connecting r
     \<and> fr_card r = Some c \<and> fr_reconnectAttempts r = n)"

lemma reconnect_round_step:
  assumes off: "offline_relay cf d c n f" and d: "d \<noteq> self_did env" "validateRelayEligibility d c None = Inr es" "fconf env = cf"
  shows "n < maxReconnectAttempts cf \<Longrightarrow> offline_relay cf d c (Suc n) (reconnect_round reg d env f)
      \<and> (\<exists>r. get_relay (reconnect_round reg d env f) d = Some r \<and> fr_reconnectTimer r = Some (now_ms env + backoff_delay cf n))"
    and "n \<ge> maxReconnectAttempts cf \<Longrightarrow> get_relay (reconnect_round reg d env f) d = None
      \<and> (\<forall>(a, route) \<in> set (remoteAgentRoutes (reconnect_round reg d env f)). ar_relayDid route \<noteq> d)"
proof -
  obtain r where r: "get_relay f d = Some r" "\<not> fr_connected r" "\<not> fr_connecting r" "fr_card r = Some c" "fr_reconnectAttempts r = n"
    using off by (auto simp: offline_relay_def)
  have adm: "\<not> isLocallyAdmitted (r\<lparr>fr_reconnectTimer := None\<rparr>)" using r(2) by (simp add: isLocallyAdmitted_def)
  note S = reconnect_round_def attemptReconnection_def connectToRelay_def reconnectFailed_def connectFailed_def Let_def
    scheduleReconnection_def d r adm
  show "offline_relay cf d c (Suc n) (reconnect_round reg d env f)
      \<and> (\<exists>r. get_relay (reconnect_round reg d env f) d = Some r \<and> fr_reconnectTimer r = Some (now_ms env + backoff_delay cf n))"
    if "n < maxReconnectAttempts cf"
    using that r by (simp add: S offline_relay_def)
  show "get_relay (reconnect_round reg d env f) d = None
      \<and> (\<forall>(a, route) \<in> set (remoteAgentRoutes (reconnect_round reg d env f)). ar_relayDid route \<noteq> d)"
    if "n \<ge> maxReconnectAttempts cf"
    using that r by (auto simp: S removeRemoteAgentRoutesForRelay_def)
qed


lemma reconnect_rounds:
  assumes "offline_relay cf d c 0 f" "validateRelayEligibility d c None = Inr es"
    "\<forall>env \<in> set envs. d \<noteq> self_did env \<and> fconf env = cf" "length envs \<le> maxReconnectAttempts cf"
  shows "offline_relay cf d c (length envs) (fold (reconnect_round reg d) envs f)"
  using assms(3,4)
proof (induction envs rule: rev_induct)
  case (snoc env envs)
  then have "offline_relay cf d c (length envs) (fold (reconnect_round reg d) envs f)" by simp
  from reconnect_round_step(1) [OF this, of env es reg] snoc.prems assms(2) show ?case by simp
qed (simp add: assms(1))

text \<open>While a relay stays unreachable, the n-th failed attempt schedules the next one after
  \<open>min (reconnectDelay * 2^(n-1)) maxReconnectDelay\<close>; after \<open>maxReconnectAttempts\<close> of them the next
  failure forgets the relay and every route through it.\<close>

theorem reconnect_backoff:
  fixes reg :: registry
  assumes "offline_relay cf d c 0 f" "validateRelayEligibility d c None = Inr es"
    "\<forall>env \<in> set (envs @ [env]). d \<noteq> self_did env \<and> fconf env = cf"
  defines "g \<equiv> fold (reconnect_round reg d) (envs @ [env]) f"
  shows "(length envs < maxReconnectAttempts cf \<longrightarrow> (\<exists>r. get_relay g d = Some r \<and> fr_reconnectAttempts r = Suc (length envs)
           \<and> fr_reconnectTimer r = Some (now_ms env + min (reconnectDelay cf * 2 ^ length envs) (maxReconnectDelay cf))))
       \<and> (length envs = maxReconnectAttempts cf \<longrightarrow> get_relay g d = None
           \<and> (\<forall>(a, route) \<in> set (remoteAgentRoutes g). ar_relayDid route \<noteq> d))"
proof (cases "length envs \<le> maxReconnectAttempts cf")
  case True
  have "offline_relay cf d c (length envs) (fold (reconnect_round reg d) envs f)"
    by (rule reconnect_rounds [OF assms(1,2)]) (use assms(3) True in auto)
  note S = reconnect_round_step [OF this, of env es reg]
  have "d \<noteq> self_did env" "fconf env = cf" using assms(3) by auto
  with S assms(2) show ?thesis
    unfolding g_def by (auto simp: offline_relay_def backoff_delay_def simp del: relay_simps)
qed simp

section \<open>Replaced connections\<close>

lemma begin_rejects_waiting:
  assumes "get_relay f d = Some r" "open_ws env r = Some w" "jm_get (pendingHealthChecks f) d = Some t"
  shows "CloseWs w 1008 \<in> set (fs_out (fed_event_step pk vh env reg (FedBeginAdmission d) f db))"
proof -
  obtain f1 rs where b: "beginAdmission env d f = (f1, [Send w (HealthCheck (now_ms env))], RejectAdmission d PeerDisconnected # rs)"
    "\<exists>r'. get_relay f1 d = Some r' \<and> open_ws env r' = Some w"
    using assms by (auto simp: beginAdmission_def runHealthProbe_def clearPendingProbe_def Let_def open_ws_def split: option.splits)
  obtain r' where r': "get_relay f1 d = Some r'" "open_ws env r' = Some w" using b(2) by blast
  have "CloseWs w 1008 \<in> set (fst (snd (markAdmissionFailure env d PeerDisconnected f1)))"
    using r' by (simp add: markAdmissionFailure_def Let_def split_def)
  then have "CloseWs w 1008 \<in> set (fst (snd (settle env (RejectAdmission d PeerDisconnected # rs) f1)))"
    by (simp add: split_def Let_def)
  with b(1) show ?thesis by (simp add: fed_event_step_def)
qed

text \<open>When a relay opens a new connection while the admission of its old one still waits for the
  health probe, the admission of the new connection rejects the old probe, whose failure closes the
  new connection with code 1008.\<close>

theorem readmission_closes_replacement:
  assumes "fst (acceptIncomingRelay env0 vh w m ip f) = Inr d" "jm_get (pendingHealthChecks f) d = Some t"
    and "readyState env w = 1"
  defines "f1 \<equiv> fst (snd (acceptIncomingRelay env0 vh w m ip f))"
  shows "CloseWs w 1008 \<in> set (fs_out (fed_event_step pk vh env reg (FedBeginAdmission d) f1 db))"
proof -
  obtain g where g: "snd (guardIncomingFederationHandshake env0 ip (fh_relayDid m) f) = g" by simp
  have d: "fh_relayDid m = d" and reg: "\<exists>es. f1 = fst (registerFederatedRelay env0 d (fh_relayCard m) es w Authenticated (Some (True, ip)) g)"
    using assms(1) unfolding f1_def by (auto simp: acceptIncomingRelay_def Let_def split_def g split: if_splits sum.splits)
  have "pendingHealthChecks g = pendingHealthChecks f"
    unfolding g [symmetric] by (simp add: guardIncomingFederationHandshake_def Let_def split_def)
  then have "jm_get (pendingHealthChecks f1) d = Some t"
    using reg assms(2) by (auto simp: registerFederatedRelay_def Let_def)
  moreover obtain r where "get_relay f1 d = Some r" "open_ws env r = Some w"
    using reg assms(3) by (auto simp: registerFederatedRelay_def Let_def open_ws_def ws_open_def)
  ultimately show ?thesis by (intro begin_rejects_waiting)
qed

section \<open>Witnesses\<close>

definition ex_relay_card :: "did \<Rightarrow> agent_card" where
  "ex_relay_card d = \<lparr>card_did = d, card_name = [], card_description = [], card_version = ''1'',
     card_capabilities = map (\<lambda>c. \<lparr>cap_id = c, cap_name = [], cap_description = []\<rparr>) required_relay_capabilities,
     card_endpoints = [''wss://r''], card_metadata = None, card_timestamp = 0, card_signature = ''''\<rparr>"

definition ex_env :: "msec \<Rightarrow> fed_env" where
  "ex_env t = \<lparr>self_did = ''did:relay:self'', self_card = ex_relay_card ''did:relay:self'', fconf = default_fed_config,
     readyState = (\<lambda>w. 1), now_ms = t, uptime_ms = 0, verify_card = (\<lambda>d c. True)\<rparr>"

definition ex_hello :: "did \<Rightarrow> federation_hello" where
  "ex_hello d = \<lparr>fh_relayDid = d, fh_relayCard = ex_relay_card d, fh_endpoints = [], fh_timestamp = 0, fh_signature = []\<rparr>"

definition ex_peer :: did where "ex_peer = ''did:relay:peer''"

definition ex_run :: "(fed_env \<times> registry \<times> fed_event) list" where
  "ex_run =
    [(ex_env 1000, empty_registry, FedHello 7 (ex_hello ex_peer) (Some ''10.0.0.1'')),
     (ex_env 1001, empty_registry, FedBeginAdmission ex_peer),
     (ex_env 1002, empty_registry, FedMessage 7 ex_peer (HealthResponse 5 0 0 1002)),
     (ex_env 1003, empty_registry, FedMessage 7 ex_peer (Card ex_peer (Some (ex_relay_card ex_peer)))),
     (ex_env 1004, empty_registry, FedMessage 7 ex_peer (FederationAdmitted ex_peer 1004)),
     (ex_env 1005, empty_registry, FedMessage 7 ex_peer (AgentJoined ''did:agent:b'' (ex_relay_card ''did:agent:b'') ''public'' 1005))]"

definition ex_fed :: federation where
  "ex_fed = fst (fed_run rbt_level (\<lambda>_. True) ex_run (empty_federation, RBT.empty))"

definition ex_relay :: fed_relay where
  "ex_relay = \<lparr>fr_did = ex_peer, fr_endpoints = [''wss://r''], fr_card = Some (ex_relay_card ex_peer), fr_ws = Some 9,
     fr_inbound = True, fr_sourceIp = None, fr_lastSeen = 0, fr_connected = True, fr_admissionState = Admitted,
     fr_admittedByPeer = True, fr_connecting = False, fr_reconnectAttempts = 0, fr_reconnectTimer = None,
     fr_probationTimer = None, fr_agentCount = 0, fr_uptime = 0, fr_pendingPeerDids = [], fr_admissionError = None,
     fr_eligibilityCheckedAt = None, fr_lastHealthCheckAt = None, fr_lastHealthResponseAt = None,
     fr_lastProbeStartedAt = None, fr_lastProbeSucceededAt = None, fr_violationCount = 0\<rparr>"

definition ex_active :: federation where
  "ex_active = empty_federation\<lparr>federatedRelays := [(ex_peer, ex_relay)]\<rparr>"

definition ex_request :: route_request where
  "ex_request = \<lparr>rr_targetDid = ''did:agent:x'', rr_envelope = [], rr_fromRelay = ''did:relay:other'', rr_hopCount = 1, rr_messageId = ''m''\<rparr>"

lemma ex_final:
  "(case jm_get (federatedRelays ex_fed) ex_peer of None \<Rightarrow> False | Some r \<Rightarrow> fr_admissionState r = Admitted)
   \<and> map (\<lambda>(a, route). (a, ar_relayDid route)) (remoteAgentRoutes ex_fed) = [(''did:agent:b'', ex_peer)]"
  by code_simp

theorem federation_admission_witness:
  "\<exists>pre env reg w c post. ex_run = pre @ (env, reg, FedMessage w ex_peer (Card ex_peer (Some c))) # post
    \<and> jm_get (pendingCardFetches (fst (fed_run rbt_level (\<lambda>_. True) pre (empty_federation, RBT.empty)))) ex_peer \<noteq> None
    \<and> card_did c = ex_peer \<and> verify_card env ex_peer c
    \<and> set required_relay_capabilities \<subseteq> set (map cap_id (card_capabilities c))
    \<and> (\<exists>ep \<in> set (card_endpoints c). isWebSocketEndpoint (js_trim ep))"
proof -
  obtain r where "get_relay ex_fed ex_peer = Some r" "fr_admissionState r = Admitted"
    using ex_final by (auto split: option.splits)
  then show ?thesis unfolding ex_fed_def by (rule federation_admission)
qed

theorem federation_route_origin_witness:
  "\<exists>(route :: agent_route) pre env reg w t r post. ar_relayDid route = ex_peer
    \<and> ex_run = pre @ (env, reg, FedMessage w ex_peer (AgentJoined ''did:agent:b'' (ar_card route) (ar_realm route) t)) # post
    \<and> get_relay (fst (fed_run rbt_level (\<lambda>_. True) pre (empty_federation, RBT.empty))) ex_peer = Some r
    \<and> fr_connected r \<and> fr_admissionState r = Admitted \<and> fr_admittedByPeer r"
proof -
  obtain route where r: "(''did:agent:b'', route) \<in> set (remoteAgentRoutes ex_fed)" "ar_relayDid route = ex_peer"
    using ex_final by (auto simp: map_eq_Cons_conv)
  show ?thesis
    by (rule exI [of _ route]) (use federation_route_origin [OF r(1) [unfolded ex_fed_def]] in \<open>simp only: r(2) simp_thms\<close>)
qed

theorem federation_data_plane_witness:
  "allowed (ex_env 5) empty_registry ex_active (FedMessage 9 ex_peer (RouteRequest ex_request))
     (RouteResponse ''m'' RouteNotFound None)"
proof (rule federation_data_plane [where w = 9])
  show "Send 9 (RouteResponse ''m'' RouteNotFound None) \<in> set (fs_out (fed_event_step rbt_level (\<lambda>_. True) (ex_env 5) empty_registry
      (FedMessage 9 ex_peer (RouteRequest ex_request)) ex_active RBT.empty))"
    by (simp add: fed_event_step_def handleFederationMessage_def ex_active_def ex_relay_def isDataPlaneActive_def Let_def
        handleRouteRequest_def ex_request_def ex_env_def default_fed_config_def forward_target_def
        List.map_filter_simps reg_get_def empty_registry_def empty_federation_def jm_modify_def)
qed

theorem route_hop_limit_witness:
  "length [\<lparr>hp_env = ex_env 5, hp_reg = empty_registry, hp_fed = ex_active, hp_ws = 4, hp_sender = ''did:relay:other'', hp_out = 9\<rparr>] \<le> nat (3 - 1)"
proof -
  have "forward_chain ex_request [\<lparr>hp_env = ex_env 5, hp_reg = empty_registry, hp_fed = ex_active, hp_ws = 4,
      hp_sender = ''did:relay:other'', hp_out = 9\<rparr>]"
    by (simp add: handleRouteRequest_def ex_request_def ex_env_def default_fed_config_def forward_target_def ex_active_def ex_relay_def
        isDataPlaneActive_def List.map_filter_simps reg_get_def empty_registry_def empty_federation_def open_ws_def ws_open_def ex_peer_def)
  from route_hop_limit [OF this, of 3] show ?thesis by (simp add: ex_env_def default_fed_config_def ex_request_def)
qed

theorem handshake_quarantine_witness:
  "fst (guardIncomingFederationHandshake ((ex_env 0)\<lparr>now_ms := 5\<rparr>) (Some ''10.0.0.1'') ''did:relay:z''
     (failures (ex_env 0) ''10.0.0.1'' [(1, ex_peer), (2, ex_peer), (3, ''did:relay:y'')] empty_federation)) = GuardQuarantined"
proof (rule handshake_quarantine)
  show "normalizeSourceKey (Some ''10.0.0.1'') = Some ''10.0.0.1''" by code_simp
qed (simp_all add: empty_federation_def ex_env_def default_fed_config_def)

theorem reconnect_backoff_witness:
  "let f = ex_active\<lparr>federatedRelays := [(ex_peer, ex_relay\<lparr>fr_connected := False\<rparr>)]\<rparr>;
       g = fold (reconnect_round empty_registry ex_peer) [ex_env 100] f
   in (\<exists>r. get_relay g ex_peer = Some r \<and> fr_reconnectTimer r = Some 5100)"
proof -
  let ?f = "ex_active\<lparr>federatedRelays := [(ex_peer, ex_relay\<lparr>fr_connected := False\<rparr>)]\<rparr>"
  have off: "offline_relay default_fed_config ex_peer (ex_relay_card ex_peer) 0 ?f"
    by (simp add: offline_relay_def ex_relay_def)
  have "(case validateRelayEligibility ex_peer (ex_relay_card ex_peer) None of Inr es \<Rightarrow> es = [''wss://r''] | Inl _ \<Rightarrow> False)"
    by code_simp
  then have el: "validateRelayEligibility ex_peer (ex_relay_card ex_peer) None = Inr [''wss://r'']" by (simp split: sum.splits)
  from reconnect_backoff [OF off el, of "[]" "ex_env 100" empty_registry] show ?thesis
    by (auto simp: ex_env_def ex_peer_def default_fed_config_def Let_def simp del: relay_simps)
qed

theorem readmission_closes_replacement_witness:
  "CloseWs 8 1008 \<in> set (fs_out (fed_event_step rbt_level (\<lambda>_. True) (ex_env 5) empty_registry (FedBeginAdmission ex_peer)
     (fst (snd (acceptIncomingRelay (ex_env 4) (\<lambda>_. True) 8 (ex_hello ex_peer) None
        (ex_active\<lparr>pendingHealthChecks := [(ex_peer, 100)]\<rparr>)))) RBT.empty))"
proof (rule readmission_closes_replacement)
  have "(case fst (acceptIncomingRelay (ex_env 4) (\<lambda>_. True) 8 (ex_hello ex_peer) None
        (ex_active\<lparr>pendingHealthChecks := [(ex_peer, 100)]\<rparr>)) of Inr d \<Rightarrow> d = ex_peer | Inl _ \<Rightarrow> False)" by code_simp
  then show "fst (acceptIncomingRelay (ex_env 4) (\<lambda>_. True) 8 (ex_hello ex_peer) None
        (ex_active\<lparr>pendingHealthChecks := [(ex_peer, 100)]\<rparr>)) = Inr ex_peer" by (simp split: sum.splits)
qed (simp_all add: ex_env_def)

end
