(* ===== verification/Relay_Token.thy ===== *)
theory Relay_Token
  imports Js_Text
begin

text \<open>
  Invite tokens, \<open>js/relay/src/token.ts\<close>, with the revocation list and the token store of the
  operator, \<open>js/relay/src/revocation.ts\<close> and \<open>token-store.ts\<close>. A token is three base64url
  parts joined by dots: header, payload, signature. \<open>JSON.stringify\<close> and \<open>JSON.parse\<close> of a
  header and of a payload are parameters, and so are the Ed25519 operations of the platform; the DER
  wrapping of the keys is written out. Reading and writing the list files is I/O: \<open>load\<close> gets the
  entries of the file.
\<close>

section \<open>DER\<close>

definition derLength :: "nat \<Rightarrow> bytes" where
  "derLength n = (if n < 0x80 then [of_nat n] else if n < 0x100 then [0x81, of_nat n]
     else [0x82, of_nat ((n div 0x100) mod 0x100), of_nat (n mod 0x100)])"

definition derSequence :: "bytes \<Rightarrow> bytes" where
  "derSequence content = [0x30] @ derLength (length content) @ content"

definition derOctetString :: "bytes \<Rightarrow> bytes" where
  "derOctetString content = [0x04] @ derLength (length content) @ content"

definition derBitString :: "bytes \<Rightarrow> bytes" where
  "derBitString content = (let payload = 0x00 # content in [0x03] @ derLength (length payload) @ payload)"

definition ed25519_oid :: bytes where
  "ed25519_oid = [0x06, 0x03, 0x2b, 0x65, 0x70]"

definition buildEd25519Pkcs8 :: "bytes \<Rightarrow> bytes" where
  "buildEd25519Pkcs8 seed =
     derSequence ([0x02, 0x01, 0x00] @ derSequence ed25519_oid @ derOctetString (derOctetString seed))"

definition buildEd25519Spki :: "bytes \<Rightarrow> bytes" where
  "buildEd25519Spki pubKey = derSequence (derSequence ed25519_oid @ derBitString pubKey)"

section \<open>Tokens\<close>

record token_payload =
  tp_iss :: did
  tp_sub :: did
  tp_realm :: string
  tp_exp :: int
  tp_iat :: int
  tp_jti :: string
  tp_note :: "string option"
  tp_maxAgents :: "int option"

record token_header =
  th_alg :: string
  th_typ :: string

datatype token_error = InvalidFormat string | InvalidSignature | TokenExpired int

text \<open>The platform: JSON of headers and payloads, and Ed25519 with the DER form of the key.\<close>

record token_env =
  show_header :: "token_header \<Rightarrow> string"
  parse_header :: "string \<Rightarrow> token_header option"
  show_payload :: "token_payload \<Rightarrow> string"
  parse_payload :: "string \<Rightarrow> token_payload option"
  ed_sign :: "bytes \<Rightarrow> string \<Rightarrow> string"
  ed_verify :: "bytes \<Rightarrow> string \<Rightarrow> string \<Rightarrow> bool"

definition token_head :: token_header where
  "token_head = \<lparr>th_alg = ''EdDSA'', th_typ = ''HW1-TOKEN''\<rparr>"

definition token_header_b64 :: "token_env \<Rightarrow> string" where
  "token_header_b64 te = base64url_encode (show_header te token_head)"

definition createInviteToken :: "token_env \<Rightarrow> token_payload \<Rightarrow> bytes \<Rightarrow> string" where
  "createInviteToken te p privateKey =
     (let signingInput = token_header_b64 te @ ''.'' @ base64url_encode (show_payload te p);
          sig = ed_sign te (buildEd25519Pkcs8 (take 32 privateKey)) signingInput
      in signingInput @ ''.'' @ base64url_encode sig)"

text \<open>\<open>now\<close> is \<open>Date.now()\<close>; the expiry is in seconds.\<close>

definition verifyInviteToken :: "token_env \<Rightarrow> msec \<Rightarrow> string \<Rightarrow> bytes \<Rightarrow> token_error + token_payload" where
  "verifyInviteToken te now token publicKey = (case js_split (CHR ''.'') token of
     [headerB64, payloadB64, sigB64] \<Rightarrow>
       (case parse_header te (base64_decode headerB64) of
          None \<Rightarrow> Inl (InvalidFormat ''Invalid header'')
        | Some h \<Rightarrow>
            if th_alg h \<noteq> ''EdDSA'' \<or> th_typ h \<noteq> ''HW1-TOKEN'' then Inl (InvalidFormat ''Unsupported token type'')
            else if \<not> ed_verify te (buildEd25519Spki publicKey) (headerB64 @ ''.'' @ payloadB64) (base64_decode sigB64)
              then Inl InvalidSignature
            else (case parse_payload te (base64_decode payloadB64) of
                None \<Rightarrow> Inl (InvalidFormat ''Invalid payload'')
              | Some p \<Rightarrow> if tp_exp p < now div 1000 then Inl (TokenExpired (tp_exp p)) else Inr p))
   | _ \<Rightarrow> Inl (InvalidFormat ''Token must have 3 parts''))"

section \<open>Revocation\<close>

record revocation_entry =
  rv_jti :: string
  rv_revokedAt :: int
  rv_reason :: "string option"
  rv_originalExp :: int

type_synonym revocation_list = "(string, revocation_entry) jsmap"

definition revocation_gc :: "msec \<Rightarrow> revocation_list \<Rightarrow> revocation_list" where
  "revocation_gc now entries = filter (\<lambda>(_, e). \<not> rv_originalExp e < now div 1000) entries"

definition map_by :: "('v \<Rightarrow> 'k) \<Rightarrow> 'v list \<Rightarrow> ('k, 'v) jsmap" where
  "map_by key xs = fold (\<lambda>v. jm_set (key v) v) xs []"

definition revocation_load :: "msec \<Rightarrow> revocation_entry list option \<Rightarrow> revocation_list" where
  "revocation_load now file = (case file of None \<Rightarrow> [] | Some es \<Rightarrow> revocation_gc now (map_by rv_jti es))"

definition revocation_save :: "msec \<Rightarrow> revocation_list \<Rightarrow> revocation_list \<times> revocation_entry list" where
  "revocation_save now entries = (let es = revocation_gc now entries in (es, jm_vals es))"

definition revoke :: "msec \<Rightarrow> string \<Rightarrow> string option \<Rightarrow> int \<Rightarrow> revocation_list \<Rightarrow> revocation_list" where
  "revoke now jti reason originalExp entries =
     jm_set jti \<lparr>rv_jti = jti, rv_revokedAt = now div 1000, rv_reason = reason, rv_originalExp = originalExp\<rparr> entries"

definition isRevoked :: "string \<Rightarrow> revocation_list \<Rightarrow> bool" where
  "isRevoked jti entries \<longleftrightarrow> jm_has entries jti"

section \<open>The token store\<close>

record token_metadata =
  tm_jti :: string
  tm_realm :: string
  tm_sub :: did
  tm_exp :: int
  tm_iat :: int
  tm_permissions :: "string list option"
  tm_maxAgents :: "int option"
  tm_note :: "string option"
  tm_createdBy :: did
  tm_token :: string

type_synonym token_store = "(string, token_metadata) jsmap"

definition tokens_load :: "token_metadata list option \<Rightarrow> token_store" where
  "tokens_load file = (case file of None \<Rightarrow> [] | Some ts \<Rightarrow> map_by tm_jti ts)"

text \<open>\<open>save\<close> and \<open>delete\<close> write the file; the second component is what they write.\<close>

definition token_save :: "token_metadata \<Rightarrow> token_store \<Rightarrow> token_store \<times> token_metadata list" where
  "token_save m ts = (let ts' = jm_set (tm_jti m) m ts in (ts', jm_vals ts'))"

definition token_list :: "string option \<Rightarrow> token_store \<Rightarrow> token_metadata list" where
  "token_list realm ts = (case realm of
     Some r \<Rightarrow> if r = '''' then jm_vals ts else filter (\<lambda>t. tm_realm t = r) (jm_vals ts)
   | None \<Rightarrow> jm_vals ts)"

definition token_get :: "string \<Rightarrow> token_store \<Rightarrow> token_metadata option" where
  "token_get jti ts = jm_get ts jti"

definition token_delete :: "string \<Rightarrow> token_store \<Rightarrow> token_store \<times> token_metadata list" where
  "token_delete jti ts = (let ts' = jm_del jti ts in (ts', jm_vals ts'))"

end
