(* ===== verification/Relay_Agent.thy ===== *)
theory Relay_Agent
  imports Relay_Federation Relay_Endorsements Relay_Subscriptions Relay_Token
begin

text \<open>
  The relay agent: the state that \<open>js/relay/src/relay-agent.ts\<close> holds for all connections
  (\<open>RelayAgentRuntime\<close>) and the handlers that the messages of an authenticated agent run
  (\<open>relay-agent-client-handlers.ts\<close>, \<open>relay-agent-delivery.ts\<close>,
  \<open>relay-agent-discovery.ts\<close>, \<open>relay-agent-shared.ts\<close>). A handler is one atomic step; where
  it awaits the queue or the pre-key store the code may run other handlers in between. A handler
  that throws is \<open>None\<close>: the connection code then closes the socket. A send on an open socket
  succeeds.
\<close>

section \<open>State\<close>

record waiting_fetch =
  wf_ws :: ws
  wf_did :: did
  wf_device :: string
  wf_requestId :: "string option"

datatype conn_mode = Unauthenticated | AgentConn did | FederationConn did

record ('q, 'p) relay =
  rt_registry :: registry
  rt_lastPing :: "(did, msec) jsmap"
  rt_queue :: 'q
  rt_prekeys :: 'p
  rt_subs :: sub_manager
  rt_endorse :: endorse_state
  rt_trustQueries :: window_counters
  rt_federation :: "federation option"
  rt_revocations :: revocation_list
  rt_wsToDid :: "(ws, did) jsmap"
  rt_conns :: "(ws, conn_mode) jsmap"
  rt_waiting :: "(string, waiting_fetch) jsmap"

record relay_config =
  operatorPublicKey :: "bytes option"
  privateRelay :: bool

text \<open>The platform at one step: the stores' operations, the clock and the sockets (in
  \<open>re_fed\<close>), the signature checks, and the random strings the step draws.\<close>

record ('q, 'p) relay_env =
  re_fed :: fed_env
  re_config :: relay_config
  re_queue :: "('q, stored_msg) level_ops"
  re_queueConfig :: queue_config
  re_prekeys :: "('p, stored_bundle) level_ops"
  re_lc :: "jstr \<Rightarrow> jstr"
  re_cmp :: "did \<Rightarrow> did \<Rightarrow> rat"
  re_rnd :: string
  re_validDid :: "did \<Rightarrow> bool"
  re_verifyHello :: "hello_msg \<Rightarrow> bool"
  re_verifyFedHello :: "federation_hello \<Rightarrow> bool"
  re_token :: token_env
  re_endorseId :: "endorsement \<Rightarrow> string"
  re_verifyEndorsement :: "endorsement \<Rightarrow> bool option"
  re_bootstrap :: "did \<Rightarrow> endorsement option"
  re_revocationFile :: "revocation_entry list option"

abbreviation env_now :: "('q, 'p, 'x) relay_env_scheme \<Rightarrow> msec" where "env_now env \<equiv> now_ms (re_fed env)"
abbreviation env_self :: "('q, 'p, 'x) relay_env_scheme \<Rightarrow> did" where "env_self env \<equiv> self_did (re_fed env)"
abbreviation env_ready :: "('q, 'p, 'x) relay_env_scheme \<Rightarrow> ws \<Rightarrow> nat" where "env_ready env \<equiv> readyState (re_fed env)"

type_synonym ('q, 'p) handler = "('q, 'p) relay \<Rightarrow> (('q, 'p) relay \<times> effect list) option"

definition getRequesterRealm :: "registry \<Rightarrow> did \<Rightarrow> string" where
  "getRequesterRealm reg d = (case reg_get reg d of Some a \<Rightarrow> ra_realm a | None \<Rightarrow> ''public'')"

section \<open>Delivery\<close>

definition sendDeliveryReport :: "('q, 'p) relay_env \<Rightarrow> registered_agent option \<Rightarrow> string \<Rightarrow> delivery_status \<Rightarrow> effect list" where
  "sendDeliveryReport env sender mid st = (case sender of
     None \<Rightarrow> []
   | Some a \<Rightarrow> if \<not> ra_online a \<or> \<not> ws_open (env_ready env) (ra_ws a) then []
             else [Send (ra_ws a) (DeliveryReport mid st (env_now env))])"

text \<open>The envelope of a SEND: bytes as they are, and the JSON forms decoded.\<close>

definition normalizeEnvelopeBytes :: "stored_envelope \<Rightarrow> queue_error + bytes" where
  "normalizeEnvelopeBytes e = deserializeQueuedEnvelope e"

definition handleSend :: "('q, 'p) relay_env \<Rightarrow> did \<Rightarrow> did \<Rightarrow> stored_envelope \<Rightarrow> ('q, 'p) handler" where
  "handleSend env frm toD envlp rt =
     (let reg = rt_registry rt; sender = reg_get reg frm; target = reg_get reg toD
      in if (case (sender, target) of (Some s, Some t) \<Rightarrow> ra_realm s \<noteq> ra_realm t | _ \<Rightarrow> False)
         then Some (rt, sendDeliveryReport env sender (re_rnd env) UnknownRecipient)
         else (case normalizeEnvelopeBytes envlp of
           Inl _ \<Rightarrow> None
         | Inr bs \<Rightarrow>
             (case enqueue (re_queue env) (re_queueConfig env) (env_now env) (re_rnd env) toD frm (u8_json bs) (rt_queue rt) of
                Inl _ \<Rightarrow> Some (rt, sendDeliveryReport env sender (re_rnd env) QueueFullReport)
              | Inr (mid, q1) \<Rightarrow>
                  (let rt1 = rt\<lparr>rt_queue := q1\<rparr>; out1 = sendDeliveryReport env sender mid Accepted
                   in case target of
                     None \<Rightarrow> Some (rt1, out1)
                   | Some t \<Rightarrow>
                       if \<not> ra_online t then Some (rt1, out1)
                       else if \<not> ws_open (env_ready env) (ra_ws t)
                         then Some (rt1\<lparr>rt_registry := reg_setOffline toD (rt_registry rt1)\<rparr>, out1)
                       else Some (rt1\<lparr>rt_queue := markInflight (re_queue env) (env_now env) mid toD (rt_queue rt1)\<rparr>,
                                  out1 @ [Send (ra_ws t) (Deliver mid frm bs)])))))"

definition routeMessage :: "('q, 'p) relay_env \<Rightarrow> did \<Rightarrow> did \<Rightarrow> stored_envelope \<Rightarrow> ('q, 'p) handler" where
  "routeMessage env frm toD envlp rt =
     (let reg = rt_registry rt
      in if toD = env_self env
         then Some (rt, sendDeliveryReport env (reg_get reg frm) (re_rnd env) UnknownRecipient)
         else if reg_isOnline reg toD then handleSend env frm toD envlp rt
         else (case rt_federation rt of
             None \<Rightarrow> handleSend env frm toD envlp rt
           | Some f \<Rightarrow> (case normalizeEnvelopeBytes envlp of
               Inl _ \<Rightarrow> None
             | Inr bs \<Rightarrow>
                 (let (routed, f1, es) = routeToFederation (re_fed env) (re_rnd env) toD bs f; rt1 = rt\<lparr>rt_federation := Some f1\<rparr>
                  in if routed then Some (rt1, es @ sendDeliveryReport env (reg_get reg frm) (re_rnd env) Delivered)
                     else handleSend env frm toD envlp rt1))))"

text \<open>One message of the retry round. The branch that expires a message after three attempts is
  the code's, although \<open>getMessagesForRetry\<close> never returns such a message.\<close>

definition retry_one :: "('q, 'p) relay_env \<Rightarrow> queued_msg \<Rightarrow> ('q, 'p) relay \<times> effect list \<Rightarrow> ('q, 'p) relay \<times> effect list" where
  "retry_one env m s =
     (let (rt, out) = s;
          reachable = (case reg_get (rt_registry rt) (toDid m) of
            Some a \<Rightarrow> if ra_online a \<and> ws_open (env_ready env) (ra_ws a) then Some (ra_ws a) else None
          | None \<Rightarrow> None)
      in case reachable of
           Some w \<Rightarrow> (rt\<lparr>rt_queue := markInflight (re_queue env) (env_now env) (messageId m) (toDid m) (rt_queue rt)\<rparr>,
                      out @ [Send w (Deliver (messageId m) (fromDid m) (envelope m))])
         | None \<Rightarrow>
             if deliveryAttempts m \<ge> 3
             then (rt\<lparr>rt_queue := markExpired (re_queue env) (messageId m) (toDid m) (rt_queue rt)\<rparr>,
                   out @ (case reg_get (rt_registry rt) (fromDid m) of
                      Some sd \<Rightarrow> if ra_online sd then [Send (ra_ws sd) (DeliveryReport (messageId m) ExpiredReport (env_now env))] else []
                    | None \<Rightarrow> []))
             else (rt, out))"

definition retryUnackedMessages :: "('q, 'p) relay_env \<Rightarrow> ('q, 'p) relay \<Rightarrow> ('q, 'p) relay \<times> effect list" where
  "retryUnackedMessages env rt =
     fold (retry_one env) (getMessagesForRetry (re_queue env) (re_queueConfig env) (env_now env) (rt_queue rt)) (rt, [])"

definition handleTimeout :: "('q, 'p) relay_env \<Rightarrow> did \<Rightarrow> ('q, 'p) relay \<Rightarrow> ('q, 'p) relay \<times> effect list" where
  "handleTimeout env d rt = (case reg_get (rt_registry rt) d of
     None \<Rightarrow> (rt, [])
   | Some a \<Rightarrow> (rt\<lparr>rt_registry := reg_unregister (re_lc env) d (rt_registry rt)\<rparr>, [CloseWs (ra_ws a) 1000]))"

definition handleAck :: "('q, 'p) relay_env \<Rightarrow> did \<Rightarrow> string \<Rightarrow> ('q, 'p) handler" where
  "handleAck env d mid rt =
     (let (acknowledged, q1) = markAcked (re_queue env) mid d (rt_queue rt)
      in Some (rt\<lparr>rt_queue := q1\<rparr>,
           case acknowledged of
             None \<Rightarrow> []
           | Some m \<Rightarrow> sendDeliveryReport env (reg_get (rt_registry rt) (fromDid m)) (messageId m) Delivered))"

section \<open>Liveness\<close>

definition heartbeat_timeout :: msec where "heartbeat_timeout = 90000"

definition recordPing :: "msec \<Rightarrow> did \<Rightarrow> ('q, 'p) relay \<Rightarrow> ('q, 'p) relay" where
  "recordPing now d rt = rt\<lparr>rt_lastPing := jm_set d now (rt_lastPing rt),
     rt_registry := reg_updateLastSeen now d (rt_registry rt)\<rparr>"

definition heartbeatCheck :: "('q, 'p) relay_env \<Rightarrow> ('q, 'p) relay \<Rightarrow> ('q, 'p) relay \<times> effect list" where
  "heartbeatCheck env rt =
     fold (\<lambda>(d, _) (rt, out).
             (let (rt', es) = handleTimeout env d (rt\<lparr>rt_lastPing := jm_del d (rt_lastPing rt)\<rparr>) in (rt', out @ es)))
       (filter (\<lambda>(_, ts). env_now env - ts > heartbeat_timeout) (rt_lastPing rt)) (rt, [])"

definition handlePing :: "('q, 'p) relay_env \<Rightarrow> ws \<Rightarrow> did \<Rightarrow> ('q, 'p) handler" where
  "handlePing env w d rt =
     (let rt1 = recordPing (env_now env) d rt
      in Some (rt1, [Send w (Pong (getOnlineCountByRealm (rt_registry rt1) (getRequesterRealm (rt_registry rt1) d)))]))"

section \<open>Discovery and cards\<close>

definition listDiscoveryDirectoryEntries :: "('q, 'p) relay_env \<Rightarrow> ('q, 'p) relay \<Rightarrow> directory_entry list" where
  "listDiscoveryDirectoryEntries env rt =
     map (\<lambda>e. e\<lparr>de_homeRelay := (case de_homeRelay e of Some h \<Rightarrow> Some h | None \<Rightarrow> Some (env_self env))\<rparr>)
       (listDirectoryEntries (rt_registry rt))
     @ (case rt_federation rt of Some f \<Rightarrow> listRemoteDirectoryEntries f | None \<Rightarrow> [])"

definition buildTrustSummaries :: "msec \<Rightarrow> rat option \<Rightarrow> directory_entry list \<Rightarrow> endorsement_index \<Rightarrow> (did, rat) jsmap option" where
  "buildTrustSummaries now minTrust entries x = (case minTrust of
     None \<Rightarrow> None
   | Some m \<Rightarrow>
       if m \<le> 0 then None
       else Some (fold (\<lambda>e ts. case getTrustSummary now (de_did e) x of
                           Some s \<Rightarrow> jm_set (de_did e) (ts_averageScore s) ts | None \<Rightarrow> ts) entries []))"

definition buildDiscoveryResponse :: "('q, 'p) relay_env \<Rightarrow> did \<Rightarrow> discover_msg \<Rightarrow> ('q, 'p) relay \<Rightarrow> search_error + relay_msg" where
  "buildDiscoveryResponse env requester msg rt =
     (let realm = getRequesterRealm (rt_registry rt) requester;
          query = (case di_query msg of Some q \<Rightarrow> q | None \<Rightarrow> []);
          capability = (case di_capability msg of Some c \<Rightarrow> c | None \<Rightarrow> []);
          entries = listDiscoveryDirectoryEntries env rt;
          index = es_index (rt_endorse rt);
          trust = buildTrustSummaries (env_now env) (di_minTrust msg) entries index;
          home = env_self env;
          connected = (case rt_federation rt of Some f \<Rightarrow> st_connectedRelays (getFederationStatus f) | None \<Rightarrow> []);
          relayCount = (case rt_federation rt of Some f \<Rightarrow> st_relayCount (getFederationStatus f) | None \<Rightarrow> 0)
      in case searchDirectoryEntries (re_lc env) (re_cmp env) entries query (di_minTrust msg) (di_limit msg) (di_cursor msg) realm trust
                (Some capability) of
           Inl e \<Rightarrow> Inl e
         | Inr (found, cursor, tot) \<Rightarrow>
             (let discovered = map (\<lambda>a. a\<lparr>da_trust := getTrustSummary (env_now env) (da_did a) index,
                                 da_homeRelay := (case da_homeRelay a of Some h \<Rightarrow> Some h | None \<Rightarrow> Some home)\<rparr>) found
              in Inr (Discovered discovered cursor tot (js_unique (home # connected)) (relayCount + 1)
                   (list_ex (\<lambda>a. case da_homeRelay a of Some h \<Rightarrow> h \<noteq> '''' \<and> h \<noteq> home | None \<Rightarrow> False) discovered))))"

definition resolveVisibleAgentCard :: "('q, 'p) relay_env \<Rightarrow> did \<Rightarrow> did \<Rightarrow> ('q, 'p) relay \<Rightarrow> agent_card option" where
  "resolveVisibleAgentCard env requester target rt =
     (if target = env_self env then Some (self_card (re_fed env))
      else
        (let requesterRealm = getRequesterRealm (rt_registry rt) requester
         in case reg_get (rt_registry rt) target of
              Some a \<Rightarrow> if ra_realm a = requesterRealm then Some (ra_card a) else None
            | None \<Rightarrow> (case rt_federation rt of Some f \<Rightarrow> getRemoteAgentCard f target requesterRealm | None \<Rightarrow> None)))"

definition handleDiscover :: "('q, 'p) relay_env \<Rightarrow> ws \<Rightarrow> did \<Rightarrow> discover_msg \<Rightarrow> ('q, 'p) handler" where
  "handleDiscover env w d msg rt = (case buildDiscoveryResponse env d msg rt of
     Inl _ \<Rightarrow> None | Inr m \<Rightarrow> Some (rt, [Send w m]))"

definition handleFetchCard :: "('q, 'p) relay_env \<Rightarrow> ws \<Rightarrow> did \<Rightarrow> did \<Rightarrow> ('q, 'p) handler" where
  "handleFetchCard env w d target rt = Some (rt, [Send w (Card target (resolveVisibleAgentCard env d target rt))])"

section \<open>Subscriptions, endorsements and trust\<close>

definition handleSubscribe :: "('q, 'p) relay_env \<Rightarrow> ws \<Rightarrow> did \<Rightarrow> agent_event list \<Rightarrow> ('q, 'p) handler" where
  "handleSubscribe env w d events rt =
     (let realm = getRequesterRealm (rt_registry rt) d; (sid, subs) = subscribe (re_rnd env) d w events realm (rt_subs rt)
      in Some (rt\<lparr>rt_subs := subs\<rparr>, [Send w (SubscribeAck sid (sid \<noteq> None) realm)]))"

text \<open>The subscription is removed whoever owns it: the sender is not looked at.\<close>

definition handleUnsubscribe :: "string \<Rightarrow> ('q, 'p) handler" where
  "handleUnsubscribe sid rt = Some (rt\<lparr>rt_subs := unsubscribe sid (rt_subs rt)\<rparr>, [])"

definition agentEndorse :: "('q, 'p) relay_env \<Rightarrow> ws \<Rightarrow> did \<Rightarrow> endorsement \<Rightarrow> ('q, 'p) handler" where
  "agentEndorse env w d e rt =
     (let (res, es) = handleEndorse (re_endorseId env) (re_verifyEndorsement env) (env_now env) d e (rt_endorse rt)
      in Some (rt\<lparr>rt_endorse := es\<rparr>, [Send w (endorse_ack res)]))"

definition agentTrustQuery :: "('q, 'p) relay_env \<Rightarrow> ws \<Rightarrow> did \<Rightarrow> trust_query \<Rightarrow> ('q, 'p) handler" where
  "agentTrustQuery env w d q rt =
     (let (m, cs) = handleTrustQuery (env_now env) d q (es_index (rt_endorse rt)) (rt_trustQueries rt)
      in Some (rt\<lparr>rt_trustQueries := cs\<rparr>, [Send w m]))"

section \<open>Publishing\<close>

definition dispatchEvent :: "('q, 'p) relay_env \<Rightarrow> agent_event \<Rightarrow> did \<Rightarrow> agent_card option \<Rightarrow> string
    \<Rightarrow> ('q, 'p) relay \<Rightarrow> ('q, 'p) relay \<times> effect list" where
  "dispatchEvent env ev d crd realm rt =
     (let (subs, es) = dispatch (env_ready env) (env_now env) ev d crd realm (rt_subs rt) in (rt\<lparr>rt_subs := subs\<rparr>, es))"

definition tellJoined :: "('q, 'p) relay_env \<Rightarrow> did \<Rightarrow> agent_card \<Rightarrow> string \<Rightarrow> ('q, 'p) relay \<Rightarrow> ('q, 'p) relay \<times> effect list" where
  "tellJoined env d crd realm rt = (case rt_federation rt of
     None \<Rightarrow> (rt, [])
   | Some f \<Rightarrow> (let (f', es) = notifyAgentJoined (re_fed env) d crd realm f in (rt\<lparr>rt_federation := Some f'\<rparr>, es)))"

definition tellLeft :: "('q, 'p) relay_env \<Rightarrow> did \<Rightarrow> string \<Rightarrow> ('q, 'p) relay \<Rightarrow> ('q, 'p) relay \<times> effect list" where
  "tellLeft env d realm rt = (case rt_federation rt of
     None \<Rightarrow> (rt, [])
   | Some f \<Rightarrow> (let (f', es) = notifyAgentLeft (re_fed env) d realm f in (rt\<lparr>rt_federation := Some f'\<rparr>, es)))"

definition handlePublishCard :: "('q, 'p) relay_env \<Rightarrow> did \<Rightarrow> agent_card option \<Rightarrow> ('q, 'p) handler" where
  "handlePublishCard env d crd rt = (case reg_get (rt_registry rt) d of
     None \<Rightarrow> Some (rt, [])
   | Some agent \<Rightarrow>
       (let (reg, published) = reg_publish (re_lc env) d crd (rt_registry rt)
        in if \<not> published then Some (rt\<lparr>rt_registry := reg\<rparr>, [])
           else
             (let updated = (case reg_get reg d of Some a \<Rightarrow> a | None \<Rightarrow> agent);
                  (rt1, es1) = dispatchEvent env Publish d (Some (ra_card updated)) (ra_realm updated) (rt\<lparr>rt_registry := reg\<rparr>);
                  (rt2, es2) = tellJoined env d (ra_card updated) (ra_realm updated) rt1
              in Some (rt2, es1 @ es2))))"

definition handleUnpublishCard :: "('q, 'p) relay_env \<Rightarrow> did \<Rightarrow> ('q, 'p) handler" where
  "handleUnpublishCard env d rt = (case reg_get (rt_registry rt) d of
     None \<Rightarrow> Some (rt, [])
   | Some agent \<Rightarrow> Some (dispatchEvent env Unpublish d (Some (ra_card agent)) (ra_realm agent)
       (rt\<lparr>rt_registry := reg_unpublish (re_lc env) d (rt_registry rt)\<rparr>)))"

section \<open>Pre-keys\<close>

definition handlePublishPreKeys :: "('q, 'p) relay_env \<Rightarrow> ws \<Rightarrow> did \<Rightarrow> published_bundle list \<Rightarrow> ('q, 'p) handler" where
  "handlePublishPreKeys env w d bundles rt = (case reg_get (rt_registry rt) d of
     None \<Rightarrow> Some (rt, [])
   | Some agent \<Rightarrow> Some (rt\<lparr>rt_prekeys := publishBundles (re_prekeys env) (env_now env) d (ra_realm agent) bundles (rt_prekeys rt)\<rparr>,
       [Send w (PreKeysPublished d (length bundles))]))"

definition bundle_reply :: "did \<Rightarrow> string \<Rightarrow> claimed_bundle option \<Rightarrow> string option \<Rightarrow> relay_msg" where
  "bundle_reply d device b rid = PreKeyBundle d device b (case rid of Some i \<Rightarrow> if i = '''' then None else Some i | None \<Rightarrow> None)"

text \<open>A bundle the relay does not have is asked of the relay that announced the agent; the reply
  waits for the answer (\<open>rt_waiting\<close>).\<close>

definition handleFetchPreKeyBundle :: "('q, 'p) relay_env \<Rightarrow> ws \<Rightarrow> did \<Rightarrow> did \<Rightarrow> string \<Rightarrow> string option \<Rightarrow> ('q, 'p) handler" where
  "handleFetchPreKeyBundle env w requester d device rid rt =
     (let realm = getRequesterRealm (rt_registry rt) requester;
          (bundle, p) = claimBundle (re_prekeys env) (env_now env) d device realm (rt_prekeys rt);
          rt1 = rt\<lparr>rt_prekeys := p\<rparr>
      in case (bundle, rt_federation rt1) of
           (None, Some f) \<Rightarrow>
             (case fetchRemotePreKeyBundle (re_fed env) (re_rnd env) d device realm f of
                (None, f1, es) \<Rightarrow> Some (rt1\<lparr>rt_federation := Some f1\<rparr>, es @ [Send w (bundle_reply d device None rid)])
              | (Some fid, f1, es) \<Rightarrow>
                  Some (rt1\<lparr>rt_federation := Some f1, rt_waiting := jm_set fid \<lparr>wf_ws = w, wf_did = d, wf_device = device, wf_requestId = rid\<rparr> (rt_waiting rt1)\<rparr>, es))
         | _ \<Rightarrow> Some (rt1, [Send w (bundle_reply d device bundle rid)]))"

definition fetched_one :: "string \<times> (unit + claimed_bundle option) \<Rightarrow> ('q, 'p) relay \<times> effect list \<Rightarrow> ('q, 'p) relay \<times> effect list" where
  "fetched_one r s = (let (fid, res) = r; (rt, out) = s
     in case jm_get (rt_waiting rt) fid of
          None \<Rightarrow> (rt, out)
        | Some wt \<Rightarrow> (rt\<lparr>rt_waiting := jm_del fid (rt_waiting rt)\<rparr>,
            out @ (case res of
                Inr b \<Rightarrow> [Send (wf_ws wt) (bundle_reply (wf_did wt) (wf_device wt) b (wf_requestId wt))]
              | Inl _ \<Rightarrow> [CloseWs (wf_ws wt) 1011])))"

end
