(* ===== verification/Relay_Connection.thy ===== *)
theory Relay_Connection
  imports Relay_Agent
begin

text \<open>
  The connections of the relay, \<open>js/relay/src/relay-agent-connection.ts\<close>, and the dispatcher of
  \<open>relay-agent.ts\<close>: the HELLO handshake with its token checks, the protocol gate in front of
  every socket, the close of a socket, and the relay's timers. \<open>relay_step\<close> composes them: one
  step is one event of one socket, one timer, or one event of the federation manager.
\<close>

section \<open>The HELLO handshake\<close>

datatype hello_refusal_code = HelloRefused int string

definition max_hello_skew :: msec where "max_hello_skew = 300000"

definition token_close_code :: "token_error \<Rightarrow> int" where
  "token_close_code e = (case e of TokenExpired _ \<Rightarrow> 4012 | InvalidSignature \<Rightarrow> 4011 | InvalidFormat _ \<Rightarrow> 4010)"

text \<open>The identity checks of HELLO, in the order of the code.\<close>

definition check_identity :: "('q, 'p) relay_env \<Rightarrow> hello_msg \<Rightarrow> hello_refusal_code option" where
  "check_identity env msg =
     (if \<bar>env_now env - he_timestamp msg\<bar> > max_hello_skew then Some (HelloRefused 1008 ''Timestamp too old'')
      else if \<not> re_validDid env (he_did msg) then Some (HelloRefused 1008 ''Invalid DID format'')
      else if card_did (he_card msg) \<noteq> he_did msg then Some (HelloRefused 1008 ''HELLO DID mismatch'')
      else if \<not> verify_card (re_fed env) (he_did msg) (he_card msg) then Some (HelloRefused 1008 ''Invalid agent card signature'')
      else if \<not> re_verifyHello env msg then Some (HelloRefused 1008 ''Invalid HELLO signature'')
      else None)"

text \<open>The token checks of a private relay. \<open>entries\<close> is the revocation list, read again from its
  file once the token has been verified.\<close>

definition token_given :: "hello_msg \<Rightarrow> string option" where
  "token_given msg = (case he_inviteToken msg of Some t \<Rightarrow> if t = '''' then None else Some t | None \<Rightarrow> None)"

definition check_token :: "('q, 'p) relay_env \<Rightarrow> registry \<Rightarrow> hello_msg \<Rightarrow> revocation_list
    \<Rightarrow> (hello_refusal_code + token_payload) \<times> revocation_list" where
  "check_token env reg msg entries = (case token_given msg of
     None \<Rightarrow> (Inl (HelloRefused 4010 ''Invite token required''), entries)
   | Some tok \<Rightarrow> (case operatorPublicKey (re_config env) of
       None \<Rightarrow> (Inl (HelloRefused 4010 ''Relay not configured for token validation''), entries)
     | Some key \<Rightarrow> (case verifyInviteToken (re_token env) (env_now env) tok key of
         Inl e \<Rightarrow> (Inl (HelloRefused (token_close_code e) ''token''), entries)
       | Inr p \<Rightarrow>
           (let loaded = revocation_load (env_now env) (re_revocationFile env)
            in if isRevoked (tp_jti p) loaded then (Inl (HelloRefused 4013 ''Token has been revoked''), loaded)
               else if tp_sub p \<noteq> ''*'' \<and> tp_sub p \<noteq> he_did msg then (Inl (HelloRefused 4014 ''Token not valid for this DID''), loaded)
               else if (case tp_maxAgents p of Some n \<Rightarrow> n > 0 \<and> int (countOnlineByTokenJti reg (tp_jti p) (Some (he_did msg))) \<ge> n | None \<Rightarrow> False)
                 then (Inl (HelloRefused 4015 ''Token max agents reached''), loaded)
               else (Inr p, loaded)))))"

definition token_required :: "('q, 'p) relay_env \<Rightarrow> bool" where
  "token_required env \<longleftrightarrow> privateRelay (re_config env) \<or> operatorPublicKey (re_config env) \<noteq> None"

definition admit_hello :: "('q, 'p) relay_env \<Rightarrow> hello_msg \<Rightarrow> ('q, 'p) relay
    \<Rightarrow> (hello_refusal_code + string \<times> (string \<times> msec) option) \<times> ('q, 'p) relay" where
  "admit_hello env msg rt = (case check_identity env msg of
     Some e \<Rightarrow> (Inl e, rt)
   | None \<Rightarrow>
       if token_required env then
         (case check_token env (rt_registry rt) msg (rt_revocations rt) of
            (Inl e, entries) \<Rightarrow> (Inl e, rt\<lparr>rt_revocations := entries\<rparr>)
          | (Inr p, entries) \<Rightarrow> (Inr (tp_realm p, Some (tp_jti p, tp_exp p * 1000)), rt\<lparr>rt_revocations := entries\<rparr>))
       else (Inr (''public'', None), rt))"

text \<open>The messages that wait in the queue are sent and marked in flight, oldest first.\<close>

definition deliverQueued :: "('q, 'p) relay_env \<Rightarrow> ws \<Rightarrow> did \<Rightarrow> ('q, 'p) relay \<Rightarrow> ('q, 'p) relay \<times> effect list" where
  "deliverQueued env w d rt =
     (let ms = getQueuedMessages (re_queue env) (rt_queue rt) d
      in (rt\<lparr>rt_queue := fold (\<lambda>m q. markInflight (re_queue env) (env_now env) (messageId m) d q) ms (rt_queue rt)\<rparr>,
          map (\<lambda>m. Send w (Deliver (messageId m) (fromDid m) (envelope m))) ms))"

definition bootstrapEndorse :: "('q, 'p) relay_env \<Rightarrow> did \<Rightarrow> ('q, 'p) relay \<Rightarrow> ('q, 'p) relay" where
  "bootstrapEndorse env d rt =
     (if operatorPublicKey (re_config env) \<noteq> None \<and> \<not> hasEndorsementFrom (env_self env) d (es_index (rt_endorse rt))
      then (case re_bootstrap env d of
          None \<Rightarrow> rt
        | Some e \<Rightarrow> rt\<lparr>rt_endorse := (rt_endorse rt)\<lparr>es_index :=
                      snd (store_endorsement (re_endorseId env) (env_now env) e (es_index (rt_endorse rt)))\<rparr>\<rparr>)
      else rt)"

definition welcome_msg :: "('q, 'p) relay_env \<Rightarrow> did \<Rightarrow> string \<Rightarrow> ('q, 'p) relay \<Rightarrow> relay_msg" where
  "welcome_msg env d realm rt =
     Welcome (env_self env) (getOnlineCountByRealm (rt_registry rt) realm)
       (case rt_federation rt of Some f \<Rightarrow> st_connectedRelays (getFederationStatus f) | None \<Rightarrow> [])
       (''ws://relay/'' @ d) realm"

definition handleHello :: "('q, 'p) relay_env \<Rightarrow> ws \<Rightarrow> hello_msg \<Rightarrow> ('q, 'p) relay \<Rightarrow> bool \<times> ('q, 'p) relay \<times> effect list" where
  "handleHello env w msg rt0 = (case admit_hello env msg rt0 of
     (Inl (HelloRefused code _), rt) \<Rightarrow> (False, rt, [CloseWs w code])
   | (Inr (realm, session), rt) \<Rightarrow>
       (let d = he_did msg;
            (reg, es1) = reg_register (re_lc env) (env_now env) (env_ready env) d (he_card msg) w realm
                           (map_option fst session) (map_option snd session) (rt_registry rt);
            rt1 = recordPing (env_now env) d (rt\<lparr>rt_registry := reg\<rparr>);
            es2 = [Send w (welcome_msg env d realm rt1)];
            (rt2, es3) = tellJoined env d (he_card msg) realm rt1;
            (rt3, es4) = deliverQueued env w d rt2
        in (True, bootstrapEndorse env d rt3, es1 @ es2 @ es3 @ es4)))"

definition handleAgentDisconnect :: "('q, 'p) relay_env \<Rightarrow> ws \<Rightarrow> did \<Rightarrow> ('q, 'p) relay \<Rightarrow> ('q, 'p) relay \<times> effect list" where
  "handleAgentDisconnect env w d rt =
     (let agent = reg_get (rt_registry rt) d;
          realm = (case agent of Some a \<Rightarrow> ra_realm a | None \<Rightarrow> ''public'');
          reg = reg_unpublish (re_lc env) d (reg_markOffline (env_now env) d (rt_registry rt));
          rt1 = rt\<lparr>rt_registry := reg, rt_lastPing := jm_del d (rt_lastPing rt), rt_subs := unsubscribeAll d (rt_subs rt),
                   rt_wsToDid := jm_del w (rt_wsToDid rt)\<rparr>;
          (rt2, es1) = dispatchEvent env Leave d (map_option ra_card agent) realm rt1;
          (rt3, es2) = tellLeft env d realm rt2
      in (rt3, es1 @ es2))"

definition session_close :: "('q, 'p) relay_env \<Rightarrow> revocation_list \<Rightarrow> registered_agent \<Rightarrow> effect list" where
  "session_close env entries a =
     (if \<not> ra_online a then []
      else if (case ra_tokenExp a of Some t \<Rightarrow> t \<noteq> 0 \<and> t \<le> env_now env | None \<Rightarrow> False)
        then (if env_ready env (ra_ws a) \<le> 1 then [CloseWs (ra_ws a) 4012] else [])
      else if (case ra_tokenJti a of Some j \<Rightarrow> j \<noteq> '''' \<and> isRevoked j entries | None \<Rightarrow> False)
        then (if env_ready env (ra_ws a) \<le> 1 then [CloseWs (ra_ws a) 4013] else [])
      else [])"

definition revalidateActiveSessions :: "('q, 'p) relay_env \<Rightarrow> ('q, 'p) relay \<Rightarrow> ('q, 'p) relay \<times> effect list" where
  "revalidateActiveSessions env rt =
     (if \<not> token_required env then (rt, [])
      else
        (let entries = revocation_load (env_now env) (re_revocationFile env)
         in (rt\<lparr>rt_revocations := entries\<rparr>, concat (map (session_close env entries) (listAgents (rt_registry rt))))))"

section \<open>Dispatch\<close>

fun dispatchAuthenticatedMessage :: "('q, 'p) relay_env \<Rightarrow> ws \<Rightarrow> did \<Rightarrow> relay_msg \<Rightarrow> ('q, 'p) handler" where
  "dispatchAuthenticatedMessage env w d (SendMsg to e) rt = routeMessage env d to e rt"
| "dispatchAuthenticatedMessage env w d (Discover m) rt = handleDiscover env w d m rt"
| "dispatchAuthenticatedMessage env w d (FetchCard t) rt = handleFetchCard env w d t rt"
| "dispatchAuthenticatedMessage env w d Ping rt = handlePing env w d rt"
| "dispatchAuthenticatedMessage env w d (Ack i) rt = handleAck env d i rt"
| "dispatchAuthenticatedMessage env w d (Subscribe evs) rt = handleSubscribe env w d evs rt"
| "dispatchAuthenticatedMessage env w d (Unsubscribe i) rt = handleUnsubscribe i rt"
| "dispatchAuthenticatedMessage env w d (Endorse e) rt = agentEndorse env w d e rt"
| "dispatchAuthenticatedMessage env w d (TrustQuery q) rt = agentTrustQuery env w d q rt"
| "dispatchAuthenticatedMessage env w d (PublishCard c) rt = handlePublishCard env d c rt"
| "dispatchAuthenticatedMessage env w d UnpublishCard rt = handleUnpublishCard env d rt"
| "dispatchAuthenticatedMessage env w d (PublishPreKeys bs) rt = handlePublishPreKeys env w d bs rt"
| "dispatchAuthenticatedMessage env w d (FetchPreKeyBundle t dev i _) rt = handleFetchPreKeyBundle env w d t dev i rt"
| "dispatchAuthenticatedMessage env w d Goodbye rt = Some (rt, [CloseWs w 1005])"
| "dispatchAuthenticatedMessage env w d _ rt = Some (rt, [])"

section \<open>Sockets\<close>

definition conn_of :: "('q, 'p) relay \<Rightarrow> ws \<Rightarrow> conn_mode" where
  "conn_of rt w = (case jm_get (rt_conns rt) w of Some m \<Rightarrow> m | None \<Rightarrow> Unauthenticated)"

definition guard_close_code :: "hello_refusal \<Rightarrow> int" where
  "guard_close_code e = (case e of Refused _ \<Rightarrow> 1013 | _ \<Rightarrow> 1008)"

text \<open>The result of a federation step for the relay: the fetches it settles are answered.\<close>

definition apply_fed :: "'p fed_step \<Rightarrow> ('q, 'p) relay \<Rightarrow> ('q, 'p) relay \<times> effect list" where
  "apply_fed st rt = fold fetched_one (fs_fetched st)
     (rt\<lparr>rt_federation := Some (fs_fed st), rt_prekeys := fs_store st\<rparr>, fs_out st)"

definition fed_relay_step :: "('q, 'p) relay_env \<Rightarrow> fed_event \<Rightarrow> ('q, 'p) relay \<Rightarrow> ('q, 'p) relay \<times> effect list" where
  "fed_relay_step env e rt = (case rt_federation rt of
     None \<Rightarrow> (rt, [])
   | Some f \<Rightarrow> apply_fed (fed_event_step (re_prekeys env) (re_verifyFedHello env) (re_fed env) (rt_registry rt) e f (rt_prekeys rt)) rt)"

definition on_message :: "('q, 'p) relay_env \<Rightarrow> ws \<Rightarrow> string option \<Rightarrow> relay_msg \<Rightarrow> ('q, 'p) relay \<Rightarrow> ('q, 'p) relay \<times> effect list" where
  "on_message env w ip msg rt = (case conn_of rt w of
     Unauthenticated \<Rightarrow>
       (case msg of
          Hello m \<Rightarrow>
            (case handleHello env w m rt of
               (ok, rt', es) \<Rightarrow>
                 (if ok then rt'\<lparr>rt_conns := jm_set w (AgentConn (he_did m)) (rt_conns rt'), rt_wsToDid := jm_set w (he_did m) (rt_wsToDid rt')\<rparr>
                  else rt', es))
        | FederationHello m \<Rightarrow>
            (case rt_federation rt of
               None \<Rightarrow> (rt, [CloseWs w 1008])
             | Some f \<Rightarrow>
                 (case acceptIncomingRelay (re_fed env) (re_verifyFedHello env) w m ip f of
                    (Inr d, f', es) \<Rightarrow> (rt\<lparr>rt_federation := Some f', rt_conns := jm_set w (FederationConn d) (rt_conns rt)\<rparr>, es)
                  | (Inl e, f', es) \<Rightarrow> (rt\<lparr>rt_federation := Some f'\<rparr>, es @ [CloseWs w (guard_close_code e)])))
        | _ \<Rightarrow> (rt, [CloseWs w 1008]))
   | FederationConn d \<Rightarrow>
       (if rt_federation rt = None then (rt, [CloseWs w 1011]) else fed_relay_step env (FedMessage w d msg) rt)
   | AgentConn d \<Rightarrow>
       (case dispatchAuthenticatedMessage env w d msg rt of Some r \<Rightarrow> r | None \<Rightarrow> (rt, [CloseWs w 1011])))"

definition on_close :: "('q, 'p) relay_env \<Rightarrow> ws \<Rightarrow> ('q, 'p) relay \<Rightarrow> ('q, 'p) relay \<times> effect list" where
  "on_close env w rt =
     (let rt0 = rt\<lparr>rt_conns := jm_del w (rt_conns rt)\<rparr>
      in case conn_of rt w of
           Unauthenticated \<Rightarrow> (rt0, [])
         | FederationConn d \<Rightarrow> fed_relay_step env (FedIncomingClosed d) rt0
         | AgentConn d \<Rightarrow> handleAgentDisconnect env w d rt0)"

section \<open>The relay as a step function\<close>

datatype relay_event =
    Received ws "string option" relay_msg
  | Closed ws
  | HeartbeatTimer
  | RetryTimer
  | SessionTimer
  | QueueTimer
  | RegistryTimer
  | EndorsementTimer
  | Federation fed_event

definition relay_step :: "('q, 'p) relay_env \<Rightarrow> relay_event \<Rightarrow> ('q, 'p) relay \<Rightarrow> ('q, 'p) relay \<times> effect list" where
  "relay_step env e rt = (case e of
     Received w ip m \<Rightarrow> on_message env w ip m rt
   | Closed w \<Rightarrow> on_close env w rt
   | HeartbeatTimer \<Rightarrow> heartbeatCheck env rt
   | RetryTimer \<Rightarrow> retryUnackedMessages env rt
   | SessionTimer \<Rightarrow> revalidateActiveSessions env rt
   | QueueTimer \<Rightarrow> (rt\<lparr>rt_queue := cleanupExpiredMessages (re_queue env) (env_now env) (rt_queue rt)\<rparr>, [])
   | RegistryTimer \<Rightarrow> (rt\<lparr>rt_registry := reg_cleanup (re_lc env) (env_now env) (rt_registry rt)\<rparr>, [])
   | EndorsementTimer \<Rightarrow> (rt\<lparr>rt_endorse := (rt_endorse rt)\<lparr>es_index := snd (garbageCollect (env_now env) (es_index (rt_endorse rt)))\<rparr>\<rparr>, [])
   | Federation fe \<Rightarrow> fed_relay_step env fe rt)"

text \<open>The relay after \<open>start\<close>: registered with itself, in the public realm, on a socket that
  is only a stub.\<close>

definition registerSelfAsAgent :: "('q, 'p) relay_env \<Rightarrow> ws \<Rightarrow> registry \<Rightarrow> registry" where
  "registerSelfAsAgent env stub reg =
     (let me = env_self env; crd = self_card (re_fed env)
      in fst (reg_publish (re_lc env) me (Some crd)
           (fst (reg_register (re_lc env) (env_now env) (env_ready env) me crd stub ''public'' None None reg))))"

definition start_relay :: "('q, 'p) relay_env \<Rightarrow> ws \<Rightarrow> bool \<Rightarrow> 'q \<Rightarrow> 'p \<Rightarrow> ('q, 'p) relay" where
  "start_relay env stub federationEnabled q p =
     \<lparr>rt_registry = registerSelfAsAgent env stub empty_registry, rt_lastPing = [], rt_queue = q, rt_prekeys = p,
      rt_subs = empty_subs, rt_endorse = \<lparr>es_counters = [], es_dedup = [], es_index = empty_endorsements\<rparr>,
      rt_trustQueries = [], rt_federation = (if federationEnabled then Some empty_federation else None),
      rt_revocations = revocation_load (env_now env) (re_revocationFile env), rt_wsToDid = [], rt_conns = [], rt_waiting = []\<rparr>"

definition relay_run :: "(('q, 'p) relay_env \<times> relay_event) list \<Rightarrow> ('q, 'p) relay \<Rightarrow> ('q, 'p) relay \<times> effect list" where
  "relay_run evs rt = fold (\<lambda>(env, e) (rt, out). (let (rt', es) = relay_step env e rt in (rt', out @ es))) evs (rt, [])"

section \<open>Configuration\<close>

datatype federation_policy = AutoPolicy | FixedPolicy export_policy

definition resolveFederationExportPolicy :: "federation_policy \<Rightarrow> relay_config \<Rightarrow> export_policy" where
  "resolveFederationExportPolicy policy c = (case policy of
     FixedPolicy p \<Rightarrow> p
   | AutoPolicy \<Rightarrow> if privateRelay c \<or> operatorPublicKey c \<noteq> None then ExportNone else ExportFull)"

text \<open>The address of a connection: the first of \<open>X-Forwarded-For\<close>, or the peer of the socket.\<close>

definition nonempty :: "string option \<Rightarrow> string option" where
  "nonempty v = (case v of Some s \<Rightarrow> if s = '''' then None else Some s | None \<Rightarrow> None)"

definition getConnectionContext :: "string option \<Rightarrow> string option \<Rightarrow> string option \<Rightarrow> string \<times> string" where
  "getConnectionContext forwarded remoteAddress userAgent =
     (let first = (case forwarded of Some h \<Rightarrow> nonempty (Some (js_trim (hd (js_split (CHR '','') h)))) | None \<Rightarrow> None)
      in (case first of Some ip \<Rightarrow> ip | None \<Rightarrow> (case nonempty remoteAddress of Some ip \<Rightarrow> ip | None \<Rightarrow> ''unknown''),
          case nonempty (map_option js_trim userAgent) of Some ua \<Rightarrow> ua | None \<Rightarrow> ''unknown''))"

end
