(* ===== verification/Relay_Examples.thy ===== *)
theory Relay_Examples
  imports Relay_Connection
begin

text \<open>
  A small relay for the witnesses: the store of \<open>Level_Store\<close>, open sockets, a clock, and checks
  that accept. A token is its own signature, and its payload names the realm and the identifier at once.
\<close>

type_synonym x_relay = "((string, stored_msg) rbt, (string, stored_bundle) rbt) relay"
type_synonym x_renv = "((string, stored_msg) rbt, (string, stored_bundle) rbt) relay_env"

definition x_card :: "did \<Rightarrow> agent_card" where
  "x_card d = \<lparr>card_did = d, card_name = [], card_description = [], card_version = ''1'', card_capabilities = [],
     card_endpoints = [], card_metadata = None, card_timestamp = 0, card_signature = ''''\<rparr>"

definition x_payload :: "string \<Rightarrow> token_payload" where
  "x_payload s = \<lparr>tp_iss = ''o'', tp_sub = ''*'', tp_realm = s, tp_exp = 1000, tp_iat = 0, tp_jti = s, tp_note = None, tp_maxAgents = Some 1\<rparr>"

definition x_token :: token_env where
  "x_token = \<lparr>show_header = (\<lambda>_. ''h''), parse_header = (\<lambda>s. if s = ''h'' then Some token_head else None),
     show_payload = tp_jti, parse_payload = (\<lambda>s. Some (x_payload s)), ed_sign = (\<lambda>_ m. m), ed_verify = (\<lambda>_ m s. s = m)\<rparr>"

definition x_fed_env :: "msec \<Rightarrow> fed_env" where
  "x_fed_env t = \<lparr>self_did = ''r'', self_card = x_card ''r'', fconf = default_fed_config, readyState = (\<lambda>_. 1), now_ms = t,
     uptime_ms = 0, verify_card = (\<lambda>_ _. True)\<rparr>"

definition x_env :: "bytes option \<Rightarrow> msec \<Rightarrow> string \<Rightarrow> x_renv" where
  "x_env key t rnd = \<lparr>re_fed = x_fed_env t, re_config = \<lparr>operatorPublicKey = key, privateRelay = False\<rparr>, re_queue = rbt_level,
     re_queueConfig = default_queue_config, re_prekeys = rbt_level, re_lc = id, re_cmp = (\<lambda>_ _. 0), re_rnd = rnd,
     re_validDid = (\<lambda>d. d \<noteq> ''''), re_verifyHello = (\<lambda>_. True), re_verifyFedHello = (\<lambda>_. True), re_token = x_token,
     re_endorseId = (\<lambda>_. ''''), re_verifyEndorsement = (\<lambda>_. None), re_bootstrap = (\<lambda>_. None), re_revocationFile = None\<rparr>"

definition x_hello :: "did \<Rightarrow> string option \<Rightarrow> msec \<Rightarrow> hello_msg" where
  "x_hello d tok t = \<lparr>he_protocolVersion = 1, he_did = d, he_card = x_card d, he_timestamp = t, he_signature = [], he_inviteToken = tok\<rparr>"

definition x_start :: "bytes option \<Rightarrow> x_relay" where
  "x_start key = start_relay (x_env key 0 '''') 0 False RBT.empty RBT.empty"

definition x_tok :: "string \<Rightarrow> string" where
  "x_tok s = createInviteToken x_token (x_payload s) []"

end
