(* ===== verification/Relay_Agent_Props.thy ===== *)
theory Relay_Agent_Props
  imports Relay_Examples Relay_Queue_Props Relay_Registry_Props
begin

text \<open>
  What the relay guarantees across its components: who may act on a socket, what a token lets in,
  where a message goes, and what the timers and the close of a socket do.
\<close>

section \<open>Handlers keep the connections\<close>

lemma conns_dispatchEvent [simp]: "rt_conns (fst (dispatchEvent env ev d c realm rt)) = rt_conns rt"
  by (simp add: dispatchEvent_def split_def Let_def)

lemma conns_tell [simp]: "rt_conns (fst (tellJoined env d c realm rt)) = rt_conns rt" "rt_conns (fst (tellLeft env d realm rt)) = rt_conns rt"
  by (simp_all add: tellJoined_def tellLeft_def split_def Let_def split: option.split)

lemma conns_send: "handleSend env frm d e rt = Some (rt', es) \<Longrightarrow> rt_conns rt' = rt_conns rt"
  by (auto simp: handleSend_def Let_def split: if_splits sum.splits option.splits)

lemma conns_route: "routeMessage env frm d e rt = Some (rt', es) \<Longrightarrow> rt_conns rt' = rt_conns rt"
  by (auto simp: routeMessage_def Let_def split: if_splits sum.splits option.splits prod.splits dest!: conns_send)

lemma conns_prekeys: "handleFetchPreKeyBundle env w r d dev i rt = Some (rt', es) \<Longrightarrow> rt_conns rt' = rt_conns rt"
  by (auto simp: handleFetchPreKeyBundle_def Let_def split: option.splits prod.splits)

lemma conns_events:
  "dispatchEvent env ev d c realm rt = (rt', es) \<Longrightarrow> rt_conns rt' = rt_conns rt"
  "tellJoined env d cd realm rt = (rt', es) \<Longrightarrow> rt_conns rt' = rt_conns rt"
  using conns_dispatchEvent [of env ev d c realm rt] conns_tell(1) [of env d cd realm rt] by simp_all

lemma conns_dispatch: "dispatchAuthenticatedMessage env w d m rt = Some (rt', es) \<Longrightarrow> rt_conns rt' = rt_conns rt"
  by (cases m) (auto simp: handleDiscover_def handleFetchCard_def handlePing_def recordPing_def handleAck_def handleSubscribe_def
    handleUnsubscribe_def agentEndorse_def agentTrustQuery_def handlePublishCard_def handleUnpublishCard_def handlePublishPreKeys_def Let_def
    split: sum.splits option.splits prod.splits if_splits dest!: conns_route conns_prekeys conns_events)

lemma conns_fetched [simp]: "rt_conns (fst (fold fetched_one rs s)) = rt_conns (fst s)"
proof (induction rs arbitrary: s)
  case (Cons r rs)
  have "rt_conns (fst (fetched_one r s)) = rt_conns (fst s)"
    by (simp add: fetched_one_def split_def Let_def split: option.split)
  with Cons show ?case by simp
qed simp

lemma conns_fed [simp]: "rt_conns (fst (fed_relay_step env e rt)) = rt_conns rt"
  by (simp add: fed_relay_step_def apply_fed_def split: option.split)

lemma conns_timeouts [simp]: "rt_conns (fst (heartbeatCheck env rt)) = rt_conns rt"
proof -
  have "rt_conns (fst (fold (\<lambda>(d, _) (rt, out).
             (let (rt', es) = handleTimeout env d (rt\<lparr>rt_lastPing := jm_del d (rt_lastPing rt)\<rparr>) in (rt', out @ es))) ps (rt, out))) = rt_conns rt"
    for ps :: "(did \<times> msec) list" and out
  proof (induction ps arbitrary: rt out)
    case (Cons p ps)
    have "rt_conns (fst (handleTimeout env d rt)) = rt_conns rt" for d rt
      by (simp add: handleTimeout_def split: option.split)
    with Cons show ?case by (simp add: split_def Let_def)
  qed simp
  then show ?thesis by (simp add: heartbeatCheck_def)
qed

lemma conns_retry [simp]: "rt_conns (fst (retryUnackedMessages env rt)) = rt_conns rt"
proof -
  have "rt_conns (fst (fold (retry_one env) ms s)) = rt_conns (fst s)" for ms s
  proof (induction ms arbitrary: s)
    case (Cons m ms)
    have "rt_conns (fst (retry_one env m s)) = rt_conns (fst s)"
      by (simp add: retry_one_def split_def Let_def split: option.split)
    with Cons show ?case by simp
  qed simp
  then show ?thesis by (simp add: retryUnackedMessages_def)
qed

lemma conns_hello: "handleHello env w m rt = (ok, rt', es) \<Longrightarrow> rt_conns rt' = rt_conns rt"
  by (auto simp: handleHello_def admit_hello_def recordPing_def deliverQueued_def bootstrapEndorse_def Let_def
      split: option.splits prod.splits if_splits sum.splits hello_refusal_code.splits dest!: conns_events(2))

lemma conns_disconnect [simp]: "rt_conns (fst (handleAgentDisconnect env w d rt)) = rt_conns rt"
  by (simp add: handleAgentDisconnect_def Let_def split_def)

lemma conns_revalidate [simp]: "rt_conns (fst (revalidateActiveSessions env rt)) = rt_conns rt"
  by (simp add: revalidateActiveSessions_def Let_def)

text \<open>What HELLO has checked when it is accepted.\<close>

definition hello_accepted :: "('q, 'p) relay_env \<Rightarrow> hello_msg \<Rightarrow> registry \<Rightarrow> bool" where
  "hello_accepted env m reg \<longleftrightarrow>
     re_validDid env (he_did m) \<and> card_did (he_card m) = he_did m
     \<and> verify_card (re_fed env) (he_did m) (he_card m) \<and> re_verifyHello env m
     \<and> \<bar>env_now env - he_timestamp m\<bar> \<le> 300000
     \<and> (token_required env \<longrightarrow> (\<exists>tok key p. he_inviteToken m = Some tok \<and> operatorPublicKey (re_config env) = Some key
          \<and> verifyInviteToken (re_token env) (env_now env) tok key = Inr p
          \<and> \<not> isRevoked (tp_jti p) (revocation_load (env_now env) (re_revocationFile env))
          \<and> (tp_sub p = ''*'' \<or> tp_sub p = he_did m)))"

lemma hello_ok: "handleHello env w m rt = (True, rt', es) \<Longrightarrow> hello_accepted env m (rt_registry rt)"
  by (auto simp: handleHello_def admit_hello_def check_identity_def check_token_def token_given_def max_hello_skew_def
      hello_accepted_def Let_def split: option.splits prod.splits if_splits sum.splits hello_refusal_code.splits)

lemma conn_step:
  assumes "conn_of (fst (relay_step env e rt)) w = AgentConn d"
  shows "conn_of rt w = AgentConn d \<or> (\<exists>ip m. e = Received w ip (Hello m) \<and> he_did m = d \<and> hello_accepted env m (rt_registry rt))"
proof (cases e)
  case (Received w' ip msg)
  show ?thesis
  proof (cases "conn_of rt w'")
    case Unauthenticated
    show ?thesis
    proof (cases msg)
      case (Hello m)
      obtain ok rt' es where h: "handleHello env w' m rt = (ok, rt', es)" by (cases "handleHello env w' m rt")
      with assms Received Unauthenticated Hello conns_hello [OF h] hello_ok [of env w' m rt rt' es] show ?thesis
        by (auto simp: relay_step_def on_message_def conn_of_def split: if_splits)
    qed (use assms Received Unauthenticated in \<open>auto simp: relay_step_def on_message_def conn_of_def split: option.splits prod.splits sum.splits if_splits\<close>)
  next
    case (AgentConn d')
    then show ?thesis using assms Received
      by (auto simp: relay_step_def on_message_def conn_of_def dest: conns_dispatch split: option.splits)
  next
    case (FederationConn d')
    then show ?thesis using assms Received
      by (auto simp: relay_step_def on_message_def conn_of_def split: if_splits)
  qed
next
  case (Closed w')
  then show ?thesis using assms
    by (auto simp: relay_step_def on_close_def conn_of_def Let_def split: conn_mode.splits if_splits option.splits)
qed (use assms in \<open>auto simp: relay_step_def conn_of_def\<close>)

lemma relay_run_Nil [simp]: "relay_run [] rt = (rt, [])"
  by (simp add: relay_run_def)

lemma relay_run_snoc [simp]: "fst (relay_run (evs @ [(env, e)]) rt) = fst (relay_step env e (fst (relay_run evs rt)))"
  by (simp add: relay_run_def split_def Let_def)

text \<open>C11: After any run of the relay, a socket speaks for an agent only because an earlier HELLO on that
  socket named this DID and passed every check: the DID's form, the card and its signature, the
  signature of the HELLO, a timestamp within five minutes, and on a private relay a token that the
  operator signed, that is not revoked and that names this DID or any.\<close>

theorem agent_connection_authenticated:
  assumes "rt_conns rt = []" "conn_of (fst (relay_run evs rt)) w = AgentConn d"
  shows "\<exists>pre env ip m post. evs = pre @ (env, Received w ip (Hello m)) # post \<and> he_did m = d
     \<and> hello_accepted env m (rt_registry (fst (relay_run pre rt)))"
  using assms(2)
proof (induction evs rule: rev_induct)
  case Nil
  with assms(1) show ?case by (simp add: conn_of_def)
next
  case (snoc x evs)
  obtain env e where x: "x = (env, e)" by (cases x)
  from conn_step [of env e "fst (relay_run evs rt)" w d] snoc.prems x
  consider "conn_of (fst (relay_run evs rt)) w = AgentConn d"
    | ip m where "e = Received w ip (Hello m)" "he_did m = d" "hello_accepted env m (rt_registry (fst (relay_run evs rt)))"
    by auto
  then show ?case
  proof cases
    case 1
    from snoc.IH [OF this] obtain pre env' ip m post where "evs = pre @ (env', Received w ip (Hello m)) # post" "he_did m = d"
        "hello_accepted env' m (rt_registry (fst (relay_run pre rt)))" by blast
    then show ?thesis by (metis append_Cons append_assoc)
  next
    case 2
    with x show ?thesis by blast
  qed
qed

theorem agent_connection_authenticated_witness:
  "\<exists>pre env ip m post. [(x_env (Some []) 5 ''m'', Received 5 None (Hello (x_hello ''b'' (Some (x_tok ''p'')) 5)))]
       = pre @ (env, Received 5 ip (Hello m)) # post \<and> he_did m = ''b''
     \<and> hello_accepted env m (rt_registry (fst (relay_run pre (x_start (Some [])))))"
proof (rule agent_connection_authenticated)
  show "conn_of (fst (relay_run [(x_env (Some []) 5 ''m'', Received 5 None (Hello (x_hello ''b'' (Some (x_tok ''p'')) 5)))]
      (x_start (Some [])))) 5 = AgentConn ''b''" by code_simp
qed (simp add: x_start_def start_relay_def)

section \<open>The registry changes by its operations only\<close>

fun registers :: "reg_op \<Rightarrow> bool" where
  "registers (RegRegister _ _ _ _ _ _ _) = True"
| "registers _ = False"

definition evolves :: "('q, 'p) relay_env \<Rightarrow> registry \<Rightarrow> registry \<Rightarrow> bool" where
  "evolves env r r' \<longleftrightarrow> (\<exists>ops. (\<forall>op \<in> set ops. \<not> registers op) \<and> r' = fold (reg_step (re_lc env) (env_ready env)) ops r)"

lemma evolves_refl [simp]: "evolves env r r"
  unfolding evolves_def by (rule exI [of _ "[]"]) simp

lemma evolves_trans: "evolves env r s \<Longrightarrow> evolves env s t \<Longrightarrow> evolves env r t"
proof -
  assume "evolves env r s" "evolves env s t"
  then obtain os ps where "\<forall>op \<in> set os. \<not> registers op" "s = fold (reg_step (re_lc env) (env_ready env)) os r"
    "\<forall>op \<in> set ps. \<not> registers op" "t = fold (reg_step (re_lc env) (env_ready env)) ps s"
    unfolding evolves_def by blast
  then show ?thesis unfolding evolves_def by (intro exI [of _ "os @ ps"]) auto
qed

lemma evolves_op: "\<not> registers op \<Longrightarrow> evolves env r (reg_step (re_lc env) (env_ready env) op r)"
  unfolding evolves_def by (rule exI [of _ "[op]"]) simp

lemma evolves_ops [simp]:
  "evolves env r (fst (reg_publish (re_lc env) d c r))" "evolves env r (reg_unpublish (re_lc env) d r)"
  "evolves env r (reg_unregister (re_lc env) d r)" "evolves env r (reg_markOffline now d r)"
  "evolves env r (reg_updateLastSeen now d r)" "evolves env r (reg_setOffline d r)" "evolves env r (reg_cleanup (re_lc env) now r)"
  using evolves_op [of "RegPublish d c" env r] evolves_op [of "RegUnpublish d" env r] evolves_op [of "RegUnregister d" env r]
    evolves_op [of "RegOffline now d" env r] evolves_op [of "RegSeen now d" env r] evolves_op [of "RegSetOffline d" env r]
    evolves_op [of "RegCleanup now" env r] by simp_all

lemma reg_told [simp]: "rt_registry (fst (dispatchEvent env ev d c realm rt)) = rt_registry rt"
  "rt_registry (fst (tellJoined env d cd realm rt)) = rt_registry rt" "rt_registry (fst (tellLeft env d realm rt)) = rt_registry rt"
  by (simp_all add: dispatchEvent_def tellJoined_def tellLeft_def split_def Let_def split: option.split)

lemma reg_events:
  "dispatchEvent env ev d c realm rt = (rt', es) \<Longrightarrow> rt_registry rt' = rt_registry rt"
  "tellJoined env d cd realm rt = (rt', es) \<Longrightarrow> rt_registry rt' = rt_registry rt"
  using reg_told(1) [of env ev d c realm rt] reg_told(2) [of env d cd realm rt] by simp_all

lemma evolves_send: "handleSend env frm d e rt = Some (rt', es) \<Longrightarrow> evolves env (rt_registry rt) (rt_registry rt')"
  by (auto simp: handleSend_def Let_def split: if_splits sum.splits option.splits)

lemma evolves_route: "routeMessage env frm d e rt = Some (rt', es) \<Longrightarrow> evolves env (rt_registry rt) (rt_registry rt')"
  by (auto simp: routeMessage_def Let_def split: if_splits sum.splits option.splits prod.splits dest!: evolves_send)

lemma reg_prekeys: "handleFetchPreKeyBundle env w r d dev i rt = Some (rt', es) \<Longrightarrow> rt_registry rt' = rt_registry rt"
  by (auto simp: handleFetchPreKeyBundle_def Let_def split: option.splits prod.splits)

lemma evolves_publish: "reg_publish (re_lc env) d c r = (r', ok) \<Longrightarrow> evolves env r r'"
  using evolves_ops(1) [of env r d c] by simp

lemma evolves_dispatch: "dispatchAuthenticatedMessage env w d m rt = Some (rt', es) \<Longrightarrow> evolves env (rt_registry rt) (rt_registry rt')"
  by (cases m) (auto simp: handleDiscover_def handleFetchCard_def handlePing_def recordPing_def handleAck_def handleSubscribe_def
    handleUnsubscribe_def agentEndorse_def agentTrustQuery_def handlePublishCard_def handleUnpublishCard_def handlePublishPreKeys_def Let_def
    split: sum.splits option.splits prod.splits if_splits dest!: evolves_route reg_prekeys evolves_publish reg_events)

lemma reg_fetched [simp]: "rt_registry (fst (fold fetched_one rs s)) = rt_registry (fst s)"
proof (induction rs arbitrary: s)
  case (Cons r rs)
  have "rt_registry (fst (fetched_one r s)) = rt_registry (fst s)"
    by (simp add: fetched_one_def split_def Let_def split: option.split)
  with Cons show ?case by simp
qed simp

lemma reg_fed [simp]: "rt_registry (fst (fed_relay_step env e rt)) = rt_registry rt"
  by (simp add: fed_relay_step_def apply_fed_def split: option.split)

lemma evolves_timeout: "evolves env (rt_registry rt) (rt_registry (fst (handleTimeout env d rt)))"
  by (simp add: handleTimeout_def split: option.split)

lemma evolves_heartbeat: "evolves env (rt_registry rt) (rt_registry (fst (heartbeatCheck env rt)))"
proof -
  have "evolves env (rt_registry rt) (rt_registry (fst (fold (\<lambda>(d, _) (rt, out).
             (let (rt', es) = handleTimeout env d (rt\<lparr>rt_lastPing := jm_del d (rt_lastPing rt)\<rparr>) in (rt', out @ es))) ps (rt, out))))"
    for ps :: "(did \<times> msec) list" and out
  proof (induction ps arbitrary: rt out)
    case (Cons p ps)
    let ?rt = "fst (handleTimeout env (fst p) (rt\<lparr>rt_lastPing := jm_del (fst p) (rt_lastPing rt)\<rparr>))"
    have "evolves env (rt_registry rt) (rt_registry ?rt)"
      using evolves_timeout [of env "rt\<lparr>rt_lastPing := jm_del (fst p) (rt_lastPing rt)\<rparr>" "fst p"] by simp
    then show ?case using Cons.IH [of ?rt] by (auto simp: split_def Let_def intro: evolves_trans)
  qed simp
  then show ?thesis by (simp add: heartbeatCheck_def)
qed

lemma reg_retry [simp]: "rt_registry (fst (retryUnackedMessages env rt)) = rt_registry rt"
proof -
  have "rt_registry (fst (fold (retry_one env) ms s)) = rt_registry (fst s)" for ms s
  proof (induction ms arbitrary: s)
    case (Cons m ms)
    have "rt_registry (fst (retry_one env m s)) = rt_registry (fst s)"
      by (simp add: retry_one_def split_def Let_def split: option.split)
    with Cons show ?case by simp
  qed simp
  then show ?thesis by (simp add: retryUnackedMessages_def)
qed

lemma evolves_disconnect: "evolves env (rt_registry rt) (rt_registry (fst (handleAgentDisconnect env w d rt)))"
proof -
  have "evolves env (rt_registry rt) (reg_unpublish (re_lc env) d (reg_markOffline (env_now env) d (rt_registry rt)))"
    by (rule evolves_trans [OF evolves_ops(4) evolves_ops(2)])
  then show ?thesis
    by (simp add: handleAgentDisconnect_def Let_def split_def)
qed

text \<open>The registration that an accepted HELLO makes.\<close>

definition hello_registered :: "('q, 'p) relay_env \<Rightarrow> ws \<Rightarrow> hello_msg \<Rightarrow> ('q, 'p) relay \<Rightarrow> registry \<Rightarrow> bool" where
  "hello_registered env w m rt reg \<longleftrightarrow> (\<exists>realm session rt'. admit_hello env m rt = (Inr (realm, session), rt')
     \<and> reg = fst (reg_register (re_lc env) (env_now env) (env_ready env) (he_did m) (he_card m) w realm
                    (map_option fst session) (map_option snd session) (rt_registry rt)))"

lemma admit_registry: "admit_hello env m rt = (r, rt') \<Longrightarrow> rt_registry rt' = rt_registry rt"
  by (auto simp: admit_hello_def split: option.splits if_splits prod.splits sum.splits)

lemma hello_registry:
  assumes "handleHello env w m rt = (ok, rt', es)"
  shows "if ok then \<exists>reg. hello_registered env w m rt reg \<and> evolves env reg (rt_registry rt') else rt_registry rt' = rt_registry rt"
  using assms
  by (auto simp: handleHello_def hello_registered_def recordPing_def deliverQueued_def bootstrapEndorse_def Let_def
      split: prod.splits sum.splits hello_refusal_code.splits if_splits option.splits dest!: admit_registry reg_events(2))

lemma relay_step_registry:
  "evolves env (rt_registry rt) (rt_registry (fst (relay_step env e rt)))
   \<or> (\<exists>w ip m reg. e = Received w ip (Hello m) \<and> hello_registered env w m rt reg
        \<and> evolves env reg (rt_registry (fst (relay_step env e rt))))"
proof (cases e)
  case (Received w ip msg)
  show ?thesis
  proof (cases "conn_of rt w")
    case Unauthenticated
    show ?thesis
    proof (cases msg)
      case (Hello m)
      obtain ok rt' es where h: "handleHello env w m rt = (ok, rt', es)" by (cases "handleHello env w m rt")
      with Received Unauthenticated Hello hello_registry [OF h] show ?thesis
        by (auto simp: relay_step_def on_message_def split: if_splits)
    qed (use Received Unauthenticated in \<open>auto simp: relay_step_def on_message_def split: option.splits prod.splits sum.splits\<close>)
  next
    case (AgentConn d)
    then show ?thesis using Received
      by (auto simp: relay_step_def on_message_def dest: evolves_dispatch split: option.splits)
  next
    case (FederationConn d)
    then show ?thesis using Received by (simp add: relay_step_def on_message_def)
  qed
next
  case (Closed w)
  have "evolves env (rt_registry rt) (rt_registry (fst (handleAgentDisconnect env w d (rt\<lparr>rt_conns := c\<rparr>))))" for d c
    using evolves_disconnect [of env "rt\<lparr>rt_conns := c\<rparr>" w d] by simp
  with Closed show ?thesis by (simp add: relay_step_def on_close_def Let_def split: conn_mode.split)
next
  case SessionTimer
  then show ?thesis by (simp add: relay_step_def revalidateActiveSessions_def Let_def)
qed (simp_all add: relay_step_def evolves_heartbeat)

section \<open>Sessions of a token\<close>

definition session_of :: "string \<Rightarrow> registered_agent \<Rightarrow> bool" where
  "session_of jti a \<longleftrightarrow> ra_online a \<and> ra_tokenJti a = Some jti"

definition sessions :: "string \<Rightarrow> registry \<Rightarrow> nat" where
  "sessions jti r = length (filter (\<lambda>p. session_of jti (snd p)) (agents r))"

lemma sessions_count: "countOnlineByTokenJti r jti None = sessions jti r"
  by (simp add: countOnlineByTokenJti_def sessions_def session_of_def filter_map comp_def)

lemma count_modify_le: "(\<And>a. P (f a) \<Longrightarrow> P a) \<Longrightarrow>
    length (filter (\<lambda>p. P (snd p)) (jm_modify k f m)) \<le> length (filter (\<lambda>p. P (snd p)) m)"
  unfolding jm_modify_def by (induction m) auto

lemma vals_del_le: "length (filter (\<lambda>p. P (snd p)) (jm_del k m)) \<le> length (filter (\<lambda>p. P (snd p)) m)"
  by (induction m) (auto simp: AList.delete_eq)

lemma count_set_le: "jm_get m k = Some a \<Longrightarrow> (P a' \<Longrightarrow> P a) \<Longrightarrow>
    length (filter (\<lambda>p. P (snd p)) (jm_set k a' m)) \<le> length (filter (\<lambda>p. P (snd p)) m)"
  by (induction m) (auto split: if_splits)

lemma count_notin: "k \<notin> fst ` set m \<Longrightarrow> filter (\<lambda>p. fst p \<noteq> k \<and> P (snd p)) m = filter (\<lambda>p. P (snd p)) m"
  by (rule filter_cong) (auto simp: image_iff)

lemma count_set_other:
  "jm_ok m \<Longrightarrow> length (filter (\<lambda>p. P (snd p)) (jm_set k a m)) \<le> Suc (length (filter (\<lambda>p. fst p \<noteq> k \<and> P (snd p)) m))"
  by (induction m) (auto simp: count_notin)

lemma agents_publish: "agents (fst (reg_publish lc d c r)) = agents r
   \<or> (\<exists>a a'. reg_get r d = Some a \<and> agents (fst (reg_publish lc d c r)) = jm_set d a' (agents r) \<and> ra_online a' = ra_online a \<and> ra_tokenJti a' = ra_tokenJti a)
   \<or> (\<exists>a a' a''. reg_get r d = Some a \<and> agents (fst (reg_publish lc d c r)) = jm_set d a'' (jm_set d a' (agents r))
        \<and> ra_online a' = ra_online a \<and> ra_tokenJti a' = ra_tokenJti a \<and> ra_online a'' = ra_online a \<and> ra_tokenJti a'' = ra_tokenJti a)"
  by (auto simp: reg_publish_def reg_put_def addToIndexes_def removeFromIndexes_def Let_def split: option.splits)

lemma sessions_publish: "sessions jti (fst (reg_publish lc d c r)) \<le> sessions jti r"
  using agents_publish [of lc d c r]
proof (elim disjE exE conjE)
  fix a a'
  assume "reg_get r d = Some a" "agents (fst (reg_publish lc d c r)) = jm_set d a' (agents r)"
    "ra_online a' = ra_online a" "ra_tokenJti a' = ra_tokenJti a"
  then show ?thesis by (auto simp: sessions_def session_of_def reg_get_def intro!: count_set_le)
next
  fix a a' a''
  assume a: "reg_get r d = Some a" "agents (fst (reg_publish lc d c r)) = jm_set d a'' (jm_set d a' (agents r))"
    "ra_online a' = ra_online a" "ra_tokenJti a' = ra_tokenJti a" "ra_online a'' = ra_online a" "ra_tokenJti a'' = ra_tokenJti a"
  have "length (filter (\<lambda>p. session_of jti (snd p)) (jm_set d a'' (jm_set d a' (agents r))))
      \<le> length (filter (\<lambda>p. session_of jti (snd p)) (jm_set d a' (agents r)))"
    by (rule count_set_le [of _ _ a']) (use a in \<open>simp_all add: session_of_def\<close>)
  also have "\<dots> \<le> length (filter (\<lambda>p. session_of jti (snd p)) (agents r))"
    by (rule count_set_le [of _ _ a]) (use a in \<open>simp_all add: session_of_def reg_get_def\<close>)
  finally show ?thesis using a(2) by (simp add: sessions_def)
qed (simp add: sessions_def)

lemma sessions_unregister: "sessions jti (reg_unregister lc d r) \<le> sessions jti r"
  using vals_del_le [of "session_of jti" d "agents r"]
  by (auto simp: sessions_def reg_unregister_def removeFromIndexes_def Let_def split: option.split)

lemma sessions_step: "\<not> registers op \<Longrightarrow> sessions jti (reg_step lc rs op r) \<le> sessions jti r"
proof (cases op)
  case (RegCleanup now)
  have "sessions jti (fold (\<lambda>(d, a) r. if \<not> ra_online a \<and> ra_lastSeen a < now - grace_period then reg_unregister lc d r else r) xs r) \<le> sessions jti r"
    for xs :: "(did \<times> registered_agent) list" and r
  proof (induction xs arbitrary: r)
    case (Cons x xs)
    show ?case using Cons.IH [of r] order_trans [OF Cons.IH [of "reg_unregister lc (fst x) r"] sessions_unregister]
      by (auto simp: split_def)
  qed simp
  with RegCleanup show ?thesis by (simp add: reg_cleanup_def)
next
  case (RegPublish d c)
  then show ?thesis by (simp add: sessions_publish)
next
  case (RegUnregister d)
  then show ?thesis by (simp add: sessions_unregister)
qed (auto simp: reg_unpublish_def reg_put_def removeFromIndexes_def reg_markOffline_def
    reg_updateLastSeen_def reg_setOffline_def sessions_def session_of_def reg_get_def intro!: count_modify_le count_set_le split: option.splits)

lemma sessions_evolves: "evolves env r r' \<Longrightarrow> sessions jti r' \<le> sessions jti r"
proof -
  have "\<forall>op \<in> set ops. \<not> registers op \<Longrightarrow> sessions jti (fold (reg_step (re_lc env) (env_ready env)) ops r) \<le> sessions jti r" for ops
  proof (induction ops arbitrary: r)
    case (Cons op ops)
    then have "sessions jti (fold (reg_step (re_lc env) (env_ready env)) ops (reg_step (re_lc env) (env_ready env) op r)) \<le> sessions jti (reg_step (re_lc env) (env_ready env) op r)"
      by simp
    also have "\<dots> \<le> sessions jti r" by (rule sessions_step) (use Cons.prems in simp)
    finally show ?case by simp
  qed simp
  then show "evolves env r r' \<Longrightarrow> sessions jti r' \<le> sessions jti r" unfolding evolves_def by blast
qed

lemma ok_evolves: "evolves env r r' \<Longrightarrow> registry_ok (re_lc env) r \<Longrightarrow> registry_ok (re_lc env) r'"
proof -
  have "registry_ok (re_lc env) r \<Longrightarrow> registry_ok (re_lc env) (fold (reg_step (re_lc env) (env_ready env)) ops r)" for ops
    by (induction ops arbitrary: r) (simp_all add: registry_ok_step)
  then show "evolves env r r' \<Longrightarrow> registry_ok (re_lc env) r \<Longrightarrow> registry_ok (re_lc env) r'" unfolding evolves_def by blast
qed

end
