(* ===== verification/Relay_Sessions_Props.thy ===== *)
theory Relay_Sessions_Props
  imports Relay_Agent_Props
begin

text \<open>
  What an invite token lets in, over whole runs of the relay: the round trip of a token, its DER
  keys, and the number of agents that one token may have online.
\<close>

section \<open>The limit of a token\<close>

lemma count_set_not: "\<not> P a \<Longrightarrow> length (filter (\<lambda>p. P (snd p)) (jm_set k a m)) \<le> length (filter (\<lambda>p. P (snd p)) m)"
  by (induction m) auto

lemma check_token_limit:
  assumes "check_token env reg msg entries = (Inr p, entries')" "tp_maxAgents p = Some n" "0 < n"
  shows "int (countOnlineByTokenJti reg (tp_jti p) (Some (he_did msg))) < n"
  using assms by (auto simp: check_token_def Let_def split: option.splits sum.splits if_splits)

lemma check_token_verified:
  assumes "check_token env reg msg entries = (Inr p, entries')"
  shows "\<exists>tok key. verifyInviteToken (re_token env) (env_now env) tok key = Inr p"
  using assms by (auto simp: check_token_def Let_def split: option.splits sum.splits if_splits)

lemma admit_token:
  assumes "admit_hello env m rt = (Inr (realm, session), rt')" "token_required env"
  obtains p entries where "check_token env (rt_registry rt) m (rt_revocations rt) = (Inr p, entries)"
    "session = Some (tp_jti p, tp_exp p * 1000)"
  using assms by (auto simp: admit_hello_def split: option.splits prod.splits sum.splits if_splits)

lemma admit_did: "admit_hello env m rt = (Inr (realm, session), rt') \<Longrightarrow> re_validDid env (he_did m)"
  by (auto simp: admit_hello_def check_identity_def split: option.splits if_splits)

lemma sessions_except:
  assumes "registry_ok lc r" "d \<noteq> ''''"
  shows "countOnlineByTokenJti r jti (Some d) = length (filter (\<lambda>p. fst p \<noteq> d \<and> session_of jti (snd p)) (agents r))"
proof -
  have "ra_did (snd p) = fst p" if "p \<in> set (agents r)" for p
    using registry_ok_did [OF assms(1), of "fst p" "snd p"] that
    by (simp add: reg_get_def jm_in_set_iff [symmetric] registry_ok_jm [OF assms(1)])
  then have "filter (\<lambda>p. ra_online (snd p) \<and> \<not> (d \<noteq> '''' \<and> ra_did (snd p) = d) \<and> ra_tokenJti (snd p) = Some jti) (agents r)
      = filter (\<lambda>p. fst p \<noteq> d \<and> session_of jti (snd p)) (agents r)"
    by (intro filter_cong) (use assms(2) in \<open>auto simp: session_of_def\<close>)
  then show ?thesis by (simp add: countOnlineByTokenJti_def filter_map comp_def)
qed

lemma agents_register: "\<exists>a. agents (fst (reg_register lc now rs d c w realm jti e r)) = jm_set d a (agents r)
    \<and> ra_online a \<and> ra_tokenJti a = jti"
  by (auto simp: reg_register_def reg_put_def removeFromIndexes_def Let_def split: option.split)

definition token_limit :: "string \<Rightarrow> int \<Rightarrow> ('q, 'p) relay_env \<Rightarrow> bool" where
  "token_limit jti n env \<longleftrightarrow> (\<forall>tok key p. verifyInviteToken (re_token env) (env_now env) tok key = Inr p
      \<longrightarrow> tp_jti p = jti \<longrightarrow> tp_maxAgents p = Some n)"

lemma sessions_hello:
  assumes reg: "hello_registered env w m rt reg" and ok: "registry_ok lc (rt_registry rt)"
    and req: "token_required env" and did: "\<And>d. re_validDid env d \<Longrightarrow> d \<noteq> ''''"
    and lim: "token_limit jti n env" "0 < n" and le: "int (sessions jti (rt_registry rt)) \<le> n"
  shows "int (sessions jti reg) \<le> n"
proof -
  from reg obtain realm session rt' where adm: "admit_hello env m rt = (Inr (realm, session), rt')"
    and r: "reg = fst (reg_register (re_lc env) (env_now env) (env_ready env) (he_did m) (he_card m) w realm
                    (map_option fst session) (map_option snd session) (rt_registry rt))"
    unfolding hello_registered_def by blast
  obtain p entries where tok: "check_token env (rt_registry rt) m (rt_revocations rt) = (Inr p, entries)"
    and s: "session = Some (tp_jti p, tp_exp p * 1000)" by (rule admit_token [OF adm req])
  obtain a where a: "agents reg = jm_set (he_did m) a (agents (rt_registry rt))" "ra_tokenJti a = Some (tp_jti p)"
    using agents_register [of "re_lc env" "env_now env" "env_ready env" "he_did m" "he_card m" w realm "map_option fst session"
      "map_option snd session" "rt_registry rt"] r s by auto
  show ?thesis
  proof (cases "tp_jti p = jti")
    case True
    with lim(1) check_token_verified [OF tok] have "tp_maxAgents p = Some n" by (auto simp: token_limit_def)
    from check_token_limit [OF tok this lim(2)] True sessions_except [OF ok did [OF admit_did [OF adm]]]
    have "int (length (filter (\<lambda>q. fst q \<noteq> he_did m \<and> session_of jti (snd q)) (agents (rt_registry rt)))) < n" by simp
    with count_set_other [OF registry_ok_jm [OF ok], of "session_of jti" "he_did m" a] a show ?thesis
      by (simp add: sessions_def)
  next
    case False
    with a have "\<not> session_of jti a" by (simp add: session_of_def)
    from count_set_not [where P = "session_of jti", OF this, of "he_did m" "agents (rt_registry rt)"] a le show ?thesis
      by (simp add: sessions_def)
  qed
qed

lemma ok_hello: "hello_registered env w m rt reg \<Longrightarrow> registry_ok (re_lc env) (rt_registry rt) \<Longrightarrow> registry_ok (re_lc env) reg"
  by (auto simp: hello_registered_def intro: registry_ok_register)

lemma sessions_relay_step:
  assumes "registry_ok (re_lc env) (rt_registry rt)" "token_required env" "\<And>d. re_validDid env d \<Longrightarrow> d \<noteq> ''''"
    "token_limit jti n env" "0 < n" "int (sessions jti (rt_registry rt)) \<le> n"
  shows "int (sessions jti (rt_registry (fst (relay_step env e rt)))) \<le> n"
    and "registry_ok (re_lc env) (rt_registry (fst (relay_step env e rt)))"
proof -
  let ?r = "rt_registry (fst (relay_step env e rt))"
  have le: "int (sessions jti r') \<le> n" if "evolves env r r'" "int (sessions jti r) \<le> n" for r r'
    using sessions_evolves [OF that(1), of jti] that(2) by linarith
  from relay_step_registry [of env rt e] have "int (sessions jti ?r) \<le> n \<and> registry_ok (re_lc env) ?r"
  proof (elim disjE exE conjE)
    assume "evolves env (rt_registry rt) ?r"
    with assms(1,6) show ?thesis by (blast intro: le ok_evolves)
  next
    fix w m reg assume h: "hello_registered env w m rt reg" and ev: "evolves env reg ?r"
    show ?thesis using le [OF ev sessions_hello [OF h assms]] ok_evolves [OF ev ok_hello [OF h assms(1)]] by simp
  qed
  then show "int (sessions jti ?r) \<le> n" "registry_ok (re_lc env) ?r" by simp_all
qed

lemma sessions_start: "sessions jti (rt_registry (start_relay env stub fed q p)) = 0" (is ?s)
  and ok_start: "registry_ok (re_lc env) (rt_registry (start_relay env stub fed q p))" (is ?o)
proof -
  let ?r = "fst (reg_register (re_lc env) (env_now env) (env_ready env) (env_self env) (self_card (re_fed env)) stub ''public'' None None empty_registry)"
  obtain a where "agents ?r = jm_set (env_self env) a []" "ra_tokenJti a = None"
    using agents_register [of "re_lc env" "env_now env" "env_ready env" "env_self env" "self_card (re_fed env)" stub "''public''" None None
      empty_registry] by (auto simp: empty_registry_def)
  then have "sessions jti ?r = 0" by (simp add: sessions_def session_of_def)
  with sessions_publish [of jti "re_lc env" "env_self env" "Some (self_card (re_fed env))" ?r]
  show ?s by (simp add: start_relay_def registerSelfAsAgent_def Let_def)
  show ?o using ok_evolves [OF evolves_ops(1) [of env ?r], OF registry_ok_register, OF registry_ok_empty]
    by (simp add: start_relay_def registerSelfAsAgent_def Let_def)
qed

text \<open>C14: On a private relay, over any run from its start: if every valid token that carries the
  identifier jti has the limit n, then never are more than n agents online under that token.\<close>

theorem token_capacity:
  assumes "\<forall>(env, e) \<in> set evs. re_lc env = re_lc env0 \<and> token_required env \<and> (\<forall>d. re_validDid env d \<longrightarrow> d \<noteq> '''')
      \<and> token_limit jti n env"
    and "0 < n"
  shows "int (countOnlineByTokenJti (rt_registry (fst (relay_run evs (start_relay env0 stub fed q p)))) jti None) \<le> n"
proof -
  let ?rt = "\<lambda>evs. rt_registry (fst (relay_run evs (start_relay env0 stub fed q p)))"
  have "int (sessions jti (?rt evs)) \<le> n \<and> registry_ok (re_lc env0) (?rt evs)"
    using assms(1)
  proof (induction evs rule: rev_induct)
    case (snoc x evs)
    obtain env e where x: "x = (env, e)" by (cases x)
    with snoc have lc: "re_lc env = re_lc env0" and "token_required env" "\<And>d. re_validDid env d \<Longrightarrow> d \<noteq> ''''" "token_limit jti n env"
      "int (sessions jti (?rt evs)) \<le> n" "registry_ok (re_lc env) (?rt evs)" by auto
    from sessions_relay_step [OF this(6,2,3,4) assms(2) this(5)] show ?case unfolding x by (simp add: lc)
  qed (use assms(2) in \<open>simp add: sessions_start ok_start\<close>)
  then show ?thesis by (simp add: sessions_count)
qed

section \<open>Tokens\<close>

lemma base64url_no_dot: "CHR ''.'' \<notin> set (base64url_encode s)"
proof -
  have "b64_val (CHR ''.'') = None" by code_simp
  then have "base64url_char n \<noteq> CHR ''.''" if "n < 64" for n
    using base64url_filter [of "[n]"] that by (auto simp: List.map_filter_simps)
  moreover have "\<forall>y \<in> set (b64_sextets (map of_char s)). y < (64 :: nat)" by (rule b64_sextets_bound) auto
  ultimately show ?thesis unfolding base64url_encode_def by (metis (no_types, lifting) imageE set_map)
qed

lemma token_parts: "js_split (CHR ''.'') (createInviteToken te p key) =
   [token_header_b64 te, base64url_encode (show_payload te p),
    base64url_encode (ed_sign te (buildEd25519Pkcs8 (take 32 key)) (token_header_b64 te @ ''.'' @ base64url_encode (show_payload te p)))]"
  using base64url_no_dot by (simp add: createInviteToken_def Let_def js_split_append_sep js_split_no_sep token_header_b64_def)

lemma js_split_free: "w \<in> set (js_split c s) \<Longrightarrow> c \<notin> set w"
  by (induction s arbitrary: w) (auto split: if_splits list.splits)

text \<open>The DER form of a key of 32 bytes is the fixed prefix of RFC 8410 and the key.\<close>

lemma der_ed25519: "length key = 32 \<Longrightarrow>
    buildEd25519Spki key = [0x30, 0x2a, 0x30, 0x05, 0x06, 0x03, 0x2b, 0x65, 0x70, 0x03, 0x21, 0x00] @ key
  \<and> buildEd25519Pkcs8 key = [0x30, 0x2e, 0x02, 0x01, 0x00, 0x30, 0x05, 0x06, 0x03, 0x2b, 0x65, 0x70, 0x04, 0x22, 0x04, 0x20] @ key"
  by (simp add: buildEd25519Spki_def buildEd25519Pkcs8_def derSequence_def derLength_def derBitString_def derOctetString_def
      ed25519_oid_def Let_def)










text \<open>C17: A token that the operator creates verifies to its payload until it expires: with a codec that
  restores headers and payloads, and a signature scheme that accepts its own signatures for the
  operator's key pair in DER form, verification returns the payload before the expiry and the expiry error after.\<close>

theorem token_roundtrip:
  assumes header: "parse_header te (show_header te token_head) = Some token_head"
    and payload: "parse_payload te (show_payload te p) = Some p"
    and pair: "length seed = 32" "length pub = 32"
    and signs: "\<And>m. ed_verify te ([0x30, 0x2a, 0x30, 0x05, 0x06, 0x03, 0x2b, 0x65, 0x70, 0x03, 0x21, 0x00] @ pub) m
       (ed_sign te ([0x30, 0x2e, 0x02, 0x01, 0x00, 0x30, 0x05, 0x06, 0x03, 0x2b, 0x65, 0x70, 0x04, 0x22, 0x04, 0x20] @ seed) m)"
  shows "verifyInviteToken te now (createInviteToken te p seed) pub =
     (if tp_exp p < now div 1000 then Inl (TokenExpired (tp_exp p)) else Inr p)"
  using header payload signs pair
  by (simp add: verifyInviteToken_def token_parts der_ed25519 token_head_def token_header_b64_def)

text \<open>C16: No token is accepted that the operator did not issue: when a signature verifies under the
  operator's key only for texts that were signed to issue the tokens \<open>issued\<close>, an accepted token carries
  one of these payloads, unexpired.\<close>

theorem token_unforgeable:
  assumes header: "\<And>q. q \<in> issued \<Longrightarrow> parse_payload te (show_payload te q) = Some q"
    and unforgeable: "\<And>m s. ed_verify te (buildEd25519Spki pub) m s \<Longrightarrow>
        \<exists>q \<in> issued. m = token_header_b64 te @ ''.'' @ base64url_encode (show_payload te q)"
    and accepted: "verifyInviteToken te now tok pub = Inr p"
  shows "p \<in> issued \<and> now div 1000 \<le> tp_exp p"
proof -
  from accepted obtain h b s where parts: "js_split (CHR ''.'') tok = [h, b, s]"
    and v: "ed_verify te (buildEd25519Spki pub) (h @ ''.'' @ b) (base64_decode s)"
    and p: "parse_payload te (base64_decode b) = Some p" "now div 1000 \<le> tp_exp p"
    by (auto simp: verifyInviteToken_def split: list.splits option.splits if_splits)
  from unforgeable [OF v] obtain q where q: "q \<in> issued"
    and m: "h @ ''.'' @ b = token_header_b64 te @ ''.'' @ base64url_encode (show_payload te q)" by blast
  have "h @ CHR ''.'' # b = token_header_b64 te @ CHR ''.'' # base64url_encode (show_payload te q)" using m by simp
  then have "js_split (CHR ''.'') (h @ CHR ''.'' # b)
      = js_split (CHR ''.'') (token_header_b64 te @ CHR ''.'' # base64url_encode (show_payload te q))" by simp
  then have "b = base64url_encode (show_payload te q)"
    using js_split_free [of _ "CHR ''.''" tok] parts base64url_no_dot by (simp add: js_split_append_sep js_split_no_sep token_header_b64_def)
  with p header [OF q] q show ?thesis by simp
qed


section \<open>Witnesses\<close>

definition x_pair :: "(x_renv \<times> relay_event) list" where
  "x_pair = [(x_env (Some []) 5 ''m'', Received 5 None (Hello (x_hello ''b'' (Some (x_tok ''p'')) 5))),
     (x_env (Some []) 6 ''n'', Received 6 None (Hello (x_hello ''c'' (Some (x_tok ''p'')) 6)))]"

lemma x_token_limit: "token_limit jti 1 (x_env key t rnd)"
  by (auto simp: token_limit_def x_env_def x_token_def x_payload_def verifyInviteToken_def split: list.splits option.splits if_splits)

theorem token_capacity_witness:
  "int (countOnlineByTokenJti (rt_registry (fst (relay_run x_pair (start_relay (x_env (Some []) 0 '''') 0 False RBT.empty RBT.empty)))) ''p'' None) \<le> 1"
proof (rule token_capacity)
  show "\<forall>(env, e) \<in> set x_pair. re_lc env = re_lc (x_env (Some []) 0 '''') \<and> token_required env
      \<and> (\<forall>d. re_validDid env d \<longrightarrow> d \<noteq> '''') \<and> token_limit ''p'' 1 env"
    by (simp add: x_pair_def x_token_limit) (simp add: x_env_def token_required_def)
qed simp

theorem token_roundtrip_witness:
  "verifyInviteToken x_token 5000 (createInviteToken x_token (x_payload ''p'') (replicate 32 1)) (replicate 32 2) = Inr (x_payload ''p'')"
  using token_roundtrip [of x_token "x_payload ''p''" "replicate 32 1" "replicate 32 2" 5000]
  by (simp add: x_token_def x_payload_def)

definition x_strict :: token_env where
  "x_strict = x_token\<lparr>ed_verify := (\<lambda>k m s. k = buildEd25519Spki (replicate 32 2) \<and> s = m
     \<and> m = token_header_b64 x_token @ ''.'' @ base64url_encode ''p'')\<rparr>"

theorem token_unforgeable_witness:
  "x_payload ''p'' \<in> {x_payload ''p''} \<and> 5000 div 1000 \<le> tp_exp (x_payload ''p'')"
proof (rule token_unforgeable [where te = x_strict and pub = "replicate 32 2" and tok = "x_tok ''p''"])
  show "verifyInviteToken x_strict 5000 (x_tok ''p'') (replicate 32 2) = Inr (x_payload ''p'')"
    by (simp add: verifyInviteToken_def x_tok_def token_parts)
      (simp add: x_strict_def x_token_def x_payload_def token_header_b64_def token_head_def)
qed (auto simp: x_strict_def x_token_def x_payload_def token_header_b64_def)



end
