(* ===== verification/Relay_Delivery_Props.thy ===== *)
theory Relay_Delivery_Props
  imports Relay_Agent_Props
begin

text \<open>
  What becomes of a message over whole runs of the relay: the steps of the relay act on the queue
  by the queue's operations, so a message that was accepted stays until its recipient is back.
\<close>

section \<open>Steps of the relay as operations of the queue\<close>

text \<open>A step that is not meant to end the life of the record \<open>key\<close>: it does not acknowledge it,
  does not clean up after its deadline, and draws another identifier.\<close>

fun event_keeps :: "string \<Rightarrow> msec \<Rightarrow> ('q, 'p) relay_env \<Rightarrow> relay_event \<Rightarrow> ('q, 'p) relay \<Rightarrow> bool" where
  "event_keeps key deadline env (Received w ip (Ack i)) rt \<longleftrightarrow>
     (case conn_of rt w of AgentConn d \<Rightarrow> queue_key d i \<noteq> key | _ \<Rightarrow> True)"
| "event_keeps key deadline env (Received w ip (SendMsg to e)) rt \<longleftrightarrow> queue_key to (re_rnd env) \<noteq> key"
| "event_keeps key deadline env QueueTimer rt \<longleftrightarrow> env_now env \<le> deadline"
| "event_keeps key deadline env _ rt \<longleftrightarrow> True"

fun run_keeps :: "string \<Rightarrow> msec \<Rightarrow> (('q, 'p) relay_env \<times> relay_event) list \<Rightarrow> ('q, 'p) relay \<Rightarrow> bool" where
  "run_keeps key deadline [] rt \<longleftrightarrow> True"
| "run_keeps key deadline ((env, e) # evs) rt \<longleftrightarrow>
     event_keeps key deadline env e rt \<and> run_keeps key deadline evs (fst (relay_step env e rt))"

definition same_queue :: "('q, stored_msg) level_ops \<Rightarrow> ('q, 'p) relay_env \<Rightarrow> bool" where
  "same_queue ops env \<longleftrightarrow> re_queue env = ops \<and> maxRetries (re_queueConfig env) \<le> 3"

lemma queue_told [simp]: "rt_queue (fst (dispatchEvent env ev d c realm rt)) = rt_queue rt"
  "rt_queue (fst (tellJoined env d cd realm rt)) = rt_queue rt" "rt_queue (fst (tellLeft env d realm rt)) = rt_queue rt"
  by (simp_all add: dispatchEvent_def tellJoined_def tellLeft_def split_def Let_def split: option.split)

lemma queue_events:
  "dispatchEvent env ev d c realm rt = (rt', es) \<Longrightarrow> rt_queue rt' = rt_queue rt"
  "tellJoined env d cd realm rt = (rt', es) \<Longrightarrow> rt_queue rt' = rt_queue rt"
  using queue_told(1) [of env ev d c realm rt] queue_told(2) [of env d cd realm rt] by simp_all

lemma queue_fetched [simp]: "rt_queue (fst (fold fetched_one rs s)) = rt_queue (fst s)"
proof (induction rs arbitrary: s)
  case (Cons r rs)
  have "rt_queue (fst (fetched_one r s)) = rt_queue (fst s)"
    by (simp add: fetched_one_def split_def Let_def split: option.split)
  with Cons show ?case by simp
qed simp

lemma queue_fed [simp]: "rt_queue (fst (fed_relay_step env e rt)) = rt_queue rt"
  by (simp add: fed_relay_step_def apply_fed_def split: option.split)

lemma queue_heartbeat [simp]: "rt_queue (fst (heartbeatCheck env rt)) = rt_queue rt"
proof -
  have "rt_queue (fst (fold (\<lambda>(d, _) (rt, out).
             (let (rt', es) = handleTimeout env d (rt\<lparr>rt_lastPing := jm_del d (rt_lastPing rt)\<rparr>) in (rt', out @ es))) ps (rt, out))) = rt_queue rt"
    for ps :: "(did \<times> msec) list" and out
  proof (induction ps arbitrary: rt out)
    case (Cons p ps)
    have "rt_queue (fst (handleTimeout env d rt)) = rt_queue rt" for d rt
      by (simp add: handleTimeout_def split: option.split)
    with Cons show ?case by (simp add: split_def Let_def)
  qed simp
  then show ?thesis by (simp add: heartbeatCheck_def)
qed

lemma queue_disconnect [simp]: "rt_queue (fst (handleAgentDisconnect env w d rt)) = rt_queue rt"
  by (simp add: handleAgentDisconnect_def Let_def split_def)

lemma queue_prekeys: "handleFetchPreKeyBundle env w r d dev i rt = Some (rt', es) \<Longrightarrow> rt_queue rt' = rt_queue rt"
  by (auto simp: handleFetchPreKeyBundle_def Let_def split: option.splits prod.splits)

text \<open>What a step may do to the queue: it acknowledges for the agent of the socket that sent the ACK,
  stores a message for the agent that sent it, cleans up on its timer; any step may mark a message as
  in flight.\<close>

fun op_allowed :: "('q, 'p) relay_env \<Rightarrow> relay_event \<Rightarrow> ('q, 'p) relay \<Rightarrow> queue_op \<Rightarrow> bool" where
  "op_allowed env e rt (OpInflight now i d) \<longleftrightarrow> now = env_now env"
| "op_allowed env e rt (OpAck i d) \<longleftrightarrow> (\<exists>w ip. e = Received w ip (Ack i) \<and> conn_of rt w = AgentConn d)"
| "op_allowed env e rt (OpEnqueue now i to frm bs) \<longleftrightarrow> now = env_now env \<and> i = re_rnd env
     \<and> (\<exists>w ip envlp. e = Received w ip (SendMsg to envlp) \<and> conn_of rt w = AgentConn frm)"
| "op_allowed env e rt (OpExpire i d) \<longleftrightarrow> False"
| "op_allowed env e rt (OpCleanup now) \<longleftrightarrow> e = QueueTimer \<and> now = env_now env"

definition acts :: "('q, 'p) relay_env \<Rightarrow> (queue_op \<Rightarrow> bool) \<Rightarrow> 'q \<Rightarrow> 'q \<Rightarrow> bool" where
  "acts env P q q' \<longleftrightarrow> (\<exists>os. list_all P os \<and> q' = queue_run (re_queue env) (re_queueConfig env) os q)"

lemma acts_refl [simp]: "acts env P q q"
  unfolding acts_def by (rule exI [of _ "[]"]) (simp add: queue_run_def)

lemma acts_op: "P op \<Longrightarrow> acts env P q (queue_step (re_queue env) (re_queueConfig env) op q)"
  unfolding acts_def by (rule exI [of _ "[op]"]) (simp add: queue_run_def)

lemma acts_trans: "acts env P q s \<Longrightarrow> acts env P s t \<Longrightarrow> acts env P q t"
proof -
  assume "acts env P q s" "acts env P s t"
  then obtain os ps where "list_all P os" "s = queue_run (re_queue env) (re_queueConfig env) os q"
    "list_all P ps" "t = queue_run (re_queue env) (re_queueConfig env) ps s" unfolding acts_def by blast
  then show ?thesis unfolding acts_def by (intro exI [of _ "os @ ps"]) (simp add: queue_run_def)
qed

lemma acts_inflight: "P (OpInflight now i d) \<Longrightarrow> acts env P q q' \<Longrightarrow> acts env P q (markInflight (re_queue env) now i d q')"
  using acts_trans acts_op [of P "OpInflight now i d" env q'] by auto

lemma acts_fold_inflight:
  "(\<And>i. P (OpInflight now i d)) \<Longrightarrow> acts env P q (fold (\<lambda>m q. markInflight (re_queue env) now (messageId m) d q) ms q)"
proof (induction ms arbitrary: q)
  case (Cons m ms)
  have "acts env P q (markInflight (re_queue env) now (messageId m) d q)" by (rule acts_inflight) (simp_all add: Cons.prems)
  from acts_trans [OF this Cons.IH [OF Cons.prems]] show ?case by simp
qed simp

lemma acts_enqueue:
  "enqueue (re_queue env) (re_queueConfig env) now i to frm bs q = Inr (i', q') \<Longrightarrow> P (OpEnqueue now i to frm bs) \<Longrightarrow> acts env P q q'"
  using acts_op [of P "OpEnqueue now i to frm bs" env q] by simp

lemma acts_send:
  assumes "handleSend env frm to e rt = Some (rt', es)" "\<And>bs. P (OpEnqueue (env_now env) (re_rnd env) to frm bs)"
    "\<And>i. P (OpInflight (env_now env) i to)"
  shows "acts env P (rt_queue rt) (rt_queue rt')"
  using assms(1)
  by (auto simp: handleSend_def Let_def dest!: acts_enqueue [where P = P, OF _ assms(2)] intro: acts_inflight [where P = P, OF assms(3)]
      split: if_splits sum.splits option.splits prod.splits)

lemma route_cases:
  assumes "routeMessage env frm to e rt = Some (rt', es)"
  obtains "rt_queue rt' = rt_queue rt" | f es' where "handleSend env frm to e (rt\<lparr>rt_federation := f\<rparr>) = Some (rt', es')"
proof -
  have "handleSend env frm to e rt = Some (rt', es) \<Longrightarrow> thesis" using that(2) [of "rt_federation rt" es] by simp
  with assms that show ?thesis
    by (auto simp: routeMessage_def Let_def split: if_splits sum.splits option.splits prod.splits)
qed

lemma acts_route:
  assumes "routeMessage env frm to e rt = Some (rt', es)" "\<And>bs. P (OpEnqueue (env_now env) (re_rnd env) to frm bs)"
    "\<And>i. P (OpInflight (env_now env) i to)"
  shows "acts env P (rt_queue rt) (rt_queue rt')"
  using assms(1) by (rule route_cases) (auto dest: acts_send [where P = P, OF _ assms(2,3)])

lemma queue_ack: "markAcked (re_queue env) i d q = (r, q') \<Longrightarrow> P (OpAck i d) \<Longrightarrow> acts env P q q'"
  using acts_op [of P "OpAck i d" env q] by simp

lemma acts_dispatch:
  assumes "dispatchAuthenticatedMessage env w d m rt = Some (rt', es)"
    "\<And>i. m = Ack i \<Longrightarrow> P (OpAck i d)" "\<And>to e bs. m = SendMsg to e \<Longrightarrow> P (OpEnqueue (env_now env) (re_rnd env) to d bs)"
    "\<And>i d. P (OpInflight (env_now env) i d)"
  shows "acts env P (rt_queue rt) (rt_queue rt')"
proof (cases m)
  case (SendMsg to e)
  with assms show ?thesis by (auto intro: acts_route)
next
  case (Ack i)
  with assms show ?thesis by (auto simp: handleAck_def Let_def split: prod.splits intro: queue_ack)
qed (use assms in \<open>auto simp: handleDiscover_def handleFetchCard_def handlePing_def recordPing_def handleSubscribe_def
      handleUnsubscribe_def agentEndorse_def agentTrustQuery_def handlePublishCard_def handleUnpublishCard_def handlePublishPreKeys_def Let_def
      split: sum.splits option.splits prod.splits if_splits dest!: queue_prekeys queue_events\<close>)

lemma acts_retry:
  assumes "maxRetries (re_queueConfig env) \<le> 3" "\<And>i d. P (OpInflight (env_now env) i d)"
  shows "acts env P (rt_queue rt) (rt_queue (fst (retryUnackedMessages env rt)))"
proof -
  have "acts env P (rt_queue (fst s)) (rt_queue (fst (fold (retry_one env) ms s)))" if "\<forall>m \<in> set ms. deliveryAttempts m < 3" for ms s
    using that
  proof (induction ms arbitrary: s)
    case (Cons m ms)
    have "acts env P (rt_queue (fst s)) (rt_queue (fst (retry_one env m s)))"
      using Cons.prems assms(2) by (auto simp: retry_one_def split_def Let_def intro: acts_inflight split: option.split)
    from acts_trans [OF this Cons.IH] Cons.prems show ?case by simp
  qed simp
  moreover have "deliveryAttempts m < 3" if "m \<in> set (getMessagesForRetry (re_queue env) (re_queueConfig env) now q)" for m now q
    using that assms(1) by (auto simp: getMessagesForRetry_def normalized_entries_mem due_for_retry_def dest!: normalize_fields)
  ultimately show ?thesis by (auto simp: retryUnackedMessages_def intro: order_trans)
qed

lemma admit_queue: "admit_hello env m rt = (r, rt') \<Longrightarrow> rt_queue rt' = rt_queue rt"
  by (auto simp: admit_hello_def split: option.splits if_splits prod.splits sum.splits)

lemma acts_hello:
  assumes "handleHello env w m rt = (ok, rt', es)" "\<And>i d. P (OpInflight (env_now env) i d)"
  shows "acts env P (rt_queue rt) (rt_queue rt')"
  using assms
  by (auto simp: handleHello_def recordPing_def deliverQueued_def bootstrapEndorse_def Let_def intro!: acts_fold_inflight [where P = P]
      split: prod.splits sum.splits hello_refusal_code.splits if_splits option.splits dest!: admit_queue queue_events(2))

lemma relay_step_acts:
  assumes "maxRetries (re_queueConfig env) \<le> 3"
  shows "acts env (op_allowed env e rt) (rt_queue rt) (rt_queue (fst (relay_step env e rt)))"
proof (cases e)
  case (Received w ip msg)
  show ?thesis
  proof (cases "conn_of rt w")
    case Unauthenticated
    show ?thesis
    proof (cases msg)
      case (Hello m)
      obtain ok rt' es where h: "handleHello env w m rt = (ok, rt', es)" by (cases "handleHello env w m rt")
      with Received Unauthenticated Hello acts_hello [OF h, of "op_allowed env e rt"] show ?thesis
        by (auto simp: relay_step_def on_message_def split: if_splits)
    qed (use Received Unauthenticated in \<open>auto simp: relay_step_def on_message_def split: option.splits prod.splits sum.splits\<close>)
  next
    case (AgentConn d)
    show ?thesis
    proof (cases "dispatchAuthenticatedMessage env w d msg rt")
      case (Some r)
      obtain rt' es where r: "r = (rt', es)" by (cases r)
      have "acts env (op_allowed env e rt) (rt_queue rt) (rt_queue rt')"
        by (rule acts_dispatch [OF Some [unfolded r]]) (use Received AgentConn in auto)
      with Received AgentConn Some r show ?thesis by (simp add: relay_step_def on_message_def)
    qed (use Received AgentConn in \<open>simp add: relay_step_def on_message_def\<close>)
  next
    case (FederationConn d)
    then show ?thesis using Received by (simp add: relay_step_def on_message_def)
  qed
next
  case (Closed w)
  then show ?thesis by (simp add: relay_step_def on_close_def Let_def split: conn_mode.split)
next
  case RetryTimer
  with acts_retry [OF assms, of "op_allowed env e rt" rt] show ?thesis by (simp add: relay_step_def)
next
  case QueueTimer
  with acts_op [of "op_allowed env e rt" "OpCleanup (env_now env)" env "rt_queue rt"] show ?thesis by (simp add: relay_step_def)
next
  case SessionTimer
  then show ?thesis by (simp add: relay_step_def revalidateActiveSessions_def Let_def)
qed (simp_all add: relay_step_def)

text \<open>C13: The queue changes by its operations only, and only as the event warrants: a step of the relay is a
  sequence of queue operations in which a message is stored only for the agent that sent it, is
  acknowledged only by the agent it waits for, is never expired, and is dropped for age only by the
  clean-up timer.\<close>

theorem relay_queue_refinement:
  assumes "maxRetries (re_queueConfig env) \<le> 3"
  shows "\<exists>os. list_all (op_allowed env e rt) os
     \<and> rt_queue (fst (relay_step env e rt)) = queue_run (re_queue env) (re_queueConfig env) os (rt_queue rt)"
  using relay_step_acts [OF assms, of e rt] by (simp add: acts_def)
theorem relay_queue_refinement_witness:
  "\<exists>os. list_all (op_allowed (x_env None 5 ''m'') QueueTimer (x_start None)) os
     \<and> rt_queue (fst (relay_step (x_env None 5 ''m'') QueueTimer (x_start None)))
         = queue_run rbt_level default_queue_config os (rt_queue (x_start None))"
  using relay_queue_refinement [of "x_env None 5 ''m''" QueueTimer "x_start None"] by (simp add: x_env_def default_queue_config_def)

section \<open>An accepted message reaches its recipient\<close>

lemma allowed_preserves:
  "op_allowed env e rt op \<Longrightarrow> event_keeps key deadline env e rt \<Longrightarrow> preserves_key key deadline op"
  by (cases op) auto

lemma relay_run_states: "fst (relay_run evs rt) = fold (\<lambda>(env, e) rt. fst (relay_step env e rt)) evs rt"
proof -
  have "fst (fold (\<lambda>(env, e) (rt, out). (let (rt', es) = relay_step env e rt in (rt', out @ es))) evs s)
      = fold (\<lambda>(env, e) rt. fst (relay_step env e rt)) evs (fst s)" for s :: "('a, 'b) relay \<times> effect list"
    by (induction evs arbitrary: s) (simp_all add: split_def Let_def)
  then show ?thesis by (simp add: relay_run_def)
qed

lemma relay_run_Cons: "fst (relay_run ((env, e) # evs) rt) = fst (relay_run evs (fst (relay_step env e rt)))"
  by (simp add: relay_run_states split_def)

lemma send_accepted:
  assumes "handleSend env frm to envlp rt = Some (rt1, es)" "Send s (DeliveryReport mid Accepted t) \<in> set es"
  obtains bs q where "normalizeEnvelopeBytes envlp = Inr bs"
    "enqueue (re_queue env) (re_queueConfig env) (env_now env) (re_rnd env) to frm (u8_json bs) (rt_queue rt) = Inr (mid, q)"
    "rt_queue rt1 = q \<or> rt_queue rt1 = markInflight (re_queue env) (env_now env) mid to q"
  using assms that
  by (auto simp: handleSend_def sendDeliveryReport_def Let_def split: if_splits sum.splits option.splits prod.splits)

lemma fed_never_reports: "routeToFederation fe r to bs f = (routed, f', es) \<Longrightarrow> Send s (DeliveryReport mid st t) \<notin> set es"
  by (auto simp: routeToFederation_def Let_def split: if_splits option.splits)

lemma route_accepted:
  assumes "routeMessage env frm to envlp rt = Some (rt1, es)" "Send s (DeliveryReport mid Accepted t) \<in> set es"
  shows "\<exists>f. handleSend env frm to envlp (rt\<lparr>rt_federation := f\<rparr>) = Some (rt1, es)"
proof -
  have "handleSend env frm to envlp rt = Some (rt1, es) \<Longrightarrow> ?thesis" by (rule exI [of _ "rt_federation rt"]) simp
  with assms show ?thesis
    by (auto simp: routeMessage_def sendDeliveryReport_def Let_def dest: fed_never_reports
        split: if_splits sum.splits option.splits prod.splits)
qed

lemma hello_realm:
  assumes "handleHello env w m rt = (True, rt', es)" "admit_hello env m rt = (Inr (realm, s), rt2)"
  shows "\<exists>a. reg_get (rt_registry rt') (he_did m) = Some a \<and> ra_realm a = realm"
proof -
  have [simp]: "rt_registry (bootstrapEndorse env d rt) = rt_registry rt" for d rt
    by (simp add: bootstrapEndorse_def Let_def split: option.split)
  have [simp]: "rt_registry (fst (deliverQueued env w d rt)) = rt_registry rt" for d rt
    by (simp add: deliverQueued_def Let_def)
  let ?reg = "fst (reg_register (re_lc env) (env_now env) (env_ready env) (he_did m) (he_card m) w realm
                    (map_option fst s) (map_option snd s) (rt_registry rt2))"
  have "rt_registry rt' = reg_updateLastSeen (env_now env) (he_did m) ?reg"
    using assms by (auto simp: handleHello_def recordPing_def split_def Let_def)
  then show ?thesis
    by (auto simp: reg_register_def reg_updateLastSeen_def reg_put_def reg_get_def Let_def)
qed

lemma enqueue_id: "enqueue ops cfg now i to frm bs q = Inr (i', q') \<Longrightarrow> i' = i"
  by (auto simp: enqueue_def split: if_splits sum.splits)

context queue_store begin

lemma live_relay_step:
  assumes "same_queue ops env" "event_keeps key dl env e rt" "queue_live ops (rt_queue rt) key mid frm bs dl"
  shows "queue_live ops (rt_queue (fst (relay_step env e rt))) key mid frm bs dl"
proof -
  from assms(1) have ops: "re_queue env = ops" and r: "maxRetries (re_queueConfig env) \<le> 3" by (simp_all add: same_queue_def)
  from relay_step_acts [OF r, of e rt] obtain os where os: "list_all (op_allowed env e rt) os"
    "rt_queue (fst (relay_step env e rt)) = queue_run ops (re_queueConfig env) os (rt_queue rt)" by (auto simp: acts_def ops)
  from os(1) assms(2) have "list_all (preserves_key key dl) os" by (auto simp: list_all_iff intro: allowed_preserves)
  with live_run [OF assms(3)] os(2) show ?thesis by simp
qed

lemma live_relay_run:
  "\<forall>(env, e) \<in> set evs. same_queue ops env \<Longrightarrow> run_keeps key dl evs rt \<Longrightarrow> queue_live ops (rt_queue rt) key mid frm bs dl
    \<Longrightarrow> queue_live ops (rt_queue (fst (relay_run evs rt))) key mid frm bs dl"
proof (induction evs arbitrary: rt)
  case (Cons x evs)
  obtain env e where x: "x = (env, e)" by (cases x)
  with Cons.prems have "queue_live ops (rt_queue (fst (relay_step env e rt))) key mid frm bs dl" by (auto intro: live_relay_step)
  with Cons x show ?case by (simp add: relay_run_Cons)
qed simp

lemma accepted_live:
  assumes "handleSend env frm to envlp rt = Some (rt1, es)" "Send s (DeliveryReport mid Accepted t) \<in> set es"
    "re_queue env = ops" "normalizeEnvelopeBytes envlp = Inr bs"
  shows "queue_live ops (rt_queue rt1) (queue_key to mid) mid frm bs (env_now env + ttlMs (re_queueConfig env))"
proof -
  note ops = assms(3)
  obtain q where e: "enqueue ops (re_queueConfig env) (env_now env) (re_rnd env) to frm (u8_json bs) (rt_queue rt) = Inr (mid, q)"
    and q: "rt_queue rt1 = q \<or> rt_queue rt1 = markInflight ops (env_now env) mid to q"
    by (rule send_accepted [OF assms(1,2)]) (use assms(4) in \<open>auto simp: ops\<close>)
  then have enq: "enqueue ops (re_queueConfig env) (env_now env) mid to frm (u8_json bs) (rt_queue rt) = Inr (mid, q)"
    using enqueue_id [OF e] by simp
  from live_enqueue [OF enq] have "queue_live ops q (queue_key to mid) mid frm bs (env_now env + ttlMs (re_queueConfig env))" by simp
  with live_step [of q "queue_key to mid" mid frm bs _ "OpInflight (env_now env) mid to"] q show ?thesis by auto
qed

lemma hello_delivers:
  assumes "handleHello env w m rt = (True, rt', es)" "re_queue env = ops"
    "queue_live ops (rt_queue rt) (queue_key (he_did m) mid) mid frm bs dl"
  shows "Send w (Deliver mid frm bs) \<in> set es"
proof -
  from live_served [OF assms(3)] have "Send w (Deliver mid frm bs) \<in> set (snd (deliverQueued env w (he_did m) rt2))"
    if "rt_queue rt2 = rt_queue rt" for rt2
    using that assms(2) by (auto simp: deliverQueued_def Let_def)
  then show ?thesis using assms(1)
    by (fastforce simp: handleHello_def recordPing_def Let_def split: prod.splits sum.splits hello_refusal_code.splits
        dest!: admit_queue queue_events(2))
qed

end

text \<open>C12: A sender whose SEND was answered by accepted has its message delivered: whatever the relay does
  meanwhile (any events, timers, restarts of connections), as long as the recipient does not acknowledge the
  message, its identifier is not drawn again and the queue's clean-up does not run past its time to
  live, the next accepted HELLO of the recipient is answered with the message, byte for byte.\<close>

theorem accepted_message_delivered:
  assumes store: "level_store ops" and same: "same_queue ops env" "\<forall>(env, e) \<in> set evs. same_queue ops env" "same_queue ops env2"
    and send: "conn_of rt sw = AgentConn frm" "relay_step env (Received sw ip (SendMsg to envlp)) rt = (rt1, es)"
      "Send sw (DeliveryReport mid Accepted t) \<in> set es"
    and bytes: "normalizeEnvelopeBytes envlp = Inr bs"
    and keeps: "run_keeps (queue_key to mid) (env_now env + ttlMs (re_queueConfig env)) evs rt1"
    and hello: "handleHello env2 w m (fst (relay_run evs rt1)) = (True, rt2, es2)" "he_did m = to"
  shows "Send w (Deliver mid frm bs) \<in> set es2"
proof -
  have q: "queue_store ops" using store by (simp add: queue_store_def)
  have "routeMessage env frm to envlp rt = Some (rt1, es)"
    using send by (auto simp: relay_step_def on_message_def split: option.splits)
  with route_accepted [of env frm to envlp rt rt1 es] send(3)
  obtain f where "handleSend env frm to envlp (rt\<lparr>rt_federation := f\<rparr>) = Some (rt1, es)" by blast
  note live = queue_store.accepted_live [OF q this send(3) _ bytes]
  from queue_store.live_relay_run [OF q same(2) keeps live] same(1,3)
  show ?thesis by (intro queue_store.hello_delivers [OF q hello(1)]) (simp_all add: hello(2) same_queue_def)
qed

definition x_two :: x_relay where
  "x_two = fst (relay_step (x_env None 5 ''m'') (Received 5 None (Hello (x_hello ''b'' None 5))) (x_start None))"

definition x_msg :: stored_envelope where
  "x_msg = EnvArr (u8_json [7])"

definition x_send :: "x_relay \<times> effect list" where
  "x_send = relay_step (x_env None 5 ''m'') (Received 5 None (SendMsg ''c'' x_msg)) x_two"

definition x_later :: "(x_renv \<times> relay_event) list" where
  "x_later = [(x_env None 70000 ''n'', RetryTimer), (x_env None 70001 ''n'', QueueTimer), (x_env None 70002 ''n'', Closed 5)]"

theorem accepted_message_delivered_witness:
  "Send 6 (Deliver ''m'' ''b'' [7]) \<in>
     set (snd (snd (handleHello (x_env None 80000 ''k'') 6 (x_hello ''c'' None 80000) (fst (relay_run x_later (fst x_send))))))"
proof (rule accepted_message_delivered [OF rbt_level_store, of "x_env None 5 ''m''" x_later "x_env None 80000 ''k''" x_two 5 "''b''" None "''c''"
      x_msg "fst x_send" "snd x_send" "''m''" 5 "[7]" 6 "x_hello ''c'' None 80000"])
  show "Send 5 (DeliveryReport ''m'' Accepted 5) \<in> set (snd x_send)" by code_simp
  show "run_keeps (queue_key ''c'' ''m'') (env_now (x_env None 5 ''m'') + ttlMs (re_queueConfig (x_env None 5 ''m''))) x_later (fst x_send)"
    by code_simp
  have "fst (handleHello (x_env None 80000 ''k'') 6 (x_hello ''c'' None 80000) (fst (relay_run x_later (fst x_send))))" by code_simp
  then show "handleHello (x_env None 80000 ''k'') 6 (x_hello ''c'' None 80000) (fst (relay_run x_later (fst x_send))) =
    (True, fst (snd (handleHello (x_env None 80000 ''k'') 6 (x_hello ''c'' None 80000) (fst (relay_run x_later (fst x_send))))),
           snd (snd (handleHello (x_env None 80000 ''k'') 6 (x_hello ''c'' None 80000) (fst (relay_run x_later (fst x_send))))))"
    by (simp add: prod_eq_iff)
  show "conn_of x_two 5 = AgentConn ''b''" by code_simp
  show "normalizeEnvelopeBytes x_msg = Inr [7]" by code_simp
  show "relay_step (x_env None 5 ''m'') (Received 5 None (SendMsg ''c'' x_msg)) x_two = (fst x_send, snd x_send)"
    by (simp add: x_send_def)
  show "\<forall>(env, e) \<in> set x_later. same_queue rbt_level env"
    by (simp add: x_later_def same_queue_def x_env_def default_queue_config_def)
  show "he_did (x_hello ''c'' None 80000) = ''c''" by (simp add: x_hello_def)
qed (simp_all add: same_queue_def x_env_def default_queue_config_def)

text \<open>The realm check of SEND is made on the registrations of that moment: a message to an agent that is
  not registered is queued whatever the realms, and delivered when that agent connects, in whatever
  realm its token puts it, so a message can leave the realm of its sender.\<close>

theorem queued_message_crosses_realms:
  assumes store: "level_store (re_queue env)" and same: "re_queue env2 = re_queue env"
    and send: "handleSend env frm to envlp rt = Some (rt1, es)" "Send sw (DeliveryReport mid Accepted t) \<in> set es"
      "normalizeEnvelopeBytes envlp = Inr bs"
    and hello: "admit_hello env2 m rt1 = (Inr (realm, session), rt2)" "he_did m = to"
  shows "\<exists>rt3 es3 a. handleHello env2 w m rt1 = (True, rt3, es3) \<and> Send w (Deliver mid frm bs) \<in> set es3
     \<and> reg_get (rt_registry rt3) to = Some a \<and> ra_realm a = realm"
proof -
  have q: "queue_store (re_queue env)" using store by (simp add: queue_store_def)
  have live: "queue_live (re_queue env) (rt_queue rt1) (queue_key (he_did m) mid) mid frm bs (env_now env + ttlMs (re_queueConfig env))"
    by (rule queue_store.accepted_live [OF q send(1,2) refl send(3), unfolded hello(2) [symmetric]])
  obtain rt3 es3 where h: "handleHello env2 w m rt1 = (True, rt3, es3)"
    using hello(1) by (simp add: handleHello_def Let_def split_def)
  from queue_store.hello_delivers [OF q h same live] have "Send w (Deliver mid frm bs) \<in> set es3" .
  moreover obtain a where "reg_get (rt_registry rt3) to = Some a" "ra_realm a = realm"
    using hello_realm [OF h hello(1)] hello(2) by auto
  ultimately show ?thesis using h by blast
qed

definition x_realm_p :: x_relay where
  "x_realm_p = fst (relay_step (x_env (Some []) 5 ''m'') (Received 5 None (Hello (x_hello ''b'' (Some (x_tok ''p'')) 5))) (x_start (Some [])))"

definition x_sent_p :: "x_relay \<times> effect list" where
  "x_sent_p = (case handleSend (x_env (Some []) 5 ''m'') ''b'' ''c'' x_msg x_realm_p of Some r \<Rightarrow> r | None \<Rightarrow> (x_realm_p, []))"

theorem queued_message_crosses_realms_witness:
  "map_option ra_realm (reg_get (rt_registry x_realm_p) ''b'') = Some ''p''
   \<and> (\<exists>rt3 es3 a. handleHello (x_env (Some []) 9 ''k'') 6 (x_hello ''c'' (Some (x_tok ''q'')) 9) (fst x_sent_p) = (True, rt3, es3)
     \<and> Send 6 (Deliver ''m'' ''b'' [7]) \<in> set es3 \<and> reg_get (rt_registry rt3) ''c'' = Some a \<and> ra_realm a = ''q'')"
proof
  let ?env = "x_env (Some []) 9 ''k''" and ?m = "x_hello ''c'' (Some (x_tok ''q'')) 9"
  show "map_option ra_realm (reg_get (rt_registry x_realm_p) ''b'') = Some ''p''" by code_simp
  have adm: "(case fst (admit_hello ?env ?m (fst x_sent_p)) of Inr (r, _) \<Rightarrow> r = ''q'' | Inl _ \<Rightarrow> False)" by code_simp
  then obtain s rt2 where adm: "admit_hello ?env ?m (fst x_sent_p) = (Inr (''q'', s), rt2)"
    by (cases "admit_hello ?env ?m (fst x_sent_p)") (auto split: sum.splits)
  have "handleSend (x_env (Some []) 5 ''m'') ''b'' ''c'' x_msg x_realm_p \<noteq> None" by code_simp
  then have sent: "handleSend (x_env (Some []) 5 ''m'') ''b'' ''c'' x_msg x_realm_p = Some (fst x_sent_p, snd x_sent_p)"
    by (auto simp: x_sent_p_def)
  have rep: "Send 5 (DeliveryReport ''m'' Accepted 5) \<in> set (snd x_sent_p)" by code_simp
  have bytes: "normalizeEnvelopeBytes x_msg = Inr [7]" by code_simp
  show "\<exists>rt3 es3 a. handleHello ?env 6 ?m (fst x_sent_p) = (True, rt3, es3)
     \<and> Send 6 (Deliver ''m'' ''b'' [7]) \<in> set es3 \<and> reg_get (rt_registry rt3) ''c'' = Some a \<and> ra_realm a = ''q''"
    by (rule queued_message_crosses_realms [OF _ _ sent rep bytes adm])
      (simp_all add: x_env_def rbt_level_store x_hello_def)
qed

text \<open>A socket that was replaced by a newer HELLO of its agent still takes the agent down when it closes: the
  close is handled by DID, so the agent is offline, unpublished and without subscriptions, although
  its new socket stays open and authenticated, and what is then sent to it is only queued.\<close>

theorem replaced_socket_offline:
  assumes old: "conn_of rt w1 = AgentConn d" and new: "conn_of rt w2 = AgentConn d" "w1 \<noteq> w2"
    and agent: "reg_get (rt_registry rt) d = Some a" "ra_ws a = w2"
  shows "let rt' = fst (relay_step env (Closed w1) rt) in conn_of rt' w2 = AgentConn d
    \<and> (\<exists>a'. reg_get (rt_registry rt') d = Some a' \<and> ra_ws a' = w2 \<and> \<not> ra_online a' \<and> \<not> ra_discoverable a')
    \<and> (\<forall>env' frm envlp rt2 es w mid f bs. handleSend env' frm d envlp rt' = Some (rt2, es) \<longrightarrow> Send w (Deliver mid f bs) \<notin> set es)"
proof -
  let ?rt' = "fst (relay_step env (Closed w1) rt)"
  have reg: "rt_registry ?rt' = reg_unpublish (re_lc env) d (reg_markOffline (env_now env) d (rt_registry rt))"
    by (simp add: relay_step_def on_close_def old handleAgentDisconnect_def Let_def split_def)
  have off: "\<exists>a'. reg_get (rt_registry ?rt') d = Some a' \<and> ra_ws a' = w2 \<and> \<not> ra_online a' \<and> \<not> ra_discoverable a'"
    unfolding reg using agent
    by (auto simp: reg_unpublish_def reg_markOffline_def removeFromIndexes_def reg_put_def reg_get_def Let_def)
  have "Send w (Deliver mid f bs) \<notin> set es" if "handleSend env' frm d envlp ?rt' = Some (rt2, es)"
    for env' :: "('a, 'b) relay_env" and frm envlp rt2 es w mid f bs
    using that off by (auto simp: handleSend_def sendDeliveryReport_def Let_def split: if_splits sum.splits option.splits prod.splits)
  moreover have "conn_of ?rt' w2 = AgentConn d"
    using old new by (simp add: relay_step_def on_close_def conn_of_def Let_def)
  ultimately show ?thesis using off by (simp add: Let_def)
qed

definition x_replaced :: x_relay where
  "x_replaced = fst (relay_run [(x_env None 5 ''m'', Received 5 None (Hello (x_hello ''b'' None 5))),
     (x_env None 6 ''n'', Received 6 None (Hello (x_hello ''b'' None 6)))] (x_start None))"

theorem replaced_socket_offline_witness:
  "conn_of (fst (relay_step (x_env None 7 '''') (Closed 5) x_replaced)) 6 = AgentConn ''b''
   \<and> (\<exists>a'. reg_get (rt_registry (fst (relay_step (x_env None 7 '''') (Closed 5) x_replaced))) ''b'' = Some a' \<and> ra_ws a' = 6 \<and> \<not> ra_online a')"
proof -
  have "conn_of x_replaced 5 = AgentConn ''b''" "conn_of x_replaced 6 = AgentConn ''b''" by code_simp+
  moreover have "map_option ra_ws (reg_get (rt_registry x_replaced) ''b'') = Some 6" by code_simp
  then obtain a where "reg_get (rt_registry x_replaced) ''b'' = Some a" "ra_ws a = 6" by auto
  ultimately show ?thesis using replaced_socket_offline [of x_replaced 5 "''b''" 6 a "x_env None 7 ''''"] by (auto simp: Let_def)
qed

end
