(* ===== verification/E2E_Crypto.thy ===== *)
theory E2E_Crypto
  imports Js_Text
begin

text \<open>
  The cryptographic layer of the end-to-end encryption, \<open>js/core/protocol/src/e2e/x25519.ts\<close> and
  \<open>x3dh.ts\<close>. What Node and the noble libraries compute is the parameter \<open>crypto\<close>: X25519 on DER
  keys (\<open>None\<close> where Node throws), HKDF-SHA256 (which does not throw for the lengths used here),
  XChaCha20-Poly1305, Ed25519 and base58, and the CBOR codec. The wrapping of keys, the checks of lengths, the hexadecimal forms
  and the errors are the code's.
\<close>

section \<open>Errors\<close>

datatype e2e_error = EncryptionError string | IdentityError string | MessagingError string | JsError string

text \<open>A computation that throws is \<open>Inl\<close>; \<open>and_then\<close> runs the rest when nothing was thrown, \<open>rethrow\<close>
  is \<open>catch (error) { throw new EncryptionError(msg, error) }\<close>.\<close>

definition and_then :: "'e + 'a \<Rightarrow> ('a \<Rightarrow> 'e + 'b) \<Rightarrow> 'e + 'b" where
  "and_then r f = (case r of Inl e \<Rightarrow> Inl e | Inr x \<Rightarrow> f x)"

definition rethrow :: "string \<Rightarrow> e2e_error + 'a \<Rightarrow> e2e_error + 'a" where
  "rethrow msg r = (case r of Inl _ \<Rightarrow> Inl (EncryptionError msg) | Inr x \<Rightarrow> Inr x)"

definition of_option :: "'e \<Rightarrow> 'a option \<Rightarrow> 'e + 'a" where
  "of_option e r = (case r of None \<Rightarrow> Inl e | Some x \<Rightarrow> Inr x)"

lemma and_then_simps [simp]: "and_then (Inl e) f = Inl e" "and_then (Inr x) f = f x"
  by (simp_all add: and_then_def)

lemma and_then_Inr: "and_then r f = Inr y \<longleftrightarrow> (\<exists>x. r = Inr x \<and> f x = Inr y)"
  by (cases r) simp_all

lemma rethrow_simps [simp]: "rethrow msg (Inr x) = Inr x" "rethrow msg (Inl e) = Inl (EncryptionError msg)"
  "rethrow msg r = Inr y \<longleftrightarrow> r = Inr y"
  by (simp_all add: rethrow_def split: sum.split)

lemma of_option_simps [simp]: "of_option e (Some x) = Inr x" "of_option e None = Inl e"
  "of_option e r = Inr y \<longleftrightarrow> r = Some y"
  by (simp_all add: of_option_def split: option.split)

section \<open>Bytes\<close>

definition concatBytes :: "bytes list \<Rightarrow> bytes" where
  "concatBytes parts = concat parts"

definition utf8ToBytes :: "string \<Rightarrow> bytes" where
  "utf8ToBytes s = map (\<lambda>c. of_nat (of_char c)) s"

definition hex_digit :: "nat \<Rightarrow> char" where
  "hex_digit n = (if n < 10 then char_of (48 + n) else char_of (87 + n))"

definition hex_value :: "char \<Rightarrow> nat option" where
  "hex_value c = (let n = of_char c :: nat in
     if 48 \<le> n \<and> n \<le> 57 then Some (n - 48)
     else if 97 \<le> n \<and> n \<le> 102 then Some (n - 87)
     else if 65 \<le> n \<and> n \<le> 70 then Some (n - 55) else None)"

definition bytesToHex :: "bytes \<Rightarrow> string" where
  "bytesToHex bs = concat (map (\<lambda>b. [hex_digit (unat b div 16), hex_digit (unat b mod 16)]) bs)"

text \<open>\<open>Buffer.from(value, 'hex')\<close> stops at the first pair that is not hexadecimal, and drops a last
  single digit.\<close>

fun hexToBytes :: "string \<Rightarrow> bytes" where
  "hexToBytes (a # b # r) = (case (hex_value a, hex_value b) of
     (Some x, Some y) \<Rightarrow> of_nat (16 * x + y) # hexToBytes r | _ \<Rightarrow> [])"
| "hexToBytes _ = []"

lemma hex_value_digit [simp]: "n < 16 \<Longrightarrow> hex_value (hex_digit n) = Some n"
  by (simp add: hex_value_def hex_digit_def Let_def)

lemma hexToBytes_bytesToHex [simp]: "hexToBytes (bytesToHex bs) = bs"
proof (induction bs)
  case (Cons b bs)
  have "unat b < 256" using unsigned_less [of b, where ?'a = nat] by simp
  then have "unat b div 16 < 16" by simp
  moreover have "16 * (unat b div 16) + unat b mod 16 = unat b" by simp
  ultimately show ?case using Cons by (simp add: bytesToHex_def del: of_nat_add of_nat_mult)
qed (simp add: bytesToHex_def)

lemma bytesToHex_inject [simp]: "bytesToHex a = bytesToHex b \<longleftrightarrow> a = b"
  by (metis hexToBytes_bytesToHex)

lemma bytesToHex_Nil [simp]: "bytesToHex bs = [] \<longleftrightarrow> bs = []"
  by (cases bs) (simp_all add: bytesToHex_def)

section \<open>What the platform provides\<close>

datatype cbor = CNull | CBool bool | CNum rat | CStr string | CBytes bytes | CArr "cbor list" | CMap "(string \<times> cbor) list"

record crypto =
  node_dh :: "bytes \<Rightarrow> bytes \<Rightarrow> bytes option"
  node_public :: "bytes \<Rightarrow> bytes option"
  noble_hkdf :: "bytes \<Rightarrow> bytes \<Rightarrow> bytes \<Rightarrow> nat \<Rightarrow> bytes"
  noble_encrypt :: "bytes \<Rightarrow> bytes \<Rightarrow> bytes \<Rightarrow> bytes \<Rightarrow> bytes"
  noble_decrypt :: "bytes \<Rightarrow> bytes \<Rightarrow> bytes \<Rightarrow> bytes \<Rightarrow> bytes option"
  noble_sign :: "bytes \<Rightarrow> bytes \<Rightarrow> bytes option"
  noble_verify :: "bytes \<Rightarrow> bytes \<Rightarrow> bytes \<Rightarrow> bool option"
  base58btc_encode :: "bytes \<Rightarrow> string"
  base58btc_decode :: "string \<Rightarrow> bytes option"
  encodeCBOR :: "cbor \<Rightarrow> bytes"
  decodeCBOR :: "bytes \<Rightarrow> cbor option"

section \<open>Identities\<close>

text \<open>\<open>identity/keys.ts\<close> and \<open>identity/did.ts\<close>; the identity keys are Ed25519 keys.\<close>

definition identity_sign :: "crypto \<Rightarrow> bytes \<Rightarrow> bytes \<Rightarrow> e2e_error + bytes" where
  "identity_sign c message privateKey = of_option (IdentityError ''Failed to sign message'') (noble_sign c message privateKey)"

definition identity_verify :: "crypto \<Rightarrow> bytes \<Rightarrow> bytes \<Rightarrow> bytes \<Rightarrow> e2e_error + bool" where
  "identity_verify c signature message publicKey =
     of_option (IdentityError ''Failed to verify signature'') (noble_verify c signature message publicKey)"

definition deriveDID :: "crypto \<Rightarrow> bytes \<Rightarrow> did" where
  "deriveDID c publicKey = ''did:agent:'' @ base58btc_encode c publicKey"

definition extractPublicKey :: "crypto \<Rightarrow> did \<Rightarrow> e2e_error + bytes" where
  "extractPublicKey c did =
     (if \<not> js_startsWith did ''did:agent:'' then Inl (IdentityError ''Invalid DID format: must start with did:agent:'')
      else of_option (IdentityError ''Failed to extract public key from DID'') (base58btc_decode c (drop (length ''did:agent:'') did)))"

definition validateDID :: "crypto \<Rightarrow> did \<Rightarrow> bool" where
  "validateDID c did \<longleftrightarrow> js_startsWith did ''did:agent:'' \<and> base58btc_decode c (drop (length ''did:agent:'') did) \<noteq> None"

section \<open>X25519\<close>

record x25519_pair =
  kp_public :: bytes
  kp_private :: bytes

definition X25519_PKCS8_PREFIX :: bytes where
  "X25519_PKCS8_PREFIX = [0x30, 0x2e, 0x02, 0x01, 0x00, 0x30, 0x05, 0x06, 0x03, 0x2b, 0x65, 0x6e, 0x04, 0x22, 0x04, 0x20]"

definition X25519_SPKI_PREFIX :: bytes where
  "X25519_SPKI_PREFIX = [0x30, 0x2a, 0x30, 0x05, 0x06, 0x03, 0x2b, 0x65, 0x6e, 0x03, 0x21, 0x00]"

definition validateRawKeyLength :: "bytes \<Rightarrow> string \<Rightarrow> e2e_error + unit" where
  "validateRawKeyLength key label = (if length key \<noteq> 32 then Inl (EncryptionError (label @ '' must be 32 bytes'')) else Inr ())"

definition validateNonceLength :: "bytes \<Rightarrow> e2e_error + unit" where
  "validateNonceLength nonce = (if length nonce \<noteq> 24 then Inl (EncryptionError ''XChaCha20-Poly1305 nonce must be 24 bytes'') else Inr ())"

definition wrapPkcs8 :: "bytes \<Rightarrow> e2e_error + bytes" where
  "wrapPkcs8 privateKey = and_then (validateRawKeyLength privateKey ''X25519 private key'') (\<lambda>_. Inr (X25519_PKCS8_PREFIX @ privateKey))"

definition unwrapPkcs8 :: "bytes \<Rightarrow> e2e_error + bytes" where
  "unwrapPkcs8 der = (if take (length X25519_PKCS8_PREFIX) der \<noteq> X25519_PKCS8_PREFIX
     then Inl (EncryptionError ''Unsupported X25519 PKCS8 prefix'') else Inr (drop (length X25519_PKCS8_PREFIX) der))"

definition unwrapSpki :: "bytes \<Rightarrow> e2e_error + bytes" where
  "unwrapSpki der = (if take (length X25519_SPKI_PREFIX) der \<noteq> X25519_SPKI_PREFIX
     then Inl (EncryptionError ''Unsupported X25519 SPKI prefix'') else Inr (drop (length X25519_SPKI_PREFIX) der))"

definition importPublicKey :: "bytes \<Rightarrow> e2e_error + bytes" where
  "importPublicKey publicKey = and_then (validateRawKeyLength publicKey ''X25519 public key'') (\<lambda>_. Inr (X25519_SPKI_PREFIX @ publicKey))"

text \<open>\<open>exported\<close> is the pair in DER form that the platform draws, private key first.\<close>

definition generateX25519KeyPair :: "bytes \<times> bytes \<Rightarrow> e2e_error + x25519_pair" where
  "generateX25519KeyPair exported = rethrow ''Failed to generate X25519 key pair''
     (and_then (unwrapPkcs8 (fst exported)) (\<lambda>priv. and_then (unwrapSpki (snd exported)) (\<lambda>pub.
        Inr \<lparr>kp_public = pub, kp_private = priv\<rparr>)))"

definition deriveX25519PublicKey :: "crypto \<Rightarrow> bytes \<Rightarrow> e2e_error + bytes" where
  "deriveX25519PublicKey c privateKey = rethrow ''Failed to derive X25519 public key''
     (and_then (wrapPkcs8 privateKey) (\<lambda>der. and_then (of_option (JsError ''createPublicKey'') (node_public c der)) unwrapSpki))"

definition diffieHellmanX25519 :: "crypto \<Rightarrow> bytes \<Rightarrow> bytes \<Rightarrow> e2e_error + bytes" where
  "diffieHellmanX25519 c privateKey publicKey = rethrow ''Failed to derive X25519 shared secret''
     (and_then (wrapPkcs8 privateKey) (\<lambda>priv. and_then (importPublicKey publicKey) (\<lambda>pub.
        of_option (JsError ''diffieHellman'') (node_dh c priv pub))))"

definition hkdfSha256 :: "crypto \<Rightarrow> bytes \<Rightarrow> bytes \<Rightarrow> bytes \<Rightarrow> nat \<Rightarrow> bytes" where
  "hkdfSha256 c ikm salt info n = noble_hkdf c ikm salt info n"

definition encryptXChaCha20Poly1305 :: "crypto \<Rightarrow> bytes \<Rightarrow> bytes \<Rightarrow> bytes \<Rightarrow> bytes \<Rightarrow> e2e_error + bytes" where
  "encryptXChaCha20Poly1305 c key nonce plaintext ad = rethrow ''Failed to encrypt with XChaCha20-Poly1305''
     (and_then (validateRawKeyLength key ''XChaCha20-Poly1305 key'') (\<lambda>_. and_then (validateNonceLength nonce) (\<lambda>_.
        Inr (noble_encrypt c key nonce ad plaintext))))"

definition decryptXChaCha20Poly1305 :: "crypto \<Rightarrow> bytes \<Rightarrow> bytes \<Rightarrow> bytes \<Rightarrow> bytes \<Rightarrow> e2e_error + bytes" where
  "decryptXChaCha20Poly1305 c key nonce ciphertext ad = rethrow ''Failed to decrypt with XChaCha20-Poly1305''
     (and_then (validateRawKeyLength key ''XChaCha20-Poly1305 key'') (\<lambda>_. and_then (validateNonceLength nonce) (\<lambda>_.
        of_option (JsError ''decrypt'') (noble_decrypt c key nonce ad ciphertext))))"

section \<open>X3DH\<close>

definition X3DH_INFO :: string where "X3DH_INFO = ''quadra-a/e2e/x3dh/v1''"
definition X3DH_SALT :: string where "X3DH_SALT = ''quadra-a/e2e/x3dh/salt/v1''"

definition deriveX3dhSharedSecret :: "crypto \<Rightarrow> bytes list \<Rightarrow> bytes" where
  "deriveX3dhSharedSecret c parts = hkdfSha256 c (concatBytes parts) (utf8ToBytes X3DH_SALT) (utf8ToBytes X3DH_INFO) 32"

record x3dh_initiator =
  xi_identityPrivate :: bytes
  xi_ephemeralPrivate :: bytes
  xi_recipientIdentityPublic :: bytes
  xi_recipientSignedPreKeyPublic :: bytes
  xi_recipientOneTimePreKeyPublic :: "bytes option"

record x3dh_responder =
  xr_recipientIdentityPrivate :: bytes
  xr_recipientSignedPreKeyPrivate :: bytes
  xr_initiatorIdentityPublic :: bytes
  xr_initiatorEphemeralPublic :: bytes
  xr_recipientOneTimePreKeyPrivate :: "bytes option"

fun sequence_results :: "('e + 'a) list \<Rightarrow> 'e + 'a list" where
  "sequence_results [] = Inr []"
| "sequence_results (r # rs) = and_then r (\<lambda>x. and_then (sequence_results rs) (\<lambda>xs. Inr (x # xs)))"

definition deriveX3dhInitiatorSharedSecret :: "crypto \<Rightarrow> x3dh_initiator \<Rightarrow> e2e_error + bytes" where
  "deriveX3dhInitiatorSharedSecret c i = rethrow ''Failed to derive initiator X3DH shared secret''
     (and_then (sequence_results
        ([diffieHellmanX25519 c (xi_identityPrivate i) (xi_recipientSignedPreKeyPublic i),
          diffieHellmanX25519 c (xi_ephemeralPrivate i) (xi_recipientIdentityPublic i),
          diffieHellmanX25519 c (xi_ephemeralPrivate i) (xi_recipientSignedPreKeyPublic i)]
         @ (case xi_recipientOneTimePreKeyPublic i of
              None \<Rightarrow> [] | Some k \<Rightarrow> [diffieHellmanX25519 c (xi_ephemeralPrivate i) k])))
        (\<lambda>parts. Inr (deriveX3dhSharedSecret c parts)))"

definition deriveX3dhResponderSharedSecret :: "crypto \<Rightarrow> x3dh_responder \<Rightarrow> e2e_error + bytes" where
  "deriveX3dhResponderSharedSecret c i = rethrow ''Failed to derive responder X3DH shared secret''
     (and_then (sequence_results
        ([diffieHellmanX25519 c (xr_recipientSignedPreKeyPrivate i) (xr_initiatorIdentityPublic i),
          diffieHellmanX25519 c (xr_recipientIdentityPrivate i) (xr_initiatorEphemeralPublic i),
          diffieHellmanX25519 c (xr_recipientSignedPreKeyPrivate i) (xr_initiatorEphemeralPublic i)]
         @ (case xr_recipientOneTimePreKeyPrivate i of
              None \<Rightarrow> [] | Some k \<Rightarrow> [diffieHellmanX25519 c k (xr_initiatorEphemeralPublic i)])))
        (\<lambda>parts. Inr (deriveX3dhSharedSecret c parts)))"

end
