(* ===== verification/E2E_Messages.thy ===== *)
theory E2E_Messages
  imports E2E_Crypto
begin

text \<open>
  The wire messages of the end-to-end encryption, \<open>js/core/protocol/src/e2e/messages.ts\<close> with the types of
  \<open>types.ts\<close>. The type tag of a message is the type of its record. A decoded field that does not have
  its declared type is an error here; the code checks the byte fields only and carries other values on.
\<close>

definition E2E_PROTOCOL_VERSION :: int where "E2E_PROTOCOL_VERSION = 1"

record prekey_header =
  pm_version :: int
  pm_senderDid :: did
  pm_receiverDid :: did
  pm_senderDeviceId :: string
  pm_receiverDeviceId :: string
  pm_sessionId :: string
  pm_messageId :: string
  pm_initiatorIdentityKey :: bytes
  pm_initiatorEphemeralKey :: bytes
  pm_recipientSignedPreKeyId :: int
  pm_recipientOneTimePreKeyId :: "rat option"
  pm_nonce :: bytes

record prekey_message = prekey_header +
  pm_ciphertext :: bytes

record session_header =
  sm_version :: int
  sm_senderDid :: did
  sm_receiverDid :: did
  sm_senderDeviceId :: string
  sm_receiverDeviceId :: string
  sm_sessionId :: string
  sm_messageId :: string
  sm_ratchetPublicKey :: bytes
  sm_previousChainLength :: int
  sm_messageNumber :: int
  sm_nonce :: bytes

record session_message = session_header +
  sm_ciphertext :: bytes

datatype e2e_message = PreKeyMessage prekey_message | SessionMessage session_message

section \<open>Encryption with associated data\<close>

abbreviation cint :: "int \<Rightarrow> cbor" where "cint n \<equiv> CNum (of_int n)"

definition prekey_fields :: "'x prekey_header_scheme \<Rightarrow> (string \<times> cbor) list" where
  "prekey_fields m =
     [(''version'', cint (pm_version m)), (''type'', CStr ''PREKEY_MESSAGE''), (''senderDid'', CStr (pm_senderDid m)),
      (''receiverDid'', CStr (pm_receiverDid m)), (''senderDeviceId'', CStr (pm_senderDeviceId m)),
      (''receiverDeviceId'', CStr (pm_receiverDeviceId m)), (''sessionId'', CStr (pm_sessionId m)),
      (''messageId'', CStr (pm_messageId m)), (''initiatorIdentityKey'', CBytes (pm_initiatorIdentityKey m)),
      (''initiatorEphemeralKey'', CBytes (pm_initiatorEphemeralKey m)),
      (''recipientSignedPreKeyId'', cint (pm_recipientSignedPreKeyId m))]
     @ (case pm_recipientOneTimePreKeyId m of Some k \<Rightarrow> [(''recipientOneTimePreKeyId'', CNum k)] | None \<Rightarrow> [])
     @ [(''nonce'', CBytes (pm_nonce m))]"

definition buildPreKeyMessageAssociatedData :: "crypto \<Rightarrow> 'x prekey_header_scheme \<Rightarrow> bytes" where
  "buildPreKeyMessageAssociatedData c m = encodeCBOR c (CMap (prekey_fields m))"

definition session_fields :: "'x session_header_scheme \<Rightarrow> (string \<times> cbor) list" where
  "session_fields m =
     [(''version'', cint (sm_version m)), (''type'', CStr ''SESSION_MESSAGE''), (''senderDid'', CStr (sm_senderDid m)),
      (''receiverDid'', CStr (sm_receiverDid m)), (''senderDeviceId'', CStr (sm_senderDeviceId m)),
      (''receiverDeviceId'', CStr (sm_receiverDeviceId m)), (''sessionId'', CStr (sm_sessionId m)),
      (''messageId'', CStr (sm_messageId m)), (''ratchetPublicKey'', CBytes (sm_ratchetPublicKey m)),
      (''previousChainLength'', cint (sm_previousChainLength m)), (''messageNumber'', cint (sm_messageNumber m)),
      (''nonce'', CBytes (sm_nonce m))]"

definition buildSessionMessageAssociatedData :: "crypto \<Rightarrow> 'x session_header_scheme \<Rightarrow> bytes" where
  "buildSessionMessageAssociatedData c m = encodeCBOR c (CMap (session_fields m))"

definition encryptPreKeyMessage :: "crypto \<Rightarrow> prekey_header \<Rightarrow> bytes \<Rightarrow> bytes \<Rightarrow> e2e_error + prekey_message" where
  "encryptPreKeyMessage c h key plaintext =
     and_then (encryptXChaCha20Poly1305 c key (pm_nonce h) plaintext (buildPreKeyMessageAssociatedData c h))
       (\<lambda>ct. Inr (prekey_header.extend h (prekey_message.fields ct)))"

definition decryptPreKeyMessage :: "crypto \<Rightarrow> prekey_message \<Rightarrow> bytes \<Rightarrow> e2e_error + bytes" where
  "decryptPreKeyMessage c m key =
     decryptXChaCha20Poly1305 c key (pm_nonce m) (pm_ciphertext m) (buildPreKeyMessageAssociatedData c m)"

definition encryptSessionMessage :: "crypto \<Rightarrow> session_header \<Rightarrow> bytes \<Rightarrow> bytes \<Rightarrow> e2e_error + session_message" where
  "encryptSessionMessage c h key plaintext =
     and_then (encryptXChaCha20Poly1305 c key (sm_nonce h) plaintext (buildSessionMessageAssociatedData c h))
       (\<lambda>ct. Inr (session_header.extend h (session_message.fields ct)))"

definition decryptSessionMessage :: "crypto \<Rightarrow> session_message \<Rightarrow> bytes \<Rightarrow> e2e_error + bytes" where
  "decryptSessionMessage c m key =
     decryptXChaCha20Poly1305 c key (sm_nonce m) (sm_ciphertext m) (buildSessionMessageAssociatedData c m)"

section \<open>The wire form\<close>

text \<open>The code encodes the object; its keys are in the order in which the object was built, the
  ciphertext last.\<close>

definition encodePreKeyMessage :: "crypto \<Rightarrow> prekey_message \<Rightarrow> bytes" where
  "encodePreKeyMessage c m = encodeCBOR c (CMap (prekey_fields m @ [(''ciphertext'', CBytes (pm_ciphertext m))]))"

definition encodeSessionMessage :: "crypto \<Rightarrow> session_message \<Rightarrow> bytes" where
  "encodeSessionMessage c m = encodeCBOR c (CMap (session_fields m @ [(''ciphertext'', CBytes (sm_ciphertext m))]))"

definition byte_of_cbor :: "cbor \<Rightarrow> byte option" where
  "byte_of_cbor v = (case v of CNum q \<Rightarrow> if q = of_int \<lfloor>q\<rfloor> \<and> 0 \<le> q \<and> q \<le> 255 then Some (word_of_int \<lfloor>q\<rfloor>) else None | _ \<Rightarrow> None)"

definition asBytes :: "cbor option \<Rightarrow> string \<Rightarrow> e2e_error + bytes" where
  "asBytes v label = (case v of
     Some (CBytes bs) \<Rightarrow> Inr bs
   | Some (CArr xs) \<Rightarrow> if list_all (\<lambda>x. byte_of_cbor x \<noteq> None) xs then Inr (map (the \<circ> byte_of_cbor) xs)
       else Inl (EncryptionError (''Invalid '' @ label @ '': expected byte array''))
   | _ \<Rightarrow> Inl (EncryptionError (''Invalid '' @ label @ '': expected byte array'')))"

definition as_int :: "cbor option \<Rightarrow> e2e_error + int" where
  "as_int v = (case v of Some (CNum q) \<Rightarrow> if q = of_int \<lfloor>q\<rfloor> then Inr \<lfloor>q\<rfloor> else Inl (JsError ''number'') | _ \<Rightarrow> Inl (JsError ''number''))"

definition as_string :: "cbor option \<Rightarrow> e2e_error + string" where
  "as_string v = (case v of Some (CStr s) \<Rightarrow> Inr s | _ \<Rightarrow> Inl (JsError ''string''))"

definition validateCommonFields :: "(string \<times> cbor) list \<Rightarrow> string \<Rightarrow> e2e_error + unit" where
  "validateCommonFields m expected =
     (if map_of m ''version'' \<noteq> Some (cint E2E_PROTOCOL_VERSION) then Inl (EncryptionError (''Invalid '' @ expected @ '' version''))
      else if map_of m ''type'' \<noteq> Some (CStr expected) then Inl (EncryptionError ''Invalid message type'')
      else Inr ())"

definition decode_fields :: "crypto \<Rightarrow> bytes \<Rightarrow> string \<Rightarrow> e2e_error + (string \<times> cbor) list" where
  "decode_fields c bs expected = (case decodeCBOR c bs of
     Some (CMap m) \<Rightarrow> and_then (validateCommonFields m expected) (\<lambda>_. Inr m)
   | _ \<Rightarrow> Inl (EncryptionError (''Invalid '' @ expected @ '' version'')))"

definition decodePreKeyMessage :: "crypto \<Rightarrow> bytes \<Rightarrow> e2e_error + prekey_message" where
  "decodePreKeyMessage c bs = and_then (decode_fields c bs ''PREKEY_MESSAGE'') (\<lambda>m.
     and_then (sequence_results (map (\<lambda>k. as_string (map_of m k))
        [''senderDid'', ''receiverDid'', ''senderDeviceId'', ''receiverDeviceId'', ''sessionId'', ''messageId''])) (\<lambda>strs.
     and_then (sequence_results (map (\<lambda>k. asBytes (map_of m k) k)
        [''initiatorIdentityKey'', ''initiatorEphemeralKey'', ''nonce'', ''ciphertext''])) (\<lambda>bss.
     and_then (as_int (map_of m ''recipientSignedPreKeyId'')) (\<lambda>spk.
     let otk = (case map_of m ''recipientOneTimePreKeyId'' of Some (CNum q) \<Rightarrow> Some q | _ \<Rightarrow> None)
     in Inr \<lparr>pm_version = E2E_PROTOCOL_VERSION, pm_senderDid = strs ! 0, pm_receiverDid = strs ! 1, pm_senderDeviceId = strs ! 2,
       pm_receiverDeviceId = strs ! 3, pm_sessionId = strs ! 4, pm_messageId = strs ! 5, pm_initiatorIdentityKey = bss ! 0,
       pm_initiatorEphemeralKey = bss ! 1, pm_recipientSignedPreKeyId = spk, pm_recipientOneTimePreKeyId = otk,
       pm_nonce = bss ! 2, pm_ciphertext = bss ! 3\<rparr>))))"

definition decodeSessionMessage :: "crypto \<Rightarrow> bytes \<Rightarrow> e2e_error + session_message" where
  "decodeSessionMessage c bs = and_then (decode_fields c bs ''SESSION_MESSAGE'') (\<lambda>m.
     and_then (sequence_results (map (\<lambda>k. as_string (map_of m k))
        [''senderDid'', ''receiverDid'', ''senderDeviceId'', ''receiverDeviceId'', ''sessionId'', ''messageId''])) (\<lambda>strs.
     and_then (sequence_results (map (\<lambda>k. asBytes (map_of m k) k) [''ratchetPublicKey'', ''nonce'', ''ciphertext''])) (\<lambda>bss.
     and_then (as_int (map_of m ''previousChainLength'')) (\<lambda>prev.
     and_then (as_int (map_of m ''messageNumber'')) (\<lambda>num.
     Inr \<lparr>sm_version = E2E_PROTOCOL_VERSION, sm_senderDid = strs ! 0, sm_receiverDid = strs ! 1, sm_senderDeviceId = strs ! 2,
       sm_receiverDeviceId = strs ! 3, sm_sessionId = strs ! 4, sm_messageId = strs ! 5, sm_ratchetPublicKey = bss ! 0,
       sm_previousChainLength = prev, sm_messageNumber = num, sm_nonce = bss ! 1, sm_ciphertext = bss ! 2\<rparr>)))))"

section \<open>Round trips\<close>

lemma as_int_cint [simp]: "as_int (Some (cint n)) = Inr n"
  by (simp add: as_int_def)

lemma as_string_CStr [simp]: "as_string (Some (CStr s)) = Inr s"
  by (simp add: as_string_def)

lemma asBytes_CBytes [simp]: "asBytes (Some (CBytes bs)) l = Inr bs"
  by (simp add: asBytes_def)

lemma decode_encode_session:
  assumes "\<And>v. decodeCBOR c (encodeCBOR c v) = Some v" "sm_version m = E2E_PROTOCOL_VERSION"
  shows "decodeSessionMessage c (encodeSessionMessage c m) = Inr m"
  using assms(2) unfolding decodeSessionMessage_def encodeSessionMessage_def decode_fields_def assms(1)
  by (cases m) (simp add: session_fields_def validateCommonFields_def)

lemma decode_encode_prekey:
  assumes "\<And>v. decodeCBOR c (encodeCBOR c v) = Some v" "pm_version m = E2E_PROTOCOL_VERSION"
  shows "decodePreKeyMessage c (encodePreKeyMessage c m) = Inr m"
  using assms(2) unfolding decodePreKeyMessage_def encodePreKeyMessage_def decode_fields_def assms(1)
  by (cases m) (simp add: prekey_fields_def validateCommonFields_def split: option.split)

lemma decrypt_encrypt_session:
  assumes "\<And>k n ad pt. noble_decrypt c k n ad (noble_encrypt c k n ad pt) = Some pt" "length key = 32" "length (sm_nonce h) = 24"
  shows "\<exists>m. encryptSessionMessage c h key pt = Inr m \<and> session_header.truncate m = h \<and> decryptSessionMessage c m key = Inr pt"
  using assms
  by (cases h) (simp add: encryptSessionMessage_def encryptXChaCha20Poly1305_def validateRawKeyLength_def validateNonceLength_def
      decryptSessionMessage_def decryptXChaCha20Poly1305_def session_header.extend_def session_message.fields_def
      session_header.truncate_def buildSessionMessageAssociatedData_def session_fields_def)

end
