(* ===== verification/E2E_Ratchet.thy ===== *)
theory E2E_Ratchet
  imports E2E_Messages
begin

text \<open>
  The double ratchet, \<open>js/core/protocol/src/e2e/ratchet.ts\<close>. The code works on a clone of the session, so a
  session is a value here, and one that threw is dropped. Keys are kept in hexadecimal as in the code. What
  the code draws (a key pair in DER form, a nonce, an identifier, the time) is the record \<open>draws\<close>. The fields
  \<open>establishedBy\<close> and \<open>phase\<close>, which have one value each, are left out.
\<close>

section \<open>State\<close>

definition DOUBLE_RATCHET_ROOT_INFO :: string where "DOUBLE_RATCHET_ROOT_INFO = ''quadra-a/e2e/double-ratchet/root/v1''"
definition DOUBLE_RATCHET_CHAIN_INFO :: string where "DOUBLE_RATCHET_CHAIN_INFO = ''quadra-a/e2e/double-ratchet/chain/v1''"
definition DOUBLE_RATCHET_CHAIN_SALT :: string where "DOUBLE_RATCHET_CHAIN_SALT = ''quadra-a/e2e/double-ratchet/chain-salt/v1''"
definition MAX_SKIPPED_MESSAGE_KEYS :: nat where "MAX_SKIPPED_MESSAGE_KEYS = 64"

record key_pair =
  lk_publicKey :: string
  lk_privateKey :: string

record skipped_key =
  sk_ratchetPublicKey :: string
  sk_messageNumber :: int
  sk_messageKey :: string

datatype session_role = Initiator | Responder

record bootstrap_state =
  bs_selfIdentityKey :: string
  bs_peerIdentityKey :: string
  bs_initiatorEphemeralKey :: string
  bs_recipientSignedPreKeyId :: int
  bs_recipientSignedPreKeyPublic :: string
  bs_recipientOneTimePreKeyId :: "rat option"

record session =
  ls_sessionId :: string
  ls_peerDid :: did
  ls_peerDeviceId :: string
  ls_selfDeviceId :: string
  ls_role :: session_role
  ls_rootKey :: string
  ls_currentRatchetKey :: key_pair
  ls_remoteRatchetPublicKey :: string
  ls_sendingChainKey :: "string option"
  ls_receivingChainKey :: "string option"
  ls_createdAt :: msec
  ls_updatedAt :: msec
  ls_nextSend :: int
  ls_nextReceive :: int
  ls_previousSendChainLength :: int
  ls_skipped :: "skipped_key list"
  ls_bootstrap :: bootstrap_state

text \<open>An optional string that is tested with \<open>!\<close>: absent or empty.\<close>

definition given :: "string option \<Rightarrow> string option" where
  "given v = (case v of Some s \<Rightarrow> if s = '''' then None else Some s | None \<Rightarrow> None)"

section \<open>Key derivation\<close>

definition deriveRootAndChainKeys :: "crypto \<Rightarrow> bytes \<Rightarrow> bytes \<Rightarrow> bytes \<times> bytes" where
  "deriveRootAndChainKeys c rootKey dhOutput =
     (let material = hkdfSha256 c dhOutput rootKey (utf8ToBytes DOUBLE_RATCHET_ROOT_INFO) 64
      in (take 32 material, take 32 (drop 32 material)))"

text \<open>The next chain key and the message key.\<close>

definition deriveChainStep :: "crypto \<Rightarrow> bytes \<Rightarrow> bytes \<times> bytes" where
  "deriveChainStep c chainKey =
     (let material = hkdfSha256 c chainKey (utf8ToBytes DOUBLE_RATCHET_CHAIN_SALT) (utf8ToBytes DOUBLE_RATCHET_CHAIN_INFO) 64
      in (take 32 material, take 32 (drop 32 material)))"

section \<open>Skipped message keys\<close>

definition storeSkippedMessageKey :: "string \<Rightarrow> int \<Rightarrow> bytes \<Rightarrow> session \<Rightarrow> session" where
  "storeSkippedMessageKey pub n key s =
     (let ks = ls_skipped s @ [\<lparr>sk_ratchetPublicKey = pub, sk_messageNumber = n, sk_messageKey = bytesToHex key\<rparr>]
      in s\<lparr>ls_skipped := drop (length ks - MAX_SKIPPED_MESSAGE_KEYS) ks\<rparr>)"

fun take_first :: "('a \<Rightarrow> bool) \<Rightarrow> 'a list \<Rightarrow> ('a \<times> 'a list) option" where
  "take_first P [] = None"
| "take_first P (x # xs) = (if P x then Some (x, xs) else map_option (\<lambda>(y, ys). (y, x # ys)) (take_first P xs))"

definition takeSkippedMessageKey :: "string \<Rightarrow> int \<Rightarrow> session \<Rightarrow> bytes option \<times> session" where
  "takeSkippedMessageKey pub n s =
     (case take_first (\<lambda>e. sk_ratchetPublicKey e = pub \<and> sk_messageNumber e = n) (ls_skipped s) of
        None \<Rightarrow> (None, s)
      | Some (e, rest) \<Rightarrow> (Some (hexToBytes (sk_messageKey e)), s\<lparr>ls_skipped := rest\<rparr>))"

text \<open>The loop of \<open>skipMessageKeys\<close>, \<open>gap\<close> times.\<close>

fun skip_loop :: "crypto \<Rightarrow> nat \<Rightarrow> bytes \<Rightarrow> session \<Rightarrow> bytes \<times> session" where
  "skip_loop c 0 chainKey s = (chainKey, s)"
| "skip_loop c (Suc gap) chainKey s =
     (let (nextKey, messageKey) = deriveChainStep c chainKey;
          s' = storeSkippedMessageKey (ls_remoteRatchetPublicKey s) (ls_nextReceive s) messageKey s
      in skip_loop c gap nextKey (s'\<lparr>ls_nextReceive := ls_nextReceive s' + 1\<rparr>))"

definition skipMessageKeys :: "crypto \<Rightarrow> int \<Rightarrow> session \<Rightarrow> e2e_error + session" where
  "skipMessageKeys c untilNumber s =
     (if untilNumber < ls_nextReceive s then Inr s
      else (case given (ls_receivingChainKey s) of
        None \<Rightarrow> if untilNumber = ls_nextReceive s then Inr s
                else Inl (EncryptionError ''Missing receiving chain key while skipping messages'')
      | Some key \<Rightarrow>
          if untilNumber - ls_nextReceive s > int MAX_SKIPPED_MESSAGE_KEYS then Inl (EncryptionError ''Skipped-message window exceeded'')
          else (let (chainKey, s') = skip_loop c (nat (untilNumber - ls_nextReceive s)) (hexToBytes key) s
                in Inr (s'\<lparr>ls_receivingChainKey := Some (bytesToHex chainKey)\<rparr>))))"

section \<open>Ratchet steps\<close>

record draws =
  dr_keypair :: "bytes \<times> bytes"
  dr_nonce :: bytes
  dr_id :: bytes
  dr_now :: msec

definition hex_pair :: "x25519_pair \<Rightarrow> key_pair" where
  "hex_pair k = \<lparr>lk_publicKey = bytesToHex (kp_public k), lk_privateKey = bytesToHex (kp_private k)\<rparr>"

definition ensureSendingChain :: "crypto \<Rightarrow> draws \<Rightarrow> x25519_pair option \<Rightarrow> session \<Rightarrow> e2e_error + session" where
  "ensureSendingChain c dr nextPair s = (case given (ls_sendingChainKey s) of
     Some _ \<Rightarrow> Inr s
   | None \<Rightarrow>
       and_then (case nextPair of Some k \<Rightarrow> Inr k | None \<Rightarrow> generateX25519KeyPair (dr_keypair dr)) (\<lambda>pair.
       and_then (diffieHellmanX25519 c (kp_private pair) (hexToBytes (ls_remoteRatchetPublicKey s))) (\<lambda>dhOutput.
         let (newRoot, chain) = deriveRootAndChainKeys c (hexToBytes (ls_rootKey s)) dhOutput
         in Inr (s\<lparr>ls_rootKey := bytesToHex newRoot, ls_currentRatchetKey := hex_pair pair, ls_sendingChainKey := Some (bytesToHex chain),
                   ls_previousSendChainLength := ls_nextSend s, ls_nextSend := 0\<rparr>))))"

definition advanceReceivingRatchet :: "crypto \<Rightarrow> bytes \<Rightarrow> session \<Rightarrow> e2e_error + session" where
  "advanceReceivingRatchet c remotePublic s =
     and_then (diffieHellmanX25519 c (hexToBytes (lk_privateKey (ls_currentRatchetKey s))) remotePublic) (\<lambda>dhOutput.
       let (newRoot, chain) = deriveRootAndChainKeys c (hexToBytes (ls_rootKey s)) dhOutput
       in Inr (s\<lparr>ls_rootKey := bytesToHex newRoot, ls_remoteRatchetPublicKey := bytesToHex remotePublic,
                 ls_receivingChainKey := Some (bytesToHex chain), ls_nextReceive := 0, ls_sendingChainKey := None\<rparr>))"

record ratchet_input =
  ri_sessionId :: string
  ri_peerDid :: did
  ri_peerDeviceId :: string
  ri_selfDeviceId :: string
  ri_role :: session_role
  ri_rootKey :: bytes
  ri_currentRatchetKey :: x25519_pair
  ri_remoteRatchetPublicKey :: bytes
  ri_bootstrap :: bootstrap_state
  ri_createdAt :: msec

definition new_session :: "ratchet_input \<Rightarrow> bytes \<Rightarrow> string option \<Rightarrow> string option \<Rightarrow> session" where
  "new_session i rootBytes sending receiving =
     \<lparr>ls_sessionId = ri_sessionId i, ls_peerDid = ri_peerDid i, ls_peerDeviceId = ri_peerDeviceId i,
      ls_selfDeviceId = ri_selfDeviceId i, ls_role = ri_role i, ls_rootKey = bytesToHex rootBytes,
      ls_currentRatchetKey = hex_pair (ri_currentRatchetKey i), ls_remoteRatchetPublicKey = bytesToHex (ri_remoteRatchetPublicKey i),
      ls_sendingChainKey = sending, ls_receivingChainKey = receiving, ls_createdAt = ri_createdAt i, ls_updatedAt = ri_createdAt i,
      ls_nextSend = 0, ls_nextReceive = 0, ls_previousSendChainLength = 0, ls_skipped = [], ls_bootstrap = ri_bootstrap i\<rparr>"

definition createInitiatorRatchetSession :: "crypto \<Rightarrow> ratchet_input \<Rightarrow> e2e_error + session" where
  "createInitiatorRatchetSession c i =
     and_then (diffieHellmanX25519 c (kp_private (ri_currentRatchetKey i)) (ri_remoteRatchetPublicKey i)) (\<lambda>dhOutput.
       let (newRoot, chain) = deriveRootAndChainKeys c (ri_rootKey i) dhOutput
       in Inr (new_session i newRoot (Some (bytesToHex chain)) None))"

definition createResponderRatchetSession :: "crypto \<Rightarrow> ratchet_input \<Rightarrow> e2e_error + session" where
  "createResponderRatchetSession c i =
     and_then (diffieHellmanX25519 c (kp_private (ri_currentRatchetKey i)) (ri_remoteRatchetPublicKey i)) (\<lambda>dhOutput.
       let (newRoot, chain) = deriveRootAndChainKeys c (ri_rootKey i) dhOutput
       in Inr (new_session i newRoot None (Some (bytesToHex chain))))"

section \<open>Encryption and decryption\<close>

definition generateMessageId :: "draws \<Rightarrow> string" where
  "generateMessageId dr = ''e2e-msg-'' @ bytesToHex (dr_id dr)"

definition assertNonce :: "bytes \<Rightarrow> e2e_error + unit" where
  "assertNonce nonce = (if length nonce \<noteq> 24 then Inl (EncryptionError ''Double Ratchet nonce must be 24 bytes'') else Inr ())"

record ratchet_encrypt =
  rx_session :: session
  rx_plaintext :: bytes
  rx_senderDid :: did
  rx_receiverDid :: did
  rx_messageId :: "string option"
  rx_nonce :: "bytes option"
  rx_ratchetKeyPair :: "x25519_pair option"
  rx_now :: "msec option"

definition or_else :: "'a option \<Rightarrow> 'a \<Rightarrow> 'a" where
  "or_else v d = (case v of Some x \<Rightarrow> x | None \<Rightarrow> d)"

definition encryptRatchetMessage :: "crypto \<Rightarrow> draws \<Rightarrow> ratchet_encrypt \<Rightarrow> e2e_error + session_message \<times> session \<times> bytes" where
  "encryptRatchetMessage c dr i =
     and_then (ensureSendingChain c dr (rx_ratchetKeyPair i) (rx_session i)) (\<lambda>s.
       case given (ls_sendingChainKey s) of
         None \<Rightarrow> Inl (EncryptionError ''Missing sending chain key after ratchet initialization'')
       | Some sending \<Rightarrow>
           (let (chainKey, messageKey) = deriveChainStep c (hexToBytes sending); nonce = or_else (rx_nonce i) (dr_nonce dr)
            in and_then (assertNonce nonce) (\<lambda>_.
               and_then (encryptSessionMessage c
                 \<lparr>sm_version = E2E_PROTOCOL_VERSION, sm_senderDid = rx_senderDid i, sm_receiverDid = rx_receiverDid i,
                  sm_senderDeviceId = ls_selfDeviceId s, sm_receiverDeviceId = ls_peerDeviceId s, sm_sessionId = ls_sessionId s,
                  sm_messageId = or_else (rx_messageId i) (generateMessageId dr),
                  sm_ratchetPublicKey = hexToBytes (lk_publicKey (ls_currentRatchetKey s)),
                  sm_previousChainLength = ls_previousSendChainLength s, sm_messageNumber = ls_nextSend s, sm_nonce = nonce\<rparr>
                 messageKey (rx_plaintext i)) (\<lambda>message.
               Inr (message, s\<lparr>ls_sendingChainKey := Some (bytesToHex chainKey), ls_nextSend := ls_nextSend s + 1,
                               ls_updatedAt := or_else (rx_now i) (dr_now dr)\<rparr>, messageKey)))))"

text \<open>The rest of \<open>decryptRatchetMessage\<close>, once no skipped key was found.\<close>

definition decrypt_next :: "crypto \<Rightarrow> session_message \<Rightarrow> msec \<Rightarrow> session \<Rightarrow> e2e_error + bytes \<times> session \<times> bytes \<times> bool" where
  "decrypt_next c m now s =
     and_then (skipMessageKeys c (sm_messageNumber m) s) (\<lambda>s1. case given (ls_receivingChainKey s1) of
         None \<Rightarrow> Inl (EncryptionError ''Missing receiving chain key for session message decryption'')
       | Some receiving \<Rightarrow>
           (let (chainKey, messageKey) = deriveChainStep c (hexToBytes receiving)
            in and_then (decryptSessionMessage c m messageKey) (\<lambda>plaintext.
                 Inr (plaintext, s1\<lparr>ls_receivingChainKey := Some (bytesToHex chainKey), ls_nextReceive := sm_messageNumber m + 1,
                                     ls_updatedAt := now\<rparr>, messageKey, False))))"

definition decryptRatchetMessage :: "crypto \<Rightarrow> session_message \<Rightarrow> msec \<Rightarrow> session \<Rightarrow> e2e_error + bytes \<times> session \<times> bytes \<times> bool" where
  "decryptRatchetMessage c m now s0 =
     (case takeSkippedMessageKey (bytesToHex (sm_ratchetPublicKey m)) (sm_messageNumber m) s0 of
        (Some key, s) \<Rightarrow> and_then (decryptSessionMessage c m key) (\<lambda>plaintext. Inr (plaintext, s\<lparr>ls_updatedAt := now\<rparr>, key, True))
      | (None, s) \<Rightarrow>
          if bytesToHex (sm_ratchetPublicKey m) \<noteq> ls_remoteRatchetPublicKey s
          then and_then (skipMessageKeys c (sm_previousChainLength m) s) (\<lambda>s1.
               and_then (advanceReceivingRatchet c (sm_ratchetPublicKey m) s1) (decrypt_next c m now))
          else decrypt_next c m now s)"

end
