(* ===== verification/E2E_Conversation.thy ===== *)
theory E2E_Conversation
  imports E2E_Ratchet
begin

text \<open>
  The double ratchet delivers: two parties that share a secret exchange any messages in any order, and
  every message that is heard decrypts to what was said, as long as no more than 64 others of its sender are
  outstanding. The invariant relates the two sessions to one sequence of epochs: epoch \<open>e\<close> is the
  sending chain that the key pair \<open>e + 1\<close> started; the initiator sends in the even ones.
\<close>

section \<open>What the library relies on\<close>

definition sound_crypto :: "crypto \<Rightarrow> bool" where
  "sound_crypto c \<longleftrightarrow> (\<forall>k n ad pt. noble_decrypt c k n ad (noble_encrypt c k n ad pt) = Some pt)
     \<and> (\<forall>ikm salt info n. length (noble_hkdf c ikm salt info n) = n)"

definition agrees :: "crypto \<Rightarrow> x25519_pair \<Rightarrow> x25519_pair \<Rightarrow> bool" where
  "agrees c a b \<longleftrightarrow> (let dh = node_dh c (X25519_PKCS8_PREFIX @ kp_private a) (X25519_SPKI_PREFIX @ kp_public b)
     in dh \<noteq> None \<and> dh = node_dh c (X25519_PKCS8_PREFIX @ kp_private b) (X25519_SPKI_PREFIX @ kp_public a))"

definition good_pair :: "x25519_pair \<Rightarrow> bool" where
  "good_pair k \<longleftrightarrow> length (kp_public k) = 32 \<and> length (kp_private k) = 32"

definition good_pairs :: "crypto \<Rightarrow> x25519_pair list \<Rightarrow> bool" where
  "good_pairs c ks \<longleftrightarrow> distinct (map kp_public ks) \<and> (\<forall>k \<in> set ks. good_pair k) \<and> (\<forall>a \<in> set ks. \<forall>b \<in> set ks. agrees c a b)"

definition dh_value :: "crypto \<Rightarrow> x25519_pair \<Rightarrow> x25519_pair \<Rightarrow> bytes" where
  "dh_value c a b = the (node_dh c (X25519_PKCS8_PREFIX @ kp_private a) (X25519_SPKI_PREFIX @ kp_public b))"

lemma dh_good: "good_pair a \<Longrightarrow> good_pair b \<Longrightarrow> agrees c a b \<Longrightarrow>
    diffieHellmanX25519 c (kp_private a) (kp_public b) = Inr (dh_value c a b)"
proof -
  assume "good_pair a" "good_pair b" "agrees c a b"
  moreover from this(3) have "node_dh c (X25519_PKCS8_PREFIX @ kp_private a) (X25519_SPKI_PREFIX @ kp_public b) \<noteq> None"
    unfolding agrees_def Let_def by (rule conjunct1)
  then obtain x where "node_dh c (X25519_PKCS8_PREFIX @ kp_private a) (X25519_SPKI_PREFIX @ kp_public b) = Some x" by blast
  ultimately show ?thesis
    by (simp add: diffieHellmanX25519_def wrapPkcs8_def importPublicKey_def validateRawKeyLength_def good_pair_def dh_value_def)
qed

lemma dh_sym: "agrees c a b \<Longrightarrow> dh_value c a b = dh_value c b a"
  by (simp add: agrees_def dh_value_def Let_def)

section \<open>Chains\<close>

lemma root_and_chain_length:
  assumes "sound_crypto c"
  shows "length (fst (deriveRootAndChainKeys c r d)) = 32" "length (snd (deriveRootAndChainKeys c r d)) = 32"
    "length (fst (deriveChainStep c k)) = 32" "length (snd (deriveChainStep c k)) = 32"
  using assms by (simp_all add: sound_crypto_def deriveRootAndChainKeys_def deriveChainStep_def hkdfSha256_def Let_def)

fun chain_key :: "crypto \<Rightarrow> bytes \<Rightarrow> nat \<Rightarrow> bytes" where
  "chain_key c k 0 = k"
| "chain_key c k (Suc i) = fst (deriveChainStep c (chain_key c k i))"

definition message_key :: "crypto \<Rightarrow> bytes \<Rightarrow> nat \<Rightarrow> bytes" where
  "message_key c k i = snd (deriveChainStep c (chain_key c k i))"

lemma chain_step: "deriveChainStep c (chain_key c k i) = (chain_key c k (Suc i), message_key c k i)"
  by (simp add: message_key_def)

lemma chain_key_length: "sound_crypto c \<Longrightarrow> length k = 32 \<Longrightarrow> length (chain_key c k i) = 32"
  by (cases i) (simp_all add: root_and_chain_length)

lemma message_key_length: "sound_crypto c \<Longrightarrow> length (message_key c k i) = 32"
  by (simp add: message_key_def root_and_chain_length)

lemma given_hex: "length bs = 32 \<Longrightarrow> given (Some (bytesToHex bs)) = Some (bytesToHex bs)"
  by (auto simp: given_def)

definition skip_entry :: "crypto \<Rightarrow> bytes \<Rightarrow> bytes \<Rightarrow> nat \<Rightarrow> skipped_key" where
  "skip_entry c pub k i = \<lparr>sk_ratchetPublicKey = bytesToHex pub, sk_messageNumber = int i, sk_messageKey = bytesToHex (message_key c k i)\<rparr>"

lemma skip_loop_ok:
  "ls_remoteRatchetPublicKey s = bytesToHex pub \<Longrightarrow> ls_nextReceive s = int a \<Longrightarrow> length (ls_skipped s) + g \<le> 64 \<Longrightarrow>
   skip_loop c g (chain_key c k a) s =
     (chain_key c k (a + g), s\<lparr>ls_skipped := ls_skipped s @ map (skip_entry c pub k) [a..<a + g], ls_nextReceive := int (a + g)\<rparr>)"
proof (induction g arbitrary: a s)
  case (Suc g)
  have "storeSkippedMessageKey (ls_remoteRatchetPublicKey s) (ls_nextReceive s) (message_key c k a) s
      = s\<lparr>ls_skipped := ls_skipped s @ [skip_entry c pub k a]\<rparr>"
    using Suc.prems by (simp add: storeSkippedMessageKey_def skip_entry_def MAX_SKIPPED_MESSAGE_KEYS_def)
  with Suc show ?case
    by (simp add: chain_step Suc.IH [of _ "Suc a"] upt_rec [of a] del: chain_key.simps)
qed simp

lemma skip_ok:
  assumes c: "sound_crypto c" "length k = 32"
    and s: "ls_receivingChainKey s = Some (bytesToHex (chain_key c k a))" "ls_remoteRatchetPublicKey s = bytesToHex pub"
      "ls_nextReceive s = int a" "a \<le> b" "length (ls_skipped s) + (b - a) \<le> 64"
  shows "skipMessageKeys c (int b) s = Inr (s\<lparr>ls_skipped := ls_skipped s @ map (skip_entry c pub k) [a..<b],
      ls_nextReceive := int b, ls_receivingChainKey := Some (bytesToHex (chain_key c k b))\<rparr>)"
proof -
  have g: "nat (int b - int a) = b - a" "a + (b - a) = b" using s(4) by auto
  have "skip_loop c (b - a) (chain_key c k a) s =
     (chain_key c k b, s\<lparr>ls_skipped := ls_skipped s @ map (skip_entry c pub k) [a..<b], ls_nextReceive := int b\<rparr>)"
    using skip_loop_ok [OF s(2,3,5)] g(2) by simp
  with s g show ?thesis
    by (simp add: skipMessageKeys_def given_hex [OF chain_key_length [OF c]] MAX_SKIPPED_MESSAGE_KEYS_def)
qed

lemma decrypt_next_ok:
  assumes c: "sound_crypto c" "length k = 32"
    and s: "ls_receivingChainKey s = Some (bytesToHex (chain_key c k a))" "ls_remoteRatchetPublicKey s = bytesToHex pub"
      "ls_nextReceive s = int a" "a \<le> b" "length (ls_skipped s) + (b - a) \<le> 64"
    and m: "sm_messageNumber m = int b" "decryptSessionMessage c m (message_key c k b) = Inr pt"
  shows "decrypt_next c m now s = Inr (pt, s\<lparr>ls_skipped := ls_skipped s @ map (skip_entry c pub k) [a..<b],
      ls_nextReceive := int (Suc b), ls_receivingChainKey := Some (bytesToHex (chain_key c k (Suc b))), ls_updatedAt := now\<rparr>,
      message_key c k b, False)"
  using skip_ok [OF c s] m
  by (simp add: decrypt_next_def given_hex [OF chain_key_length [OF c]] chain_step del: chain_key.simps)

section \<open>Conversations\<close>

text \<open>\<open>True\<close> is the initiator. \<open>cv_pool p\<close> holds what \<open>p\<close> sent and the peer has not heard, each message with
  the text that was said; \<open>cv_heard\<close> lists what was decrypted, the last one last.\<close>

record conv =
  cv_session :: "bool \<Rightarrow> session"
  cv_pool :: "bool \<Rightarrow> (session_message \<times> bytes) list"
  cv_heard :: "bytes list"

datatype conv_event = Say bool bytes draws | Hear bool nat msec

definition conv_say :: "crypto \<Rightarrow> (bool \<Rightarrow> did) \<Rightarrow> bool \<Rightarrow> bytes \<Rightarrow> draws \<Rightarrow> conv \<Rightarrow> e2e_error + conv" where
  "conv_say c did p pt dr cv =
     and_then (encryptRatchetMessage c dr \<lparr>rx_session = cv_session cv p, rx_plaintext = pt, rx_senderDid = did p,
                 rx_receiverDid = did (\<not> p), rx_messageId = None, rx_nonce = None, rx_ratchetKeyPair = None, rx_now = None\<rparr>)
       (\<lambda>(m, s, _). Inr (cv\<lparr>cv_session := (cv_session cv)(p := s), cv_pool := (cv_pool cv)(p := cv_pool cv p @ [(m, pt)])\<rparr>))"

definition conv_hear :: "crypto \<Rightarrow> bool \<Rightarrow> nat \<Rightarrow> msec \<Rightarrow> conv \<Rightarrow> e2e_error + conv" where
  "conv_hear c p k now cv = (let q = \<not> p; (m, pt) = cv_pool cv q ! k in
     and_then (decryptRatchetMessage c m now (cv_session cv p))
       (\<lambda>(plain, s, _). Inr (cv\<lparr>cv_session := (cv_session cv)(p := s),
          cv_pool := (cv_pool cv)(q := take k (cv_pool cv q) @ drop (Suc k) (cv_pool cv q)), cv_heard := cv_heard cv @ [plain]\<rparr>)))"

fun conv_step :: "crypto \<Rightarrow> (bool \<Rightarrow> did) \<Rightarrow> conv_event \<Rightarrow> conv \<Rightarrow> e2e_error + conv" where
  "conv_step c did (Say p pt dr) cv = conv_say c did p pt dr cv"
| "conv_step c did (Hear p k now) cv = conv_hear c p k now cv"

fun conv_run :: "crypto \<Rightarrow> (bool \<Rightarrow> did) \<Rightarrow> conv_event list \<Rightarrow> conv \<Rightarrow> e2e_error + conv" where
  "conv_run c did [] cv = Inr cv"
| "conv_run c did (e # es) cv = and_then (conv_step c did e cv) (conv_run c did es)"

text \<open>The conversation without encryption.\<close>

fun plain_run :: "conv_event list \<Rightarrow> (bool \<Rightarrow> bytes list) \<Rightarrow> bytes list \<Rightarrow> (bool \<Rightarrow> bytes list) \<times> bytes list" where
  "plain_run [] pool got = (pool, got)"
| "plain_run (Say p pt _ # es) pool got = plain_run es (pool(p := pool p @ [pt])) got"
| "plain_run (Hear p k _ # es) pool got =
     plain_run es (pool((\<not> p) := take k (pool (\<not> p)) @ drop (Suc k) (pool (\<not> p)))) (got @ [pool (\<not> p) ! k])"

text \<open>The sessions that the two sides start from.\<close>

definition start_conv :: "crypto \<Rightarrow> ratchet_input \<Rightarrow> ratchet_input \<Rightarrow> e2e_error + conv" where
  "start_conv c ii ir = and_then (createInitiatorRatchetSession c ii) (\<lambda>s. and_then (createResponderRatchetSession c ir) (\<lambda>t.
     Inr \<lparr>cv_session = (\<lambda>p. if p then s else t), cv_pool = (\<lambda>_. []), cv_heard = []\<rparr>))"

definition sessions_match :: "ratchet_input \<Rightarrow> ratchet_input \<Rightarrow> bool" where
  "sessions_match ii ir \<longleftrightarrow> ri_rootKey ii = ri_rootKey ir \<and> ri_remoteRatchetPublicKey ii = kp_public (ri_currentRatchetKey ir)
     \<and> ri_remoteRatchetPublicKey ir = kp_public (ri_currentRatchetKey ii)"

text \<open>A schedule hears messages that are there, and says nothing while 65 of the party are outstanding.\<close>

fun schedule_ok :: "(bool \<Rightarrow> nat) \<Rightarrow> conv_event list \<Rightarrow> bool" where
  "schedule_ok n [] \<longleftrightarrow> True"
| "schedule_ok n (Say p _ _ # es) \<longleftrightarrow> n p \<le> 64 \<and> schedule_ok (n(p := Suc (n p))) es"
| "schedule_ok n (Hear p k _ # es) \<longleftrightarrow> k < n (\<not> p) \<and> schedule_ok (n((\<not> p) := n (\<not> p) - 1)) es"

text \<open>The key pairs that the parties draw, whether they use them or not, and their nonces.\<close>

definition drawn_by :: "draws \<Rightarrow> x25519_pair" where
  "drawn_by dr = \<lparr>kp_public = drop 12 (snd (dr_keypair dr)), kp_private = drop 16 (fst (dr_keypair dr))\<rparr>"

fun drawn :: "conv_event list \<Rightarrow> x25519_pair list" where
  "drawn [] = []"
| "drawn (Say p pt dr # es) = drawn_by dr # drawn es"
| "drawn (Hear _ _ _ # es) = drawn es"

definition draws_ok :: "draws \<Rightarrow> bool" where
  "draws_ok dr \<longleftrightarrow> length (dr_nonce dr) = 24 \<and> take 16 (fst (dr_keypair dr)) = X25519_PKCS8_PREFIX
     \<and> take 12 (snd (dr_keypair dr)) = X25519_SPKI_PREFIX"

fun all_draws_ok :: "conv_event list \<Rightarrow> bool" where
  "all_draws_ok [] \<longleftrightarrow> True"
| "all_draws_ok (Say _ _ dr # es) \<longleftrightarrow> draws_ok dr \<and> all_draws_ok es"
| "all_draws_ok (Hear _ _ _ # es) \<longleftrightarrow> all_draws_ok es"

lemma drawn_pair: "draws_ok dr \<Longrightarrow> generateX25519KeyPair (dr_keypair dr) = Inr (drawn_by dr)"
proof -
  have [simp]: "length X25519_PKCS8_PREFIX = 16" "length X25519_SPKI_PREFIX = 12"
    by (simp_all add: X25519_PKCS8_PREFIX_def X25519_SPKI_PREFIX_def)
  show "draws_ok dr \<Longrightarrow> ?thesis" by (simp add: generateX25519KeyPair_def draws_ok_def unwrapPkcs8_def unwrapSpki_def drawn_by_def)
qed

section \<open>The invariant\<close>

definition turn :: "bool \<Rightarrow> nat \<Rightarrow> bool" where
  "turn p e \<longleftrightarrow> even e = p"

lemma turn_simps [simp]: "turn (\<not> p) e \<longleftrightarrow> \<not> turn p e" "turn p (Suc e) \<longleftrightarrow> \<not> turn p e" "turn p (e + 2) \<longleftrightarrow> turn p e"
  by (auto simp: turn_def)

lemma both_parties: "P p \<Longrightarrow> P (\<not> p) \<Longrightarrow> P q" for p q :: bool
  by (cases "q = p") auto

lemma turn_other: "turn p e \<Longrightarrow> turn q e \<longleftrightarrow> q = p"
  by (auto simp: turn_def)

fun root_key :: "crypto \<Rightarrow> bytes \<Rightarrow> x25519_pair list \<Rightarrow> nat \<Rightarrow> bytes" where
  "root_key c sh ks 0 = sh"
| "root_key c sh ks (Suc e) = fst (deriveRootAndChainKeys c (root_key c sh ks e) (dh_value c (ks ! Suc e) (ks ! e)))"

definition epoch_key :: "crypto \<Rightarrow> bytes \<Rightarrow> x25519_pair list \<Rightarrow> nat \<Rightarrow> bytes" where
  "epoch_key c sh ks e = snd (deriveRootAndChainKeys c (root_key c sh ks e) (dh_value c (ks ! Suc e) (ks ! e)))"

lemma epoch_derive: "deriveRootAndChainKeys c (root_key c sh ks e) (dh_value c (ks ! Suc e) (ks ! e))
    = (root_key c sh ks (Suc e), epoch_key c sh ks e)"
  by (simp add: epoch_key_def)

lemma root_key_append [simp]: "e < length ks \<Longrightarrow> root_key c sh (ks @ ks') e = root_key c sh ks e"
  by (induction e) (simp_all add: nth_append)

lemma epoch_key_append [simp]: "Suc e < length ks \<Longrightarrow> epoch_key c sh (ks @ ks') e = epoch_key c sh ks e"
  by (simp add: epoch_key_def nth_append)

lemma epoch_key_length: "sound_crypto c \<Longrightarrow> length (epoch_key c sh ks e) = 32"
  by (simp add: epoch_key_def root_and_chain_length)

text \<open>Ghost state: the key pairs so far, the messages sent and the position of the receiver in every
  epoch, the last epoch each party has joined, and, for each sender, the numbers of the messages of its
  pool and of those whose keys the receiver keeps.\<close>

record ghost =
  gh_keys :: "x25519_pair list"
  gh_sent :: "nat \<Rightarrow> nat"
  gh_recv :: "nat \<Rightarrow> nat"
  gh_joined :: "bool \<Rightarrow> nat"
  gh_pool :: "bool \<Rightarrow> (nat \<times> nat) list"
  gh_skip :: "bool \<Rightarrow> (nat \<times> nat) list"

definition epoch_entry :: "crypto \<Rightarrow> bytes \<Rightarrow> x25519_pair list \<Rightarrow> nat \<times> nat \<Rightarrow> skipped_key" where
  "epoch_entry c sh ks x = skip_entry c (kp_public (ks ! Suc (fst x))) (epoch_key c sh ks (fst x)) (snd x)"

definition sends_ok :: "crypto \<Rightarrow> bytes \<Rightarrow> ghost \<Rightarrow> nat \<Rightarrow> session \<Rightarrow> bool" where
  "sends_ok c sh g j s \<longleftrightarrow> ls_rootKey s = bytesToHex (root_key c sh (gh_keys g) (Suc j))
     \<and> ls_currentRatchetKey s = hex_pair (gh_keys g ! Suc j)
     \<and> ls_sendingChainKey s = Some (bytesToHex (chain_key c (epoch_key c sh (gh_keys g) j) (gh_sent g j)))
     \<and> ls_nextSend s = int (gh_sent g j)
     \<and> ls_previousSendChainLength s = (if 2 \<le> j then int (gh_sent g (j - 2)) else 0)
     \<and> ls_remoteRatchetPublicKey s = bytesToHex (kp_public (gh_keys g ! j))
     \<and> (if j = 0 then ls_receivingChainKey s = None \<and> ls_nextReceive s = 0
        else ls_receivingChainKey s = Some (bytesToHex (chain_key c (epoch_key c sh (gh_keys g) (j - 1)) (gh_recv g (j - 1))))
           \<and> ls_nextReceive s = int (gh_recv g (j - 1)))"

definition receives_ok :: "crypto \<Rightarrow> bytes \<Rightarrow> ghost \<Rightarrow> nat \<Rightarrow> session \<Rightarrow> bool" where
  "receives_ok c sh g j s \<longleftrightarrow> ls_rootKey s = bytesToHex (root_key c sh (gh_keys g) (Suc j))
     \<and> ls_currentRatchetKey s = hex_pair (gh_keys g ! j) \<and> ls_sendingChainKey s = None
     \<and> ls_nextSend s = (if 1 \<le> j then int (gh_sent g (j - 1)) else 0)
     \<and> ls_remoteRatchetPublicKey s = bytesToHex (kp_public (gh_keys g ! Suc j))
     \<and> ls_receivingChainKey s = Some (bytesToHex (chain_key c (epoch_key c sh (gh_keys g) j) (gh_recv g j)))
     \<and> ls_nextReceive s = int (gh_recv g j)"

definition message_ok :: "crypto \<Rightarrow> bytes \<Rightarrow> ghost \<Rightarrow> bool \<Rightarrow> session_message \<times> bytes \<Rightarrow> nat \<times> nat \<Rightarrow> bool" where
  "message_ok c sh g p mp x \<longleftrightarrow> turn p (fst x) \<and> fst x \<le> gh_joined g p \<and> snd x < gh_sent g (fst x)
     \<and> sm_ratchetPublicKey (fst mp) = kp_public (gh_keys g ! Suc (fst x)) \<and> sm_messageNumber (fst mp) = int (snd x)
     \<and> sm_previousChainLength (fst mp) = (if 2 \<le> fst x then int (gh_sent g (fst x - 2)) else 0)
     \<and> decryptSessionMessage c (fst mp) (message_key c (epoch_key c sh (gh_keys g) (fst x)) (snd x)) = Inr (snd mp)"

text \<open>What \<open>p\<close> sends: its pool, its peer's positions and the peer's kept keys.\<close>

definition direction_ok :: "crypto \<Rightarrow> bytes \<Rightarrow> ghost \<Rightarrow> bool \<Rightarrow> conv \<Rightarrow> bool" where
  "direction_ok c sh g p cv \<longleftrightarrow> list_all2 (message_ok c sh g p) (cv_pool cv p) (gh_pool g p) \<and> distinct (gh_pool g p)
     \<and> (\<forall>e i. turn p e \<longrightarrow> gh_recv g e \<le> i \<longrightarrow> i < gh_sent g e \<longrightarrow> (e, i) \<in> set (gh_pool g p))
     \<and> (\<forall>e. turn p e \<longrightarrow> e + 1 < gh_joined g (\<not> p) \<longrightarrow> gh_recv g e = gh_sent g e)
     \<and> (\<forall>e. turn p e \<longrightarrow> gh_joined g (\<not> p) < e \<longrightarrow> gh_recv g e = 0)
     \<and> (\<forall>e. turn p e \<longrightarrow> gh_recv g e \<le> gh_sent g e)
     \<and> (\<forall>e. turn p e \<longrightarrow> gh_joined g p < e \<longrightarrow> gh_sent g e = 0)
     \<and> ls_skipped (cv_session cv (\<not> p)) = map (epoch_entry c sh (gh_keys g)) (gh_skip g p)
     \<and> distinct (gh_skip g p) \<and> set (gh_skip g p) = {x \<in> set (gh_pool g p). snd x < gh_recv g (fst x)}"

definition conv_ok :: "crypto \<Rightarrow> bytes \<Rightarrow> ghost \<Rightarrow> conv \<Rightarrow> bool" where
  "conv_ok c sh g cv \<longleftrightarrow> sound_crypto c \<and> good_pairs c (gh_keys g)
     \<and> (\<forall>p. length (gh_keys g) \<le> gh_joined g p + 3 \<and> gh_joined g p + 2 \<le> length (gh_keys g)
          \<and> (turn p (length (gh_keys g)) \<longrightarrow> gh_joined g p + 2 = length (gh_keys g)))
     \<and> (\<forall>p. turn p (gh_joined g p) \<longrightarrow> sends_ok c sh g (gh_joined g p) (cv_session cv p))
     \<and> (\<forall>p. \<not> turn p (gh_joined g p) \<longrightarrow> receives_ok c sh g (gh_joined g p) (cv_session cv p))
     \<and> (\<forall>p. direction_ok c sh g p cv)"

section \<open>What the invariant gives\<close>

lemma conv_ok_session:
  assumes "conv_ok c sh g cv"
  shows "turn p (gh_joined g p) \<Longrightarrow> sends_ok c sh g (gh_joined g p) (cv_session cv p)"
    "\<not> turn p (gh_joined g p) \<Longrightarrow> receives_ok c sh g (gh_joined g p) (cv_session cv p)"
    "direction_ok c sh g p cv" "sound_crypto c" "good_pairs c (gh_keys g)"
    "gh_joined g p + 2 \<le> length (gh_keys g)" "length (gh_keys g) \<le> gh_joined g p + 3"
    "turn p (length (gh_keys g)) \<Longrightarrow> gh_joined g p + 2 = length (gh_keys g)"
  using assms unfolding conv_ok_def by blast+

lemma joined_last: "conv_ok c sh g cv \<Longrightarrow> \<not> turn p (gh_joined g p) \<Longrightarrow> length (gh_keys g) = gh_joined g p + 2"
proof -
  assume ok: "conv_ok c sh g cv" and r: "\<not> turn p (gh_joined g p)"
  have "length (gh_keys g) = gh_joined g p + 2 \<or> length (gh_keys g) = Suc (gh_joined g p + 2)"
    using conv_ok_session(6,7) [OF ok, of p] by linarith
  with r conv_ok_session(8) [OF ok, of p] show ?thesis by (elim disjE) (simp_all add: turn_def)
qed

lemma good_nth: "good_pairs c ks \<Longrightarrow> a < length ks \<Longrightarrow> b < length ks \<Longrightarrow> good_pair (ks ! a) \<and> good_pair (ks ! b) \<and> agrees c (ks ! a) (ks ! b)"
  by (simp add: good_pairs_def)

lemma pair_eq: "good_pairs c ks \<Longrightarrow> a < length ks \<Longrightarrow> b < length ks \<Longrightarrow> kp_public (ks ! a) = kp_public (ks ! b) \<longleftrightarrow> a = b"
  using nth_eq_iff_index_eq [of "map kp_public ks" a b] by (auto simp: good_pairs_def)

lemma conv_okI:
  assumes "sound_crypto c" "good_pairs c (gh_keys g)"
    and "\<And>p. length (gh_keys g) \<le> gh_joined g p + 3 \<and> gh_joined g p + 2 \<le> length (gh_keys g)
          \<and> (turn p (length (gh_keys g)) \<longrightarrow> gh_joined g p + 2 = length (gh_keys g))"
    and "\<And>p. turn p (gh_joined g p) \<Longrightarrow> sends_ok c sh g (gh_joined g p) (cv_session cv p)"
    and "\<And>p. \<not> turn p (gh_joined g p) \<Longrightarrow> receives_ok c sh g (gh_joined g p) (cv_session cv p)"
    and "\<And>p. direction_ok c sh g p cv"
  shows "conv_ok c sh g cv"
  unfolding conv_ok_def using assms by blast

lemma message_ok_extend:
  assumes "message_ok c sh g p mp x" "gh_joined g p + 2 \<le> length (gh_keys g)" "gh_joined g p \<le> j" "gh_sent g' = gh_sent g"
    "gh_keys g' = gh_keys g @ ks" "gh_joined g' p = j"
  shows "message_ok c sh g' p mp x"
  using assms by (auto simp: message_ok_def nth_append)

lemma epoch_entry_extend: "Suc (fst x) < length ks \<Longrightarrow> epoch_entry c sh (ks @ ks') x = epoch_entry c sh ks x"
  by (simp add: epoch_entry_def nth_append)

lemma pool_epoch: "direction_ok c sh g p cv \<Longrightarrow> x \<in> set (gh_pool g p) \<Longrightarrow> turn p (fst x) \<and> fst x \<le> gh_joined g p \<and> snd x < gh_sent g (fst x)"
  by (auto simp: direction_ok_def list_all2_conv_all_nth in_set_conv_nth message_ok_def)

lemma sends_extend:
  assumes "sends_ok c sh g j s" "j + 2 \<le> length (gh_keys g)" "gh_keys g' = gh_keys g @ ks" "gh_sent g' = gh_sent g" "gh_recv g' = gh_recv g"
  shows "sends_ok c sh g' j s"
proof -
  have "root_key c sh (gh_keys g @ ks) (Suc j) = root_key c sh (gh_keys g) (Suc j)" using assms(2) by (intro root_key_append) simp
  with assms show ?thesis by (auto simp: sends_ok_def nth_append simp del: root_key.simps)
qed

lemma direction_extend:
  assumes d: "direction_ok c sh g p cv" and len: "gh_joined g p + 2 \<le> length (gh_keys g)"
    and g': "gh_keys g' = gh_keys g @ ks" "gh_sent g' = gh_sent g" "gh_recv g' = gh_recv g" "gh_pool g' = gh_pool g" "gh_skip g' = gh_skip g"
    and J: "gh_joined g p \<le> gh_joined g' p" "gh_joined g (\<not> p) \<le> gh_joined g' (\<not> p)"
      "\<And>e. turn p e \<Longrightarrow> e + 1 < gh_joined g' (\<not> p) \<Longrightarrow> gh_recv g e = gh_sent g e"
    and cv': "cv_pool cv' p = cv_pool cv p" "ls_skipped (cv_session cv' (\<not> p)) = ls_skipped (cv_session cv (\<not> p))"
  shows "direction_ok c sh g' p cv'"
proof -
  have "list_all2 (message_ok c sh g' p) (cv_pool cv' p) (gh_pool g' p)"
    using d len g' J(1) cv'(1) unfolding direction_ok_def by (auto elim!: list_all2_mono intro: message_ok_extend)
  moreover have "epoch_entry c sh (gh_keys g') x = epoch_entry c sh (gh_keys g) x" if "x \<in> set (gh_skip g p)" for x
  proof -
    have "x \<in> set (gh_pool g p)" using d that by (auto simp: direction_ok_def)
    with pool_epoch [OF d, of x] len show ?thesis by (auto simp: g'(1) intro!: epoch_entry_extend)
  qed
  then have "map (epoch_entry c sh (gh_keys g')) (gh_skip g p) = map (epoch_entry c sh (gh_keys g)) (gh_skip g p)" by simp
  ultimately show ?thesis using d g' J cv' unfolding direction_ok_def by auto
qed

lemma turn_less [simp]: "2 \<le> e \<Longrightarrow> turn q (e - 2) \<longleftrightarrow> turn q e" "e \<noteq> 0 \<Longrightarrow> turn q (e - Suc 0) \<longleftrightarrow> \<not> turn q e"
  by (auto simp: turn_def)

text \<open>What a party's session and direction depend on.\<close>

definition same_side :: "bool \<Rightarrow> (nat \<Rightarrow> nat) \<Rightarrow> (nat \<Rightarrow> nat) \<Rightarrow> bool" where
  "same_side q f f' \<longleftrightarrow> (\<forall>e. turn q e \<longrightarrow> f' e = f e)"

lemma sends_cong:
  assumes "sends_ok c sh g j s" "turn q j" "gh_keys g' = gh_keys g" "same_side q (gh_sent g) (gh_sent g')"
    "same_side (\<not> q) (gh_recv g) (gh_recv g')"
  shows "sends_ok c sh g' j s"
  using assms by (auto simp: sends_ok_def same_side_def simp del: root_key.simps)

lemma receives_cong:
  assumes "receives_ok c sh g j s" "\<not> turn q j" "gh_keys g' = gh_keys g" "same_side q (gh_sent g) (gh_sent g')"
    "same_side (\<not> q) (gh_recv g) (gh_recv g')"
  shows "receives_ok c sh g' j s"
  using assms by (auto simp: receives_ok_def same_side_def simp del: root_key.simps)

lemma message_cong:
  assumes "message_ok c sh g p mp x" "gh_keys g' = gh_keys g" "same_side p (gh_sent g) (gh_sent g')" "gh_joined g p \<le> gh_joined g' p"
  shows "message_ok c sh g' p mp x"
  using assms by (auto simp: message_ok_def same_side_def)

lemma direction_cong:
  assumes "direction_ok c sh g p cv" "gh_keys g' = gh_keys g" "same_side p (gh_sent g) (gh_sent g')" "same_side p (gh_recv g) (gh_recv g')"
    "gh_joined g p \<le> gh_joined g' p" "gh_joined g' (\<not> p) = gh_joined g (\<not> p)" "gh_pool g' p = gh_pool g p" "gh_skip g' p = gh_skip g p"
    "cv_pool cv' p = cv_pool cv p" "ls_skipped (cv_session cv' (\<not> p)) = ls_skipped (cv_session cv (\<not> p))"
  shows "direction_ok c sh g' p cv'"
proof -
  have "list_all2 (message_ok c sh g' p) (cv_pool cv' p) (gh_pool g' p)"
    using assms unfolding direction_ok_def by (auto elim!: list_all2_mono intro: message_cong [OF _ assms(2,3)])
  moreover have "{x \<in> set (gh_pool g p). snd x < gh_recv g' (fst x)} = {x \<in> set (gh_pool g p). snd x < gh_recv g (fst x)}"
    using pool_epoch [OF assms(1)] assms(4) by (auto simp: same_side_def)
  ultimately show ?thesis using assms unfolding direction_ok_def same_side_def by auto
qed

end
