(* ===== verification/E2E_Examples.thy ===== *)
theory E2E_Examples
  imports E2E_Conversation
begin

text \<open>
  A concrete platform on which the properties of the end-to-end encryption are instantiated: public and
  private keys are the same 32 bytes, the shared secret of two keys is their sum, the derived bytes are a prefix of what
  goes in, and a ciphertext carries the key that opens it.
\<close>

definition toy_crypto :: crypto where
  "toy_crypto = \<lparr>node_dh = \<lambda>a b. Some (map2 (+) (drop 16 a) (drop 12 b)), node_public = \<lambda>a. Some (X25519_SPKI_PREFIX @ drop 16 a),
     noble_hkdf = \<lambda>ikm salt info n. take n (map2 (\<lambda>x y. x + 3 * y) ikm salt @ map ((+) 1) ikm @ salt @ replicate n 0),
     noble_encrypt = \<lambda>k n ad pt. pt @ k,
     noble_decrypt = \<lambda>k n ad ct. if length k \<le> length ct \<and> drop (length ct - length k) ct = k then Some (take (length ct - length k) ct) else None,
     noble_sign = \<lambda>m k. Some (k @ m), noble_verify = \<lambda>sig m k. Some (sig = k @ m),
     base58btc_encode = \<lambda>bs. CHR ''z'' # bytesToHex bs, base58btc_decode = \<lambda>s. if take 1 s = ''z'' then Some (hexToBytes (tl s)) else None,
     encodeCBOR = \<lambda>_. [], decodeCBOR = \<lambda>_. None\<rparr>"

lemma toy_sound: "sound_crypto toy_crypto"
  by (auto simp: sound_crypto_def toy_crypto_def min_def)

definition toy_key :: "nat \<Rightarrow> x25519_pair" where
  "toy_key n = \<lparr>kp_public = replicate 32 (of_nat n), kp_private = replicate 32 (of_nat n)\<rparr>"

definition toy_draws :: "nat \<Rightarrow> draws" where
  "toy_draws n = \<lparr>dr_keypair = (X25519_PKCS8_PREFIX @ replicate 32 (of_nat n), X25519_SPKI_PREFIX @ replicate 32 (of_nat n)),
     dr_nonce = replicate 24 7, dr_id = [of_nat n], dr_now = 1000\<rparr>"

definition toy_bootstrap :: bootstrap_state where
  "toy_bootstrap = \<lparr>bs_selfIdentityKey = ''aa'', bs_peerIdentityKey = ''bb'', bs_initiatorEphemeralKey = ''cc'', bs_recipientSignedPreKeyId = 1,
     bs_recipientSignedPreKeyPublic = ''dd'', bs_recipientOneTimePreKeyId = None\<rparr>"

definition toy_input :: "session_role \<Rightarrow> nat \<Rightarrow> nat \<Rightarrow> ratchet_input" where
  "toy_input r own peer = \<lparr>ri_sessionId = ''s'', ri_peerDid = ''peer'', ri_peerDeviceId = ''d'', ri_selfDeviceId = ''d'', ri_role = r,
     ri_rootKey = replicate 32 9, ri_currentRatchetKey = toy_key own, ri_remoteRatchetPublicKey = kp_public (toy_key peer),
     ri_bootstrap = toy_bootstrap, ri_createdAt = 0\<rparr>"

text \<open>The initiator says two messages that arrive in the wrong order around an answer, and goes on with a new chain.\<close>

definition toy_events :: "conv_event list" where
  "toy_events = [Say True [1] (toy_draws 3), Say True [2] (toy_draws 4), Hear False 1 1, Say False [3] (toy_draws 5), Hear True 0 2,
     Say True [4] (toy_draws 6), Hear False 1 3, Hear False 0 4]"

end
