(* ===== verification/E2E_Ratchet_Props.thy ===== *)
theory E2E_Ratchet_Props
  imports E2E_Examples
begin

text \<open>
  Every step of a conversation keeps the invariant of \<open>E2E_Conversation\<close>, so that every message that is
  heard decrypts to what was said.
\<close>

section \<open>Saying\<close>

text \<open>A party that has no sending chain draws a key pair and opens the next epoch.\<close>

lemma open_epoch:
  assumes ok: "conv_ok c sh g cv" and r: "\<not> turn p (gh_joined g p)" and good: "good_pairs c (gh_keys g @ [k])"
    and dr: "generateX25519KeyPair (dr_keypair dr) = Inr k"
  defines "g' \<equiv> g\<lparr>gh_keys := gh_keys g @ [k], gh_joined := (gh_joined g)(p := Suc (gh_joined g p))\<rparr>"
  shows "\<exists>s. ensureSendingChain c dr None (cv_session cv p) = Inr s \<and> conv_ok c sh g' (cv\<lparr>cv_session := (cv_session cv)(p := s)\<rparr>)"
proof -
  let ?j = "gh_joined g p" and ?ks = "gh_keys g @ [k]"
  have len: "length (gh_keys g) = ?j + 2" by (rule joined_last [OF ok r])
  have rec: "receives_ok c sh g ?j (cv_session cv p)" by (rule conv_ok_session(2) [OF ok r])
  have "good_pair k \<and> good_pair (gh_keys g ! Suc ?j) \<and> agrees c k (gh_keys g ! Suc ?j)"
    using good_nth [OF good, of "?j + 2" "Suc ?j"] len by (simp add: nth_append)
  then have dh: "diffieHellmanX25519 c (kp_private k) (kp_public (gh_keys g ! Suc ?j)) = Inr (dh_value c k (gh_keys g ! Suc ?j))"
    by (simp add: dh_good)
  have der: "deriveRootAndChainKeys c (root_key c sh (gh_keys g) (Suc ?j)) (dh_value c k (gh_keys g ! Suc ?j))
      = (root_key c sh ?ks (Suc (Suc ?j)), epoch_key c sh ?ks (Suc ?j))"
    using epoch_derive [of c sh ?ks "Suc ?j"] root_key_append [of "Suc ?j" "gh_keys g" c sh "[k]"] len by (simp add: nth_append)
  let ?s = "(cv_session cv p)\<lparr>ls_rootKey := bytesToHex (root_key c sh ?ks (Suc (Suc ?j))), ls_currentRatchetKey := hex_pair k,
     ls_sendingChainKey := Some (bytesToHex (epoch_key c sh ?ks (Suc ?j))), ls_previousSendChainLength := ls_nextSend (cv_session cv p), ls_nextSend := 0\<rparr>"
  have "ensureSendingChain c dr None (cv_session cv p) = Inr ?s"
    using rec dh der dr by (simp add: ensureSendingChain_def receives_ok_def given_def del: root_key.simps)
  moreover have "conv_ok c sh g' (cv\<lparr>cv_session := (cv_session cv)(p := ?s)\<rparr>)"
  proof (rule conv_okI)
    show "sound_crypto c" "good_pairs c (gh_keys g')" using conv_ok_session(4) [OF ok] good by (simp_all add: g'_def)
    have q: "gh_joined g (\<not> p) = ?j"
      using conv_ok_session(8) [OF ok, of "\<not> p"] r len by (simp add: turn_def)
    have zero: "gh_sent g (Suc ?j) = 0" using conv_ok_session(3) [OF ok, of p] r by (auto simp: direction_ok_def)
    show "length (gh_keys g') \<le> gh_joined g' r + 3 \<and> gh_joined g' r + 2 \<le> length (gh_keys g')
        \<and> (turn r (length (gh_keys g')) \<longrightarrow> gh_joined g' r + 2 = length (gh_keys g'))" for r
      using r len q by (cases "r = p") (auto simp: g'_def turn_def)
    have own: "sends_ok c sh g' (Suc ?j) ?s"
      using rec len zero by (auto simp: sends_ok_def receives_ok_def g'_def nth_append simp del: root_key.simps)
    have "sends_ok c sh g ?j (cv_session cv (\<not> p))"
      using conv_ok_session(1) [OF ok, of "\<not> p"] r by (simp add: q)
    then have other: "sends_ok c sh g' ?j (cv_session cv (\<not> p))"
      by (rule sends_extend) (simp_all add: g'_def len)
    show "sends_ok c sh g' (gh_joined g' x) (cv_session (cv\<lparr>cv_session := (cv_session cv)(p := ?s)\<rparr>) x)" for x
      by (rule both_parties [of _ p]) (use own other in \<open>simp_all add: g'_def q del: root_key.simps\<close>)
    have "turn x (gh_joined g' x)" for x
      by (rule both_parties [of _ p]) (simp_all add: g'_def q r)
    then show "\<not> turn x (gh_joined g' x) \<Longrightarrow>
        receives_ok c sh g' (gh_joined g' x) (cv_session (cv\<lparr>cv_session := (cv_session cv)(p := ?s)\<rparr>) x)" for x by blast
    have "gh_recv g e = gh_sent g e" if "turn (\<not> p) e" "e + 1 < Suc ?j" for e
    proof -
      have "e \<noteq> ?j - 1" using that r by (cases ?j) auto
      with that conv_ok_session(3) [OF ok, of "\<not> p"] show ?thesis by (simp add: direction_ok_def)
    qed
    moreover have "gh_recv g e = gh_sent g e" if "turn p e" "e + 1 < ?j" for e
      using that conv_ok_session(3) [OF ok, of p] q by (simp add: direction_ok_def)
    ultimately have "direction_ok c sh g' p (cv\<lparr>cv_session := (cv_session cv)(p := ?s)\<rparr>)"
        "direction_ok c sh g' (\<not> p) (cv\<lparr>cv_session := (cv_session cv)(p := ?s)\<rparr>)"
      using direction_extend [OF conv_ok_session(3,6) [OF ok, of p], of g' "[k]" "cv\<lparr>cv_session := (cv_session cv)(p := ?s)\<rparr>"]
        direction_extend [OF conv_ok_session(3,6) [OF ok, of "\<not> p"], of g' "[k]" "cv\<lparr>cv_session := (cv_session cv)(p := ?s)\<rparr>"]
      by (simp_all add: g'_def q)
    then show "direction_ok c sh g' x (cv\<lparr>cv_session := (cv_session cv)(p := ?s)\<rparr>)" for x
      by (rule both_parties [of _ p])
  qed
  ultimately show ?thesis by blast
qed

lemma direction_say:
  assumes d: "direction_ok c sh g p cv" and J: "gh_joined g (\<not> p) \<le> gh_joined g p + 1"
    and m: "message_ok c sh g' p mp (gh_joined g p, gh_sent g (gh_joined g p))"
    and g': "gh_keys g' = gh_keys g" "gh_sent g' = (gh_sent g)(gh_joined g p := Suc (gh_sent g (gh_joined g p)))" "gh_recv g' = gh_recv g"
      "gh_joined g' = gh_joined g" "gh_pool g' p = gh_pool g p @ [(gh_joined g p, gh_sent g (gh_joined g p))]" "gh_skip g' p = gh_skip g p"
    and cv': "cv_pool cv' p = cv_pool cv p @ [mp]" "ls_skipped (cv_session cv' (\<not> p)) = ls_skipped (cv_session cv (\<not> p))"
  shows "direction_ok c sh g' p cv'"
proof -
  let ?j = "gh_joined g p"
  have t: "turn p ?j" using m by (simp add: message_ok_def)
  have "message_ok c sh g' p mq x" if "message_ok c sh g p mq x" for mq x
  proof -
    have "fst x - 2 \<noteq> ?j" if "2 \<le> fst x"
    proof -
      have "fst x \<le> ?j" using \<open>message_ok c sh g p mq x\<close> by (simp add: message_ok_def)
      with that show ?thesis by linarith
    qed
    with that show ?thesis by (auto simp: message_ok_def g')
  qed
  then have all: "list_all2 (message_ok c sh g' p) (cv_pool cv' p) (gh_pool g' p)"
    using d m unfolding direction_ok_def cv' g' by (auto intro: list_all2_appendI elim!: list_all2_mono)
  have new: "(?j, gh_sent g ?j) \<notin> set (gh_pool g p)" using pool_epoch [OF d] by fastforce
  have le: "gh_recv g ?j \<le> gh_sent g ?j" using d t unfolding direction_ok_def by blast
  have "(e, i) \<in> set (gh_pool g' p)" if "turn p e" "gh_recv g' e \<le> i" "i < gh_sent g' e" for e i
  proof (cases "e = ?j \<and> i = gh_sent g ?j")
    case False
    then have "i < gh_sent g e" using that(3) by (auto simp: g' split: if_splits)
    with that d show ?thesis unfolding direction_ok_def g' by auto
  qed (simp add: g')
  moreover have "{x \<in> set (gh_pool g' p). snd x < gh_recv g' (fst x)} = {x \<in> set (gh_pool g p). snd x < gh_recv g (fst x)}"
    using le by (auto simp: g')
  moreover have "gh_recv g' e \<le> gh_sent g' e" if "turn p e" for e
    using d that unfolding direction_ok_def g' by (auto intro: le_SucI)
  ultimately show ?thesis using d new all J unfolding direction_ok_def cv' g' by auto
qed

lemma say_sending:
  assumes ok: "conv_ok c sh g cv" and t: "turn p (gh_joined g p)"
    and i: "ensureSendingChain c dr None (rx_session i) = Inr (cv_session cv p)" "rx_nonce i = None" "rx_ratchetKeyPair i = None"
      "rx_plaintext i = pt" "length (dr_nonce dr) = 24"
  shows "\<exists>m s mk g'. encryptRatchetMessage c dr i = Inr (m, s, mk) \<and> gh_keys g' = gh_keys g
    \<and> conv_ok c sh g' (cv\<lparr>cv_session := (cv_session cv)(p := s), cv_pool := (cv_pool cv)(p := cv_pool cv p @ [(m, pt)])\<rparr>)"
proof -
  define j where "j = gh_joined g p"
  define g' where "g' = g\<lparr>gh_sent := (gh_sent g)(j := Suc (gh_sent g j)), gh_pool := (gh_pool g)(p := gh_pool g p @ [(j, gh_sent g j)])\<rparr>"
  let ?s = "cv_session cv p" and ?k = "epoch_key c sh (gh_keys g) j"
  have c: "sound_crypto c" by (rule conv_ok_session(4) [OF ok])
  have s: "sends_ok c sh g j ?s" using conv_ok_session(1) [OF ok t] by (simp add: j_def)
  let ?mk = "message_key c ?k (gh_sent g j)"
  let ?h = "\<lparr>sm_version = E2E_PROTOCOL_VERSION, sm_senderDid = rx_senderDid i, sm_receiverDid = rx_receiverDid i,
      sm_senderDeviceId = ls_selfDeviceId ?s, sm_receiverDeviceId = ls_peerDeviceId ?s, sm_sessionId = ls_sessionId ?s,
      sm_messageId = or_else (rx_messageId i) (generateMessageId dr), sm_ratchetPublicKey = kp_public (gh_keys g ! Suc j),
      sm_previousChainLength = ls_previousSendChainLength ?s, sm_messageNumber = ls_nextSend ?s, sm_nonce = dr_nonce dr\<rparr>"
  obtain m where enc: "encryptSessionMessage c ?h ?mk pt = Inr m" and tr: "session_header.truncate m = ?h"
    and dec: "decryptSessionMessage c m ?mk = Inr pt"
    using decrypt_encrypt_session [of c ?mk ?h pt] c message_key_length [OF c] i(5) by (auto simp: sound_crypto_def)
  let ?s' = "?s\<lparr>ls_sendingChainKey := Some (bytesToHex (chain_key c ?k (Suc (gh_sent g j)))), ls_nextSend := ls_nextSend ?s + 1,
     ls_updatedAt := or_else (rx_now i) (dr_now dr)\<rparr>"
  have sk: "given (ls_sendingChainKey ?s) = Some (bytesToHex (chain_key c ?k (gh_sent g j)))"
    using s given_hex [OF chain_key_length [OF c epoch_key_length [OF c]]] by (simp add: sends_ok_def)
  have pub: "hexToBytes (lk_publicKey (ls_currentRatchetKey ?s)) = kp_public (gh_keys g ! Suc j)"
    using s by (simp add: sends_ok_def hex_pair_def)
  have "encryptRatchetMessage c dr i = Inr (m, ?s', ?mk)"
    using i sk enc by (simp add: encryptRatchetMessage_def chain_step or_else_def [of None] assertNonce_def pub del: chain_key.simps)
  moreover have "conv_ok c sh g' (cv\<lparr>cv_session := (cv_session cv)(p := ?s'), cv_pool := (cv_pool cv)(p := cv_pool cv p @ [(m, pt)])\<rparr>)"
      (is "conv_ok c sh g' ?cv")
  proof (rule conv_okI)
    show "sound_crypto c" "good_pairs c (gh_keys g')" using c conv_ok_session(5) [OF ok] by (simp_all add: g'_def)
    show "length (gh_keys g') \<le> gh_joined g' x + 3 \<and> gh_joined g' x + 2 \<le> length (gh_keys g')
        \<and> (turn x (length (gh_keys g')) \<longrightarrow> gh_joined g' x + 2 = length (gh_keys g'))" for x
      using conv_ok_session(6-8) [OF ok, of x] by (simp add: g'_def)

    have other: "same_side (\<not> p) (gh_sent g) (gh_sent g')" "same_side x (gh_recv g) (gh_recv g')" for x
      using t by (auto simp: same_side_def g'_def j_def)
    have own: "sends_ok c sh g' j ?s'" using s by (auto simp: sends_ok_def g'_def simp del: root_key.simps)
    have gj: "gh_joined g' = gh_joined g" "gh_keys g' = gh_keys g" and cvs: "cv_session ?cv p = ?s'" "cv_session ?cv (\<not> p) = cv_session cv (\<not> p)"
      by (simp_all add: g'_def)
    have peer: "turn (\<not> p) (gh_joined g (\<not> p)) \<Longrightarrow> sends_ok c sh g' (gh_joined g (\<not> p)) (cv_session cv (\<not> p))"
      "\<not> turn (\<not> p) (gh_joined g (\<not> p)) \<Longrightarrow> receives_ok c sh g' (gh_joined g (\<not> p)) (cv_session cv (\<not> p))"
      using sends_cong [OF conv_ok_session(1) [OF ok, of "\<not> p"] _ gj(2) other(1,2)]
        receives_cong [OF conv_ok_session(2) [OF ok, of "\<not> p"] _ gj(2) other(1,2)] by blast+
    have own': "sends_ok c sh g' (gh_joined g p) (cv_session ?cv p)" using own unfolding cvs unfolding j_def .
    have peer': "turn (\<not> p) (gh_joined g (\<not> p)) \<Longrightarrow> sends_ok c sh g' (gh_joined g (\<not> p)) (cv_session ?cv (\<not> p))"
      "\<not> turn (\<not> p) (gh_joined g (\<not> p)) \<Longrightarrow> receives_ok c sh g' (gh_joined g (\<not> p)) (cv_session ?cv (\<not> p))"
      using peer unfolding cvs by blast+
    show "turn x (gh_joined g' x) \<Longrightarrow> sends_ok c sh g' (gh_joined g' x) (cv_session ?cv x)" for x
      unfolding gj by (rule both_parties [of "\<lambda>x. turn x (gh_joined g x) \<longrightarrow> sends_ok c sh g' (gh_joined g x) (cv_session ?cv x)" p x, THEN mp])
        (use own' peer'(1) in blast)+
    show "\<not> turn x (gh_joined g' x) \<Longrightarrow> receives_ok c sh g' (gh_joined g' x) (cv_session ?cv x)" for x
      unfolding gj by (rule both_parties [of "\<lambda>x. \<not> turn x (gh_joined g x) \<longrightarrow> receives_ok c sh g' (gh_joined g x) (cv_session ?cv x)" p x, THEN mp])
        (use t peer'(2) in blast)+
    have mk: "message_ok c sh g' p (m, pt) (j, gh_sent g j)"
      using t s dec arg_cong [OF tr, of sm_ratchetPublicKey] arg_cong [OF tr, of sm_messageNumber] arg_cong [OF tr, of sm_previousChainLength]
      by (auto simp: message_ok_def g'_def j_def sends_ok_def session_header.truncate_def)
    have "direction_ok c sh g' p ?cv"
      by (rule direction_say [where mp = "(m, pt)", OF conv_ok_session(3) [OF ok] _ mk [unfolded j_def]]) (use conv_ok_session(6,7) [OF ok, of p] conv_ok_session(6) [OF ok, of "\<not> p"] in \<open>simp_all add: g'_def j_def\<close>)
    moreover have "direction_ok c sh g' (\<not> p) ?cv"
      by (rule direction_cong [OF conv_ok_session(3) [OF ok] gj(2) other(1,2)]) (simp_all add: g'_def)
    ultimately show "direction_ok c sh g' x ?cv" for x by (rule both_parties [of _ p])
  qed
  moreover have "gh_keys g' = gh_keys g" by (simp add: g'_def)
  ultimately show ?thesis by blast
qed



lemma say_ok:
  assumes ok: "conv_ok c sh g cv" and dr: "draws_ok dr" and good: "good_pairs c (gh_keys g @ [drawn_by dr])"
  shows "\<exists>g' cv'. conv_say c did p pt dr cv = Inr cv' \<and> conv_ok c sh g' cv' \<and> gh_keys g' \<in> {gh_keys g, gh_keys g @ [drawn_by dr]}
    \<and> (\<lambda>q. map snd (cv_pool cv' q)) = (\<lambda>q. map snd (cv_pool cv q))(p := map snd (cv_pool cv p) @ [pt]) \<and> cv_heard cv' = cv_heard cv"
proof -
  let ?i = "\<lparr>rx_session = cv_session cv p, rx_plaintext = pt, rx_senderDid = did p, rx_receiverDid = did (\<not> p), rx_messageId = None,
      rx_nonce = None, rx_ratchetKeyPair = None, rx_now = None\<rparr>"
  have n: "length (dr_nonce dr) = 24" using dr by (simp add: draws_ok_def)
  show ?thesis
  proof (cases "turn p (gh_joined g p)")
    case True
    have "sends_ok c sh g (gh_joined g p) (cv_session cv p)" by (rule conv_ok_session(1) [OF ok True])
    then have "given (ls_sendingChainKey (cv_session cv p)) \<noteq> None"
      using given_hex [OF chain_key_length [OF conv_ok_session(4) [OF ok] epoch_key_length [OF conv_ok_session(4) [OF ok]]]]
      by (simp add: sends_ok_def)
    then have e: "ensureSendingChain c dr None (rx_session ?i) = Inr (cv_session cv p)" by (auto simp: ensureSendingChain_def)
    obtain m s mk g' where "encryptRatchetMessage c dr ?i = Inr (m, s, mk)" "gh_keys g' = gh_keys g"
      "conv_ok c sh g' (cv\<lparr>cv_session := (cv_session cv)(p := s), cv_pool := (cv_pool cv)(p := cv_pool cv p @ [(m, pt)])\<rparr>)"
      using say_sending [OF ok True e _ _ _ n, of pt] by auto
    then show ?thesis by (intro exI [of _ g']) (auto simp: conv_say_def)
  next
    case False
    obtain s where e: "ensureSendingChain c dr None (rx_session ?i) = Inr s"
      and ok1: "conv_ok c sh (g\<lparr>gh_keys := gh_keys g @ [drawn_by dr], gh_joined := (gh_joined g)(p := Suc (gh_joined g p))\<rparr>)
          (cv\<lparr>cv_session := (cv_session cv)(p := s)\<rparr>)"
      using open_epoch [OF ok False good] drawn_pair [OF dr] by auto
    obtain m s' mk g' where "encryptRatchetMessage c dr ?i = Inr (m, s', mk)" "gh_keys g' = gh_keys g @ [drawn_by dr]"
      "conv_ok c sh g' (cv\<lparr>cv_session := (cv_session cv)(p := s'), cv_pool := (cv_pool cv)(p := cv_pool cv p @ [(m, pt)])\<rparr>)"
      using say_sending [OF ok1 _ _ _ _ _ n, of p ?i pt] e False by auto
    then show ?thesis by (intro exI [of _ g']) (auto simp: conv_say_def)
  qed
qed

section \<open>Hearing\<close>

lemma take_first_map:
  "distinct xs \<Longrightarrow> (\<And>y. y \<in> set xs \<Longrightarrow> P (f y) \<longleftrightarrow> y = x) \<Longrightarrow>
   take_first P (map f xs) = (if x \<in> set xs then Some (f x, map f (remove1 x xs)) else None)"
  by (induction xs) auto

lemma take_drop_nth: "k < length xs \<Longrightarrow> distinct xs \<Longrightarrow> set (take k xs @ drop (Suc k) xs) = set xs - {xs ! k}"
proof -
  assume k: "k < length xs" and d: "distinct xs"
  then have "xs = take k xs @ xs ! k # drop (Suc k) xs" by (simp add: id_take_nth_drop)
  with d have "distinct (take k xs @ xs ! k # drop (Suc k) xs)" by simp
  then have "set (take k xs @ drop (Suc k) xs) = set (take k xs @ xs ! k # drop (Suc k) xs) - {xs ! k}" by auto
  with \<open>xs = _\<close> show ?thesis by simp
qed

lemma direction_advance:
  assumes d: "direction_ok c sh g q cv" and b: "turn q e" "gh_recv g e \<le> b" "b \<le> gh_sent g e"
    and g': "gh_keys g' = gh_keys g" "gh_sent g' = gh_sent g" "gh_recv g' = (gh_recv g)(e := b)" "gh_pool g' q = gh_pool g q"
      "gh_skip g' q = gh_skip g q @ map (Pair e) [gh_recv g e..<b]" "gh_joined g q \<le> gh_joined g' q"
    and J: "\<And>e'. turn q e' \<Longrightarrow> e' + 1 < gh_joined g' (\<not> q) \<Longrightarrow> gh_recv g' e' = gh_sent g e'"
      "\<And>e'. turn q e' \<Longrightarrow> gh_joined g' (\<not> q) < e' \<Longrightarrow> gh_recv g' e' = 0"
    and cv': "cv_pool cv' q = cv_pool cv q"
      "ls_skipped (cv_session cv' (\<not> q)) = ls_skipped (cv_session cv (\<not> q)) @ map (\<lambda>i. epoch_entry c sh (gh_keys g) (e, i)) [gh_recv g e..<b]"
  shows "direction_ok c sh g' q cv'"
proof -
  have "list_all2 (message_ok c sh g' q) (cv_pool cv' q) (gh_pool g' q)"
    using d g'(1,2,4,6) cv'(1) unfolding direction_ok_def by (auto elim!: list_all2_mono intro: message_cong simp: same_side_def)
  moreover have set: "set (gh_skip g q) = {x \<in> set (gh_pool g q). snd x < gh_recv g (fst x)}"
    and all: "\<And>e i. turn q e \<Longrightarrow> gh_recv g e \<le> i \<Longrightarrow> i < gh_sent g e \<Longrightarrow> (e, i) \<in> set (gh_pool g q)"
    using d unfolding direction_ok_def by blast+
  then have "set (gh_skip g' q) = {x \<in> set (gh_pool g' q). snd x < gh_recv g' (fst x)}"
  proof (intro set_eqI iffI)
    fix x assume "x \<in> set (gh_skip g' q)"
    then consider "x \<in> set (gh_skip g q)" | i where "x = (e, i)" "gh_recv g e \<le> i" "i < b" by (auto simp: g')
    then show "x \<in> {x \<in> set (gh_pool g' q). snd x < gh_recv g' (fst x)}"
      using set all b by cases (auto simp: g')
  next
    fix x assume "x \<in> {x \<in> set (gh_pool g' q). snd x < gh_recv g' (fst x)}"
    then show "x \<in> set (gh_skip g' q)" using set by (cases x) (auto simp: g' split: if_splits)
  qed
  moreover have "distinct (gh_skip g' q)"
    using d set by (auto simp: g' direction_ok_def distinct_map inj_on_def)
  moreover have "ls_skipped (cv_session cv' (\<not> q)) = map (epoch_entry c sh (gh_keys g')) (gh_skip g' q)"
    using d by (simp add: direction_ok_def g' cv')
  moreover have "gh_recv g' e' \<le> gh_sent g' e'" if "turn q e'" for e' using d that b by (simp add: direction_ok_def g')
  moreover have "(e', i) \<in> set (gh_pool g' q)" if "turn q e'" "gh_recv g' e' \<le> i" "i < gh_sent g' e'" for e' i
    using that all [of e' i] b by (auto simp: g' split: if_splits)
  moreover have "gh_sent g' e' = 0" if "turn q e'" "gh_joined g' q < e'" for e' using d that g'(2,6) by (simp add: direction_ok_def)
  moreover have "distinct (gh_pool g' q)" using d by (simp add: direction_ok_def g')
  ultimately show ?thesis using J unfolding direction_ok_def g'(2) by blast
qed

lemma direction_take:
  assumes d: "direction_ok c sh g q cv" and k: "k < length (gh_pool g q)" "gh_pool g q ! k = x" "snd x < gh_recv g (fst x)"
    and g': "gh_keys g' = gh_keys g" "gh_sent g' = gh_sent g" "gh_recv g' = gh_recv g" "gh_joined g' = gh_joined g"
      "gh_pool g' q = take k (gh_pool g q) @ drop (Suc k) (gh_pool g q)" "gh_skip g' q = remove1 x (gh_skip g q)"
    and cv': "cv_pool cv' q = take k (cv_pool cv q) @ drop (Suc k) (cv_pool cv q)"
      "ls_skipped (cv_session cv' (\<not> q)) = map (epoch_entry c sh (gh_keys g)) (remove1 x (gh_skip g q))"
  shows "direction_ok c sh g' q cv'"
proof -
  have "message_ok c sh g' q = message_ok c sh g q" by (intro ext) (simp add: message_ok_def g')
  moreover have "list_all2 (message_ok c sh g q) (cv_pool cv q) (gh_pool g q)" using d unfolding direction_ok_def by blast
  ultimately have "list_all2 (message_ok c sh g' q) (cv_pool cv' q) (gh_pool g' q)"
    unfolding g' cv' by (intro list_all2_appendI list_all2_takeI list_all2_dropI) simp_all
  moreover have dis: "distinct (gh_pool g q)" "distinct (gh_skip g q)"
      "set (gh_skip g q) = {x \<in> set (gh_pool g q). snd x < gh_recv g (fst x)}"
    using d unfolding direction_ok_def by blast+
  moreover have pool: "set (gh_pool g' q) = set (gh_pool g q) - {x}" using take_drop_nth [OF k(1) dis(1)] k(2) g'(5) by simp
  moreover have "distinct (gh_pool g' q)" using dis(1) unfolding g'
    by (simp add: set_take_disj_set_drop_if_distinct)
  moreover have "set (gh_skip g' q) = {x \<in> set (gh_pool g' q). snd x < gh_recv g' (fst x)}"
    using dis pool by (auto simp: g'(3,6))
  ultimately show ?thesis using d k(3) unfolding direction_ok_def g' cv' by auto
qed

lemma skip_room:
  assumes d: "direction_ok c sh g q cv" and b: "turn q e" "b \<le> gh_sent g e" and x: "x \<in> set (gh_pool g q)" "gh_recv g (fst x) \<le> snd x"
    "fst x = e \<Longrightarrow> b \<le> snd x"
  shows "length (ls_skipped (cv_session cv (\<not> q))) + (b - gh_recv g e) < length (cv_pool cv q)"
proof -
  let ?l = "gh_skip g q @ map (Pair e) [gh_recv g e..<b]"
  have set: "set (gh_skip g q) = {x \<in> set (gh_pool g q). snd x < gh_recv g (fst x)}"
    and all: "\<And>e i. turn q e \<Longrightarrow> gh_recv g e \<le> i \<Longrightarrow> i < gh_sent g e \<Longrightarrow> (e, i) \<in> set (gh_pool g q)"
    and dis: "distinct (gh_skip g q)" "distinct (gh_pool g q)"
    using d unfolding direction_ok_def by blast+
  have "distinct ?l" using set dis by (auto simp: distinct_map inj_on_def)
  moreover have "set ?l \<subseteq> set (gh_pool g q) - {x}" using set all b x by auto
  ultimately have "length ?l \<le> card (set (gh_pool g q) - {x})" by (metis card_mono distinct_card finite_Diff finite_set)
  moreover have "card (set (gh_pool g q) - {x}) < length (gh_pool g q)" using x(1) by (metis card_Diff1_less dis(2) distinct_card finite_set)
  moreover have "length (cv_pool cv q) = length (gh_pool g q)" "length (ls_skipped (cv_session cv (\<not> q))) = length (gh_skip g q)"
    using d by (auto simp: direction_ok_def dest: list_all2_lengthD)
  ultimately show ?thesis by simp
qed

text \<open>What a party that hears changes.\<close>

lemma conv_ok_hear:
  assumes ok: "conv_ok c sh g cv"
    and g': "gh_keys g' = gh_keys g" "gh_sent g' = gh_sent g" "same_side p (gh_recv g) (gh_recv g')" "gh_pool g' p = gh_pool g p"
      "gh_skip g' p = gh_skip g p" "gh_joined g' (\<not> p) = gh_joined g (\<not> p)" "gh_joined g p \<le> gh_joined g' p"
    and len: "gh_joined g' p + 2 \<le> length (gh_keys g)" "turn p (length (gh_keys g)) \<Longrightarrow> gh_joined g' p + 2 = length (gh_keys g)"
    and own: "turn p (gh_joined g' p) \<Longrightarrow> sends_ok c sh g' (gh_joined g' p) s"
      "\<not> turn p (gh_joined g' p) \<Longrightarrow> receives_ok c sh g' (gh_joined g' p) s"
    and cv': "cv_session cv' = (cv_session cv)(p := s)" "cv_pool cv' p = cv_pool cv p"
    and d: "direction_ok c sh g' (\<not> p) cv'"
  shows "conv_ok c sh g' cv'"
proof (rule conv_okI)
  show "sound_crypto c" "good_pairs c (gh_keys g')" using conv_ok_session(4,5) [OF ok] g'(1) by simp_all
  have "gh_joined g' p + 3 \<ge> length (gh_keys g)" using conv_ok_session(7) [OF ok, of p] g'(7) by simp
  then have "length (gh_keys g) \<le> gh_joined g' p + 3 \<and> gh_joined g' p + 2 \<le> length (gh_keys g)
      \<and> (turn p (length (gh_keys g)) \<longrightarrow> gh_joined g' p + 2 = length (gh_keys g))" using len by blast
  moreover have "length (gh_keys g) \<le> gh_joined g' (\<not> p) + 3 \<and> gh_joined g' (\<not> p) + 2 \<le> length (gh_keys g)
      \<and> (turn (\<not> p) (length (gh_keys g)) \<longrightarrow> gh_joined g' (\<not> p) + 2 = length (gh_keys g))"
    unfolding g'(6) using conv_ok_session(6-8) [OF ok, of "\<not> p"] by blast
  ultimately show "length (gh_keys g') \<le> gh_joined g' x + 3 \<and> gh_joined g' x + 2 \<le> length (gh_keys g')
      \<and> (turn x (length (gh_keys g')) \<longrightarrow> gh_joined g' x + 2 = length (gh_keys g'))" for x
    unfolding g'(1) by (rule both_parties [of "\<lambda>x. length (gh_keys g) \<le> gh_joined g' x + 3 \<and> gh_joined g' x + 2 \<le> length (gh_keys g)
      \<and> (turn x (length (gh_keys g)) \<longrightarrow> gh_joined g' x + 2 = length (gh_keys g))" p x])
  have side: "same_side x (gh_sent g) (gh_sent g')" "same_side (\<not> \<not> p) (gh_recv g) (gh_recv g')" for x
    using g'(2,3) by (simp_all add: same_side_def)
  have s: "cv_session cv' p = s" "cv_session cv' (\<not> p) = cv_session cv (\<not> p)" by (simp_all add: cv')
  have own': "turn p (gh_joined g' p) \<longrightarrow> sends_ok c sh g' (gh_joined g' p) (cv_session cv' p)"
      "\<not> turn p (gh_joined g' p) \<longrightarrow> receives_ok c sh g' (gh_joined g' p) (cv_session cv' p)" using own unfolding s by blast+
  have peer: "turn (\<not> p) (gh_joined g' (\<not> p)) \<longrightarrow> sends_ok c sh g' (gh_joined g' (\<not> p)) (cv_session cv' (\<not> p))"
      "\<not> turn (\<not> p) (gh_joined g' (\<not> p)) \<longrightarrow> receives_ok c sh g' (gh_joined g' (\<not> p)) (cv_session cv' (\<not> p))"
    unfolding s g'(6) using sends_cong [OF conv_ok_session(1) [OF ok, of "\<not> p"] _ g'(1) side]
      receives_cong [OF conv_ok_session(2) [OF ok, of "\<not> p"] _ g'(1) side] by blast+
  show "turn x (gh_joined g' x) \<Longrightarrow> sends_ok c sh g' (gh_joined g' x) (cv_session cv' x)" for x
    using both_parties [of "\<lambda>x. turn x (gh_joined g' x) \<longrightarrow> sends_ok c sh g' (gh_joined g' x) (cv_session cv' x)" p x] own' peer by blast
  show "\<not> turn x (gh_joined g' x) \<Longrightarrow> receives_ok c sh g' (gh_joined g' x) (cv_session cv' x)" for x
    using both_parties [of "\<lambda>x. \<not> turn x (gh_joined g' x) \<longrightarrow> receives_ok c sh g' (gh_joined g' x) (cv_session cv' x)" p x] own' peer by blast
  have "direction_ok c sh g' p cv'"
    by (rule direction_cong [OF conv_ok_session(3) [OF ok] g'(1) side(1) g'(3)]) (simp_all add: g' cv')
  then show "direction_ok c sh g' x cv'" for x using d by (rule both_parties [of _ p])

qed

definition heard :: "bool \<Rightarrow> nat \<Rightarrow> bytes \<Rightarrow> session \<Rightarrow> conv \<Rightarrow> conv" where
  "heard p k pt s cv = cv\<lparr>cv_session := (cv_session cv)(p := s),
     cv_pool := (cv_pool cv)((\<not> p) := take k (cv_pool cv (\<not> p)) @ drop (Suc k) (cv_pool cv (\<not> p))), cv_heard := cv_heard cv @ [pt]\<rparr>"

lemma heard_simps [simp]: "cv_session (heard p k pt s cv) = (cv_session cv)(p := s)" "cv_pool (heard p k pt s cv) p = cv_pool cv p"
  "cv_pool (heard p k pt s cv) (\<not> p) = take k (cv_pool cv (\<not> p)) @ drop (Suc k) (cv_pool cv (\<not> p))"
  "cv_heard (heard p k pt s cv) = cv_heard cv @ [pt]"
  by (simp_all add: heard_def)

lemma pool_nth:
  assumes "direction_ok c sh g q cv" "k < length (cv_pool cv q)"
  shows "k < length (gh_pool g q)" "message_ok c sh g q (cv_pool cv q ! k) (gh_pool g q ! k)"
  using assms by (auto simp: direction_ok_def dest: list_all2_lengthD list_all2_nthD)

lemma session_skipped [simp]: "sends_ok c sh g j (s\<lparr>ls_skipped := l, ls_updatedAt := n\<rparr>) \<longleftrightarrow> sends_ok c sh g j s"
  "receives_ok c sh g j (s\<lparr>ls_skipped := l, ls_updatedAt := n\<rparr>) \<longleftrightarrow> receives_ok c sh g j s"
  "sends_ok c sh (g\<lparr>gh_pool := x, gh_skip := y\<rparr>) j s \<longleftrightarrow> sends_ok c sh g j s"
  "receives_ok c sh (g\<lparr>gh_pool := x, gh_skip := y\<rparr>) j s \<longleftrightarrow> receives_ok c sh g j s"
  by (simp_all add: sends_ok_def receives_ok_def)

text \<open>The search among the kept keys finds the key of this very message.\<close>

lemma skip_lookup:
  assumes ok: "conv_ok c sh g cv" and k: "k < length (cv_pool cv (\<not> p))" "cv_pool cv (\<not> p) ! k = (m, pt)" and x: "gh_pool g (\<not> p) ! k = x"
  shows "takeSkippedMessageKey (bytesToHex (sm_ratchetPublicKey m)) (sm_messageNumber m) (cv_session cv p)
    = (if x \<in> set (gh_skip g (\<not> p)) then (Some (message_key c (epoch_key c sh (gh_keys g) (fst x)) (snd x)),
         (cv_session cv p)\<lparr>ls_skipped := map (epoch_entry c sh (gh_keys g)) (remove1 x (gh_skip g (\<not> p)))\<rparr>)
       else (None, cv_session cv p))"
proof -
  have d: "direction_ok c sh g (\<not> p) cv" by (rule conv_ok_session(3) [OF ok])
  have mk: "message_ok c sh g (\<not> p) (m, pt) x" using pool_nth [OF d k(1)] k(2) x by simp
  have in_pool: "x \<in> set (gh_pool g (\<not> p))" if "x \<in> set (gh_skip g (\<not> p))" for x using d that by (auto simp: direction_ok_def)
  have eq: "sk_ratchetPublicKey (epoch_entry c sh (gh_keys g) y) = bytesToHex (sm_ratchetPublicKey m)
      \<and> sk_messageNumber (epoch_entry c sh (gh_keys g) y) = sm_messageNumber m \<longleftrightarrow> y = x" if "y \<in> set (gh_skip g (\<not> p))" for y
    using pool_epoch [OF d in_pool [OF that]] mk conv_ok_session(6) [OF ok, of "\<not> p"] pair_eq [OF conv_ok_session(5) [OF ok], of "Suc (fst y)" "Suc (fst x)"]
    by (auto simp: message_ok_def epoch_entry_def skip_entry_def prod_eq_iff)
  show ?thesis
    using d take_first_map [of "gh_skip g (\<not> p)" "\<lambda>y. sk_ratchetPublicKey y = bytesToHex (sm_ratchetPublicKey m) \<and> sk_messageNumber y = sm_messageNumber m"
        "epoch_entry c sh (gh_keys g)" x, OF _ eq]
    by (simp add: takeSkippedMessageKey_def direction_ok_def epoch_entry_def skip_entry_def)
qed

text \<open>A message whose key is kept.\<close>

lemma hear_skipped:
  assumes ok: "conv_ok c sh g cv" and k: "k < length (cv_pool cv (\<not> p))" "cv_pool cv (\<not> p) ! k = (m, pt)"
    and x: "gh_pool g (\<not> p) ! k \<in> set (gh_skip g (\<not> p))"
  shows "\<exists>s mk g'. decryptRatchetMessage c m now (cv_session cv p) = Inr (pt, s, mk, True) \<and> gh_keys g' = gh_keys g
    \<and> conv_ok c sh g' (heard p k pt s cv)"
proof -
  let ?x = "gh_pool g (\<not> p) ! k"
  have d: "direction_ok c sh g (\<not> p) cv" by (rule conv_ok_session(3) [OF ok])
  let ?s = "(cv_session cv p)\<lparr>ls_skipped := map (epoch_entry c sh (gh_keys g)) (remove1 ?x (gh_skip g (\<not> p))), ls_updatedAt := now\<rparr>"
  let ?g = "g\<lparr>gh_pool := (gh_pool g)((\<not> p) := take k (gh_pool g (\<not> p)) @ drop (Suc k) (gh_pool g (\<not> p))),
     gh_skip := (gh_skip g)((\<not> p) := remove1 ?x (gh_skip g (\<not> p)))\<rparr>"
  have mk: "message_ok c sh g (\<not> p) (m, pt) ?x" "k < length (gh_pool g (\<not> p))" using pool_nth [OF d k(1)] k(2) by simp_all
  have "decryptRatchetMessage c m now (cv_session cv p) = Inr (pt, ?s, message_key c (epoch_key c sh (gh_keys g) (fst ?x)) (snd ?x), True)"
    using mk(1) x unfolding decryptRatchetMessage_def skip_lookup [OF ok k refl] by (simp add: message_ok_def)
  moreover have "conv_ok c sh ?g (heard p k pt ?s cv)"
  proof (rule conv_ok_hear [OF ok, where s = ?s])
    show "direction_ok c sh ?g (\<not> p) (heard p k pt ?s cv)"
      by (rule direction_take [OF d mk(2) refl]) (use d x in \<open>auto simp: direction_ok_def\<close>)
    show "gh_joined ?g p + 2 \<le> length (gh_keys g)" "turn p (length (gh_keys g)) \<Longrightarrow> gh_joined ?g p + 2 = length (gh_keys g)"
      using conv_ok_session(6,8) [OF ok, of p] by simp_all
    show "turn p (gh_joined ?g p) \<Longrightarrow> sends_ok c sh ?g (gh_joined ?g p) ?s" "\<not> turn p (gh_joined ?g p) \<Longrightarrow> receives_ok c sh ?g (gh_joined ?g p) ?s"
      using conv_ok_session(1,2) [OF ok, of p] by simp_all
  qed (simp_all add: same_side_def)
  moreover have "gh_keys ?g = gh_keys g" by simp
  ultimately show ?thesis by blast
qed

text \<open>The epoch that a party receives in.\<close>

definition receiving :: "ghost \<Rightarrow> bool \<Rightarrow> nat \<Rightarrow> bool" where
  "receiving g p e \<longleftrightarrow> gh_joined g p = (if turn p (gh_joined g p) then Suc e else e)"

lemma receiving_session:
  assumes "conv_ok c sh g cv" "receiving g p e"
  shows "ls_receivingChainKey (cv_session cv p) = Some (bytesToHex (chain_key c (epoch_key c sh (gh_keys g) e) (gh_recv g e)))"
    "ls_remoteRatchetPublicKey (cv_session cv p) = bytesToHex (kp_public (gh_keys g ! Suc e))"
    "ls_nextReceive (cv_session cv p) = int (gh_recv g e)"
  using conv_ok_session(1,2) [OF assms(1), of p] assms(2)
  by (cases "turn p (gh_joined g p)"; simp add: receiving_def sends_ok_def receives_ok_def)+

lemma receiving_advance:
  assumes r: "receiving g p e" and g': "gh_keys g' = gh_keys g" "gh_sent g' = gh_sent g" "gh_recv g' = (gh_recv g)(e := b)"
    and s': "s' = s\<lparr>ls_skipped := l, ls_nextReceive := int b,
      ls_receivingChainKey := Some (bytesToHex (chain_key c (epoch_key c sh (gh_keys g) e) b)), ls_updatedAt := now\<rparr>"
  shows "turn p (gh_joined g p) \<Longrightarrow> sends_ok c sh g (gh_joined g p) s \<Longrightarrow> sends_ok c sh g' (gh_joined g p) s'"
    "\<not> turn p (gh_joined g p) \<Longrightarrow> receives_ok c sh g (gh_joined g p) s \<Longrightarrow> receives_ok c sh g' (gh_joined g p) s'"
  using r by (simp_all add: receiving_def sends_ok_def receives_ok_def g' s' del: root_key.simps)

lemma hear_current:
  assumes ok: "conv_ok c sh g cv" and k: "k < length (cv_pool cv (\<not> p))" "cv_pool cv (\<not> p) ! k = (m, pt)" "length (cv_pool cv (\<not> p)) \<le> 65"
    and x: "gh_pool g (\<not> p) ! k = (e, i)" "gh_recv g e \<le> i" and r: "receiving g p e"
  shows "\<exists>s mk g'. decrypt_next c m now (cv_session cv p) = Inr (pt, s, mk, False) \<and> gh_keys g' = gh_keys g
    \<and> conv_ok c sh g' (heard p k pt s cv)"
proof -
  have d: "direction_ok c sh g (\<not> p) cv" by (rule conv_ok_session(3) [OF ok])
  let ?k = "epoch_key c sh (gh_keys g) e" and ?r = "gh_recv g e"
  have mk: "message_ok c sh g (\<not> p) (m, pt) (e, i)" "k < length (gh_pool g (\<not> p))" using pool_nth [OF d k(1)] k(2) x(1) by simp_all
  have ei: "turn (\<not> p) e" "i < gh_sent g e" "(e, i) \<in> set (gh_pool g (\<not> p))" using mk x(1) by (auto simp: message_ok_def in_set_conv_nth)
  have room: "length (ls_skipped (cv_session cv p)) + (i - ?r) \<le> 64"
    using skip_room [OF d ei(1), of i "(e, i)"] ei x(2) k(3) by simp
  let ?l = "ls_skipped (cv_session cv p) @ map (skip_entry c (kp_public (gh_keys g ! Suc e)) ?k) [?r..<i]"
  let ?s = "(cv_session cv p)\<lparr>ls_skipped := ?l, ls_nextReceive := int (Suc i),
     ls_receivingChainKey := Some (bytesToHex (chain_key c ?k (Suc i))), ls_updatedAt := now\<rparr>"
  have c: "sound_crypto c" "length ?k = 32" using conv_ok_session(4) [OF ok] epoch_key_length by auto
  have dec: "decrypt_next c m now (cv_session cv p) = Inr (pt, ?s, message_key c ?k i, False)"
    using decrypt_next_ok [OF c receiving_session [OF ok r] x(2) room, of m pt now] mk(1) by (simp add: message_ok_def)
  define g1 where "g1 = g\<lparr>gh_recv := (gh_recv g)(e := Suc i), gh_skip := (gh_skip g)((\<not> p) := gh_skip g (\<not> p) @ map (Pair e) [?r..<Suc i])\<rparr>"
  define cv1 where "cv1 = cv\<lparr>cv_session := (cv_session cv)(p := (cv_session cv p)\<lparr>ls_skipped := ls_skipped (cv_session cv p)
      @ map (\<lambda>i. epoch_entry c sh (gh_keys g) (e, i)) [?r..<Suc i]\<rparr>)\<rparr>"
  define g2 where "g2 = g1\<lparr>gh_pool := (gh_pool g)((\<not> p) := take k (gh_pool g (\<not> p)) @ drop (Suc k) (gh_pool g (\<not> p))),
     gh_skip := (gh_skip g1)((\<not> p) := remove1 (e, i) (gh_skip g1 (\<not> p)))\<rparr>"
  have old: "gh_recv g e' = gh_sent g e' \<and> e' \<noteq> e" if "turn (\<not> p) e'" "e' + 1 < gh_joined g p" for e'
    using d that r by (auto simp: direction_ok_def receiving_def split: if_splits)
  have new: "gh_recv g e' = 0 \<and> e' \<noteq> e" if "turn (\<not> p) e'" "gh_joined g p < e'" for e'
    using d that r by (auto simp: direction_ok_def receiving_def split: if_splits)
  have d1: "direction_ok c sh g1 (\<not> p) cv1"
    by (rule direction_advance [OF d ei(1), of "Suc i"]) (use x(2) ei(2) old new in \<open>simp_all add: g1_def cv1_def\<close>)
  have notin: "(e, i) \<notin> set (gh_skip g (\<not> p))" using d x(2) by (auto simp: direction_ok_def)
  have rem: "remove1 (e, i) (gh_skip g1 (\<not> p)) = gh_skip g (\<not> p) @ map (Pair e) [?r..<i]"
    using notin x(2) by (auto simp: g1_def remove1_append)
  have d2: "direction_ok c sh g2 (\<not> p) (heard p k pt ?s cv)"
    by (rule direction_take [OF d1, of k "(e, i)"])
      (use mk(2) x(1) d rem in \<open>simp_all add: g1_def g2_def cv1_def direction_ok_def epoch_entry_def\<close>)
  have keep: "gh_keys g2 = gh_keys g" "gh_sent g2 = gh_sent g" "gh_recv g2 = (gh_recv g)(e := Suc i)" "gh_joined g2 = gh_joined g"
      "gh_pool g2 p = gh_pool g p" "gh_skip g2 p = gh_skip g p" by (simp_all add: g2_def g1_def)
  have "conv_ok c sh g2 (heard p k pt ?s cv)"
  proof (rule conv_ok_hear [OF ok keep(1,2) _ keep(5,6), where s = ?s])
    show "same_side p (gh_recv g) (gh_recv g2)" using ei(1) by (auto simp: same_side_def keep)
    show "gh_joined g2 p + 2 \<le> length (gh_keys g)" "turn p (length (gh_keys g)) \<Longrightarrow> gh_joined g2 p + 2 = length (gh_keys g)"
      using conv_ok_session(6,8) [OF ok, of p] by (simp_all add: keep)
    show "turn p (gh_joined g2 p) \<Longrightarrow> sends_ok c sh g2 (gh_joined g2 p) ?s" "\<not> turn p (gh_joined g2 p) \<Longrightarrow> receives_ok c sh g2 (gh_joined g2 p) ?s"
      using receiving_advance [OF r keep(1-3) refl] conv_ok_session(1,2) [OF ok, of p] unfolding keep by blast+
    show "direction_ok c sh g2 (\<not> p) (heard p k pt ?s cv)" by (rule d2)
  qed (simp_all add: keep)
  with dec keep(1) show ?thesis by blast
qed

text \<open>A message of an epoch that the party has not joined: it closes its receiving chain and follows.\<close>

lemma join_epoch:
  assumes ok: "conv_ok c sh g cv" and k: "k < length (cv_pool cv (\<not> p))" "cv_pool cv (\<not> p) ! k = (m, pt)" "length (cv_pool cv (\<not> p)) \<le> 65"
    and t: "turn p (gh_joined g p)" and x: "gh_pool g (\<not> p) ! k = (Suc (gh_joined g p), i)"
  shows "\<exists>s1 s g'. skipMessageKeys c (sm_previousChainLength m) (cv_session cv p) = Inr s1
    \<and> advanceReceivingRatchet c (sm_ratchetPublicKey m) s1 = Inr s \<and> gh_keys g' = gh_keys g \<and> gh_pool g' = gh_pool g
    \<and> receiving g' p (Suc (gh_joined g p)) \<and> gh_recv g' (Suc (gh_joined g p)) = 0 \<and> conv_ok c sh g' (cv\<lparr>cv_session := (cv_session cv)(p := s)\<rparr>)"
proof -
  have d: "direction_ok c sh g (\<not> p) cv" by (rule conv_ok_session(3) [OF ok])
  let ?ks = "gh_keys g" and ?s = "cv_session cv p"
  define j where "j = gh_joined g p"
  have c: "sound_crypto c" "\<And>e. length (epoch_key c sh ?ks e) = 32" using conv_ok_session(4) [OF ok] epoch_key_length by auto
  have mk: "message_ok c sh g (\<not> p) (m, pt) (Suc j, i)" using pool_nth [OF d k(1)] k(2) x by (simp add: j_def)
  have pool: "(Suc j, i) \<in> set (gh_pool g (\<not> p))" using pool_nth(1) [OF d k(1)] x by (auto simp: in_set_conv_nth j_def)
  have len: "length ?ks = j + 3" using conv_ok_session(7) [OF ok, of p] conv_ok_session(6) [OF ok, of "\<not> p"] mk by (simp add: message_ok_def j_def)
  have tj: "turn p j" using t by (simp add: j_def)
  have zero: "gh_recv g (Suc j) = 0" and upto: "\<And>e. turn (\<not> p) e \<Longrightarrow> gh_recv g e \<le> gh_sent g e"
    using d tj by (auto simp: direction_ok_def j_def)
  define e where "e = (if j = 0 then 1 else j - 1)"
  define b where "b = (if j = 0 then 0 else gh_sent g (j - 1))"
  have te: "turn (\<not> p) e" using tj by (auto simp: e_def turn_def)
  have be: "gh_recv g e \<le> b" "b \<le> gh_sent g e" using te upto zero by (auto simp: e_def b_def)
  have room: "length (ls_skipped ?s) + (b - gh_recv g e) \<le> 64"
  proof -
    have "fst (Suc j, i) = e \<Longrightarrow> b \<le> snd (Suc j, i)" by (cases j) (auto simp: e_def b_def)
    from skip_room [OF d te be(2) pool _ this] zero k(3) show ?thesis by simp
  qed
  let ?l = "ls_skipped ?s @ map (\<lambda>i. epoch_entry c sh ?ks (e, i)) [gh_recv g e..<b]"
  have s: "sends_ok c sh g j ?s" using conv_ok_session(1) [OF ok t] by (simp add: j_def)
  have "\<exists>n r. skipMessageKeys c (sm_previousChainLength m) ?s = Inr (?s\<lparr>ls_skipped := ?l, ls_nextReceive := n, ls_receivingChainKey := r\<rparr>)"
  proof (cases j)
    case 0
    then have "skipMessageKeys c (sm_previousChainLength m) ?s = Inr ?s"
      using s mk by (simp add: sends_ok_def message_ok_def skipMessageKeys_def given_def)
    moreover have "?s = ?s\<lparr>ls_skipped := ?l, ls_nextReceive := ls_nextReceive ?s, ls_receivingChainKey := ls_receivingChainKey ?s\<rparr>"
      using 0 by (simp add: b_def)
    ultimately show ?thesis by metis
  next
    case (Suc j')
    have "receiving g p e" using tj Suc by (simp add: receiving_def e_def flip: j_def)
    moreover have "sm_previousChainLength m = int b" using mk Suc by (simp add: message_ok_def b_def)
    ultimately show ?thesis using skip_ok [OF c(1) c(2) receiving_session [OF ok] be(1) room] by (auto simp: epoch_entry_def)
  qed
  then obtain n r where skip: "skipMessageKeys c (sm_previousChainLength m) ?s = Inr (?s\<lparr>ls_skipped := ?l, ls_nextReceive := n, ls_receivingChainKey := r\<rparr>)" by blast
  have pub: "sm_ratchetPublicKey m = kp_public (?ks ! Suc (Suc j))" using mk by (simp add: message_ok_def)
  have good: "good_pair (?ks ! Suc j) \<and> good_pair (?ks ! Suc (Suc j)) \<and> agrees c (?ks ! Suc j) (?ks ! Suc (Suc j))"
    using good_nth [OF conv_ok_session(5) [OF ok], of "Suc j" "Suc (Suc j)"] len by simp
  let ?s' = "?s\<lparr>ls_skipped := ?l, ls_rootKey := bytesToHex (root_key c sh ?ks (Suc (Suc j))), ls_remoteRatchetPublicKey := bytesToHex (sm_ratchetPublicKey m),
     ls_receivingChainKey := Some (bytesToHex (epoch_key c sh ?ks (Suc j))), ls_nextReceive := 0, ls_sendingChainKey := None\<rparr>"
  have der: "deriveRootAndChainKeys c (root_key c sh ?ks (Suc j)) (dh_value c (?ks ! Suc j) (?ks ! Suc (Suc j)))
      = (root_key c sh ?ks (Suc (Suc j)), epoch_key c sh ?ks (Suc j))"
    using epoch_derive [of c sh ?ks "Suc j"] good dh_sym by metis
  have key: "hexToBytes (lk_privateKey (ls_currentRatchetKey ?s)) = kp_private (?ks ! Suc j)" "hexToBytes (ls_rootKey ?s) = root_key c sh ?ks (Suc j)"
    using s by (simp_all add: sends_ok_def hex_pair_def del: root_key.simps)
  have adv: "advanceReceivingRatchet c (sm_ratchetPublicKey m) (?s\<lparr>ls_skipped := ?l, ls_nextReceive := n, ls_receivingChainKey := r\<rparr>) = Inr ?s'"
    using dh_good [of "?ks ! Suc j" "?ks ! Suc (Suc j)"] good by (simp add: advanceReceivingRatchet_def key pub der del: root_key.simps)
  define g' where "g' = g\<lparr>gh_recv := (gh_recv g)(e := b), gh_joined := (gh_joined g)(p := Suc j),
     gh_skip := (gh_skip g)((\<not> p) := gh_skip g (\<not> p) @ map (Pair e) [gh_recv g e..<b])\<rparr>"
  have keep: "gh_keys g' = gh_keys g" "gh_sent g' = gh_sent g" "gh_recv g' = (gh_recv g)(e := b)" "gh_joined g' = (gh_joined g)(p := Suc j)"
      "gh_pool g' = gh_pool g" "gh_skip g' p = gh_skip g p" by (simp_all add: g'_def)
  have zero': "gh_recv g' (Suc j) = 0" using zero by (cases j) (simp_all add: keep e_def b_def)
  have cvj: "conv_ok c sh g' (cv\<lparr>cv_session := (cv_session cv)(p := ?s')\<rparr>)"
  proof (rule conv_ok_hear [OF ok keep(1,2) _ _ keep(6), where s = ?s'])
    show "same_side p (gh_recv g) (gh_recv g')" using te by (auto simp: same_side_def keep)
    show "gh_joined g' p + 2 \<le> length (gh_keys g)" "gh_joined g' p + 2 = length (gh_keys g)" using len by (simp_all add: keep)
    have tj': "\<not> turn p (gh_joined g' p)" using tj by (simp add: keep)
    then show "turn p (gh_joined g' p) \<Longrightarrow> sends_ok c sh g' (gh_joined g' p) ?s'" by blast
    show "receives_ok c sh g' (gh_joined g' p) ?s'"
      using s zero' pub by (simp add: receives_ok_def sends_ok_def keep(1,2,4) del: root_key.simps)
    show "direction_ok c sh g' (\<not> p) (cv\<lparr>cv_session := (cv_session cv)(p := ?s')\<rparr>)"
    proof (rule direction_advance [OF d te be])
      fix e' assume "turn (\<not> p) e'" "e' + 1 < gh_joined g' (\<not> \<not> p)"
      then have "e' = e \<or> e' + 1 < j" "e' < j" by (auto simp: keep e_def)
      with d \<open>turn (\<not> p) e'\<close> show "gh_recv g' e' = gh_sent g e'" by (auto simp: direction_ok_def keep b_def e_def j_def)
    next
      fix e' assume "turn (\<not> p) e'" "gh_joined g' (\<not> \<not> p) < e'"
      with d show "gh_recv g' e' = 0" by (auto simp: direction_ok_def keep e_def j_def)
    qed (simp_all add: g'_def)
  qed (simp_all add: keep j_def)
  have "receiving g' p (Suc j)" using tj by (simp add: receiving_def keep)
  with skip adv keep(1,5) zero' cvj show ?thesis unfolding j_def by blast
qed

lemma hear_ok:
  assumes ok: "conv_ok c sh g cv" and k: "k < length (cv_pool cv (\<not> p))" "length (cv_pool cv (\<not> p)) \<le> 65"
  shows "\<exists>g' cv'. conv_hear c p k now cv = Inr cv' \<and> gh_keys g' = gh_keys g \<and> conv_ok c sh g' cv'
    \<and> (\<lambda>q. map snd (cv_pool cv' q)) = (\<lambda>q. map snd (cv_pool cv q))((\<not> p) := take k (map snd (cv_pool cv (\<not> p))) @ drop (Suc k) (map snd (cv_pool cv (\<not> p))))
    \<and> cv_heard cv' = cv_heard cv @ [map snd (cv_pool cv (\<not> p)) ! k]"
proof -
  obtain m pt where m: "cv_pool cv (\<not> p) ! k = (m, pt)" by (cases "cv_pool cv (\<not> p) ! k")
  obtain e i where x: "gh_pool g (\<not> p) ! k = (e, i)" by (cases "gh_pool g (\<not> p) ! k")
  have d: "direction_ok c sh g (\<not> p) cv" by (rule conv_ok_session(3) [OF ok])
  have mk: "message_ok c sh g (\<not> p) (m, pt) (e, i)" using pool_nth [OF d k(1)] m x by simp
  have pool: "(e, i) \<in> set (gh_pool g (\<not> p))" using pool_nth(1) [OF d k(1)] x by (auto simp: in_set_conv_nth)
  have "\<exists>s mk b g'. decryptRatchetMessage c m now (cv_session cv p) = Inr (pt, s, mk, b) \<and> gh_keys g' = gh_keys g \<and> conv_ok c sh g' (heard p k pt s cv)"
  proof (cases "(e, i) \<in> set (gh_skip g (\<not> p))")
    case True
    then show ?thesis using hear_skipped [OF ok k(1) m] x by metis
  next
    case False
    then have i: "gh_recv g e \<le> i" using d pool by (auto simp: direction_ok_def)
    have none: "takeSkippedMessageKey (bytesToHex (sm_ratchetPublicKey m)) (sm_messageNumber m) (cv_session cv p) = (None, cv_session cv p)"
      using False by (simp add: skip_lookup [OF ok k(1) m x])
    have pub: "sm_ratchetPublicKey m = kp_public (gh_keys g ! Suc e)" using mk by (simp add: message_ok_def)
    show ?thesis
    proof (cases "receiving g p e")
      case True
      with hear_current [OF ok k(1) m k(2) x i] none pub receiving_session(2) [OF ok True] show ?thesis
        by (simp add: decryptRatchetMessage_def) blast
    next
      case False
      have "\<not> e + 1 < gh_joined g p" using d mk i by (auto simp: direction_ok_def message_ok_def)
      moreover have "e \<le> Suc (gh_joined g p)" using mk conv_ok_session(7) [OF ok, of p] conv_ok_session(6) [OF ok, of "\<not> p"] by (simp add: message_ok_def)
      ultimately have "e = gh_joined g p \<or> e = Suc (gh_joined g p) \<or> Suc e = gh_joined g p" by linarith
      moreover have te: "\<not> turn p e" using mk by (simp add: message_ok_def)
      moreover have "turn p (Suc e)" using te by simp
      ultimately have e: "e = Suc (gh_joined g p)" using False unfolding receiving_def by metis
      then have t: "turn p (gh_joined g p)" using te by simp
      have len: "Suc e < length (gh_keys g)" using mk conv_ok_session(6) [OF ok, of "\<not> p"] by (simp add: message_ok_def)
      obtain s1 s g1 where j: "skipMessageKeys c (sm_previousChainLength m) (cv_session cv p) = Inr s1" "advanceReceivingRatchet c (sm_ratchetPublicKey m) s1 = Inr s"
        "gh_keys g1 = gh_keys g" "gh_pool g1 = gh_pool g" "receiving g1 p e" "gh_recv g1 e = 0" "conv_ok c sh g1 (cv\<lparr>cv_session := (cv_session cv)(p := s)\<rparr>)"
        using join_epoch [OF ok k(1) m k(2) t] x e by auto
      have "ls_remoteRatchetPublicKey (cv_session cv p) \<noteq> bytesToHex (sm_ratchetPublicKey m)"
        using conv_ok_session(1) [OF ok t] pub pair_eq [OF conv_ok_session(5) [OF ok], of "gh_joined g p" "Suc e"] len e by (simp add: sends_ok_def)
      then have "decryptRatchetMessage c m now (cv_session cv p) = decrypt_next c m now s"
        using none j(1,2) by (simp add: decryptRatchetMessage_def)
      then show ?thesis using hear_current [OF j(7), of k p m pt e i now] k m x i j(3-6) by (simp add: heard_def) metis
    qed
  qed
  then obtain s mk b g' where "decryptRatchetMessage c m now (cv_session cv p) = Inr (pt, s, mk, b)" "gh_keys g' = gh_keys g" "conv_ok c sh g' (heard p k pt s cv)"
    by blast
  then show ?thesis using k(1) by (intro exI [of _ g'] exI [of _ "heard p k pt s cv"]) (auto simp: conv_hear_def m heard_def Let_def take_map drop_map)
qed

section \<open>Whole conversations\<close>

lemma good_pairs_split:
  assumes "good_pairs c (ks @ k # ks')"
  shows "good_pairs c (ks @ ks')" "good_pairs c (ks @ [k])" "good_pairs c ((ks @ [k]) @ ks')"
  using assms by (simp_all add: good_pairs_def)

lemma conversation_run:
  "conv_ok c sh g cv \<Longrightarrow> good_pairs c (gh_keys g @ drawn evs) \<Longrightarrow> all_draws_ok evs \<Longrightarrow> (\<And>q. length (cv_pool cv q) \<le> 65) \<Longrightarrow>
   schedule_ok (\<lambda>q. length (cv_pool cv q)) evs \<Longrightarrow>
   \<exists>cv'. conv_run c did evs cv = Inr cv' \<and> ((\<lambda>q. map snd (cv_pool cv' q)), cv_heard cv') = plain_run evs (\<lambda>q. map snd (cv_pool cv q)) (cv_heard cv)"
proof (induction evs arbitrary: g cv)
  case (Cons e evs)
  show ?case
  proof (cases e)
    case (Say p pt dr)
    have good: "good_pairs c (gh_keys g @ drawn_by dr # drawn evs)" using Cons.prems(2) by (simp add: Say)
    obtain g' cv' where s: "conv_say c did p pt dr cv = Inr cv'" "conv_ok c sh g' cv'" "gh_keys g' \<in> {gh_keys g, gh_keys g @ [drawn_by dr]}"
      "(\<lambda>q. map snd (cv_pool cv' q)) = (\<lambda>q. map snd (cv_pool cv q))(p := map snd (cv_pool cv p) @ [pt])" "cv_heard cv' = cv_heard cv"
      using say_ok [OF Cons.prems(1) _ good_pairs_split(2) [OF good]] Cons.prems(3) by (simp add: Say) blast
    have "good_pairs c (gh_keys g' @ drawn evs)" using s(3) good_pairs_split(1,3) [OF good] by auto
    moreover have n: "(\<lambda>q. length (cv_pool cv' q)) = (\<lambda>q. length (cv_pool cv q))(p := Suc (length (cv_pool cv p)))"
    proof
      show "length (cv_pool cv' q) = ((\<lambda>q. length (cv_pool cv q))(p := Suc (length (cv_pool cv p)))) q" for q
        using arg_cong [OF fun_cong [OF s(4), of q], of length] by (simp split: if_splits)
    qed
    moreover have "length (cv_pool cv' q) \<le> 65" for q using fun_cong [OF n, of q] Cons.prems(4) [of q] Cons.prems(5) by (simp add: Say split: if_splits)
    ultimately show ?thesis using Cons.IH [OF s(2)] Cons.prems(3,5) s(1,4,5) by (simp add: Say)
  next
    case (Hear p k now)
    obtain g' cv' where s: "conv_hear c p k now cv = Inr cv'" "conv_ok c sh g' cv'" "gh_keys g' = gh_keys g"
      "(\<lambda>q. map snd (cv_pool cv' q)) = (\<lambda>q. map snd (cv_pool cv q))((\<not> p) := take k (map snd (cv_pool cv (\<not> p))) @ drop (Suc k) (map snd (cv_pool cv (\<not> p))))"
      "cv_heard cv' = cv_heard cv @ [map snd (cv_pool cv (\<not> p)) ! k]"
      using hear_ok [OF Cons.prems(1), of k p now] Cons.prems(4,5) by (simp add: Hear) blast
    have k: "k < length (cv_pool cv (\<not> p))" using Cons.prems(5) by (simp add: Hear)
    have n: "(\<lambda>q. length (cv_pool cv' q)) = (\<lambda>q. length (cv_pool cv q))((\<not> p) := length (cv_pool cv (\<not> p)) - 1)"
    proof
      show "length (cv_pool cv' q) = ((\<lambda>q. length (cv_pool cv q))((\<not> p) := length (cv_pool cv (\<not> p)) - 1)) q" for q
        using arg_cong [OF fun_cong [OF s(4), of q], of length] k by (simp split: if_splits)
    qed
    have "length (cv_pool cv' q) \<le> 65" for q
      using fun_cong [OF n, of q] Cons.prems(4) [of q] Cons.prems(4) [of "\<not> p"] by (simp split: if_splits)
    then show ?thesis using Cons.IH [OF s(2)] Cons.prems(2,3,5) s(1,3-5) n by (simp add: Hear)
  qed
qed simp

lemma conversation_start:
  assumes c: "sound_crypto c" and good: "good_pairs c [ri_currentRatchetKey ir, ri_currentRatchetKey ii]" and m: "sessions_match ii ir"
  shows "\<exists>g cv. start_conv c ii ir = Inr cv \<and> gh_keys g = [ri_currentRatchetKey ir, ri_currentRatchetKey ii]
    \<and> conv_ok c (ri_rootKey ir) g cv \<and> cv_pool cv = (\<lambda>_. []) \<and> cv_heard cv = []"
proof -
  let ?ks = "[ri_currentRatchetKey ir, ri_currentRatchetKey ii]"
  let ?g = "\<lparr>gh_keys = ?ks, gh_sent = \<lambda>_. 0, gh_recv = \<lambda>_. 0, gh_joined = \<lambda>_. 0, gh_pool = \<lambda>_. [], gh_skip = \<lambda>_. []\<rparr>"
  let ?sh = "ri_rootKey ir" and ?a = "ri_currentRatchetKey ir" and ?b = "ri_currentRatchetKey ii"
  have ab: "good_pair ?a" "good_pair ?b" "agrees c ?a ?b" "agrees c ?b ?a" using good by (auto simp: good_pairs_def)
  have der: "deriveRootAndChainKeys c ?sh (dh_value c ?b ?a) = (root_key c ?sh ?ks (Suc 0), epoch_key c ?sh ?ks 0)"
    using epoch_derive [of c ?sh ?ks 0] by simp
  let ?s = "new_session ii (root_key c ?sh ?ks (Suc 0)) (Some (bytesToHex (epoch_key c ?sh ?ks 0))) None"
  let ?t = "new_session ir (root_key c ?sh ?ks (Suc 0)) None (Some (bytesToHex (epoch_key c ?sh ?ks 0)))"
  have "createInitiatorRatchetSession c ii = Inr ?s"
    using m dh_good [OF ab(2,1,4)] der by (simp add: createInitiatorRatchetSession_def sessions_match_def del: root_key.simps)
  moreover have "createResponderRatchetSession c ir = Inr ?t"
    using m dh_good [OF ab(1-3)] der dh_sym [OF ab(3)] by (simp add: createResponderRatchetSession_def sessions_match_def del: root_key.simps)
  ultimately have "start_conv c ii ir = Inr \<lparr>cv_session = (\<lambda>p. if p then ?s else ?t), cv_pool = (\<lambda>_. []), cv_heard = []\<rparr>"
    by (simp add: start_conv_def del: root_key.simps)
  moreover have "conv_ok c ?sh ?g \<lparr>cv_session = (\<lambda>p. if p then ?s else ?t), cv_pool = (\<lambda>_. []), cv_heard = []\<rparr>"
    using c good m
    by (auto simp: conv_ok_def sends_ok_def receives_ok_def direction_ok_def new_session_def turn_def sessions_match_def)
  ultimately show ?thesis by (intro exI [of _ ?g]) auto
qed

text \<open>C18: the double ratchet refines a plain exchange of messages. For every schedule in which the two parties
  speak at will, lose, delay and reorder each other's messages (a party says nothing more while 65 of its
  messages are outstanding), every message that is heard decrypts, and what is decrypted is what was said.\<close>

theorem ratchet_conversation:
  assumes "sound_crypto c" "good_pairs c (ri_currentRatchetKey ir # ri_currentRatchetKey ii # drawn evs)" "all_draws_ok evs"
    "sessions_match ii ir" "schedule_ok (\<lambda>_. 0) evs"
  shows "\<exists>cv0 cv. start_conv c ii ir = Inr cv0 \<and> conv_run c did evs cv0 = Inr cv
    \<and> ((\<lambda>p. map snd (cv_pool cv p)), cv_heard cv) = plain_run evs (\<lambda>_. []) []"
proof -
  have "good_pairs c [ri_currentRatchetKey ir, ri_currentRatchetKey ii]" using assms(2) by (simp add: good_pairs_def)
  then obtain g cv where "start_conv c ii ir = Inr cv" "gh_keys g = [ri_currentRatchetKey ir, ri_currentRatchetKey ii]"
    "conv_ok c (ri_rootKey ir) g cv" "cv_pool cv = (\<lambda>_. [])" "cv_heard cv = []"
    using conversation_start [OF assms(1) _ assms(4)] by blast
  then show ?thesis using conversation_run [of c _ g cv evs did] assms by simp
qed

lemma ratchet_conversation_witness:
  "\<exists>cv0 cv. start_conv toy_crypto (toy_input Initiator 2 1) (toy_input Responder 1 2) = Inr cv0
    \<and> conv_run toy_crypto (\<lambda>p. if p then ''alice'' else ''bob'') toy_events cv0 = Inr cv
    \<and> cv_heard cv = [[2], [3], [4], [1]]"
proof -
  have "good_pairs toy_crypto (ri_currentRatchetKey (toy_input Responder 1 2) # ri_currentRatchetKey (toy_input Initiator 2 1) # drawn toy_events)"
    by code_simp
  moreover have "all_draws_ok toy_events" by code_simp
  moreover have "sessions_match (toy_input Initiator 2 1) (toy_input Responder 1 2)" by code_simp
  moreover have "schedule_ok (\<lambda>_. 0) toy_events" by code_simp
  moreover have "snd (plain_run toy_events (\<lambda>_. []) []) = [[2], [3], [4], [1]]" by code_simp
  ultimately show ?thesis
    using ratchet_conversation [OF toy_sound, of "toy_input Responder 1 2" "toy_input Initiator 2 1" toy_events "\<lambda>p. if p then ''alice'' else ''bob''"]
    by (metis snd_conv)
qed

section \<open>The window\<close>

text \<open>The window of skipped messages is never reopened. Once a peer's sending chain is more than 64 messages ahead
  of what a session has received, every later message of that chain and every message of a later chain is
  refused, so that only the messages whose keys are kept can still be heard.\<close>

theorem ratchet_gap_refused:
  assumes key: "given (ls_receivingChainKey s) \<noteq> None"
    and kept: "fst (takeSkippedMessageKey (bytesToHex (sm_ratchetPublicKey m)) (sm_messageNumber m) s) = None"
    and gap: "(if bytesToHex (sm_ratchetPublicKey m) = ls_remoteRatchetPublicKey s then sm_messageNumber m else sm_previousChainLength m)
      > ls_nextReceive s + 64"
  shows "decryptRatchetMessage c m now s = Inl (EncryptionError ''Skipped-message window exceeded'')"
proof -
  have "takeSkippedMessageKey (bytesToHex (sm_ratchetPublicKey m)) (sm_messageNumber m) s = (None, s)"
    using kept by (auto simp: takeSkippedMessageKey_def split: option.splits prod.splits)
  moreover have "skipMessageKeys c n s = Inl (EncryptionError ''Skipped-message window exceeded'')" if "n > ls_nextReceive s + 64" for n
    using key that by (auto simp: skipMessageKeys_def MAX_SKIPPED_MESSAGE_KEYS_def)
  ultimately show ?thesis using gap by (auto simp: decryptRatchetMessage_def decrypt_next_def)
qed

definition gap_session :: session where
  "gap_session = new_session (toy_input Responder 1 2) (replicate 32 9) None (Some (bytesToHex (replicate 32 5)))"

definition gap_message :: session_message where
  "gap_message = \<lparr>sm_version = E2E_PROTOCOL_VERSION, sm_senderDid = ''alice'', sm_receiverDid = ''bob'', sm_senderDeviceId = ''d'', sm_receiverDeviceId = ''d'',
     sm_sessionId = ''s'', sm_messageId = ''m'', sm_ratchetPublicKey = replicate 32 2, sm_previousChainLength = 0, sm_messageNumber = 65,
     sm_nonce = replicate 24 7, sm_ciphertext = []\<rparr>"

lemma ratchet_gap_refused_witness:
  "decryptRatchetMessage toy_crypto gap_message 1 gap_session = Inl (EncryptionError ''Skipped-message window exceeded'')"
  by (rule ratchet_gap_refused) (simp_all add: gap_session_def gap_message_def new_session_def takeSkippedMessageKey_def given_def toy_input_def toy_key_def)

section \<open>Agreement on the first secret\<close>

text \<open>Both sides of the X3DH agreement derive the same secret of 32 bytes, with and without a one-time key.\<close>

lemma x3dh_agree:
  assumes c: "sound_crypto c" and good: "good_pair ia" "good_pair eph" "good_pair ib" "good_pair spk" "\<forall>k \<in> set_option opk. good_pair k"
    and ag: "agrees c ia spk" "agrees c eph ib" "agrees c eph spk" "\<forall>k \<in> set_option opk. agrees c eph k"
  shows "\<exists>sh. length sh = 32 \<and>
    deriveX3dhInitiatorSharedSecret c \<lparr>xi_identityPrivate = kp_private ia, xi_ephemeralPrivate = kp_private eph,
      xi_recipientIdentityPublic = kp_public ib, xi_recipientSignedPreKeyPublic = kp_public spk,
      xi_recipientOneTimePreKeyPublic = map_option kp_public opk\<rparr> = Inr sh \<and>
    deriveX3dhResponderSharedSecret c \<lparr>xr_recipientIdentityPrivate = kp_private ib, xr_recipientSignedPreKeyPrivate = kp_private spk,
      xr_initiatorIdentityPublic = kp_public ia, xr_initiatorEphemeralPublic = kp_public eph,
      xr_recipientOneTimePreKeyPrivate = map_option kp_private opk\<rparr> = Inr sh"
proof -
  have sym: "agrees c b a" if "agrees c a b" for a b using that unfolding agrees_def Let_def by metis
  have len: "length (deriveX3dhSharedSecret c parts) = 32" for parts
    using c by (simp add: deriveX3dhSharedSecret_def hkdfSha256_def sound_crypto_def)
  note dh = dh_good [OF good(1,4) ag(1)] dh_good [OF good(2,3) ag(2)] dh_good [OF good(2,4) ag(3)]
    dh_good [OF good(4,1) sym [OF ag(1)]] dh_good [OF good(3,2) sym [OF ag(2)]] dh_good [OF good(4,2) sym [OF ag(3)]]
  note eq = dh_sym [OF ag(1)] dh_sym [OF ag(2)] dh_sym [OF ag(3)]
  show ?thesis
  proof (cases opk)
    case None
    then show ?thesis using dh eq len by (simp add: deriveX3dhInitiatorSharedSecret_def deriveX3dhResponderSharedSecret_def)
  next
    case (Some k)
    then have k: "good_pair k" "agrees c eph k" using good(5) ag(4) by auto
    show ?thesis using dh eq len dh_good [OF good(2) k] dh_good [OF k(1) good(2) sym [OF k(2)]] dh_sym [OF k(2)]
      by (simp add: Some deriveX3dhInitiatorSharedSecret_def deriveX3dhResponderSharedSecret_def)
  qed
qed

end
