(* ===== verification/E2E_Bootstrap.thy ===== *)
theory E2E_Bootstrap
  imports E2E_Ratchet Relay_Types
begin

text \<open>
  The device state of the end-to-end encryption and the start of a session from a pre-key bundle,
  \<open>js/core/protocol/src/e2e/device-state.ts\<close>, \<open>signed-pre-key.ts\<close> and \<open>bootstrap.ts\<close>. A configuration is a value: the
  code works on clones. The published and the claimed bundle are the records of \<open>Relay_Types\<close>, which
  declare the same fields. Key pairs that the code draws are arguments, in DER form.
\<close>

section \<open>Device state\<close>

record signed_pre_key = key_pair +
  sp_signedPreKeyId :: int
  sp_signature :: string
  sp_createdAt :: msec

record one_time_key = key_pair +
  ok_keyId :: rat
  ok_createdAt :: msec
  ok_claimedAt :: "msec option"

record local_device =
  ld_deviceId :: string
  ld_createdAt :: msec
  ld_identityKey :: key_pair
  ld_signedPreKey :: signed_pre_key
  ld_oneTimePreKeys :: "one_time_key list"
  ld_lastResupplyAt :: msec
  ld_sessions :: "(string, session) jsmap"

record e2e_config =
  ec_currentDeviceId :: string
  ec_devices :: "(string, local_device) jsmap"

definition DEFAULT_ONE_TIME_PRE_KEY_COUNT :: nat where "DEFAULT_ONE_TIME_PRE_KEY_COUNT = 16"

text \<open>\<open>!key.claimedAt\<close>: absent or 0.\<close>

definition unclaimed :: "one_time_key \<Rightarrow> bool" where
  "unclaimed k \<longleftrightarrow> ok_claimedAt k = None \<or> ok_claimedAt k = Some 0"

definition one_time_key_of :: "msec \<Rightarrow> nat \<Rightarrow> x25519_pair \<Rightarrow> one_time_key" where
  "one_time_key_of now i k = \<lparr>lk_publicKey = bytesToHex (kp_public k), lk_privateKey = bytesToHex (kp_private k),
     ok_keyId = of_nat (i + 1), ok_createdAt = now, ok_claimedAt = None\<rparr>"

definition buildOneTimePreKeys :: "(nat \<Rightarrow> bytes \<times> bytes) \<Rightarrow> nat \<Rightarrow> msec \<Rightarrow> e2e_error + one_time_key list" where
  "buildOneTimePreKeys kps num createdAt =
     and_then (sequence_results (map (\<lambda>i. generateX25519KeyPair (kps i)) [0..<num])) (\<lambda>ks.
       Inr (map (\<lambda>(i, k). one_time_key_of createdAt i k) (zip [0..<num] ks)))"

definition buildPublishedOneTimePreKeys :: "local_device \<Rightarrow> one_time_pre_key list" where
  "buildPublishedOneTimePreKeys device =
     map (\<lambda>k. \<lparr>keyId = ok_keyId k, publicKey = lk_publicKey k\<rparr>)
       (js_sort (\<lambda>l r. ok_keyId l - ok_keyId r) (filter unclaimed (ld_oneTimePreKeys device)))"

definition nextSignedPreKeyId :: "e2e_config \<Rightarrow> int option \<Rightarrow> int" where
  "nextSignedPreKeyId cfg explicit = (case explicit of Some n \<Rightarrow> n
     | None \<Rightarrow> fold (\<lambda>d m. max m (sp_signedPreKeyId (ld_signedPreKey d))) (jm_vals (ec_devices cfg)) 0 + 1)"

section \<open>Signed pre-keys\<close>

definition SIGNED_PRE_KEY_TYPE :: string where "SIGNED_PRE_KEY_TYPE = ''SIGNED_PRE_KEY''"

record signed_pre_key_record =
  sr_deviceId :: string
  sr_signedPreKeyId :: int
  sr_signedPreKeyPublic :: bytes
  sr_signature :: bytes

definition buildSignedPreKeyPayload :: "crypto \<Rightarrow> string \<Rightarrow> int \<Rightarrow> bytes \<Rightarrow> bytes" where
  "buildSignedPreKeyPayload c device n pub = encodeCBOR c (CMap [(''type'', CStr SIGNED_PRE_KEY_TYPE), (''version'', cint E2E_PROTOCOL_VERSION),
     (''deviceId'', CStr device), (''signedPreKeyId'', cint n), (''signedPreKeyPublic'', CBytes pub)])"

definition signSignedPreKeyRecord :: "crypto \<Rightarrow> string \<Rightarrow> int \<Rightarrow> bytes \<Rightarrow> bytes \<Rightarrow> e2e_error + signed_pre_key_record" where
  "signSignedPreKeyRecord c device n pub signingKey =
     and_then (identity_sign c (buildSignedPreKeyPayload c device n pub) signingKey) (\<lambda>sig.
       Inr \<lparr>sr_deviceId = device, sr_signedPreKeyId = n, sr_signedPreKeyPublic = pub, sr_signature = sig\<rparr>)"

definition verifySignedPreKeyRecord :: "crypto \<Rightarrow> signed_pre_key_record \<Rightarrow> bytes \<Rightarrow> e2e_error + bool" where
  "verifySignedPreKeyRecord c r key =
     identity_verify c (sr_signature r) (buildSignedPreKeyPayload c (sr_deviceId r) (sr_signedPreKeyId r) (sr_signedPreKeyPublic r)) key"

section \<open>Creation, rotation, resupply\<close>

record device_options =
  do_deviceId :: "string option"
  do_signedPreKeyId :: "int option"
  do_oneTimePreKeyCount :: "nat option"

text \<open>What the platform draws for a new device or a rotation.\<close>

record device_draws =
  dd_identity :: "bytes \<times> bytes"
  dd_signed :: "bytes \<times> bytes"
  dd_oneTime :: "nat \<Rightarrow> bytes \<times> bytes"
  dd_id :: bytes

definition generateDeviceId :: "device_draws \<Rightarrow> string" where
  "generateDeviceId dd = ''device-'' @ bytesToHex (dd_id dd)"

definition signed_key_of :: "msec \<Rightarrow> int \<Rightarrow> x25519_pair \<Rightarrow> bytes \<Rightarrow> signed_pre_key" where
  "signed_key_of now n k sig = \<lparr>lk_publicKey = bytesToHex (kp_public k), lk_privateKey = bytesToHex (kp_private k),
     sp_signedPreKeyId = n, sp_signature = bytesToHex sig, sp_createdAt = now\<rparr>"

definition createLocalDeviceState :: "crypto \<Rightarrow> device_draws \<Rightarrow> bytes \<Rightarrow> device_options \<Rightarrow> msec \<Rightarrow> e2e_error + local_device" where
  "createLocalDeviceState c dd signingKey opts now =
     (let device = or_else (do_deviceId opts) (generateDeviceId dd); n = or_else (do_signedPreKeyId opts) 1
      in and_then (generateX25519KeyPair (dd_identity dd)) (\<lambda>ik.
         and_then (generateX25519KeyPair (dd_signed dd)) (\<lambda>sk.
         and_then (signSignedPreKeyRecord c device n (kp_public sk) signingKey) (\<lambda>r.
         and_then (buildOneTimePreKeys (dd_oneTime dd) (or_else (do_oneTimePreKeyCount opts) DEFAULT_ONE_TIME_PRE_KEY_COUNT) now) (\<lambda>ks.
           Inr \<lparr>ld_deviceId = device, ld_createdAt = now, ld_identityKey = hex_pair ik, ld_signedPreKey = signed_key_of now n sk (sr_signature r),
                ld_oneTimePreKeys = ks, ld_lastResupplyAt = now, ld_sessions = []\<rparr>)))))"

definition createInitialLocalE2EConfig :: "crypto \<Rightarrow> device_draws \<Rightarrow> bytes \<Rightarrow> device_options \<Rightarrow> msec \<Rightarrow> e2e_error + e2e_config" where
  "createInitialLocalE2EConfig c dd signingKey opts now =
     and_then (createLocalDeviceState c dd signingKey opts now) (\<lambda>d.
       Inr \<lparr>ec_currentDeviceId = ld_deviceId d, ec_devices = [(ld_deviceId d, d)]\<rparr>)"

definition resupply_count :: "local_device \<Rightarrow> nat option \<Rightarrow> nat" where
  "resupply_count device opt = or_else opt (max (length (filter unclaimed (ld_oneTimePreKeys device))) DEFAULT_ONE_TIME_PRE_KEY_COUNT)"

definition rotateLocalDeviceSignedPreKey :: "crypto \<Rightarrow> device_draws \<Rightarrow> bytes \<Rightarrow> device_options \<Rightarrow> msec \<Rightarrow> string \<Rightarrow> e2e_config
    \<Rightarrow> e2e_error + e2e_config" where
  "rotateLocalDeviceSignedPreKey c dd signingKey opts now device cfg = (case jm_get (ec_devices cfg) device of
     None \<Rightarrow> Inl (JsError (''Missing local E2E device state for '' @ device))
   | Some d \<Rightarrow>
       (let n = nextSignedPreKeyId cfg (do_signedPreKeyId opts)
        in and_then (generateX25519KeyPair (dd_signed dd)) (\<lambda>sk.
           and_then (signSignedPreKeyRecord c device n (kp_public sk) signingKey) (\<lambda>r.
           and_then (buildOneTimePreKeys (dd_oneTime dd) (resupply_count d (do_oneTimePreKeyCount opts)) now) (\<lambda>ks.
             Inr (cfg\<lparr>ec_devices := jm_set device (d\<lparr>ld_signedPreKey := signed_key_of now n sk (sr_signature r),
                     ld_oneTimePreKeys := ks, ld_lastResupplyAt := now\<rparr>) (ec_devices cfg)\<rparr>))))))"

definition resupplyLocalDeviceOneTimePreKeys :: "(nat \<Rightarrow> bytes \<times> bytes) \<Rightarrow> nat option \<Rightarrow> msec \<Rightarrow> string \<Rightarrow> e2e_config \<Rightarrow> e2e_error + e2e_config" where
  "resupplyLocalDeviceOneTimePreKeys kps num now device cfg = (case jm_get (ec_devices cfg) device of
     None \<Rightarrow> Inl (JsError (''Missing local E2E device state for '' @ device))
   | Some d \<Rightarrow> and_then (buildOneTimePreKeys kps (resupply_count d num) now) (\<lambda>ks.
       Inr (cfg\<lparr>ec_devices := jm_set device (d\<lparr>ld_oneTimePreKeys := ks, ld_lastResupplyAt := now\<rparr>) (ec_devices cfg)\<rparr>)))"

definition getCurrentDeviceState :: "e2e_config \<Rightarrow> e2e_error + local_device" where
  "getCurrentDeviceState cfg = of_option (JsError (''Missing current E2E device state for '' @ ec_currentDeviceId cfg))
     (jm_get (ec_devices cfg) (ec_currentDeviceId cfg))"

section \<open>Publication\<close>

definition buildPublishedDeviceDirectoryEntry :: "local_device \<Rightarrow> published_device" where
  "buildPublishedDeviceDirectoryEntry d =
     \<lparr>deviceId = ld_deviceId d, identityKeyPublic = lk_publicKey (ld_identityKey d), signedPreKeyPublic = lk_publicKey (ld_signedPreKey d),
      signedPreKeyId = sp_signedPreKeyId (ld_signedPreKey d), signedPreKeySignature = sp_signature (ld_signedPreKey d),
      oneTimePreKeyCount = length (filter unclaimed (ld_oneTimePreKeys d)), lastResupplyAt = ld_lastResupplyAt d\<rparr>"

definition buildPublishedPreKeyBundle :: "local_device \<Rightarrow> published_bundle" where
  "buildPublishedPreKeyBundle d = published_device.extend (buildPublishedDeviceDirectoryEntry d)
     (published_bundle.fields (buildPublishedOneTimePreKeys d))"

text \<open>The comparison of strings in the platform's locale is a parameter.\<close>

definition devices_in_order :: "(string \<Rightarrow> string \<Rightarrow> rat) \<Rightarrow> e2e_config \<Rightarrow> local_device list" where
  "devices_in_order localeCompare cfg = js_sort (\<lambda>l r. localeCompare (ld_deviceId l) (ld_deviceId r)) (jm_vals (ec_devices cfg))"

definition buildPublishedDeviceDirectory :: "(string \<Rightarrow> string \<Rightarrow> rat) \<Rightarrow> e2e_config \<Rightarrow> published_device list" where
  "buildPublishedDeviceDirectory localeCompare cfg = map buildPublishedDeviceDirectoryEntry (devices_in_order localeCompare cfg)"

definition buildPublishedPreKeyBundles :: "(string \<Rightarrow> string \<Rightarrow> rat) \<Rightarrow> e2e_config \<Rightarrow> published_bundle list" where
  "buildPublishedPreKeyBundles localeCompare cfg = map buildPublishedPreKeyBundle (devices_in_order localeCompare cfg)"

definition buildClaimedPreKeyBundle :: "published_bundle \<Rightarrow> one_time_pre_key option \<Rightarrow> claimed_bundle" where
  "buildClaimedPreKeyBundle b k =
     (let n = (case k of Some _ \<Rightarrow> length (oneTimePreKeys b) - 1 | None \<Rightarrow> length (oneTimePreKeys b))
      in \<lparr>deviceId = deviceId b, identityKeyPublic = identityKeyPublic b, signedPreKeyPublic = signedPreKeyPublic b,
          signedPreKeyId = signedPreKeyId b, signedPreKeySignature = signedPreKeySignature b, oneTimePreKeyCount = n,
          lastResupplyAt = lastResupplyAt b, oneTimePreKey = k, remainingOneTimePreKeyCount = n\<rparr>)"

section \<open>Sessions of a configuration\<close>

definition buildLocalSessionKey :: "did \<Rightarrow> string \<Rightarrow> string" where
  "buildLocalSessionKey peer device = peer @ '':'' @ device"

definition loadLocalSession :: "e2e_config \<Rightarrow> string \<Rightarrow> did \<Rightarrow> string \<Rightarrow> session option" where
  "loadLocalSession cfg device peer peerDevice = (case jm_get (ec_devices cfg) device of None \<Rightarrow> None
     | Some d \<Rightarrow> jm_get (ld_sessions d) (buildLocalSessionKey peer peerDevice))"

definition getDeviceState :: "e2e_config \<Rightarrow> string \<Rightarrow> e2e_error + local_device" where
  "getDeviceState cfg device = of_option (EncryptionError (''Missing local E2E device '' @ device)) (jm_get (ec_devices cfg) device)"

definition storeLocalSession :: "e2e_config \<Rightarrow> string \<Rightarrow> session \<Rightarrow> e2e_error + e2e_config" where
  "storeLocalSession cfg device s = and_then (getDeviceState cfg device) (\<lambda>d.
     Inr (cfg\<lparr>ec_devices := jm_set device (d\<lparr>ld_sessions := jm_set (buildLocalSessionKey (ls_peerDid s) (ls_peerDeviceId s)) s (ld_sessions d)\<rparr>)
            (ec_devices cfg)\<rparr>))"

section \<open>The initiator\<close>

definition assertBundleMatchesDirectory :: "published_device \<Rightarrow> claimed_bundle \<Rightarrow> e2e_error + unit" where
  "assertBundleMatchesDirectory d b =
     (if deviceId d \<noteq> deviceId b \<or> identityKeyPublic d \<noteq> identityKeyPublic b \<or> signedPreKeyPublic d \<noteq> signedPreKeyPublic b
         \<or> signedPreKeyId d \<noteq> signedPreKeyId b \<or> signedPreKeySignature d \<noteq> signedPreKeySignature b \<or> lastResupplyAt d \<noteq> lastResupplyAt b
      then Inl (EncryptionError ''Claimed pre-key bundle does not match trusted device directory entry'') else Inr ())"

record initiator_input =
  ii_config :: e2e_config
  ii_senderDid :: did
  ii_receiverDid :: did
  ii_recipientDevice :: published_device
  ii_claimedBundle :: claimed_bundle
  ii_plaintext :: bytes
  ii_sessionId :: "string option"
  ii_messageId :: "string option"
  ii_nonce :: "bytes option"
  ii_ephemeralKeyPair :: "x25519_pair option"
  ii_now :: "msec option"

text \<open>What the platform draws: the ephemeral pair, the bytes of the session identifier, and the rest in \<open>draws\<close>.\<close>

definition generateSessionId :: "bytes \<Rightarrow> string" where
  "generateSessionId rnd = ''e2e-session-'' @ bytesToHex rnd"

definition buildInitiatorPreKeyMessage :: "crypto \<Rightarrow> draws \<Rightarrow> bytes \<Rightarrow> initiator_input
    \<Rightarrow> e2e_error + prekey_message \<times> session \<times> e2e_config \<times> bytes" where
  "buildInitiatorPreKeyMessage c dr sid i =
     (let b = ii_claimedBundle i; now = or_else (ii_now i) (dr_now dr)
      in and_then (assertBundleMatchesDirectory (ii_recipientDevice i) b) (\<lambda>_.
         and_then (getCurrentDeviceState (ii_config i)) (\<lambda>device.
         and_then (case ii_ephemeralKeyPair i of Some k \<Rightarrow> Inr k | None \<Rightarrow> generateX25519KeyPair (dr_keypair dr)) (\<lambda>eph.
         and_then (deriveX3dhInitiatorSharedSecret c
           \<lparr>xi_identityPrivate = hexToBytes (lk_privateKey (ld_identityKey device)), xi_ephemeralPrivate = kp_private eph,
            xi_recipientIdentityPublic = hexToBytes (identityKeyPublic b), xi_recipientSignedPreKeyPublic = hexToBytes (signedPreKeyPublic b),
            xi_recipientOneTimePreKeyPublic = map_option (\<lambda>k. hexToBytes (publicKey k)) (oneTimePreKey b)\<rparr>) (\<lambda>sharedSecret.
         let sessionId = or_else (ii_sessionId i) (generateSessionId sid)
         in and_then (encryptPreKeyMessage c
           \<lparr>pm_version = E2E_PROTOCOL_VERSION, pm_senderDid = ii_senderDid i, pm_receiverDid = ii_receiverDid i,
            pm_senderDeviceId = ld_deviceId device, pm_receiverDeviceId = deviceId b, pm_sessionId = sessionId,
            pm_messageId = or_else (ii_messageId i) (generateMessageId dr),
            pm_initiatorIdentityKey = hexToBytes (lk_publicKey (ld_identityKey device)), pm_initiatorEphemeralKey = kp_public eph,
            pm_recipientSignedPreKeyId = signedPreKeyId b, pm_recipientOneTimePreKeyId = map_option keyId (oneTimePreKey b),
            pm_nonce = or_else (ii_nonce i) (dr_nonce dr)\<rparr> sharedSecret (ii_plaintext i)) (\<lambda>message.
         and_then (createInitiatorRatchetSession c
           \<lparr>ri_sessionId = sessionId, ri_peerDid = ii_receiverDid i, ri_peerDeviceId = deviceId b, ri_selfDeviceId = ld_deviceId device,
            ri_role = Initiator, ri_rootKey = sharedSecret, ri_currentRatchetKey = eph,
            ri_remoteRatchetPublicKey = hexToBytes (signedPreKeyPublic b),
            ri_bootstrap = \<lparr>bs_selfIdentityKey = lk_publicKey (ld_identityKey device), bs_peerIdentityKey = identityKeyPublic b,
              bs_initiatorEphemeralKey = bytesToHex (kp_public eph), bs_recipientSignedPreKeyId = signedPreKeyId b,
              bs_recipientSignedPreKeyPublic = signedPreKeyPublic b, bs_recipientOneTimePreKeyId = map_option keyId (oneTimePreKey b)\<rparr>,
            ri_createdAt = now\<rparr>) (\<lambda>session.
         and_then (storeLocalSession (ii_config i) (ld_deviceId device) session) (\<lambda>cfg.
           Inr (message, session, cfg, sharedSecret)))))))))"

section \<open>The responder\<close>

text \<open>The one-time key that a message names: \<open>Inr None\<close> when it names none.\<close>

definition named_one_time_key :: "local_device \<Rightarrow> prekey_message \<Rightarrow> e2e_error + one_time_key option" where
  "named_one_time_key device m = (case pm_recipientOneTimePreKeyId m of
     None \<Rightarrow> Inr None
   | Some n \<Rightarrow> (case find (\<lambda>k. ok_keyId k = n) (ld_oneTimePreKeys device) of
        None \<Rightarrow> Inl (EncryptionError ''Missing claimed one-time pre-key for PREKEY_MESSAGE'')
      | Some k \<Rightarrow> if ok_claimedAt k \<noteq> None then Inl (EncryptionError ''Claimed one-time pre-key already consumed for PREKEY_MESSAGE'')
                 else Inr (Some k)))"

text \<open>\<open>oneTimePreKey.claimedAt = now\<close> on the key that was found, the first one with its identifier.\<close>

fun mark_claimed :: "rat \<Rightarrow> msec \<Rightarrow> one_time_key list \<Rightarrow> one_time_key list" where
  "mark_claimed n now [] = []"
| "mark_claimed n now (k # ks) = (if ok_keyId k = n then k\<lparr>ok_claimedAt := Some now\<rparr> # ks else k # mark_claimed n now ks)"

definition responder_input :: "local_device \<Rightarrow> prekey_message \<Rightarrow> bytes \<Rightarrow> msec \<Rightarrow> ratchet_input" where
  "responder_input device m sharedSecret now =
     \<lparr>ri_sessionId = pm_sessionId m, ri_peerDid = pm_senderDid m, ri_peerDeviceId = pm_senderDeviceId m,
      ri_selfDeviceId = ld_deviceId device, ri_role = Responder, ri_rootKey = sharedSecret,
      ri_currentRatchetKey = \<lparr>kp_public = hexToBytes (lk_publicKey (ld_signedPreKey device)),
                              kp_private = hexToBytes (lk_privateKey (ld_signedPreKey device))\<rparr>,
      ri_remoteRatchetPublicKey = pm_initiatorEphemeralKey m,
      ri_bootstrap = \<lparr>bs_selfIdentityKey = lk_publicKey (ld_identityKey device), bs_peerIdentityKey = bytesToHex (pm_initiatorIdentityKey m),
        bs_initiatorEphemeralKey = bytesToHex (pm_initiatorEphemeralKey m), bs_recipientSignedPreKeyId = pm_recipientSignedPreKeyId m,
        bs_recipientSignedPreKeyPublic = lk_publicKey (ld_signedPreKey device), bs_recipientOneTimePreKeyId = pm_recipientOneTimePreKeyId m\<rparr>,
      ri_createdAt = now\<rparr>"

definition claim_key :: "one_time_key option \<Rightarrow> msec \<Rightarrow> local_device \<Rightarrow> local_device" where
  "claim_key otk now device = (case otk of None \<Rightarrow> device
     | Some k \<Rightarrow> device\<lparr>ld_oneTimePreKeys := mark_claimed (ok_keyId k) now (ld_oneTimePreKeys device)\<rparr>)"

definition consumeResponderPreKeyMessage :: "crypto \<Rightarrow> e2e_config \<Rightarrow> did \<Rightarrow> prekey_message \<Rightarrow> msec
    \<Rightarrow> e2e_error + bytes \<times> session \<times> e2e_config \<times> bytes" where
  "consumeResponderPreKeyMessage c cfg receiver m now =
     (if pm_receiverDid m \<noteq> receiver then Inl (EncryptionError ''PREKEY_MESSAGE receiver DID mismatch'')
      else and_then (getDeviceState cfg (pm_receiverDeviceId m)) (\<lambda>device.
        and_then (named_one_time_key device m) (\<lambda>otk.
        if pm_recipientSignedPreKeyId m \<noteq> sp_signedPreKeyId (ld_signedPreKey device)
        then Inl (EncryptionError ''PREKEY_MESSAGE signed pre-key id does not match current receiver device state'')
        else and_then (deriveX3dhResponderSharedSecret c
          \<lparr>xr_recipientIdentityPrivate = hexToBytes (lk_privateKey (ld_identityKey device)),
           xr_recipientSignedPreKeyPrivate = hexToBytes (lk_privateKey (ld_signedPreKey device)),
           xr_initiatorIdentityPublic = pm_initiatorIdentityKey m, xr_initiatorEphemeralPublic = pm_initiatorEphemeralKey m,
           xr_recipientOneTimePreKeyPrivate = map_option (\<lambda>k. hexToBytes (lk_privateKey k)) otk\<rparr>) (\<lambda>sharedSecret.
        and_then (decryptPreKeyMessage c m sharedSecret) (\<lambda>plaintext.
        and_then (createResponderRatchetSession c (responder_input device m sharedSecret now)) (\<lambda>session.
        and_then (storeLocalSession (cfg\<lparr>ec_devices := jm_set (pm_receiverDeviceId m) (claim_key otk now device) (ec_devices cfg)\<rparr>)
            (ld_deviceId device) session) (\<lambda>cfg'.
          Inr (plaintext, session, cfg', sharedSecret))))))))"

end
