(* ===== verification/Message_Envelope.thy ===== *)
theory Message_Envelope
  imports E2E_Crypto
begin

text \<open>
  The signed envelope of an agent message, \<open>js/core/protocol/src/messaging/envelope.ts\<close> and the canonical JSON
  that is signed, \<open>utils/canonical-json.ts\<close>. An absent or \<open>undefined\<close> property is a missing key. A string stands for its UTF-8
  bytes. The text of a JSON value (\<open>JSON.stringify\<close>, then \<open>TextEncoder\<close>) and its parser are the parameters
  \<open>json_encode\<close> and \<open>json_decode\<close>.
\<close>

record json_text =
  json_encode :: "json \<Rightarrow> bytes"
  json_decode :: "bytes \<Rightarrow> json option"

section \<open>Canonical JSON\<close>

fun str_less :: "string \<Rightarrow> string \<Rightarrow> bool" where
  "str_less [] [] \<longleftrightarrow> False"
| "str_less [] (d # ds) \<longleftrightarrow> True"
| "str_less (c # cs) [] \<longleftrightarrow> False"
| "str_less (c # cs) (d # ds) \<longleftrightarrow> (of_char c :: nat) < of_char d \<or> (c = d \<and> str_less cs ds)"

definition compare_keys :: "string \<times> 'a \<Rightarrow> string \<times> 'a \<Rightarrow> rat" where
  "compare_keys l r = (if str_less (fst l) (fst r) then -1 else if str_less (fst r) (fst l) then 1 else 0)"

fun normalizeCanonicalJsonValue :: "json \<Rightarrow> json" where
  "normalizeCanonicalJsonValue (JArr vs) = JArr (map normalizeCanonicalJsonValue vs)"
| "normalizeCanonicalJsonValue (JObj kvs) = JObj (js_sort compare_keys (map (\<lambda>kv. (fst kv, normalizeCanonicalJsonValue (snd kv))) kvs))"
| "normalizeCanonicalJsonValue v = v"

definition encodeCanonicalJson :: "json_text \<Rightarrow> json \<Rightarrow> bytes" where
  "encodeCanonicalJson j v = json_encode j (normalizeCanonicalJsonValue v)"

definition encodeLegacyJson :: "json_text \<Rightarrow> json \<Rightarrow> bytes" where
  "encodeLegacyJson j v = json_encode j v"

definition encodeJsonSignaturePayloads :: "json_text \<Rightarrow> json \<Rightarrow> bytes list" where
  "encodeJsonSignaturePayloads j v = (let canonical = encodeCanonicalJson j v; legacy = encodeLegacyJson j v
     in if canonical = legacy then [canonical] else [canonical, legacy])"

section \<open>Envelopes\<close>

datatype envelope_type = Message | Reply

text \<open>\<open>Omit<MessageEnvelope, 'signature'>\<close> and \<open>MessageEnvelope\<close>.\<close>

record unsigned_envelope =
  me_id :: string
  me_from :: did
  me_to :: did
  me_type :: envelope_type
  me_protocol :: string
  me_payload :: json
  me_timestamp :: rat
  me_replyTo :: "string option"
  me_threadId :: "string option"
  me_groupId :: "string option"

record message_envelope = unsigned_envelope +
  me_signature :: string

definition normalizeEnvelopeType :: "string \<Rightarrow> envelope_type option" where
  "normalizeEnvelopeType t =
     (if t \<in> {''message'', ''notification'', ''request''} then Some Message
      else if t \<in> {''reply'', ''response''} then Some Reply else None)"

definition type_name :: "envelope_type \<Rightarrow> string" where
  "type_name t = (case t of Message \<Rightarrow> ''message'' | Reply \<Rightarrow> ''reply'')"

definition json_str :: "(string \<times> json) list \<Rightarrow> string \<Rightarrow> string option" where
  "json_str m k = (case map_of m k of Some (JStr s) \<Rightarrow> Some s | _ \<Rightarrow> None)"

definition json_num :: "(string \<times> json) list \<Rightarrow> string \<Rightarrow> rat option" where
  "json_num m k = (case map_of m k of Some (JNum q) \<Rightarrow> Some q | _ \<Rightarrow> None)"

definition agent_did :: "string option \<Rightarrow> did option" where
  "agent_did v = (case v of Some s \<Rightarrow> if js_startsWith s ''did:agent:'' then Some s else None | None \<Rightarrow> None)"

definition normalizeEnvelope :: "json \<Rightarrow> message_envelope option" where
  "normalizeEnvelope msg = (case msg of
     JObj m \<Rightarrow>
       (case (json_str m ''id'', agent_did (json_str m ''from''), agent_did (json_str m ''to''),
              Option.bind (json_str m ''type'') normalizeEnvelopeType, json_str m ''protocol'', map_of m ''payload'',
              json_num m ''timestamp'', json_str m ''signature'') of
         (Some i, Some f, Some t, Some ty, Some p, Some pl, Some ts, Some sig) \<Rightarrow>
           if ty = Reply \<and> json_str m ''replyTo'' = None then None
           else Some \<lparr>me_id = i, me_from = f, me_to = t, me_type = ty, me_protocol = p, me_payload = pl, me_timestamp = ts,
                      me_replyTo = json_str m ''replyTo'', me_threadId = json_str m ''threadId'', me_groupId = json_str m ''groupId'',
                      me_signature = sig\<rparr>
       | _ \<Rightarrow> None)
   | _ \<Rightarrow> None)"

definition opt_field :: "string \<Rightarrow> string option \<Rightarrow> (string \<times> json) list" where
  "opt_field k v = (case v of Some s \<Rightarrow> [(k, JStr s)] | None \<Rightarrow> [])"

text \<open>The object that is signed, and the whole object.\<close>

definition envelope_fields :: "'x unsigned_envelope_scheme \<Rightarrow> (string \<times> json) list" where
  "envelope_fields e =
     [(''id'', JStr (me_id e)), (''from'', JStr (me_from e)), (''to'', JStr (me_to e)), (''type'', JStr (type_name (me_type e))),
      (''protocol'', JStr (me_protocol e)), (''payload'', me_payload e), (''timestamp'', JNum (me_timestamp e))]
     @ opt_field ''replyTo'' (me_replyTo e) @ opt_field ''threadId'' (me_threadId e) @ opt_field ''groupId'' (me_groupId e)"

definition envelope_json :: "message_envelope \<Rightarrow> json" where
  "envelope_json e = JObj (take 7 (envelope_fields e) @ [(''signature'', JStr (me_signature e))] @ drop 7 (envelope_fields e))"

definition unsigned :: "message_envelope \<Rightarrow> unsigned_envelope" where
  "unsigned e = unsigned_envelope.truncate e"

text \<open>The random identifier and the clock are arguments.\<close>

definition given_string :: "string option \<Rightarrow> string option" where
  "given_string v = (if v = Some '''' then None else v)"

definition createEnvelope :: "string \<Rightarrow> rat \<Rightarrow> did \<Rightarrow> did \<Rightarrow> string \<Rightarrow> string \<Rightarrow> json \<Rightarrow> string option \<Rightarrow> string option \<Rightarrow> string option
    \<Rightarrow> e2e_error + unsigned_envelope" where
  "createEnvelope newId now f t ty protocol payload replyTo threadId groupId = (case normalizeEnvelopeType ty of
     None \<Rightarrow> Inl (MessagingError (''Invalid message type: '' @ ty))
   | Some nt \<Rightarrow>
       if nt = Reply \<and> given_string replyTo = None then Inl (MessagingError ''Reply envelopes must include replyTo'')
       else Inr \<lparr>me_id = newId, me_from = f, me_to = t, me_type = nt, me_protocol = protocol, me_payload = payload, me_timestamp = now,
                 me_replyTo = given_string replyTo, me_threadId = given_string threadId, me_groupId = given_string groupId\<rparr>)"

definition rethrow_messaging :: "string \<Rightarrow> e2e_error + 'a \<Rightarrow> e2e_error + 'a" where
  "rethrow_messaging msg r = (case r of Inl _ \<Rightarrow> Inl (MessagingError msg) | Inr x \<Rightarrow> Inr x)"

definition signEnvelope :: "json_text \<Rightarrow> unsigned_envelope \<Rightarrow> (bytes \<Rightarrow> e2e_error + bytes) \<Rightarrow> e2e_error + message_envelope" where
  "signEnvelope j e signFn = rethrow_messaging ''Failed to sign envelope''
     (and_then (signFn (encodeCanonicalJson j (JObj (envelope_fields e)))) (\<lambda>sig.
        Inr (unsigned_envelope.extend e (message_envelope.fields (bytesToHex sig)))))"

fun any_verifies :: "(bytes \<Rightarrow> e2e_error + bool) \<Rightarrow> bytes list \<Rightarrow> e2e_error + bool" where
  "any_verifies f [] = Inr False"
| "any_verifies f (p # ps) = and_then (f p) (\<lambda>ok. if ok then Inr True else any_verifies f ps)"

definition verifyEnvelope :: "json_text \<Rightarrow> message_envelope \<Rightarrow> (bytes \<Rightarrow> bytes \<Rightarrow> e2e_error + bool) \<Rightarrow> e2e_error + bool" where
  "verifyEnvelope j e verifyFn = rethrow_messaging ''Failed to verify envelope''
     (case normalizeEnvelope (envelope_json e) of
        None \<Rightarrow> Inr False
      | Some n \<Rightarrow> any_verifies (verifyFn (hexToBytes (me_signature n))) (encodeJsonSignaturePayloads j (JObj (envelope_fields n))))"

section \<open>Round trips\<close>

lemma rethrow_messaging_Inr [simp]: "rethrow_messaging msg r = Inr y \<longleftrightarrow> r = Inr y"
  by (simp add: rethrow_messaging_def split: sum.split)

lemma type_name_normal [simp]: "normalizeEnvelopeType (type_name t) = Some t"
  by (cases t) (simp_all add: type_name_def normalizeEnvelopeType_def)

text \<open>The envelopes that the code accepts.\<close>

definition valid_envelope :: "'x unsigned_envelope_scheme \<Rightarrow> bool" where
  "valid_envelope e \<longleftrightarrow> js_startsWith (me_from e) ''did:agent:'' \<and> js_startsWith (me_to e) ''did:agent:''
     \<and> (me_type e = Reply \<longrightarrow> me_replyTo e \<noteq> None)"

lemma normalize_envelope_json: "normalizeEnvelope (envelope_json e) = (if valid_envelope e then Some e else None)"
proof -
  have "\<exists>m. envelope_json e = JObj m \<and> json_str m ''id'' = Some (me_id e) \<and> json_str m ''from'' = Some (me_from e)
    \<and> json_str m ''to'' = Some (me_to e) \<and> json_str m ''type'' = Some (type_name (me_type e)) \<and> json_str m ''protocol'' = Some (me_protocol e)
    \<and> map_of m ''payload'' = Some (me_payload e) \<and> json_num m ''timestamp'' = Some (me_timestamp e)
    \<and> json_str m ''signature'' = Some (me_signature e) \<and> json_str m ''replyTo'' = me_replyTo e \<and> json_str m ''threadId'' = me_threadId e
    \<and> json_str m ''groupId'' = me_groupId e"
    by (simp add: envelope_json_def envelope_fields_def json_str_def json_num_def opt_field_def split: option.splits)
  then obtain m where m: "envelope_json e = JObj m" "json_str m ''id'' = Some (me_id e)" "json_str m ''from'' = Some (me_from e)"
    "json_str m ''to'' = Some (me_to e)" "json_str m ''type'' = Some (type_name (me_type e))" "json_str m ''protocol'' = Some (me_protocol e)"
    "map_of m ''payload'' = Some (me_payload e)" "json_num m ''timestamp'' = Some (me_timestamp e)"
    "json_str m ''signature'' = Some (me_signature e)" "json_str m ''replyTo'' = me_replyTo e" "json_str m ''threadId'' = me_threadId e"
    "json_str m ''groupId'' = me_groupId e" by blast
  show ?thesis
    unfolding normalizeEnvelope_def m(1) json.case m(2-)
    by (simp add: agent_did_def valid_envelope_def)
qed

lemma normalize_valid: "normalizeEnvelope v = Some e \<Longrightarrow> valid_envelope e"
  by (auto simp: normalizeEnvelope_def valid_envelope_def agent_did_def split: json.splits option.splits if_splits)

lemma any_verifies_True: "any_verifies f ps = Inr True \<Longrightarrow> \<exists>p \<in> set ps. f p = Inr True"
  by (induction ps) (auto simp: and_then_Inr split: if_splits)

text \<open>An envelope that was signed verifies with the key that signed it.\<close>

lemma verify_signed:
  assumes "signEnvelope j e signFn = Inr m" "valid_envelope e"
    and "\<And>data sig. signFn data = Inr sig \<Longrightarrow> verifyFn sig data = Inr True"
  shows "verifyEnvelope j m verifyFn = Inr True"
proof -
  obtain sig where sig: "signFn (encodeCanonicalJson j (JObj (envelope_fields e))) = Inr sig"
      "m = unsigned_envelope.extend e (message_envelope.fields (bytesToHex sig))"
    using assms(1) by (auto simp: signEnvelope_def and_then_Inr)
  then have f: "envelope_fields m = envelope_fields e" "me_signature m = bytesToHex sig" and v: "valid_envelope m"
    using assms(2) by (cases e; simp add: unsigned_envelope.defs message_envelope.defs envelope_fields_def valid_envelope_def)+
  obtain ps where "encodeJsonSignaturePayloads j (JObj (envelope_fields e)) = encodeCanonicalJson j (JObj (envelope_fields e)) # ps"
    unfolding encodeJsonSignaturePayloads_def Let_def by (metis (full_types))
  then have "any_verifies (verifyFn sig) (encodeJsonSignaturePayloads j (JObj (envelope_fields e))) = Inr True"
    using assms(3) [OF sig(1)] by simp
  then show ?thesis by (simp add: verifyEnvelope_def normalize_envelope_json v f)
qed

end
