(* ===== verification/E2E_Envelope.thy ===== *)
theory E2E_Envelope
  imports E2E_Bootstrap Message_Envelope
begin

text \<open>
  Encrypted application envelopes, \<open>js/core/protocol/src/e2e/application-envelope.ts\<close>, and the two ends of
  the runtime that use them, \<open>js/core/runtime/src/e2e-send.ts\<close> and \<open>e2e-receive.ts\<close>. What the relay client fetches (the
  devices of a card, the claimed bundle of a device) is an argument, and so is what is drawn for each device.
\<close>

section \<open>The payload of a transport envelope\<close>

definition E2E_APPLICATION_ENVELOPE_PROTOCOL :: string where "E2E_APPLICATION_ENVELOPE_PROTOCOL = ''/agent/e2e/1.0.0''"
definition E2E_APPLICATION_ENVELOPE_KIND :: string where "E2E_APPLICATION_ENVELOPE_KIND = ''quadra-a-e2e''"
definition E2E_APPLICATION_ENVELOPE_VERSION :: rat where "E2E_APPLICATION_ENVELOPE_VERSION = 1"
definition E2E_APPLICATION_ENVELOPE_ENCODING :: string where "E2E_APPLICATION_ENVELOPE_ENCODING = ''hex''"

datatype e2e_transport = ByPreKey | BySession

record e2e_payload =
  ep_messageType :: e2e_transport
  ep_senderDeviceId :: string
  ep_receiverDeviceId :: string
  ep_sessionId :: string
  ep_wireMessage :: string

definition message_type_name :: "e2e_transport \<Rightarrow> string" where
  "message_type_name t = (case t of ByPreKey \<Rightarrow> ''PREKEY_MESSAGE'' | BySession \<Rightarrow> ''SESSION_MESSAGE'')"

definition payload_json :: "e2e_payload \<Rightarrow> json" where
  "payload_json p = JObj [(''kind'', JStr E2E_APPLICATION_ENVELOPE_KIND), (''version'', JNum E2E_APPLICATION_ENVELOPE_VERSION),
     (''encoding'', JStr E2E_APPLICATION_ENVELOPE_ENCODING), (''messageType'', JStr (message_type_name (ep_messageType p))),
     (''senderDeviceId'', JStr (ep_senderDeviceId p)), (''receiverDeviceId'', JStr (ep_receiverDeviceId p)),
     (''sessionId'', JStr (ep_sessionId p)), (''wireMessage'', JStr (ep_wireMessage p))]"

definition message_type_of :: "string \<Rightarrow> e2e_transport option" where
  "message_type_of s = (if s = ''PREKEY_MESSAGE'' then Some ByPreKey else if s = ''SESSION_MESSAGE'' then Some BySession else None)"

definition assertEncryptedApplicationEnvelopePayload :: "json \<Rightarrow> e2e_error + e2e_payload" where
  "assertEncryptedApplicationEnvelopePayload v = of_option (EncryptionError ''Invalid encrypted application envelope payload'') (case v of
     JObj m \<Rightarrow>
       if json_str m ''kind'' = Some E2E_APPLICATION_ENVELOPE_KIND \<and> json_num m ''version'' = Some E2E_APPLICATION_ENVELOPE_VERSION
          \<and> json_str m ''encoding'' = Some E2E_APPLICATION_ENVELOPE_ENCODING
       then (case (Option.bind (json_str m ''messageType'') message_type_of, json_str m ''senderDeviceId'', json_str m ''receiverDeviceId'',
               json_str m ''sessionId'', json_str m ''wireMessage'') of
          (Some t, Some s, Some r, Some i, Some w) \<Rightarrow>
            Some \<lparr>ep_messageType = t, ep_senderDeviceId = s, ep_receiverDeviceId = r, ep_sessionId = i, ep_wireMessage = w\<rparr>
        | _ \<Rightarrow> None)
       else None
   | _ \<Rightarrow> None)"

lemma payload_roundtrip [simp]: "assertEncryptedApplicationEnvelopePayload (payload_json p) = Inr p"
  by (cases "ep_messageType p"; cases p)
    (simp_all add: assertEncryptedApplicationEnvelopePayload_def payload_json_def json_str_def json_num_def message_type_name_def message_type_of_def)

section \<open>Messages of both types\<close>

definition msg_type :: "e2e_message \<Rightarrow> e2e_transport" where
  "msg_type m = (case m of PreKeyMessage _ \<Rightarrow> ByPreKey | SessionMessage _ \<Rightarrow> BySession)"

definition msg_senderDid :: "e2e_message \<Rightarrow> did" where
  "msg_senderDid m = (case m of PreKeyMessage p \<Rightarrow> pm_senderDid p | SessionMessage s \<Rightarrow> sm_senderDid s)"

definition msg_receiverDid :: "e2e_message \<Rightarrow> did" where
  "msg_receiverDid m = (case m of PreKeyMessage p \<Rightarrow> pm_receiverDid p | SessionMessage s \<Rightarrow> sm_receiverDid s)"

definition msg_senderDeviceId :: "e2e_message \<Rightarrow> string" where
  "msg_senderDeviceId m = (case m of PreKeyMessage p \<Rightarrow> pm_senderDeviceId p | SessionMessage s \<Rightarrow> sm_senderDeviceId s)"

definition msg_receiverDeviceId :: "e2e_message \<Rightarrow> string" where
  "msg_receiverDeviceId m = (case m of PreKeyMessage p \<Rightarrow> pm_receiverDeviceId p | SessionMessage s \<Rightarrow> sm_receiverDeviceId s)"

definition msg_sessionId :: "e2e_message \<Rightarrow> string" where
  "msg_sessionId m = (case m of PreKeyMessage p \<Rightarrow> pm_sessionId p | SessionMessage s \<Rightarrow> sm_sessionId s)"

definition msg_messageId :: "e2e_message \<Rightarrow> string" where
  "msg_messageId m = (case m of PreKeyMessage p \<Rightarrow> pm_messageId p | SessionMessage s \<Rightarrow> sm_messageId s)"

lemmas msg_defs = msg_type_def msg_senderDid_def msg_receiverDid_def msg_senderDeviceId_def msg_receiverDeviceId_def msg_sessionId_def msg_messageId_def

definition buildEncryptedApplicationEnvelopePayload :: "e2e_message \<Rightarrow> bytes \<Rightarrow> e2e_payload" where
  "buildEncryptedApplicationEnvelopePayload m wire = \<lparr>ep_messageType = msg_type m, ep_senderDeviceId = msg_senderDeviceId m,
     ep_receiverDeviceId = msg_receiverDeviceId m, ep_sessionId = msg_sessionId m, ep_wireMessage = bytesToHex wire\<rparr>"

definition decodeEncryptedApplicationEnvelopePayload :: "crypto \<Rightarrow> e2e_payload \<Rightarrow> e2e_error + e2e_message" where
  "decodeEncryptedApplicationEnvelopePayload c p = (let wire = hexToBytes (ep_wireMessage p) in case ep_messageType p of
     ByPreKey \<Rightarrow> and_then (decodePreKeyMessage c wire) (\<lambda>m. Inr (PreKeyMessage m))
   | BySession \<Rightarrow> and_then (decodeSessionMessage c wire) (\<lambda>m. Inr (SessionMessage m)))"

section \<open>Checks\<close>

definition serializeSignedApplicationEnvelope :: "json_text \<Rightarrow> message_envelope \<Rightarrow> bytes" where
  "serializeSignedApplicationEnvelope j e = json_encode j (envelope_json e)"

definition deserializeSignedApplicationEnvelope :: "json_text \<Rightarrow> bytes \<Rightarrow> e2e_error + message_envelope" where
  "deserializeSignedApplicationEnvelope j bs =
     and_then (of_option (EncryptionError ''Failed to parse signed application envelope JSON'') (json_decode j bs)) (\<lambda>parsed.
       of_option (EncryptionError ''Decrypted application envelope is invalid'') (normalizeEnvelope parsed))"

definition assertTransportEnvelopeMatchesMessage :: "message_envelope \<Rightarrow> e2e_payload \<Rightarrow> e2e_message \<Rightarrow> e2e_error + unit" where
  "assertTransportEnvelopeMatchesMessage t p m =
     (if me_protocol t \<noteq> E2E_APPLICATION_ENVELOPE_PROTOCOL then Inl (EncryptionError ''Transport envelope protocol is not the E2E application protocol'')
      else if me_from t \<noteq> msg_senderDid m \<or> me_to t \<noteq> msg_receiverDid m
        then Inl (EncryptionError ''Transport envelope DID routing does not match encrypted message'')
      else if me_id t \<noteq> msg_messageId m then Inl (EncryptionError ''Transport envelope id does not match encrypted message id'')
      else if ep_messageType p \<noteq> msg_type m \<or> ep_senderDeviceId p \<noteq> msg_senderDeviceId m \<or> ep_receiverDeviceId p \<noteq> msg_receiverDeviceId m
          \<or> ep_sessionId p \<noteq> msg_sessionId m
        then Inl (EncryptionError ''Transport envelope metadata does not match encrypted message payload'')
      else Inr ())"

definition assertApplicationEnvelopeMatchesMessage :: "message_envelope \<Rightarrow> e2e_message \<Rightarrow> e2e_error + unit" where
  "assertApplicationEnvelopeMatchesMessage a m =
     (if me_id a \<noteq> msg_messageId m \<or> me_from a \<noteq> msg_senderDid m \<or> me_to a \<noteq> msg_receiverDid m
      then Inl (EncryptionError ''Decrypted application envelope does not match encrypted message routing'') else Inr ())"

definition assertPublishedSenderDeviceMatchesPreKeyMessage :: "published_device list \<Rightarrow> prekey_message \<Rightarrow> e2e_error + unit" where
  "assertPublishedSenderDeviceMatchesPreKeyMessage devices m = (case filter (\<lambda>d. deviceId d = pm_senderDeviceId m) devices of
     [] \<Rightarrow> Inl (EncryptionError (''Sender '' @ pm_senderDid m @ '':'' @ pm_senderDeviceId m @ '' is not published in current Agent Card''))
   | [d] \<Rightarrow> if identityKeyPublic d \<noteq> bytesToHex (pm_initiatorIdentityKey m)
       then Inl (EncryptionError (''Sender '' @ pm_senderDid m @ '':'' @ pm_senderDeviceId m @ '' published identity key does not match PREKEY_MESSAGE''))
       else Inr ()
   | _ \<Rightarrow> Inl (EncryptionError (''Sender '' @ pm_senderDid m @ '' publishes duplicate E2E device '' @ pm_senderDeviceId m)))"

definition verify_with_did :: "crypto \<Rightarrow> did \<Rightarrow> bytes \<Rightarrow> bytes \<Rightarrow> e2e_error + bool" where
  "verify_with_did c did sig data = and_then (extractPublicKey c did) (identity_verify c sig data)"

definition assertEnvelopeSignature :: "crypto \<Rightarrow> json_text \<Rightarrow> message_envelope \<Rightarrow> string \<Rightarrow> e2e_error + unit" where
  "assertEnvelopeSignature c j e label = and_then (verifyEnvelope j e (verify_with_did c (me_from e))) (\<lambda>valid.
     if valid then Inr () else Inl (EncryptionError (label @ '' signature verification failed'')))"

section \<open>Encryption\<close>

definition encryptApplicationEnvelope :: "crypto \<Rightarrow> json_text \<Rightarrow> draws \<Rightarrow> bytes \<Rightarrow> e2e_config \<Rightarrow> message_envelope \<Rightarrow> published_device
    \<Rightarrow> claimed_bundle option \<Rightarrow> e2e_error + e2e_payload \<times> e2e_config \<times> e2e_transport" where
  "encryptApplicationEnvelope c j dr sid cfg e device claimed =
     (let plaintext = serializeSignedApplicationEnvelope j e; current = ec_currentDeviceId cfg
      in case loadLocalSession cfg current (me_to e) (deviceId device) of
        Some s \<Rightarrow>
          and_then (encryptRatchetMessage c dr \<lparr>rx_session = s, rx_plaintext = plaintext, rx_senderDid = me_from e, rx_receiverDid = me_to e,
            rx_messageId = Some (me_id e), rx_nonce = None, rx_ratchetKeyPair = None, rx_now = None\<rparr>) (\<lambda>(m, s', _).
          and_then (storeLocalSession cfg current s') (\<lambda>cfg'.
            Inr (buildEncryptedApplicationEnvelopePayload (SessionMessage m) (encodeSessionMessage c m), cfg', BySession)))
      | None \<Rightarrow> (case claimed of
          None \<Rightarrow> Inl (EncryptionError ''Missing claimed pre-key bundle for first encrypted send'')
        | Some b \<Rightarrow>
            and_then (buildInitiatorPreKeyMessage c dr sid \<lparr>ii_config = cfg, ii_senderDid = me_from e, ii_receiverDid = me_to e,
              ii_recipientDevice = device, ii_claimedBundle = b, ii_plaintext = plaintext, ii_sessionId = None, ii_messageId = Some (me_id e),
              ii_nonce = None, ii_ephemeralKeyPair = None, ii_now = None\<rparr>) (\<lambda>(m, _, cfg', _).
              Inr (buildEncryptedApplicationEnvelopePayload (PreKeyMessage m) (encodePreKeyMessage c m), cfg', ByPreKey))))"

definition signEncryptedTransportEnvelope :: "json_text \<Rightarrow> message_envelope \<Rightarrow> e2e_payload \<Rightarrow> (bytes \<Rightarrow> e2e_error + bytes) \<Rightarrow> e2e_error + message_envelope" where
  "signEncryptedTransportEnvelope j e p signFn = signEnvelope j
     \<lparr>me_id = me_id e, me_from = me_from e, me_to = me_to e, me_type = Message, me_protocol = E2E_APPLICATION_ENVELOPE_PROTOCOL,
      me_payload = payload_json p, me_timestamp = me_timestamp e, me_replyTo = None, me_threadId = None, me_groupId = None\<rparr> signFn"

section \<open>Decryption\<close>

record decrypted_envelope =
  de_applicationEnvelope :: message_envelope
  de_config :: e2e_config
  de_transport :: e2e_transport
  de_senderDeviceId :: string
  de_receiverDeviceId :: string
  de_sessionId :: string
  de_usedSkippedMessageKey :: bool

definition decrypt_session_message :: "crypto \<Rightarrow> e2e_config \<Rightarrow> session_message \<Rightarrow> msec \<Rightarrow> e2e_error + bytes \<times> e2e_config \<times> bool" where
  "decrypt_session_message c cfg m now = (case loadLocalSession cfg (sm_receiverDeviceId m) (sm_senderDid m) (sm_senderDeviceId m) of
     None \<Rightarrow> Inl (EncryptionError ''Missing local E2E session for SESSION_MESSAGE'')
   | Some s \<Rightarrow>
       if ls_sessionId s \<noteq> sm_sessionId m then Inl (EncryptionError ''SESSION_MESSAGE session id does not match local ratchet state'')
       else and_then (decryptRatchetMessage c m now s) (\<lambda>(plaintext, s', _, skipped).
            and_then (storeLocalSession cfg (sm_receiverDeviceId m) s') (\<lambda>cfg'. Inr (plaintext, cfg', skipped))))"

definition decrypt_message :: "crypto \<Rightarrow> e2e_config \<Rightarrow> did \<Rightarrow> e2e_message \<Rightarrow> msec \<Rightarrow> e2e_error + bytes \<times> e2e_config \<times> bool" where
  "decrypt_message c cfg receiver m now = (case m of
     PreKeyMessage p \<Rightarrow> and_then (consumeResponderPreKeyMessage c cfg receiver p now) (\<lambda>(plaintext, _, cfg', _). Inr (plaintext, cfg', False))
   | SessionMessage s \<Rightarrow> decrypt_session_message c cfg s now)"

definition decryptApplicationEnvelope :: "crypto \<Rightarrow> json_text \<Rightarrow> e2e_config \<Rightarrow> did \<Rightarrow> message_envelope \<Rightarrow> msec \<Rightarrow> e2e_error + decrypted_envelope" where
  "decryptApplicationEnvelope c j cfg receiver t now =
     and_then (assertEnvelopeSignature c j t ''Encrypted transport envelope'') (\<lambda>_.
     if me_protocol t \<noteq> E2E_APPLICATION_ENVELOPE_PROTOCOL then Inl (EncryptionError ''Transport envelope protocol is not the E2E application protocol'')
     else and_then (assertEncryptedApplicationEnvelopePayload (me_payload t)) (\<lambda>p.
     and_then (decodeEncryptedApplicationEnvelopePayload c p) (\<lambda>m.
     and_then (assertTransportEnvelopeMatchesMessage t p m) (\<lambda>_.
     and_then (decrypt_message c cfg receiver m now) (\<lambda>(plaintext, cfg', skipped).
     and_then (deserializeSignedApplicationEnvelope j plaintext) (\<lambda>a.
     and_then (assertApplicationEnvelopeMatchesMessage a m) (\<lambda>_.
     and_then (assertEnvelopeSignature c j a ''Decrypted application envelope'') (\<lambda>_.
       Inr \<lparr>de_applicationEnvelope = a, de_config = cfg', de_transport = msg_type m, de_senderDeviceId = msg_senderDeviceId m,
            de_receiverDeviceId = msg_receiverDeviceId m, de_sessionId = msg_sessionId m, de_usedSkippedMessageKey = skipped\<rparr>))))))))"

section \<open>Sending from the runtime\<close>

text \<open>\<open>None\<close> is a missing card. The error of a duplicate device names the device whose second entry comes first.\<close>

fun first_repeated :: "string list \<Rightarrow> published_device list \<Rightarrow> string option" where
  "first_repeated seen [] = None"
| "first_repeated seen (d # ds) = (if deviceId d \<in> set seen then Some (deviceId d) else first_repeated (deviceId d # seen) ds)"

definition selectRecipientDevices :: "(string \<Rightarrow> string \<Rightarrow> rat) \<Rightarrow> published_device list option \<Rightarrow> did \<Rightarrow> e2e_error + published_device list" where
  "selectRecipientDevices localeCompare cardDevices did = (case cardDevices of
     None \<Rightarrow> Inl (JsError (''No Agent Card found for '' @ did))
   | Some ds \<Rightarrow>
       if ds = [] then Inl (JsError (''Target '' @ did @ '' does not publish any E2E devices''))
       else (case first_repeated [] ds of
         Some d \<Rightarrow> Inl (JsError (''Target '' @ did @ '' publishes duplicate E2E device '' @ d))
       | None \<Rightarrow> Inr (js_sort (\<lambda>l r. localeCompare (deviceId l) (deviceId r)) ds)))"

definition assertRecipientSignedPreKeyBundle :: "crypto \<Rightarrow> did \<Rightarrow> claimed_bundle \<Rightarrow> e2e_error + unit" where
  "assertRecipientSignedPreKeyBundle c did b = and_then (extractPublicKey c did) (\<lambda>key.
     and_then (verifySignedPreKeyRecord c \<lparr>sr_deviceId = deviceId b, sr_signedPreKeyId = signedPreKeyId b,
       sr_signedPreKeyPublic = hexToBytes (signedPreKeyPublic b), sr_signature = hexToBytes (signedPreKeySignature b)\<rparr> key) (\<lambda>valid.
     if valid then Inr ()
     else Inl (JsError (''Target '' @ did @ '':'' @ deviceId b @ '' publishes invalid signed pre-key signature''))))"

text \<open>A session that was made with a signed pre-key the device no longer publishes is stale.\<close>

definition stale_session :: "published_device \<Rightarrow> session \<Rightarrow> bool" where
  "stale_session device s \<longleftrightarrow> bs_recipientSignedPreKeyPublic (ls_bootstrap s) \<noteq> '''' \<and> ls_role s = Initiator
     \<and> signedPreKeyPublic device \<noteq> '''' \<and> bs_recipientSignedPreKeyPublic (ls_bootstrap s) \<noteq> signedPreKeyPublic device"

record send_target =
  st_outerEnvelope :: message_envelope
  st_transport :: e2e_transport
  st_senderDeviceId :: string
  st_recipientDeviceId :: string
  st_sessionId :: string
  st_configAfterSend :: e2e_config

definition send_to_device :: "crypto \<Rightarrow> json_text \<Rightarrow> (string \<Rightarrow> draws \<times> bytes) \<Rightarrow> (string \<Rightarrow> claimed_bundle option) \<Rightarrow> bytes \<Rightarrow> message_envelope
    \<Rightarrow> did \<Rightarrow> e2e_config \<Rightarrow> published_device \<Rightarrow> e2e_error + send_target" where
  "send_to_device c j drs fetchBundle signKey e receiver cfg device =
     (let found = loadLocalSession cfg (ec_currentDeviceId cfg) receiver (deviceId device);
          existing = (case found of Some s \<Rightarrow> if stale_session device s then None else Some s | None \<Rightarrow> None);
          claimed = (case existing of Some _ \<Rightarrow> None | None \<Rightarrow> fetchBundle (deviceId device))
      in if existing = None \<and> claimed = None
         then Inl (JsError (''No claimed pre-key bundle available for '' @ receiver @ '':'' @ deviceId device))
         else and_then (case claimed of Some b \<Rightarrow> assertRecipientSignedPreKeyBundle c receiver b | None \<Rightarrow> Inr ()) (\<lambda>_.
              and_then (encryptApplicationEnvelope c j (fst (drs (deviceId device))) (snd (drs (deviceId device))) cfg e device claimed) (\<lambda>(p, cfg', t).
              and_then (signEncryptedTransportEnvelope j e p (\<lambda>data. identity_sign c data signKey)) (\<lambda>outer.
                Inr \<lparr>st_outerEnvelope = outer, st_transport = t, st_senderDeviceId = ep_senderDeviceId p, st_recipientDeviceId = deviceId device,
                     st_sessionId = ep_sessionId p, st_configAfterSend = cfg'\<rparr>))))"

fun send_to_devices :: "crypto \<Rightarrow> json_text \<Rightarrow> (string \<Rightarrow> draws \<times> bytes) \<Rightarrow> (string \<Rightarrow> claimed_bundle option) \<Rightarrow> bytes \<Rightarrow> message_envelope
    \<Rightarrow> did \<Rightarrow> e2e_config \<Rightarrow> published_device list \<Rightarrow> e2e_error + send_target list \<times> e2e_config" where
  "send_to_devices c j drs fetchBundle signKey e receiver cfg [] = Inr ([], cfg)"
| "send_to_devices c j drs fetchBundle signKey e receiver cfg (d # ds) =
     and_then (send_to_device c j drs fetchBundle signKey e receiver cfg d) (\<lambda>t.
     and_then (send_to_devices c j drs fetchBundle signKey e receiver (st_configAfterSend t) ds) (\<lambda>(ts, cfg'). Inr (t # ts, cfg')))"

text \<open>The application envelope is given, or made and signed first.\<close>

definition prepareEncryptedSends :: "crypto \<Rightarrow> json_text \<Rightarrow> (string \<Rightarrow> string \<Rightarrow> rat) \<Rightarrow> (string \<Rightarrow> draws \<times> bytes) \<Rightarrow> published_device list option
    \<Rightarrow> (string \<Rightarrow> claimed_bundle option) \<Rightarrow> bytes \<Rightarrow> e2e_error + message_envelope \<Rightarrow> did \<Rightarrow> e2e_config
    \<Rightarrow> e2e_error + message_envelope \<times> send_target list \<times> e2e_config" where
  "prepareEncryptedSends c j localeCompare drs cardDevices fetchBundle signKey made receiver cfg =
     and_then made (\<lambda>e. and_then (selectRecipientDevices localeCompare cardDevices receiver) (\<lambda>ds.
     and_then (send_to_devices c j drs fetchBundle signKey e receiver cfg ds) (\<lambda>(ts, cfg'). Inr (e, ts, cfg'))))"

definition selectSingleRecipientDevice :: "(string \<Rightarrow> string \<Rightarrow> rat) \<Rightarrow> published_device list option \<Rightarrow> did \<Rightarrow> e2e_error + published_device" where
  "selectSingleRecipientDevice localeCompare cardDevices did = and_then (selectRecipientDevices localeCompare cardDevices did) (\<lambda>ds.
     if length ds > 1 then Inl (JsError (''Target '' @ did @ '' publishes '' @ js_show_nat (length ds)
       @ '' E2E devices; use multi-device fan-out instead of prepareEncryptedSend'')) else Inr (hd ds))"

definition prepareEncryptedSend :: "crypto \<Rightarrow> json_text \<Rightarrow> (string \<Rightarrow> string \<Rightarrow> rat) \<Rightarrow> (string \<Rightarrow> draws \<times> bytes) \<Rightarrow> published_device list option
    \<Rightarrow> (string \<Rightarrow> claimed_bundle option) \<Rightarrow> bytes \<Rightarrow> e2e_error + message_envelope \<Rightarrow> did \<Rightarrow> e2e_config
    \<Rightarrow> e2e_error + message_envelope \<times> send_target \<times> e2e_config" where
  "prepareEncryptedSend c j localeCompare drs cardDevices fetchBundle signKey made receiver cfg =
     and_then (selectSingleRecipientDevice localeCompare cardDevices receiver) (\<lambda>_.
     and_then (prepareEncryptedSends c j localeCompare drs cardDevices fetchBundle signKey made receiver cfg) (\<lambda>(e, ts, cfg'). Inr (e, hd ts, cfg')))"

definition make_application_envelope :: "crypto \<Rightarrow> json_text \<Rightarrow> bytes \<Rightarrow> string \<Rightarrow> rat \<Rightarrow> did \<Rightarrow> did \<Rightarrow> string option \<Rightarrow> string \<Rightarrow> json
    \<Rightarrow> string option \<Rightarrow> string option \<Rightarrow> e2e_error + message_envelope" where
  "make_application_envelope c j signKey newId now f t ty protocol payload replyTo threadId =
     and_then (createEnvelope newId now f t (or_else ty ''message'') protocol payload replyTo threadId None) (\<lambda>e.
       signEnvelope j e (\<lambda>data. identity_sign c data signKey))"

definition prepareEncryptedReceive :: "crypto \<Rightarrow> json_text \<Rightarrow> e2e_config \<Rightarrow> did \<Rightarrow> message_envelope \<Rightarrow> msec \<Rightarrow> e2e_error + decrypted_envelope" where
  "prepareEncryptedReceive c j cfg receiver t now = decryptApplicationEnvelope c j cfg receiver t now"

end
