(* ===== verification/E2E_Agents.thy ===== *)
theory E2E_Agents
  imports E2E_Examples E2E_Envelope "HOL-Library.Countable"
begin

text \<open>
  Two agents on the concrete platform of \<open>E2E_Examples\<close>, for the properties of the envelopes. A JSON or CBOR
  value is written as its number in an enumeration of all values, in unary; the private key of an agent is its public key.
\<close>

instance json :: countable by countable_datatype
instance cbor :: countable by countable_datatype

definition toy_platform :: crypto where
  "toy_platform = toy_crypto\<lparr>encodeCBOR := \<lambda>v. replicate (to_nat v) 0, decodeCBOR := \<lambda>bs. Some (from_nat (length bs))\<rparr>"

definition toy_json :: json_text where
  "toy_json = \<lparr>json_encode = \<lambda>v. replicate (to_nat v) 0, json_decode = \<lambda>bs. Some (from_nat (length bs))\<rparr>"

definition toy_der :: "nat \<Rightarrow> bytes \<times> bytes" where
  "toy_der n = (X25519_PKCS8_PREFIX @ replicate 32 (of_nat n), X25519_SPKI_PREFIX @ replicate 32 (of_nat n))"

definition toy_device_draws :: "nat \<Rightarrow> device_draws" where
  "toy_device_draws n = \<lparr>dd_identity = toy_der n, dd_signed = toy_der (n + 1), dd_oneTime = \<lambda>i. toy_der (n + 2 + i), dd_id = [of_nat n]\<rparr>"

definition toy_did :: "nat \<Rightarrow> did" where
  "toy_did n = ''did:agent:z'' @ bytesToHex [of_nat n]"

text \<open>The device that agent \<open>n\<close> creates, with \<open>k\<close> one-time keys.\<close>

definition toy_device :: "nat \<Rightarrow> nat \<Rightarrow> local_device" where
  "toy_device n k = \<lparr>ld_deviceId = ''dev'', ld_createdAt = 1, ld_identityKey = hex_pair (toy_key n),
     ld_signedPreKey = signed_key_of 1 1 (toy_key (n + 1)) (of_nat n # buildSignedPreKeyPayload toy_platform ''dev'' 1 (kp_public (toy_key (n + 1)))),
     ld_oneTimePreKeys = map (\<lambda>i. one_time_key_of 1 i (toy_key (n + 2 + i))) [0..<k], ld_lastResupplyAt = 1, ld_sessions = []\<rparr>"

definition toy_config :: "nat \<Rightarrow> nat \<Rightarrow> e2e_config" where
  "toy_config n k = \<lparr>ec_currentDeviceId = ''dev'', ec_devices = [(''dev'', toy_device n k)]\<rparr>"

definition toy_envelope :: "nat \<Rightarrow> nat \<Rightarrow> unsigned_envelope" where
  "toy_envelope a b = \<lparr>me_id = ''m1'', me_from = toy_did a, me_to = toy_did b, me_type = Message, me_protocol = ''/chat/1.0'',
     me_payload = JStr ''hello'', me_timestamp = 5, me_replyTo = None, me_threadId = None, me_groupId = None\<rparr>"

lemma toy_signs [simp]: "noble_sign toy_platform m k = Some (k @ m)" "noble_verify toy_platform sig m k = Some (sig = k @ m)"
  "base58btc_decode toy_platform (CHR ''z'' # bytesToHex k) = Some k"
  by (simp_all add: toy_platform_def toy_crypto_def)

lemma toy_generate [simp]: "generateX25519KeyPair (toy_der n) = Inr (toy_key n)"
  by (simp add: generateX25519KeyPair_def toy_der_def unwrapPkcs8_def unwrapSpki_def toy_key_def)

lemma toy_one_time: "sequence_results (map (\<lambda>i. generateX25519KeyPair (toy_der (f i))) xs) = Inr (map (\<lambda>i. toy_key (f i)) xs)"
  by (induction xs) simp_all

lemma zip_self_map: "zip xs (map f xs) = map (\<lambda>x. (x, f x)) xs"
  by (induction xs) simp_all

lemma toy_created:
  "createInitialLocalE2EConfig toy_platform (toy_device_draws n) [of_nat n] \<lparr>do_deviceId = Some ''dev'', do_signedPreKeyId = None, do_oneTimePreKeyCount = Some k\<rparr> 1
     = Inr (toy_config n k)"
  using toy_one_time [of "\<lambda>i. Suc (Suc (n + i))" "[0..<k]"]
  by (simp add: createInitialLocalE2EConfig_def createLocalDeviceState_def toy_device_draws_def signSignedPreKeyRecord_def identity_sign_def
      buildOneTimePreKeys_def zip_self_map comp_def toy_config_def toy_device_def or_else_def Let_def)

end
