(* ===== verification/E2E_Envelope_Props.thy ===== *)
theory E2E_Envelope_Props
  imports E2E_Agents E2E_Ratchet_Props Relay_Prekeys_Props
begin

text \<open>
  What the encrypted application envelopes guarantee: the first message reaches the peer and leaves two
  sessions that the ratchet properties are about, an accepted envelope is signed by the agent it names, a one-time
  key is used once; and what they do not: a first message without one-time key can be played again, and
  a stale session is used on.
\<close>

section \<open>Key pairs\<close>

definition kp_of :: "'x key_pair_scheme \<Rightarrow> x25519_pair" where
  "kp_of k = \<lparr>kp_public = hexToBytes (lk_publicKey k), kp_private = hexToBytes (lk_privateKey k)\<rparr>"

lemma kp_of_simps [simp]: "kp_public (kp_of k) = hexToBytes (lk_publicKey k)" "kp_private (kp_of k) = hexToBytes (lk_privateKey k)"
  "kp_of (hex_pair p) = p"
  by (simp_all add: kp_of_def hex_pair_def)

lemma decrypt_encrypt_prekey:
  assumes "\<And>k n ad pt. noble_decrypt c k n ad (noble_encrypt c k n ad pt) = Some pt" "length key = 32" "length (pm_nonce h) = 24"
  shows "\<exists>m. encryptPreKeyMessage c h key pt = Inr m \<and> prekey_header.truncate m = h \<and> decryptPreKeyMessage c m key = Inr pt"
  using assms
  by (cases h) (simp add: encryptPreKeyMessage_def encryptXChaCha20Poly1305_def validateRawKeyLength_def validateNonceLength_def
      decryptPreKeyMessage_def decryptXChaCha20Poly1305_def prekey_header.extend_def prekey_message.fields_def
      prekey_header.truncate_def buildPreKeyMessageAssociatedData_def prekey_fields_def)

section \<open>The handshake\<close>

definition handshake_keys :: "crypto \<Rightarrow> local_device \<Rightarrow> x25519_pair \<Rightarrow> local_device \<Rightarrow> one_time_key option \<Rightarrow> bool" where
  "handshake_keys c di eph d otk \<longleftrightarrow> good_pair (kp_of (ld_identityKey di)) \<and> good_pair eph \<and> good_pair (kp_of (ld_identityKey d))
     \<and> good_pair (kp_of (ld_signedPreKey d)) \<and> (\<forall>k \<in> set_option otk. good_pair (kp_of k))
     \<and> agrees c (kp_of (ld_identityKey di)) (kp_of (ld_signedPreKey d)) \<and> agrees c eph (kp_of (ld_identityKey d))
     \<and> agrees c eph (kp_of (ld_signedPreKey d)) \<and> (\<forall>k \<in> set_option otk. agrees c eph (kp_of k))"

text \<open>The claimed bundle is one of this device, with this one-time key.\<close>

definition bundle_of_device :: "local_device \<Rightarrow> one_time_key option \<Rightarrow> claimed_bundle \<Rightarrow> bool" where
  "bundle_of_device d otk b \<longleftrightarrow> deviceId b = ld_deviceId d \<and> identityKeyPublic b = lk_publicKey (ld_identityKey d)
     \<and> signedPreKeyPublic b = lk_publicKey (ld_signedPreKey d) \<and> signedPreKeyId b = sp_signedPreKeyId (ld_signedPreKey d)
     \<and> signedPreKeySignature b = sp_signature (ld_signedPreKey d) \<and> lastResupplyAt b = ld_lastResupplyAt d
     \<and> oneTimePreKey b = map_option (\<lambda>k. \<lparr>keyId = ok_keyId k, publicKey = lk_publicKey k\<rparr>) otk
     \<and> (\<forall>k \<in> set_option otk. find (\<lambda>x. ok_keyId x = ok_keyId k) (ld_oneTimePreKeys d) = Some k \<and> ok_claimedAt k = None)"

lemma load_store:
  assumes "storeLocalSession cfg device s = Inr cfg'"
  shows "loadLocalSession cfg' device (ls_peerDid s) (ls_peerDeviceId s) = Some s" "ec_currentDeviceId cfg' = ec_currentDeviceId cfg"
  using assms by (auto simp: storeLocalSession_def getDeviceState_def and_then_Inr loadLocalSession_def)

lemma store_ex: "jm_get (ec_devices cfg) device = Some d \<Longrightarrow> \<exists>cfg'. storeLocalSession cfg device s = Inr cfg'"
  by (simp add: storeLocalSession_def getDeviceState_def)

definition matching_sessions :: "crypto \<Rightarrow> x25519_pair \<Rightarrow> x25519_pair \<Rightarrow> session \<Rightarrow> session \<Rightarrow> bool" where
  "matching_sessions c eph spk s s' \<longleftrightarrow> (\<exists>ii ir. sessions_match ii ir \<and> ri_currentRatchetKey ii = eph \<and> ri_currentRatchetKey ir = spk
     \<and> createInitiatorRatchetSession c ii = Inr s \<and> createResponderRatchetSession c ir = Inr s')"

lemma create_session_ex:
  assumes "good_pair (ri_currentRatchetKey i)" "good_pair k" "agrees c (ri_currentRatchetKey i) k" "ri_remoteRatchetPublicKey i = kp_public k"
  shows "\<exists>s. createInitiatorRatchetSession c i = Inr s \<and> ls_peerDid s = ri_peerDid i \<and> ls_peerDeviceId s = ri_peerDeviceId i"
    "\<exists>s. createResponderRatchetSession c i = Inr s \<and> ls_peerDid s = ri_peerDid i \<and> ls_peerDeviceId s = ri_peerDeviceId i"
  using dh_good [OF assms(1-3)] assms(4)
  by (simp_all add: createInitiatorRatchetSession_def createResponderRatchetSession_def new_session_def split_def Let_def)

lemma initiator_ok:
  assumes c: "sound_crypto c" and dr: "draws_ok dr" and keys: "handshake_keys c di (drawn_by dr) d otk" and b: "bundle_of_device d otk (ii_claimedBundle i)"
    and i: "ii_ephemeralKeyPair i = None" "ii_nonce i = None" "jm_get (ec_devices (ii_config i)) (ec_currentDeviceId (ii_config i)) = Some di"
      "ld_deviceId di = ec_currentDeviceId (ii_config i)" "assertBundleMatchesDirectory (ii_recipientDevice i) (ii_claimedBundle i) = Inr ()"
  shows "\<exists>m s cfg sh ii. buildInitiatorPreKeyMessage c dr sid i = Inr (m, s, cfg, sh) \<and> length sh = 32 \<and> decryptPreKeyMessage c m sh = Inr (ii_plaintext i)
    \<and> createInitiatorRatchetSession c ii = Inr s \<and> ri_rootKey ii = sh \<and> ri_currentRatchetKey ii = drawn_by dr
    \<and> ri_remoteRatchetPublicKey ii = hexToBytes (lk_publicKey (ld_signedPreKey d))
    \<and> loadLocalSession cfg (ec_currentDeviceId (ii_config i)) (ii_receiverDid i) (ld_deviceId d) = Some s
    \<and> deriveX3dhResponderSharedSecret c \<lparr>xr_recipientIdentityPrivate = hexToBytes (lk_privateKey (ld_identityKey d)),
       xr_recipientSignedPreKeyPrivate = hexToBytes (lk_privateKey (ld_signedPreKey d)), xr_initiatorIdentityPublic = pm_initiatorIdentityKey m,
       xr_initiatorEphemeralPublic = pm_initiatorEphemeralKey m, xr_recipientOneTimePreKeyPrivate = map_option (\<lambda>k. hexToBytes (lk_privateKey k)) otk\<rparr> = Inr sh
    \<and> pm_initiatorEphemeralKey m = kp_public (drawn_by dr) \<and> pm_receiverDid m = ii_receiverDid i \<and> pm_receiverDeviceId m = ld_deviceId d
    \<and> pm_senderDid m = ii_senderDid i \<and> pm_senderDeviceId m = ld_deviceId di \<and> pm_messageId m = or_else (ii_messageId i) (generateMessageId dr)
    \<and> pm_version m = E2E_PROTOCOL_VERSION
    \<and> pm_recipientSignedPreKeyId m = sp_signedPreKeyId (ld_signedPreKey d) \<and> pm_recipientOneTimePreKeyId m = map_option ok_keyId otk"
proof -
  let ?b = "ii_claimedBundle i" and ?eph = "drawn_by dr"
  obtain sh where sh: "length sh = 32"
    "deriveX3dhInitiatorSharedSecret c \<lparr>xi_identityPrivate = hexToBytes (lk_privateKey (ld_identityKey di)), xi_ephemeralPrivate = kp_private ?eph,
        xi_recipientIdentityPublic = hexToBytes (lk_publicKey (ld_identityKey d)), xi_recipientSignedPreKeyPublic = hexToBytes (lk_publicKey (ld_signedPreKey d)),
        xi_recipientOneTimePreKeyPublic = map_option (\<lambda>k. hexToBytes (lk_publicKey k)) otk\<rparr> = Inr sh"
    "deriveX3dhResponderSharedSecret c \<lparr>xr_recipientIdentityPrivate = hexToBytes (lk_privateKey (ld_identityKey d)),
       xr_recipientSignedPreKeyPrivate = hexToBytes (lk_privateKey (ld_signedPreKey d)),
       xr_initiatorIdentityPublic = hexToBytes (lk_publicKey (ld_identityKey di)), xr_initiatorEphemeralPublic = kp_public ?eph,
       xr_recipientOneTimePreKeyPrivate = map_option (\<lambda>k. hexToBytes (lk_privateKey k)) otk\<rparr> = Inr sh"
    using x3dh_agree [OF c, of "kp_of (ld_identityKey di)" ?eph "kp_of (ld_identityKey d)" "kp_of (ld_signedPreKey d)" "map_option kp_of otk"] keys
    by (auto simp: handshake_keys_def option.map_comp comp_def)
  let ?sid = "or_else (ii_sessionId i) (generateSessionId sid)"
  let ?h = "\<lparr>pm_version = E2E_PROTOCOL_VERSION, pm_senderDid = ii_senderDid i, pm_receiverDid = ii_receiverDid i,
      pm_senderDeviceId = ld_deviceId di, pm_receiverDeviceId = ld_deviceId d, pm_sessionId = ?sid,
      pm_messageId = or_else (ii_messageId i) (generateMessageId dr),
      pm_initiatorIdentityKey = hexToBytes (lk_publicKey (ld_identityKey di)), pm_initiatorEphemeralKey = kp_public ?eph,
      pm_recipientSignedPreKeyId = sp_signedPreKeyId (ld_signedPreKey d), pm_recipientOneTimePreKeyId = map_option ok_keyId otk,
      pm_nonce = dr_nonce dr\<rparr>"
  obtain m where m: "encryptPreKeyMessage c ?h sh (ii_plaintext i) = Inr m" "prekey_header.truncate m = ?h" "decryptPreKeyMessage c m sh = Inr (ii_plaintext i)"
    using decrypt_encrypt_prekey [of c sh ?h "ii_plaintext i"] c sh(1) dr by (auto simp: sound_crypto_def draws_ok_def)
  let ?ii = "\<lparr>ri_sessionId = ?sid, ri_peerDid = ii_receiverDid i, ri_peerDeviceId = ld_deviceId d, ri_selfDeviceId = ld_deviceId di,
      ri_role = Initiator, ri_rootKey = sh, ri_currentRatchetKey = ?eph, ri_remoteRatchetPublicKey = hexToBytes (lk_publicKey (ld_signedPreKey d)),
      ri_bootstrap = \<lparr>bs_selfIdentityKey = lk_publicKey (ld_identityKey di), bs_peerIdentityKey = lk_publicKey (ld_identityKey d),
        bs_initiatorEphemeralKey = bytesToHex (kp_public ?eph), bs_recipientSignedPreKeyId = sp_signedPreKeyId (ld_signedPreKey d),
        bs_recipientSignedPreKeyPublic = lk_publicKey (ld_signedPreKey d), bs_recipientOneTimePreKeyId = map_option ok_keyId otk\<rparr>,
      ri_createdAt = or_else (ii_now i) (dr_now dr)\<rparr>"
  obtain s where s: "createInitiatorRatchetSession c ?ii = Inr s" "ls_peerDid s = ii_receiverDid i" "ls_peerDeviceId s = ld_deviceId d"
    using create_session_ex(1) [of ?ii "kp_of (ld_signedPreKey d)" c] keys by (auto simp: handshake_keys_def)
  obtain cfg where cfg: "storeLocalSession (ii_config i) (ld_deviceId di) s = Inr cfg" using store_ex i(3,4) by metis
  have "buildInitiatorPreKeyMessage c dr sid i = Inr (m, s, cfg, sh)"
    using i b sh(2) m(1) s(1) cfg drawn_pair [OF dr]
    by (simp add: buildInitiatorPreKeyMessage_def Let_def getCurrentDeviceState_def bundle_of_device_def or_else_def [of None] option.map_comp comp_def)
  moreover have "loadLocalSession cfg (ec_currentDeviceId (ii_config i)) (ii_receiverDid i) (ld_deviceId d) = Some s"
    using load_store(1) [OF cfg] s(2,3) i(4) by simp
  moreover have "pm_initiatorIdentityKey m = hexToBytes (lk_publicKey (ld_identityKey di))" "pm_initiatorEphemeralKey m = kp_public ?eph"
    "pm_receiverDid m = ii_receiverDid i" "pm_receiverDeviceId m = ld_deviceId d" "pm_senderDid m = ii_senderDid i" "pm_senderDeviceId m = ld_deviceId di"
    "pm_messageId m = or_else (ii_messageId i) (generateMessageId dr)" "pm_version m = E2E_PROTOCOL_VERSION"
    "pm_recipientSignedPreKeyId m = sp_signedPreKeyId (ld_signedPreKey d)" "pm_recipientOneTimePreKeyId m = map_option ok_keyId otk"
    using m(2) by (simp_all add: prekey_header.truncate_def)
  ultimately show ?thesis using sh(1,3) m(3) s(1) by (intro exI [of _ m] exI [of _ s] exI [of _ cfg] exI [of _ sh] exI [of _ ?ii]) simp
qed

lemma responder_ok:
  assumes d: "jm_get (ec_devices cfg) (ld_deviceId d) = Some d"
    and m: "pm_receiverDid m = receiver" "pm_receiverDeviceId m = ld_deviceId d" "pm_recipientSignedPreKeyId m = sp_signedPreKeyId (ld_signedPreKey d)"
      "pm_recipientOneTimePreKeyId m = map_option ok_keyId otk" "decryptPreKeyMessage c m sh = Inr pt" "pm_initiatorEphemeralKey m = kp_public eph"
      "deriveX3dhResponderSharedSecret c \<lparr>xr_recipientIdentityPrivate = hexToBytes (lk_privateKey (ld_identityKey d)),
         xr_recipientSignedPreKeyPrivate = hexToBytes (lk_privateKey (ld_signedPreKey d)), xr_initiatorIdentityPublic = pm_initiatorIdentityKey m,
         xr_initiatorEphemeralPublic = pm_initiatorEphemeralKey m, xr_recipientOneTimePreKeyPrivate = map_option (\<lambda>k. hexToBytes (lk_privateKey k)) otk\<rparr> = Inr sh"
    and keys: "handshake_keys c di eph d otk" "\<forall>k \<in> set_option otk. find (\<lambda>x. ok_keyId x = ok_keyId k) (ld_oneTimePreKeys d) = Some k \<and> ok_claimedAt k = None"
  shows "\<exists>s cfg' ir. consumeResponderPreKeyMessage c cfg receiver m now = Inr (pt, s, cfg', sh) \<and> createResponderRatchetSession c ir = Inr s
    \<and> ri_rootKey ir = sh \<and> ri_currentRatchetKey ir = kp_of (ld_signedPreKey d) \<and> ri_remoteRatchetPublicKey ir = kp_public eph
    \<and> loadLocalSession cfg' (ld_deviceId d) (pm_senderDid m) (pm_senderDeviceId m) = Some s"
proof -
  let ?ir = "responder_input d m sh now"
  have ag: "agrees c (kp_of (ld_signedPreKey d)) eph" using keys(1) unfolding handshake_keys_def agrees_def Let_def by metis
  obtain s where s: "createResponderRatchetSession c ?ir = Inr s" "ls_peerDid s = pm_senderDid m" "ls_peerDeviceId s = pm_senderDeviceId m"
    using create_session_ex(2) [of ?ir eph c] keys ag m(6) by (auto simp: handshake_keys_def kp_of_def responder_input_def)
  let ?cfg = "cfg\<lparr>ec_devices := jm_set (ld_deviceId d) (claim_key otk now d) (ec_devices cfg)\<rparr>"
  obtain cfg' where cfg: "storeLocalSession ?cfg (ld_deviceId d) s = Inr cfg'" using store_ex [of ?cfg "ld_deviceId d"] by fastforce
  have "named_one_time_key d m = Inr otk" using m(4) keys(2) by (cases otk) (simp_all add: named_one_time_key_def)
  then have "consumeResponderPreKeyMessage c cfg receiver m now = Inr (pt, s, cfg', sh)"
    using m(1-3,5,7) d s(1) cfg by (simp add: consumeResponderPreKeyMessage_def Let_def getDeviceState_def)
  with s load_store(1) [OF cfg] m(6) show ?thesis
    by (intro exI [of _ s] exI [of _ cfg'] exI [of _ ?ir]) (simp add: kp_of_def responder_input_def)
qed

section \<open>The bundle comes from the relay\<close>

text \<open>The relay holds a bundle of the device, with some of the keys it has not given out.\<close>

definition holds_bundle :: "('d, stored_bundle) level_ops \<Rightarrow> did \<Rightarrow> local_device \<Rightarrow> 'd \<Rightarrow> bool" where
  "holds_bundle ops did d db \<longleftrightarrow> (\<exists>st. lv_get ops db (bundleKey did (ld_deviceId d)) = Some st \<and> deviceId st = ld_deviceId d
     \<and> identityKeyPublic st = lk_publicKey (ld_identityKey d) \<and> signedPreKeyPublic st = lk_publicKey (ld_signedPreKey d)
     \<and> signedPreKeyId st = sp_signedPreKeyId (ld_signedPreKey d) \<and> signedPreKeySignature st = sp_signature (ld_signedPreKey d)
     \<and> lastResupplyAt st = ld_lastResupplyAt d \<and> set (oneTimePreKeys st) \<subseteq> set (buildPublishedOneTimePreKeys d))"

text \<open>Devices are stored under their own identifier, with one key for each key identifier.\<close>

definition config_keyed :: "e2e_config \<Rightarrow> bool" where
  "config_keyed cfg \<longleftrightarrow> jm_ok (ec_devices cfg) \<and> (\<forall>(k, d) \<in> set (ec_devices cfg). ld_deviceId d = k \<and> distinct (map ok_keyId (ld_oneTimePreKeys d))
     \<and> (\<forall>x \<in> set (ld_oneTimePreKeys d). ok_claimedAt x \<noteq> Some 0))"

lemma find_id: "distinct (map f xs) \<Longrightarrow> x \<in> set xs \<Longrightarrow> find (\<lambda>y. f y = f x) xs = Some x"
  by (induction xs) auto

lemma publish_holds:
  assumes "level_store ops" "config_keyed cfg" "jm_get (ec_devices cfg) (ld_deviceId d) = Some d"
  shows "holds_bundle ops did d (publishBundles ops now did realm (buildPublishedPreKeyBundles lc cfg) db)"
    "\<exists>b. fst (claimBundle ops now' did (ld_deviceId d) realm (publishBundles ops now did realm (buildPublishedPreKeyBundles lc cfg) db)) = Some b"
proof -
  have p: "prekey_store ops" using assms(1) by (simp add: prekey_store_def)
  have dev: "deviceId (buildPublishedPreKeyBundle x) = ld_deviceId x" for x
    by (simp add: buildPublishedPreKeyBundle_def buildPublishedDeviceDirectoryEntry_def published_device.extend_def published_bundle.fields_def)
  have d: "d \<in> set (jm_vals (ec_devices cfg))" by (rule jm_get_in [OF assms(3)])
  then have "buildPublishedPreKeyBundle d \<in> set (buildPublishedPreKeyBundles lc cfg)"
    by (simp add: buildPublishedPreKeyBundles_def devices_in_order_def)
  then obtain b where b: "b \<in> set (buildPublishedPreKeyBundles lc cfg)" "deviceId b = ld_deviceId d"
    "lv_get ops (publishBundles ops now did realm (buildPublishedPreKeyBundles lc cfg) db) (bundleKey did (ld_deviceId d))
      = Some (stored_bundle_of did realm now (normalizeBundle b))"
    using prekey_store.publish_own [OF p, of "buildPublishedPreKeyBundle d"] dev by metis
  have "b \<in> buildPublishedPreKeyBundle ` set (jm_vals (ec_devices cfg))"
    using b(1) by (simp only: buildPublishedPreKeyBundles_def devices_in_order_def set_map set_js_sort)
  then obtain x where x: "x \<in> set (jm_vals (ec_devices cfg))" "b = buildPublishedPreKeyBundle x" by blast
  then have same: "ld_deviceId x = ld_deviceId d" using b(2) dev [of x] by simp
  obtain k where k: "(k, x) \<in> set (ec_devices cfg)" using x(1) by auto
  then have "ld_deviceId x = k" using assms(2) unfolding config_keyed_def by blast
  moreover have "jm_get (ec_devices cfg) k = Some x" using k assms(2) jm_in_set_iff unfolding config_keyed_def by metis
  ultimately have "x = d" using same assms(3) by simp
  moreover have "set (normalizeOneTimePreKeys ks) \<subseteq> set ks" for ks using prekey_keys_subset by blast
  ultimately show "holds_bundle ops did d (publishBundles ops now did realm (buildPublishedPreKeyBundles lc cfg) db)" using b(3) x(2)
    by (auto simp: holds_bundle_def stored_bundle_of_def normalizeBundle_def Let_def buildPublishedPreKeyBundle_def
        buildPublishedDeviceDirectoryEntry_def published_device.extend_def published_bundle.fields_def)
  show "\<exists>b. fst (claimBundle ops now' did (ld_deviceId d) realm (publishBundles ops now did realm (buildPublishedPreKeyBundles lc cfg) db)) = Some b"
    using b(3) by (simp add: claimBundle_def stored_bundle_of_def Let_def)
qed

lemma in_tl: "x \<in> set (tl xs) \<Longrightarrow> x \<in> set xs"
  by (cases xs) auto

lemma later_holds:
  assumes "level_store ops" "plain_did did"
  shows "holds_bundle ops did d db \<Longrightarrow> list_all plain_prekey_op os \<Longrightarrow> list_all (\<lambda>op. \<not> publishes did op) os \<Longrightarrow>
    holds_bundle ops did d (snd (prekey_run ops os db))"
proof (induction os arbitrary: db)
  case (Cons op os)
  have p: "prekey_store ops" using assms(1) by (simp add: prekey_store_def)
  have "holds_bundle ops did d (snd (prekey_step ops op db))"
  proof (cases op)
    case (PkPublish now did' realm bs)
    have "plain_did did'" "did' \<noteq> did" using Cons.prems(2,3) by (auto simp: PkPublish)
    then have "\<not> prefix (bundleKey did' '''') (bundleKey did (ld_deviceId d))" "bundleKey did' v \<noteq> bundleKey did (ld_deviceId d)" for v
      using assms(2) bundleKey_prefix bundleKey_plain by blast+
    then have "lv_get ops (publishBundles ops now did' realm bs db) (bundleKey did (ld_deviceId d)) = lv_get ops db (bundleKey did (ld_deviceId d))"
      using prekey_store.publish_get [OF p, of now did' realm bs db "bundleKey did (ld_deviceId d)"] by metis
    with Cons.prems(1) show ?thesis by (simp add: PkPublish holds_bundle_def)
  next
    case (PkClaim now did' device realm)
    with Cons.prems(1) show ?thesis
      by (auto simp: holds_bundle_def claimBundle_def Let_def level_store.get_put [OF assms(1)]
          split: option.splits dest!: in_tl)
  qed
  with Cons show ?case by (simp add: split_def Let_def)
qed simp

lemma claim_of_device:
  assumes "holds_bundle ops did d db" "fst (claimBundle ops now did (ld_deviceId d) realm db) = Some b"
    "distinct (map ok_keyId (ld_oneTimePreKeys d))" "\<forall>x \<in> set (ld_oneTimePreKeys d). ok_claimedAt x \<noteq> Some 0"
  shows "\<exists>otk. bundle_of_device d otk b \<and> (\<forall>k \<in> set_option otk. k \<in> set (ld_oneTimePreKeys d))"
proof -
  obtain st where st: "lv_get ops db (bundleKey did (ld_deviceId d)) = Some st" "deviceId st = ld_deviceId d"
     "identityKeyPublic st = lk_publicKey (ld_identityKey d)" "signedPreKeyPublic st = lk_publicKey (ld_signedPreKey d)"
     "signedPreKeyId st = sp_signedPreKeyId (ld_signedPreKey d)" "signedPreKeySignature st = sp_signature (ld_signedPreKey d)"
     "lastResupplyAt st = ld_lastResupplyAt d" "set (oneTimePreKeys st) \<subseteq> set (buildPublishedOneTimePreKeys d)"
    using assms(1) unfolding holds_bundle_def by blast
  show ?thesis
  proof (cases "oneTimePreKeys st")
    case Nil
    with assms(2) st show ?thesis
      by (intro exI [of _ None]) (auto simp: claimBundle_def Let_def bundle_of_device_def split: if_splits)
  next
    case (Cons a ks)
    then obtain k where k: "k \<in> set (ld_oneTimePreKeys d)" "unclaimed k" "a = \<lparr>keyId = ok_keyId k, publicKey = lk_publicKey k\<rparr>"
      using st(8) by (auto simp: buildPublishedOneTimePreKeys_def)
    then have "ok_claimedAt k = None" using assms(4) by (auto simp: unclaimed_def)
    with assms(2,3) st Cons k find_id [OF assms(3), of k] show ?thesis
      by (intro exI [of _ "Some k"]) (auto simp: claimBundle_def Let_def bundle_of_device_def split: if_splits)
  qed
qed

section \<open>Envelopes\<close>

definition sound_platform :: "crypto \<Rightarrow> json_text \<Rightarrow> bool" where
  "sound_platform c j \<longleftrightarrow> sound_crypto c \<and> (\<forall>v. decodeCBOR c (encodeCBOR c v) = Some v) \<and> (\<forall>v. json_decode j (json_encode j v) = Some v)"

text \<open>The private key of an agent makes signatures that verify under the public key in its DID.\<close>

definition identity_key :: "crypto \<Rightarrow> did \<Rightarrow> bytes \<Rightarrow> bool" where
  "identity_key c did sk \<longleftrightarrow> (\<exists>pk. extractPublicKey c did = Inr pk
     \<and> (\<forall>msg. \<exists>sig. noble_sign c msg sk = Some sig \<and> noble_verify c sig msg pk = Some True))"

definition sign_by :: "crypto \<Rightarrow> bytes \<Rightarrow> bytes \<Rightarrow> e2e_error + bytes" where
  "sign_by c sk = (\<lambda>data. identity_sign c data sk)"

lemma sign_by_ok: "identity_key c did sk \<Longrightarrow> \<exists>sig. sign_by c sk data = Inr sig \<and> verify_with_did c did sig data = Inr True"
  by (auto simp: identity_key_def sign_by_def identity_sign_def verify_with_did_def identity_verify_def)

lemma signed_fields:
  assumes "signEnvelope j ue f = Inr e"
  shows "me_id e = me_id ue" "me_from e = me_from ue" "me_to e = me_to ue" "me_protocol e = me_protocol ue" "me_payload e = me_payload ue"
    "valid_envelope e \<longleftrightarrow> valid_envelope ue"
  using assms by (cases ue; auto simp: signEnvelope_def and_then_Inr unsigned_envelope.defs message_envelope.defs valid_envelope_def)+

lemma signed_verifies:
  assumes "signEnvelope j ue (sign_by c sk) = Inr e" "valid_envelope ue" "identity_key c (me_from ue) sk"
  shows "assertEnvelopeSignature c j e label = Inr ()"
proof -
  have "verifyEnvelope j e (verify_with_did c (me_from e)) = Inr True"
    using sign_by_ok [OF assms(3)] by (intro verify_signed [OF assms(1,2)]) (metis assms(1) signed_fields(2) sum.inject(2))
  then show ?thesis by (simp add: assertEnvelopeSignature_def)
qed

lemma signed_ex:
  assumes "identity_key c did sk"
  shows "\<exists>e. signEnvelope j ue (sign_by c sk) = Inr e"
proof -
  obtain sig where "sign_by c sk (encodeCanonicalJson j (JObj (envelope_fields ue))) = Inr sig" using sign_by_ok [OF assms] by blast
  then show ?thesis by (simp add: signEnvelope_def)
qed

text \<open>The signed pre-key of the device is signed by its agent.\<close>

definition owner_signed :: "crypto \<Rightarrow> bytes \<Rightarrow> local_device \<Rightarrow> bool" where
  "owner_signed c sk d \<longleftrightarrow> (\<exists>r. signSignedPreKeyRecord c (ld_deviceId d) (sp_signedPreKeyId (ld_signedPreKey d))
       (hexToBytes (lk_publicKey (ld_signedPreKey d))) sk = Inr r \<and> sp_signature (ld_signedPreKey d) = bytesToHex (sr_signature r))"

lemma bundle_verifies:
  assumes "owner_signed c sk d" "identity_key c did sk" "bundle_of_device d otk b"
  shows "assertRecipientSignedPreKeyBundle c did b = Inr ()"
  using assms
  by (auto simp: owner_signed_def identity_key_def bundle_of_device_def assertRecipientSignedPreKeyBundle_def verifySignedPreKeyRecord_def
      signSignedPreKeyRecord_def identity_sign_def identity_verify_def and_then_Inr) (metis option.inject)

lemma directory_matches: "bundle_of_device d otk b \<Longrightarrow> assertBundleMatchesDirectory (buildPublishedDeviceDirectoryEntry d) b = Inr ()"
  by (simp add: bundle_of_device_def assertBundleMatchesDirectory_def buildPublishedDeviceDirectoryEntry_def)

section \<open>The first message\<close>

text \<open>Sealing and opening, once the message itself decrypts.\<close>

lemma transport_opens:
  assumes plat: "sound_platform c j" and e: "signEnvelope j ue (sign_by c sk) = Inr e" "valid_envelope ue" "identity_key c (me_from ue) sk"
    and m: "msg_senderDid m = me_from e" "msg_receiverDid m = me_to e" "msg_messageId m = me_id e"
      "decodeEncryptedApplicationEnvelopePayload c p = Inr m" "p = buildEncryptedApplicationEnvelopePayload m w"
    and t: "signEncryptedTransportEnvelope j e p (sign_by c sk) = Inr t"
    and dec: "decrypt_message c cfg receiver m now = Inr (serializeSignedApplicationEnvelope j e, cfg', skipped)"
  shows "decryptApplicationEnvelope c j cfg receiver t now = Inr \<lparr>de_applicationEnvelope = e, de_config = cfg', de_transport = msg_type m,
    de_senderDeviceId = msg_senderDeviceId m, de_receiverDeviceId = msg_receiverDeviceId m, de_sessionId = msg_sessionId m, de_usedSkippedMessageKey = skipped\<rparr>"
proof -
  note f = signed_fields [OF e(1)] and tf = signed_fields [OF t [unfolded signEncryptedTransportEnvelope_def]]
  have "valid_envelope t" using tf(6) f e(2) by (simp add: valid_envelope_def)
  moreover have "valid_envelope \<lparr>me_id = me_id e, me_from = me_from e, me_to = me_to e, me_type = Message, me_protocol = E2E_APPLICATION_ENVELOPE_PROTOCOL,
      me_payload = payload_json p, me_timestamp = me_timestamp e, me_replyTo = None, me_threadId = None, me_groupId = None\<rparr>"
    using f e(2) by (simp add: valid_envelope_def)
  then have "assertEnvelopeSignature c j t l = Inr ()" for l
    using signed_verifies [OF t [unfolded signEncryptedTransportEnvelope_def]] f(2) e(3) by simp
  moreover have "assertEnvelopeSignature c j e l = Inr ()" for l by (rule signed_verifies [OF e])
  moreover have "normalizeEnvelope (envelope_json e) = Some e" using f(6) e(2) by (simp add: normalize_envelope_json)
  moreover have "json_decode j (json_encode j v) = Some v" for v using plat by (simp add: sound_platform_def)
  ultimately show ?thesis
    using tf m dec
    by (simp add: decryptApplicationEnvelope_def assertTransportEnvelopeMatchesMessage_def buildEncryptedApplicationEnvelopePayload_def
        deserializeSignedApplicationEnvelope_def serializeSignedApplicationEnvelope_def assertApplicationEnvelopeMatchesMessage_def)
qed

text \<open>What an accepted envelope carried.\<close>

definition opens_to :: "crypto \<Rightarrow> message_envelope \<Rightarrow> e2e_message \<Rightarrow> bool" where
  "opens_to c t m \<longleftrightarrow> (\<exists>p. assertEncryptedApplicationEnvelopePayload (me_payload t) = Inr p \<and> decodeEncryptedApplicationEnvelopePayload c p = Inr m)"

text \<open>A first message, sealed with a bundle of the recipient's device, from the signed envelope to the two sessions.\<close>

lemma first_exchange:
  assumes plat: "sound_platform c j" and otk: "bundle_of_device d otk b"
    and responder: "jm_get (ec_devices cfgR) (ld_deviceId d) = Some d" "owner_signed c skR d" "identity_key c (me_to ue) skR"
    and initiator: "jm_get (ec_devices cfgI) (ec_currentDeviceId cfgI) = Some di" "ld_deviceId di = ec_currentDeviceId cfgI"
      "loadLocalSession cfgI (ec_currentDeviceId cfgI) (me_to ue) (ld_deviceId d) = None"
    and e: "signEnvelope j ue (sign_by c sk) = Inr e" "valid_envelope ue" "identity_key c (me_from ue) sk"
    and draw: "drs (ld_deviceId d) = (dr, sid)" "draws_ok dr"
    and hk: "handshake_keys c di (drawn_by dr) d otk"
  shows "\<exists>t r s s' m. send_to_device c j drs (\<lambda>_. Some b) sk e (me_to e) cfgI (buildPublishedDeviceDirectoryEntry d) = Inr t \<and> st_transport t = ByPreKey
    \<and> prepareEncryptedReceive c j cfgR (me_to e) (st_outerEnvelope t) now = Inr r \<and> de_applicationEnvelope r = e
    \<and> loadLocalSession (st_configAfterSend t) (ec_currentDeviceId cfgI) (me_to e) (ld_deviceId d) = Some s
    \<and> loadLocalSession (de_config r) (ld_deviceId d) (me_from e) (ld_deviceId di) = Some s'
    \<and> matching_sessions c (drawn_by dr) (kp_of (ld_signedPreKey d)) s s'
    \<and> opens_to c (st_outerEnvelope t) (PreKeyMessage m) \<and> pm_receiverDeviceId m = ld_deviceId d
    \<and> pm_recipientOneTimePreKeyId m = map_option ok_keyId otk"
proof -
  note f = signed_fields [OF e(1)]
  let ?i = "\<lparr>ii_config = cfgI, ii_senderDid = me_from e, ii_receiverDid = me_to e, ii_recipientDevice = buildPublishedDeviceDirectoryEntry d,
      ii_claimedBundle = b, ii_plaintext = serializeSignedApplicationEnvelope j e, ii_sessionId = None, ii_messageId = Some (me_id e),
      ii_nonce = None, ii_ephemeralKeyPair = None, ii_now = None\<rparr>"
  have c: "sound_crypto c" using plat by (simp add: sound_platform_def)
  obtain m s cfg sh ii where i: "buildInitiatorPreKeyMessage c dr sid ?i = Inr (m, s, cfg, sh)"
    "decryptPreKeyMessage c m sh = Inr (serializeSignedApplicationEnvelope j e)" "createInitiatorRatchetSession c ii = Inr s" "ri_rootKey ii = sh"
    "ri_currentRatchetKey ii = drawn_by dr" "ri_remoteRatchetPublicKey ii = hexToBytes (lk_publicKey (ld_signedPreKey d))"
    "loadLocalSession cfg (ec_currentDeviceId cfgI) (me_to e) (ld_deviceId d) = Some s"
    "deriveX3dhResponderSharedSecret c \<lparr>xr_recipientIdentityPrivate = hexToBytes (lk_privateKey (ld_identityKey d)),
       xr_recipientSignedPreKeyPrivate = hexToBytes (lk_privateKey (ld_signedPreKey d)), xr_initiatorIdentityPublic = pm_initiatorIdentityKey m,
       xr_initiatorEphemeralPublic = pm_initiatorEphemeralKey m, xr_recipientOneTimePreKeyPrivate = map_option (\<lambda>k. hexToBytes (lk_privateKey k)) otk\<rparr> = Inr sh"
    "pm_initiatorEphemeralKey m = kp_public (drawn_by dr)" "pm_receiverDid m = me_to e" "pm_receiverDeviceId m = ld_deviceId d"
    "pm_senderDid m = me_from e" "pm_senderDeviceId m = ld_deviceId di" "pm_messageId m = me_id e" "pm_version m = E2E_PROTOCOL_VERSION"
    "pm_recipientSignedPreKeyId m = sp_signedPreKeyId (ld_signedPreKey d)" "pm_recipientOneTimePreKeyId m = map_option ok_keyId otk"
    using initiator_ok [OF c draw(2) hk, of ?i sid] otk initiator(1,2) directory_matches [OF otk] by (auto simp: or_else_def)
  obtain s' cfg' ir where r: "consumeResponderPreKeyMessage c cfgR (me_to e) m now = Inr (serializeSignedApplicationEnvelope j e, s', cfg', sh)"
    "createResponderRatchetSession c ir = Inr s'" "ri_rootKey ir = sh" "ri_currentRatchetKey ir = kp_of (ld_signedPreKey d)"
    "ri_remoteRatchetPublicKey ir = kp_public (drawn_by dr)" "loadLocalSession cfg' (ld_deviceId d) (me_from e) (ld_deviceId di) = Some s'"
    using responder_ok [OF responder(1) i(10,11,16,17,2,9,8) hk, of now] otk i(12,13) by (auto simp: bundle_of_device_def)
  let ?p = "buildEncryptedApplicationEnvelopePayload (PreKeyMessage m) (encodePreKeyMessage c m)"
  have enc: "encryptApplicationEnvelope c j dr sid cfgI e (buildPublishedDeviceDirectoryEntry d) (Some b) = Inr (?p, cfg, ByPreKey)"
    using initiator(3) i(1) f(3) by (simp add: encryptApplicationEnvelope_def buildPublishedDeviceDirectoryEntry_def Let_def)
  obtain outer where outer: "signEncryptedTransportEnvelope j e ?p (sign_by c sk) = Inr outer"
    using signed_ex [OF e(3)] by (metis signEncryptedTransportEnvelope_def)
  have dec: "decodePreKeyMessage c (encodePreKeyMessage c m) = Inr m"
    by (rule decode_encode_prekey [OF _ i(15)]) (use plat in \<open>simp add: sound_platform_def\<close>)
  then have op: "decryptApplicationEnvelope c j cfgR (me_to e) outer now = Inr \<lparr>de_applicationEnvelope = e, de_config = cfg', de_transport = ByPreKey,
    de_senderDeviceId = ld_deviceId di, de_receiverDeviceId = ld_deviceId d, de_sessionId = pm_sessionId m, de_usedSkippedMessageKey = False\<rparr>"
    using transport_opens [OF plat e, of "PreKeyMessage m" ?p "encodePreKeyMessage c m" outer cfgR "me_to e" now cfg' False] i(10-14) outer r(1)
    by (simp add: msg_defs decodeEncryptedApplicationEnvelopePayload_def buildEncryptedApplicationEnvelopePayload_def decrypt_message_def)
  let ?r = "\<lparr>de_applicationEnvelope = e, de_config = cfg', de_transport = ByPreKey, de_senderDeviceId = ld_deviceId di,
      de_receiverDeviceId = ld_deviceId d, de_sessionId = pm_sessionId m, de_usedSkippedMessageKey = False\<rparr>"
  let ?t = "\<lparr>st_outerEnvelope = outer, st_transport = ByPreKey, st_senderDeviceId = ep_senderDeviceId ?p,
      st_recipientDeviceId = ld_deviceId d, st_sessionId = ep_sessionId ?p, st_configAfterSend = cfg\<rparr>"
  have "send_to_device c j drs (\<lambda>_. Some b) sk e (me_to e) cfgI (buildPublishedDeviceDirectoryEntry d) = Inr ?t"
    using initiator(3) f(3) bundle_verifies [OF responder(2,3) otk] enc outer draw(1)
    by (simp add: send_to_device_def buildPublishedDeviceDirectoryEntry_def Let_def sign_by_def)
  moreover have "matching_sessions c (drawn_by dr) (kp_of (ld_signedPreKey d)) s s'"
    unfolding matching_sessions_def using i(3-6) r(2-5) by (intro exI [of _ ii] exI [of _ ir]) (simp add: sessions_match_def)
  moreover have "opens_to c outer (PreKeyMessage m)"
  proof -
    have "me_payload outer = payload_json ?p" using signed_fields(5) [OF outer [unfolded signEncryptedTransportEnvelope_def]] by simp
    moreover have "decodeEncryptedApplicationEnvelopePayload c ?p = Inr (PreKeyMessage m)"
      using dec by (simp add: msg_defs decodeEncryptedApplicationEnvelopePayload_def buildEncryptedApplicationEnvelopePayload_def)
    ultimately show ?thesis by (simp add: opens_to_def)
  qed
  ultimately show ?thesis using op i(7,11,17) r(6)
    by (intro exI [of _ ?t] exI [of _ ?r] exI [of _ m]) (auto simp: prepareEncryptedReceive_def)
qed

section \<open>The two agents\<close>

lemma toy_platform_sound: "sound_platform toy_platform toy_json" "sound_crypto toy_platform"
  using toy_sound by (auto simp: sound_platform_def sound_crypto_def toy_platform_def toy_json_def)

lemma toy_identity: "identity_key toy_platform (toy_did n) [of_nat n]"
  using toy_signs(3) [of "[of_nat n]"] by (simp add: identity_key_def toy_did_def extractPublicKey_def)

lemma toy_signed: "owner_signed toy_platform [of_nat n] (toy_device n k)"
  by (simp add: owner_signed_def toy_device_def signSignedPreKeyRecord_def identity_sign_def signed_key_of_def)

lemma toy_keyed: "config_keyed (toy_config n k)"
  by (auto simp: config_keyed_def toy_config_def toy_device_def one_time_key_of_def comp_def distinct_map inj_on_def)

lemma toy_agree: "agrees toy_platform (toy_key a) (toy_key b)" "good_pair (toy_key a)"
  by (simp_all add: agrees_def good_pair_def toy_platform_def toy_crypto_def toy_key_def add.commute X25519_PKCS8_PREFIX_def X25519_SPKI_PREFIX_def)

lemma toy_pairs [simp]: "kp_of (ld_identityKey (toy_device n k)) = toy_key n" "kp_of (ld_signedPreKey (toy_device n k)) = toy_key (n + 1)"
  "kp_of (one_time_key_of t i (toy_key m)) = toy_key m"
  by (simp_all add: toy_device_def kp_of_def hex_pair_def signed_key_of_def one_time_key_of_def toy_key_def)

lemma toy_drawn: "drawn_by (toy_draws n) = toy_key n" "draws_ok (toy_draws n)"
  by (simp_all add: drawn_by_def toy_draws_def toy_key_def draws_ok_def X25519_PKCS8_PREFIX_def X25519_SPKI_PREFIX_def)

lemma toy_one_time_keys: "x \<in> set (ld_oneTimePreKeys (toy_device n k)) \<Longrightarrow> \<exists>m. kp_of x = toy_key m"
  by (auto simp: toy_device_def)

lemma toy_handshake:
  "set_option otk \<subseteq> set (ld_oneTimePreKeys (toy_device n k)) \<Longrightarrow> handshake_keys toy_platform (toy_device m j) (drawn_by (toy_draws e)) (toy_device n k) otk"
  using toy_one_time_keys [of _ n k] toy_agree by (cases otk) (auto simp: handshake_keys_def toy_drawn dest!: toy_one_time_keys)

lemma toy_valid: "valid_envelope (toy_envelope a b)"
  by (simp add: valid_envelope_def toy_envelope_def toy_did_def)

text \<open>C19: the first message. An agent publishes its devices to a relay, others claim keys and publish as they like, and a peer
  without a session claims a bundle and sends: the signed pre-key verifies, the message is sealed with it, the recipient
  opens it to the very envelope that was signed, and both end with the two matching sessions from which
  the double ratchet goes on.\<close>

theorem first_envelope_delivered:
  assumes plat: "sound_platform c j" and store: "level_store ops" and relay: "db = snd (prekey_run ops
      (PkPublish t0 (me_to ue) realm (buildPublishedPreKeyBundles lc cfgR) # later) db0)" "plain_did (me_to ue)" "list_all plain_prekey_op later"
      "list_all (\<lambda>op. \<not> publishes (me_to ue) op) later" "fst (claimBundle ops t1 (me_to ue) (ld_deviceId d) realm' db) = Some b"
    and responder: "config_keyed cfgR" "jm_get (ec_devices cfgR) (ld_deviceId d) = Some d" "owner_signed c skR d" "identity_key c (me_to ue) skR"
    and initiator: "jm_get (ec_devices cfgI) (ec_currentDeviceId cfgI) = Some di" "ld_deviceId di = ec_currentDeviceId cfgI"
      "loadLocalSession cfgI (ec_currentDeviceId cfgI) (me_to ue) (ld_deviceId d) = None"
    and e: "signEnvelope j ue (sign_by c sk) = Inr e" "valid_envelope ue" "identity_key c (me_from ue) sk"
    and draw: "drs (ld_deviceId d) = (dr, sid)" "draws_ok dr"
    and keys: "\<forall>otk. set_option otk \<subseteq> set (ld_oneTimePreKeys d) \<longrightarrow> handshake_keys c di (drawn_by dr) d otk"
  shows "\<exists>t r s s'. send_to_device c j drs (\<lambda>_. Some b) sk e (me_to e) cfgI (buildPublishedDeviceDirectoryEntry d) = Inr t \<and> st_transport t = ByPreKey
    \<and> prepareEncryptedReceive c j cfgR (me_to e) (st_outerEnvelope t) now = Inr r \<and> de_applicationEnvelope r = e
    \<and> loadLocalSession (st_configAfterSend t) (ec_currentDeviceId cfgI) (me_to e) (ld_deviceId d) = Some s
    \<and> loadLocalSession (de_config r) (ld_deviceId d) (me_from e) (ld_deviceId di) = Some s'
    \<and> matching_sessions c (drawn_by dr) (kp_of (ld_signedPreKey d)) s s'"
proof -
  have "holds_bundle ops (me_to ue) d (publishBundles ops t0 (me_to ue) realm (buildPublishedPreKeyBundles lc cfgR) db0)"
    by (rule publish_holds(1) [OF store responder(1,2)])
  then have "holds_bundle ops (me_to ue) d db"
    using later_holds [OF store relay(2) _ relay(3,4)] relay(1) by (simp add: split_def Let_def)
  moreover have "distinct (map ok_keyId (ld_oneTimePreKeys d))" "\<forall>x \<in> set (ld_oneTimePreKeys d). ok_claimedAt x \<noteq> Some 0"
    using responder(1) map_of_SomeD [OF responder(2)] unfolding config_keyed_def by blast+
  ultimately obtain otk where otk: "bundle_of_device d otk b" "\<forall>k \<in> set_option otk. k \<in> set (ld_oneTimePreKeys d)"
    using claim_of_device relay(5) by metis
  then have "handshake_keys c di (drawn_by dr) d otk" using keys by blast
  from first_exchange [where drs = drs and now = now, OF plat otk(1) responder(2-4) initiator e draw this] show ?thesis by blast
qed

theorem first_envelope_delivered_witness:
  "\<exists>b e t r. fst (claimBundle rbt_level 6 (toy_did 60) ''dev'' ''public''
       (publishBundles rbt_level 2 (toy_did 60) ''public'' (buildPublishedPreKeyBundles (\<lambda>_ _. 0) (toy_config 60 2)) RBT.empty)) = Some b
     \<and> send_to_device toy_platform toy_json (\<lambda>_. (toy_draws 9, [])) (\<lambda>_. Some b) [50] e (me_to e) (toy_config 50 0)
         (buildPublishedDeviceDirectoryEntry (toy_device 60 2)) = Inr t
     \<and> prepareEncryptedReceive toy_platform toy_json (toy_config 60 2) (me_to e) (st_outerEnvelope t) 7 = Inr r
     \<and> de_applicationEnvelope r = e \<and> me_payload e = JStr ''hello''"
proof -
  obtain e where e: "signEnvelope toy_json (toy_envelope 50 60) (sign_by toy_platform [of_nat 50]) = Inr e" using signed_ex [OF toy_identity] by blast
  let ?lc = "\<lambda>_ _. 0"
  let ?db = "publishBundles rbt_level 2 (toy_did 60) ''public'' (buildPublishedPreKeyBundles ?lc (toy_config 60 2)) RBT.empty"
  have f: "me_to (toy_envelope 50 60) = toy_did 60" "me_from (toy_envelope 50 60) = toy_did 50" "ld_deviceId (toy_device n k) = ''dev''"
    "jm_get (ec_devices (toy_config n k)) ''dev'' = Some (toy_device n k)" "ec_currentDeviceId (toy_config n k) = ''dev''" for n k
    by (simp_all add: toy_envelope_def toy_device_def toy_config_def)
  have noses: "loadLocalSession (toy_config 50 0) ''dev'' (toy_did 60) ''dev'' = None"
    by (simp add: loadLocalSession_def f) (simp add: toy_device_def)
  obtain b where b: "fst (claimBundle rbt_level 6 (toy_did 60) ''dev'' ''public'' ?db) = Some b"
    using publish_holds(2) [OF rbt_level_store toy_keyed, of 60 2 "toy_device 60 2" 6 "toy_did 60" "''public''" 2 ?lc RBT.empty] f(3,4) by auto
  have plain: "plain_did (toy_did 60)" by code_simp
  have "\<exists>t r s s'. send_to_device toy_platform toy_json (\<lambda>_. (toy_draws 9, [])) (\<lambda>_. Some b) [of_nat 50] e (me_to e) (toy_config 50 0)
         (buildPublishedDeviceDirectoryEntry (toy_device 60 2)) = Inr t \<and> st_transport t = ByPreKey
    \<and> prepareEncryptedReceive toy_platform toy_json (toy_config 60 2) (me_to e) (st_outerEnvelope t) 7 = Inr r \<and> de_applicationEnvelope r = e
    \<and> loadLocalSession (st_configAfterSend t) (ec_currentDeviceId (toy_config 50 0)) (me_to e) (ld_deviceId (toy_device 60 2)) = Some s
    \<and> loadLocalSession (de_config r) (ld_deviceId (toy_device 60 2)) (me_from e) (ld_deviceId (toy_device 50 0)) = Some s'
    \<and> matching_sessions toy_platform (drawn_by (toy_draws 9)) (kp_of (ld_signedPreKey (toy_device 60 2))) s s'"
  proof (rule first_envelope_delivered [OF toy_platform_sound(1) rbt_level_store])
    show "signEnvelope toy_json (toy_envelope 50 60) (sign_by toy_platform [of_nat 50]) = Inr e" by (rule e)
    show "?db = snd (prekey_run rbt_level (PkPublish 2 (me_to (toy_envelope 50 60)) ''public'' (buildPublishedPreKeyBundles ?lc (toy_config 60 2)) # []) RBT.empty)"
      by (simp add: f)
    show "fst (claimBundle rbt_level 6 (me_to (toy_envelope 50 60)) (ld_deviceId (toy_device 60 2)) ''public'' ?db) = Some b" using b by (simp add: f)
    show "owner_signed toy_platform [of_nat 60] (toy_device 60 2)" by (rule toy_signed)
    show "\<forall>otk. set_option otk \<subseteq> set (ld_oneTimePreKeys (toy_device 60 2)) \<longrightarrow>
      handshake_keys toy_platform (toy_device 50 0) (drawn_by (toy_draws 9)) (toy_device 60 2) otk" using toy_handshake by blast
  qed (use plain noses in \<open>simp_all add: f toy_identity toy_valid toy_drawn toy_keyed del: of_nat_numeral\<close>)
  then show ?thesis using b signed_fields(5) [OF e] by (fastforce simp: toy_envelope_def)
qed

end
