(* ===== verification/E2E_Config_Props.thy ===== *)
theory E2E_Config_Props
  imports E2E_Envelope_Props
begin

text \<open>
  The local configuration over time: whatever is sent, received, rotated or resupplied, it stays well formed,
  and a one-time key serves one first message.
\<close>

section \<open>Sessions\<close>

definition key_hex :: "string \<Rightarrow> bool" where
  "key_hex v \<longleftrightarrow> (\<exists>k. length k = 32 \<and> v = bytesToHex k)"

definition session_ok :: "session \<Rightarrow> bool" where
  "session_ok s \<longleftrightarrow> key_hex (ls_rootKey s) \<and> key_hex (lk_privateKey (ls_currentRatchetKey s)) \<and> key_hex (ls_remoteRatchetPublicKey s)
     \<and> (\<forall>k \<in> set_option (ls_sendingChainKey s). key_hex k) \<and> (\<forall>k \<in> set_option (ls_receivingChainKey s). key_hex k)
     \<and> 0 \<le> ls_nextSend s \<and> 0 \<le> ls_previousSendChainLength s
     \<and> length (ls_skipped s) \<le> MAX_SKIPPED_MESSAGE_KEYS \<and> (\<forall>x \<in> set (ls_skipped s). key_hex (sk_messageKey x))"

lemma key_hex_bytes [simp]: "key_hex (bytesToHex k) \<longleftrightarrow> length k = 32"
  by (auto simp: key_hex_def)

lemma dh_lengths: "diffieHellmanX25519 c a b = Inr x \<Longrightarrow> length a = 32 \<and> length b = 32"
  by (auto simp: diffieHellmanX25519_def wrapPkcs8_def importPublicKey_def validateRawKeyLength_def and_then_Inr split: if_splits)

lemma store_skipped_ok: "session_ok s \<Longrightarrow> length key = 32 \<Longrightarrow> session_ok (storeSkippedMessageKey pub n key s)"
  by (auto simp: session_ok_def storeSkippedMessageKey_def Let_def dest: in_set_dropD)

lemma session_ok_counters [simp]: "session_ok (s\<lparr>ls_nextReceive := n\<rparr>) \<longleftrightarrow> session_ok s" "session_ok (s\<lparr>ls_updatedAt := t\<rparr>) \<longleftrightarrow> session_ok s"
  by (simp_all add: session_ok_def)

lemma skip_loop_keeps:
  "sound_crypto c \<Longrightarrow> session_ok s \<Longrightarrow> length k = 32 \<Longrightarrow> session_ok (snd (skip_loop c n k s)) \<and> length (fst (skip_loop c n k s)) = 32
    \<and> ls_peerDid (snd (skip_loop c n k s)) = ls_peerDid s \<and> ls_peerDeviceId (snd (skip_loop c n k s)) = ls_peerDeviceId s
    \<and> ls_selfDeviceId (snd (skip_loop c n k s)) = ls_selfDeviceId s"
proof (induction n arbitrary: k s)
  case (Suc n)
  let ?s = "storeSkippedMessageKey (ls_remoteRatchetPublicKey s) (ls_nextReceive s) (snd (deriveChainStep c k)) s"
  have "session_ok (?s\<lparr>ls_nextReceive := ls_nextReceive ?s + 1\<rparr>)"
    using store_skipped_ok [OF Suc.prems(2)] root_and_chain_length(4) [OF Suc.prems(1)] by simp
  then show ?case
    using Suc.IH [OF Suc.prems(1), of "?s\<lparr>ls_nextReceive := ls_nextReceive ?s + 1\<rparr>" "fst (deriveChainStep c k)"] root_and_chain_length(3) [OF Suc.prems(1)]
    by (simp add: split_def Let_def) (simp add: storeSkippedMessageKey_def Let_def)
qed simp

text \<open>The peer and the device that a session belongs to.\<close>

definition session_owner :: "session \<Rightarrow> did \<times> string \<times> string" where
  "session_owner s = (ls_peerDid s, ls_peerDeviceId s, ls_selfDeviceId s)"

lemma skip_keeps:
  assumes "sound_crypto c" "session_ok s" "skipMessageKeys c n s = Inr s'"
  shows "session_ok s' \<and> session_owner s' = session_owner s"
proof (cases "s' = s")
  case False
  then obtain key where key: "given (ls_receivingChainKey s) = Some key"
      "s' = (snd (skip_loop c (nat (n - ls_nextReceive s)) (hexToBytes key) s))
          \<lparr>ls_receivingChainKey := Some (bytesToHex (fst (skip_loop c (nat (n - ls_nextReceive s)) (hexToBytes key) s)))\<rparr>"
    using assms(3) by (auto simp: skipMessageKeys_def split_def Let_def split: if_splits option.splits)
  then have "length (hexToBytes key) = 32"
    using assms(2) by (auto simp: session_ok_def given_def key_hex_def split: option.splits if_splits)
  from skip_loop_keeps [OF assms(1,2) this, of "nat (n - ls_nextReceive s)"] key(2) show ?thesis
    by (auto simp: session_ok_def session_owner_def)
qed (use assms in simp)

lemma ensure_keeps:
  assumes "sound_crypto c" "session_ok s" "ensureSendingChain c dr nk s = Inr s'"
  shows "session_ok s' \<and> session_owner s' = session_owner s"
  using assms root_and_chain_length(1,2) [OF assms(1)]
  by (auto simp: ensureSendingChain_def and_then_Inr split_def Let_def session_ok_def session_owner_def hex_pair_def dest: dh_lengths split: option.splits)

lemma advance_keeps:
  assumes "sound_crypto c" "session_ok s" "advanceReceivingRatchet c pub s = Inr s'"
  shows "session_ok s' \<and> session_owner s' = session_owner s"
  using assms root_and_chain_length(1,2) [OF assms(1)]
  by (auto simp: advanceReceivingRatchet_def and_then_Inr split_def Let_def session_ok_def session_owner_def dest: dh_lengths)

lemma encrypt_keeps:
  assumes "sound_crypto c" "session_ok (rx_session i)" "encryptRatchetMessage c dr i = Inr (m, s', k)"
  shows "session_ok s' \<and> session_owner s' = session_owner (rx_session i)"
proof -
  obtain s where s: "ensureSendingChain c dr (rx_ratchetKeyPair i) (rx_session i) = Inr s"
    using assms(3) by (auto simp: encryptRatchetMessage_def and_then_Inr)
  with assms(3) root_and_chain_length(3) [OF assms(1)] ensure_keeps [OF assms(1,2) s] show ?thesis
    by (auto simp: encryptRatchetMessage_def and_then_Inr split_def Let_def session_ok_def session_owner_def split: option.splits)
qed

lemma decrypt_next_keeps:
  assumes "sound_crypto c" "session_ok s" "decrypt_next c m now s = Inr (pt, s', k, b)"
  shows "session_ok s' \<and> session_owner s' = session_owner s"
proof -
  obtain s1 where s1: "skipMessageKeys c (sm_messageNumber m) s = Inr s1" using assms(3) by (auto simp: decrypt_next_def and_then_Inr)
  with assms(3) root_and_chain_length(3) [OF assms(1)] skip_keeps [OF assms(1,2) s1] show ?thesis
    by (auto simp: decrypt_next_def and_then_Inr split_def Let_def session_ok_def session_owner_def split: option.splits)
qed

lemma take_first_subset: "take_first P xs = Some (x, ys) \<Longrightarrow> set ys \<subseteq> set xs \<and> length ys < length xs"
  by (induction xs arbitrary: ys) (auto split: if_splits)

lemma decrypt_keeps:
  assumes c: "sound_crypto c" "session_ok s" and d: "decryptRatchetMessage c m now s = Inr (pt, s', k, b)"
  shows "session_ok s' \<and> session_owner s' = session_owner s"
proof -
  obtain x s0 where t: "takeSkippedMessageKey (bytesToHex (sm_ratchetPublicKey m)) (sm_messageNumber m) s = (x, s0)" by (meson surj_pair)
  then have s0: "session_ok s0 \<and> session_owner s0 = session_owner s"
    using c(2) take_first_subset by (fastforce simp: takeSkippedMessageKey_def session_ok_def session_owner_def split: option.splits prod.splits)
  show ?thesis
  proof (cases x)
    case None
    show ?thesis
    proof (cases "bytesToHex (sm_ratchetPublicKey m) = ls_remoteRatchetPublicKey s0")
      case True
      then have "decrypt_next c m now s0 = Inr (pt, s', k, b)" using d t None by (simp add: decryptRatchetMessage_def)
      with decrypt_next_keeps [OF c(1)] s0 show ?thesis by metis
    next
      case False
      then obtain s1 s2 where "skipMessageKeys c (sm_previousChainLength m) s0 = Inr s1" "advanceReceivingRatchet c (sm_ratchetPublicKey m) s1 = Inr s2"
          "decrypt_next c m now s2 = Inr (pt, s', k, b)"
        using d t None by (auto simp: decryptRatchetMessage_def and_then_Inr)
      with skip_keeps [OF c(1)] advance_keeps [OF c(1)] decrypt_next_keeps [OF c(1)] s0 show ?thesis by metis
    qed
  next
    case (Some key)
    then show ?thesis using d t s0 by (auto simp: decryptRatchetMessage_def and_then_Inr session_owner_def)
  qed
qed

lemma create_ok:
  assumes "sound_crypto c" "length (ri_rootKey i) = 32"
  shows "createInitiatorRatchetSession c i = Inr s \<Longrightarrow> session_ok s \<and> session_owner s = (ri_peerDid i, ri_peerDeviceId i, ri_selfDeviceId i)"
    "createResponderRatchetSession c i = Inr s \<Longrightarrow> session_ok s \<and> session_owner s = (ri_peerDid i, ri_peerDeviceId i, ri_selfDeviceId i)"
  using root_and_chain_length(1,2) [OF assms(1)]
  by (auto simp: createInitiatorRatchetSession_def createResponderRatchetSession_def and_then_Inr split_def Let_def session_ok_def session_owner_def
      new_session_def hex_pair_def dest: dh_lengths)

section \<open>Configurations\<close>

definition device_ok :: "string \<Rightarrow> local_device \<Rightarrow> bool" where
  "device_ok v d \<longleftrightarrow> ld_deviceId d = v \<and> distinct (map ok_keyId (ld_oneTimePreKeys d)) \<and> (\<forall>x \<in> set (ld_oneTimePreKeys d). ok_claimedAt x \<noteq> Some 0)
     \<and> (\<forall>k s. jm_get (ld_sessions d) k = Some s \<longrightarrow> session_ok s \<and> ls_selfDeviceId s = v \<and> k = buildLocalSessionKey (ls_peerDid s) (ls_peerDeviceId s))"

definition config_ok :: "e2e_config \<Rightarrow> bool" where
  "config_ok cfg \<longleftrightarrow> jm_ok (ec_devices cfg) \<and> jm_has (ec_devices cfg) (ec_currentDeviceId cfg)
     \<and> (\<forall>v d. jm_get (ec_devices cfg) v = Some d \<longrightarrow> device_ok v d)"

lemma config_ok_keyed: "config_ok cfg \<Longrightarrow> config_keyed cfg"
proof -
  assume ok: "config_ok cfg"
  have j: "jm_ok (ec_devices cfg)" using ok unfolding config_ok_def by (rule conjunct1)
  have "ld_deviceId d = k \<and> distinct (map ok_keyId (ld_oneTimePreKeys d)) \<and> (\<forall>x \<in> set (ld_oneTimePreKeys d). ok_claimedAt x \<noteq> Some 0)"
    if "(k, d) \<in> set (ec_devices cfg)" for k d
  proof -
    have "jm_get (ec_devices cfg) k = Some d" using iffD1 [OF jm_in_set_iff [OF j] that] .
    then have "device_ok k d" using conjunct2 [OF conjunct2 [OF ok [unfolded config_ok_def]]] by blast
    then show ?thesis unfolding device_ok_def by (elim conjE) (intro conjI)
  qed
  then show ?thesis using j unfolding config_keyed_def by fast
qed

lemma config_ok_set:
  "config_ok cfg \<Longrightarrow> device_ok v d \<Longrightarrow> config_ok (cfg\<lparr>ec_devices := jm_set v d (ec_devices cfg)\<rparr>)"
  by (auto simp: config_ok_def)

lemma config_ok_device: "config_ok cfg \<Longrightarrow> jm_get (ec_devices cfg) v = Some d \<Longrightarrow> device_ok v d"
  by (simp add: config_ok_def)

lemma store_keeps:
  assumes "config_ok cfg" "session_ok s" "ls_selfDeviceId s = v" "storeLocalSession cfg v s = Inr cfg'"
  shows "config_ok cfg'"
proof -
  obtain d where d: "jm_get (ec_devices cfg) v = Some d"
      "cfg' = cfg\<lparr>ec_devices := jm_set v (d\<lparr>ld_sessions := jm_set (buildLocalSessionKey (ls_peerDid s) (ls_peerDeviceId s)) s (ld_sessions d)\<rparr>) (ec_devices cfg)\<rparr>"
    using assms(4) by (auto simp: storeLocalSession_def getDeviceState_def and_then_Inr)
  have "device_ok v (d\<lparr>ld_sessions := jm_set (buildLocalSessionKey (ls_peerDid s) (ls_peerDeviceId s)) s (ld_sessions d)\<rparr>)"
    using config_ok_device [OF assms(1) d(1)] assms(2,3) by (auto simp: device_ok_def)
  with d(2) config_ok_set [OF assms(1)] show ?thesis by simp
qed

lemma load_ok:
  assumes "config_ok cfg" "loadLocalSession cfg v peer peerDevice = Some s"
  shows "session_ok s" "ls_selfDeviceId s = v"
  using assms by (auto simp: loadLocalSession_def config_ok_def device_ok_def split: option.splits)

lemma distinct_zip_fst: "distinct xs \<Longrightarrow> inj_on f (set xs) \<Longrightarrow> distinct (map (\<lambda>p. f (fst p)) (zip xs ys))"
proof (induction xs arbitrary: ys)
  case (Cons x xs)
  then show ?case by (cases ys) (auto dest: set_zip_leftD simp: inj_on_def)
qed simp

lemma one_time_keys_ok:
  assumes "buildOneTimePreKeys kps n now = Inr ks"
  shows "distinct (map ok_keyId ks)" "\<forall>x \<in> set ks. ok_claimedAt x = None"
proof -
  obtain ps where "ks = map (\<lambda>(i, k). one_time_key_of now i k) (zip [0..<n] ps)" using assms by (auto simp: buildOneTimePreKeys_def and_then_Inr)
  then show "distinct (map ok_keyId ks)" "\<forall>x \<in> set ks. ok_claimedAt x = None"
    using distinct_zip_fst [of "[0..<n]" "\<lambda>i. 1 + rat_of_nat i" ps]
    by (auto simp: one_time_key_of_def split_def comp_def inj_on_def)
qed

lemma replace_keeps:
  assumes "config_ok cfg"
  shows "rotateLocalDeviceSignedPreKey c dd key opts now v cfg = Inr cfg' \<Longrightarrow> config_ok cfg'"
    "resupplyLocalDeviceOneTimePreKeys kps n now v cfg = Inr cfg' \<Longrightarrow> config_ok cfg'"
  using config_ok_device [OF assms] one_time_keys_ok
  by (auto simp: rotateLocalDeviceSignedPreKey_def resupplyLocalDeviceOneTimePreKeys_def and_then_Inr Let_def device_ok_def split: option.splits
      intro!: config_ok_set [OF assms])

lemma mark_claimed_ids [simp]: "map ok_keyId (mark_claimed n now ks) = map ok_keyId ks"
  by (induction ks) auto

lemma mark_claimed_set: "x \<in> set (mark_claimed n now ks) \<Longrightarrow> x \<in> set ks \<or> ok_claimedAt x = Some now"
  by (induction ks) (auto split: if_splits)

text \<open>The configuration that an accepted first message leaves.\<close>

lemma consume_result:
  assumes c: "sound_crypto c" and ok: "config_ok cfg" and r: "consumeResponderPreKeyMessage c cfg receiver m now = Inr (pt, s, cfg', sh)"
  shows "\<exists>d otk. jm_get (ec_devices cfg) (pm_receiverDeviceId m) = Some d \<and> named_one_time_key d m = Inr otk \<and> session_ok s
    \<and> session_owner s = (pm_senderDid m, pm_senderDeviceId m, pm_receiverDeviceId m)
    \<and> storeLocalSession (cfg\<lparr>ec_devices := jm_set (pm_receiverDeviceId m) (claim_key otk now d) (ec_devices cfg)\<rparr>) (pm_receiverDeviceId m) s = Inr cfg'"
proof -
  let ?cfg = "\<lambda>d otk. cfg\<lparr>ec_devices := jm_set (pm_receiverDeviceId m) (claim_key otk now d) (ec_devices cfg)\<rparr>"
  obtain d otk where d: "jm_get (ec_devices cfg) (pm_receiverDeviceId m) = Some d" "named_one_time_key d m = Inr otk"
    "\<exists>x. deriveX3dhResponderSharedSecret c x = Inr sh" "createResponderRatchetSession c (responder_input d m sh now) = Inr s"
    "storeLocalSession (?cfg d otk) (ld_deviceId d) s = Inr cfg'"
    using r by (auto simp: consumeResponderPreKeyMessage_def getDeviceState_def and_then_Inr split: if_splits)
  have "length sh = 32"
    using d(3) c by (auto simp: deriveX3dhResponderSharedSecret_def and_then_Inr deriveX3dhSharedSecret_def hkdfSha256_def sound_crypto_def)
  then have "session_ok s \<and> session_owner s = (pm_senderDid m, pm_senderDeviceId m, ld_deviceId d)"
    using create_ok(2) [OF c _ d(4)] by (simp add: responder_input_def)
  moreover have "ld_deviceId d = pm_receiverDeviceId m" using config_ok_device [OF ok d(1)] by (simp add: device_ok_def)
  ultimately show ?thesis using d(1,2,5) by auto
qed

lemma consume_keeps:
  assumes c: "sound_crypto c" and ok: "config_ok cfg" and r: "consumeResponderPreKeyMessage c cfg receiver m now = Inr (pt, s, cfg', sh)" and now: "now \<noteq> 0"
  shows "config_ok cfg'"
proof -
  obtain d otk where d: "jm_get (ec_devices cfg) (pm_receiverDeviceId m) = Some d" "session_ok s" "ls_selfDeviceId s = pm_receiverDeviceId m"
    "storeLocalSession (cfg\<lparr>ec_devices := jm_set (pm_receiverDeviceId m) (claim_key otk now d) (ec_devices cfg)\<rparr>) (pm_receiverDeviceId m) s = Inr cfg'"
    using consume_result [OF c ok r] by (auto simp: session_owner_def)
  have "device_ok (pm_receiverDeviceId m) (claim_key otk now d)"
    using config_ok_device [OF ok d(1)] now by (auto simp: device_ok_def claim_key_def dest!: mark_claimed_set split: option.splits)
  from store_keeps [OF config_ok_set [OF ok this] d(2-4)] show ?thesis .
qed


section \<open>Sending and receiving\<close>

lemma store_current: "storeLocalSession cfg v s = Inr cfg' \<Longrightarrow> ec_currentDeviceId cfg' = ec_currentDeviceId cfg"
  by (auto simp: storeLocalSession_def getDeviceState_def and_then_Inr)

text \<open>The one-time keys of a device.\<close>

definition keys_of :: "e2e_config \<Rightarrow> string \<Rightarrow> one_time_key list option" where
  "keys_of cfg v = map_option ld_oneTimePreKeys (jm_get (ec_devices cfg) v)"

lemma store_keys: "storeLocalSession cfg v s = Inr cfg' \<Longrightarrow> keys_of cfg' w = keys_of cfg w"
  by (auto simp: storeLocalSession_def getDeviceState_def and_then_Inr keys_of_def)

lemma initiator_keeps:
  assumes c: "sound_crypto c" and ok: "config_ok (ii_config i)" and r: "buildInitiatorPreKeyMessage c dr sid i = Inr (m, s, cfg', sh)"
  shows "config_ok cfg' \<and> keys_of cfg' w = keys_of (ii_config i) w"
proof -
  obtain d x ri where d: "jm_get (ec_devices (ii_config i)) (ec_currentDeviceId (ii_config i)) = Some d"
    "deriveX3dhInitiatorSharedSecret c x = Inr sh" "createInitiatorRatchetSession c ri = Inr s" "ri_rootKey ri = sh" "ri_selfDeviceId ri = ld_deviceId d"
    "storeLocalSession (ii_config i) (ld_deviceId d) s = Inr cfg'"
    using r by (fastforce simp: buildInitiatorPreKeyMessage_def Let_def getCurrentDeviceState_def and_then_Inr)
  have "length sh = 32"
    using d(2) c by (auto simp: deriveX3dhInitiatorSharedSecret_def and_then_Inr deriveX3dhSharedSecret_def hkdfSha256_def sound_crypto_def)
  then have s: "session_ok s" "ls_selfDeviceId s = ld_deviceId d"
    using create_ok(1) [OF c _ d(3)] d(4,5) by (auto simp: session_owner_def)
  from store_keeps [OF ok s d(6)] store_keys [OF d(6)] show ?thesis by simp
qed

lemma send_keeps:
  assumes c: "sound_crypto c" and ok: "config_ok cfg" and r: "send_to_device c j drs fetch sk e receiver cfg device = Inr t"
  shows "config_ok (st_configAfterSend t) \<and> keys_of (st_configAfterSend t) w = keys_of cfg w"
proof -
  obtain claimed p cfg' ty where enc: "encryptApplicationEnvelope c j (fst (drs (deviceId device))) (snd (drs (deviceId device))) cfg e device claimed = Inr (p, cfg', ty)"
    "st_configAfterSend t = cfg'"
    using r by (auto simp: send_to_device_def Let_def and_then_Inr split: if_splits)
  have "config_ok cfg' \<and> keys_of cfg' w = keys_of cfg w"
  proof (cases "loadLocalSession cfg (ec_currentDeviceId cfg) (me_to e) (deviceId device)")
    case None
    then obtain b m s sh where "claimed = Some b" "buildInitiatorPreKeyMessage c (fst (drs (deviceId device))) (snd (drs (deviceId device)))
        \<lparr>ii_config = cfg, ii_senderDid = me_from e, ii_receiverDid = me_to e, ii_recipientDevice = device, ii_claimedBundle = b,
          ii_plaintext = serializeSignedApplicationEnvelope j e, ii_sessionId = None, ii_messageId = Some (me_id e), ii_nonce = None,
          ii_ephemeralKeyPair = None, ii_now = None\<rparr> = Inr (m, s, cfg', sh)"
      using enc(1) by (auto simp: encryptApplicationEnvelope_def Let_def and_then_Inr split: option.splits)
    with initiator_keeps [OF c _ this(2)] ok show ?thesis by simp
  next
    case (Some s)
    let ?ri = "\<lparr>rx_session = s, rx_plaintext = serializeSignedApplicationEnvelope j e, rx_senderDid = me_from e, rx_receiverDid = me_to e,
        rx_messageId = Some (me_id e), rx_nonce = None, rx_ratchetKeyPair = None, rx_now = None\<rparr>"
    from Some obtain m s' k where s': "encryptRatchetMessage c (fst (drs (deviceId device))) ?ri = Inr (m, s', k)"
        "storeLocalSession cfg (ec_currentDeviceId cfg) s' = Inr cfg'"
      using enc(1) by (auto simp: encryptApplicationEnvelope_def Let_def and_then_Inr)
    from encrypt_keeps [OF c _ s'(1)] load_ok [OF ok Some] store_keeps [OF ok _ _ s'(2)] store_keys [OF s'(2)] show ?thesis
      by (auto simp: session_owner_def)
  qed
  with enc(2) show ?thesis by simp
qed

lemma session_message_keeps:
  assumes c: "sound_crypto c" and ok: "config_ok cfg" and r: "decrypt_session_message c cfg m now = Inr (pt, cfg', b)"
  shows "config_ok cfg' \<and> keys_of cfg' w = keys_of cfg w"
proof -
  obtain s s' k where s: "loadLocalSession cfg (sm_receiverDeviceId m) (sm_senderDid m) (sm_senderDeviceId m) = Some s"
    "decryptRatchetMessage c m now s = Inr (pt, s', k, b)" "storeLocalSession cfg (sm_receiverDeviceId m) s' = Inr cfg'"
    using r by (auto simp: decrypt_session_message_def and_then_Inr split: option.splits if_splits)
  from decrypt_keeps [OF c load_ok(1) [OF ok s(1)] s(2)] load_ok [OF ok s(1)] store_keeps [OF ok _ _ s(3)] store_keys [OF s(3)]
  show ?thesis by (simp add: session_owner_def)
qed

lemma find_mark: "find (\<lambda>k. ok_keyId k = n) (mark_claimed n' now ks)
    = map_option (\<lambda>k. if n = n' then k\<lparr>ok_claimedAt := Some now\<rparr> else k) (find (\<lambda>k. ok_keyId k = n) ks)"
  by (induction ks) (auto simp: option.map_ident)

lemma receive_result:
  assumes "prepareEncryptedReceive c j cfg receiver t now = Inr r"
  shows "\<exists>m pt skipped. opens_to c t m \<and> decrypt_message c cfg receiver m now = Inr (pt, de_config r, skipped)"
  using assms by (fastforce simp: prepareEncryptedReceive_def decryptApplicationEnvelope_def and_then_Inr opens_to_def split: if_splits)

lemma opens_to_unique: "opens_to c t m \<Longrightarrow> opens_to c t m' \<Longrightarrow> m = m'"
  by (auto simp: opens_to_def)


section \<open>Runs of a configuration\<close>

datatype config_event = Replaced string | SentTo did | Received message_envelope

text \<open>The keys of a device are rotated or resupplied, something is sent to a device of an agent, an
  envelope is received. The clock is past 0.\<close>

inductive config_step :: "crypto \<Rightarrow> json_text \<Rightarrow> e2e_config \<Rightarrow> config_event \<Rightarrow> e2e_config \<Rightarrow> bool" for c j where
  rotated: "rotateLocalDeviceSignedPreKey c dd key opts now v cfg = Inr cfg' \<Longrightarrow> config_step c j cfg (Replaced v) cfg'"
| resupplied: "resupplyLocalDeviceOneTimePreKeys kps n now v cfg = Inr cfg' \<Longrightarrow> config_step c j cfg (Replaced v) cfg'"
| sent: "send_to_device c j drs fetch key e receiver cfg device = Inr t \<Longrightarrow> config_step c j cfg (SentTo receiver) (st_configAfterSend t)"
| received: "now \<noteq> 0 \<Longrightarrow> prepareEncryptedReceive c j cfg receiver t now = Inr r \<Longrightarrow> config_step c j cfg (Received t) (de_config r)"

inductive_cases config_stepE: "config_step c j cfg ev cfg'"
inductive_cases config_receivedE: "config_step c j cfg (Received t) cfg'"

inductive config_run :: "crypto \<Rightarrow> json_text \<Rightarrow> e2e_config \<Rightarrow> config_event list \<Rightarrow> e2e_config \<Rightarrow> bool" for c j where
  config_start: "config_run c j cfg [] cfg"
| config_next: "config_run c j cfg evs cfg' \<Longrightarrow> config_step c j cfg' ev cfg'' \<Longrightarrow> config_run c j cfg (evs @ [ev]) cfg''"

lemma receive_keeps:
  assumes c: "sound_crypto c" and ok: "config_ok cfg" and r: "prepareEncryptedReceive c j cfg receiver t now = Inr r" "now \<noteq> 0"
  shows "config_ok (de_config r)"
proof -
  obtain m pt skipped where m: "decrypt_message c cfg receiver m now = Inr (pt, de_config r, skipped)" using receive_result [OF r(1)] by blast
  show ?thesis
  proof (cases m)
    case (PreKeyMessage p)
    with m obtain s sh where "consumeResponderPreKeyMessage c cfg receiver p now = Inr (pt, s, de_config r, sh)"
      by (auto simp: decrypt_message_def and_then_Inr)
    then show ?thesis by (rule consume_keeps [OF c ok _ r(2)])
  next
    case (SessionMessage s)
    with m session_message_keeps [OF c ok] show ?thesis by (auto simp: decrypt_message_def)
  qed
qed

lemma config_step_keeps: "config_step c j cfg ev cfg' \<Longrightarrow> sound_crypto c \<Longrightarrow> config_ok cfg \<Longrightarrow> config_ok cfg'"
  by (erule config_stepE) (auto intro: replace_keeps receive_keeps simp: send_keeps)

lemma config_run_keeps: "config_run c j cfg evs cfg' \<Longrightarrow> sound_crypto c \<Longrightarrow> config_ok cfg \<Longrightarrow> config_ok cfg'"
  by (induction rule: config_run.induct) (auto dest: config_step_keeps)

lemma initial_ok:
  assumes "createInitialLocalE2EConfig c dd key opts now = Inr cfg"
  shows "config_ok cfg"
proof -
  obtain d where d: "createLocalDeviceState c dd key opts now = Inr d" "cfg = \<lparr>ec_currentDeviceId = ld_deviceId d, ec_devices = [(ld_deviceId d, d)]\<rparr>"
    using assms by (auto simp: createInitialLocalE2EConfig_def and_then_Inr)
  then obtain ks where "buildOneTimePreKeys (dd_oneTime dd) (or_else (do_oneTimePreKeyCount opts) DEFAULT_ONE_TIME_PRE_KEY_COUNT) now = Inr ks"
      "ld_oneTimePreKeys d = ks" "ld_sessions d = []"
    by (auto simp: createLocalDeviceState_def Let_def and_then_Inr)
  with one_time_keys_ok [OF this(1)] d(2) show ?thesis by (auto simp: config_ok_def device_ok_def)
qed

text \<open>A claimed one-time key stays claimed until the keys of its device are replaced.\<close>

definition key_claimed :: "e2e_config \<Rightarrow> string \<Rightarrow> rat \<Rightarrow> bool" where
  "key_claimed cfg v n \<longleftrightarrow> (\<exists>ks k. keys_of cfg v = Some ks \<and> find (\<lambda>k. ok_keyId k = n) ks = Some k \<and> ok_claimedAt k \<noteq> None)"

definition names_key :: "string \<Rightarrow> rat \<Rightarrow> e2e_message \<Rightarrow> bool" where
  "names_key v n m \<longleftrightarrow> (\<exists>p. m = PreKeyMessage p \<and> pm_receiverDeviceId p = v \<and> pm_recipientOneTimePreKeyId p = Some n)"

lemma prekey_message_keys:
  assumes c: "sound_crypto c" and ok: "config_ok cfg" and r: "consumeResponderPreKeyMessage c cfg receiver m now = Inr (pt, s, cfg', sh)"
  shows "\<exists>ks. keys_of cfg (pm_receiverDeviceId m) = Some ks \<and>
    keys_of cfg' w = (if w = pm_receiverDeviceId m then Some (case pm_recipientOneTimePreKeyId m of None \<Rightarrow> ks | Some n \<Rightarrow> mark_claimed n now ks) else keys_of cfg w)"
    and "pm_recipientOneTimePreKeyId m = Some n \<Longrightarrow>
      \<exists>ks k. keys_of cfg (pm_receiverDeviceId m) = Some ks \<and> find (\<lambda>k. ok_keyId k = n) ks = Some k \<and> ok_claimedAt k = None"
proof -
  obtain d otk where d: "jm_get (ec_devices cfg) (pm_receiverDeviceId m) = Some d" "named_one_time_key d m = Inr otk"
    "storeLocalSession (cfg\<lparr>ec_devices := jm_set (pm_receiverDeviceId m) (claim_key otk now d) (ec_devices cfg)\<rparr>) (pm_receiverDeviceId m) s = Inr cfg'"
    using consume_result [OF c ok r] by blast
  have otk: "case pm_recipientOneTimePreKeyId m of None \<Rightarrow> otk = None
      | Some n \<Rightarrow> \<exists>k. find (\<lambda>k. ok_keyId k = n) (ld_oneTimePreKeys d) = Some k \<and> ok_claimedAt k = None \<and> otk = Some k \<and> ok_keyId k = n"
    using d(2) by (auto simp: named_one_time_key_def find_Some_iff split: option.splits if_splits)
  then show "\<exists>ks. keys_of cfg (pm_receiverDeviceId m) = Some ks \<and>
    keys_of cfg' w = (if w = pm_receiverDeviceId m then Some (case pm_recipientOneTimePreKeyId m of None \<Rightarrow> ks | Some n \<Rightarrow> mark_claimed n now ks) else keys_of cfg w)"
    using d(1) unfolding store_keys [OF d(3)] by (auto simp: keys_of_def claim_key_def split: option.splits)
  show "pm_recipientOneTimePreKeyId m = Some n \<Longrightarrow>
      \<exists>ks k. keys_of cfg (pm_receiverDeviceId m) = Some ks \<and> find (\<lambda>k. ok_keyId k = n) ks = Some k \<and> ok_claimedAt k = None"
    using otk d(1) by (auto simp: keys_of_def)
qed


lemma consumed_by:
  assumes "opens_to c t (PreKeyMessage p)" "prepareEncryptedReceive c j cfg receiver t now = Inr r"
  shows "\<exists>pt s sh. consumeResponderPreKeyMessage c cfg receiver p now = Inr (pt, s, de_config r, sh)"
proof -
  obtain m pt skipped where m: "opens_to c t m" "decrypt_message c cfg receiver m now = Inr (pt, de_config r, skipped)"
    using receive_result [OF assms(2)] by blast
  then have "m = PreKeyMessage p" using opens_to_unique [OF assms(1)] by simp
  with m(2) show ?thesis by (auto simp: decrypt_message_def and_then_Inr)
qed

lemma replaced_keys:
  "rotateLocalDeviceSignedPreKey c dd key opts now v cfg = Inr cfg' \<Longrightarrow> w \<noteq> v \<Longrightarrow> keys_of cfg' w = keys_of cfg w"
  "resupplyLocalDeviceOneTimePreKeys kps num now v cfg = Inr cfg' \<Longrightarrow> w \<noteq> v \<Longrightarrow> keys_of cfg' w = keys_of cfg w"
  by (auto simp: rotateLocalDeviceSignedPreKey_def resupplyLocalDeviceOneTimePreKeys_def and_then_Inr Let_def keys_of_def split: option.splits)

lemma claimed_step:
  assumes "config_step c j cfg ev cfg'" "sound_crypto c" "config_ok cfg" "key_claimed cfg v n" "ev \<noteq> Replaced v"
  shows "key_claimed cfg' v n"
  using assms(1)
proof cases
  case (received now receiver t r)
  obtain m pt skipped where m: "opens_to c t m" "decrypt_message c cfg receiver m now = Inr (pt, de_config r, skipped)"
    using receive_result received by blast
  show ?thesis
  proof (cases m)
    case (PreKeyMessage p)
    with m obtain s sh where "consumeResponderPreKeyMessage c cfg receiver p now = Inr (pt, s, de_config r, sh)"
      by (auto simp: decrypt_message_def and_then_Inr)
    from prekey_message_keys(1) [OF assms(2,3) this, of v] assms(4) received(2) show ?thesis
      by (auto simp: key_claimed_def find_mark split: option.splits if_splits)
  next
    case (SessionMessage s)
    with m session_message_keeps [OF assms(2,3)] have "keys_of (de_config r) v = keys_of cfg v" by (auto simp: decrypt_message_def)
    with received assms(4) show ?thesis by (simp add: key_claimed_def)
  qed
qed (use assms in \<open>auto simp: key_claimed_def send_keeps dest!: replaced_keys [where w = v]\<close>)

lemma claimed_run:
  "config_run c j cfg evs cfg' \<Longrightarrow> sound_crypto c \<Longrightarrow> config_ok cfg \<Longrightarrow> key_claimed cfg v n \<Longrightarrow> Replaced v \<notin> set evs \<Longrightarrow> key_claimed cfg' v n"
proof (induction rule: config_run.induct)
  case (config_next cfg evs cfg' ev cfg'')
  then show ?case using claimed_step config_run_keeps by (metis Un_iff list.set_intros(1) set_append)
qed

section \<open>What a step leaves alone\<close>

definition signed_by_sender :: "crypto \<Rightarrow> json_text \<Rightarrow> message_envelope \<Rightarrow> bool" where
  "signed_by_sender c j e \<longleftrightarrow> (\<exists>pk data. extractPublicKey c (me_from e) = Inr pk \<and> data \<in> set (encodeJsonSignaturePayloads j (JObj (envelope_fields e)))
     \<and> noble_verify c (hexToBytes (me_signature e)) data pk = Some True)"

lemma assert_signed: "assertEnvelopeSignature c j e label = Inr () \<Longrightarrow> signed_by_sender c j e"
  by (auto simp: assertEnvelopeSignature_def and_then_Inr verifyEnvelope_def normalize_envelope_json verify_with_did_def identity_verify_def
      signed_by_sender_def dest!: any_verifies_True split: if_splits) blast

text \<open>The identity key and the signed pre-key of a device.\<close>

definition fixed_keys :: "e2e_config \<Rightarrow> string \<Rightarrow> (key_pair \<times> signed_pre_key) option" where
  "fixed_keys cfg v = map_option (\<lambda>d. (ld_identityKey d, ld_signedPreKey d)) (jm_get (ec_devices cfg) v)"

lemma fixed_store: "storeLocalSession cfg v s = Inr cfg' \<Longrightarrow> fixed_keys cfg' w = fixed_keys cfg w"
  by (auto simp: storeLocalSession_def getDeviceState_def and_then_Inr fixed_keys_def)

lemma fixed_consume:
  assumes "sound_crypto c" "config_ok cfg" "consumeResponderPreKeyMessage c cfg receiver m now = Inr (pt, s, cfg', sh)"
  shows "fixed_keys cfg' w = fixed_keys cfg w"
proof -
  obtain d otk where "jm_get (ec_devices cfg) (pm_receiverDeviceId m) = Some d"
    "storeLocalSession (cfg\<lparr>ec_devices := jm_set (pm_receiverDeviceId m) (claim_key otk now d) (ec_devices cfg)\<rparr>) (pm_receiverDeviceId m) s = Inr cfg'"
    using consume_result [OF assms] by blast
  then show ?thesis using fixed_store by (fastforce simp: fixed_keys_def claim_key_def split: option.splits)
qed

lemma fixed_send:
  assumes "send_to_device c j drs fetch key e receiver cfg device = Inr t"
  shows "fixed_keys (st_configAfterSend t) w = fixed_keys cfg w"
proof -
  obtain claimed p cfg' ty where "encryptApplicationEnvelope c j (fst (drs (deviceId device))) (snd (drs (deviceId device))) cfg e device claimed = Inr (p, cfg', ty)"
    "st_configAfterSend t = cfg'"
    using assms by (auto simp: send_to_device_def Let_def and_then_Inr split: if_splits)
  then obtain v s where "storeLocalSession cfg v s = Inr (st_configAfterSend t)"
    by (auto simp: encryptApplicationEnvelope_def buildInitiatorPreKeyMessage_def Let_def and_then_Inr split: option.splits)
  then show ?thesis by (rule fixed_store)
qed

lemma fixed_receive:
  assumes "sound_crypto c" "config_ok cfg" "prepareEncryptedReceive c j cfg receiver t now = Inr r"
  shows "fixed_keys (de_config r) w = fixed_keys cfg w"
proof -
  obtain m pt skipped where m: "decrypt_message c cfg receiver m now = Inr (pt, de_config r, skipped)" using receive_result [OF assms(3)] by blast
  show ?thesis
  proof (cases m)
    case (PreKeyMessage p)
    with m fixed_consume [OF assms(1,2)] show ?thesis by (auto simp: decrypt_message_def and_then_Inr)
  next
    case (SessionMessage s)
    with m show ?thesis
      by (auto simp: decrypt_message_def decrypt_session_message_def and_then_Inr fixed_store split: option.splits if_splits)
  qed
qed

lemma fixed_run:
  "config_run c j cfg evs cfg' \<Longrightarrow> sound_crypto c \<Longrightarrow> config_ok cfg \<Longrightarrow> \<forall>v. Replaced v \<notin> set evs \<Longrightarrow> fixed_keys cfg' w = fixed_keys cfg w"
proof (induction rule: config_run.induct)
  case (config_next cfg evs cfg' ev cfg'')
  then have ok: "config_ok cfg'" and "\<forall>v. ev \<noteq> Replaced v" using config_run_keeps by auto
  with config_next.hyps(2) have "fixed_keys cfg'' w = fixed_keys cfg' w"
    by (auto elim!: config_stepE simp: fixed_send fixed_receive [OF config_next.prems(1) ok])
  with config_next show ?case by simp
qed simp

lemma consume_stores:
  assumes "sound_crypto c" "config_ok cfg" "consumeResponderPreKeyMessage c cfg receiver m now = Inr (pt, s, cfg', sh)"
  shows "loadLocalSession cfg' (pm_receiverDeviceId m) (pm_senderDid m) (pm_senderDeviceId m) = Some s"
proof -
  obtain cfg0 where "storeLocalSession cfg0 (pm_receiverDeviceId m) s = Inr cfg'" "session_owner s = (pm_senderDid m, pm_senderDeviceId m, pm_receiverDeviceId m)"
    using consume_result [OF assms] by blast
  then show ?thesis using load_store(1) by (fastforce simp: session_owner_def)
qed

lemma create_responder_later:
  "createResponderRatchetSession c (responder_input d m sh now) = Inr s \<Longrightarrow> ld_identityKey d' = ld_identityKey d \<Longrightarrow> ld_signedPreKey d' = ld_signedPreKey d
     \<Longrightarrow> ld_deviceId d' = ld_deviceId d
     \<Longrightarrow> createResponderRatchetSession c (responder_input d' m sh later) = Inr (s\<lparr>ls_createdAt := later, ls_updatedAt := later\<rparr>)"
  by (auto simp: createResponderRatchetSession_def responder_input_def and_then_Inr split_def Let_def new_session_def)

lemma consume_again:
  assumes c: "sound_crypto c" and ok: "config_ok cfg" and con: "consumeResponderPreKeyMessage c cfg receiver m now = Inr (pt, s, cfg', sh)"
    and m: "pm_recipientOneTimePreKeyId m = None" and ok2: "config_ok cfg2" and fk: "\<And>w. fixed_keys cfg2 w = fixed_keys cfg w"
  shows "\<exists>cfg3. consumeResponderPreKeyMessage c cfg2 receiver m later = Inr (pt, s\<lparr>ls_createdAt := later, ls_updatedAt := later\<rparr>, cfg3, sh)"
proof -
  obtain d where d: "jm_get (ec_devices cfg) (pm_receiverDeviceId m) = Some d" using consume_result [OF c ok con] by blast
  then obtain d' where d': "jm_get (ec_devices cfg2) (pm_receiverDeviceId m) = Some d'" "ld_identityKey d' = ld_identityKey d" "ld_signedPreKey d' = ld_signedPreKey d"
    using fk [of "pm_receiverDeviceId m"] by (auto simp: fixed_keys_def)
  have ids: "ld_deviceId d = pm_receiverDeviceId m" "ld_deviceId d' = pm_receiverDeviceId m"
    using config_ok_device [OF ok d] config_ok_device [OF ok2 d'(1)] by (simp_all add: device_ok_def)
  have s: "createResponderRatchetSession c (responder_input d m sh now) = Inr s"
    using con d by (auto simp: consumeResponderPreKeyMessage_def getDeviceState_def and_then_Inr split: if_splits)
  note s' = create_responder_later [OF s d'(2,3), of later, unfolded ids, OF refl]
  obtain cfg3 where cfg3: "storeLocalSession (cfg2\<lparr>ec_devices := jm_set (pm_receiverDeviceId m) d' (ec_devices cfg2)\<rparr>) (pm_receiverDeviceId m)
      (s\<lparr>ls_createdAt := later, ls_updatedAt := later\<rparr>) = Inr cfg3"
    using store_ex [of "cfg2\<lparr>ec_devices := jm_set (pm_receiverDeviceId m) d' (ec_devices cfg2)\<rparr>" "pm_receiverDeviceId m" d'] by auto
  have "consumeResponderPreKeyMessage c cfg2 receiver m later = Inr (pt, s\<lparr>ls_createdAt := later, ls_updatedAt := later\<rparr>, cfg3, sh)"
    using con d d' s' cfg3 ids m
    by (auto simp: consumeResponderPreKeyMessage_def getDeviceState_def and_then_Inr named_one_time_key_def claim_key_def split: if_splits)
  then show ?thesis by blast
qed

lemma encrypt_session_id: "encryptRatchetMessage c dr i = Inr (m, s', k) \<Longrightarrow> sm_sessionId m = ls_sessionId (rx_session i)"
  by (auto simp: encryptRatchetMessage_def ensureSendingChain_def and_then_Inr split_def Let_def encryptSessionMessage_def session_header.defs session_message.defs split: option.splits)

section \<open>The two agents send\<close>

definition toy_bundle :: "nat \<Rightarrow> nat \<Rightarrow> one_time_key option \<Rightarrow> claimed_bundle" where
  "toy_bundle n k otk = buildClaimedPreKeyBundle (buildPublishedPreKeyBundle (toy_device n k)) (map_option (\<lambda>x. \<lparr>keyId = ok_keyId x, publicKey = lk_publicKey x\<rparr>) otk)"

definition toy_stored_key :: "nat \<Rightarrow> one_time_key" where
  "toy_stored_key n = one_time_key_of 1 0 (toy_key (n + 2))"

lemma toy_bundle_of:
  "otk = None \<or> 0 < k \<and> otk = Some (toy_stored_key n) \<Longrightarrow> bundle_of_device (toy_device n k) otk (toy_bundle n k otk)"
  by (cases k) (auto simp: bundle_of_device_def toy_bundle_def buildClaimedPreKeyBundle_def buildPublishedPreKeyBundle_def Let_def toy_stored_key_def
      buildPublishedDeviceDirectoryEntry_def published_device.extend_def published_bundle.fields_def toy_device_def one_time_key_of_def upt_conv_Cons
      simp del: upt_Suc)

lemma toy_fields [simp]: "me_to (toy_envelope a b) = toy_did b" "me_from (toy_envelope a b) = toy_did a" "ld_deviceId (toy_device n k) = ''dev''"
    "jm_get (ec_devices (toy_config n k)) ''dev'' = Some (toy_device n k)" "ec_currentDeviceId (toy_config n k) = ''dev''"
    "loadLocalSession (toy_config n k) ''dev'' did v = None"
  by (simp_all add: toy_envelope_def toy_config_def loadLocalSession_def) (simp_all add: toy_device_def)

lemma toy_first:
  assumes "otk = None \<or> 0 < k \<and> otk = Some (toy_stored_key 60)"
  shows "\<exists>t r m. prepareEncryptedReceive toy_platform toy_json (toy_config 60 k) (toy_did 60) t 7 = Inr r \<and> opens_to toy_platform t (PreKeyMessage m)
    \<and> pm_receiverDeviceId m = ''dev'' \<and> pm_recipientOneTimePreKeyId m = map_option ok_keyId otk \<and> me_payload (de_applicationEnvelope r) = JStr ''hello''"
proof -
  obtain e where e: "signEnvelope toy_json (toy_envelope 50 60) (sign_by toy_platform [of_nat 50]) = Inr e" using signed_ex [OF toy_identity] by blast
  have "set_option otk \<subseteq> set (ld_oneTimePreKeys (toy_device 60 k))"
    using assms by (force simp: toy_device_def toy_stored_key_def)
  note hk = toy_handshake [OF this, of 50 0 9]
  note f = signed_fields [OF e]
  have p: "jm_get (ec_devices (toy_config 60 k)) (ld_deviceId (toy_device 60 k)) = Some (toy_device 60 k)"
    "identity_key toy_platform (me_to (toy_envelope 50 60)) [of_nat 60]"
    "jm_get (ec_devices (toy_config 50 0)) (ec_currentDeviceId (toy_config 50 0)) = Some (toy_device 50 0)"
    "ld_deviceId (toy_device 50 0) = ec_currentDeviceId (toy_config 50 0)"
    "loadLocalSession (toy_config 50 0) (ec_currentDeviceId (toy_config 50 0)) (me_to (toy_envelope 50 60)) (ld_deviceId (toy_device 60 k)) = None"
    "identity_key toy_platform (me_from (toy_envelope 50 60)) [of_nat 50]"
    using toy_identity by (simp_all del: of_nat_numeral)
  show ?thesis
    using first_exchange [where drs = "\<lambda>_. (toy_draws 9, [])" and dr = "toy_draws 9" and sid = "[]" and now = 7 and cfgI = "toy_config 50 0" and di = "toy_device 50 0"
      and cfgR = "toy_config 60 k", OF toy_platform_sound(1) toy_bundle_of [OF assms] p(1) toy_signed p(2-5) e toy_valid p(6) refl toy_drawn(2) hk] f(3,5)
    by (auto simp: toy_envelope_def)
qed

text \<open>A session whose first chain is there, made with another signed pre-key than the device has now.\<close>

definition toy_session :: session where
  "toy_session = \<lparr>ls_sessionId = ''s1'', ls_peerDid = toy_did 60, ls_peerDeviceId = ''dev'', ls_selfDeviceId = ''dev'', ls_role = Initiator,
     ls_rootKey = bytesToHex (replicate 32 1), ls_currentRatchetKey = hex_pair (toy_key 9), ls_remoteRatchetPublicKey = bytesToHex (replicate 32 2),
     ls_sendingChainKey = Some (bytesToHex (replicate 32 3)), ls_receivingChainKey = None, ls_createdAt = 1, ls_updatedAt = 1, ls_nextSend = 0, ls_nextReceive = 0,
     ls_previousSendChainLength = 0, ls_skipped = [],
     ls_bootstrap = \<lparr>bs_selfIdentityKey = '''', bs_peerIdentityKey = '''', bs_initiatorEphemeralKey = '''', bs_recipientSignedPreKeyId = 1,
       bs_recipientSignedPreKeyPublic = ''old'', bs_recipientOneTimePreKeyId = None\<rparr>\<rparr>"

definition toy_sender :: e2e_config where
  "toy_sender = \<lparr>ec_currentDeviceId = ''dev'',
     ec_devices = [(''dev'', (toy_device 50 0)\<lparr>ld_sessions := [(buildLocalSessionKey (toy_did 60) ''dev'', toy_session)]\<rparr>)]\<rparr>"

lemma session_send_ex:
  assumes c: "sound_crypto c" and dr: "draws_ok dr" and s: "ls_sendingChainKey s = Some (bytesToHex k)" "k \<noteq> []"
  shows "\<exists>m s' mk. encryptRatchetMessage c dr \<lparr>rx_session = s, rx_plaintext = pt, rx_senderDid = a, rx_receiverDid = b, rx_messageId = i, rx_nonce = None,
    rx_ratchetKeyPair = None, rx_now = None\<rparr> = Inr (m, s', mk)"
proof -
  have "given (ls_sendingChainKey s) = Some (bytesToHex k)" using s by (cases k) (simp_all add: given_def bytesToHex_def)
  moreover have "length (snd (deriveChainStep c k)) = 32" by (rule root_and_chain_length(4) [OF c])
  ultimately show ?thesis
    using dr by (simp add: encryptRatchetMessage_def ensureSendingChain_def split_def Let_def assertNonce_def draws_ok_def encryptSessionMessage_def
        encryptXChaCha20Poly1305_def validateRawKeyLength_def validateNonceLength_def or_else_def)
qed

abbreviation "toy_entry \<equiv> buildPublishedDeviceDirectoryEntry (toy_device 60 0)"

lemma toy_entry_facts: "deviceId toy_entry = ''dev''" "stale_session toy_entry toy_session"
proof -
  have "signedPreKeyPublic toy_entry = bytesToHex (replicate 32 (of_nat 61))"
    by (simp add: buildPublishedDeviceDirectoryEntry_def toy_device_def signed_key_of_def toy_key_def)
  moreover have "length (bytesToHex (replicate n x)) = 2 * n" for n x by (induction n) (simp_all add: bytesToHex_def)
  ultimately have "length (signedPreKeyPublic toy_entry) = 64" by simp
  then have "signedPreKeyPublic toy_entry \<noteq> ''old''" "signedPreKeyPublic toy_entry \<noteq> ''''" by force+
  then show "stale_session toy_entry toy_session" by (simp add: stale_session_def toy_session_def)
qed (simp add: buildPublishedDeviceDirectoryEntry_def)

lemma toy_session_send:
  assumes to: "me_to e = toy_did 60" and cfg: "ec_currentDeviceId cfg = ''dev''" "loadLocalSession cfg ''dev'' (toy_did 60) ''dev'' = Some toy_session"
    "jm_get (ec_devices cfg) ''dev'' = Some d"
  shows "\<exists>t. send_to_device toy_platform toy_json (\<lambda>_. (toy_draws 9, [])) (\<lambda>_. Some (toy_bundle 60 0 None)) [of_nat 50] e (toy_did 60) cfg toy_entry = Inr t
     \<and> (\<exists>s'. ls_peerDid s' = toy_did 60 \<and> storeLocalSession cfg ''dev'' s' = Inr (st_configAfterSend t))"
proof -
  obtain m s' k where m: "encryptRatchetMessage toy_platform (toy_draws 9) \<lparr>rx_session = toy_session, rx_plaintext = serializeSignedApplicationEnvelope toy_json e,
      rx_senderDid = me_from e, rx_receiverDid = toy_did 60, rx_messageId = Some (me_id e), rx_nonce = None, rx_ratchetKeyPair = None, rx_now = None\<rparr> = Inr (m, s', k)"
    using session_send_ex [OF toy_platform_sound(2) toy_drawn(2), of toy_session "replicate 32 3"] by (fastforce simp: toy_session_def)
  have peer: "ls_peerDid s' = toy_did 60"
    using m by (auto simp: encryptRatchetMessage_def ensureSendingChain_def and_then_Inr split_def Let_def toy_session_def split: option.splits)
  obtain cfg' where cfg': "storeLocalSession cfg ''dev'' s' = Inr cfg'" using store_ex cfg(3) by blast
  then have "encryptApplicationEnvelope toy_platform toy_json (toy_draws 9) [] cfg e toy_entry (Some (toy_bundle 60 0 None))
      = Inr (buildEncryptedApplicationEnvelopePayload (SessionMessage m) (encodeSessionMessage toy_platform m), cfg', BySession)"
    using m cfg to by (simp add: encryptApplicationEnvelope_def toy_entry_facts(1) Let_def)
  moreover have "assertRecipientSignedPreKeyBundle toy_platform (toy_did 60) (toy_bundle 60 0 None) = Inr ()"
    by (rule bundle_verifies [OF toy_signed toy_identity toy_bundle_of]) simp
  moreover obtain outer where "signEncryptedTransportEnvelope toy_json e (buildEncryptedApplicationEnvelopePayload (SessionMessage m) (encodeSessionMessage toy_platform m))
      (sign_by toy_platform [of_nat 50]) = Inr outer"
    using signed_ex [OF toy_identity] by (metis signEncryptedTransportEnvelope_def)
  ultimately show ?thesis
    using cfg toy_entry_facts peer cfg' by (auto simp: send_to_device_def Let_def sign_by_def)
qed

lemma toy_stale_send:
  "\<exists>e t. me_to e = toy_did 60 \<and> send_to_device toy_platform toy_json (\<lambda>_. (toy_draws 9, [])) (\<lambda>_. Some (toy_bundle 60 0 None)) [of_nat 50] e (toy_did 60) toy_sender
     toy_entry = Inr t
   \<and> loadLocalSession toy_sender ''dev'' (toy_did 60) ''dev'' = Some toy_session \<and> ec_currentDeviceId toy_sender = ''dev''
   \<and> deviceId toy_entry = ''dev'' \<and> stale_session toy_entry toy_session"
proof -
  obtain e where e: "signEnvelope toy_json (toy_envelope 50 60) (sign_by toy_platform [of_nat 50]) = Inr e" using signed_ex [OF toy_identity] by blast
  have s: "ec_currentDeviceId toy_sender = ''dev''" "loadLocalSession toy_sender ''dev'' (toy_did 60) ''dev'' = Some toy_session"
    "\<exists>d. jm_get (ec_devices toy_sender) ''dev'' = Some d" by (simp_all add: toy_sender_def loadLocalSession_def)
  have "me_to e = toy_did 60" using signed_fields(3) [OF e] by simp
  with toy_session_send [OF this s(1,2)] s toy_entry_facts show ?thesis by blast
qed

section \<open>Properties\<close>

text \<open>C20: a configuration that starts as created stays well formed through every run of sends, receipts, rotations and
  resupplies: every device sits under its identifier with one key for each key identifier, and every stored session
  is filed under its peer, carries keys of 32 bytes, and has counters and a skipped-key list within their bounds.\<close>

theorem e2e_config_wellformed:
  assumes "sound_crypto c" "createInitialLocalE2EConfig c dd key opts now = Inr cfg" "config_run c j cfg evs cfg'"
  shows "config_ok cfg'"
  using config_run_keeps [OF assms(3,1) initial_ok [OF assms(2)]] .

theorem e2e_config_wellformed_witness:
  "\<exists>t cfg'. config_run toy_platform toy_json (toy_config 60 2) [Received t, Replaced ''dev''] cfg' \<and> config_ok cfg'"
proof -
  obtain t r where r: "prepareEncryptedReceive toy_platform toy_json (toy_config 60 2) (toy_did 60) t 7 = Inr r" using toy_first [of None 2] by blast
  then have "config_run toy_platform toy_json (toy_config 60 2) ([] @ [Received t]) (de_config r)"
    by (intro config_next [OF config_start] received) simp_all
  moreover obtain d where "jm_get (ec_devices (de_config r)) ''dev'' = Some d"
    using fixed_receive [OF toy_platform_sound(2) initial_ok [OF toy_created] r, of "''dev''"] by (auto simp: fixed_keys_def)
  then have "\<exists>cfg'. resupplyLocalDeviceOneTimePreKeys toy_der (Some 1) 9 ''dev'' (de_config r) = Inr cfg'"
    by (simp add: resupplyLocalDeviceOneTimePreKeys_def resupply_count_def buildOneTimePreKeys_def or_else_def)
  ultimately obtain cfg' where "config_run toy_platform toy_json (toy_config 60 2) [Received t, Replaced ''dev''] cfg'"
    using config_next [OF _ resupplied] by fastforce
  with e2e_config_wellformed [OF toy_platform_sound(2) toy_created this] show ?thesis by blast
qed

text \<open>C21: a one-time key serves one first message. Once a first message that names a one-time key of a device has been
  accepted, no first message that names this key of this device is accepted, whatever is sent and received
  in between, until the keys of the device are replaced.\<close>

theorem one_time_key_once:
  assumes c: "sound_crypto c" and ok: "config_ok cfg"
    and first: "config_step c j cfg (Received t) cfg1" "opens_to c t m" "names_key v n m"
    and run: "config_run c j cfg1 evs cfg2" "Replaced v \<notin> set evs"
    and again: "opens_to c t' m'" "names_key v n m'"
  shows "\<exists>e. prepareEncryptedReceive c j cfg2 receiver t' now = Inl e"
proof (rule ccontr)
  assume "\<nexists>e. prepareEncryptedReceive c j cfg2 receiver t' now = Inl e"
  then obtain r' where r': "prepareEncryptedReceive c j cfg2 receiver t' now = Inr r'" by (metis sum.exhaust)
  obtain p where p: "m = PreKeyMessage p" "pm_receiverDeviceId p = v" "pm_recipientOneTimePreKeyId p = Some n" using first(3) by (auto simp: names_key_def)
  obtain p' where p': "m' = PreKeyMessage p'" "pm_receiverDeviceId p' = v" "pm_recipientOneTimePreKeyId p' = Some n" using again(2) by (auto simp: names_key_def)
  obtain now1 recv r where r: "prepareEncryptedReceive c j cfg recv t now1 = Inr r" "cfg1 = de_config r" "now1 \<noteq> 0"
    using first(1) by (auto elim: config_receivedE)
  obtain pt s sh where "consumeResponderPreKeyMessage c cfg recv p now1 = Inr (pt, s, de_config r, sh)" using consumed_by first(2) p(1) r(1) by blast
  from prekey_message_keys [OF c ok this] p have "key_claimed cfg1 v n" by (fastforce simp: key_claimed_def find_mark r(2))
  moreover have ok1: "config_ok cfg1" by (rule config_step_keeps [OF first(1) c ok])
  ultimately have claimed: "key_claimed cfg2 v n" using claimed_run [OF run(1) c _ _ run(2)] by blast
  obtain pt' s' sh' where "consumeResponderPreKeyMessage c cfg2 receiver p' now = Inr (pt', s', de_config r', sh')"
    using consumed_by again(1) p'(1) r' by blast
  from prekey_message_keys(2) [OF c config_run_keeps [OF run(1) c ok1] this] p' claimed show False by (auto simp: key_claimed_def)
qed

theorem one_time_key_once_witness:
  "\<exists>t r e. prepareEncryptedReceive toy_platform toy_json (toy_config 60 2) (toy_did 60) t 7 = Inr r
     \<and> prepareEncryptedReceive toy_platform toy_json (de_config r) (toy_did 60) t 8 = Inl e"
proof -
  obtain t r m where first: "prepareEncryptedReceive toy_platform toy_json (toy_config 60 2) (toy_did 60) t 7 = Inr r" "opens_to toy_platform t (PreKeyMessage m)"
      "pm_receiverDeviceId m = ''dev''" "pm_recipientOneTimePreKeyId m = Some (ok_keyId (toy_stored_key 60))"
    using toy_first [of "Some (toy_stored_key 60)" 2] by auto
  have "names_key ''dev'' (ok_keyId (toy_stored_key 60)) (PreKeyMessage m)" using first(3,4) by (simp add: names_key_def)
  moreover have "config_step toy_platform toy_json (toy_config 60 2) (Received t) (de_config r)" by (rule received [OF _ first(1)]) simp
  ultimately show ?thesis
    using one_time_key_once [OF toy_platform_sound(2) initial_ok [OF toy_created] _ first(2) _ config_start _ first(2)] first(1) by fastforce
qed

text \<open>C22: an accepted envelope is authentic. The transport envelope and the envelope inside both carry a signature that the
  public key in the DID of their sender verifies, they agree on sender, recipient and identifier, and a first
  message is for this agent.\<close>

theorem received_envelope_authentic:
  assumes "prepareEncryptedReceive c j cfg receiver t now = Inr r"
  shows "signed_by_sender c j t \<and> signed_by_sender c j (de_applicationEnvelope r)
    \<and> me_from (de_applicationEnvelope r) = me_from t \<and> me_to (de_applicationEnvelope r) = me_to t \<and> me_id (de_applicationEnvelope r) = me_id t
    \<and> (de_transport r = ByPreKey \<longrightarrow> me_to t = receiver)"
proof -
  obtain p m pt skipped cfg' where m: "assertEnvelopeSignature c j t ''Encrypted transport envelope'' = Inr ()"
    "assertTransportEnvelopeMatchesMessage t p m = Inr ()" "decrypt_message c cfg receiver m now = Inr (pt, cfg', skipped)"
    "assertApplicationEnvelopeMatchesMessage (de_applicationEnvelope r) m = Inr ()"
    "assertEnvelopeSignature c j (de_applicationEnvelope r) ''Decrypted application envelope'' = Inr ()" "de_transport r = msg_type m"
    using assms by (auto simp: prepareEncryptedReceive_def decryptApplicationEnvelope_def and_then_Inr split: if_splits)
  have "msg_receiverDid m = receiver" if "msg_type m = ByPreKey"
    using m(3) that by (cases m) (auto simp: msg_defs decrypt_message_def and_then_Inr consumeResponderPreKeyMessage_def split: if_splits)
  then show ?thesis
    using m(2,4,6) assert_signed [OF m(1)] assert_signed [OF m(5)]
    by (auto simp: assertTransportEnvelopeMatchesMessage_def assertApplicationEnvelopeMatchesMessage_def split: if_splits)
qed

theorem received_envelope_authentic_witness:
  "\<exists>t r. prepareEncryptedReceive toy_platform toy_json (toy_config 60 0) (toy_did 60) t 7 = Inr r \<and> me_payload (de_applicationEnvelope r) = JStr ''hello''
     \<and> signed_by_sender toy_platform toy_json (de_applicationEnvelope r)"
proof -
  obtain t r where "prepareEncryptedReceive toy_platform toy_json (toy_config 60 0) (toy_did 60) t 7 = Inr r" "me_payload (de_applicationEnvelope r) = JStr ''hello''"
    using toy_first [of None 0] by blast
  with received_envelope_authentic [OF this(1)] show ?thesis by blast
qed

text \<open>A first message that names no one-time key can be played again. Whatever was sent and received since, unless the
  keys of a device were replaced, the same transport envelope is accepted again, delivers the same envelope, and puts the session with
  that peer back to the state it had after the first receipt, times apart.\<close>

theorem prekey_replay_resets:
  assumes c: "sound_crypto c" and ok: "config_ok cfg"
    and first: "prepareEncryptedReceive c j cfg receiver t now = Inr r" "opens_to c t (PreKeyMessage m)" "pm_recipientOneTimePreKeyId m = None"
    and run: "config_run c j (de_config r) evs cfg2" "\<forall>v. Replaced v \<notin> set evs" "now \<noteq> 0"
  shows "\<exists>r' s. prepareEncryptedReceive c j cfg2 receiver t later = Inr r' \<and> de_applicationEnvelope r' = de_applicationEnvelope r
    \<and> loadLocalSession (de_config r) (pm_receiverDeviceId m) (pm_senderDid m) (pm_senderDeviceId m) = Some s
    \<and> loadLocalSession (de_config r') (pm_receiverDeviceId m) (pm_senderDid m) (pm_senderDeviceId m)
        = Some (s\<lparr>ls_createdAt := later, ls_updatedAt := later\<rparr>)"
proof -
  obtain pt s sh where con: "consumeResponderPreKeyMessage c cfg receiver m now = Inr (pt, s, de_config r, sh)" using consumed_by [OF first(2,1)] by blast
  have ok': "config_ok (de_config r)" by (rule receive_keeps [OF c ok first(1) run(3)])
  have fk: "fixed_keys cfg2 w = fixed_keys cfg w" for w
    using fixed_run [OF run(1) c ok' run(2)] fixed_consume [OF c ok con] by simp
  from consume_again [OF c ok con first(3) config_run_keeps [OF run(1) c ok'] fk] obtain cfg3 where
    again: "consumeResponderPreKeyMessage c cfg2 receiver m later = Inr (pt, s\<lparr>ls_createdAt := later, ls_updatedAt := later\<rparr>, cfg3, sh)" by blast
  obtain p where p: "assertEncryptedApplicationEnvelopePayload (me_payload t) = Inr p" "decodeEncryptedApplicationEnvelopePayload c p = Inr (PreKeyMessage m)"
    using first(2) by (auto simp: opens_to_def)
  have "prepareEncryptedReceive c j cfg2 receiver t later = Inr (r\<lparr>de_config := cfg3\<rparr>)"
    using first(1) p con again
    by (cases r) (auto simp: prepareEncryptedReceive_def decryptApplicationEnvelope_def and_then_Inr decrypt_message_def split: if_splits)
  moreover have "loadLocalSession (de_config r) (pm_receiverDeviceId m) (pm_senderDid m) (pm_senderDeviceId m) = Some s"
    by (rule consume_stores [OF c ok con])
  moreover have "loadLocalSession cfg3 (pm_receiverDeviceId m) (pm_senderDid m) (pm_senderDeviceId m) = Some (s\<lparr>ls_createdAt := later, ls_updatedAt := later\<rparr>)"
    by (rule consume_stores [OF c config_run_keeps [OF run(1) c ok'] again])
  ultimately show ?thesis by (intro exI [of _ "r\<lparr>de_config := cfg3\<rparr>"] exI [of _ s]) simp
qed

theorem prekey_replay_resets_witness:
  "\<exists>t r r'. prepareEncryptedReceive toy_platform toy_json (toy_config 60 0) (toy_did 60) t 7 = Inr r
     \<and> prepareEncryptedReceive toy_platform toy_json (de_config r) (toy_did 60) t 8 = Inr r' \<and> de_applicationEnvelope r' = de_applicationEnvelope r"
proof -
  obtain t r m where first: "prepareEncryptedReceive toy_platform toy_json (toy_config 60 0) (toy_did 60) t 7 = Inr r" "opens_to toy_platform t (PreKeyMessage m)"
      "pm_recipientOneTimePreKeyId m = None" using toy_first [of None 0] by auto
  from prekey_replay_resets [OF toy_platform_sound(2) initial_ok [OF toy_created] this config_start, of 8] first(1) show ?thesis by fastforce
qed

text \<open>A stale session is used on. When the recipient has replaced the signed pre-key that a session was made with, the
  send fetches a bundle, which takes a one-time key from the relay, checks its signature, and then encrypts under the stale session all the same.\<close>

theorem stale_session_reused:
  assumes "loadLocalSession cfg (ec_currentDeviceId cfg) (me_to e) (deviceId device) = Some s" "stale_session device s"
    "send_to_device c j drs fetch key e (me_to e) cfg device = Inr t"
  shows "\<exists>b. fetch (deviceId device) = Some b \<and> assertRecipientSignedPreKeyBundle c (me_to e) b = Inr () \<and> st_transport t = BySession
    \<and> st_sessionId t = ls_sessionId s \<and> (\<forall>b'. assertRecipientSignedPreKeyBundle c (me_to e) b' = Inr () \<longrightarrow>
         send_to_device c j drs (\<lambda>_. Some b') key e (me_to e) cfg device = Inr t)"
proof -
  obtain b p cfg' ty where b: "fetch (deviceId device) = Some b" "assertRecipientSignedPreKeyBundle c (me_to e) b = Inr ()"
    "encryptApplicationEnvelope c j (fst (drs (deviceId device))) (snd (drs (deviceId device))) cfg e device (Some b) = Inr (p, cfg', ty)"
    "st_transport t = ty" "st_sessionId t = ep_sessionId p"
    using assms by (auto simp: send_to_device_def Let_def and_then_Inr split: option.splits)
  have same: "encryptApplicationEnvelope c j dr sid cfg e device (Some b') = encryptApplicationEnvelope c j dr sid cfg e device (Some b)" for dr sid b'
    using assms(1) by (simp add: encryptApplicationEnvelope_def Let_def)
  have "send_to_device c j drs (\<lambda>_. Some b') key e (me_to e) cfg device = Inr t"
    if "assertRecipientSignedPreKeyBundle c (me_to e) b' = Inr ()" for b'
    using assms(3) b(1,2) that by (simp add: send_to_device_def Let_def assms(1,2) same [of _ _ b'])
  moreover have "ty = BySession \<and> ep_sessionId p = ls_sessionId s"
  proof -
    let ?ri = "\<lparr>rx_session = s, rx_plaintext = serializeSignedApplicationEnvelope j e, rx_senderDid = me_from e, rx_receiverDid = me_to e,
        rx_messageId = Some (me_id e), rx_nonce = None, rx_ratchetKeyPair = None, rx_now = None\<rparr>"
    obtain m s' k where m: "encryptRatchetMessage c (fst (drs (deviceId device))) ?ri = Inr (m, s', k)"
        "p = buildEncryptedApplicationEnvelopePayload (SessionMessage m) (encodeSessionMessage c m)" "ty = BySession"
      using b(3) assms(1) by (auto simp: encryptApplicationEnvelope_def Let_def and_then_Inr)
    with encrypt_session_id [OF m(1)] show ?thesis by (simp add: buildEncryptedApplicationEnvelopePayload_def msg_defs)
  qed
  ultimately show ?thesis using b(1,2,4,5) by (intro exI [of _ b] conjI allI impI) (simp_all only:)
qed

theorem stale_session_reused_witness:
  "\<exists>e t. send_to_device toy_platform toy_json (\<lambda>_. (toy_draws 9, [])) (\<lambda>_. Some (toy_bundle 60 0 None)) [of_nat 50] e (toy_did 60) toy_sender
     (buildPublishedDeviceDirectoryEntry (toy_device 60 0)) = Inr t \<and> st_transport t = BySession \<and> st_sessionId t = ''s1''"
proof -
  obtain e t where e: "me_to e = toy_did 60" "send_to_device toy_platform toy_json (\<lambda>_. (toy_draws 9, [])) (\<lambda>_. Some (toy_bundle 60 0 None)) [of_nat 50] e (toy_did 60) toy_sender
     (buildPublishedDeviceDirectoryEntry (toy_device 60 0)) = Inr t" and s: "loadLocalSession toy_sender ''dev'' (toy_did 60) ''dev'' = Some toy_session"
     "ec_currentDeviceId toy_sender = ''dev''" "deviceId (buildPublishedDeviceDirectoryEntry (toy_device 60 0)) = ''dev''"
     "stale_session (buildPublishedDeviceDirectoryEntry (toy_device 60 0)) toy_session"
    using toy_stale_send by blast
  have "loadLocalSession toy_sender (ec_currentDeviceId toy_sender) (me_to e) (deviceId (buildPublishedDeviceDirectoryEntry (toy_device 60 0))) = Some toy_session"
    using s e(1) by simp
  from stale_session_reused [OF this s(4) e(2) [folded e(1)]] have "st_transport t = BySession \<and> st_sessionId t = ls_sessionId toy_session" by blast
  with e(2) show ?thesis by (auto simp: toy_session_def)
qed

end
