(* ===== verification/Trust_System.thy ===== *)
theory Trust_System
  imports Relay_Types Message_Envelope
begin

text \<open>
  The trust system of an agent, \<open>js/core/protocol/src/trust\<close>: scores (\<open>trust-score.ts\<close>), the history of interactions
  (\<open>interaction-history.ts\<close>), endorsements (\<open>endorsement.ts\<close>), Sybil defence (\<open>sybil-defense.ts\<close>) and their composition
  (\<open>index.ts\<close>). The clock is the argument \<open>now\<close>; the two databases are values of a \<open>level_ops\<close> parameter; SHA-256 and
  the signatures are functions. Fractions are rational numbers.
\<close>

section \<open>Scores\<close>

datatype trust_status = StUnknown | StKnown | StSuspicious | StBlocked | StAllowed

record trust_score =
  tr_interactionScore :: rat
  tr_endorsements :: int
  tr_endorsementScore :: rat
  tr_completionRate :: rat
  tr_responseTime :: rat
  tr_uptime :: rat
  tr_lastUpdated :: msec
  tr_totalInteractions :: nat
  tr_recentSuccessRate :: rat
  tr_status :: trust_status

datatype interaction_type = MessageInteraction | TaskInteraction | QueryInteraction

record interaction =
  ia_agentDid :: did
  ia_timestamp :: msec
  ia_type :: interaction_type
  ia_success :: bool
  ia_responseTime :: rat
  ia_rating :: "rat option"
  ia_feedback :: "string option"
  ia_failureReason :: "string option"

record interaction_stats =
  is_totalInteractions :: nat
  is_successRate :: rat
  is_recentSuccessRate :: rat
  is_avgResponseTime :: rat
  is_lastInteraction :: msec

definition deriveStatus :: "interaction_stats \<Rightarrow> trust_status" where
  "deriveStatus stats =
     (if is_totalInteractions stats = 0 then StUnknown
      else if is_totalInteractions stats \<ge> 10 \<and> 1 - is_recentSuccessRate stats > 1/2 then StSuspicious
      else StKnown)"

definition calculateScore :: "msec \<Rightarrow> interaction_stats \<Rightarrow> rat \<Rightarrow> rat \<Rightarrow> trust_score" where
  "calculateScore now stats endorsementScore uptime =
     (let maturityWeight = min (of_nat (is_totalInteractions stats) / 50) 1
      in \<lparr>tr_interactionScore = is_successRate stats * maturityWeight, tr_endorsements = 0, tr_endorsementScore = endorsementScore,
          tr_completionRate = is_successRate stats, tr_responseTime = is_avgResponseTime stats, tr_uptime = uptime, tr_lastUpdated = now,
          tr_totalInteractions = is_totalInteractions stats, tr_recentSuccessRate = is_recentSuccessRate stats, tr_status = deriveStatus stats\<rparr>)"

definition calculateOverallTrust :: "trust_score \<Rightarrow> rat" where
  "calculateOverallTrust score = tr_interactionScore score * (6/10) + tr_endorsementScore score * (4/10)"

datatype trust_level = LevelNew | LevelLow | LevelMedium | LevelHigh | LevelTrusted

definition getTrustLevel :: "trust_score \<Rightarrow> trust_level" where
  "getTrustLevel score = (let overall = calculateOverallTrust score in
     if tr_totalInteractions score = 0 then LevelNew else if overall < 3/10 then LevelLow else if overall < 6/10 then LevelMedium
     else if overall < 8/10 then LevelHigh else LevelTrusted)"

definition shouldRateLimit :: "trust_score \<Rightarrow> int \<Rightarrow> bool" where
  "shouldRateLimit score agentAge = (let overall = calculateOverallTrust score in
     (agentAge < 24 * 60 * 60 * 1000 \<and> overall < 3/10) \<or> overall < 1/10)"

definition createDefaultTrustScore :: "msec \<Rightarrow> trust_score" where
  "createDefaultTrustScore now = \<lparr>tr_interactionScore = 0, tr_endorsements = 0, tr_endorsementScore = 0, tr_completionRate = 0, tr_responseTime = 0,
     tr_uptime = 0, tr_lastUpdated = now, tr_totalInteractions = 0, tr_recentSuccessRate = 1, tr_status = StUnknown\<rparr>"

section \<open>The history of interactions\<close>

definition interaction_prefix :: "did \<Rightarrow> string" where
  "interaction_prefix did = ''interaction:'' @ did @ '':''"

definition interaction_key :: "interaction \<Rightarrow> string" where
  "interaction_key i = interaction_prefix (ia_agentDid i) @ js_show_int (ia_timestamp i)"

definition recordInHistory :: "('d, interaction) level_ops \<Rightarrow> interaction \<Rightarrow> 'd \<Rightarrow> 'd" where
  "recordInHistory ops i db = lv_put ops (interaction_key i) i db"

definition getHistory :: "('d, interaction) level_ops \<Rightarrow> did \<Rightarrow> nat \<Rightarrow> 'd \<Rightarrow> interaction list" where
  "getHistory ops did limit db = map snd (take limit (rev (lv_range ops (interaction_prefix did) (interaction_prefix did @ js_ff) db)))"

definition successes :: "interaction list \<Rightarrow> nat" where
  "successes is = length (filter ia_success is)"

definition getStats :: "('d, interaction) level_ops \<Rightarrow> did \<Rightarrow> 'd \<Rightarrow> interaction_stats" where
  "getStats ops did db = (let hist = getHistory ops did 1000 db; recent = take 20 hist in
     if hist = [] then \<lparr>is_totalInteractions = 0, is_successRate = 0, is_recentSuccessRate = 1, is_avgResponseTime = 0, is_lastInteraction = 0\<rparr>
     else \<lparr>is_totalInteractions = length hist, is_successRate = of_nat (successes hist) / of_nat (length hist),
           is_recentSuccessRate = of_nat (successes recent) / of_nat (length recent),
           is_avgResponseTime = sum_list (map ia_responseTime hist) / of_nat (length hist), is_lastInteraction = ia_timestamp (hd hist)\<rparr>)"

text \<open>\<open>lastIndexOf\<close>, the agent of a key, and the agents in the order of their first key.\<close>

definition last_colon :: "string \<Rightarrow> int" where
  "last_colon s = int (length s) - 1 - int (length (takeWhile (\<lambda>c. c \<noteq> CHR '':'') (rev s)))"

definition agent_of_key :: "string \<Rightarrow> did option" where
  "agent_of_key key = (let pre = ''interaction:'' in
     if \<not> js_startsWith key pre \<or> last_colon key \<le> int (length pre) then None
     else Some (drop (length pre) (take (nat (last_colon key)) key)))"

definition getAllAgents :: "('d, interaction) level_ops \<Rightarrow> 'd \<Rightarrow> did list" where
  "getAllAgents ops db = js_unique (List.map_filter (\<lambda>kv. agent_of_key (fst kv)) (lv_iter ops db))"

definition deleteAgent :: "('d, interaction) level_ops \<Rightarrow> did \<Rightarrow> 'd \<Rightarrow> 'd" where
  "deleteAgent ops did db = fold (lv_del ops) (map fst (lv_range ops (interaction_prefix did) (interaction_prefix did @ js_ff) db)) db"

definition HISTORY_MAX_AGE :: int where "HISTORY_MAX_AGE = 90 * 24 * 60 * 60 * 1000"

definition cleanupHistory :: "('d, interaction) level_ops \<Rightarrow> msec \<Rightarrow> int \<Rightarrow> 'd \<Rightarrow> nat \<times> 'd" where
  "cleanupHistory ops now maxAge db = (let ks = map fst (filter (\<lambda>kv. ia_timestamp (snd kv) < now - maxAge) (lv_iter ops db))
     in (length ks, fold (lv_del ops) ks db))"

section \<open>Sybil defence\<close>

record challenge =
  ch_did :: did
  ch_difficulty :: int
  ch_nonce :: string
  ch_timestamp :: msec

record rate_record =
  rl_requests :: "msec list"
  rl_firstSeen :: msec

record sybil =
  rateLimits :: "(did, rate_record) jsmap"
  peerFirstSeen :: "(did, msec) jsmap"

definition empty_sybil :: sybil where
  "empty_sybil = \<lparr>rateLimits = [], peerFirstSeen = []\<rparr>"

definition NEW_AGENT_WINDOW :: int where "NEW_AGENT_WINDOW = 24 * 60 * 60 * 1000"
definition RATE_LIMIT_WINDOW :: int where "RATE_LIMIT_WINDOW = 60 * 60 * 1000"
definition MAX_REQUESTS_NEW :: nat where "MAX_REQUESTS_NEW = 10"
definition ESTABLISHED_THRESHOLD :: int where "ESTABLISHED_THRESHOLD = 7 * 24 * 60 * 60 * 1000"

definition generateNonce :: "bytes \<Rightarrow> string" where
  "generateNonce rnd = bytesToHex rnd"

definition generateChallenge :: "msec \<Rightarrow> bytes \<Rightarrow> did \<Rightarrow> int \<Rightarrow> challenge" where
  "generateChallenge now rnd did difficulty = \<lparr>ch_did = did, ch_difficulty = difficulty, ch_nonce = generateNonce rnd, ch_timestamp = now\<rparr>"

text \<open>The loop over the bits of a byte that is not 0: \<open>b <<= 1\<close> on a 32-bit number until bit 7 is set. Bit 7 of 0
  never is, so the loop is a partial function; it is only run on other bytes.\<close>

partial_function (option) bit_loop :: "nat \<Rightarrow> 32 word \<Rightarrow> nat option" where
  "bit_loop n b = (if and b 0x80 \<noteq> 0 then Some n else bit_loop (n + 1) (push_bit 1 b))"

fun zero_bits_from :: "nat \<Rightarrow> bytes \<Rightarrow> nat option" where
  "zero_bits_from n [] = Some n"
| "zero_bits_from n (b # bs) = (if b = 0 then zero_bits_from (n + 8) bs else bit_loop n (ucast b))"

definition countLeadingZeroBits :: "bytes \<Rightarrow> nat option" where
  "countLeadingZeroBits hash = zero_bits_from 0 hash"

definition challenge_data :: "challenge \<Rightarrow> string \<Rightarrow> bytes" where
  "challenge_data c solution = utf8ToBytes (ch_did c @ '':'' @ ch_nonce c @ '':'' @ solution)"

definition verifyChallenge :: "(bytes \<Rightarrow> bytes) \<Rightarrow> msec \<Rightarrow> challenge \<Rightarrow> string \<Rightarrow> bool" where
  "verifyChallenge sha256 now c solution =
     (if now - ch_timestamp c > 60 * 60 * 1000 then False
      else case countLeadingZeroBits (sha256 (challenge_data c solution)) of Some n \<Rightarrow> int n \<ge> ch_difficulty c | None \<Rightarrow> False)"

definition sybilRateLimited :: "msec \<Rightarrow> did \<Rightarrow> sybil \<Rightarrow> bool" where
  "sybilRateLimited now did s = (case jm_get (rateLimits s) did of None \<Rightarrow> False
     | Some r \<Rightarrow> if now - rl_firstSeen r > NEW_AGENT_WINDOW then False
        else length (filter (\<lambda>t. now - t < RATE_LIMIT_WINDOW) (rl_requests r)) \<ge> MAX_REQUESTS_NEW)"

definition recordRequest :: "msec \<Rightarrow> did \<Rightarrow> sybil \<Rightarrow> sybil" where
  "recordRequest now did s =
     (let r = (case jm_get (rateLimits s) did of Some r \<Rightarrow> r | None \<Rightarrow> \<lparr>rl_requests = [], rl_firstSeen = now\<rparr>)
      in s\<lparr>rateLimits := jm_set did (r\<lparr>rl_requests := filter (\<lambda>t. now - t < RATE_LIMIT_WINDOW) (rl_requests r @ [now])\<rparr>) (rateLimits s)\<rparr>)"

datatype peer_trust_level = PeerNew | PeerEstablished | PeerTrusted

definition sybilPeerTrustLevel :: "msec \<Rightarrow> string \<Rightarrow> sybil \<Rightarrow> peer_trust_level" where
  "sybilPeerTrustLevel now peer s = (case jm_get (peerFirstSeen s) peer of None \<Rightarrow> PeerNew
     | Some first \<Rightarrow> if first = 0 then PeerNew else (let age = now - first in
         if age < NEW_AGENT_WINDOW then PeerNew else if age < ESTABLISHED_THRESHOLD then PeerEstablished else PeerTrusted))"

definition sybilRecordPeerSeen :: "msec \<Rightarrow> string \<Rightarrow> sybil \<Rightarrow> sybil" where
  "sybilRecordPeerSeen now peer s = (if jm_has (peerFirstSeen s) peer then s else s\<lparr>peerFirstSeen := jm_set peer now (peerFirstSeen s)\<rparr>)"

definition cleanupSybil :: "msec \<Rightarrow> sybil \<Rightarrow> sybil" where
  "cleanupSybil now s = s\<lparr>rateLimits := filter (\<lambda>kv. \<not> rl_firstSeen (snd kv) < now - NEW_AGENT_WINDOW) (rateLimits s)\<rparr>"

section \<open>Endorsements\<close>

record endorsement_v1 =
  e1_from :: did
  e1_to :: did
  e1_score :: rat
  e1_reason :: string
  e1_timestamp :: msec
  e1_signature :: string

definition FAST_DOMAINS :: "string list" where "FAST_DOMAINS = [''translation'', ''transcription'', ''data-entry'', ''moderation'']"
definition SLOW_DOMAINS :: "string list" where "SLOW_DOMAINS = [''research'', ''architecture'', ''security-audit'', ''legal-review'']"

text \<open>In days.\<close>

definition getDefaultExpiration :: "string option \<Rightarrow> int" where
  "getDefaultExpiration domain = (case given_string domain of None \<Rightarrow> 180
     | Some d \<Rightarrow> if d \<in> set FAST_DOMAINS then 90 else if d \<in> set SLOW_DOMAINS then 365 else 180)"

text \<open>\<open>/^[a-z0-9]+(-[a-z0-9]+)*$/\<close>: the parts between the hyphens are not empty.\<close>

definition domain_char :: "char \<Rightarrow> bool" where
  "domain_char c \<longleftrightarrow> (CHR ''a'' \<le> c \<and> c \<le> CHR ''z'') \<or> (CHR ''0'' \<le> c \<and> c \<le> CHR ''9'')"

definition validateDomain :: "string \<Rightarrow> bool" where
  "validateDomain domain \<longleftrightarrow> list_all (\<lambda>part. part \<noteq> [] \<and> list_all domain_char part) (js_split CHR ''-'' domain) \<and> length domain \<le> 64"

definition endorsement_v1_fields :: "endorsement_v1 \<Rightarrow> (string \<times> json) list" where
  "endorsement_v1_fields e = [(''from'', JStr (e1_from e)), (''to'', JStr (e1_to e)), (''score'', JNum (e1_score e)), (''reason'', JStr (e1_reason e)),
     (''timestamp'', JNum (of_int (e1_timestamp e)))]"

definition endorsement_v2_fields :: "endorsement \<Rightarrow> (string \<times> json) list" where
  "endorsement_v2_fields e = [(''version'', JNum (of_int (en_version e))), (''from'', JStr (en_from e)), (''to'', JStr (en_to e)), (''score'', JNum (en_score e))]
     @ opt_field ''domain'' (en_domain e) @ [(''reason'', JStr (en_reason e)), (''timestamp'', JNum (of_int (en_timestamp e)))]
     @ (case en_expires e of None \<Rightarrow> [] | Some t \<Rightarrow> [(''expires'', JNum (of_int t))])"

text \<open>\<open>expires || defaultExpires\<close>.\<close>

definition given_time :: "msec option \<Rightarrow> msec \<Rightarrow> msec" where
  "given_time t d = (case t of Some x \<Rightarrow> if x = 0 then d else x | None \<Rightarrow> d)"

definition endorseV2 :: "json_text \<Rightarrow> msec \<Rightarrow> (bytes \<Rightarrow> e2e_error + bytes) \<Rightarrow> did \<Rightarrow> did \<Rightarrow> rat \<Rightarrow> string \<Rightarrow> string option \<Rightarrow> msec option
    \<Rightarrow> e2e_error + endorsement" where
  "endorseV2 j now signFn fromId toId score reason domain expires =
     (if score < 0 \<or> score > 1 then Inl (JsError ''Score must be between 0 and 1'')
      else if (case given_string domain of Some d \<Rightarrow> \<not> validateDomain d | None \<Rightarrow> False)
        then Inl (JsError ''Invalid domain format. Must match ^[a-z0-9]+(-[a-z0-9]+)*$ and be <= 64 chars'')
      else let defaultExpires = now + getDefaultExpiration domain * 24 * 60 * 60 * 1000;
               e = \<lparr>en_version = 2, en_from = fromId, en_to = toId, en_score = score, en_domain = domain, en_reason = reason, en_timestamp = now,
                    en_expires = Some (given_time expires defaultExpires), en_signature = []\<rparr>
           in and_then (signFn (json_encode j (JObj (endorsement_v2_fields e)))) (\<lambda>sig. Inr (e\<lparr>en_signature := bytesToHex sig\<rparr>)))"

definition endorse_v1 :: "json_text \<Rightarrow> msec \<Rightarrow> (bytes \<Rightarrow> e2e_error + bytes) \<Rightarrow> did \<Rightarrow> did \<Rightarrow> rat \<Rightarrow> string \<Rightarrow> e2e_error + endorsement_v1" where
  "endorse_v1 j now signFn fromId toId score reason =
     (if score < 0 \<or> score > 1 then Inl (JsError ''Score must be between 0 and 1'')
      else let e = \<lparr>e1_from = fromId, e1_to = toId, e1_score = score, e1_reason = reason, e1_timestamp = now, e1_signature = []\<rparr>
           in and_then (signFn (json_encode j (JObj (endorsement_v1_fields e)))) (\<lambda>sig. Inr (e\<lparr>e1_signature := bytesToHex sig\<rparr>)))"

text \<open>\<open>catch\<close>: every error is \<open>false\<close>.\<close>

definition no_error :: "e2e_error + bool \<Rightarrow> bool" where
  "no_error r = (case r of Inl _ \<Rightarrow> False | Inr b \<Rightarrow> b)"

definition verifyV2 :: "json_text \<Rightarrow> (did \<Rightarrow> e2e_error + bytes) \<Rightarrow> (bytes \<Rightarrow> bytes \<Rightarrow> bytes \<Rightarrow> e2e_error + bool) \<Rightarrow> endorsement \<Rightarrow> bool" where
  "verifyV2 j getPublicKey verifyFn e = no_error (and_then (getPublicKey (en_from e)) (\<lambda>key.
     verifyFn (hexToBytes (en_signature e)) (json_encode j (JObj (endorsement_v2_fields e))) key))"

definition verify_v1 :: "json_text \<Rightarrow> (did \<Rightarrow> e2e_error + bytes) \<Rightarrow> (bytes \<Rightarrow> bytes \<Rightarrow> bytes \<Rightarrow> e2e_error + bool) \<Rightarrow> endorsement_v1 \<Rightarrow> bool" where
  "verify_v1 j getPublicKey verifyFn e = no_error (and_then (getPublicKey (e1_from e)) (\<lambda>key.
     verifyFn (hexToBytes (e1_signature e)) (json_encode j (JObj (endorsement_v1_fields e))) key))"

definition upgradeEndorsement :: "endorsement_v1 \<Rightarrow> endorsement" where
  "upgradeEndorsement e = \<lparr>en_version = 2, en_from = e1_from e, en_to = e1_to e, en_score = e1_score e, en_domain = None, en_reason = e1_reason e,
     en_timestamp = e1_timestamp e, en_expires = Some (e1_timestamp e + 90 * 24 * 60 * 60 * 1000), en_signature = e1_signature e\<rparr>"

definition endorsement_prefix :: "did \<Rightarrow> string" where
  "endorsement_prefix did = ''endorsement:'' @ did @ '':''"

definition publishEndorsement :: "('e, endorsement_v1) level_ops \<Rightarrow> endorsement_v1 \<Rightarrow> 'e \<Rightarrow> 'e" where
  "publishEndorsement ops e db = lv_put ops (endorsement_prefix (e1_to e) @ e1_from e) e db"

definition getEndorsementsFor :: "('e, endorsement_v1) level_ops \<Rightarrow> did \<Rightarrow> 'e \<Rightarrow> endorsement_v1 list" where
  "getEndorsementsFor ops did db = map snd (lv_range ops (endorsement_prefix did) (endorsement_prefix did @ js_ff) db)"

definition getEndorsementsBy :: "('e, endorsement_v1) level_ops \<Rightarrow> did \<Rightarrow> 'e \<Rightarrow> endorsement_v1 list" where
  "getEndorsementsBy ops did db = filter (\<lambda>e. e1_from e = did) (map snd (lv_iter ops db))"

definition average :: "rat list \<Rightarrow> rat" where
  "average xs = (if xs = [] then 0 else sum_list xs / of_nat (length xs))"

definition getAverageScore :: "('e, endorsement_v1) level_ops \<Rightarrow> did \<Rightarrow> 'e \<Rightarrow> rat" where
  "getAverageScore ops did db = average (map e1_score (getEndorsementsFor ops did db))"

definition deleteEndorsement :: "('e, endorsement_v1) level_ops \<Rightarrow> did \<Rightarrow> did \<Rightarrow> 'e \<Rightarrow> 'e" where
  "deleteEndorsement ops fromId toId db = lv_del ops (endorsement_prefix toId @ fromId) db"

text \<open>What a relay answers to a trust query, filled in.\<close>

definition queryFromRelay :: "endorsement list \<Rightarrow> nat option \<Rightarrow> rat option \<Rightarrow> endorsement list \<times> nat \<times> rat" where
  "queryFromRelay es num avg = (es, case num of Some n \<Rightarrow> n | None \<Rightarrow> length es, case avg of Some a \<Rightarrow> a | None \<Rightarrow> average (map en_score es))"

section \<open>The trust system\<close>

record uptime_entry =
  ue_firstSeen :: msec
  ue_totalOnlineMs :: int
  ue_lastOnlineAt :: msec

record ('h, 'e) trust_system =
  sy_history :: 'h
  sy_endorsements :: 'e
  sy_sybil :: sybil
  trustCache :: "(did, trust_score \<times> msec) jsmap"
  uptimeTracker :: "(did, uptime_entry) jsmap"

definition TRUST_CACHE_TTL :: int where "TRUST_CACHE_TTL = 5 * 60 * 1000"

definition start_trust :: "'h \<Rightarrow> 'e \<Rightarrow> ('h, 'e) trust_system" where
  "start_trust h e = \<lparr>sy_history = h, sy_endorsements = e, sy_sybil = empty_sybil, trustCache = [], uptimeTracker = []\<rparr>"

definition recordInteraction :: "('h, interaction) level_ops \<Rightarrow> msec \<Rightarrow> interaction \<Rightarrow> ('h, 'e) trust_system \<Rightarrow> ('h, 'e) trust_system" where
  "recordInteraction hops now i s = s\<lparr>sy_history := recordInHistory hops i (sy_history s), sy_sybil := recordRequest now (ia_agentDid i) (sy_sybil s),
     trustCache := jm_del (ia_agentDid i) (trustCache s)\<rparr>"

definition recordOnline :: "msec \<Rightarrow> did \<Rightarrow> ('h, 'e) trust_system \<Rightarrow> ('h, 'e) trust_system" where
  "recordOnline now did s = s\<lparr>uptimeTracker := jm_set did (case jm_get (uptimeTracker s) did of
     Some e \<Rightarrow> e\<lparr>ue_lastOnlineAt := now\<rparr> | None \<Rightarrow> \<lparr>ue_firstSeen = now, ue_totalOnlineMs = 0, ue_lastOnlineAt = now\<rparr>) (uptimeTracker s)\<rparr>"

definition recordOffline :: "msec \<Rightarrow> did \<Rightarrow> ('h, 'e) trust_system \<Rightarrow> ('h, 'e) trust_system" where
  "recordOffline now did s = (case jm_get (uptimeTracker s) did of None \<Rightarrow> s
     | Some e \<Rightarrow> if ue_lastOnlineAt e > 0
         then s\<lparr>uptimeTracker := jm_set did (e\<lparr>ue_totalOnlineMs := ue_totalOnlineMs e + (now - ue_lastOnlineAt e), ue_lastOnlineAt := 0\<rparr>) (uptimeTracker s)\<rparr>
         else s)"

definition getUptime :: "msec \<Rightarrow> did \<Rightarrow> ('h, 'e) trust_system \<Rightarrow> rat" where
  "getUptime now did s = (case jm_get (uptimeTracker s) did of None \<Rightarrow> 1
     | Some e \<Rightarrow> (let totalMs = now - ue_firstSeen e in if totalMs < 60000 then 1
         else min 1 (of_int (ue_totalOnlineMs e + (if ue_lastOnlineAt e > 0 then now - ue_lastOnlineAt e else 0)) / of_int totalMs)))"

definition fresh_score :: "('h, interaction) level_ops \<Rightarrow> ('e, endorsement_v1) level_ops \<Rightarrow> msec \<Rightarrow> did \<Rightarrow> ('h, 'e) trust_system \<Rightarrow> trust_score" where
  "fresh_score hops eops now did s =
     calculateScore now (getStats hops did (sy_history s)) (average (map e1_score (getEndorsementsFor eops did (sy_endorsements s)))) (getUptime now did s)"

definition getTrustScore :: "('h, interaction) level_ops \<Rightarrow> ('e, endorsement_v1) level_ops \<Rightarrow> msec \<Rightarrow> did \<Rightarrow> ('h, 'e) trust_system
    \<Rightarrow> trust_score \<times> ('h, 'e) trust_system" where
  "getTrustScore hops eops now did s =
     (let score = fresh_score hops eops now did s; computed = (score, s\<lparr>trustCache := jm_set did (score, now) (trustCache s)\<rparr>)
      in case jm_get (trustCache s) did of
           Some (cached, t) \<Rightarrow> if now - t < TRUST_CACHE_TTL then (cached, s) else computed
         | None \<Rightarrow> computed)"

definition trust_endorse :: "json_text \<Rightarrow> ('e, endorsement_v1) level_ops \<Rightarrow> msec \<Rightarrow> (bytes \<Rightarrow> e2e_error + bytes) \<Rightarrow> did \<Rightarrow> did \<Rightarrow> rat \<Rightarrow> string
    \<Rightarrow> ('h, 'e) trust_system \<Rightarrow> e2e_error + endorsement_v1 \<times> ('h, 'e) trust_system" where
  "trust_endorse j eops now signFn fromId toId score reason s = and_then (endorse_v1 j now signFn fromId toId score reason) (\<lambda>e.
     Inr (e, s\<lparr>sy_endorsements := publishEndorsement eops e (sy_endorsements s), trustCache := jm_del toId (trustCache s)\<rparr>))"

definition isRateLimited :: "msec \<Rightarrow> did \<Rightarrow> ('h, 'e) trust_system \<Rightarrow> bool" where
  "isRateLimited now did s = sybilRateLimited now did (sy_sybil s)"

definition getPeerTrustLevel :: "msec \<Rightarrow> string \<Rightarrow> ('h, 'e) trust_system \<Rightarrow> peer_trust_level" where
  "getPeerTrustLevel now peer s = sybilPeerTrustLevel now peer (sy_sybil s)"

definition recordPeerSeen :: "msec \<Rightarrow> string \<Rightarrow> ('h, 'e) trust_system \<Rightarrow> ('h, 'e) trust_system" where
  "recordPeerSeen now peer s = s\<lparr>sy_sybil := sybilRecordPeerSeen now peer (sy_sybil s)\<rparr>"

definition resetInteractionHistory :: "('h, interaction) level_ops \<Rightarrow> did \<Rightarrow> ('h, 'e) trust_system \<Rightarrow> ('h, 'e) trust_system" where
  "resetInteractionHistory hops did s = s\<lparr>sy_history := deleteAgent hops did (sy_history s), trustCache := jm_del did (trustCache s)\<rparr>"

definition cleanupTrust :: "('h, interaction) level_ops \<Rightarrow> msec \<Rightarrow> ('h, 'e) trust_system \<Rightarrow> ('h, 'e) trust_system" where
  "cleanupTrust hops now s = s\<lparr>sy_history := snd (cleanupHistory hops now HISTORY_MAX_AGE (sy_history s)), sy_sybil := cleanupSybil now (sy_sybil s),
     trustCache := []\<rparr>"

end
