(* ===== verification/Trust_System_Props.thy ===== *)
theory Trust_System_Props
  imports Trust_System
begin

text \<open>
  Properties of the trust system: the proof of work of the Sybil defence, and the bounds of the scores of an agent over any
  history of interactions, endorsements, uptime records, resets and clean-ups.
\<close>

section \<open>Proof of work\<close>

text \<open>The bits of a byte, and of a hash, from the most significant one.\<close>

definition bits_of_byte :: "8 word \<Rightarrow> bool list" where
  "bits_of_byte b = map (\<lambda>i. bit b (7 - i)) [0..<8]"

definition bits_of :: "bytes \<Rightarrow> bool list" where
  "bits_of bs = concat (map bits_of_byte bs)"

definition leading_zeros :: "bool list \<Rightarrow> nat" where
  "leading_zeros bs = length (takeWhile Not bs)"

lemma bit7: "and w (0x80 :: 32 word) \<noteq> 0 \<longleftrightarrow> bit w 7"
proof -
  have "(0x80 :: 32 word) = push_bit 7 1" by simp
  then show ?thesis using bit_iff_and_push_bit_not_eq_0 [of w 7] by simp
qed

lemma shift_bit: "j \<le> 6 \<Longrightarrow> bit (push_bit 1 w) (7 - j) \<longleftrightarrow> bit (w :: 32 word) (7 - Suc j)"
  unfolding bit_push_bit_iff by (auto simp: le_diff_conv2)

lemma bit_loop_steps: "k \<le> 7 \<Longrightarrow> (\<forall>j < k. \<not> bit w (7 - j)) \<Longrightarrow> bit w (7 - k) \<Longrightarrow> bit_loop n w = Some (n + k)"
proof (induction k arbitrary: n w)
  case 0
  then show ?case by (subst bit_loop.simps) (simp add: bit7)
next
  case (Suc k)
  have "\<not> bit w 7" using Suc.prems(2) by (metis diff_zero zero_less_Suc)
  moreover have "bit_loop (n + 1) (push_bit 1 w) = Some (n + 1 + k)"
  proof (rule Suc.IH)
    show "\<forall>j < k. \<not> bit (push_bit 1 w) (7 - j)"
    proof (intro allI impI)
      fix j assume "j < k"
      then have "\<not> bit w (7 - Suc j)" using Suc.prems(2) by blast
      moreover have "j \<le> 6" using \<open>j < k\<close> Suc.prems(1) by simp
      ultimately show "\<not> bit (push_bit 1 w) (7 - j)" by (simp only: shift_bit not_False_eq_True)
    qed
    have "k \<le> 6" using Suc.prems(1) by simp
    then show "bit (push_bit 1 w) (7 - k)" using Suc.prems(3) shift_bit [of k w] by blast
  qed (use Suc.prems(1) in simp)
  ultimately show ?case by (subst bit_loop.simps) (simp add: bit7)
qed

lemma leading_zeros_nth:
  "k < length bs \<Longrightarrow> (\<forall>j < k. \<not> bs ! j) \<Longrightarrow> bs ! k \<Longrightarrow> leading_zeros (bs @ rest) = k"
proof (induction bs arbitrary: k)
  case (Cons b bs)
  then show ?case
  proof (cases k)
    case (Suc k')
    then have "\<not> b" "\<forall>j < k'. \<not> bs ! j" using Cons.prems(2) by force+
    with Cons Suc show ?thesis by (simp add: leading_zeros_def)
  qed (simp add: leading_zeros_def)
qed simp

lemma leading_zeros_replicate: "leading_zeros (replicate n False @ bs) = n + leading_zeros bs"
  by (induction n) (simp_all add: leading_zeros_def)

lemma byte_bits_nth: "j < 8 \<Longrightarrow> bits_of_byte b ! j = bit b (7 - j)"
  by (simp add: bits_of_byte_def)

lemma zero_bits_from_exact: "zero_bits_from n bs = Some (n + leading_zeros (bits_of bs))"
proof (induction bs arbitrary: n)
  case (Cons b bs)
  show ?case
  proof (cases "b = 0")
    case True
    have "bits_of_byte 0 = replicate 8 False" by (simp add: bits_of_byte_def map_replicate_const)
    then have "leading_zeros (bits_of (b # bs)) = 8 + leading_zeros (bits_of bs)"
      using True by (simp add: bits_of_def leading_zeros_replicate)
    with True Cons show ?thesis by simp
  next
    case False
    then obtain i where i: "bit b i" using bit_eq_iff [of b 0] by auto
    then have "i \<le> 7" using bit_imp_le_length [OF i] by simp
    define k where "k = (LEAST k. bit b (7 - k))"
    have ex: "bit b (7 - (7 - i))" using i \<open>i \<le> 7\<close> by simp
    have k: "bit b (7 - k)" "k \<le> 7" using LeastI [of "\<lambda>k. bit b (7 - k)", OF ex] Least_le [of "\<lambda>k. bit b (7 - k)", OF ex] by (auto simp: k_def)
    have least: "\<forall>j < k. \<not> bit b (7 - j)" using not_less_Least by (auto simp: k_def)
    have "bit_loop n (ucast b) = Some (n + k)" by (rule bit_loop_steps) (use k least in \<open>auto simp: bit_ucast_iff\<close>)
    moreover have "leading_zeros (bits_of_byte b @ bits_of bs) = k"
      by (rule leading_zeros_nth) (use k least in \<open>auto simp: bits_of_byte_def byte_bits_nth\<close>)
    ultimately show ?thesis using False by (simp add: bits_of_def)
  qed
qed (simp add: bits_of_def leading_zeros_def)

section \<open>Histories of the trust system\<close>

datatype trust_op =
    RecordOp interaction | OnlineOp did | OfflineOp did | ScoreOp did
  | EndorseOp "bytes \<Rightarrow> e2e_error + bytes" did did rat string | ResetOp did | CleanupOp | PeerSeenOp string

definition trust_apply :: "json_text \<Rightarrow> ('h, interaction) level_ops \<Rightarrow> ('e, endorsement_v1) level_ops \<Rightarrow> msec \<Rightarrow> trust_op \<Rightarrow> ('h, 'e) trust_system
    \<Rightarrow> trust_score option \<times> ('h, 'e) trust_system" where
  "trust_apply j hops eops now op s = (case op of
     RecordOp i \<Rightarrow> (None, recordInteraction hops now i s)
   | OnlineOp d \<Rightarrow> (None, recordOnline now d s)
   | OfflineOp d \<Rightarrow> (None, recordOffline now d s)
   | ScoreOp d \<Rightarrow> apfst Some (getTrustScore hops eops now d s)
   | EndorseOp signFn a b score reason \<Rightarrow> (None, case trust_endorse j eops now signFn a b score reason s of Inl _ \<Rightarrow> s | Inr (e, s') \<Rightarrow> s')
   | ResetOp d \<Rightarrow> (None, resetInteractionHistory hops d s)
   | CleanupOp \<Rightarrow> (None, cleanupTrust hops now s)
   | PeerSeenOp p \<Rightarrow> (None, recordPeerSeen now p s))"

fun trust_run :: "json_text \<Rightarrow> ('h, interaction) level_ops \<Rightarrow> ('e, endorsement_v1) level_ops \<Rightarrow> (msec \<times> trust_op) list \<Rightarrow> ('h, 'e) trust_system
    \<Rightarrow> trust_score list \<times> ('h, 'e) trust_system" where
  "trust_run j hops eops [] s = ([], s)"
| "trust_run j hops eops ((now, op) # ops) s =
     (let (r, s') = trust_apply j hops eops now op s; (rs, s'') = trust_run j hops eops ops s' in ((case r of Some x \<Rightarrow> [x] | None \<Rightarrow> []) @ rs, s''))"

definition unit :: "rat \<Rightarrow> bool" where
  "unit x \<longleftrightarrow> 0 \<le> x \<and> x \<le> 1"

definition score_bounded :: "trust_score \<Rightarrow> bool" where
  "score_bounded t \<longleftrightarrow> unit (tr_interactionScore t) \<and> unit (tr_endorsementScore t) \<and> unit (tr_completionRate t) \<and> unit (tr_recentSuccessRate t)
     \<and> unit (tr_uptime t) \<and> unit (calculateOverallTrust t)"

definition entry_ok :: "msec \<Rightarrow> uptime_entry \<Rightarrow> bool" where
  "entry_ok now e \<longleftrightarrow> 0 \<le> ue_totalOnlineMs e \<and> ue_lastOnlineAt e \<le> now \<and> ue_firstSeen e \<le> now"

definition trust_ok :: "('e, endorsement_v1) level_ops \<Rightarrow> msec \<Rightarrow> ('h, 'e) trust_system \<Rightarrow> bool" where
  "trust_ok eops now s \<longleftrightarrow> (\<forall>k e. lv_get eops (sy_endorsements s) k = Some e \<longrightarrow> unit (e1_score e))
     \<and> (\<forall>d t c. jm_get (trustCache s) d = Some (t, c) \<longrightarrow> score_bounded t) \<and> (\<forall>d e. jm_get (uptimeTracker s) d = Some e \<longrightarrow> entry_ok now e)"

lemma average_unit: "(\<forall>x \<in> set xs. unit x) \<Longrightarrow> unit (average xs)"
proof -
  assume u: "\<forall>x \<in> set xs. unit x"
  have "0 \<le> sum_list xs \<and> sum_list xs \<le> of_nat (length xs)"
    using u by (induction xs) (auto simp: unit_def)
  then show ?thesis by (auto simp: average_def unit_def divide_le_eq)
qed

lemma ratio_unit: "length ys \<le> length xs \<Longrightarrow> unit (of_nat (length ys) / of_nat (length xs))"
  by (cases "length xs = 0") (auto simp: unit_def divide_le_eq)

lemma stats_unit: "unit (is_successRate (getStats ops d db))" "unit (is_recentSuccessRate (getStats ops d db))"
proof -
  have "unit (of_nat (successes h) / of_nat (length h))" for h
    unfolding successes_def by (rule ratio_unit) simp
  note h = this
  show "unit (is_successRate (getStats ops d db))" "unit (is_recentSuccessRate (getStats ops d db))"
    using h [of "getHistory ops d 1000 db"] h [of "take 20 (getHistory ops d 1000 db)"]
    by (cases "getHistory ops d 1000 db = []"; simp add: getStats_def Let_def unit_def del: length_take)+
qed

lemma uptime_unit: "(\<forall>e. jm_get (uptimeTracker s) d = Some e \<longrightarrow> entry_ok now e) \<Longrightarrow> unit (getUptime now d s)"
  by (auto simp: getUptime_def unit_def entry_ok_def Let_def min_def intro!: divide_nonneg_nonneg split: option.splits)

lemma calculate_bounded:
  assumes "unit (is_successRate st)" "unit (is_recentSuccessRate st)" "unit e" "unit u"
  shows "score_bounded (calculateScore now st e u)"
proof -
  let ?w = "min (of_nat (is_totalInteractions st) / 50) 1 :: rat"
  have w: "0 \<le> ?w" "?w \<le> 1" by auto
  have i: "unit (is_successRate st * ?w)" using assms(1) w by (auto simp: unit_def intro: mult_le_one)
  have "0 \<le> is_successRate st * ?w * (6/10) + e * (4/10)" "is_successRate st * ?w * (6/10) + e * (4/10) \<le> 1"
    using i assms(3) by (auto simp: unit_def)
  with i assms show ?thesis by (simp add: score_bounded_def calculateScore_def calculateOverallTrust_def unit_def)
qed


lemma trust_ok_later: "trust_ok eops now s \<Longrightarrow> now \<le> now' \<Longrightarrow> trust_ok eops now' s"
  unfolding trust_ok_def entry_ok_def by (meson order_trans)

context level_store
begin

lemma average_endorsements: "\<forall>k e. lv_get ops db k = Some e \<longrightarrow> unit (f e) \<Longrightarrow> unit (average (map f (map snd (lv_range ops lo hi db))))"
  by (rule average_unit) (auto simp: range_mem)

end

lemma getScore_ok:
  assumes "level_store eops" "trust_ok eops now s"
  shows "score_bounded (fst (getTrustScore hops eops now d s))" "trust_ok eops now (snd (getTrustScore hops eops now d s))"
proof -
  have e: "unit (average (map e1_score (getEndorsementsFor eops d (sy_endorsements s))))"
    using level_store.average_endorsements [OF assms(1)] assms(2) by (simp add: trust_ok_def getEndorsementsFor_def)
  have u: "unit (getUptime now d s)" by (rule uptime_unit) (use assms(2) in \<open>simp add: trust_ok_def\<close>)
  have f: "score_bounded (fresh_score hops eops now d s)"
    unfolding fresh_score_def by (rule calculate_bounded [OF stats_unit e u])
  have c: "score_bounded t" if "jm_get (trustCache s) d = Some (t, c)" for t c
    using assms(2) that unfolding trust_ok_def by blast
  show "score_bounded (fst (getTrustScore hops eops now d s))"
    using f by (auto simp: getTrustScore_def Let_def dest: c split: option.split)
  show "trust_ok eops now (snd (getTrustScore hops eops now d s))"
    using assms(2) f by (auto simp: getTrustScore_def trust_ok_def Let_def split: option.split)
qed

lemma endorse_ok:
  assumes "level_store eops" "trust_ok eops now s" "trust_endorse j eops now signFn a b score reason s = Inr (e, s')"
  shows "trust_ok eops now s'"
proof -
  have e: "unit (e1_score e)" and s': "s' = s\<lparr>sy_endorsements := publishEndorsement eops e (sy_endorsements s), trustCache := jm_del b (trustCache s)\<rparr>"
    using assms(3) by (auto simp: trust_endorse_def endorse_v1_def Let_def unit_def and_then_def split: if_splits sum.splits)
  show ?thesis
    using assms(2) e level_store.get_put [OF assms(1)] by (auto simp: s' trust_ok_def publishEndorsement_def)
qed

lemma trust_apply_ok:
  assumes "level_store eops" "trust_ok eops now s" "0 < now"
  shows "trust_ok eops now (snd (trust_apply j hops eops now op s))"
    "fst (trust_apply j hops eops now op s) = Some r \<Longrightarrow> score_bounded r"
proof -
  have "trust_ok eops now (snd (trust_apply j hops eops now op s)) \<and> (\<forall>r. fst (trust_apply j hops eops now op s) = Some r \<longrightarrow> score_bounded r)"
  proof (cases op)
    case (ScoreOp d)
    then show ?thesis using getScore_ok [OF assms(1,2), of hops d] by (auto simp: trust_apply_def apfst_def map_prod_def split: prod.split)
  next
    case (EndorseOp signFn a b score reason)
    then show ?thesis using assms(2) endorse_ok [OF assms(1,2)] by (auto simp: trust_apply_def split: sum.split)
  qed (use assms(2,3) in \<open>auto simp: trust_apply_def trust_ok_def recordInteraction_def recordOnline_def recordOffline_def resetInteractionHistory_def
      cleanupTrust_def recordPeerSeen_def entry_ok_def split: option.split\<close>)
  then show "trust_ok eops now (snd (trust_apply j hops eops now op s))"
    "fst (trust_apply j hops eops now op s) = Some r \<Longrightarrow> score_bounded r" by auto
qed

lemma trust_run_ok:
  assumes "level_store eops"
  shows "trust_ok eops t0 s \<Longrightarrow> 0 < t0 \<Longrightarrow> sorted (t0 # map fst ops) \<Longrightarrow> list_all score_bounded (fst (trust_run j hops eops ops s))"
proof (induction ops arbitrary: t0 s)
  case (Cons p ops)
  obtain now op where p: "p = (now, op)" by (cases p)
  have n: "t0 \<le> now" "0 < now" "sorted (now # map fst ops)" using Cons.prems p by auto
  obtain r s' where a: "trust_apply j hops eops now op s = (r, s')" by fastforce
  have ok: "trust_ok eops now s'" "\<And>x. r = Some x \<Longrightarrow> score_bounded x"
    using trust_apply_ok [OF assms trust_ok_later [OF Cons.prems(1) n(1)] n(2), of j hops op] a by auto
  have "list_all score_bounded (fst (trust_run j hops eops ops s'))" by (rule Cons.IH [OF ok(1) n(2,3)])
  with ok(2) show ?case by (auto simp: p a split: option.split prod.split)
qed simp

section \<open>Properties\<close>

text \<open>A solution of a challenge is accepted exactly if it is not older than an hour and the bits of the SHA-256 digest of
  \<open>did:nonce:solution\<close> begin with at least \<open>difficulty\<close> zeros: the byte and bit loops of \<open>countLeadingZeroBits\<close> end on every
  digest and count the zeros before the first one.\<close>

theorem challenge_zero_bits:
  "countLeadingZeroBits hash = Some (leading_zeros (bits_of hash))
   \<and> (verifyChallenge sha256 now c solution \<longleftrightarrow> now - ch_timestamp c \<le> 60 * 60 * 1000
        \<and> ch_difficulty c \<le> int (leading_zeros (bits_of (sha256 (challenge_data c solution)))))"
  by (auto simp: verifyChallenge_def countLeadingZeroBits_def zero_bits_from_exact)

text \<open>Over any history of interactions, uptime records, endorsements, resets, clean-ups and queries, with a clock that does
  not go back, every score the trust system returns, from the cache or computed, has its parts and its overall trust between 0
  and 1, whatever scores the endorsers ask for.\<close>

theorem trust_scores_unit:
  assumes "level_store eops" "0 < t0" "sorted (t0 # map fst ops)" "\<forall>k. lv_get eops e0 k = None"
  shows "list_all score_bounded (fst (trust_run j hops eops ops (start_trust h0 e0)))"
  by (rule trust_run_ok [OF assms(1) _ assms(2,3)]) (use assms(4) in \<open>simp add: trust_ok_def start_trust_def\<close>)

definition sample_interaction :: "msec \<Rightarrow> bool \<Rightarrow> interaction" where
  "sample_interaction t ok = \<lparr>ia_agentDid = ''b'', ia_timestamp = t, ia_type = TaskInteraction, ia_success = ok, ia_responseTime = 20, ia_rating = None,
     ia_feedback = None, ia_failureReason = None\<rparr>"

definition sample_trust_ops :: "(msec \<times> trust_op) list" where
  "sample_trust_ops = [(5, RecordOp (sample_interaction 5 True)), (6, OnlineOp ''b''), (7, EndorseOp Inr ''a'' ''b'' (3/4) ''r''),
     (8, EndorseOp Inr ''c'' ''b'' 7 ''too high''), (9, ScoreOp ''b''), (200000, OfflineOp ''b''), (300000, ResetOp ''b''), (300001, ScoreOp ''b'')]"

theorem trust_scores_unit_witness:
  "list_all score_bounded (fst (trust_run \<lparr>json_encode = (\<lambda>_. []), json_decode = (\<lambda>_. None)\<rparr> rbt_level rbt_level sample_trust_ops (start_trust RBT.empty RBT.empty)))"
  by (rule trust_scores_unit [OF rbt_level_store, of 1]) (simp_all add: sample_trust_ops_def)

end
