(* ===== verification/Trust_Computer.thy ===== *)
theory Trust_Computer
  imports Trust_System Complex_Main
begin

text \<open>
  The trust computation engine, \<open>js/core/protocol/src/trust/trust-computer.ts\<close>: the recursive weighting of endorsers, the time
  decay, and the detection of collusion with Tarjan's algorithm. Numbers with fractions are reals, so that \<open>Math.exp\<close> is
  \<open>exp\<close>. A node of the graph is a DID; its mutable fields \<open>index\<close>, \<open>lowlink\<close> and \<open>onStack\<close> are maps of the state.
\<close>

section \<open>Configuration and results\<close>

record trust_config =
  tc_seedPeers :: "did list"
  tc_maxRecursionDepth :: int
  tc_decayHalfLife :: "(string, real) jsmap"
  tc_localInteractionWeight :: real
  tc_networkEndorsementWeight :: real

record trust_result =
  tr_score :: real
  tr_localScore :: real
  tr_networkScore :: real
  tr_endorsementCount :: nat
  tr_collusionDetected :: bool
  tr_computedAt :: msec

text \<open>A partial configuration: a missing field is \<open>None\<close>, missing half-lives are an empty map.\<close>

record partial_config =
  pc_seedPeers :: "did list option"
  pc_maxRecursionDepth :: "int option"
  pc_decayHalfLife :: "(string, real) jsmap"
  pc_localInteractionWeight :: "real option"
  pc_networkEndorsementWeight :: "real option"

definition DEFAULT_CONFIG :: trust_config where
  "DEFAULT_CONFIG = \<lparr>tc_seedPeers = [], tc_maxRecursionDepth = 3,
     tc_decayHalfLife = [(''default'', 90), (''translation'', 30), (''transcription'', 30), (''data-entry'', 30), (''moderation'', 30),
       (''research'', 180), (''architecture'', 180), (''security-audit'', 180), (''legal-review'', 180)],
     tc_localInteractionWeight = 6/10, tc_networkEndorsementWeight = 4/10\<rparr>"

definition merge_config :: "trust_config \<Rightarrow> partial_config \<Rightarrow> trust_config" where
  "merge_config base p = \<lparr>tc_seedPeers = (case pc_seedPeers p of Some x \<Rightarrow> x | None \<Rightarrow> tc_seedPeers base),
     tc_maxRecursionDepth = (case pc_maxRecursionDepth p of Some x \<Rightarrow> x | None \<Rightarrow> tc_maxRecursionDepth base),
     tc_decayHalfLife = fold (\<lambda>(k, v). jm_set k v) (pc_decayHalfLife p) (tc_decayHalfLife base),
     tc_localInteractionWeight = (case pc_localInteractionWeight p of Some x \<Rightarrow> x | None \<Rightarrow> tc_localInteractionWeight base),
     tc_networkEndorsementWeight = (case pc_networkEndorsementWeight p of Some x \<Rightarrow> x | None \<Rightarrow> tc_networkEndorsementWeight base)\<rparr>"

section \<open>The endorsement graph\<close>

type_synonym trust_graph = "(did, endorsement list) jsmap"

definition graph_add :: "endorsement \<Rightarrow> trust_graph \<Rightarrow> trust_graph" where
  "graph_add e g =
     (let g1 = (if jm_has g (en_from e) then g else jm_set (en_from e) [] g);
          g2 = (if jm_has g1 (en_to e) then g1 else jm_set (en_to e) [] g1)
      in jm_modify (en_from e) (\<lambda>es. es @ [e]) g2)"

definition buildGraph :: "endorsement list \<Rightarrow> trust_graph" where
  "buildGraph es = fold graph_add es []"

definition edges_of :: "trust_graph \<Rightarrow> did \<Rightarrow> endorsement list" where
  "edges_of g v = (case jm_get g v of Some es \<Rightarrow> es | None \<Rightarrow> [])"

section \<open>Strongly connected components\<close>

record scc =
  scc_nodes :: "did list"
  scc_internalEdges :: nat
  scc_externalEdges :: nat

text \<open>The end of the array \<open>stack\<close>, where the code pushes and pops, is the head of the list.\<close>

record tarjan =
  tj_index :: "did \<Rightarrow> nat option"
  tj_lowlink :: "did \<Rightarrow> nat option"
  tj_onStack :: "did \<Rightarrow> bool"
  tj_stack :: "did list"
  tj_next :: nat
  tj_sccs :: "scc list"

definition tarjan_start :: tarjan where
  "tarjan_start = \<lparr>tj_index = (\<lambda>_. None), tj_lowlink = (\<lambda>_. None), tj_onStack = (\<lambda>_. False), tj_stack = [], tj_next = 0, tj_sccs = []\<rparr>"

definition tarjan_push :: "did \<Rightarrow> tarjan \<Rightarrow> tarjan" where
  "tarjan_push v s = s\<lparr>tj_index := (tj_index s)(v \<mapsto> tj_next s), tj_lowlink := (tj_lowlink s)(v \<mapsto> tj_next s), tj_next := tj_next s + 1,
     tj_stack := v # tj_stack s, tj_onStack := (tj_onStack s)(v := True)\<rparr>"

definition tarjan_lower :: "did \<Rightarrow> nat option \<Rightarrow> tarjan \<Rightarrow> tarjan" where
  "tarjan_lower v n s = s\<lparr>tj_lowlink := (tj_lowlink s)(v := (case (tj_lowlink s v, n) of (Some a, Some b) \<Rightarrow> Some (min a b) | (a, None) \<Rightarrow> a | (None, b) \<Rightarrow> b))\<rparr>"

text \<open>The nodes popped up to and including \<open>v\<close>, in the order in which they are popped, and the rest of the stack.\<close>

fun pop_until :: "did \<Rightarrow> did list \<Rightarrow> did list \<times> did list" where
  "pop_until v [] = ([], [])"
| "pop_until v (w # ws) = (if w = v then ([w], ws) else (let (popped, rest) = pop_until v ws in (w # popped, rest)))"

definition scc_of :: "trust_graph \<Rightarrow> did list \<Rightarrow> scc" where
  "scc_of g vs = (let es = concat (map (edges_of g) vs)
     in \<lparr>scc_nodes = vs, scc_internalEdges = length (filter (\<lambda>e. en_to e \<in> set vs) es),
         scc_externalEdges = length (filter (\<lambda>e. en_to e \<notin> set vs) es)\<rparr>)"

definition tarjan_finish :: "trust_graph \<Rightarrow> did \<Rightarrow> tarjan \<Rightarrow> tarjan" where
  "tarjan_finish g v s =
     (if tj_lowlink s v = tj_index s v
      then let (popped, rest) = pop_until v (tj_stack s)
           in s\<lparr>tj_stack := rest, tj_onStack := (\<lambda>w. tj_onStack s w \<and> w \<notin> set popped),
                tj_sccs := tj_sccs s @ (if length popped > 1 then [scc_of g popped] else [])\<rparr>
      else s)"

text \<open>The recursion is as deep as there are nodes without an index; the first argument bounds its depth.\<close>

fun strongConnect :: "nat \<Rightarrow> trust_graph \<Rightarrow> did \<Rightarrow> tarjan \<Rightarrow> tarjan option"
and visit_successors :: "nat \<Rightarrow> trust_graph \<Rightarrow> did \<Rightarrow> endorsement list \<Rightarrow> tarjan \<Rightarrow> tarjan option" where
  "strongConnect 0 g v s = None"
| "strongConnect (Suc n) g v s = map_option (tarjan_finish g v) (visit_successors n g v (edges_of g v) (tarjan_push v s))"
| "visit_successors n g v [] s = Some s"
| "visit_successors n g v (e # es) s =
     (if \<not> jm_has g (en_to e) then visit_successors n g v es s
      else case tj_index s (en_to e) of
        None \<Rightarrow> (case strongConnect n g (en_to e) s of None \<Rightarrow> None
          | Some s' \<Rightarrow> visit_successors n g v es (tarjan_lower v (tj_lowlink s' (en_to e)) s'))
      | Some i \<Rightarrow> visit_successors n g v es (if tj_onStack s (en_to e) then tarjan_lower v (Some i) s else s))"

fun connect_all :: "nat \<Rightarrow> trust_graph \<Rightarrow> did list \<Rightarrow> tarjan \<Rightarrow> tarjan option" where
  "connect_all n g [] s = Some s"
| "connect_all n g (v # vs) s = (if tj_index s v = None
     then (case strongConnect n g v s of None \<Rightarrow> None | Some s' \<Rightarrow> connect_all n g vs s') else connect_all n g vs s)"

definition findSCCs :: "trust_graph \<Rightarrow> scc list option" where
  "findSCCs g = map_option tj_sccs (connect_all (length g) g (jm_keys g) tarjan_start)"

text \<open>\<open>externalEdges / (internalEdges || 1) < 0.2\<close>.\<close>

definition collusive :: "scc \<Rightarrow> bool" where
  "collusive c \<longleftrightarrow> length (scc_nodes c) > 3
     \<and> real (scc_externalEdges c) / (if scc_internalEdges c = 0 then 1 else real (scc_internalEdges c)) < 2/10"

definition detectCollusion :: "did \<Rightarrow> endorsement list \<Rightarrow> bool option" where
  "detectCollusion target es = map_option (\<lambda>cs. \<exists>c \<in> set cs. target \<in> set (scc_nodes c) \<and> collusive c) (findSCCs (buildGraph es))"

section \<open>Weights\<close>

definition half_life :: "trust_config \<Rightarrow> string \<Rightarrow> real option" where
  "half_life cfg d = (case jm_get (tc_decayHalfLife cfg) d of None \<Rightarrow> None | Some x \<Rightarrow> if x = 0 then None else Some x)"

definition getDecayHalfLife :: "trust_config \<Rightarrow> string option \<Rightarrow> real" where
  "getDecayHalfLife cfg domain = (case given_string domain of
     None \<Rightarrow> (case half_life cfg ''default'' of Some x \<Rightarrow> x | None \<Rightarrow> 90)
   | Some d \<Rightarrow>
       if d \<in> set FAST_DOMAINS then (case half_life cfg d of Some x \<Rightarrow> x | None \<Rightarrow> 30)
       else if d \<in> set SLOW_DOMAINS then (case half_life cfg d of Some x \<Rightarrow> x | None \<Rightarrow> 180)
       else (case half_life cfg d of Some x \<Rightarrow> x | None \<Rightarrow> (case half_life cfg ''default'' of Some x \<Rightarrow> x | None \<Rightarrow> 90)))"

definition computeTimeDecay :: "trust_config \<Rightarrow> msec \<Rightarrow> endorsement \<Rightarrow> string option \<Rightarrow> real" where
  "computeTimeDecay cfg now e domain =
     (let ageDays = real_of_int (now - en_timestamp e) / (24 * 60 * 60 * 1000);
          halfLife = getDecayHalfLife cfg (case given_string (en_domain e) of Some d \<Rightarrow> Some d | None \<Rightarrow> domain)
      in exp (- ageDays / halfLife))"

definition filterByDomain :: "endorsement list \<Rightarrow> string option \<Rightarrow> endorsement list" where
  "filterByDomain es domain = (case given_string domain of None \<Rightarrow> es
     | Some d \<Rightarrow> filter (\<lambda>e. en_domain e = Some d \<or> en_domain e = None \<or> en_domain e = Some ''*'') es)"

definition getCollusionPenalty :: "(did, real) jsmap \<Rightarrow> did \<Rightarrow> real" where
  "getCollusionPenalty penalties endorser = (case jm_get penalties endorser of Some p \<Rightarrow> p | None \<Rightarrow> 1)"

definition expired_at :: "msec \<Rightarrow> endorsement \<Rightarrow> bool" where
  "expired_at now e \<longleftrightarrow> (case en_expires e of None \<Rightarrow> False | Some t \<Rightarrow> t \<noteq> 0 \<and> t < now)"

text \<open>What the recursion reads: the configuration, the clock, the penalties and the endorsements by target.\<close>

record weight_env =
  we_config :: trust_config
  we_now :: msec
  we_penalties :: "(did, real) jsmap"
  we_byTarget :: "(did, endorsement list) jsmap"

text \<open>The weighted sum and the sum of the weights, over the endorsements in order.\<close>

definition add_endorsement :: "weight_env \<Rightarrow> string option \<Rightarrow> (did \<Rightarrow> real) \<Rightarrow> endorsement \<Rightarrow> real \<times> real \<Rightarrow> real \<times> real" where
  "add_endorsement env domain weight e acc =
     (if expired_at (we_now env) e then acc
      else let baseWeight = weight (en_from e) * getCollusionPenalty (we_penalties env) (en_from e)
           in (fst acc + of_rat (en_score e) * computeTimeDecay (we_config env) (we_now env) e domain * baseWeight, snd acc + baseWeight))"

definition weighted_average :: "real \<times> real \<Rightarrow> real" where
  "weighted_average acc = (if snd acc > 0 then fst acc / snd acc else 0)"

text \<open>\<open>computeNetworkTrust\<close> and \<open>getEndorserWeight\<close>. The set \<open>visited\<close> is copied for each endorser.\<close>

function computeNetworkTrust :: "weight_env \<Rightarrow> string option \<Rightarrow> did \<Rightarrow> endorsement list \<Rightarrow> int \<Rightarrow> did list \<Rightarrow> real" where
  "computeNetworkTrust env domain target es depth visited =
     (if es = [] then 0
      else if depth \<ge> tc_maxRecursionDepth (we_config env) then 1/10
      else if target \<in> set visited then 1/10
      else weighted_average (fold (add_endorsement env domain (\<lambda>endorser.
        if endorser \<in> set (tc_seedPeers (we_config env)) then 1
        else if depth + 1 \<ge> tc_maxRecursionDepth (we_config env) then 1/10
        else if endorser \<in> set (js_set_add target visited) then 1/10
        else (case jm_get (we_byTarget env) endorser of
            None \<Rightarrow> 1/10
          | Some ees \<Rightarrow> if ees = [] then 1/10
              else 1/10 + computeNetworkTrust env domain endorser (filterByDomain ees domain) (depth + 1) (js_set_add target visited) * (9/10)))) es (0, 0)))"
  by pat_completeness auto
termination by (relation "measure (\<lambda>(env, domain, target, es, depth, visited). nat (tc_maxRecursionDepth (we_config env) - depth))") auto

definition getEndorserWeight :: "weight_env \<Rightarrow> string option \<Rightarrow> did \<Rightarrow> int \<Rightarrow> did list \<Rightarrow> real" where
  "getEndorserWeight env domain endorser depth visited =
     (if endorser \<in> set (tc_seedPeers (we_config env)) then 1
      else if depth \<ge> tc_maxRecursionDepth (we_config env) then 1/10
      else if endorser \<in> set visited then 1/10
      else (case jm_get (we_byTarget env) endorser of
          None \<Rightarrow> 1/10
        | Some ees \<Rightarrow> if ees = [] then 1/10
            else 1/10 + computeNetworkTrust env domain endorser (filterByDomain ees domain) depth visited * (9/10)))"

lemma computeNetworkTrust_unfold:
  "computeNetworkTrust env domain target es depth visited =
     (if es = [] then 0
      else if depth \<ge> tc_maxRecursionDepth (we_config env) then 1/10
      else if target \<in> set visited then 1/10
      else weighted_average (fold (add_endorsement env domain
        (\<lambda>endorser. getEndorserWeight env domain endorser (depth + 1) (js_set_add target visited))) es (0, 0)))"
  by (subst computeNetworkTrust.simps) (simp only: getEndorserWeight_def)

declare computeNetworkTrust.simps [simp del]

section \<open>The computer\<close>

record trust_computer =
  tcp_config :: trust_config
  tcp_cache :: "(string, trust_result \<times> msec) jsmap"
  sccPenaltyCache :: "(did, real) jsmap"
  sccCacheExpiresAt :: msec
  endorsementsByTarget :: "(did, endorsement list) jsmap"

definition COMPUTER_CACHE_TTL :: int where "COMPUTER_CACHE_TTL = 5 * 60 * 1000"
definition SCC_CACHE_TTL :: int where "SCC_CACHE_TTL = 5 * 60 * 1000"

definition new_trust_computer :: "partial_config \<Rightarrow> trust_computer" where
  "new_trust_computer p = (let cfg = merge_config DEFAULT_CONFIG p
     in \<lparr>tcp_config = (if tc_maxRecursionDepth cfg > 6 then cfg\<lparr>tc_maxRecursionDepth := 6\<rparr> else cfg), tcp_cache = [], sccPenaltyCache = [],
         sccCacheExpiresAt = 0, endorsementsByTarget = []\<rparr>)"

definition by_target :: "endorsement list \<Rightarrow> (did, endorsement list) jsmap" where
  "by_target es = fold (\<lambda>e m. jm_modify (en_to e) (\<lambda>l. l @ [e]) (if jm_has m (en_to e) then m else jm_set (en_to e) [] m)) es []"

definition penalties_of :: "scc list \<Rightarrow> (did, real) jsmap" where
  "penalties_of cs = fold (\<lambda>c m. if collusive c then fold (\<lambda>v. jm_set v (1/10)) (scc_nodes c) m else m) cs []"

definition rebuildSccPenaltyCache :: "msec \<Rightarrow> endorsement list \<Rightarrow> trust_computer \<Rightarrow> trust_computer option" where
  "rebuildSccPenaltyCache now es s = map_option (\<lambda>cs. s\<lparr>sccPenaltyCache := penalties_of cs, sccCacheExpiresAt := now + SCC_CACHE_TTL\<rparr>) (findSCCs (buildGraph es))"

definition getCacheKey :: "did \<Rightarrow> string option \<Rightarrow> string" where
  "getCacheKey target domain = target @ '':'' @ (case given_string domain of Some d \<Rightarrow> d | None \<Rightarrow> ''*'')"

definition weights_of :: "msec \<Rightarrow> trust_computer \<Rightarrow> weight_env" where
  "weights_of now s = \<lparr>we_config = tcp_config s, we_now = now, we_penalties = sccPenaltyCache s, we_byTarget = endorsementsByTarget s\<rparr>"

definition blend :: "nat \<Rightarrow> real \<Rightarrow> real \<Rightarrow> real" where
  "blend interactions localScore networkScore = (let alpha = min (real interactions / 20) (8/10) in alpha * localScore + (1 - alpha) * networkScore)"

definition compute_fresh :: "msec \<Rightarrow> did \<Rightarrow> endorsement list \<Rightarrow> real \<Rightarrow> nat \<Rightarrow> string option \<Rightarrow> endorsement list option \<Rightarrow> trust_computer
    \<Rightarrow> (trust_result \<times> trust_computer) option" where
  "compute_fresh now target es localScore localCount domain allEs s =
     (let s1 = (case allEs of Some (e # rest) \<Rightarrow> s\<lparr>endorsementsByTarget := by_target (e # rest)\<rparr> | _ \<Rightarrow> s);
          allEnds = (case allEs of Some a \<Rightarrow> a | None \<Rightarrow> es);
          filtered = filterByDomain es domain
      in Option.bind (if now > sccCacheExpiresAt s1 then rebuildSccPenaltyCache now allEnds s1 else Some s1) (\<lambda>s2.
         let networkScore = computeNetworkTrust (weights_of now s2) domain target filtered 0 []
         in map_option (\<lambda>collusion.
              let r = \<lparr>tr_score = blend localCount localScore networkScore, tr_localScore = localScore, tr_networkScore = networkScore,
                       tr_endorsementCount = length filtered, tr_collusionDetected = collusion, tr_computedAt = now\<rparr>
              in (r, s2\<lparr>tcp_cache := jm_set (getCacheKey target domain) (r, now + COMPUTER_CACHE_TTL) (tcp_cache s2)\<rparr>))
            (detectCollusion target allEnds)))"

definition computeTrust :: "msec \<Rightarrow> did \<Rightarrow> endorsement list \<Rightarrow> real \<Rightarrow> nat \<Rightarrow> string option \<Rightarrow> endorsement list option \<Rightarrow> trust_computer
    \<Rightarrow> (trust_result \<times> trust_computer) option" where
  "computeTrust now target es localScore localCount domain allEs s =
     (case jm_get (tcp_cache s) (getCacheKey target domain) of
        Some (r, t) \<Rightarrow> if t > now then Some (r, s) else compute_fresh now target es localScore localCount domain allEs s
      | None \<Rightarrow> compute_fresh now target es localScore localCount domain allEs s)"

definition clearCache :: "trust_computer \<Rightarrow> trust_computer" where
  "clearCache s = s\<lparr>tcp_cache := []\<rparr>"

definition updateConfig :: "partial_config \<Rightarrow> trust_computer \<Rightarrow> trust_computer" where
  "updateConfig p s = clearCache (s\<lparr>tcp_config := merge_config (tcp_config s) p\<rparr>)"

end
