(* ===== verification/Trust_Computer_Props.thy ===== *)
theory Trust_Computer_Props
  imports Trust_Computer
begin

text \<open>
  Tarjan's algorithm as the code writes it finds the strongly connected components of the endorsement graph, so collusion is
  detected exactly where the ratio of the code says; and the scores stay within their bounds.
\<close>

section \<open>The graph\<close>

definition endorses :: "endorsement list \<Rightarrow> did \<Rightarrow> did \<Rightarrow> bool" where
  "endorses es u w \<longleftrightarrow> (\<exists>e \<in> set es. en_from e = u \<and> en_to e = w)"

definition edge :: "trust_graph \<Rightarrow> did \<Rightarrow> did \<Rightarrow> bool" where
  "edge g u w \<longleftrightarrow> (\<exists>e \<in> set (edges_of g u). en_to e = w)"

text \<open>Every target of an endorsement is a node.\<close>

definition graph_ok :: "trust_graph \<Rightarrow> bool" where
  "graph_ok g \<longleftrightarrow> jm_ok g \<and> (\<forall>u w. edge g u w \<longrightarrow> jm_has g w)"

lemma edge_node: "edge g u w \<Longrightarrow> jm_has g u"
  by (cases "jm_get g u") (auto simp: edge_def edges_of_def)

section \<open>The invariant\<close>

definition idx :: "tarjan \<Rightarrow> did \<Rightarrow> nat" where
  "idx s v = the (tj_index s v)"

definition finished :: "tarjan \<Rightarrow> did set" where
  "finished s = {w. tj_index s w \<noteq> None \<and> w \<notin> set (tj_stack s)}"

definition component :: "trust_graph \<Rightarrow> did \<Rightarrow> did set" where
  "component g v = {w. (edge g)\<^sup>*\<^sup>* v w \<and> (edge g)\<^sup>*\<^sup>* w v}"

definition stack_ok :: "trust_graph \<Rightarrow> did set \<Rightarrow> tarjan \<Rightarrow> bool" where
  "stack_ok g gray s \<longleftrightarrow> (\<forall>w. tj_onStack s w \<longleftrightarrow> w \<in> set (tj_stack s)) \<and> distinct (tj_stack s)
     \<and> (\<forall>w \<in> set (tj_stack s). tj_index s w \<noteq> None)
     \<and> (\<forall>w i. tj_index s w = Some i \<longrightarrow> i < tj_next s \<and> jm_has g w)
     \<and> sorted_wrt (\<lambda>a b. idx s b < idx s a) (tj_stack s) \<and> gray \<subseteq> set (tj_stack s)"

definition reach_ok :: "trust_graph \<Rightarrow> did set \<Rightarrow> tarjan \<Rightarrow> bool" where
  "reach_ok g gray s \<longleftrightarrow> (\<forall>w x. tj_index s w \<noteq> None \<longrightarrow> w \<notin> gray \<longrightarrow> edge g w x \<longrightarrow> tj_index s x \<noteq> None)
     \<and> (\<forall>w x. w \<in> finished s \<longrightarrow> edge g w x \<longrightarrow> x \<in> finished s)
     \<and> (\<forall>x \<in> set (tj_stack s). \<forall>y \<in> set (tj_stack s). idx s x \<le> idx s y \<longrightarrow> (edge g)\<^sup>*\<^sup>* x y)
     \<and> (\<forall>y \<in> set (tj_stack s). \<exists>x \<in> gray. idx s x \<le> idx s y \<and> (edge g)\<^sup>*\<^sup>* y x)"

definition sccs_ok :: "trust_graph \<Rightarrow> tarjan \<Rightarrow> bool" where
  "sccs_ok g s \<longleftrightarrow> (\<forall>c \<in> set (tj_sccs s). c = scc_of g (scc_nodes c) \<and> distinct (scc_nodes c) \<and> length (scc_nodes c) > 1
        \<and> set (scc_nodes c) \<subseteq> finished s \<and> (\<forall>v \<in> set (scc_nodes c). component g v = set (scc_nodes c)))
     \<and> (\<forall>w \<in> finished s. card (component g w) > 1 \<longrightarrow> (\<exists>c \<in> set (tj_sccs s). w \<in> set (scc_nodes c)))
     \<and> sorted_wrt (\<lambda>c d. set (scc_nodes c) \<inter> set (scc_nodes d) = {}) (tj_sccs s)"

definition tarjan_ok :: "trust_graph \<Rightarrow> did set \<Rightarrow> tarjan \<Rightarrow> bool" where
  "tarjan_ok g gray s \<longleftrightarrow> stack_ok g gray s \<and> reach_ok g gray s \<and> sccs_ok g s"

lemma stack_okD:
  assumes "stack_ok g gray s"
  shows "tj_onStack s w \<longleftrightarrow> w \<in> set (tj_stack s)" "distinct (tj_stack s)" "w \<in> set (tj_stack s) \<Longrightarrow> tj_index s w \<noteq> None"
    "tj_index s w = Some i \<Longrightarrow> i < tj_next s" "tj_index s w = Some i \<Longrightarrow> jm_has g w"
    "sorted_wrt (\<lambda>a b. idx s b < idx s a) (tj_stack s)" "gray \<subseteq> set (tj_stack s)"
  using assms unfolding stack_ok_def by blast+

lemma reach_okD:
  assumes "reach_ok g gray s"
  shows "tj_index s w \<noteq> None \<Longrightarrow> w \<notin> gray \<Longrightarrow> edge g w x \<Longrightarrow> tj_index s x \<noteq> None"
    "w \<in> finished s \<Longrightarrow> edge g w x \<Longrightarrow> x \<in> finished s"
    "x \<in> set (tj_stack s) \<Longrightarrow> y \<in> set (tj_stack s) \<Longrightarrow> idx s x \<le> idx s y \<Longrightarrow> (edge g)\<^sup>*\<^sup>* x y"
    "y \<in> set (tj_stack s) \<Longrightarrow> \<exists>x \<in> gray. idx s x \<le> idx s y \<and> (edge g)\<^sup>*\<^sup>* y x"
  using assms unfolding reach_ok_def by blast+

lemma finished_closed: "reach_ok g gray s \<Longrightarrow> (edge g)\<^sup>*\<^sup>* w x \<Longrightarrow> w \<in> finished s \<Longrightarrow> x \<in> finished s"
  by (rotate_tac 1, induction rule: rtranclp_induct) (auto dest: reach_okD(2))

lemma idx_next: "stack_ok g gray s \<Longrightarrow> tj_index s w \<noteq> None \<Longrightarrow> idx s w < tj_next s"
  using stack_okD(4) by (fastforce simp: idx_def)

lemma component_sym: "w \<in> component g v \<Longrightarrow> component g w = component g v"
  unfolding component_def using rtranclp_trans [of "edge g"] by (auto; blast)

lemma component_self [simp]: "v \<in> component g v"
  by (simp add: component_def)

text \<open>What one visit changes, and what the low link of the visited node then tells.\<close>

definition grows :: "tarjan \<Rightarrow> did list \<Rightarrow> tarjan \<Rightarrow> bool" where
  "grows s new s' \<longleftrightarrow> (\<forall>w i. tj_index s w = Some i \<longrightarrow> tj_index s' w = Some i) \<and> tj_stack s' = new @ tj_stack s
     \<and> (\<forall>w \<in> set new. tj_index s w = None) \<and> tj_next s \<le> tj_next s'"

lemma growsD:
  assumes "grows s new s'"
  shows "tj_index s w \<noteq> None \<Longrightarrow> tj_index s' w = tj_index s w" "tj_stack s' = new @ tj_stack s" "w \<in> set new \<Longrightarrow> tj_index s w = None"
    "tj_index s w \<noteq> None \<Longrightarrow> idx s' w = idx s w" "w \<in> finished s \<Longrightarrow> w \<in> finished s'"
  using assms unfolding grows_def by (auto simp: idx_def finished_def)

lemma grows_trans: "grows s new s' \<Longrightarrow> grows s' new' s'' \<Longrightarrow> grows s (new' @ new) s''"
  unfolding grows_def by (auto; metis option.exhaust)

definition keeps_low :: "tarjan \<Rightarrow> did \<Rightarrow> tarjan \<Rightarrow> bool" where
  "keeps_low s v s' \<longleftrightarrow> (\<forall>w. tj_index s w \<noteq> None \<longrightarrow> w \<noteq> v \<longrightarrow> tj_lowlink s' w = tj_lowlink s w)"

definition connected :: "trust_graph \<Rightarrow> did \<Rightarrow> tarjan \<Rightarrow> tarjan \<Rightarrow> bool" where
  "connected g v s s' \<longleftrightarrow> (\<exists>new n. grows s new s' \<and> keeps_low s v s' \<and> tj_index s' v = Some (tj_next s) \<and> tj_lowlink s' v = Some n \<and> n \<le> tj_next s
     \<and> (if v \<in> set (tj_stack s') then \<exists>y \<in> set (tj_stack s'). idx s' y = n \<and> (edge g)\<^sup>*\<^sup>* v y else n = tj_next s)
     \<and> (\<forall>x \<in> set new. \<forall>y \<in> set (tj_stack s). edge g x y \<longrightarrow> n \<le> idx s y))"

definition visited :: "trust_graph \<Rightarrow> did \<Rightarrow> endorsement list \<Rightarrow> nat \<Rightarrow> tarjan \<Rightarrow> tarjan \<Rightarrow> bool" where
  "visited g v es m s s' \<longleftrightarrow> (\<exists>new n. grows s new s' \<and> keeps_low s v s' \<and> tj_lowlink s' v = Some n \<and> n \<le> m
     \<and> (n = m \<or> (\<exists>y \<in> set (tj_stack s'). idx s' y = n \<and> (edge g)\<^sup>*\<^sup>* v y))
     \<and> (\<forall>e \<in> set es. tj_index s' (en_to e) \<noteq> None \<and> (en_to e \<in> set (tj_stack s') \<longrightarrow> n \<le> idx s' (en_to e)))
     \<and> (\<forall>x \<in> set new. \<forall>y \<in> set (tj_stack s). edge g x y \<longrightarrow> n \<le> idx s y))"


section \<open>The steps\<close>

lemma push_ok:
  assumes ok: "tarjan_ok g gray s" and v: "jm_has g v" "tj_index s v = None" "\<forall>x \<in> gray. (edge g)\<^sup>*\<^sup>* x v"
  shows "tarjan_ok g (insert v gray) (tarjan_push v s)"
proof -
  note st = stack_okD [of g gray s] and re = reach_okD [of g gray s]
  have S: "stack_ok g gray s" and R: "reach_ok g gray s" and C: "sccs_ok g s" using ok by (simp_all add: tarjan_ok_def)
  have vs: "v \<notin> set (tj_stack s)" using st(3) [OF S] v(2) by blast
  have ix: "idx (tarjan_push v s) w = (if w = v then tj_next s else idx s w)" for w by (simp add: idx_def tarjan_push_def)
  have fin: "finished (tarjan_push v s) = finished s" using vs v(2) by (auto simp: finished_def tarjan_push_def)
  have lt: "w \<in> set (tj_stack s) \<Longrightarrow> idx s w < tj_next s" for w using idx_next [OF S] st(3) [OF S] by blast
  have "stack_ok g (insert v gray) (tarjan_push v s)"
    unfolding stack_ok_def ix
  proof (intro conjI allI ballI impI)
    show "sorted_wrt (\<lambda>a b. (if b = v then tj_next s else idx s b) < (if a = v then tj_next s else idx s a)) (tj_stack (tarjan_push v s))"
      using st(6) [OF S] lt vs by (auto simp: tarjan_push_def intro: sorted_wrt_mono_rel [rotated])
  qed (use st [OF S] vs v(1) in \<open>auto simp: tarjan_push_def less_SucI split: if_splits\<close>)
  moreover have "reach_ok g (insert v gray) (tarjan_push v s)"
    unfolding reach_ok_def ix fin
  proof (intro conjI allI ballI impI)
    fix x y assume xy: "x \<in> set (tj_stack (tarjan_push v s))" "y \<in> set (tj_stack (tarjan_push v s))"
      "(if x = v then tj_next s else idx s x) \<le> (if y = v then tj_next s else idx s y)"
    show "(edge g)\<^sup>*\<^sup>* x y"
    proof (cases "y = v")
      case True
      show ?thesis
      proof (cases "x = v")
        case False
        then obtain z where "z \<in> gray" "(edge g)\<^sup>*\<^sup>* x z" using xy(1) re(4) [OF R, of x] by (auto simp: tarjan_push_def)
        then show ?thesis using v(3) True by (meson rtranclp_trans)
      qed (simp add: True)
    next
      case False
      then have "x \<noteq> v" using xy lt [of y] by (auto simp: tarjan_push_def)
      then show ?thesis using xy False re(3) [OF R] by (auto simp: tarjan_push_def)
    qed
  next
    fix y assume y: "y \<in> set (tj_stack (tarjan_push v s))"
    then show "\<exists>x \<in> insert v gray. (if x = v then tj_next s else idx s x) \<le> (if y = v then tj_next s else idx s y) \<and> (edge g)\<^sup>*\<^sup>* y x"
    proof (cases "y = v")
      case False
      then obtain x where "x \<in> gray" "idx s x \<le> idx s y" "(edge g)\<^sup>*\<^sup>* y x" using y re(4) [OF R, of y] by (auto simp: tarjan_push_def)
      moreover from this(1) have "x \<noteq> v" using vs st(7) [OF S] by blast
      ultimately show ?thesis using False by auto
    qed auto
  qed (use re(1,2) [OF R] in \<open>auto simp: tarjan_push_def split: if_splits\<close>)
  moreover have "sccs_ok g (tarjan_push v s)" using C unfolding sccs_ok_def fin by (simp add: tarjan_push_def)
  ultimately show ?thesis by (simp add: tarjan_ok_def)
qed

lemma lower_simps [simp]: "tj_index (tarjan_lower v n s) = tj_index s" "tj_stack (tarjan_lower v n s) = tj_stack s"
  "tj_onStack (tarjan_lower v n s) = tj_onStack s" "tj_next (tarjan_lower v n s) = tj_next s" "tj_sccs (tarjan_lower v n s) = tj_sccs s"
  "idx (tarjan_lower v n s) = idx s" "finished (tarjan_lower v n s) = finished s"
  by (auto simp: tarjan_lower_def idx_def finished_def fun_eq_iff)

lemma lower_ok [simp]: "tarjan_ok g gray (tarjan_lower v n s) \<longleftrightarrow> tarjan_ok g gray s"
  by (simp add: tarjan_ok_def stack_ok_def reach_ok_def sccs_ok_def)

lemma lower_low: "tj_lowlink s v = Some a \<Longrightarrow> tj_lowlink (tarjan_lower v (Some b) s) v = Some (min a b)"
  "w \<noteq> v \<Longrightarrow> tj_lowlink (tarjan_lower v n s) w = tj_lowlink s w"
  by (simp_all add: tarjan_lower_def)

lemma grows_refl: "grows s [] s"
  by (simp add: grows_def)

lemma grows_lower [simp]: "grows s new (tarjan_lower v n s') \<longleftrightarrow> grows s new s'" "grows (tarjan_lower v n s) new s' \<longleftrightarrow> grows s new s'"
  by (simp_all add: grows_def)

lemma pop_until_app: "v \<notin> set new \<Longrightarrow> pop_until v (new @ v # rest) = (new @ [v], rest)"
  by (induction new) auto


text \<open>The root of a component: what was pushed since is one strongly connected component.\<close>

lemma finish_root:
  assumes g: "graph_ok g" and ok0: "tarjan_ok g gray s" and ok: "tarjan_ok g (insert v gray) s2"
    and gr: "grows s (new @ [v]) s2" and v: "tj_index s v = None" "v \<notin> set new" "idx s2 v = tj_next s" "\<forall>w \<in> set new. w \<noteq> v \<longrightarrow> idx s2 v \<le> idx s2 w"
    and seen: "\<forall>x. edge g v x \<longrightarrow> tj_index s2 x \<noteq> None"
    and out: "\<forall>x \<in> set (new @ [v]). \<forall>y \<in> set (tj_stack s). \<not> edge g x y"
    and root: "tj_lowlink s2 v = tj_index s2 v"
  shows "tarjan_ok g gray (tarjan_finish g v s2) \<and> grows s [] (tarjan_finish g v s2) \<and> tj_index (tarjan_finish g v s2) = tj_index s2
    \<and> tj_lowlink (tarjan_finish g v s2) = tj_lowlink s2 \<and> v \<notin> set (tj_stack (tarjan_finish g v s2))"
proof -
  let ?c = "new @ [v]" and ?s3 = "tarjan_finish g v s2"
  have S0: "stack_ok g gray s" "reach_ok g gray s" using ok0 by (simp_all add: tarjan_ok_def)
  have S: "stack_ok g (insert v gray) s2" and R: "reach_ok g (insert v gray) s2" and C: "sccs_ok g s2" using ok by (simp_all add: tarjan_ok_def)
  have stack: "tj_stack s2 = ?c @ tj_stack s" using growsD(2) [OF gr] .
  have pop: "pop_until v (tj_stack s2) = (?c, tj_stack s)" using pop_until_app [OF v(2)] stack by simp
  have dist: "distinct ?c" "set ?c \<inter> set (tj_stack s) = {}" using stack_okD(2) [OF S] stack by auto
  have s3: "tj_stack ?s3 = tj_stack s" "tj_index ?s3 = tj_index s2" "tj_lowlink ?s3 = tj_lowlink s2" "tj_next ?s3 = tj_next s2"
    "\<And>w. tj_onStack ?s3 w \<longleftrightarrow> tj_onStack s2 w \<and> w \<notin> set ?c" "tj_sccs ?s3 = tj_sccs s2 @ (if length ?c > 1 then [scc_of g ?c] else [])" "idx ?s3 = idx s2"
    using root pop by (simp_all add: tarjan_finish_def idx_def fun_eq_iff)
  have old: "w \<in> set (tj_stack s) \<Longrightarrow> idx s2 w = idx s w" for w using growsD(4) [OF gr] stack_okD(3) [OF S0(1)] by blast
  have fin: "finished ?s3 = finished s2 \<union> set ?c"
    using dist stack_okD(3) [OF S] by (auto simp: finished_def s3 stack)
  have in2: "set ?c \<subseteq> set (tj_stack s2)" using stack by auto
  have closed: "x \<in> finished ?s3" if w: "w \<in> finished ?s3" and e: "edge g w x" for w x
  proof (cases "w \<in> finished s2")
    case True
    then show ?thesis using reach_okD(2) [OF R True e] fin by blast
  next
    case False
    then have wc: "w \<in> set ?c" using w fin by blast
    have "tj_index s2 x \<noteq> None"
    proof (cases "w = v")
      case True then show ?thesis using seen e by blast
    next
      case False
      moreover have "w \<notin> gray" using wc dist(2) stack_okD(7) [OF S0(1)] by blast
      moreover have "tj_index s2 w \<noteq> None" using wc in2 stack_okD(3) [OF S] by blast
      ultimately show ?thesis using reach_okD(1) [OF R] e by blast
    qed
    moreover have "x \<notin> set (tj_stack s)" using out wc e by blast
    ultimately show ?thesis by (auto simp: finished_def s3)
  qed
  have reach_closed: "x \<in> finished ?s3" if "(edge g)\<^sup>*\<^sup>* w x" "w \<in> finished ?s3" for w x
    using that by (induction rule: rtranclp_induct) (auto intro: closed)
  have from_v: "(edge g)\<^sup>*\<^sup>* v x" if "x \<in> set ?c" for x
    using reach_okD(3) [OF R, of v x] in2 that v(4) by fastforce
  have to_v: "(edge g)\<^sup>*\<^sup>* x v" if x: "x \<in> set ?c" for x
  proof -
    obtain z where z: "z \<in> insert v gray" "(edge g)\<^sup>*\<^sup>* x z" using reach_okD(4) [OF R, of x] in2 x by blast
    moreover have "z \<in> finished ?s3" using reach_closed [OF z(2)] x fin by blast
    then have "z \<notin> gray" using stack_okD(7) [OF S0(1)] by (auto simp: finished_def s3)
    ultimately show ?thesis by simp
  qed
  have comp_v: "component g v = set ?c"
  proof (intro equalityI subsetI)
    fix y assume "y \<in> component g v"
    then have y: "(edge g)\<^sup>*\<^sup>* v y" "(edge g)\<^sup>*\<^sup>* y v" by (simp_all add: component_def)
    have "y \<in> finished ?s3" using reach_closed [OF y(1)] fin by simp
    moreover have "v \<notin> finished s2" using in2 by (auto simp: finished_def)
    then have "y \<notin> finished s2" using finished_closed [OF R y(2)] by blast
    ultimately show "y \<in> set ?c" using fin by blast
  next
    fix y assume "y \<in> set ?c"
    then show "y \<in> component g v" using from_v to_v by (simp add: component_def)
  qed
  have comp: "component g w = set ?c" if "w \<in> set ?c" for w
    using component_sym [of w g v] that comp_v by simp
  have "stack_ok g gray ?s3"
    using stack_okD [OF S] stack_okD(2,6,7) [OF S0(1)] old dist unfolding stack_ok_def s3
    by (auto simp: stack sorted_wrt_append)
  moreover have "reach_ok g gray ?s3"
    unfolding reach_ok_def s3
  proof (intro conjI allI impI ballI)
    fix w x assume "tj_index s2 w \<noteq> None" "w \<notin> gray" "edge g w x"
    then show "tj_index s2 x \<noteq> None" using reach_okD(1) [OF R] seen by (cases "w = v") blast+
  next
    fix w x assume "w \<in> finished ?s3" "edge g w x"
    then show "x \<in> finished ?s3" by (rule closed)
  next
    fix x y assume "x \<in> set (tj_stack s)" "y \<in> set (tj_stack s)" "idx s2 x \<le> idx s2 y"
    then show "(edge g)\<^sup>*\<^sup>* x y" using reach_okD(3) [OF R, of x y] stack by simp
  next
    fix y assume y: "y \<in> set (tj_stack s)"
    then obtain x where x: "x \<in> gray" "idx s x \<le> idx s y" "(edge g)\<^sup>*\<^sup>* y x" using reach_okD(4) [OF S0(2)] by blast
    moreover have "x \<in> set (tj_stack s)" using x(1) stack_okD(7) [OF S0(1)] by blast
    ultimately show "\<exists>x\<in>gray. idx s2 x \<le> idx s2 y \<and> (edge g)\<^sup>*\<^sup>* y x" using old y by (intro bexI [of _ x]) simp_all
  qed
  moreover have "sccs_ok g ?s3"
  proof -
    have c: "scc_nodes (scc_of g ?c) = ?c" by (simp add: scc_of_def Let_def)
    have disj: "\<forall>d \<in> set (tj_sccs s2). set (scc_nodes d) \<inter> set ?c = {}"
      using C in2 unfolding sccs_ok_def finished_def by blast
    have card: "card (set ?c) = length ?c" using distinct_card [OF dist(1)] .
    show ?thesis
      unfolding sccs_ok_def s3 fin
    proof (intro conjI ballI impI)
      fix d assume d: "d \<in> set (tj_sccs s2 @ (if length ?c > 1 then [scc_of g ?c] else []))"
      show "d = scc_of g (scc_nodes d)" "distinct (scc_nodes d)" "length (scc_nodes d) > 1" "set (scc_nodes d) \<subseteq> finished s2 \<union> set ?c"
        "\<And>w. w \<in> set (scc_nodes d) \<Longrightarrow> component g w = set (scc_nodes d)"
        using d C c comp dist(1) unfolding sccs_ok_def by (auto split: if_splits)
    next
      fix w assume w: "w \<in> finished s2 \<union> set ?c" "card (component g w) > 1"
      show "\<exists>d \<in> set (tj_sccs s2 @ (if length ?c > 1 then [scc_of g ?c] else [])). w \<in> set (scc_nodes d)"
      proof (cases "w \<in> set ?c")
        case True
        then have "length ?c > 1" using w(2) comp card by metis
        then show ?thesis using True c by (auto simp del: append_assoc)
      next
        case False
        then show ?thesis using w C unfolding sccs_ok_def by fastforce
      qed
    next
      show "sorted_wrt (\<lambda>c d. set (scc_nodes c) \<inter> set (scc_nodes d) = {}) (tj_sccs s2 @ (if length ?c > 1 then [scc_of g ?c] else []))"
        using C disj c unfolding sccs_ok_def by (auto simp: sorted_wrt_append)
    qed
  qed
  moreover have "grows s [] ?s3" using gr by (simp add: grows_def s3)
  ultimately show ?thesis using s3 dist(2) by (simp add: tarjan_ok_def)
qed


text \<open>A node that is no root stays on the stack, no longer gray.\<close>

lemma finish_inner:
  assumes ok: "tarjan_ok g (insert v gray) s2" and gray: "gray \<subseteq> set (tj_stack s2)" "v \<in> set (tj_stack s2)"
    and seen: "\<forall>x. edge g v x \<longrightarrow> tj_index s2 x \<noteq> None"
    and low: "y \<in> set (tj_stack s2)" "(edge g)\<^sup>*\<^sup>* v y" "idx s2 y < idx s2 v"
  shows "tarjan_ok g gray s2"
proof -
  have S: "stack_ok g (insert v gray) s2" and R: "reach_ok g (insert v gray) s2" and C: "sccs_ok g s2" using ok by (simp_all add: tarjan_ok_def)
  have "reach_ok g gray s2"
    unfolding reach_ok_def
  proof (intro conjI allI impI ballI)
    fix w x assume "tj_index s2 w \<noteq> None" "w \<notin> gray" "edge g w x"
    then show "tj_index s2 x \<noteq> None" using reach_okD(1) [OF R] seen by (cases "w = v") blast+
  next
    fix w x assume "w \<in> finished s2" "edge g w x" then show "x \<in> finished s2" by (rule reach_okD(2) [OF R])
  next
    fix x y assume "x \<in> set (tj_stack s2)" "y \<in> set (tj_stack s2)" "idx s2 x \<le> idx s2 y"
    then show "(edge g)\<^sup>*\<^sup>* x y" by (rule reach_okD(3) [OF R])
  next
    fix z assume "z \<in> set (tj_stack s2)"
    then obtain x where x: "x \<in> insert v gray" "idx s2 x \<le> idx s2 z" "(edge g)\<^sup>*\<^sup>* z x" using reach_okD(4) [OF R] by blast
    show "\<exists>x\<in>gray. idx s2 x \<le> idx s2 z \<and> (edge g)\<^sup>*\<^sup>* z x"
    proof (cases "x = v")
      case True
      obtain u where u: "u \<in> insert v gray" "idx s2 u \<le> idx s2 y" "(edge g)\<^sup>*\<^sup>* y u" using reach_okD(4) [OF R low(1)] by blast
      then have "u \<in> gray" using low(3) by auto
      moreover have "(edge g)\<^sup>*\<^sup>* z u" using x(3) low(2) u(3) True by (meson rtranclp_trans)
      moreover have "idx s2 u \<le> idx s2 z" using u(2) low(3) x(2) True by simp
      ultimately show ?thesis by blast
    qed (use x in blast)
  qed
  moreover have "stack_ok g gray s2" using S by (simp add: stack_ok_def)
  ultimately show ?thesis using C by (simp add: tarjan_ok_def)
qed

lemma keeps_low_trans: "keeps_low s v s' \<Longrightarrow> keeps_low s' v s'' \<Longrightarrow> grows s new s' \<Longrightarrow> keeps_low s v s''"
  unfolding keeps_low_def using growsD(1) by metis

lemma keeps_low_lower [simp]: "keeps_low s v (tarjan_lower v n s') \<longleftrightarrow> keeps_low s v s'" "keeps_low (tarjan_lower v n s) v s' \<longleftrightarrow> keeps_low s v s'"
  by (auto simp: keeps_low_def lower_low(2))

text \<open>One visited successor after another.\<close>

lemma visited_Nil: "tj_lowlink s v = Some m \<Longrightarrow> visited g v [] m s s"
  unfolding visited_def using grows_refl by (intro exI [of _ "[]"] exI [of _ m]) (simp add: keeps_low_def)

lemma visited_indexed:
  assumes v: "visited g v es (if on then min m (idx s w) else m) (if on then tarjan_lower v (Some (idx s w)) s else s) s'"
    and w: "en_to e = w" "tj_index s w \<noteq> None" "on \<longleftrightarrow> w \<in> set (tj_stack s)" "edge g v w"
  shows "visited g v (e # es) m s s'"
proof -
  obtain new n where n: "grows s new s'" "keeps_low s v s'" "tj_lowlink s' v = Some n" "n \<le> (if on then min m (idx s w) else m)"
    "n = (if on then min m (idx s w) else m) \<or> (\<exists>y \<in> set (tj_stack s'). idx s' y = n \<and> (edge g)\<^sup>*\<^sup>* v y)"
    "\<forall>e \<in> set es. tj_index s' (en_to e) \<noteq> None \<and> (en_to e \<in> set (tj_stack s') \<longrightarrow> n \<le> idx s' (en_to e))"
    "\<forall>x \<in> set new. \<forall>y \<in> set (tj_stack s). edge g x y \<longrightarrow> n \<le> idx s y"
    using v unfolding visited_def by (cases on) auto
  have "tj_index s' w \<noteq> None" using growsD(1) [OF n(1) w(2)] w(2) by simp
  moreover have "w \<in> set (tj_stack s') \<longrightarrow> n \<le> idx s' w"
  proof
    assume "w \<in> set (tj_stack s')"
    then have "on" using growsD(2,3) [OF n(1)] w(2,3) by auto
    then show "n \<le> idx s' w" using n(4) growsD(4) [OF n(1) w(2)] by simp
  qed
  moreover have "n = m \<or> (\<exists>y \<in> set (tj_stack s'). idx s' y = n \<and> (edge g)\<^sup>*\<^sup>* v y)"
  proof (cases "on \<and> n = idx s w")
    case True
    then have "w \<in> set (tj_stack s')" "idx s' w = n" using growsD(2,4) [OF n(1)] w(2,3) by auto
    then show ?thesis using w(4) by blast
  next
    case False
    then show ?thesis using n(4,5) by (auto simp: min_def split: if_splits)
  qed
  moreover have "n \<le> m" using n(4) by (auto split: if_splits)
  ultimately show ?thesis unfolding visited_def using n(1-3,6,7) w(1) by (intro exI [of _ new] exI [of _ n]) auto
qed

lemma visited_new:
  assumes c: "connected g w s s1" and v: "visited g v es (min m n1) (tarjan_lower v (Some n1) s1) s'" and n1: "tj_lowlink s1 w = Some n1"
    and w: "en_to e = w" "tj_index s w = None" "edge g v w" and m: "tj_lowlink s v = Some m" "m \<le> idx s v" "tj_index s v \<noteq> None" "idx s v < tj_next s"
    and st: "\<forall>y \<in> set (tj_stack s). tj_index s y \<noteq> None" "\<forall>y \<in> set (tj_stack s1). tj_index s1 y \<noteq> None"
  shows "visited g v (e # es) m s s'"
proof -
  obtain new1 where c1: "grows s new1 s1" "keeps_low s w s1" "tj_index s1 w = Some (tj_next s)"
    "if w \<in> set (tj_stack s1) then \<exists>y \<in> set (tj_stack s1). idx s1 y = n1 \<and> (edge g)\<^sup>*\<^sup>* w y else n1 = tj_next s"
    "\<forall>x \<in> set new1. \<forall>y \<in> set (tj_stack s). edge g x y \<longrightarrow> n1 \<le> idx s y"
    using c n1 unfolding connected_def by auto
  obtain new n where n: "grows s1 new s'" "keeps_low s1 v s'" "tj_lowlink s' v = Some n" "n \<le> min m n1"
    "n = min m n1 \<or> (\<exists>y \<in> set (tj_stack s'). idx s' y = n \<and> (edge g)\<^sup>*\<^sup>* v y)"
    "\<forall>e \<in> set es. tj_index s' (en_to e) \<noteq> None \<and> (en_to e \<in> set (tj_stack s') \<longrightarrow> n \<le> idx s' (en_to e))"
    "\<forall>x \<in> set new. \<forall>y \<in> set (tj_stack s1). edge g x y \<longrightarrow> n \<le> idx s1 y"
    using v unfolding visited_def by auto
  have g: "grows s (new @ new1) s'" using grows_trans [OF c1(1) n(1)] .
  have kl: "keeps_low s v s'"
    using c1(1,2) n(2) w(2) growsD(1) [OF c1(1)] unfolding keeps_low_def by metis
  have iw: "tj_index s' w = Some (tj_next s)" using growsD(1) [OF n(1), of w] c1(3) by simp
  then have "idx s' w = tj_next s" by (simp add: idx_def)
  then have nw: "n \<le> idx s' w" using n(4) m(2,4) by simp
  have low: "n = m \<or> (\<exists>y \<in> set (tj_stack s'). idx s' y = n \<and> (edge g)\<^sup>*\<^sup>* v y)"
  proof (cases "n = min m n1 \<and> n1 < m")
    case True
    then have "w \<in> set (tj_stack s1)" using c1(4) m(2,4) by (auto split: if_splits)
    then obtain y where y: "y \<in> set (tj_stack s1)" "idx s1 y = n1" "(edge g)\<^sup>*\<^sup>* w y" using c1(4) by auto
    have "y \<in> set (tj_stack s')" using growsD(2) [OF n(1)] y(1) by simp
    moreover have "idx s' y = n1" using y(2) growsD(4) [OF n(1)] st(2) y(1) by simp
    moreover have "(edge g)\<^sup>*\<^sup>* v y" using w(3) y(3) by (rule converse_rtranclp_into_rtranclp)
    ultimately show ?thesis using True by auto
  qed (use n(5) in auto)
  have "\<forall>x \<in> set (new @ new1). \<forall>y \<in> set (tj_stack s). edge g x y \<longrightarrow> n \<le> idx s y"
  proof (intro ballI impI)
    fix x y assume xy: "x \<in> set (new @ new1)" "y \<in> set (tj_stack s)" "edge g x y"
    have "idx s1 y = idx s y" "y \<in> set (tj_stack s1)" using growsD(2,4) [OF c1(1)] st(1) xy(2) by simp_all
    then show "n \<le> idx s y" using xy n(4,7) c1(5) by (cases "x \<in> set new") fastforce+
  qed
  with g kl n(3,4,6) iw nw low w(1) show ?thesis
    unfolding visited_def by (intro exI [of _ "new @ new1"] exI [of _ n]) auto
qed


definition unindexed :: "trust_graph \<Rightarrow> tarjan \<Rightarrow> did set" where
  "unindexed g s = {w. jm_has g w \<and> tj_index s w = None}"

lemma finite_unindexed [simp]: "finite (unindexed g s)"
  by (rule finite_subset [of _ "dom (jm_get g)"]) (auto simp: unindexed_def finite_dom_map_of)

lemma unindexed_grows: "grows s new s' \<Longrightarrow> card (unindexed g s') \<le> card (unindexed g s)"
  by (rule card_mono [OF finite_unindexed]) (auto simp: unindexed_def grows_def, metis not_Some_eq)

lemma unindexed_lower [simp]: "unindexed g (tarjan_lower v n s) = unindexed g s"
  by (simp add: unindexed_def)

lemma push_facts:
  assumes "tj_index s v = None"
  shows "grows s [v] (tarjan_push v s)" "jm_has g v \<Longrightarrow> card (unindexed g s) = Suc (card (unindexed g (tarjan_push v s)))"
    "tj_lowlink (tarjan_push v s) v = Some (tj_next s)" "idx (tarjan_push v s) v = tj_next s" "tj_index (tarjan_push v s) v = Some (tj_next s)"
    "keeps_low (tarjan_push v s) v s' \<Longrightarrow> keeps_low s v s'"
proof -
  show "grows s [v] (tarjan_push v s)" using assms by (auto simp: grows_def tarjan_push_def)
  show "card (unindexed g s) = Suc (card (unindexed g (tarjan_push v s)))" if "jm_has g v"
  proof -
    have "unindexed g s = insert v (unindexed g (tarjan_push v s))" "v \<notin> unindexed g (tarjan_push v s)"
      using assms that by (auto simp: unindexed_def tarjan_push_def split: if_splits)
    then show ?thesis by simp
  qed
  show "keeps_low s v s'" if "keeps_low (tarjan_push v s) v s'" using that by (auto simp: keeps_low_def tarjan_push_def split: if_splits)
qed (simp_all add: tarjan_push_def idx_def)

text \<open>The end of a visit, given what the successors did.\<close>

lemma connected_finish:
  assumes g: "graph_ok g" and ok: "tarjan_ok g gray s" "tj_index s v = None"
    and s2: "tarjan_ok g (insert v gray) s2" "visited g v (edges_of g v) (tj_next s) (tarjan_push v s) s2"
  shows "tarjan_ok g gray (tarjan_finish g v s2) \<and> connected g v s (tarjan_finish g v s2)"
proof -
  let ?s1 = "tarjan_push v s"
  note p = push_facts [OF ok(2)]
  obtain new n where n: "grows ?s1 new s2" "keeps_low ?s1 v s2" "tj_lowlink s2 v = Some n" "n \<le> tj_next s"
    "n = tj_next s \<or> (\<exists>y \<in> set (tj_stack s2). idx s2 y = n \<and> (edge g)\<^sup>*\<^sup>* v y)"
    "\<forall>e \<in> set (edges_of g v). tj_index s2 (en_to e) \<noteq> None \<and> (en_to e \<in> set (tj_stack s2) \<longrightarrow> n \<le> idx s2 (en_to e))"
    "\<forall>x \<in> set new. \<forall>y \<in> set (tj_stack ?s1). edge g x y \<longrightarrow> n \<le> idx ?s1 y"
    using s2(2) unfolding visited_def by auto
  have S: "stack_ok g gray s" and S2: "stack_ok g (insert v gray) s2" using ok(1) s2(1) by (simp_all add: tarjan_ok_def)
  have gr: "grows s (new @ [v]) s2" using grows_trans [OF p(1) n(1)] .
  have stack: "tj_stack s2 = new @ v # tj_stack s" using growsD(2) [OF gr] by simp
  have vnew: "v \<notin> set new" using stack_okD(2) [OF S2] stack by auto
  have iv: "tj_index s2 v = Some (tj_next s)" using growsD(1) [OF n(1), of v] p(5) by simp
  then have ixv: "idx s2 v = tj_next s" by (simp add: idx_def)
  have seen: "\<forall>x. edge g v x \<longrightarrow> tj_index s2 x \<noteq> None" using n(6) unfolding edge_def by blast
  have old: "idx s2 y = idx s y" "idx ?s1 y = idx s y" if "y \<in> set (tj_stack s)" for y
    using that stack_okD(3) [OF S] growsD(4) [OF gr] growsD(4) [OF p(1)] by auto
  have out: "n \<le> idx s y" if x: "x \<in> set (new @ [v])" and y: "y \<in> set (tj_stack s)" and e: "edge g x y" for x y
  proof (cases "x = v")
    case True
    then obtain e' where "e' \<in> set (edges_of g v)" "en_to e' = y" using e unfolding edge_def by blast
    then show ?thesis using n(6) y stack old(1) [OF y] by fastforce
  next
    case False
    then have "x \<in> set new" using x by simp
    then show ?thesis using n(7) e y old(2) [OF y] growsD(2) [OF p(1)] by fastforce
  qed
  have kl: "keeps_low s v s2" by (rule p(6) [OF n(2)])
  show ?thesis
  proof (cases "n = tj_next s")
    case True
    then have root: "tj_lowlink s2 v = tj_index s2 v" using n(3) iv by simp
    have none: "\<forall>x \<in> set (new @ [v]). \<forall>y \<in> set (tj_stack s). \<not> edge g x y"
    proof (intro ballI notI)
      fix x y assume "x \<in> set (new @ [v])" and y: "y \<in> set (tj_stack s)" and "edge g x y"
      from out [OF this] have "tj_next s \<le> idx s y" using True by simp
      moreover have "idx s y < tj_next s" using idx_next [OF S] stack_okD(3) [OF S] y by blast
      ultimately show False by simp
    qed
    have above: "\<forall>w \<in> set new. w \<noteq> v \<longrightarrow> idx s2 v \<le> idx s2 w"
      using stack_okD(6) [OF S2] by (auto simp: stack sorted_wrt_append)
    from finish_root [OF g ok(1) s2(1) gr ok(2) vnew ixv above seen none root]
    have f: "tarjan_ok g gray (tarjan_finish g v s2)" "grows s [] (tarjan_finish g v s2)" "tj_index (tarjan_finish g v s2) = tj_index s2"
      "tj_lowlink (tarjan_finish g v s2) = tj_lowlink s2" "v \<notin> set (tj_stack (tarjan_finish g v s2))" by blast+
    then have "connected g v s (tarjan_finish g v s2)"
      unfolding connected_def using iv n(3) True kl by (intro exI [of _ "[]"] exI [of _ n]) (simp add: keeps_low_def)
    with f(1) show ?thesis by blast
  next
    case False
    then obtain y where y: "y \<in> set (tj_stack s2)" "idx s2 y = n" "(edge g)\<^sup>*\<^sup>* v y" using n(5) by blast
    have fin: "tarjan_finish g v s2 = s2" using False n(3) iv by (simp add: tarjan_finish_def)
    have "idx s2 y < idx s2 v" using y(2) False n(4) ixv by simp
    moreover have "gray \<subseteq> set (tj_stack s2)" "v \<in> set (tj_stack s2)" using stack_okD(7) [OF S] stack by auto
    ultimately have "tarjan_ok g gray s2" using finish_inner [OF s2(1) _ _ seen y(1,3)] by blast
    moreover have "connected g v s s2"
      unfolding connected_def using gr kl iv n(3,4) y out stack by (intro exI [of _ "new @ [v]"] exI [of _ n]) auto
    ultimately show ?thesis by (simp add: fin)
  qed
qed

lemma tarjan_main:
  shows "graph_ok g \<Longrightarrow> tarjan_ok g gray s \<Longrightarrow> jm_has g v \<Longrightarrow> tj_index s v = None \<Longrightarrow> \<forall>x \<in> gray. (edge g)\<^sup>*\<^sup>* x v \<Longrightarrow> card (unindexed g s) \<le> n
      \<Longrightarrow> \<exists>s'. strongConnect n g v s = Some s' \<and> tarjan_ok g gray s' \<and> connected g v s s'"
    and "graph_ok g \<Longrightarrow> tarjan_ok g gray s \<Longrightarrow> v \<in> gray \<Longrightarrow> \<forall>x \<in> gray. (edge g)\<^sup>*\<^sup>* x v \<Longrightarrow> set es \<subseteq> set (edges_of g v) \<Longrightarrow> card (unindexed g s) \<le> n
      \<Longrightarrow> tj_lowlink s v = Some m \<Longrightarrow> m \<le> idx s v
      \<Longrightarrow> \<exists>s'. visit_successors n g v es s = Some s' \<and> tarjan_ok g gray s' \<and> visited g v es m s s'"
proof (induction n g v s and n g v es s arbitrary: gray and gray m rule: strongConnect_visit_successors.induct)
  case (1 g v s)
  then have "unindexed g s = {}" using finite_unindexed by (metis card_0_eq le_zero_eq)
  moreover have "v \<in> unindexed g s" using 1 by (simp add: unindexed_def)
  ultimately show ?case by simp
next
  case (2 n g v s)
  note p = push_facts [OF 2(5)]
  have "tarjan_ok g (insert v gray) (tarjan_push v s)" by (rule push_ok [OF 2(3-6)])
  moreover have "card (unindexed g (tarjan_push v s)) \<le> n" using p(2) [OF 2(4)] 2(7) by simp
  moreover have "\<forall>x \<in> insert v gray. (edge g)\<^sup>*\<^sup>* x v" using 2(6) by simp
  ultimately obtain s2 where s2: "visit_successors n g v (edges_of g v) (tarjan_push v s) = Some s2" "tarjan_ok g (insert v gray) s2"
    "visited g v (edges_of g v) (tj_next s) (tarjan_push v s) s2"
    using 2(1) [OF 2(2), of "insert v gray" "tj_next s"] p(3,4) by auto
  from connected_finish [OF 2(2,3,5) s2(2,3)] show ?case by (simp add: s2(1))
next
  case (3 n g v s)
  then show ?case using visited_Nil by auto
next
  case (4 n g v e es s)
  note P = "4.prems"
  have st: "stack_ok g gray s" using P(2) by (simp add: tarjan_ok_def)
  have w: "edge g v (en_to e)" using P(5) by (auto simp: edge_def)
  then have has: "\<not> \<not> jm_has g (en_to e)" using P(1) by (auto simp: graph_ok_def)
  have vi: "tj_index s v \<noteq> None" "idx s v < tj_next s" using stack_okD(3,7) [OF st] idx_next [OF st] P(3) by blast+
  have es: "set es \<subseteq> set (edges_of g v)" using P(5) by simp
  show ?case
  proof (cases "tj_index s (en_to e)")
    case None
    have "\<forall>x \<in> gray. (edge g)\<^sup>*\<^sup>* x (en_to e)" using P(4) w by (meson rtranclp.rtrancl_into_rtrancl)
    from "4.IH"(2) [OF has None P(1,2) _ None this P(6)] has obtain s1 where
      s1: "strongConnect n g (en_to e) s = Some s1" "tarjan_ok g gray s1" "connected g (en_to e) s s1" by blast
    then obtain n1 new1 where n1: "tj_lowlink s1 (en_to e) = Some n1" "grows s new1 s1" "keeps_low s (en_to e) s1" unfolding connected_def by blast
    have ve: "v \<noteq> en_to e" using None vi(1) by auto
    then have lv: "tj_lowlink s1 v = Some m" using n1(3) vi(1) P(7) unfolding keeps_low_def by metis
    let ?s1 = "tarjan_lower v (tj_lowlink s1 (en_to e)) s1"
    have "card (unindexed g ?s1) \<le> n" using unindexed_grows [OF n1(2), of g] P(6) by simp
    moreover have "tj_lowlink ?s1 v = Some (min m n1)" using lower_low(1) [OF lv] n1(1) by simp
    moreover have "min m n1 \<le> idx ?s1 v" using P(8) growsD(4) [OF n1(2) vi(1)] by simp
    ultimately obtain s' where s': "visit_successors n g v es ?s1 = Some s'" "tarjan_ok g gray s'" "visited g v es (min m n1) ?s1 s'"
      using "4.IH"(3) [OF has None s1(1) P(1) _ P(3,4) es] s1(2) by (metis lower_ok)
    have "visited g v (e # es) m s s'"
      by (rule visited_new [OF s1(3) s'(3) [unfolded n1(1)] n1(1) refl None w P(7,8) vi])
        (use stack_okD(3) [OF st] s1(2) stack_okD(3) in \<open>auto simp: tarjan_ok_def\<close>)
    with s' has None s1(1) show ?thesis by simp
  next
    case (Some i)
    let ?on = "tj_onStack s (en_to e)"
    let ?s1 = "if ?on then tarjan_lower v (Some i) s else s"
    have i: "idx s (en_to e) = i" using Some by (simp add: idx_def)
    have "tarjan_ok g gray ?s1" "card (unindexed g ?s1) \<le> n" using P(2,6) by simp_all
    moreover have "tj_lowlink ?s1 v = Some (if ?on then min m i else m)" using lower_low(1) [OF P(7)] P(7) by simp
    moreover have "(if ?on then min m i else m) \<le> idx ?s1 v" using P(8) by auto
    ultimately obtain s' where s': "visit_successors n g v es ?s1 = Some s'" "tarjan_ok g gray s'" "visited g v es (if ?on then min m i else m) ?s1 s'"
      using "4.IH"(4) [OF has Some P(1) _ P(3,4) es] by blast
    have "visited g v (e # es) m s s'"
      by (rule visited_indexed [of g v es ?on m s "en_to e"]) (use s'(3) i Some w stack_okD(1) [OF st] in auto)
    with s' has Some show ?thesis by simp
  qed
qed


section \<open>All nodes\<close>

lemma has_key: "jm_has m k \<longleftrightarrow> k \<in> set (jm_keys m)"
  by (induction m) auto

lemma connect_all_ok:
  "graph_ok g \<Longrightarrow> tarjan_ok g {} s \<Longrightarrow> \<forall>v \<in> set vs. jm_has g v \<Longrightarrow> card (unindexed g s) \<le> n \<Longrightarrow>
   \<exists>s' new. connect_all n g vs s = Some s' \<and> tarjan_ok g {} s' \<and> grows s new s' \<and> (\<forall>v \<in> set vs. tj_index s' v \<noteq> None)"
proof (induction vs arbitrary: s)
  case Nil
  then show ?case using grows_refl by (auto intro: exI [of _ "[]"])
next
  case (Cons v vs)
  show ?case
  proof (cases "tj_index s v = None")
    case True
    obtain s1 where s1: "strongConnect n g v s = Some s1" "tarjan_ok g {} s1" "connected g v s s1"
      using tarjan_main(1) [OF Cons.prems(1,2) _ True _ Cons.prems(4)] Cons.prems(3) by auto
    then obtain new1 where n1: "grows s new1 s1" "tj_index s1 v = Some (tj_next s)" unfolding connected_def by blast
    have "card (unindexed g s1) \<le> n" using unindexed_grows [OF n1(1), of g] Cons.prems(4) by simp
    then obtain s' new where s': "connect_all n g vs s1 = Some s'" "tarjan_ok g {} s'" "grows s1 new s'" "\<forall>v \<in> set vs. tj_index s' v \<noteq> None"
      using Cons.IH [OF Cons.prems(1) s1(2)] Cons.prems(3) by auto
    moreover have "tj_index s' v \<noteq> None" using growsD(1) [OF s'(3), of v] n1(2) by simp
    ultimately show ?thesis using grows_trans [OF n1(1) s'(3)] True s1(1) by auto
  next
    case False
    then obtain s' new where s': "connect_all n g vs s = Some s'" "tarjan_ok g {} s'" "grows s new s'" "\<forall>v \<in> set vs. tj_index s' v \<noteq> None"
      using Cons.IH [OF Cons.prems(1,2)] Cons.prems(3,4) by auto
    moreover have "tj_index s' v \<noteq> None" using growsD(1) [OF s'(3) False] False by simp
    ultimately show ?thesis using False by auto
  qed
qed

lemma start_ok: "tarjan_ok g {} tarjan_start"
  by (simp add: tarjan_ok_def stack_ok_def reach_ok_def sccs_ok_def tarjan_start_def finished_def)

lemma disjoint_distinct:
  "sorted_wrt (\<lambda>c d. set (scc_nodes c) \<inter> set (scc_nodes d) = {}) cs \<Longrightarrow> \<forall>c \<in> set cs. scc_nodes c \<noteq> [] \<Longrightarrow> distinct (map (\<lambda>c. set (scc_nodes c)) cs)"
proof (induction cs)
  case (Cons c cs)
  have "set (scc_nodes c) \<noteq> set (scc_nodes d)" if "d \<in> set cs" for d
  proof -
    have "set (scc_nodes c) \<inter> set (scc_nodes d) = {}" "scc_nodes d \<noteq> []" using Cons.prems that by auto
    then show ?thesis by (metis Int_absorb set_empty)
  qed
  with Cons show ?case by auto
qed simp

lemma findSCCs_ok:
  assumes g: "graph_ok g"
  shows "\<exists>cs. findSCCs g = Some cs \<and> (\<lambda>c. set (scc_nodes c)) ` set cs = {C. \<exists>v. C = component g v \<and> card C > 1}
    \<and> distinct (map (\<lambda>c. set (scc_nodes c)) cs) \<and> (\<forall>c \<in> set cs. c = scc_of g (scc_nodes c) \<and> distinct (scc_nodes c) \<and> length (scc_nodes c) > 1)"
proof -
  have "distinct (jm_keys g)" using g by (simp add: graph_ok_def)
  then have "card (set (jm_keys g)) = length g" using distinct_card by fastforce
  moreover have "unindexed g tarjan_start = set (jm_keys g)"
    using has_key [of g] by (simp add: unindexed_def tarjan_start_def)
  ultimately have n: "card (unindexed g tarjan_start) \<le> length g" by simp
  have keys: "\<forall>v \<in> set (jm_keys g). jm_has g v" using has_key by metis
  obtain s new where s: "connect_all (length g) g (jm_keys g) tarjan_start = Some s" "tarjan_ok g {} s" "\<forall>v \<in> set (jm_keys g). tj_index s v \<noteq> None"
    using connect_all_ok [OF g start_ok keys n] by blast
  have R: "reach_ok g {} s" and C: "sccs_ok g s" using s(2) by (simp_all add: tarjan_ok_def)
  have empty: "tj_stack s = []" using reach_okD(4) [OF R] by (cases "tj_stack s") auto
  have fin: "v \<in> finished s" if "jm_has g v" for v
  proof -
    have "v \<in> set (jm_keys g)" using that has_key by metis
    then have "tj_index s v \<noteq> None" using s(3) by blast
    then show ?thesis using empty by (simp add: finished_def)
  qed
  have single: "component g v = {v}" if "\<not> jm_has g v" for v
  proof -
    have "w = v" if "(edge g)\<^sup>*\<^sup>* v w" for w
      using that \<open>\<not> jm_has g v\<close> edge_node by (induction rule: rtranclp_induct) blast+
    then show ?thesis by (auto simp: component_def)
  qed
  have "(\<lambda>c. set (scc_nodes c)) ` set (tj_sccs s) = {C. \<exists>v. C = component g v \<and> card C > 1}"
  proof (intro equalityI subsetI)
    fix A assume "A \<in> (\<lambda>c. set (scc_nodes c)) ` set (tj_sccs s)"
    then obtain c where c: "c \<in> set (tj_sccs s)" "A = set (scc_nodes c)" by blast
    then have d: "distinct (scc_nodes c)" "length (scc_nodes c) > 1" "\<forall>v \<in> set (scc_nodes c). component g v = set (scc_nodes c)"
      using C unfolding sccs_ok_def by blast+
    then obtain v where "v \<in> set (scc_nodes c)" by (cases "scc_nodes c") auto
    moreover have "card (set (scc_nodes c)) > 1" using distinct_card [OF d(1)] d(2) by simp
    ultimately show "A \<in> {C. \<exists>v. C = component g v \<and> card C > 1}" using c(2) d(3) by auto
  next
    fix A assume "A \<in> {C. \<exists>v. C = component g v \<and> card C > 1}"
    then obtain v where v: "A = component g v" "card (component g v) > 1" by blast
    then have "jm_has g v" using single by fastforce
    then obtain c where c: "c \<in> set (tj_sccs s)" "v \<in> set (scc_nodes c)" using C v(2) fin unfolding sccs_ok_def by blast
    then have "component g v = set (scc_nodes c)" using C unfolding sccs_ok_def by blast
    then show "A \<in> (\<lambda>c. set (scc_nodes c)) ` set (tj_sccs s)" using c(1) v(1) by blast
  qed
  moreover have "distinct (map (\<lambda>c. set (scc_nodes c)) (tj_sccs s))"
  proof -
    have "sorted_wrt (\<lambda>c d. set (scc_nodes c) \<inter> set (scc_nodes d) = {}) (tj_sccs s)" "\<forall>c \<in> set (tj_sccs s). scc_nodes c \<noteq> []"
      using C unfolding sccs_ok_def by fastforce+
    then show ?thesis by (rule disjoint_distinct)
  qed
  ultimately show ?thesis
    using s(1) C unfolding sccs_ok_def findSCCs_def by (intro exI [of _ "tj_sccs s"]) simp
qed

section \<open>The graph of the endorsements\<close>

lemma graph_add_facts:
  "jm_ok g \<Longrightarrow> jm_ok (graph_add e g)"
  "edges_of (graph_add e g) v = (if v = en_from e then edges_of g v @ [e] else edges_of g v)"
  "jm_has (graph_add e g) v \<longleftrightarrow> jm_has g v \<or> v = en_from e \<or> v = en_to e"
  by (auto simp: graph_add_def Let_def edges_of_def split: option.splits)

lemma fold_graph_facts:
  "jm_ok g \<Longrightarrow> jm_ok (fold graph_add es g)"
  "edges_of (fold graph_add es g) v = edges_of g v @ filter (\<lambda>e. en_from e = v) es"
  by (induction es arbitrary: g) (auto simp: graph_add_facts(1,2))

lemma fold_graph_has: "jm_has (fold graph_add es g) v \<longleftrightarrow> jm_has g v \<or> (\<exists>e \<in> set es. v = en_from e \<or> v = en_to e)"
proof (induction es arbitrary: g)
  case (Cons e es)
  have "fold graph_add (e # es) g = fold graph_add es (graph_add e g)" by simp
  then have "jm_has (fold graph_add (e # es) g) v \<longleftrightarrow> jm_has (graph_add e g) v \<or> (\<exists>e \<in> set es. v = en_from e \<or> v = en_to e)"
    using Cons.IH [of "graph_add e g"] by (simp only:)
  then show ?case using graph_add_facts(3) [of e g v] by (simp only: list.set) blast
qed simp

lemma buildGraph_facts: "graph_ok (buildGraph es)" "edges_of (buildGraph es) v = filter (\<lambda>e. en_from e = v) es" "edge (buildGraph es) = endorses es"
proof -
  show e: "edges_of (buildGraph es) v = filter (\<lambda>e. en_from e = v) es" for v
    by (simp add: buildGraph_def fold_graph_facts(2)) (simp add: edges_of_def)
  show "edge (buildGraph es) = endorses es" by (auto simp: fun_eq_iff edge_def endorses_def e)
  then show "graph_ok (buildGraph es)"
    unfolding graph_ok_def
    using fold_graph_facts(1) [of "[]" es] fold_graph_has [of es "[]"] by (metis buildGraph_def distinct.simps(1) endorses_def list.map_disc_iff list.simps(8))
qed

text \<open>The edges of a component, counted over the endorsements.\<close>

lemma count_from:
  "distinct vs \<Longrightarrow> length (filter P (concat (map (\<lambda>v. filter (\<lambda>e. en_from e = v) es) vs))) = length (filter (\<lambda>e. en_from e \<in> set vs \<and> P e) es)"
proof (induction vs)
  case (Cons v vs)
  have "length (filter (\<lambda>e. en_from e \<in> set (v # vs) \<and> P e) es)
      = length (filter (\<lambda>e. en_from e = v \<and> P e) es) + length (filter (\<lambda>e. en_from e \<in> set vs \<and> P e) es)"
    using Cons.prems by (induction es) auto
  then show ?case using Cons by (simp add: conj_commute)
qed simp

text \<open>The agents that endorse each other, directly or through others.\<close>

definition circle :: "endorsement list \<Rightarrow> did \<Rightarrow> did set" where
  "circle es v = {w. (endorses es)\<^sup>*\<^sup>* v w \<and> (endorses es)\<^sup>*\<^sup>* w v}"

definition inside :: "endorsement list \<Rightarrow> did set \<Rightarrow> nat" where
  "inside es A = length (filter (\<lambda>e. en_from e \<in> A \<and> en_to e \<in> A) es)"

definition outgoing :: "endorsement list \<Rightarrow> did set \<Rightarrow> nat" where
  "outgoing es A = length (filter (\<lambda>e. en_from e \<in> A \<and> en_to e \<notin> A) es)"

lemma scc_counts:
  assumes "c = scc_of (buildGraph es) (scc_nodes c)" "distinct (scc_nodes c)"
  shows "scc_internalEdges c = inside es (set (scc_nodes c))" "scc_externalEdges c = outgoing es (set (scc_nodes c))"
proof -
  have e: "edges_of (buildGraph es) = (\<lambda>v. filter (\<lambda>e. en_from e = v) es)" by (simp add: fun_eq_iff buildGraph_facts(2))
  have "scc_internalEdges c = scc_internalEdges (scc_of (buildGraph es) (scc_nodes c))" using assms(1) by (rule arg_cong)
  then show "scc_internalEdges c = inside es (set (scc_nodes c))"
    using count_from [OF assms(2), of "\<lambda>e. en_to e \<in> set (scc_nodes c)" es] by (simp add: scc_of_def Let_def e inside_def)
  have "scc_externalEdges c = scc_externalEdges (scc_of (buildGraph es) (scc_nodes c))" using assms(1) by (rule arg_cong)
  then show "scc_externalEdges c = outgoing es (set (scc_nodes c))"
    using count_from [OF assms(2), of "\<lambda>e. en_to e \<notin> set (scc_nodes c)" es] by (simp add: scc_of_def Let_def e outgoing_def)
qed

lemma circles_found:
  "\<exists>cs. findSCCs (buildGraph es) = Some cs \<and> (\<lambda>c. set (scc_nodes c)) ` set cs = {A. \<exists>v. A = circle es v \<and> card A > 1}
    \<and> distinct (map (\<lambda>c. set (scc_nodes c)) cs)
    \<and> (\<forall>c \<in> set cs. distinct (scc_nodes c) \<and> scc_internalEdges c = inside es (set (scc_nodes c)) \<and> scc_externalEdges c = outgoing es (set (scc_nodes c)))"
proof -
  have "component (buildGraph es) = circle es" by (simp add: fun_eq_iff component_def circle_def buildGraph_facts)
  then obtain cs where cs: "findSCCs (buildGraph es) = Some cs" "(\<lambda>c. set (scc_nodes c)) ` set cs = {A. \<exists>v. A = circle es v \<and> card A > 1}"
    "distinct (map (\<lambda>c. set (scc_nodes c)) cs)" "\<forall>c \<in> set cs. c = scc_of (buildGraph es) (scc_nodes c) \<and> distinct (scc_nodes c) \<and> length (scc_nodes c) > 1"
    using findSCCs_ok [OF buildGraph_facts(1), of es] by auto
  have "\<forall>c \<in> set cs. distinct (scc_nodes c) \<and> scc_internalEdges c = inside es (set (scc_nodes c)) \<and> scc_externalEdges c = outgoing es (set (scc_nodes c))"
    using cs(4) scc_counts by blast
  with cs(1-3) show ?thesis by blast
qed


section \<open>Collusion\<close>

text \<open>A ring of collusion: more than three agents that endorse each other, with less than one endorsement to an outsider
  for five among themselves.\<close>

definition collusion_ring :: "endorsement list \<Rightarrow> did \<Rightarrow> bool" where
  "collusion_ring es v \<longleftrightarrow> card (circle es v) > 3 \<and> 5 * outgoing es (circle es v) < max 1 (inside es (circle es v))"

lemma collusive_iff:
  assumes "distinct (scc_nodes c)" "scc_internalEdges c = inside es (set (scc_nodes c))" "scc_externalEdges c = outgoing es (set (scc_nodes c))"
    "set (scc_nodes c) = circle es v"
  shows "collusive c \<longleftrightarrow> collusion_ring es v"
proof -
  have "length (scc_nodes c) = card (circle es v)" using distinct_card [OF assms(1)] assms(4) by simp
  moreover have ratio: "real x / (if y = 0 then 1 else real y) < 2/10 \<longleftrightarrow> 5 * x < max 1 y" for x y :: nat
    by (cases "y = 0") (auto simp: field_simps)
  ultimately show ?thesis using assms unfolding collusive_def collusion_ring_def ratio by simp
qed

lemma circle_self: "v \<in> circle es v" by (simp add: circle_def)

lemma circle_eq: "w \<in> circle es v \<Longrightarrow> circle es w = circle es v"
  using component_sym [of w "buildGraph es" v] by (simp add: component_def circle_def buildGraph_facts)

lemma collusive_members:
  assumes "(\<lambda>c. set (scc_nodes c)) ` set cs = {A. \<exists>v. A = circle es v \<and> card A > 1}"
    "\<forall>c \<in> set cs. distinct (scc_nodes c) \<and> scc_internalEdges c = inside es (set (scc_nodes c)) \<and> scc_externalEdges c = outgoing es (set (scc_nodes c))"
  shows "(\<exists>c \<in> set cs. v \<in> set (scc_nodes c) \<and> collusive c) \<longleftrightarrow> collusion_ring es v"
proof
  assume "\<exists>c \<in> set cs. v \<in> set (scc_nodes c) \<and> collusive c"
  then obtain c where c: "c \<in> set cs" "v \<in> set (scc_nodes c)" "collusive c" by blast
  then have "set (scc_nodes c) \<in> {A. \<exists>v. A = circle es v \<and> card A > 1}" using assms(1) by blast
  then obtain u where "set (scc_nodes c) = circle es u" by blast
  then have "set (scc_nodes c) = circle es v" using c(2) circle_eq by blast
  then show "collusion_ring es v" using collusive_iff [of c es v] assms(2) c by blast
next
  assume r: "collusion_ring es v"
  then have "circle es v \<in> (\<lambda>c. set (scc_nodes c)) ` set cs" using assms(1) by (auto simp: collusion_ring_def)
  then obtain c where c: "c \<in> set cs" "set (scc_nodes c) = circle es v" by auto
  then have "collusive c" using collusive_iff [of c es v] assms(2) r by blast
  then show "\<exists>c \<in> set cs. v \<in> set (scc_nodes c) \<and> collusive c" using c circle_self by blast
qed

lemma penalties_get: "jm_get (penalties_of cs) v = (if \<exists>c \<in> set cs. v \<in> set (scc_nodes c) \<and> collusive c then Some (1/10) else None)"
proof -
  have inner: "jm_get (fold (\<lambda>v. jm_set v (1/10)) vs m) v = (if v \<in> set vs then Some (1/10) else jm_get m v)" for vs and m :: "(did, real) jsmap"
    by (induction vs arbitrary: m) auto
  have "jm_get (fold (\<lambda>c m. if collusive c then fold (\<lambda>v. jm_set v (1/10)) (scc_nodes c) m else m) cs m) v
      = (if \<exists>c \<in> set cs. v \<in> set (scc_nodes c) \<and> collusive c then Some (1/10) else jm_get m v)" for m :: "(did, real) jsmap"
    by (induction cs arbitrary: m) (auto simp: inner)
  then show ?thesis by (simp add: penalties_of_def)
qed

section \<open>Bounds\<close>

definition endorsement_ok :: "msec \<Rightarrow> endorsement \<Rightarrow> bool" where
  "endorsement_ok now e \<longleftrightarrow> 0 \<le> en_score e \<and> en_score e \<le> 1 \<and> en_timestamp e \<le> now"

definition half_lives_ok :: "trust_config \<Rightarrow> bool" where
  "half_lives_ok cfg \<longleftrightarrow> (\<forall>d x. jm_get (tc_decayHalfLife cfg) d = Some x \<longrightarrow> 0 \<le> x)"

definition env_ok :: "weight_env \<Rightarrow> bool" where
  "env_ok env \<longleftrightarrow> half_lives_ok (we_config env) \<and> (\<forall>v p. jm_get (we_penalties env) v = Some p \<longrightarrow> 0 \<le> p \<and> p \<le> 1)
     \<and> (\<forall>v es. jm_get (we_byTarget env) v = Some es \<longrightarrow> (\<forall>e \<in> set es. endorsement_ok (we_now env) e))"

lemma half_life_pos: "half_lives_ok cfg \<Longrightarrow> half_life cfg d = Some x \<Longrightarrow> 0 < x"
  by (fastforce simp: half_lives_ok_def half_life_def split: option.splits if_splits)

lemma decay_half_life_pos: "half_lives_ok cfg \<Longrightarrow> 0 < getDecayHalfLife cfg d"
  by (auto simp: getDecayHalfLife_def split: option.splits dest: half_life_pos)







section \<open>Histories of the computer\<close>



definition half_lives_given :: "partial_config \<Rightarrow> bool" where
  "half_lives_given p \<longleftrightarrow> (\<forall>kv \<in> set (pc_decayHalfLife p). 0 \<le> snd kv)"




definition unit_score :: "trust_result \<Rightarrow> bool" where
  "unit_score r \<longleftrightarrow> 0 \<le> tr_score r \<and> tr_score r \<le> 1 \<and> 0 \<le> tr_networkScore r \<and> tr_networkScore r \<le> 1"

definition computer_ok :: "msec \<Rightarrow> trust_computer \<Rightarrow> bool" where
  "computer_ok now s \<longleftrightarrow> env_ok (weights_of now s) \<and> (\<forall>k r t. jm_get (tcp_cache s) k = Some (r, t) \<longrightarrow> unit_score r)"


lemma env_ok_weights:
  "env_ok (weights_of now s) \<longleftrightarrow> half_lives_ok (tcp_config s) \<and> (\<forall>v p. jm_get (sccPenaltyCache s) v = Some p \<longrightarrow> 0 \<le> p \<and> p \<le> 1)
     \<and> (\<forall>v es. jm_get (endorsementsByTarget s) v = Some es \<longrightarrow> (\<forall>e \<in> set es. endorsement_ok now e))"
  by (simp add: env_ok_def weights_of_def)




lemma rebuild_some:
  obtains cs where "findSCCs (buildGraph es) = Some cs"
    "rebuildSccPenaltyCache now es s = Some (s\<lparr>sccPenaltyCache := penalties_of cs, sccCacheExpiresAt := now + SCC_CACHE_TTL\<rparr>)"
    "detectCollusion v es = Some (collusion_ring es v)"
    "\<And>v. (\<exists>c \<in> set cs. v \<in> set (scc_nodes c) \<and> collusive c) \<longleftrightarrow> collusion_ring es v"
proof -
  obtain cs where cs: "findSCCs (buildGraph es) = Some cs" "(\<lambda>c. set (scc_nodes c)) ` set cs = {A. \<exists>v. A = circle es v \<and> card A > 1}"
    "\<forall>c \<in> set cs. distinct (scc_nodes c) \<and> scc_internalEdges c = inside es (set (scc_nodes c)) \<and> scc_externalEdges c = outgoing es (set (scc_nodes c))"
    using circles_found [of es] by blast
  have m: "(\<exists>c \<in> set cs. v \<in> set (scc_nodes c) \<and> collusive c) \<longleftrightarrow> collusion_ring es v" for v
    by (rule collusive_members [OF cs(2,3)])
  show ?thesis
    using that [OF cs(1)] cs(1) m by (simp add: rebuildSccPenaltyCache_def detectCollusion_def)
qed


lemma merge_half_lives:
  assumes "half_lives_ok cfg" "half_lives_given p"
  shows "half_lives_ok (merge_config cfg p)"
proof -
  have "\<forall>d x. jm_get (fold (\<lambda>(k, v). jm_set k v) kvs m) d = Some x \<longrightarrow> 0 \<le> x"
    if "\<forall>kv \<in> set kvs. 0 \<le> snd kv" "\<forall>d x. jm_get m d = Some x \<longrightarrow> 0 \<le> x" for kvs and m :: "(string, real) jsmap"
    using that
  proof (induction kvs arbitrary: m)
    case (Cons kv kvs)
    have m: "\<forall>d x. jm_get (jm_set (fst kv) (snd kv) m) d = Some x \<longrightarrow> 0 \<le> x" using Cons.prems by auto
    have kvs: "\<forall>kv \<in> set kvs. 0 \<le> snd kv" using Cons.prems(1) by simp
    have step: "fold (\<lambda>(k, v). jm_set k v) (kv # kvs) m = fold (\<lambda>(k, v). jm_set k v) kvs (jm_set (fst kv) (snd kv) m)"
      by (cases kv) simp
    show ?case unfolding step by (rule Cons.IH [OF kvs m])
  qed auto
  from this [of "pc_decayHalfLife p" "tc_decayHalfLife cfg"] assms show ?thesis
    unfolding half_lives_ok_def half_lives_given_def merge_config_def trust_config.simps by blast
qed





lemma new_computer_ok: "half_lives_given p \<Longrightarrow> computer_ok t0 (new_trust_computer p)"
proof -
  assume "half_lives_given p"
  moreover have "half_lives_ok DEFAULT_CONFIG" by (simp add: half_lives_ok_def DEFAULT_CONFIG_def)
  ultimately have "half_lives_ok (merge_config DEFAULT_CONFIG p)" by (simp add: merge_half_lives)
  then show ?thesis by (simp add: computer_ok_def env_ok_weights new_trust_computer_def Let_def half_lives_ok_def)
qed


section \<open>Properties\<close>

text \<open>C27: \<open>findSCCs\<close> on the graph of any list of endorsements returns a result, and its components are exactly the sets of
  more than one agent that endorse each other directly or through others: every such set once, each with its agents once, the
  number of endorsements among its agents and the number of those it gives to agents outside.\<close>

theorem tarjan_finds_circles:
  "\<exists>cs. findSCCs (buildGraph es) = Some cs \<and> (\<lambda>c. set (scc_nodes c)) ` set cs = {A. \<exists>v. A = circle es v \<and> card A > 1}
    \<and> distinct (map (\<lambda>c. set (scc_nodes c)) cs)
    \<and> list_all (\<lambda>c. distinct (scc_nodes c) \<and> scc_internalEdges c = inside es (set (scc_nodes c)) \<and> scc_externalEdges c = outgoing es (set (scc_nodes c))) cs"
  using circles_found [of es] by (simp add: list_all_iff)

text \<open>Collusion is detected exactly for the members of a ring: more than three agents that endorse each other, with less
  than one endorsement to an outsider for every five among themselves. After \<open>rebuildSccPenaltyCache\<close> exactly the
  members of such rings have their weight multiplied by 0.1, for the lifetime of the cache.\<close>

theorem collusion_detection_exact:
  "detectCollusion target es = Some (collusion_ring es target)
   \<and> (\<exists>s'. rebuildSccPenaltyCache now es s = Some s' \<and> sccCacheExpiresAt s' = now + SCC_CACHE_TTL
        \<and> (\<forall>v. getCollusionPenalty (sccPenaltyCache s') v = (if collusion_ring es v then 1/10 else 1)))"
proof -
  obtain cs where cs: "rebuildSccPenaltyCache now es s = Some (s\<lparr>sccPenaltyCache := penalties_of cs, sccCacheExpiresAt := now + SCC_CACHE_TTL\<rparr>)"
    "detectCollusion target es = Some (collusion_ring es target)"
    "\<And>v. (\<exists>c \<in> set cs. v \<in> set (scc_nodes c) \<and> collusive c) \<longleftrightarrow> collusion_ring es v"
    by (rule rebuild_some [of es now s target]) blast
  then show ?thesis by (simp add: getCollusionPenalty_def penalties_get)
qed


definition no_config :: partial_config where
  "no_config = \<lparr>pc_seedPeers = None, pc_maxRecursionDepth = None, pc_decayHalfLife = [], pc_localInteractionWeight = None,
     pc_networkEndorsementWeight = None\<rparr>"

definition sample_endorsement :: "msec \<Rightarrow> did \<Rightarrow> did \<Rightarrow> endorsement" where
  "sample_endorsement t a b = \<lparr>en_version = 2, en_from = a, en_to = b, en_score = 1, en_domain = None, en_reason = ''r'', en_timestamp = t,
     en_expires = None, en_signature = ''s''\<rparr>"



lemma js_set_add_empty: "x \<in> set (js_set_add y []) \<longleftrightarrow> x = y"
  by (auto simp: js_set_add_def)

text \<open>An endorsement dated in the future counts more than a full one: with a single unexpired endorsement of score 1 whose
  timestamp is later than the clock, a new computer with the default recursion depth gives a network score above 1.\<close>

theorem future_endorsement_exceeds:
  assumes "half_lives_given p" "pc_maxRecursionDepth p = None" "0 < now" "now < en_timestamp e" "en_score e = 1" "\<not> expired_at now e"
  shows "\<exists>r s. computeTrust now target [e] localScore n None None (new_trust_computer p) = Some (r, s) \<and> 1 < tr_networkScore r"
proof -
  let ?s = "new_trust_computer p"
  obtain cs where r: "rebuildSccPenaltyCache now [e] ?s = Some (?s\<lparr>sccPenaltyCache := penalties_of cs, sccCacheExpiresAt := now + SCC_CACHE_TTL\<rparr>)"
    and c: "detectCollusion target [e] = Some (collusion_ring [e] target)"
    by (rule rebuild_some)
  let ?s2 = "?s\<lparr>sccPenaltyCache := penalties_of cs, sccCacheExpiresAt := now + SCC_CACHE_TTL\<rparr>"
  let ?env = "weights_of now ?s2" and ?v = "en_from e"
  have cfg: "half_lives_ok (tcp_config ?s)" using new_computer_ok [OF assms(1), of now] by (simp add: computer_ok_def env_ok_weights)
  have depth: "tc_maxRecursionDepth (tcp_config ?s) = 3" using assms(2) by (simp add: new_trust_computer_def merge_config_def DEFAULT_CONFIG_def Let_def)
  let ?w = "getEndorserWeight ?env None ?v 1 (js_set_add target []) * getCollusionPenalty (penalties_of cs) ?v"
  let ?d = "computeTimeDecay (tcp_config ?s) now e None"
  have w: "0 < getEndorserWeight ?env None ?v 1 (js_set_add target [])" "0 < getCollusionPenalty (penalties_of cs) ?v"
    by (simp_all add: getEndorserWeight_def getCollusionPenalty_def penalties_get weights_of_def new_trust_computer_def Let_def)
  then have "getEndorserWeight ?env None ?v 1 (js_set_add target []) \<noteq> 0" "getCollusionPenalty (penalties_of cs) ?v \<noteq> 0" "0 < ?w"
    by (simp_all only: mult_pos_pos less_irrefl not_False_eq_True less_imp_neq [symmetric])
  note w = this
  have d: "1 < ?d" using assms(4) decay_half_life_pos [OF cfg] by (auto simp: computeTimeDecay_def Let_def divide_neg_pos)
  have "computeNetworkTrust ?env None target [e] 0 [] = ?d"
    unfolding computeNetworkTrust_unfold [of ?env None target "[e]" 0 "[]"]
    using w assms(5,6) by (simp add: weights_of_def depth add_endorsement_def weighted_average_def Let_def)
  then show ?thesis
    using d assms(3) r c
    by (simp add: computeTrust_def compute_fresh_def new_trust_computer_def Let_def filterByDomain_def given_string_def)
qed

theorem future_endorsement_exceeds_witness:
  "\<exists>r s. computeTrust 10 ''b'' [sample_endorsement 20 ''a'' ''b''] 0 0 None None (new_trust_computer no_config) = Some (r, s) \<and> 1 < tr_networkScore r"
  by (rule future_endorsement_exceeds) (simp_all add: no_config_def half_lives_given_def sample_endorsement_def expired_at_def)

end
