(* ===== verification/Message_Store.thy ===== *)
theory Message_Store
  imports Message_Envelope Trust_System
begin

text \<open>
  The message store of an agent: \<open>js/core/protocol/src/messaging/types.ts\<close>, \<open>status.ts\<close>, \<open>timestamp.ts\<close> and \<open>storage.ts\<close>.
  One \<open>level\<close> database holds messages, their indexes, the block list, the allow list, the seen cache, the rate limits and
  the sessions; a value is a \<open>store_value\<close>, and the first part of its key says which. Each asynchronous operation is one step.
  The clock is the argument \<open>now\<close>.
\<close>

section \<open>Text\<close>

text \<open>What the platform does with text: \<open>String(x)\<close> of a number and of a JSON value, \<open>localeCompare\<close>, \<open>toLowerCase\<close> and
  \<open>slice(0, n)\<close>, which counts UTF-16 units.\<close>

record text_ops =
  number_text :: "rat \<Rightarrow> string"
  json_string :: "json \<Rightarrow> string"
  locale_compare :: "string \<Rightarrow> string \<Rightarrow> rat"
  lower_case :: "string \<Rightarrow> string"
  text_take :: "nat \<Rightarrow> string \<Rightarrow> string"

text \<open>\<open>padStart(16, '0')\<close>.\<close>

definition pad16 :: "string \<Rightarrow> string" where
  "pad16 s = replicate (16 - length s) (CHR ''0'') @ s"

text \<open>\<open>haystack.includes(needle)\<close>.\<close>

definition js_includes :: "string \<Rightarrow> string \<Rightarrow> bool" where
  "js_includes s t = sublist t s"

section \<open>Data\<close>

datatype direction = Inbound | Outbound
datatype message_status = MsPending | MsDelivered | MsFailed | MsArchived
datatype delivery_state = DlPending | DlSent | DlReceived | DlFailed
datatype e2e_transport = ViaPrekey | ViaSession

text \<open>An \<open>error\<close> that is not given is \<open>None\<close>; one given as \<open>undefined\<close>, which takes away an earlier one, is \<open>Some None\<close>.\<close>

record delivery =
  dl_transport :: e2e_transport
  dl_transportMessageId :: "string option"
  dl_senderDeviceId :: string
  dl_receiverDeviceId :: string
  dl_sessionId :: string
  dl_state :: delivery_state
  dl_recordedAt :: msec
  dl_usedSkippedMessageKey :: "bool option"
  dl_error :: "string option option"

record retry_meta =
  rm_replayCount :: int
  rm_lastRequestedAt :: "rat option"
  rm_lastReplayedAt :: "rat option"
  rm_lastReason :: "string option"

record e2e_meta =
  e2_deliveries :: "delivery list"
  e2_retry :: "retry_meta option"

record stored_message =
  sm_envelope :: message_envelope
  sm_direction :: direction
  sm_status :: message_status
  sm_receivedAt :: "msec option"
  sm_sentAt :: "msec option"
  sm_readAt :: "msec option"
  sm_trustScore :: "rat option"
  sm_trustStatus :: "trust_status option"
  sm_error :: "string option"
  sm_e2e :: "e2e_meta option"

text \<open>A field of the filter that takes a text or a list of texts is a list; the empty text counts as no filter.\<close>

record message_filter =
  mf_fromDid :: "did list option"
  mf_toDid :: "did list option"
  mf_protocol :: "string list option"
  mf_minTrustScore :: "rat option"
  mf_maxAge :: "rat option"
  mf_type :: "envelope_type option"
  mf_replyTo :: "string list option"
  mf_unreadOnly :: bool
  mf_status :: "message_status list option"
  mf_threadId :: "string option"

definition no_filter :: message_filter where
  "no_filter = \<lparr>mf_fromDid = None, mf_toDid = None, mf_protocol = None, mf_minTrustScore = None, mf_maxAge = None, mf_type = None,
     mf_replyTo = None, mf_unreadOnly = False, mf_status = None, mf_threadId = None\<rparr>"

record session_meta =
  se_threadId :: string
  se_peerDid :: did
  se_startedAt :: rat
  se_lastMessageAt :: rat
  se_messageCount :: int
  se_title :: "string option"
  se_archived :: bool
  se_archivedAt :: "msec option"

record message_page =
  mp_messages :: "stored_message list"
  mp_total :: nat
  mp_hasMore :: bool

record block_entry =
  bl_did :: did
  bl_reason :: string
  bl_blockedAt :: msec
  bl_blockedBy :: string

record allow_entry =
  al_did :: did
  al_addedAt :: msec
  al_note :: "string option"

record seen_entry =
  sn_messageId :: string
  sn_seenAt :: msec
  sn_fromDid :: did

record rate_state =
  ra_did :: did
  ra_tokens :: rat
  ra_lastRefill :: msec
  ra_totalRequests :: int
  ra_firstSeen :: msec

datatype store_value =
    VMessage stored_message | VBlock block_entry | VAllow allow_entry | VSeen seen_entry | VRate rate_state | VSession session_meta | VIndex

section \<open>Status\<close>

definition some_delivery :: "(delivery_state \<Rightarrow> bool) \<Rightarrow> stored_message \<Rightarrow> bool" where
  "some_delivery P m = (case sm_e2e m of None \<Rightarrow> False | Some e \<Rightarrow> \<exists>d \<in> set (e2_deliveries e). P (dl_state d))"

definition storedMessageStatus :: "stored_message \<Rightarrow> message_status" where
  "storedMessageStatus m =
     (if sm_status m = MsArchived then MsArchived
      else if sm_status m = MsFailed \<or> some_delivery (\<lambda>s. s = DlFailed) m then MsFailed
      else if sm_direction m = Inbound then (if sm_readAt m \<noteq> None then MsDelivered else MsPending)
      else if sm_status m = MsDelivered \<or> some_delivery (\<lambda>s. s = DlSent \<or> s = DlReceived) m then MsDelivered
      else MsPending)"

section \<open>Times\<close>

definition MAX_MESSAGE_SORT_SKEW_MS :: rat where
  "MAX_MESSAGE_SORT_SKEW_MS = 5 * 60 * 1000"

definition normalizeTimestamp :: "rat option \<Rightarrow> rat option" where
  "normalizeTimestamp v = (case v of Some x \<Rightarrow> if x \<ge> 0 then Some x else None | None \<Rightarrow> None)"

definition getMessageLocalTimestamp :: "stored_message \<Rightarrow> rat option" where
  "getMessageLocalTimestamp m = (case normalizeTimestamp (map_option of_int (sm_receivedAt m)) of
     Some x \<Rightarrow> Some x | None \<Rightarrow> normalizeTimestamp (map_option of_int (sm_sentAt m)))"

definition getMessageEnvelopeTimestamp :: "stored_message \<Rightarrow> rat option" where
  "getMessageEnvelopeTimestamp m = normalizeTimestamp (Some (me_timestamp (sm_envelope m)))"

definition getMessageSortTimestamp :: "stored_message \<Rightarrow> rat" where
  "getMessageSortTimestamp m = (case getMessageEnvelopeTimestamp m of
     Some e \<Rightarrow> (case getMessageLocalTimestamp m of Some l \<Rightarrow> if \<bar>l - e\<bar> > MAX_MESSAGE_SORT_SKEW_MS then l else e | None \<Rightarrow> e)
   | None \<Rightarrow> (case getMessageLocalTimestamp m of Some l \<Rightarrow> l | None \<Rightarrow> 0))"

definition or_zero :: "rat option \<Rightarrow> rat" where
  "or_zero x = (case x of Some v \<Rightarrow> v | None \<Rightarrow> 0)"

definition compareMessagesBySortTimestamp :: "text_ops \<Rightarrow> stored_message \<Rightarrow> stored_message \<Rightarrow> rat" where
  "compareMessagesBySortTimestamp tx l r =
     (if getMessageSortTimestamp l \<noteq> getMessageSortTimestamp r then getMessageSortTimestamp l - getMessageSortTimestamp r
      else if or_zero (getMessageLocalTimestamp l) \<noteq> or_zero (getMessageLocalTimestamp r)
        then or_zero (getMessageLocalTimestamp l) - or_zero (getMessageLocalTimestamp r)
      else if or_zero (getMessageEnvelopeTimestamp l) \<noteq> or_zero (getMessageEnvelopeTimestamp r)
        then or_zero (getMessageEnvelopeTimestamp l) - or_zero (getMessageEnvelopeTimestamp r)
      else locale_compare tx (me_id (sm_envelope l)) (me_id (sm_envelope r)))"

section \<open>Merging\<close>

definition buildE2EDeliveryKey :: "delivery \<Rightarrow> string" where
  "buildE2EDeliveryKey d = dl_senderDeviceId d @ '':'' @ dl_receiverDeviceId d @ '':'' @ dl_sessionId d"

text \<open>\<open>incoming ?? existing\<close>; also a spread whose optional property may be missing.\<close>

definition newer :: "'a option \<Rightarrow> 'a option \<Rightarrow> 'a option" where
  "newer incoming existing = (case incoming of Some x \<Rightarrow> Some x | None \<Rightarrow> existing)"

definition spread_delivery :: "delivery \<Rightarrow> delivery \<Rightarrow> delivery" where
  "spread_delivery previous d = d\<lparr>dl_transportMessageId := newer (dl_transportMessageId d) (dl_transportMessageId previous),
     dl_usedSkippedMessageKey := newer (dl_usedSkippedMessageKey d) (dl_usedSkippedMessageKey previous), dl_error := newer (dl_error d) (dl_error previous)\<rparr>"

definition compare_deliveries :: "text_ops \<Rightarrow> delivery \<Rightarrow> delivery \<Rightarrow> rat" where
  "compare_deliveries tx l r =
     (let a = locale_compare tx (dl_receiverDeviceId l) (dl_receiverDeviceId r); b = locale_compare tx (dl_senderDeviceId l) (dl_senderDeviceId r)
      in if a \<noteq> 0 then a else if b \<noteq> 0 then b else locale_compare tx (dl_sessionId l) (dl_sessionId r))"

definition merge_one_delivery :: "delivery \<Rightarrow> (string, delivery) jsmap \<Rightarrow> (string, delivery) jsmap" where
  "merge_one_delivery d m = jm_set (buildE2EDeliveryKey d)
     (case jm_get m (buildE2EDeliveryKey d) of Some previous \<Rightarrow> spread_delivery previous d | None \<Rightarrow> d) m"

definition mergeE2EDeliveries :: "text_ops \<Rightarrow> delivery list \<Rightarrow> delivery list \<Rightarrow> delivery list" where
  "mergeE2EDeliveries tx existing incoming =
     js_sort (compare_deliveries tx) (jm_vals (fold merge_one_delivery incoming (fold (\<lambda>d. jm_set (buildE2EDeliveryKey d) d) existing [])))"

definition deliveries_of :: "stored_message \<Rightarrow> delivery list" where
  "deliveries_of m = (case sm_e2e m of Some e \<Rightarrow> e2_deliveries e | None \<Rightarrow> [])"

definition retry_of :: "stored_message \<Rightarrow> retry_meta option" where
  "retry_of m = Option.bind (sm_e2e m) e2_retry"

definition mergeStoredMessageE2EDeliveries :: "text_ops \<Rightarrow> stored_message \<Rightarrow> delivery list \<Rightarrow> stored_message" where
  "mergeStoredMessageE2EDeliveries tx m ds = (if ds = [] then m
     else m\<lparr>sm_e2e := Some \<lparr>e2_deliveries = mergeE2EDeliveries tx (deliveries_of m) ds, e2_retry = retry_of m\<rparr>\<rparr>)"

definition mergeE2ERetryMetadata :: "retry_meta option \<Rightarrow> retry_meta option \<Rightarrow> retry_meta option" where
  "mergeE2ERetryMetadata existing incoming = (case existing of None \<Rightarrow> incoming
     | Some e \<Rightarrow> (case incoming of None \<Rightarrow> Some e
       | Some i \<Rightarrow> Some \<lparr>rm_replayCount = max (rm_replayCount e) (rm_replayCount i),
           rm_lastRequestedAt = newer (rm_lastRequestedAt i) (rm_lastRequestedAt e), rm_lastReplayedAt = newer (rm_lastReplayedAt i) (rm_lastReplayedAt e),
           rm_lastReason = newer (rm_lastReason i) (rm_lastReason e)\<rparr>))"

text \<open>Both messages are normalised, so that every property of the incoming envelope is there and replaces the one of the
  existing envelope.\<close>

definition mergeStoredMessages :: "text_ops \<Rightarrow> stored_message \<Rightarrow> stored_message \<Rightarrow> stored_message" where
  "mergeStoredMessages tx existing incoming =
     (let merged = incoming\<lparr>sm_status := sm_status existing, sm_receivedAt := newer (sm_receivedAt existing) (sm_receivedAt incoming),
            sm_sentAt := newer (sm_sentAt existing) (sm_sentAt incoming), sm_readAt := newer (sm_readAt existing) (sm_readAt incoming),
            sm_trustScore := newer (sm_trustScore incoming) (sm_trustScore existing),
            sm_trustStatus := newer (sm_trustStatus incoming) (sm_trustStatus existing), sm_error := newer (sm_error incoming) (sm_error existing),
            sm_e2e := sm_e2e existing\<rparr>;
          withDeliveries = mergeStoredMessageE2EDeliveries tx merged (deliveries_of incoming)
      in if retry_of existing = None \<and> retry_of incoming = None then withDeliveries
         else withDeliveries\<lparr>sm_e2e := Some \<lparr>e2_deliveries = deliveries_of withDeliveries,
                e2_retry = mergeE2ERetryMetadata (retry_of existing) (retry_of incoming)\<rparr>\<rparr>)"

section \<open>Records of messages\<close>

definition normalizeStoredMessage :: "stored_message \<Rightarrow> stored_message option" where
  "normalizeStoredMessage m = map_option (\<lambda>e. m\<lparr>sm_envelope := e, sm_status := storedMessageStatus (m\<lparr>sm_envelope := e\<rparr>)\<rparr>)
     (normalizeEnvelope (envelope_json (sm_envelope m)))"

definition direction_name :: "direction \<Rightarrow> string" where
  "direction_name d = (case d of Inbound \<Rightarrow> ''inbound'' | Outbound \<Rightarrow> ''outbound'')"

definition message_prefix :: "direction \<Rightarrow> string" where
  "message_prefix d = ''msg:'' @ direction_name d @ '':''"

definition as_message :: "string \<times> store_value \<Rightarrow> (string \<times> stored_message) option" where
  "as_message kv = (case snd kv of VMessage m \<Rightarrow> Some (fst kv, m) | _ \<Rightarrow> None)"

text \<open>The keys and messages under a prefix, in the order of the keys.\<close>

definition messages_under :: "('d, store_value) level_ops \<Rightarrow> string \<Rightarrow> 'd \<Rightarrow> (string \<times> stored_message) list" where
  "messages_under ops p db = List.map_filter as_message (lv_range ops p (p @ js_ff) db)"

definition normalized_under :: "('d, store_value) level_ops \<Rightarrow> string \<Rightarrow> 'd \<Rightarrow> (string \<times> stored_message) list" where
  "normalized_under ops p db = List.map_filter (\<lambda>(k, m). map_option (Pair k) (normalizeStoredMessage m)) (messages_under ops p db)"

definition find_in :: "('d, store_value) level_ops \<Rightarrow> string \<Rightarrow> direction \<Rightarrow> 'd \<Rightarrow> (string \<times> stored_message) option" where
  "find_in ops i d db = List.find (\<lambda>(k, m). me_id (sm_envelope m) = i) (normalized_under ops (message_prefix d) db)"

definition findStoredMessageRecord :: "('d, store_value) level_ops \<Rightarrow> string \<Rightarrow> direction option \<Rightarrow> 'd \<Rightarrow> (string \<times> stored_message) option" where
  "findStoredMessageRecord ops i dir db = (case dir of Some d \<Rightarrow> find_in ops i d db
     | None \<Rightarrow> (case find_in ops i Inbound db of Some r \<Rightarrow> Some r | None \<Rightarrow> find_in ops i Outbound db))"

definition requireStoredMessage :: "stored_message \<Rightarrow> e2e_error + stored_message" where
  "requireStoredMessage m = (case normalizeStoredMessage m of
     None \<Rightarrow> Inl (JsError (''Invalid stored message envelope: '' @ me_id (sm_envelope m))) | Some n \<Rightarrow> Inr n)"

definition getTimestampSegmentFromStorageKey :: "string \<Rightarrow> string" where
  "getTimestampSegmentFromStorageKey key = (let parts = js_split CHR '':'' key in if length parts > 2 then parts ! 2 else ''0000000000000000'')"

section \<open>Messages\<close>

definition session_key :: "string \<Rightarrow> string" where
  "session_key t = ''session:'' @ t"

definition json_field :: "json \<Rightarrow> string \<Rightarrow> json option" where
  "json_field v k = (case v of JObj m \<Rightarrow> jm_get m k | _ \<Rightarrow> None)"

text \<open>\<open>a ?? b\<close> of a value that may be absent or \<open>null\<close>.\<close>

definition or_else_json :: "json option \<Rightarrow> json \<Rightarrow> json" where
  "or_else_json v d = (case v of None \<Rightarrow> d | Some x \<Rightarrow> if x = JNull then d else x)"

definition json_truthy :: "json \<Rightarrow> bool" where
  "json_truthy v = (case v of JNull \<Rightarrow> False | JBool b \<Rightarrow> b | JNum x \<Rightarrow> x \<noteq> 0 | JStr s \<Rightarrow> s \<noteq> [] | JArr _ \<Rightarrow> True | JObj _ \<Rightarrow> True)"

definition session_title :: "text_ops \<Rightarrow> json \<Rightarrow> string option" where
  "session_title tx payload =
     (let txt = (case payload of
          JObj _ \<Rightarrow> or_else_json (json_field payload ''text'') (or_else_json (json_field payload ''message'') (JStr []))
        | JArr _ \<Rightarrow> JStr []
        | _ \<Rightarrow> JStr (if payload = JNull then [] else json_string tx payload))
      in if json_truthy txt then Some (text_take tx 50 (json_string tx txt)) else None)"

definition updateSessionMeta :: "('d, store_value) level_ops \<Rightarrow> text_ops \<Rightarrow> stored_message \<Rightarrow> 'd \<Rightarrow> 'd" where
  "updateSessionMeta ops tx m db = (case given_string (me_threadId (sm_envelope m)) of None \<Rightarrow> db
     | Some t \<Rightarrow>
       (let ts = getMessageSortTimestamp m
        in case lv_get ops db (session_key t) of
             Some (VSession s) \<Rightarrow> lv_put ops (session_key t) (VSession (s\<lparr>se_startedAt := min (se_startedAt s) ts,
               se_lastMessageAt := max (se_lastMessageAt s) ts, se_messageCount := se_messageCount s + 1\<rparr>)) db
           | _ \<Rightarrow> lv_put ops (session_key t) (VSession \<lparr>se_threadId = t,
               se_peerDid = (if sm_direction m = Inbound then me_from (sm_envelope m) else me_to (sm_envelope m)), se_startedAt = ts, se_lastMessageAt = ts,
               se_messageCount = 1, se_title = session_title tx (me_payload (sm_envelope m)), se_archived = False, se_archivedAt = None\<rparr>) db))"

definition message_key :: "direction \<Rightarrow> string \<Rightarrow> string \<Rightarrow> string" where
  "message_key d ts i = message_prefix d @ ts @ '':'' @ i"

definition from_key :: "did \<Rightarrow> string \<Rightarrow> string \<Rightarrow> string" where
  "from_key f ts i = ''idx:from:'' @ f @ '':'' @ ts @ '':'' @ i"

definition thread_prefix :: "string \<Rightarrow> string" where
  "thread_prefix t = ''idx:thread:'' @ t @ '':''"

definition thread_key :: "string \<Rightarrow> string \<Rightarrow> string \<Rightarrow> string" where
  "thread_key t ts i = thread_prefix t @ ts @ '':'' @ i"

definition insert_message :: "('d, store_value) level_ops \<Rightarrow> text_ops \<Rightarrow> stored_message \<Rightarrow> 'd \<Rightarrow> 'd" where
  "insert_message ops tx m db =
     (let ts = pad16 (number_text tx (getMessageSortTimestamp m)); i = me_id (sm_envelope m);
          db1 = lv_put ops (message_key (sm_direction m) ts i) (VMessage m) db;
          db2 = lv_put ops (from_key (me_from (sm_envelope m)) ts i) VIndex db1
      in case given_string (me_threadId (sm_envelope m)) of None \<Rightarrow> db2
         | Some t \<Rightarrow> updateSessionMeta ops tx m (lv_put ops (thread_key t ts i) VIndex db2))"

definition putMessage :: "('d, store_value) level_ops \<Rightarrow> text_ops \<Rightarrow> stored_message \<Rightarrow> 'd \<Rightarrow> e2e_error + 'd" where
  "putMessage ops tx m db = and_then (requireStoredMessage m) (\<lambda>n.
     case findStoredMessageRecord ops (me_id (sm_envelope n)) None db of
       Some (k, existing) \<Rightarrow> Inr (lv_put ops k (VMessage (mergeStoredMessages tx existing n)) db)
     | None \<Rightarrow> Inr (insert_message ops tx n db))"

definition getMessage :: "('d, store_value) level_ops \<Rightarrow> string \<Rightarrow> direction option \<Rightarrow> 'd \<Rightarrow> stored_message option" where
  "getMessage ops i dir db = map_option snd (findStoredMessageRecord ops i dir db)"

definition getMessageByTransportMessageId :: "('d, store_value) level_ops \<Rightarrow> string \<Rightarrow> direction option \<Rightarrow> 'd \<Rightarrow> stored_message option" where
  "getMessageByTransportMessageId ops t dir db = List.find (\<lambda>m. (case dir of None \<Rightarrow> True | Some d \<Rightarrow> sm_direction m = d)
     \<and> (\<exists>d \<in> set (deliveries_of m). dl_transportMessageId d = Some t)) (map snd (normalized_under ops ''msg:'' db))"

text \<open>\<open>updateMessage\<close> with the partial message \<open>updates\<close>, a change of the record.\<close>

definition updateMessage :: "('d, store_value) level_ops \<Rightarrow> string \<Rightarrow> (stored_message \<Rightarrow> stored_message) \<Rightarrow> 'd \<Rightarrow> 'd" where
  "updateMessage ops i updates db = (case findStoredMessageRecord ops i None db of None \<Rightarrow> db
     | Some (k, m) \<Rightarrow> lv_put ops k (VMessage (updates m)) db)"

definition upsertE2EDeliveries :: "('d, store_value) level_ops \<Rightarrow> text_ops \<Rightarrow> string \<Rightarrow> delivery list \<Rightarrow> 'd \<Rightarrow> stored_message option \<times> 'd" where
  "upsertE2EDeliveries ops tx i ds db =
     (if ds = [] then (getMessage ops i None db, db)
      else case findStoredMessageRecord ops i None db of None \<Rightarrow> (None, db)
        | Some (k, m) \<Rightarrow> (let merged = mergeStoredMessageE2EDeliveries tx m ds in (Some merged, lv_put ops k (VMessage merged) db)))"

definition upsertE2ERetry :: "('d, store_value) level_ops \<Rightarrow> string \<Rightarrow> retry_meta \<Rightarrow> 'd \<Rightarrow> stored_message option \<times> 'd" where
  "upsertE2ERetry ops i retry db = (case findStoredMessageRecord ops i (Some Outbound) db of None \<Rightarrow> (None, db)
     | Some (k, m) \<Rightarrow> (let merged = m\<lparr>sm_e2e := Some \<lparr>e2_deliveries = deliveries_of m, e2_retry = mergeE2ERetryMetadata (retry_of m) (Some retry)\<rparr>\<rparr>
         in (Some merged, lv_put ops k (VMessage merged) db)))"

definition deleteMessage :: "('d, store_value) level_ops \<Rightarrow> string \<Rightarrow> 'd \<Rightarrow> 'd" where
  "deleteMessage ops i db = (case findStoredMessageRecord ops i None db of None \<Rightarrow> db
     | Some (k, m) \<Rightarrow>
       (let ts = getTimestampSegmentFromStorageKey k;
            db2 = lv_del ops (from_key (me_from (sm_envelope m)) ts i) (lv_del ops k db)
        in case given_string (me_threadId (sm_envelope m)) of None \<Rightarrow> db2 | Some t \<Rightarrow> lv_del ops (thread_key t ts i) db2))"

section \<open>Queries\<close>

definition in_filter :: "string list option \<Rightarrow> string option \<Rightarrow> bool" where
  "in_filter allowed v = (case allowed of None \<Rightarrow> True | Some vs \<Rightarrow> (case v of None \<Rightarrow> False | Some x \<Rightarrow> x \<in> set vs))"

definition matchesFilter :: "msec \<Rightarrow> stored_message \<Rightarrow> message_filter \<Rightarrow> bool" where
  "matchesFilter now m f \<longleftrightarrow> (let e = sm_envelope m in
     in_filter (mf_fromDid f) (Some (me_from e)) \<and> in_filter (mf_toDid f) (Some (me_to e)) \<and> in_filter (mf_protocol f) (Some (me_protocol e))
     \<and> (case mf_type f of None \<Rightarrow> True | Some t \<Rightarrow> me_type e = t) \<and> in_filter (mf_replyTo f) (given_string (me_replyTo e))
     \<and> \<not> (mf_unreadOnly f \<and> sm_readAt m \<noteq> None) \<and> (case mf_status f of None \<Rightarrow> True | Some ss \<Rightarrow> sm_status m \<in> set ss)
     \<and> (case mf_maxAge f of None \<Rightarrow> True | Some a \<Rightarrow> a = 0 \<or> of_int now - getMessageSortTimestamp m \<le> a)
     \<and> (case mf_minTrustScore f of None \<Rightarrow> True | Some t \<Rightarrow> \<not> or_zero (sm_trustScore m) < t)
     \<and> (case given_string (mf_threadId f) of None \<Rightarrow> True | Some t \<Rightarrow> me_threadId e = Some t))"

definition page_of :: "int \<Rightarrow> int \<Rightarrow> stored_message list \<Rightarrow> message_page" where
  "page_of limit offset ms = (let results = js_slice ms offset (offset + limit)
     in \<lparr>mp_messages = results, mp_total = length ms, mp_hasMore = (int (length ms) > offset + int (length results))\<rparr>)"

definition queryMessages :: "('d, store_value) level_ops \<Rightarrow> text_ops \<Rightarrow> msec \<Rightarrow> direction \<Rightarrow> message_filter \<Rightarrow> int \<Rightarrow> int \<Rightarrow> 'd \<Rightarrow> message_page" where
  "queryMessages ops tx now d f limit offset db = page_of limit offset
     (js_sort (\<lambda>l r. compareMessagesBySortTimestamp tx r l) (filter (\<lambda>m. matchesFilter now m f) (map snd (normalized_under ops (message_prefix d) db))))"

definition countMessages :: "('d, store_value) level_ops \<Rightarrow> msec \<Rightarrow> direction \<Rightarrow> message_filter \<Rightarrow> 'd \<Rightarrow> nat" where
  "countMessages ops now d f db = length (filter (\<lambda>m. matchesFilter now m f) (map snd (normalized_under ops (message_prefix d) db)))"

definition queryMessagesByThread :: "('d, store_value) level_ops \<Rightarrow> text_ops \<Rightarrow> string \<Rightarrow> int \<Rightarrow> int \<Rightarrow> 'd \<Rightarrow> message_page" where
  "queryMessagesByThread ops tx t limit offset db =
     (let ids = map (\<lambda>kv. last (js_split CHR '':'' (fst kv))) (lv_range ops (thread_prefix t) (thread_prefix t @ js_ff) db)
      in page_of limit offset (js_sort (compareMessagesBySortTimestamp tx) (List.map_filter (\<lambda>i. getMessage ops i None db) ids)))"

section \<open>Block list, allow list, seen cache, rate limits\<close>

definition putBlock :: "('d, store_value) level_ops \<Rightarrow> block_entry \<Rightarrow> 'd \<Rightarrow> 'd" where
  "putBlock ops e = lv_put ops (''block:'' @ bl_did e) (VBlock e)"

definition getBlock :: "('d, store_value) level_ops \<Rightarrow> did \<Rightarrow> 'd \<Rightarrow> block_entry option" where
  "getBlock ops did db = (case lv_get ops db (''block:'' @ did) of Some (VBlock e) \<Rightarrow> Some e | _ \<Rightarrow> None)"

definition deleteBlock :: "('d, store_value) level_ops \<Rightarrow> did \<Rightarrow> 'd \<Rightarrow> 'd" where
  "deleteBlock ops did = lv_del ops (''block:'' @ did)"

definition listBlocked :: "('d, store_value) level_ops \<Rightarrow> 'd \<Rightarrow> block_entry list" where
  "listBlocked ops db = List.map_filter (\<lambda>kv. case snd kv of VBlock e \<Rightarrow> Some e | _ \<Rightarrow> None) (lv_range ops ''block:'' (''block:'' @ js_ff) db)"

definition putAllow :: "('d, store_value) level_ops \<Rightarrow> allow_entry \<Rightarrow> 'd \<Rightarrow> 'd" where
  "putAllow ops e = lv_put ops (''allow:'' @ al_did e) (VAllow e)"

definition getAllow :: "('d, store_value) level_ops \<Rightarrow> did \<Rightarrow> 'd \<Rightarrow> allow_entry option" where
  "getAllow ops did db = (case lv_get ops db (''allow:'' @ did) of Some (VAllow e) \<Rightarrow> Some e | _ \<Rightarrow> None)"

definition deleteAllow :: "('d, store_value) level_ops \<Rightarrow> did \<Rightarrow> 'd \<Rightarrow> 'd" where
  "deleteAllow ops did = lv_del ops (''allow:'' @ did)"

definition listAllowed :: "('d, store_value) level_ops \<Rightarrow> 'd \<Rightarrow> allow_entry list" where
  "listAllowed ops db = List.map_filter (\<lambda>kv. case snd kv of VAllow e \<Rightarrow> Some e | _ \<Rightarrow> None) (lv_range ops ''allow:'' (''allow:'' @ js_ff) db)"

definition putSeen :: "('d, store_value) level_ops \<Rightarrow> seen_entry \<Rightarrow> 'd \<Rightarrow> 'd" where
  "putSeen ops e = lv_put ops (''seen:'' @ sn_messageId e) (VSeen e)"

definition getSeen :: "('d, store_value) level_ops \<Rightarrow> string \<Rightarrow> 'd \<Rightarrow> seen_entry option" where
  "getSeen ops i db = (case lv_get ops db (''seen:'' @ i) of Some (VSeen e) \<Rightarrow> Some e | _ \<Rightarrow> None)"

definition cleanupSeenStore :: "('d, store_value) level_ops \<Rightarrow> msec \<Rightarrow> int \<Rightarrow> 'd \<Rightarrow> 'd" where
  "cleanupSeenStore ops now maxAge db = fold (lv_del ops)
     (map fst (filter (\<lambda>kv. case snd kv of VSeen e \<Rightarrow> sn_seenAt e < now - maxAge | _ \<Rightarrow> False) (lv_range ops ''seen:'' (''seen:'' @ js_ff) db))) db"

definition putRateLimit :: "('d, store_value) level_ops \<Rightarrow> rate_state \<Rightarrow> 'd \<Rightarrow> 'd" where
  "putRateLimit ops e = lv_put ops (''rate:'' @ ra_did e) (VRate e)"

definition getRateLimit :: "('d, store_value) level_ops \<Rightarrow> did \<Rightarrow> 'd \<Rightarrow> rate_state option" where
  "getRateLimit ops did db = (case lv_get ops db (''rate:'' @ did) of Some (VRate e) \<Rightarrow> Some e | _ \<Rightarrow> None)"

definition cleanupRateLimitStore :: "('d, store_value) level_ops \<Rightarrow> msec \<Rightarrow> int \<Rightarrow> 'd \<Rightarrow> 'd" where
  "cleanupRateLimitStore ops now maxAge db = fold (lv_del ops)
     (map fst (filter (\<lambda>kv. case snd kv of VRate e \<Rightarrow> ra_lastRefill e < now - maxAge | _ \<Rightarrow> False) (lv_range ops ''rate:'' (''rate:'' @ js_ff) db))) db"

section \<open>Sessions\<close>

definition compareSessionsByLastMessageAt :: "text_ops \<Rightarrow> session_meta \<Rightarrow> session_meta \<Rightarrow> rat" where
  "compareSessionsByLastMessageAt tx l r = (if se_lastMessageAt l \<noteq> se_lastMessageAt r then se_lastMessageAt r - se_lastMessageAt l
     else locale_compare tx (se_threadId l) (se_threadId r))"

definition getSession :: "('d, store_value) level_ops \<Rightarrow> string \<Rightarrow> 'd \<Rightarrow> session_meta option" where
  "getSession ops t db = (case lv_get ops db (session_key t) of Some (VSession s) \<Rightarrow> Some s | _ \<Rightarrow> None)"

definition all_sessions :: "('d, store_value) level_ops \<Rightarrow> 'd \<Rightarrow> session_meta list" where
  "all_sessions ops db = List.map_filter (\<lambda>kv. case snd kv of VSession s \<Rightarrow> Some s | _ \<Rightarrow> None) (lv_range ops ''session:'' (''session:'' @ js_ff) db)"

definition with_peer :: "did option \<Rightarrow> session_meta \<Rightarrow> bool" where
  "with_peer peer s = (case given_string peer of None \<Rightarrow> True | Some p \<Rightarrow> se_peerDid s = p)"

definition listSessions :: "('d, store_value) level_ops \<Rightarrow> text_ops \<Rightarrow> did option \<Rightarrow> int \<Rightarrow> bool \<Rightarrow> 'd \<Rightarrow> session_meta list" where
  "listSessions ops tx peer limit includeArchived db = js_slice (js_sort (compareSessionsByLastMessageAt tx)
     (filter (\<lambda>s. with_peer peer s \<and> (includeArchived \<or> \<not> se_archived s)) (all_sessions ops db))) 0 limit"

definition archiveSession :: "('d, store_value) level_ops \<Rightarrow> msec \<Rightarrow> string \<Rightarrow> 'd \<Rightarrow> e2e_error + 'd" where
  "archiveSession ops now t db = (case getSession ops t db of None \<Rightarrow> Inl (JsError (''Session not found: '' @ t))
     | Some s \<Rightarrow> Inr (lv_put ops (session_key t) (VSession (s\<lparr>se_archived := True, se_archivedAt := Some now\<rparr>)) db))"

definition unarchiveSession :: "('d, store_value) level_ops \<Rightarrow> string \<Rightarrow> 'd \<Rightarrow> e2e_error + 'd" where
  "unarchiveSession ops t db = (case getSession ops t db of None \<Rightarrow> Inl (JsError (''Session not found: '' @ t))
     | Some s \<Rightarrow> Inr (lv_put ops (session_key t) (VSession (s\<lparr>se_archived := False, se_archivedAt := None\<rparr>)) db))"

definition listArchivedSessions :: "('d, store_value) level_ops \<Rightarrow> text_ops \<Rightarrow> did option \<Rightarrow> int \<Rightarrow> 'd \<Rightarrow> session_meta list" where
  "listArchivedSessions ops tx peer limit db = js_slice (js_sort (compareSessionsByLastMessageAt tx)
     (filter (\<lambda>s. se_archived s \<and> with_peer peer s) (all_sessions ops db))) 0 limit"

text \<open>\<open>payload?.text || payload?.message || ''\<close>.\<close>

definition searched_text :: "json \<Rightarrow> json" where
  "searched_text payload = (case json_field payload ''text'' of
     Some v \<Rightarrow> if json_truthy v then v else (case json_field payload ''message'' of Some w \<Rightarrow> if json_truthy w then w else JStr [] | None \<Rightarrow> JStr [])
   | None \<Rightarrow> (case json_field payload ''message'' of Some w \<Rightarrow> if json_truthy w then w else JStr [] | None \<Rightarrow> JStr []))"

definition outer_hit :: "text_ops \<Rightarrow> string \<Rightarrow> session_meta \<Rightarrow> bool" where
  "outer_hit tx lowerQuery s \<longleftrightarrow> (case given_string (se_title s) of Some t \<Rightarrow> js_includes (lower_case tx t) lowerQuery | None \<Rightarrow> False)
     \<or> (se_peerDid s \<noteq> [] \<and> js_includes (lower_case tx (se_peerDid s)) lowerQuery)"

definition message_hit :: "('d, store_value) level_ops \<Rightarrow> text_ops \<Rightarrow> string \<Rightarrow> 'd \<Rightarrow> session_meta \<Rightarrow> bool" where
  "message_hit ops tx lowerQuery db s \<longleftrightarrow> (\<exists>m \<in> set (mp_messages (queryMessagesByThread ops tx (se_threadId s) 100 0 db)).
     let t = searched_text (me_payload (sm_envelope m)) in json_truthy t \<and> js_includes (lower_case tx (json_string tx t)) lowerQuery)"

text \<open>The loop over the sessions. A hit in the title or the peer ends it when the limit is reached; a hit in a message
  only ends the inner loop.\<close>

fun search_loop :: "('d, store_value) level_ops \<Rightarrow> text_ops \<Rightarrow> string \<Rightarrow> int \<Rightarrow> 'd \<Rightarrow> session_meta list \<Rightarrow> session_meta list \<Rightarrow> session_meta list" where
  "search_loop ops tx q limit db results [] = results"
| "search_loop ops tx q limit db results (s # ss) =
     (if outer_hit tx q s then (if int (length results) + 1 \<ge> limit then results @ [s] else search_loop ops tx q limit db (results @ [s]) ss)
      else search_loop ops tx q limit db (if message_hit ops tx q db s then results @ [s] else results) ss)"

definition searchSessions :: "('d, store_value) level_ops \<Rightarrow> text_ops \<Rightarrow> string \<Rightarrow> int \<Rightarrow> 'd \<Rightarrow> session_meta list" where
  "searchSessions ops tx q limit db =
     js_slice (js_sort (compareSessionsByLastMessageAt tx) (search_loop ops tx (lower_case tx q) limit db [] (all_sessions ops db))) 0 limit"

end
