(* ===== verification/Message_Queue.thy ===== *)
theory Message_Queue
  imports Message_Store
begin

text \<open>
  The message queue of an agent, \<open>js/core/protocol/src/messaging/queue.ts\<close>: inbox and outbox over the message store, and the
  subscriptions. A callback is called with a message: the identifiers of the called subscriptions are part of the result.
\<close>

section \<open>State\<close>

record subscription_filter =
  sf_fromDid :: "did list option"
  sf_protocol :: "string list option"
  sf_type :: "envelope_type option"
  sf_replyTo :: "string list option"
  sf_threadId :: "string option"

record 'd message_queue =
  mq_storage :: 'd
  mq_subscriptions :: "(string, subscription_filter) jsmap"
  mq_subCounter :: nat

definition start_queue :: "'d \<Rightarrow> 'd message_queue" where
  "start_queue db = \<lparr>mq_storage = db, mq_subscriptions = [], mq_subCounter = 0\<rparr>"

definition stop_queue :: "'d message_queue \<Rightarrow> 'd message_queue" where
  "stop_queue s = s\<lparr>mq_subscriptions := []\<rparr>"

section \<open>Inbox and outbox\<close>

definition getInbox :: "('d, store_value) level_ops \<Rightarrow> text_ops \<Rightarrow> msec \<Rightarrow> message_filter \<Rightarrow> int \<Rightarrow> int \<Rightarrow> 'd message_queue \<Rightarrow> message_page" where
  "getInbox ops tx now f limit offset s = queryMessages ops tx now Inbound f limit offset (mq_storage s)"

definition getOutbox :: "('d, store_value) level_ops \<Rightarrow> text_ops \<Rightarrow> msec \<Rightarrow> int \<Rightarrow> int \<Rightarrow> 'd message_queue \<Rightarrow> message_page" where
  "getOutbox ops tx now limit offset s = queryMessages ops tx now Outbound no_filter limit offset (mq_storage s)"

definition getOutboundMessage :: "('d, store_value) level_ops \<Rightarrow> string \<Rightarrow> 'd message_queue \<Rightarrow> stored_message option" where
  "getOutboundMessage ops i s = getMessage ops i (Some Outbound) (mq_storage s)"

definition getOutboundMessageByTransportMessageId :: "('d, store_value) level_ops \<Rightarrow> string \<Rightarrow> 'd message_queue \<Rightarrow> stored_message option" where
  "getOutboundMessageByTransportMessageId ops t s = getMessageByTransportMessageId ops t (Some Outbound) (mq_storage s)"

definition on_storage :: "('d \<Rightarrow> 'd) \<Rightarrow> 'd message_queue \<Rightarrow> 'd message_queue" where
  "on_storage f s = s\<lparr>mq_storage := f (mq_storage s)\<rparr>"

definition read_at :: "msec \<Rightarrow> stored_message \<Rightarrow> stored_message" where
  "read_at now m = m\<lparr>sm_readAt := Some now\<rparr>"

definition markAsRead :: "('d, store_value) level_ops \<Rightarrow> msec \<Rightarrow> string \<Rightarrow> 'd message_queue \<Rightarrow> 'd message_queue" where
  "markAsRead ops now i = on_storage (updateMessage ops i (read_at now))"

definition queueDelete :: "('d, store_value) level_ops \<Rightarrow> string \<Rightarrow> 'd message_queue \<Rightarrow> 'd message_queue" where
  "queueDelete ops i = on_storage (deleteMessage ops i)"

definition as_retried :: "stored_message \<Rightarrow> stored_message" where
  "as_retried m = m\<lparr>sm_status := MsPending, sm_error := None\<rparr>"

definition retryMessage :: "('d, store_value) level_ops \<Rightarrow> string \<Rightarrow> 'd message_queue \<Rightarrow> 'd message_queue" where
  "retryMessage ops i = on_storage (updateMessage ops i as_retried)"

definition as_delivered :: "stored_message \<Rightarrow> stored_message" where
  "as_delivered m = m\<lparr>sm_status := MsDelivered\<rparr>"

definition markOutboundDelivered :: "('d, store_value) level_ops \<Rightarrow> string \<Rightarrow> 'd message_queue \<Rightarrow> 'd message_queue" where
  "markOutboundDelivered ops i = on_storage (updateMessage ops i as_delivered)"

definition as_failed :: "string \<Rightarrow> stored_message \<Rightarrow> stored_message" where
  "as_failed err m = m\<lparr>sm_status := MsFailed, sm_error := Some err\<rparr>"

definition markOutboundFailed :: "('d, store_value) level_ops \<Rightarrow> string \<Rightarrow> string \<Rightarrow> 'd message_queue \<Rightarrow> 'd message_queue" where
  "markOutboundFailed ops i err = on_storage (updateMessage ops i (as_failed err))"

definition appendE2EDelivery :: "('d, store_value) level_ops \<Rightarrow> text_ops \<Rightarrow> string \<Rightarrow> delivery \<Rightarrow> 'd message_queue \<Rightarrow> stored_message option \<times> 'd message_queue" where
  "appendE2EDelivery ops tx i d s = (case upsertE2EDeliveries ops tx i [d] (mq_storage s) of (r, db) \<Rightarrow> (r, s\<lparr>mq_storage := db\<rparr>))"

definition appendE2ERetry :: "('d, store_value) level_ops \<Rightarrow> string \<Rightarrow> retry_meta \<Rightarrow> 'd message_queue \<Rightarrow> stored_message option \<times> 'd message_queue" where
  "appendE2ERetry ops i r s = (case upsertE2ERetry ops i r (mq_storage s) of (m, db) \<Rightarrow> (m, s\<lparr>mq_storage := db\<rparr>))"

section \<open>Subscriptions\<close>

definition queue_subscribe :: "subscription_filter \<Rightarrow> 'd message_queue \<Rightarrow> string \<times> 'd message_queue" where
  "queue_subscribe f s = (let n = mq_subCounter s + 1; i = ''sub_'' @ js_show_nat n
     in (i, s\<lparr>mq_subCounter := n, mq_subscriptions := jm_set i f (mq_subscriptions s)\<rparr>))"

definition queue_unsubscribe :: "string \<Rightarrow> 'd message_queue \<Rightarrow> 'd message_queue" where
  "queue_unsubscribe i s = s\<lparr>mq_subscriptions := jm_del i (mq_subscriptions s)\<rparr>"

definition matchesSubscriptionFilter :: "stored_message \<Rightarrow> subscription_filter \<Rightarrow> bool" where
  "matchesSubscriptionFilter m f \<longleftrightarrow> (let e = sm_envelope m in
     in_filter (sf_fromDid f) (Some (me_from e)) \<and> in_filter (sf_protocol f) (Some (me_protocol e))
     \<and> (case sf_type f of None \<Rightarrow> True | Some t \<Rightarrow> me_type e = t) \<and> in_filter (sf_replyTo f) (given_string (me_replyTo e))
     \<and> (case given_string (sf_threadId f) of None \<Rightarrow> True | Some t \<Rightarrow> me_threadId e = Some t))"

definition notifySubscribers :: "stored_message \<Rightarrow> 'd message_queue \<Rightarrow> string list" where
  "notifySubscribers m s = map fst (filter (\<lambda>(i, f). matchesSubscriptionFilter m f) (mq_subscriptions s))"

section \<open>Enqueueing\<close>

definition inbound_message :: "msec \<Rightarrow> message_envelope \<Rightarrow> rat option \<Rightarrow> trust_status option \<Rightarrow> delivery option \<Rightarrow> stored_message" where
  "inbound_message now e trustScore trustStatus d = \<lparr>sm_envelope = e, sm_direction = Inbound, sm_status = MsPending, sm_receivedAt = Some now,
     sm_sentAt = None, sm_readAt = None, sm_trustScore = trustScore, sm_trustStatus = trustStatus, sm_error = None,
     sm_e2e = map_option (\<lambda>x. \<lparr>e2_deliveries = [x], e2_retry = None\<rparr>) d\<rparr>"

definition enqueueInbound :: "('d, store_value) level_ops \<Rightarrow> text_ops \<Rightarrow> msec \<Rightarrow> message_envelope \<Rightarrow> rat option \<Rightarrow> trust_status option \<Rightarrow> delivery option
    \<Rightarrow> 'd message_queue \<Rightarrow> e2e_error + (stored_message \<times> string list) \<times> 'd message_queue" where
  "enqueueInbound ops tx now e trustScore trustStatus d s = (let m = inbound_message now e trustScore trustStatus d
     in and_then (putMessage ops tx m (mq_storage s)) (\<lambda>db. Inr ((m, notifySubscribers m s), s\<lparr>mq_storage := db\<rparr>)))"

definition outbound_message :: "msec \<Rightarrow> message_envelope \<Rightarrow> delivery list \<Rightarrow> stored_message" where
  "outbound_message now e ds = \<lparr>sm_envelope = e, sm_direction = Outbound, sm_status = MsPending, sm_receivedAt = None, sm_sentAt = Some now,
     sm_readAt = None, sm_trustScore = None, sm_trustStatus = None, sm_error = None,
     sm_e2e = (if ds = [] then None else Some \<lparr>e2_deliveries = ds, e2_retry = None\<rparr>)\<rparr>"

definition enqueueOutbound :: "('d, store_value) level_ops \<Rightarrow> text_ops \<Rightarrow> msec \<Rightarrow> message_envelope \<Rightarrow> delivery list \<Rightarrow> 'd message_queue
    \<Rightarrow> e2e_error + stored_message \<times> 'd message_queue" where
  "enqueueOutbound ops tx now e ds s = (let m = outbound_message now e ds
     in and_then (putMessage ops tx m (mq_storage s)) (\<lambda>db. Inr (m, s\<lparr>mq_storage := db\<rparr>)))"

section \<open>Statistics\<close>

record queue_stats =
  qs_inboxTotal :: nat
  qs_inboxUnread :: nat
  qs_outboxPending :: nat
  qs_outboxFailed :: nat
  qs_blockedAgents :: nat
  qs_allowedAgents :: nat
  qs_rateLimitedAgents :: nat

definition getQueueStats :: "('d, store_value) level_ops \<Rightarrow> msec \<Rightarrow> 'd message_queue \<Rightarrow> queue_stats" where
  "getQueueStats ops now s = (let db = mq_storage s in
     \<lparr>qs_inboxTotal = countMessages ops now Inbound no_filter db, qs_inboxUnread = countMessages ops now Inbound (no_filter\<lparr>mf_unreadOnly := True\<rparr>) db,
      qs_outboxPending = countMessages ops now Outbound (no_filter\<lparr>mf_status := Some [MsPending]\<rparr>) db,
      qs_outboxFailed = countMessages ops now Outbound (no_filter\<lparr>mf_status := Some [MsFailed]\<rparr>) db,
      qs_blockedAgents = length (listBlocked ops db), qs_allowedAgents = length (listAllowed ops db), qs_rateLimitedAgents = 0\<rparr>)"

end
