(* ===== verification/Message_Defense.thy ===== *)
theory Message_Defense
  imports Message_Queue
begin

text \<open>
  The defence of an agent against unwanted messages: the token buckets of \<open>js/core/protocol/src/messaging/rate-limiter.ts\<close> and the
  checks of \<open>defense.ts\<close>, over the message store and the trust system. Fractions are rational numbers.
\<close>

section \<open>Token buckets\<close>

record bucket_config =
  bc_capacity :: rat
  bc_refillRate :: rat

record token_bucket =
  tb_tokens :: rat
  tb_lastRefill :: msec
  tb_capacity :: rat
  tb_refillRate :: rat

definition new_bucket :: "bucket_config \<Rightarrow> msec \<Rightarrow> token_bucket" where
  "new_bucket c now = \<lparr>tb_tokens = bc_capacity c, tb_lastRefill = now, tb_capacity = bc_capacity c, tb_refillRate = bc_refillRate c\<rparr>"

definition restored_bucket :: "bucket_config \<Rightarrow> rate_state \<Rightarrow> token_bucket" where
  "restored_bucket c r = \<lparr>tb_tokens = ra_tokens r, tb_lastRefill = ra_lastRefill r, tb_capacity = bc_capacity c, tb_refillRate = bc_refillRate c\<rparr>"

definition bucket_refill :: "msec \<Rightarrow> token_bucket \<Rightarrow> token_bucket" where
  "bucket_refill now b = b\<lparr>tb_tokens := min (tb_capacity b) (tb_tokens b + of_int (now - tb_lastRefill b) * tb_refillRate b), tb_lastRefill := now\<rparr>"

definition bucket_consume :: "msec \<Rightarrow> token_bucket \<Rightarrow> bool \<times> token_bucket" where
  "bucket_consume now b = (let b' = bucket_refill now b
     in if tb_tokens b' \<ge> 1 then (True, b'\<lparr>tb_tokens := tb_tokens b' - 1\<rparr>) else (False, b'))"

definition bucket_remaining :: "msec \<Rightarrow> token_bucket \<Rightarrow> int" where
  "bucket_remaining now b = \<lfloor>tb_tokens (bucket_refill now b)\<rfloor>"

text \<open>\<open>Infinity\<close>, for a bucket that never refills, is \<open>None\<close>.\<close>

definition bucket_resetTime :: "msec \<Rightarrow> token_bucket \<Rightarrow> int option" where
  "bucket_resetTime now b = (let b' = bucket_refill now b
     in if tb_tokens b' \<ge> 1 then Some 0 else if tb_refillRate b' = 0 then None else Some \<lceil>(1 - tb_tokens b') / tb_refillRate b'\<rceil>)"

record rate_tiers =
  rt_newAgent :: bucket_config
  rt_established :: bucket_config
  rt_trusted :: bucket_config

definition DEFAULT_RATE_LIMIT_TIERS :: rate_tiers where
  "DEFAULT_RATE_LIMIT_TIERS = \<lparr>rt_newAgent = \<lparr>bc_capacity = 10, bc_refillRate = 10 / (60 * 1000)\<rparr>,
     rt_established = \<lparr>bc_capacity = 100, bc_refillRate = 60 / (60 * 1000)\<rparr>, rt_trusted = \<lparr>bc_capacity = 1000, bc_refillRate = 600 / (60 * 1000)\<rparr>\<rparr>"

definition getTierConfig :: "rat \<Rightarrow> rate_tiers \<Rightarrow> bucket_config" where
  "getTierConfig trustScore tiers = (if trustScore \<ge> 6/10 then rt_trusted tiers else if trustScore \<ge> 3/10 then rt_established tiers else rt_newAgent tiers)"

section \<open>State\<close>

record defense_config =
  dc_minTrustScore :: rat
  dc_rateLimitTiers :: rate_tiers
  dc_seenTtlMs :: int

definition default_defense :: defense_config where
  "default_defense = \<lparr>dc_minTrustScore = 0, dc_rateLimitTiers = DEFAULT_RATE_LIMIT_TIERS, dc_seenTtlMs = 60 * 60 * 1000\<rparr>"

record defense =
  seenCache :: "(string, msec) jsmap"
  buckets :: "(did, token_bucket) jsmap"
  recentlyUnblocked :: "(did, msec) jsmap"

definition new_defense :: defense where
  "new_defense = \<lparr>seenCache = [], buckets = [], recentlyUnblocked = []\<rparr>"

definition MAX_SEEN_CACHE :: nat where "MAX_SEEN_CACHE = 10000"
definition UNBLOCK_GRACE_PERIOD_MS :: int where "UNBLOCK_GRACE_PERIOD_MS = 60 * 60 * 1000"

text \<open>The parts of an agent that the checks use.\<close>

record ('d, 'h, 'e) guard =
  gd_queue :: "'d message_queue"
  gd_trust :: "('h, 'e) trust_system"
  gd_defense :: defense

definition guard_db :: "('d, 'h, 'e) guard \<Rightarrow> 'd" where
  "guard_db s = mq_storage (gd_queue s)"

definition with_db :: "('d \<Rightarrow> 'd) \<Rightarrow> ('d, 'h, 'e) guard \<Rightarrow> ('d, 'h, 'e) guard" where
  "with_db f s = s\<lparr>gd_queue := on_storage f (gd_queue s)\<rparr>"

definition with_defense :: "(defense \<Rightarrow> defense) \<Rightarrow> ('d, 'h, 'e) guard \<Rightarrow> ('d, 'h, 'e) guard" where
  "with_defense f s = s\<lparr>gd_defense := f (gd_defense s)\<rparr>"

section \<open>Block list and allow list\<close>

definition blockAgent :: "('d, store_value) level_ops \<Rightarrow> msec \<Rightarrow> did \<Rightarrow> string \<Rightarrow> string \<Rightarrow> ('d, 'h, 'e) guard \<Rightarrow> ('d, 'h, 'e) guard" where
  "blockAgent ops now did reason blockedBy = with_db (putBlock ops \<lparr>bl_did = did, bl_reason = reason, bl_blockedAt = now, bl_blockedBy = blockedBy\<rparr>)"

definition unblockAgent :: "('d, store_value) level_ops \<Rightarrow> msec \<Rightarrow> did \<Rightarrow> ('d, 'h, 'e) guard \<Rightarrow> ('d, 'h, 'e) guard" where
  "unblockAgent ops now did s = with_defense (\<lambda>f. f\<lparr>recentlyUnblocked := jm_set did now (recentlyUnblocked f)\<rparr>) (with_db (deleteBlock ops did) s)"

definition isBlocked :: "('d, store_value) level_ops \<Rightarrow> did \<Rightarrow> ('d, 'h, 'e) guard \<Rightarrow> bool" where
  "isBlocked ops did s \<longleftrightarrow> getBlock ops did (guard_db s) \<noteq> None"

definition allowAgent :: "('d, store_value) level_ops \<Rightarrow> msec \<Rightarrow> did \<Rightarrow> string option \<Rightarrow> ('d, 'h, 'e) guard \<Rightarrow> ('d, 'h, 'e) guard" where
  "allowAgent ops now did note = with_db (putAllow ops \<lparr>al_did = did, al_addedAt = now, al_note = note\<rparr>)"

definition removeFromAllowlist :: "('d, store_value) level_ops \<Rightarrow> did \<Rightarrow> ('d, 'h, 'e) guard \<Rightarrow> ('d, 'h, 'e) guard" where
  "removeFromAllowlist ops did = with_db (deleteAllow ops did)"

definition isAllowed :: "('d, store_value) level_ops \<Rightarrow> did \<Rightarrow> ('d, 'h, 'e) guard \<Rightarrow> bool" where
  "isAllowed ops did s \<longleftrightarrow> getAllow ops did (guard_db s) \<noteq> None"

section \<open>Seen cache\<close>

definition hasSeen :: "string \<Rightarrow> defense \<Rightarrow> bool" where
  "hasSeen i f \<longleftrightarrow> jm_has (seenCache f) i"

definition evict_oldest :: "(string, msec) jsmap \<Rightarrow> (string, msec) jsmap" where
  "evict_oldest m = (if length m \<ge> MAX_SEEN_CACHE then (case m of (k, _) # _ \<Rightarrow> if k = [] then m else jm_del k m | [] \<Rightarrow> m) else m)"

definition markAsSeen :: "('d, store_value) level_ops \<Rightarrow> msec \<Rightarrow> string \<Rightarrow> ('d, 'h, 'e) guard \<Rightarrow> ('d, 'h, 'e) guard" where
  "markAsSeen ops now i s = with_db (putSeen ops \<lparr>sn_messageId = i, sn_seenAt = now, sn_fromDid = []\<rparr>)
     (with_defense (\<lambda>f. f\<lparr>seenCache := jm_set i now (evict_oldest (seenCache f))\<rparr>) s)"

definition cleanupSeen :: "('d, store_value) level_ops \<Rightarrow> defense_config \<Rightarrow> msec \<Rightarrow> ('d, 'h, 'e) guard \<Rightarrow> ('d, 'h, 'e) guard" where
  "cleanupSeen ops cfg now s = with_db (cleanupSeenStore ops now (dc_seenTtlMs cfg))
     (with_defense (\<lambda>f. f\<lparr>seenCache := filter (\<lambda>(i, t). \<not> t < now - dc_seenTtlMs cfg) (seenCache f),
        recentlyUnblocked := filter (\<lambda>(d, t). \<not> t < now - UNBLOCK_GRACE_PERIOD_MS) (recentlyUnblocked f)\<rparr>) s)"

section \<open>Rate limits\<close>

record rate_result =
  rr_allowed :: bool
  rr_remaining :: int
  rr_resetTime :: "int option"
  rr_limit :: rat

definition load_bucket :: "('d, store_value) level_ops \<Rightarrow> bucket_config \<Rightarrow> msec \<Rightarrow> did \<Rightarrow> ('d, 'h, 'e) guard \<Rightarrow> token_bucket" where
  "load_bucket ops c now did s = (case jm_get (buckets (gd_defense s)) did of Some b \<Rightarrow> b
     | None \<Rightarrow> (case getRateLimit ops did (guard_db s) of Some r \<Rightarrow> restored_bucket c r | None \<Rightarrow> new_bucket c now))"

definition checkRateLimit :: "('d, store_value) level_ops \<Rightarrow> defense_config \<Rightarrow> msec \<Rightarrow> did \<Rightarrow> rat \<Rightarrow> ('d, 'h, 'e) guard \<Rightarrow> rate_result \<times> ('d, 'h, 'e) guard" where
  "checkRateLimit ops cfg now did trustScore s =
     (let c = getTierConfig trustScore (dc_rateLimitTiers cfg);
          (allowed, b) = bucket_consume now (load_bucket ops c now did s)
      in (\<lparr>rr_allowed = allowed, rr_remaining = bucket_remaining now b, rr_resetTime = bucket_resetTime now b, rr_limit = bc_capacity c\<rparr>,
          with_db (putRateLimit ops \<lparr>ra_did = did, ra_tokens = tb_tokens b, ra_lastRefill = tb_lastRefill b, ra_totalRequests = 0, ra_firstSeen = now\<rparr>)
            (with_defense (\<lambda>f. f\<lparr>buckets := jm_set did b (buckets f)\<rparr>) s)))"

definition cleanupRateLimits :: "('d, store_value) level_ops \<Rightarrow> msec \<Rightarrow> ('d, 'h, 'e) guard \<Rightarrow> ('d, 'h, 'e) guard" where
  "cleanupRateLimits ops now s = (let staleMs = 24 * 60 * 60 * 1000
     in with_db (cleanupRateLimitStore ops now staleMs)
          (with_defense (\<lambda>f. f\<lparr>buckets := filter (\<lambda>(d, b). \<not> tb_lastRefill b < now - staleMs) (buckets f)\<rparr>) s))"

section \<open>The checks of a message\<close>

datatype refusal = Blocked | Duplicate | TrustTooLow | RateLimited

record defense_result =
  dr_allowed :: bool
  dr_reason :: "refusal option"
  dr_trustScore :: "rat option"
  dr_trustStatus :: "trust_status option"
  dr_remaining :: "int option"
  dr_resetTime :: "int option"

definition refused :: "refusal \<Rightarrow> defense_result" where
  "refused r = \<lparr>dr_allowed = False, dr_reason = Some r, dr_trustScore = None, dr_trustStatus = None, dr_remaining = None, dr_resetTime = None\<rparr>"

text \<open>\<open>(rate * 100).toFixed(0)\<close> rounds to the nearest integer, halves up.\<close>

definition auto_block_reason :: "rat \<Rightarrow> string" where
  "auto_block_reason rate = ''Auto-blocked: '' @ js_show_int \<lfloor>rate * 100 + 1/2\<rfloor> @ ''% failure rate over last 20 interactions''"

definition in_grace :: "msec \<Rightarrow> did \<Rightarrow> defense \<Rightarrow> bool" where
  "in_grace now did f \<longleftrightarrow> (case jm_get (recentlyUnblocked f) did of None \<Rightarrow> False | Some t \<Rightarrow> t \<noteq> 0 \<and> now - t < UNBLOCK_GRACE_PERIOD_MS)"

text \<open>Step 5, for a message that passed the others.\<close>

definition check_rate_and_accept :: "('d, store_value) level_ops \<Rightarrow> defense_config \<Rightarrow> msec \<Rightarrow> message_envelope \<Rightarrow> bool \<Rightarrow> rat \<Rightarrow> trust_status \<Rightarrow> ('d, 'h, 'e) guard
    \<Rightarrow> defense_result \<times> ('d, 'h, 'e) guard" where
  "check_rate_and_accept ops cfg now e solicited trustScore st s =
     (if solicited
      then (\<lparr>dr_allowed = True, dr_reason = None, dr_trustScore = Some trustScore, dr_trustStatus = Some st, dr_remaining = None, dr_resetTime = None\<rparr>,
            markAsSeen ops now (me_id e) s)
      else let (r, s1) = checkRateLimit ops cfg now (me_from e) trustScore s
           in if rr_allowed r
              then (\<lparr>dr_allowed = True, dr_reason = None, dr_trustScore = Some trustScore, dr_trustStatus = Some st,
                     dr_remaining = Some (rr_remaining r), dr_resetTime = rr_resetTime r\<rparr>, markAsSeen ops now (me_id e) s1)
              else ((refused RateLimited)\<lparr>dr_remaining := Some (rr_remaining r), dr_resetTime := rr_resetTime r\<rparr>, s1))"

text \<open>Step 4, with the score of the sender.\<close>

definition check_trust :: "('d, store_value) level_ops \<Rightarrow> defense_config \<Rightarrow> msec \<Rightarrow> message_envelope \<Rightarrow> bool \<Rightarrow> trust_score \<Rightarrow> ('d, 'h, 'e) guard
    \<Rightarrow> defense_result \<times> ('d, 'h, 'e) guard" where
  "check_trust ops cfg now e solicited score s =
     (let n = tr_totalInteractions score; failureRate = 1 - tr_recentSuccessRate score;
          trustScore = (if \<not> solicited \<and> n \<ge> 10 \<and> failureRate > 1/2 then 0 else tr_interactionScore score)
      in if \<not> solicited \<and> n \<ge> 20 \<and> failureRate > 7/10 \<and> \<not> in_grace now (me_from e) (gd_defense s)
         then (refused Blocked, blockAgent ops now (me_from e) (auto_block_reason failureRate) ''local'' s)
         else if \<not> solicited \<and> trustScore < dc_minTrustScore cfg then ((refused TrustTooLow)\<lparr>dr_trustScore := Some trustScore\<rparr>, s)
         else check_rate_and_accept ops cfg now e solicited trustScore (tr_status score) s)"

definition checkMessage :: "('d, store_value) level_ops \<Rightarrow> ('h, interaction) level_ops \<Rightarrow> ('e, endorsement_v1) level_ops \<Rightarrow> defense_config \<Rightarrow> msec
    \<Rightarrow> message_envelope \<Rightarrow> bool \<Rightarrow> ('d, 'h, 'e) guard \<Rightarrow> defense_result \<times> ('d, 'h, 'e) guard" where
  "checkMessage ops hops eops cfg now e solicited s =
     (if isAllowed ops (me_from e) s
      then (\<lparr>dr_allowed = True, dr_reason = None, dr_trustScore = None, dr_trustStatus = Some StAllowed, dr_remaining = None, dr_resetTime = None\<rparr>,
            markAsSeen ops now (me_id e) s)
      else if (case getBlock ops (me_from e) (guard_db s) of None \<Rightarrow> False
               | Some b \<Rightarrow> \<not> (solicited \<and> js_startsWith (bl_reason b) ''Auto-blocked: '')) then (refused Blocked, s)
      else if \<not> solicited \<and> isRateLimited now (me_from e) (gd_trust s) then (refused RateLimited, s)
      else if hasSeen (me_id e) (gd_defense s) then (refused Duplicate, s)
      else let (score, trust) = getTrustScore hops eops now (me_from e) (gd_trust s)
           in check_trust ops cfg now e solicited score (s\<lparr>gd_trust := trust\<rparr>))"

end
