(* ===== verification/Message_Queue_Props.thy ===== *)
theory Message_Queue_Props
  imports Message_Queue
begin

text \<open>
  Properties of the message store and queue: the store implements a map from identifiers to a box and a message, over any history
  of operations; the laws of the status and of the merge; pages; and the faults that the code has.
\<close>

section \<open>Keys\<close>

definition digit_first :: "string \<Rightarrow> bool" where
  "digit_first s \<longleftrightarrow> s \<noteq> [] \<and> js_digit (hd s)"

text \<open>The part of a key that holds a time.\<close>

definition time_text :: "string \<Rightarrow> bool" where
  "time_text s \<longleftrightarrow> digit_first s \<and> CHR '':'' \<notin> set s"

text \<open>What the store relies on: the text of a number that is not negative begins with a digit and has no colon.\<close>

definition text_ok :: "text_ops \<Rightarrow> bool" where
  "text_ok tx \<longleftrightarrow> (\<forall>x \<ge> 0. time_text (number_text tx x))"

lemma pad16_time: "time_text s \<Longrightarrow> time_text (pad16 s)"
  by (auto simp: time_text_def digit_first_def pad16_def js_digit_def hd_append)

lemma sort_timestamp_nonneg: "0 \<le> getMessageSortTimestamp m"
  by (auto simp: getMessageSortTimestamp_def getMessageEnvelopeTimestamp_def getMessageLocalTimestamp_def normalizeTimestamp_def split: option.splits)

lemma le_append: "p \<le> p @ (x :: string)"
  by (induction p) auto

lemma append_le_append: "p @ x \<le> p @ y \<longleftrightarrow> x \<le> (y :: string)"
  by (induction p) auto

lemma digit_below: "digit_first x \<Longrightarrow> x \<le> js_ff"
  by (cases x) (auto simp: digit_first_def js_digit_def js_ff_def less_eq_char_def less_char_def)

lemma message_key_range: "time_text ts \<Longrightarrow> message_prefix d \<le> message_key d ts i \<and> message_key d ts i \<le> message_prefix d @ js_ff"
proof -
  assume "time_text ts"
  then have "digit_first (ts @ '':'' @ i)" by (simp add: digit_first_def time_text_def)
  then show ?thesis by (simp add: message_key_def le_append append_le_append digit_below)
qed

lemma in_range_prefix: "p \<le> k \<Longrightarrow> k \<le> p @ s \<Longrightarrow> prefix p (k :: string)"
  using range_prefix [of p k s] by (cases "k = p @ s") auto

lemma colon_inj: "CHR '':'' \<notin> set a \<Longrightarrow> CHR '':'' \<notin> set b \<Longrightarrow> a @ CHR '':'' # x = b @ CHR '':'' # y \<longleftrightarrow> a = b \<and> x = y"
proof (induction a arbitrary: b)
  case Nil
  then show ?case by (cases b) auto
next
  case (Cons c a)
  then show ?case by (cases b) auto
qed

lemma message_key_inj: "time_text a \<Longrightarrow> time_text b \<Longrightarrow> message_key d a i = message_key d' b j \<longleftrightarrow> d = d' \<and> a = b \<and> i = j"
  by (cases d; cases d') (auto simp: message_key_def message_prefix_def direction_name_def time_text_def colon_inj)

lemma prefix_message_key: "prefix (message_prefix d') (message_key d ts i) \<longleftrightarrow> d' = d"
  by (cases d; cases d') (auto simp: message_prefix_def direction_name_def message_key_def)

section \<open>The invariant of the store\<close>

definition store_ok :: "('d, store_value) level_ops \<Rightarrow> 'd \<Rightarrow> bool" where
  "store_ok ops db \<longleftrightarrow>
     (\<forall>k m. lv_get ops db k = Some (VMessage m) \<longrightarrow> valid_envelope (sm_envelope m) \<and> (\<exists>d ts. time_text ts \<and> k = message_key d ts (me_id (sm_envelope m))))
     \<and> (\<forall>k k' m m'. lv_get ops db k = Some (VMessage m) \<longrightarrow> lv_get ops db k' = Some (VMessage m') \<longrightarrow> me_id (sm_envelope m) = me_id (sm_envelope m') \<longrightarrow> k = k')"

lemma store_okD:
  assumes "store_ok ops db" "lv_get ops db k = Some (VMessage m)"
  obtains d ts where "valid_envelope (sm_envelope m)" "time_text ts" "k = message_key d ts (me_id (sm_envelope m))"
  using assms unfolding store_ok_def by blast

lemma store_ok_unique:
  "store_ok ops db \<Longrightarrow> lv_get ops db k = Some (VMessage m) \<Longrightarrow> lv_get ops db k' = Some (VMessage m') \<Longrightarrow> me_id (sm_envelope m) = me_id (sm_envelope m') \<Longrightarrow> k = k'"
  unfolding store_ok_def by blast

definition normal :: "stored_message \<Rightarrow> stored_message" where
  "normal m = m\<lparr>sm_status := storedMessageStatus m\<rparr>"

lemma normalize_stored: "normalizeStoredMessage m = (if valid_envelope (sm_envelope m) then Some (normal m) else None)"
  by (simp add: normalizeStoredMessage_def normalize_envelope_json normal_def)

lemma normal_envelope [simp]: "sm_envelope (normal m) = sm_envelope m" "sm_direction (normal m) = sm_direction m" "sm_readAt (normal m) = sm_readAt m" "sm_e2e (normal m) = sm_e2e m"
  by (simp_all add: normal_def)

definition box_of :: "string \<Rightarrow> direction" where
  "box_of k = (if prefix (message_prefix Inbound) k then Inbound else Outbound)"

lemma box_of_key [simp]: "box_of (message_key d ts i) = d"
  by (cases d) (simp_all add: box_of_def prefix_message_key)

lemma as_message_iff [simp]: "as_message kv = Some (k, m) \<longleftrightarrow> kv = (k, VMessage m)"
  by (cases kv) (auto simp: as_message_def split: store_value.splits)

lemma find_Some_mem: "List.find P xs = Some x \<Longrightarrow> x \<in> set xs \<and> P x"
  by (induction xs) (auto split: if_splits)

lemma map_filter_set: "y \<in> set (List.map_filter f xs) \<longleftrightarrow> (\<exists>x \<in> set xs. f x = Some y)"
  by (force simp: List.map_filter_def)

text \<open>What the store holds under an identifier: the box, given by the key, and the message as it is read.\<close>

definition box_state :: "('d, store_value) level_ops \<Rightarrow> 'd \<Rightarrow> string \<Rightarrow> (direction \<times> stored_message) option" where
  "box_state ops db i = map_option (\<lambda>(k, n). (box_of k, n)) (findStoredMessageRecord ops i None db)"

text \<open>The keys of the other families.\<close>

definition other_key :: "string \<Rightarrow> bool" where
  "other_key k \<longleftrightarrow> \<not> prefix ''msg:'' k"

lemma normal_idem [simp]: "normal (normal m) = normal m"
  by (auto simp: normal_def storedMessageStatus_def some_delivery_def split: option.splits)

section \<open>The map that the store implements\<close>

type_synonym boxes = "string \<Rightarrow> (direction \<times> stored_message) option"

definition spec_put :: "text_ops \<Rightarrow> stored_message \<Rightarrow> boxes \<Rightarrow> boxes" where
  "spec_put tx m A = (if valid_envelope (sm_envelope m)
     then A(me_id (sm_envelope m) \<mapsto> (case A (me_id (sm_envelope m)) of None \<Rightarrow> (sm_direction m, normal m)
       | Some (d, e) \<Rightarrow> (d, normal (mergeStoredMessages tx e (normal m))))) else A)"

definition spec_update :: "string \<Rightarrow> (stored_message \<Rightarrow> stored_message) \<Rightarrow> boxes \<Rightarrow> boxes" where
  "spec_update i u A = (case A i of None \<Rightarrow> A | Some (d, m) \<Rightarrow> A(i \<mapsto> (d, normal (u m))))"

definition with_retry :: "retry_meta \<Rightarrow> stored_message \<Rightarrow> stored_message" where
  "with_retry r m = m\<lparr>sm_e2e := Some \<lparr>e2_deliveries = deliveries_of m, e2_retry = mergeE2ERetryMetadata (retry_of m) (Some r)\<rparr>\<rparr>"

definition spec_retry :: "string \<Rightarrow> retry_meta \<Rightarrow> boxes \<Rightarrow> boxes" where
  "spec_retry i r A = (case A i of Some (Outbound, m) \<Rightarrow> A(i \<mapsto> (Outbound, normal (with_retry r m))) | _ \<Rightarrow> A)"

lemma merge_envelope [simp]:
  "sm_envelope (mergeStoredMessageE2EDeliveries tx m ds) = sm_envelope m"
  "sm_envelope (mergeStoredMessages tx e m) = sm_envelope m"
  "sm_envelope (with_retry r m) = sm_envelope m"
  by (simp_all add: mergeStoredMessageE2EDeliveries_def mergeStoredMessages_def with_retry_def Let_def)

section \<open>Histories of the queue\<close>

datatype message_op =
    EnqueueIn msec message_envelope "rat option" "trust_status option" "delivery option"
  | EnqueueOut msec message_envelope "delivery list"
  | MarkRead msec string | RetryOp string | MarkDelivered string | MarkFailed string string
  | AppendDelivery string delivery | AppendRetry string retry_meta | DeleteOp string
  | SubscribeOp subscription_filter | UnsubscribeOp string
  | BlockOp block_entry | UnblockOp did | AllowOp allow_entry | UnallowOp did
  | SeenOp seen_entry | CleanSeenOp msec int | RateOp rate_state | CleanRateOp msec int
  | ArchiveOp msec string | UnarchiveOp string

definition or_keep :: "'s \<Rightarrow> e2e_error + 's \<Rightarrow> 's" where
  "or_keep s r = (case r of Inl _ \<Rightarrow> s | Inr s' \<Rightarrow> s')"

text \<open>An operation that throws leaves the state as it is.\<close>

definition queue_apply :: "('d, store_value) level_ops \<Rightarrow> text_ops \<Rightarrow> message_op \<Rightarrow> 'd message_queue \<Rightarrow> 'd message_queue" where
  "queue_apply ops tx op s = (case op of
     EnqueueIn now e ts st d \<Rightarrow> (case enqueueInbound ops tx now e ts st d s of Inl _ \<Rightarrow> s | Inr (_, s') \<Rightarrow> s')
   | EnqueueOut now e ds \<Rightarrow> (case enqueueOutbound ops tx now e ds s of Inl _ \<Rightarrow> s | Inr (_, s') \<Rightarrow> s')
   | MarkRead now i \<Rightarrow> markAsRead ops now i s
   | RetryOp i \<Rightarrow> retryMessage ops i s
   | MarkDelivered i \<Rightarrow> markOutboundDelivered ops i s
   | MarkFailed i err \<Rightarrow> markOutboundFailed ops i err s
   | AppendDelivery i d \<Rightarrow> snd (appendE2EDelivery ops tx i d s)
   | AppendRetry i r \<Rightarrow> snd (appendE2ERetry ops i r s)
   | DeleteOp i \<Rightarrow> queueDelete ops i s
   | SubscribeOp f \<Rightarrow> snd (queue_subscribe f s)
   | UnsubscribeOp i \<Rightarrow> queue_unsubscribe i s
   | BlockOp e \<Rightarrow> on_storage (putBlock ops e) s
   | UnblockOp d \<Rightarrow> on_storage (deleteBlock ops d) s
   | AllowOp e \<Rightarrow> on_storage (putAllow ops e) s
   | UnallowOp d \<Rightarrow> on_storage (deleteAllow ops d) s
   | SeenOp e \<Rightarrow> on_storage (putSeen ops e) s
   | CleanSeenOp now age \<Rightarrow> on_storage (cleanupSeenStore ops now age) s
   | RateOp e \<Rightarrow> on_storage (putRateLimit ops e) s
   | CleanRateOp now age \<Rightarrow> on_storage (cleanupRateLimitStore ops now age) s
   | ArchiveOp now t \<Rightarrow> on_storage (\<lambda>db. or_keep db (archiveSession ops now t db)) s
   | UnarchiveOp t \<Rightarrow> on_storage (\<lambda>db. or_keep db (unarchiveSession ops t db)) s)"

definition queue_run :: "('d, store_value) level_ops \<Rightarrow> text_ops \<Rightarrow> message_op list \<Rightarrow> 'd message_queue \<Rightarrow> 'd message_queue" where
  "queue_run ops tx = fold (queue_apply ops tx)"

text \<open>What each operation does to the map.\<close>

definition spec_apply :: "text_ops \<Rightarrow> message_op \<Rightarrow> boxes \<Rightarrow> boxes" where
  "spec_apply tx op A = (case op of
     EnqueueIn now e ts st d \<Rightarrow> spec_put tx (inbound_message now e ts st d) A
   | EnqueueOut now e ds \<Rightarrow> spec_put tx (outbound_message now e ds) A
   | MarkRead now i \<Rightarrow> spec_update i (read_at now) A
   | RetryOp i \<Rightarrow> spec_update i as_retried A
   | MarkDelivered i \<Rightarrow> spec_update i as_delivered A
   | MarkFailed i err \<Rightarrow> spec_update i (as_failed err) A
   | AppendDelivery i d \<Rightarrow> spec_update i (\<lambda>m. mergeStoredMessageE2EDeliveries tx m [d]) A
   | AppendRetry i r \<Rightarrow> spec_retry i r A
   | DeleteOp i \<Rightarrow> A(i := None)
   | _ \<Rightarrow> A)"

definition spec_run :: "text_ops \<Rightarrow> message_op list \<Rightarrow> boxes \<Rightarrow> boxes" where
  "spec_run tx = fold (spec_apply tx)"

text \<open>A store of messages over a level database and the text operations of the platform.\<close>

locale message_store = level_store ops for ops :: "('d, store_value) level_ops" +
  fixes tx :: text_ops
  assumes tx_ok: "text_ok tx"
begin

lemma messages_under_mem:
  assumes "store_ok ops db"
  shows "(k, m) \<in> set (messages_under ops (message_prefix d) db) \<longleftrightarrow> lv_get ops db k = Some (VMessage m) \<and> box_of k = d"
proof
  assume "(k, m) \<in> set (messages_under ops (message_prefix d) db)"
  then have g: "lv_get ops db k = Some (VMessage m)" and r: "prefix (message_prefix d) k"
    by (auto simp: messages_under_def map_filter_set range_mem in_range_prefix)
  then obtain d' ts where "k = message_key d' ts (me_id (sm_envelope m))" using store_okD [OF assms g] by metis
  with g r show "lv_get ops db k = Some (VMessage m) \<and> box_of k = d" by (simp add: prefix_message_key)
next
  assume g: "lv_get ops db k = Some (VMessage m) \<and> box_of k = d"
  then obtain d' ts where "time_text ts" "k = message_key d' ts (me_id (sm_envelope m))" using store_okD [OF assms, of k m] by metis
  with g have "message_prefix d \<le> k" "k \<le> message_prefix d @ js_ff" using message_key_range by auto
  with g have "(k, VMessage m) \<in> set (lv_range ops (message_prefix d) (message_prefix d @ js_ff) db)" by (simp add: range_mem)
  then show "(k, m) \<in> set (messages_under ops (message_prefix d) db)"
    by (force simp: messages_under_def map_filter_set)
qed

lemma normalized_under_mem:
  assumes "store_ok ops db"
  shows "(k, n) \<in> set (normalized_under ops (message_prefix d) db) \<longleftrightarrow> (\<exists>m. lv_get ops db k = Some (VMessage m) \<and> box_of k = d \<and> n = normal m)"
proof -
  have "(k, n) \<in> set (normalized_under ops (message_prefix d) db)
      \<longleftrightarrow> (\<exists>m. (k, m) \<in> set (messages_under ops (message_prefix d) db) \<and> normalizeStoredMessage m = Some n)"
    by (force simp: normalized_under_def map_filter_set)
  also have "\<dots> \<longleftrightarrow> (\<exists>m. lv_get ops db k = Some (VMessage m) \<and> box_of k = d \<and> n = normal m)"
    using assms by (auto simp: messages_under_mem normalize_stored store_ok_def)
  finally show ?thesis .
qed

lemma normalized_distinct: "distinct (map fst (normalized_under ops p db))"
proof -
  have mf: "distinct (map fst xs) \<Longrightarrow> (\<And>x y. f x = Some y \<Longrightarrow> fst y = fst x) \<Longrightarrow> distinct (map fst (List.map_filter f xs))" for f :: "'x \<times> 'y \<Rightarrow> ('x \<times> 'z) option" and xs
  proof (induction xs)
    case (Cons x xs)
    have "fst x \<notin> set (map fst (List.map_filter f xs))"
    proof
      assume "fst x \<in> set (map fst (List.map_filter f xs))"
      then obtain y z where "z \<in> set xs" "f z = Some y" "fst y = fst x" by (auto simp: map_filter_set)
      then show False using Cons.prems by (metis distinct.simps(2) image_eqI list.set_map list.simps(9))
    qed
    with Cons show ?case by (auto simp: List.map_filter_simps split: option.split)
  qed (simp add: List.map_filter_simps)
  have "distinct (map fst (messages_under ops p db))"
    unfolding messages_under_def range_iter
    by (rule mf) (auto simp: distinct_map_filter iter_distinct)
  then show ?thesis unfolding normalized_under_def by (rule mf) (auto split: prod.splits)
qed

lemma find_in_iff:
  assumes "store_ok ops db"
  shows "find_in ops i d db = Some (k, n) \<longleftrightarrow> (\<exists>m. lv_get ops db k = Some (VMessage m) \<and> box_of k = d \<and> me_id (sm_envelope m) = i \<and> n = normal m)"
    (is "_ \<longleftrightarrow> ?R")
proof
  assume "find_in ops i d db = Some (k, n)"
  then have "(k, n) \<in> set (normalized_under ops (message_prefix d) db)" "me_id (sm_envelope n) = i"
    unfolding find_in_def by (auto dest: find_Some_mem)
  then show ?R by (auto simp: normalized_under_mem [OF assms])
next
  assume r: ?R
  then have "(k, n) \<in> set (normalized_under ops (message_prefix d) db)" "me_id (sm_envelope n) = i" by (auto simp: normalized_under_mem [OF assms])
  then have "find_in ops i d db \<noteq> None" unfolding find_in_def find_None_iff by blast
  then obtain k' n' where f: "find_in ops i d db = Some (k', n')" by auto
  then have "(k', n') \<in> set (normalized_under ops (message_prefix d) db)" "me_id (sm_envelope n') = i"
    unfolding find_in_def by (auto dest: find_Some_mem)
  moreover from this obtain m' where "lv_get ops db k' = Some (VMessage m')" "n' = normal m'" using normalized_under_mem [OF assms, of k' n' d] by blast
  moreover obtain m where "lv_get ops db k = Some (VMessage m)" "me_id (sm_envelope m) = i" "n = normal m" using r by blast
  moreover have "k' = k" using calculation store_ok_unique [OF assms, of k' m' k m] by simp
  ultimately show "find_in ops i d db = Some (k, n)" using f by simp
qed

lemma find_record_iff:
  assumes "store_ok ops db"
  shows "findStoredMessageRecord ops i dir db = Some (k, n)
    \<longleftrightarrow> (\<exists>m. lv_get ops db k = Some (VMessage m) \<and> (dir = None \<or> dir = Some (box_of k)) \<and> me_id (sm_envelope m) = i \<and> n = normal m)"
proof (cases dir)
  case None
  have other: "find_in ops i Inbound db = None" if "lv_get ops db k = Some (VMessage m)" "box_of k = Outbound" "me_id (sm_envelope m) = i" for k m
  proof (rule ccontr)
    assume "find_in ops i Inbound db \<noteq> None"
    then obtain k' n' where "find_in ops i Inbound db = Some (k', n')" by auto
    then obtain m' where m': "lv_get ops db k' = Some (VMessage m')" "box_of k' = Inbound" "me_id (sm_envelope m') = i" using find_in_iff [OF assms, of i Inbound k' n'] by blast
    then have "k' = k" using that store_ok_unique [OF assms, of k' m' k m] by simp
    then show False using that m' by simp
  qed
  show ?thesis (is "_ \<longleftrightarrow> ?R")
  proof
    assume "findStoredMessageRecord ops i dir db = Some (k, n)"
    then have "find_in ops i Inbound db = Some (k, n) \<or> find_in ops i Outbound db = Some (k, n)"
      using None by (auto simp: findStoredMessageRecord_def split: option.splits)
    with None show ?R by (auto simp: find_in_iff [OF assms])
  next
    assume ?R
    then obtain m where m: "lv_get ops db k = Some (VMessage m)" "me_id (sm_envelope m) = i" "n = normal m" by blast
    show "findStoredMessageRecord ops i dir db = Some (k, n)"
    proof (cases "box_of k")
      case Inbound
      then have "find_in ops i Inbound db = Some (k, n)" using m by (simp add: find_in_iff [OF assms])
      with None show ?thesis by (simp add: findStoredMessageRecord_def)
    next
      case Outbound
      then have "find_in ops i Outbound db = Some (k, n)" using m by (simp add: find_in_iff [OF assms])
      with None other [OF m(1) Outbound m(2)] show ?thesis by (simp add: findStoredMessageRecord_def)
    qed
  qed
next
  case (Some d)
  then show ?thesis by (auto simp: findStoredMessageRecord_def find_in_iff [OF assms])
qed

lemma box_state_iff:
  assumes "store_ok ops db"
  shows "box_state ops db i = Some (d, n) \<longleftrightarrow> (\<exists>k m. lv_get ops db k = Some (VMessage m) \<and> box_of k = d \<and> me_id (sm_envelope m) = i \<and> n = normal m)"
proof -
  have "box_state ops db i = Some (d, n) \<longleftrightarrow> (\<exists>k. findStoredMessageRecord ops i None db = Some (k, n) \<and> box_of k = d)"
    by (auto simp: box_state_def)
  also have "\<dots> \<longleftrightarrow> (\<exists>k m. lv_get ops db k = Some (VMessage m) \<and> box_of k = d \<and> me_id (sm_envelope m) = i \<and> n = normal m)"
    unfolding find_record_iff [OF assms] by blast
  finally show ?thesis .
qed

lemma box_state_eqI:
  assumes "store_ok ops db"
    "\<And>i d n. R i = Some (d, n) \<longleftrightarrow> (\<exists>k m. lv_get ops db k = Some (VMessage m) \<and> box_of k = d \<and> me_id (sm_envelope m) = i \<and> n = normal m)"
  shows "box_state ops db = R"
proof (rule ext)
  fix i
  show "box_state ops db i = R i"
  proof (cases "R i")
    case (Some p)
    obtain d n where p: "p = (d, n)" by (cases p)
    then have "R i = Some (d, n)" using Some by simp
    then show ?thesis unfolding assms(2) box_state_iff [OF assms(1), symmetric] using Some p by simp
  next
    case None
    then have "box_state ops db i \<noteq> Some (d, n)" for d n using assms(2) box_state_iff [OF assms(1)] by (metis option.distinct(1))
    then show ?thesis using None by (cases "box_state ops db i") auto
  qed
qed

lemma replace_message:
  assumes "store_ok ops db" "lv_get ops db k = Some (VMessage m)" "me_id (sm_envelope m') = me_id (sm_envelope m)" "valid_envelope (sm_envelope m')"
  shows "store_ok ops (lv_put ops k (VMessage m') db)"
    "box_state ops (lv_put ops k (VMessage m') db) = (box_state ops db)(me_id (sm_envelope m) \<mapsto> (box_of k, normal m'))"
proof -
  obtain d ts where k: "time_text ts" "k = message_key d ts (me_id (sm_envelope m))" using store_okD [OF assms(1,2)] by metis
  show ok: "store_ok ops (lv_put ops k (VMessage m') db)"
    unfolding store_ok_def
  proof (intro conjI allI impI)
    fix k1 m1 assume g: "lv_get ops (lv_put ops k (VMessage m') db) k1 = Some (VMessage m1)"
    have "valid_envelope (sm_envelope m1) \<and> (\<exists>d ts. time_text ts \<and> k1 = message_key d ts (me_id (sm_envelope m1)))"
    proof (cases "k1 = k")
      case True
      then have "m1 = m'" using g by (simp add: get_put)
      then show ?thesis using True assms(3,4) k by auto
    next
      case False
      then have "lv_get ops db k1 = Some (VMessage m1)" using g by (simp add: get_put)
      then show ?thesis using store_okD [OF assms(1)] by metis
    qed
    then show "valid_envelope (sm_envelope m1)" "\<exists>d ts. time_text ts \<and> k1 = message_key d ts (me_id (sm_envelope m1))" by auto
  next
    fix k1 k2 m1 m2
    assume g: "lv_get ops (lv_put ops k (VMessage m') db) k1 = Some (VMessage m1)" "lv_get ops (lv_put ops k (VMessage m') db) k2 = Some (VMessage m2)"
      "me_id (sm_envelope m1) = me_id (sm_envelope m2)"
    then have "\<exists>n1 n2. lv_get ops db k1 = Some (VMessage n1) \<and> me_id (sm_envelope n1) = me_id (sm_envelope m1)
      \<and> lv_get ops db k2 = Some (VMessage n2) \<and> me_id (sm_envelope n2) = me_id (sm_envelope m2)"
      using assms(2,3) by (auto simp: get_put split: if_splits)
    then show "k1 = k2" using g(3) store_ok_unique [OF assms(1)] by metis
  qed
  show "box_state ops (lv_put ops k (VMessage m') db) = (box_state ops db)(me_id (sm_envelope m) \<mapsto> (box_of k, normal m'))"
  proof (rule box_state_eqI [OF ok])
    fix i d n
    show "((box_state ops db)(me_id (sm_envelope m) \<mapsto> (box_of k, normal m'))) i = Some (d, n)
      \<longleftrightarrow> (\<exists>k1 m1. lv_get ops (lv_put ops k (VMessage m') db) k1 = Some (VMessage m1) \<and> box_of k1 = d \<and> me_id (sm_envelope m1) = i \<and> n = normal m1)"
    proof (cases "i = me_id (sm_envelope m)")
      case True
      have "k1 = k" if "lv_get ops (lv_put ops k (VMessage m') db) k1 = Some (VMessage m1)" "me_id (sm_envelope m1) = i" for k1 m1
      proof (rule ccontr)
        assume "k1 \<noteq> k"
        then have "lv_get ops db k1 = Some (VMessage m1)" using that(1) by (simp add: get_put)
        then show False using store_ok_unique [OF assms(1) _ assms(2)] that(2) True \<open>k1 \<noteq> k\<close> by blast
      qed
      moreover have "lv_get ops (lv_put ops k (VMessage m') db) k = Some (VMessage m')" by (simp add: get_put)
      ultimately have "(\<exists>k1 m1. lv_get ops (lv_put ops k (VMessage m') db) k1 = Some (VMessage m1) \<and> box_of k1 = d \<and> me_id (sm_envelope m1) = i \<and> n = normal m1)
        \<longleftrightarrow> box_of k = d \<and> n = normal m'"
        using True assms(3) by (metis option.inject store_value.inject(1))
      then show ?thesis using True by auto
    next
      case False
      then have "lv_get ops (lv_put ops k (VMessage m') db) k1 = Some (VMessage m1) \<and> me_id (sm_envelope m1) = i
        \<longleftrightarrow> lv_get ops db k1 = Some (VMessage m1) \<and> me_id (sm_envelope m1) = i" for k1 m1
        using assms(2,3) by (auto simp: get_put)
      then show ?thesis using False box_state_iff [OF assms(1), of i d n] by auto
    qed
  qed
qed

lemma add_message:
  assumes "store_ok ops db" "box_state ops db (me_id (sm_envelope m)) = None" "valid_envelope (sm_envelope m)" "time_text ts"
  shows "store_ok ops (lv_put ops (message_key d ts (me_id (sm_envelope m))) (VMessage m) db)"
    "box_state ops (lv_put ops (message_key d ts (me_id (sm_envelope m))) (VMessage m) db) = (box_state ops db)(me_id (sm_envelope m) \<mapsto> (d, normal m))"
proof -
  let ?k = "message_key d ts (me_id (sm_envelope m))" and ?db = "lv_put ops (message_key d ts (me_id (sm_envelope m))) (VMessage m) db"
  have none: "me_id (sm_envelope m1) \<noteq> me_id (sm_envelope m)" if "lv_get ops db k1 = Some (VMessage m1)" for k1 m1
    using that assms(2) box_state_iff [OF assms(1)] by (metis option.distinct(1))
  have cases: "(k1 = ?k \<and> m1 = m) \<or> (lv_get ops db k1 = Some (VMessage m1) \<and> me_id (sm_envelope m1) \<noteq> me_id (sm_envelope m))"
    if "lv_get ops ?db k1 = Some (VMessage m1)" for k1 m1
    using that none by (auto simp: get_put split: if_splits)
  show ok: "store_ok ops ?db"
    unfolding store_ok_def
  proof (intro conjI allI impI)
    fix k1 m1 assume "lv_get ops ?db k1 = Some (VMessage m1)"
    from cases [OF this] have "valid_envelope (sm_envelope m1) \<and> (\<exists>d ts. time_text ts \<and> k1 = message_key d ts (me_id (sm_envelope m1)))"
    proof (elim disjE conjE)
      assume "lv_get ops db k1 = Some (VMessage m1)"
      then show ?thesis using store_okD [OF assms(1)] by metis
    qed (use assms(3,4) in blast)
    then show "valid_envelope (sm_envelope m1)" "\<exists>d ts. time_text ts \<and> k1 = message_key d ts (me_id (sm_envelope m1))" by auto
  next
    fix k1 k2 m1 m2 assume "lv_get ops ?db k1 = Some (VMessage m1)" "lv_get ops ?db k2 = Some (VMessage m2)" "me_id (sm_envelope m1) = me_id (sm_envelope m2)"
    then show "k1 = k2" using cases store_ok_unique [OF assms(1)] by metis
  qed
  show "box_state ops ?db = (box_state ops db)(me_id (sm_envelope m) \<mapsto> (d, normal m))"
  proof (rule box_state_eqI [OF ok])
    fix i d' n
    have here: "lv_get ops ?db ?k = Some (VMessage m)" by (simp add: get_put)
    have old: "lv_get ops db ?k \<noteq> Some (VMessage m1)" if "me_id (sm_envelope m1) \<noteq> me_id (sm_envelope m)" for m1
    proof
      assume g: "lv_get ops db ?k = Some (VMessage m1)"
      then obtain d1 ts1 where "time_text ts1" "?k = message_key d1 ts1 (me_id (sm_envelope m1))" using store_okD [OF assms(1)] by metis
      then show False using that assms(4) by (simp add: message_key_inj)
    qed
    show "((box_state ops db)(me_id (sm_envelope m) \<mapsto> (d, normal m))) i = Some (d', n)
      \<longleftrightarrow> (\<exists>k1 m1. lv_get ops ?db k1 = Some (VMessage m1) \<and> box_of k1 = d' \<and> me_id (sm_envelope m1) = i \<and> n = normal m1)"
    proof (cases "i = me_id (sm_envelope m)")
      case True
      then have "(\<exists>k1 m1. lv_get ops ?db k1 = Some (VMessage m1) \<and> box_of k1 = d' \<and> me_id (sm_envelope m1) = i \<and> n = normal m1) \<longleftrightarrow> d = d' \<and> n = normal m"
        using here cases by (metis box_of_key)
      then show ?thesis using True by auto
    next
      case False
      then have "lv_get ops ?db k1 = Some (VMessage m1) \<and> me_id (sm_envelope m1) = i \<longleftrightarrow> lv_get ops db k1 = Some (VMessage m1) \<and> me_id (sm_envelope m1) = i" for k1 m1
        using old by (auto simp: get_put)
      then show ?thesis using False box_state_iff [OF assms(1), of i d' n] by auto
    qed
  qed
qed

lemma same_messages:
  assumes "store_ok ops db" "\<And>k m. lv_get ops db' k = Some (VMessage m) \<longleftrightarrow> lv_get ops db k = Some (VMessage m)"
  shows "store_ok ops db'" "box_state ops db' = box_state ops db"
proof -
  show ok: "store_ok ops db'" using assms(1) unfolding store_ok_def assms(2) .
  show "box_state ops db' = box_state ops db"
    by (rule box_state_eqI [OF ok]) (simp add: box_state_iff [OF assms(1)] assms(2))
qed

lemma no_message_at:
  assumes "store_ok ops db" "other_key k"
  shows "lv_get ops db k \<noteq> Some (VMessage m)"
proof
  assume "lv_get ops db k = Some (VMessage m)"
  then obtain d ts where "k = message_key d ts (me_id (sm_envelope m))" using store_okD [OF assms(1)] by metis
  then show False using assms(2) by (simp add: other_key_def message_key_def message_prefix_def)
qed

lemma other_put:
  assumes "store_ok ops db" "other_key k" "\<And>m. v \<noteq> VMessage m"
  shows "store_ok ops (lv_put ops k v db)" "box_state ops (lv_put ops k v db) = box_state ops db"
  using same_messages [OF assms(1), of "lv_put ops k v db"] no_message_at [OF assms(1,2)] assms(3) by (auto simp: get_put)

lemma other_del:
  assumes "store_ok ops db" "other_key k"
  shows "store_ok ops (lv_del ops k db)" "box_state ops (lv_del ops k db) = box_state ops db"
  using same_messages [OF assms(1), of "lv_del ops k db"] no_message_at [OF assms(1,2)] by (auto simp: get_del)

lemma other_del_fold:
  assumes "store_ok ops db" "\<forall>k \<in> set ks. other_key k"
  shows "store_ok ops (fold (lv_del ops) ks db)" "box_state ops (fold (lv_del ops) ks db) = box_state ops db"
proof -
  have n: "k \<notin> set ks" if "lv_get ops db k = Some (VMessage m)" for k m
    using that no_message_at [OF assms(1)] assms(2) by blast
  then have "lv_get ops (fold (lv_del ops) ks db) k = Some (VMessage m) \<longleftrightarrow> lv_get ops db k = Some (VMessage m)" for k m
    by (auto simp: get_del_fold)
  then show "store_ok ops (fold (lv_del ops) ks db)" "box_state ops (fold (lv_del ops) ks db) = box_state ops db"
    using same_messages [OF assms(1)] by blast+
qed

lemma remove_message:
  assumes "store_ok ops db" "lv_get ops db k = Some (VMessage m)"
  shows "store_ok ops (lv_del ops k db)" "box_state ops (lv_del ops k db) = (box_state ops db)(me_id (sm_envelope m) := None)"
proof -
  have g: "lv_get ops (lv_del ops k db) k1 = Some (VMessage m1) \<longleftrightarrow> lv_get ops db k1 = Some (VMessage m1) \<and> me_id (sm_envelope m1) \<noteq> me_id (sm_envelope m)" for k1 m1
  proof (cases "k1 = k")
    case False
    then show ?thesis using store_ok_unique [OF assms(1) _ assms(2)] by (auto simp: get_del)
  qed (use assms(2) in \<open>auto simp: get_del\<close>)
  show ok: "store_ok ops (lv_del ops k db)"
    unfolding store_ok_def g using assms(1) [unfolded store_ok_def] by blast
  show "box_state ops (lv_del ops k db) = (box_state ops db)(me_id (sm_envelope m) := None)"
  proof (rule box_state_eqI [OF ok])
    fix i d n
    show "((box_state ops db)(me_id (sm_envelope m) := None)) i = Some (d, n)
      \<longleftrightarrow> (\<exists>k1 m1. lv_get ops (lv_del ops k db) k1 = Some (VMessage m1) \<and> box_of k1 = d \<and> me_id (sm_envelope m1) = i \<and> n = normal m1)"
      unfolding g using box_state_iff [OF assms(1), of i d n] by auto
  qed
qed

lemma found_record:
  assumes "store_ok ops db" "findStoredMessageRecord ops i dir db = Some (k, n)"
  obtains m where "lv_get ops db k = Some (VMessage m)" "n = normal m" "me_id (sm_envelope n) = i" "valid_envelope (sm_envelope n)"
    "box_state ops db i = Some (box_of k, n)" "dir = None \<or> dir = Some (box_of k)"
proof -
  obtain m where m: "lv_get ops db k = Some (VMessage m)" "dir = None \<or> dir = Some (box_of k)" "me_id (sm_envelope m) = i" "n = normal m"
    using assms(2) find_record_iff [OF assms(1)] by blast
  moreover have "valid_envelope (sm_envelope m)" using store_okD [OF assms(1) m(1)] by metis
  moreover have "box_state ops db i = Some (box_of k, n)" using m box_state_iff [OF assms(1)] by blast
  ultimately show ?thesis using that by simp
qed

lemma found_none:
  assumes "store_ok ops db"
  shows "findStoredMessageRecord ops i None db = None \<longleftrightarrow> box_state ops db i = None"
  by (simp add: box_state_def)

lemma update_found:
  assumes "store_ok ops db" "findStoredMessageRecord ops i dir db = Some (k, n)" "sm_envelope n' = sm_envelope n"
  shows "store_ok ops (lv_put ops k (VMessage n') db)" "box_state ops (lv_put ops k (VMessage n') db) = (box_state ops db)(i \<mapsto> (box_of k, normal n'))"
proof -
  obtain m where m: "lv_get ops db k = Some (VMessage m)" "n = normal m" "me_id (sm_envelope n) = i" "valid_envelope (sm_envelope n)"
    using found_record [OF assms(1,2)] by metis
  have "me_id (sm_envelope n') = me_id (sm_envelope m)" "valid_envelope (sm_envelope n')" using m assms(3) by simp_all
  from replace_message [OF assms(1) m(1) this] m(2,3)
  show "store_ok ops (lv_put ops k (VMessage n') db)" "box_state ops (lv_put ops k (VMessage n') db) = (box_state ops db)(i \<mapsto> (box_of k, normal n'))"
    by simp_all
qed

lemma update_box:
  assumes "store_ok ops db" "\<And>m. sm_envelope (u m) = sm_envelope m"
  shows "store_ok ops (updateMessage ops i u db)" "box_state ops (updateMessage ops i u db) = spec_update i u (box_state ops db)"
proof -
  have "store_ok ops (updateMessage ops i u db) \<and> box_state ops (updateMessage ops i u db) = spec_update i u (box_state ops db)"
  proof (cases "findStoredMessageRecord ops i None db")
    case None
    with assms(1) show ?thesis by (simp add: updateMessage_def spec_update_def box_state_def)
  next
    case (Some r)
    obtain k n where r: "r = (k, n)" by (cases r)
    have "box_state ops db i = Some (box_of k, n)" using Some r by (simp add: box_state_def)
    with update_found [OF assms(1) Some [unfolded r], of "u n"] assms(2) Some r show ?thesis
      by (simp add: updateMessage_def spec_update_def)
  qed
  then show "store_ok ops (updateMessage ops i u db)" "box_state ops (updateMessage ops i u db) = spec_update i u (box_state ops db)" by auto
qed

lemma session_other: "other_key (session_key t)" "other_key (from_key f ts i)" "other_key (thread_key t ts i)"
  by (simp_all add: other_key_def session_key_def from_key_def thread_key_def thread_prefix_def)

lemma session_box:
  assumes "store_ok ops db"
  shows "store_ok ops (updateSessionMeta ops tx m db)" "box_state ops (updateSessionMeta ops tx m db) = box_state ops db"
  using other_put [OF assms session_other(1)] assms
  by (auto simp: updateSessionMeta_def Let_def split: option.split store_value.split)

lemma insert_box:
  assumes "store_ok ops db" "box_state ops db (me_id (sm_envelope m)) = None" "valid_envelope (sm_envelope m)"
  shows "store_ok ops (insert_message ops tx m db)"
    "box_state ops (insert_message ops tx m db) = (box_state ops db)(me_id (sm_envelope m) \<mapsto> (sm_direction m, normal m))"
proof -
  let ?ts = "pad16 (number_text tx (getMessageSortTimestamp m))"
  have ts: "time_text ?ts" using tx_ok sort_timestamp_nonneg pad16_time by (simp add: text_ok_def)
  let ?db1 = "lv_put ops (message_key (sm_direction m) ?ts (me_id (sm_envelope m))) (VMessage m) db"
  note one = add_message [OF assms(1,2,3) ts, of "sm_direction m"]
  note two = other_put [OF one(1) session_other(2), of VIndex]
  show "store_ok ops (insert_message ops tx m db)"
    using two other_put [OF two(1) session_other(3), of VIndex] session_box
    by (simp add: insert_message_def Let_def split: option.split)
  show "box_state ops (insert_message ops tx m db) = (box_state ops db)(me_id (sm_envelope m) \<mapsto> (sm_direction m, normal m))"
    using two other_put [OF two(1) session_other(3), of VIndex] session_box one(2)
    by (simp add: insert_message_def Let_def split: option.split)
qed

lemma put_box:
  assumes "store_ok ops db"
  shows "valid_envelope (sm_envelope m) \<Longrightarrow> \<exists>db'. putMessage ops tx m db = Inr db' \<and> store_ok ops db' \<and> box_state ops db' = spec_put tx m (box_state ops db)"
    "\<not> valid_envelope (sm_envelope m) \<Longrightarrow> \<exists>e. putMessage ops tx m db = Inl e"
proof -
  assume v: "valid_envelope (sm_envelope m)"
  then have n: "requireStoredMessage m = Inr (normal m)" by (simp add: requireStoredMessage_def normalize_stored)
  show "\<exists>db'. putMessage ops tx m db = Inr db' \<and> store_ok ops db' \<and> box_state ops db' = spec_put tx m (box_state ops db)"
  proof (cases "findStoredMessageRecord ops (me_id (sm_envelope m)) None db")
    case None
    then have "box_state ops db (me_id (sm_envelope (normal m))) = None" by (simp add: found_none [OF assms, symmetric])
    with insert_box [OF assms this] v n None show ?thesis by (simp add: putMessage_def spec_put_def)
  next
    case (Some r)
    obtain k e where r: "r = (k, e)" by (cases r)
    obtain m0 where m0: "lv_get ops db k = Some (VMessage m0)" "e = normal m0" "me_id (sm_envelope e) = me_id (sm_envelope m)"
      "box_state ops db (me_id (sm_envelope m)) = Some (box_of k, e)"
      using found_record [OF assms Some [unfolded r]] by metis
    have "me_id (sm_envelope (mergeStoredMessages tx e (normal m))) = me_id (sm_envelope m0)" using m0 by simp
    from replace_message [OF assms m0(1) this] v n Some r m0 show ?thesis by (simp add: putMessage_def spec_put_def)
  qed
next
  assume "\<not> valid_envelope (sm_envelope m)"
  then show "\<exists>e. putMessage ops tx m db = Inl e" by (simp add: putMessage_def requireStoredMessage_def normalize_stored)
qed

lemma delete_box:
  assumes "store_ok ops db"
  shows "store_ok ops (deleteMessage ops i db)" "box_state ops (deleteMessage ops i db) = (box_state ops db)(i := None)"
proof -
  have "store_ok ops (deleteMessage ops i db) \<and> box_state ops (deleteMessage ops i db) = (box_state ops db)(i := None)"
  proof (cases "findStoredMessageRecord ops i None db")
    case None
    then have "box_state ops db i = None" by (simp add: found_none [OF assms, symmetric])
    with assms None show ?thesis by (auto simp: deleteMessage_def)
  next
    case (Some r)
    obtain k n where r: "r = (k, n)" by (cases r)
    obtain m where m: "lv_get ops db k = Some (VMessage m)" "n = normal m" "me_id (sm_envelope n) = i"
      using found_record [OF assms Some [unfolded r]] by metis
    note one = remove_message [OF assms m(1)]
    note two = other_del [OF one(1) session_other(2)]
    show ?thesis
      using two other_del [OF two(1) session_other(3)] one(2) m Some r
      by (simp add: deleteMessage_def Let_def split: option.split)
  qed
  then show "store_ok ops (deleteMessage ops i db)" "box_state ops (deleteMessage ops i db) = (box_state ops db)(i := None)" by auto
qed

lemma deliveries_box:
  assumes "store_ok ops db" "ds \<noteq> []"
  shows "store_ok ops (snd (upsertE2EDeliveries ops tx i ds db))"
    "box_state ops (snd (upsertE2EDeliveries ops tx i ds db)) = spec_update i (\<lambda>m. mergeStoredMessageE2EDeliveries tx m ds) (box_state ops db)"
proof -
  have "snd (upsertE2EDeliveries ops tx i ds db) = updateMessage ops i (\<lambda>m. mergeStoredMessageE2EDeliveries tx m ds) db"
    using assms(2) by (simp add: upsertE2EDeliveries_def updateMessage_def Let_def split: option.split)
  then show "store_ok ops (snd (upsertE2EDeliveries ops tx i ds db))"
    "box_state ops (snd (upsertE2EDeliveries ops tx i ds db)) = spec_update i (\<lambda>m. mergeStoredMessageE2EDeliveries tx m ds) (box_state ops db)"
    using update_box [OF assms(1), of "\<lambda>m. mergeStoredMessageE2EDeliveries tx m ds"] by simp_all
qed

lemma outbound_lookup:
  assumes "store_ok ops db"
  shows "getMessage ops i (Some d) db = (case box_state ops db i of Some (d', m) \<Rightarrow> if d' = d then Some m else None | None \<Rightarrow> None)"
proof -
  have "getMessage ops i (Some d) db = Some n \<longleftrightarrow> box_state ops db i = Some (d, n)" for n
    unfolding getMessage_def map_option_eq_Some box_state_iff [OF assms] using find_record_iff [OF assms, of i "Some d"] by auto
  note eq = this
  show ?thesis
  proof (cases "getMessage ops i (Some d) db")
    case None
    then have "box_state ops db i \<noteq> Some (d, n)" for n using eq by simp
    with None show ?thesis by (auto split: option.splits)
  qed (use eq in auto)
qed

lemma retry_box:
  assumes "store_ok ops db"
  shows "store_ok ops (snd (upsertE2ERetry ops i r db))" "box_state ops (snd (upsertE2ERetry ops i r db)) = spec_retry i r (box_state ops db)"
proof -
  have "store_ok ops (snd (upsertE2ERetry ops i r db)) \<and> box_state ops (snd (upsertE2ERetry ops i r db)) = spec_retry i r (box_state ops db)"
  proof (cases "findStoredMessageRecord ops i (Some Outbound) db")
    case None
    then have "getMessage ops i (Some Outbound) db = None" by (simp add: getMessage_def)
    then have "spec_retry i r (box_state ops db) = box_state ops db"
      using outbound_lookup [OF assms, of i Outbound] by (auto simp: spec_retry_def split: option.splits direction.splits if_splits)
    with None assms show ?thesis by (simp add: upsertE2ERetry_def)
  next
    case (Some p)
    obtain k n where p: "p = (k, n)" by (cases p)
    have b: "box_state ops db i = Some (box_of k, n)" "box_of k = Outbound" using found_record [OF assms Some [unfolded p]] by (metis option.distinct(1) option.inject)+
    have s: "snd (upsertE2ERetry ops i r db) = lv_put ops k (VMessage (with_retry r n)) db"
      using Some p by (simp add: upsertE2ERetry_def with_retry_def Let_def)
    show ?thesis unfolding s using update_found [OF assms Some [unfolded p], of "with_retry r n"] b by (simp add: spec_retry_def)
  qed
  then show "store_ok ops (snd (upsertE2ERetry ops i r db))" "box_state ops (snd (upsertE2ERetry ops i r db)) = spec_retry i r (box_state ops db)" by auto
qed

lemma normalized_ids:
  assumes "store_ok ops db"
  shows "distinct (map (\<lambda>m. me_id (sm_envelope m)) (map snd (normalized_under ops (message_prefix d) db)))"
proof -
  have "inj_on (\<lambda>p. me_id (sm_envelope (snd p))) (set (normalized_under ops (message_prefix d) db))"
  proof (rule inj_onI)
    fix p q assume pq: "p \<in> set (normalized_under ops (message_prefix d) db)" "q \<in> set (normalized_under ops (message_prefix d) db)"
      "me_id (sm_envelope (snd p)) = me_id (sm_envelope (snd q))"
    obtain k n k' n' where p: "p = (k, n)" "q = (k', n')" by (cases p; cases q)
    obtain m m' where m: "lv_get ops db k = Some (VMessage m)" "n = normal m" "lv_get ops db k' = Some (VMessage m')" "n' = normal m'"
      using pq(1,2) normalized_under_mem [OF assms] unfolding p by blast
    have "me_id (sm_envelope m) = me_id (sm_envelope m')" using pq(3) unfolding p m(2,4) by simp
    then have "k = k'" by (rule store_ok_unique [OF assms m(1) m(3)])
    then show "p = q" using m unfolding p by simp
  qed
  moreover have "distinct (normalized_under ops (message_prefix d) db)" using normalized_distinct distinct_map by blast
  ultimately show ?thesis by (simp add: distinct_map comp_def)
qed

lemma normalized_boxes:
  assumes "store_ok ops db"
  shows "m \<in> set (map snd (normalized_under ops (message_prefix d) db)) \<longleftrightarrow> (\<exists>i. box_state ops db i = Some (d, m))"
proof -
  have "m \<in> set (map snd (normalized_under ops (message_prefix d) db)) \<longleftrightarrow> (\<exists>k. (k, m) \<in> set (normalized_under ops (message_prefix d) db))"
    by force
  also have "\<dots> \<longleftrightarrow> (\<exists>i. box_state ops db i = Some (d, m))"
    unfolding normalized_under_mem [OF assms] box_state_iff [OF assms] by blast
  finally show ?thesis .
qed

lemma query_enumerates:
  assumes "store_ok ops db"
  shows "\<exists>ms. distinct (map (\<lambda>m. me_id (sm_envelope m)) ms) \<and> set ms = {m. matchesFilter now m f \<and> (\<exists>i. box_state ops db i = Some (d, m))}
    \<and> (\<forall>limit offset. queryMessages ops tx now d f limit offset db = page_of limit offset ms)"
proof -
  let ?ns = "map snd (normalized_under ops (message_prefix d) db)"
  let ?ms = "js_sort (\<lambda>l r. compareMessagesBySortTimestamp tx r l) (filter (\<lambda>m. matchesFilter now m f) ?ns)"
  have "distinct (map (\<lambda>m. me_id (sm_envelope m)) ?ms)"
    unfolding distinct_map_js_sort by (rule distinct_map_filter) (rule normalized_ids [OF assms])
  moreover have "set ?ms = {m. matchesFilter now m f \<and> (\<exists>i. box_state ops db i = Some (d, m))}"
    unfolding set_js_sort set_filter using normalized_boxes [OF assms] by auto
  ultimately show ?thesis by (intro exI [of _ ?ms] conjI) (auto simp: queryMessages_def)
qed

lemma apply_box:
  assumes "store_ok ops (mq_storage s)"
  shows "store_ok ops (mq_storage (queue_apply ops tx op s))
    \<and> box_state ops (mq_storage (queue_apply ops tx op s)) = spec_apply tx op (box_state ops (mq_storage s))"
proof -
  have put: "store_ok ops (mq_storage s') \<and> box_state ops (mq_storage s') = spec_put tx m (box_state ops (mq_storage s))"
    if "mq_storage s' = or_keep (mq_storage s) (putMessage ops tx m (mq_storage s))" for m s'
    using put_box [OF assms, of m] that assms by (cases "valid_envelope (sm_envelope m)") (auto simp: or_keep_def spec_put_def)
  have upd: "store_ok ops (updateMessage ops i u (mq_storage s)) \<and> box_state ops (updateMessage ops i u (mq_storage s)) = spec_update i u (box_state ops (mq_storage s))"
    if "\<And>m. sm_envelope (u m) = sm_envelope m" for i u
    using update_box [OF assms that] by blast
  have other: "store_ok ops (lv_put ops k v (mq_storage s)) \<and> box_state ops (lv_put ops k v (mq_storage s)) = box_state ops (mq_storage s)"
    if "other_key k" "\<And>m. v \<noteq> VMessage m" for k v
    using other_put [OF assms that] by blast
  have del: "store_ok ops (lv_del ops k (mq_storage s)) \<and> box_state ops (lv_del ops k (mq_storage s)) = box_state ops (mq_storage s)" if "other_key k" for k
    using other_del [OF assms that] by blast
  have dels: "store_ok ops (fold (lv_del ops) ks (mq_storage s)) \<and> box_state ops (fold (lv_del ops) ks (mq_storage s)) = box_state ops (mq_storage s)"
    if "\<forall>k \<in> set ks. other_key k" for ks
    using other_del_fold [OF assms that] by blast
  have ranged: "other_key k" if "(k, v) \<in> set (lv_range ops p (p @ js_ff) db)" "\<not> prefix p ''msg:''" "\<not> prefix ''msg:'' p" for k v p db
  proof -
    have "prefix p k" using that(1) in_range_prefix unfolding range_mem by blast
    with that(2,3) show ?thesis unfolding other_key_def using prefix_same_cases by blast
  qed
  have archive: "store_ok ops (or_keep (mq_storage s) r) \<and> box_state ops (or_keep (mq_storage s) r) = box_state ops (mq_storage s)"
    if "r = archiveSession ops now t (mq_storage s) \<or> r = unarchiveSession ops t (mq_storage s)" for now t r
    using that assms other [OF session_other(1)] by (auto simp: or_keep_def archiveSession_def unarchiveSession_def split: option.split)
  show ?thesis
  proof (cases op)
    case (EnqueueIn now e ts st d)
    then have "mq_storage (queue_apply ops tx op s) = or_keep (mq_storage s) (putMessage ops tx (inbound_message now e ts st d) (mq_storage s))"
      by (simp add: queue_apply_def enqueueInbound_def Let_def and_then_def or_keep_def split: sum.split)
    from put [OF this] EnqueueIn show ?thesis by (simp add: spec_apply_def)
  next
    case (EnqueueOut now e ds)
    then have "mq_storage (queue_apply ops tx op s) = or_keep (mq_storage s) (putMessage ops tx (outbound_message now e ds) (mq_storage s))"
      by (simp add: queue_apply_def enqueueOutbound_def Let_def and_then_def or_keep_def split: sum.split)
    from put [OF this] EnqueueOut show ?thesis by (simp add: spec_apply_def)
  next
    case (AppendDelivery i d)
    then show ?thesis
      using deliveries_box [OF assms, of "[d]" i] by (auto simp: queue_apply_def spec_apply_def appendE2EDelivery_def split: prod.split)
  next
    case (AppendRetry i r)
    then show ?thesis using retry_box [OF assms, of i r] by (auto simp: queue_apply_def spec_apply_def appendE2ERetry_def split: prod.split)
  next
    case (DeleteOp i)
    then show ?thesis using delete_box [OF assms, of i] by (simp add: queue_apply_def spec_apply_def queueDelete_def on_storage_def)
  next
    case (CleanSeenOp now age)
    then show ?thesis
      using dels ranged [of _ _ "''seen:''"] by (auto simp: queue_apply_def spec_apply_def on_storage_def cleanupSeenStore_def intro!: dels)
  next
    case (CleanRateOp now age)
    then show ?thesis
      using dels ranged [of _ _ "''rate:''"] by (auto simp: queue_apply_def spec_apply_def on_storage_def cleanupRateLimitStore_def intro!: dels)
  next
    case (ArchiveOp now t)
    then show ?thesis using archive [OF disjI1, OF refl, of now t] by (simp add: queue_apply_def spec_apply_def on_storage_def)
  next
    case (UnarchiveOp t)
    then show ?thesis using archive [OF disjI2, OF refl, of t] by (simp add: queue_apply_def spec_apply_def on_storage_def)
  next
    case (SubscribeOp f)
    then show ?thesis using assms by (simp add: queue_apply_def spec_apply_def queue_subscribe_def Let_def)
  next
    case (UnsubscribeOp f)
    then show ?thesis using assms by (simp add: queue_apply_def spec_apply_def queue_unsubscribe_def)
  qed (simp_all add: queue_apply_def spec_apply_def on_storage_def markAsRead_def retryMessage_def markOutboundDelivered_def markOutboundFailed_def
      putBlock_def deleteBlock_def putAllow_def deleteAllow_def putSeen_def putRateLimit_def upd read_at_def as_retried_def as_delivered_def as_failed_def
      other del other_key_def)
qed

lemma run_box:
  assumes "store_ok ops (mq_storage s)"
  shows "store_ok ops (mq_storage (queue_run ops tx os s)) \<and> box_state ops (mq_storage (queue_run ops tx os s)) = spec_run tx os (box_state ops (mq_storage s))"
  using assms
proof (induction os arbitrary: s)
  case (Cons op os)
  from apply_box [OF Cons.prems, of op] Cons.IH [of "queue_apply ops tx op s"] show ?case by (simp add: queue_run_def spec_run_def)
qed (simp add: queue_run_def spec_run_def)

lemma empty_box:
  assumes "\<And>k. lv_get ops db k = None"
  shows "store_ok ops db" "box_state ops db = Map.empty"
proof -
  show ok: "store_ok ops db" by (simp add: store_ok_def assms)
  show "box_state ops db = Map.empty" by (rule box_state_eqI [OF ok]) (simp add: assms)
qed

end

section \<open>A store and a platform\<close>

text \<open>Text operations of a platform on ASCII text, for the witnesses. Numbers that are not natural are rounded down.\<close>

definition plain_text :: text_ops where
  "plain_text = \<lparr>number_text = (\<lambda>x. js_show_nat (nat \<lfloor>x\<rfloor>)), json_string = (\<lambda>v. case v of JStr s \<Rightarrow> s | _ \<Rightarrow> ''[object Object]''),
     locale_compare = (\<lambda>l r. if str_less l r then -1 else if str_less r l then 1 else 0), lower_case = id, text_take = take\<rparr>"

lemma show_nat_time: "time_text (js_show_nat n)"
  proof -
  have "js_digit (hd (js_show_nat n))" using js_show_nat_ne by (intro js_show_nat_digits [of _ n] hd_in_set)
  moreover have "CHR '':'' \<notin> set (js_show_nat n)" using js_show_nat_digits [of "CHR '':''" n] by (auto simp: js_digit_def)
  ultimately show ?thesis using js_show_nat_ne by (simp add: time_text_def digit_first_def)
qed

lemma plain_text_ok: "text_ok plain_text"
  by (simp add: text_ok_def plain_text_def show_nat_time)

interpretation rbt_messages: message_store rbt_level plain_text
  by (intro message_store.intro message_store_axioms.intro rbt_level_store plain_text_ok)

section \<open>Properties\<close>

text \<open>C23: The message database implements a map from message identifiers to a box (inbox or outbox) and a message. After any
  history of the operations of the queue, the block list, the allow list, the seen cache, the rate limits and the sessions on an
  empty database, the lookups return what the map holds, and every page of a query is a slice of one list that
  holds each message of the box that matches the filter exactly once. So identifiers are unique over both boxes.\<close>

theorem queue_implements_map:
  assumes "level_store ops" "text_ok tx" "\<forall>k. lv_get ops start_db k = None"
    "A = spec_run tx os Map.empty" "s = queue_run ops tx os (start_queue start_db)"
  shows "getMessage ops i None (mq_storage s) = map_option snd (A i)
    \<and> getOutboundMessage ops i s = (case A i of Some (Outbound, m) \<Rightarrow> Some m | _ \<Rightarrow> None)
    \<and> (\<exists>ms. distinct (map (\<lambda>m. me_id (sm_envelope m)) ms) \<and> set ms = {m. matchesFilter now m f \<and> (\<exists>i. A i = Some (d, m))}
         \<and> (\<forall>limit offset. queryMessages ops tx now d f limit offset (mq_storage s) = page_of limit offset ms))"
proof -
  have ms: "message_store ops tx" by (intro message_store.intro message_store_axioms.intro assms(1,2))
  have "store_ok ops start_db" "box_state ops start_db = Map.empty"
    using message_store.empty_box [OF ms] assms(3) by blast+
  with message_store.run_box [OF ms, of "start_queue start_db" os]
  have ok: "store_ok ops (mq_storage s)" and A: "A = box_state ops (mq_storage s)" by (simp_all add: assms(4,5) start_queue_def)
  show ?thesis
    unfolding A
    using message_store.outbound_lookup [OF ms ok, of i Outbound] message_store.query_enumerates [OF ms ok, of now f d]
    by (auto simp: box_state_def getMessage_def getOutboundMessage_def option.map_comp comp_def split_def split: option.split direction.split if_splits)
qed


definition sample_envelope :: "string \<Rightarrow> string \<Rightarrow> string \<Rightarrow> message_envelope" where
  "sample_envelope i f t = \<lparr>me_id = i, me_from = ''did:agent:'' @ f, me_to = ''did:agent:'' @ t, me_type = Message, me_protocol = ''p'', me_payload = JNull,
     me_timestamp = 7, me_replyTo = None, me_threadId = Some ''t'', me_groupId = None, me_signature = ''s''\<rparr>"

definition sample_queue_ops :: "message_op list" where
  "sample_queue_ops = [EnqueueOut 7 (sample_envelope ''m1'' ''a'' ''b'') [], BlockOp \<lparr>bl_did = ''did:agent:c'', bl_reason = ''r'', bl_blockedAt = 8, bl_blockedBy = ''local''\<rparr>,
     EnqueueIn 9 (sample_envelope ''m2'' ''b'' ''a'') None None None, MarkRead 10 ''m2'', MarkFailed ''m1'' ''gone'']"

definition sample_queue :: "(string, store_value) rbt message_queue" where
  "sample_queue = queue_run rbt_level plain_text sample_queue_ops (start_queue RBT.empty)"

lemma sample_boxes:
  "map_option (\<lambda>(d, m). (d, sm_status m, sm_envelope m)) (spec_run plain_text sample_queue_ops Map.empty ''m1'') = Some (Outbound, MsFailed, sample_envelope ''m1'' ''a'' ''b'')"
  "map_option (\<lambda>(d, m). (d, sm_status m, sm_envelope m)) (spec_run plain_text sample_queue_ops Map.empty ''m2'') = Some (Inbound, MsDelivered, sample_envelope ''m2'' ''b'' ''a'')"
  by (simp_all add: sample_queue_ops_def spec_run_def spec_apply_def spec_put_def spec_update_def inbound_message_def outbound_message_def
      sample_envelope_def valid_envelope_def normal_def storedMessageStatus_def some_delivery_def read_at_def as_failed_def)

theorem queue_implements_map_witness:
  "map_option sm_status (getMessage rbt_level ''m2'' None (mq_storage sample_queue)) = Some MsDelivered
   \<and> map_option sm_status (getOutboundMessage rbt_level ''m1'' sample_queue) = Some MsFailed
   \<and> getOutboundMessage rbt_level ''m2'' sample_queue = None"
  using queue_implements_map [where os = sample_queue_ops and start_db = RBT.empty and i = "''m1''" and now = 0 and f = no_filter and d = Inbound, OF rbt_level_store plain_text_ok _ refl refl]
    queue_implements_map [where os = sample_queue_ops and start_db = RBT.empty and i = "''m2''" and now = 0 and f = no_filter and d = Inbound, OF rbt_level_store plain_text_ok _ refl refl]
    sample_boxes
  by (auto simp: sample_queue_def split: option.splits direction.splits)

text \<open>The identifier of a message is all that protects it. When the outbox holds a message, an inbound envelope with the same
  identifier, from any sender and to any recipient, replaces its envelope: the message is from then on
  read from the outbox with the envelope of the stranger, and the inbox does not hold it.\<close>

theorem stored_message_replaced:
  assumes "level_store ops" "text_ok tx" "\<forall>k. lv_get ops start_db k = None" "s = queue_run ops tx os (start_queue start_db)"
    "getOutboundMessage ops (me_id e) s = Some m" "valid_envelope e"
  shows "\<exists>r s' m'. enqueueInbound ops tx now e ts st d s = Inr (r, s') \<and> getOutboundMessage ops (me_id e) s' = Some m' \<and> sm_envelope m' = e
    \<and> getMessage ops (me_id e) (Some Inbound) (mq_storage s') = None"
proof -
  have ms: "message_store ops tx" by (intro message_store.intro message_store_axioms.intro assms(1,2))
  have ok: "store_ok ops (mq_storage s)"
    using message_store.run_box [OF ms, of "start_queue start_db" os] message_store.empty_box [OF ms] assms(3) by (simp add: assms(4) start_queue_def)
  have b: "box_state ops (mq_storage s) (me_id e) = Some (Outbound, m)"
    using assms(5) message_store.outbound_lookup [OF ms ok] by (auto simp: getOutboundMessage_def split: option.splits if_splits)
  let ?m = "inbound_message now e ts st d"
  have v: "valid_envelope (sm_envelope ?m)" "me_id (sm_envelope ?m) = me_id e" using assms(6) by (simp_all add: inbound_message_def)
  obtain db' where db': "putMessage ops tx ?m (mq_storage s) = Inr db'" "store_ok ops db'"
    "box_state ops db' = spec_put tx ?m (box_state ops (mq_storage s))"
    using message_store.put_box(1) [OF ms ok v(1)] by blast
  let ?m' = "normal (mergeStoredMessages tx m (normal ?m))"
  have b': "box_state ops db' (me_id e) = Some (Outbound, ?m')" using b v by (simp add: db'(3) spec_put_def)
  let ?s' = "s\<lparr>mq_storage := db'\<rparr>"
  have "enqueueInbound ops tx now e ts st d s = Inr ((?m, notifySubscribers ?m s), ?s')" by (simp add: enqueueInbound_def Let_def db'(1))
  moreover have "getOutboundMessage ops (me_id e) ?s' = Some ?m'"
    using b' message_store.outbound_lookup [OF ms db'(2)] by (simp add: getOutboundMessage_def)
  moreover have "sm_envelope ?m' = e" by (simp add: inbound_message_def)
  moreover have "getMessage ops (me_id e) (Some Inbound) (mq_storage ?s') = None"
    using b' message_store.outbound_lookup [OF ms db'(2)] by simp
  ultimately show ?thesis by blast
qed

lemma sample_outbox: "\<exists>m. getOutboundMessage rbt_level ''m1'' sample_queue = Some m"
proof -
  have ok: "store_ok rbt_level (mq_storage sample_queue)" and A: "box_state rbt_level (mq_storage sample_queue) = spec_run plain_text sample_queue_ops Map.empty"
    using rbt_messages.run_box [of "start_queue RBT.empty" sample_queue_ops] rbt_messages.empty_box [of RBT.empty]
    by (simp_all add: sample_queue_def start_queue_def)
  then show ?thesis using sample_boxes(1) rbt_messages.outbound_lookup [OF ok, of "''m1''" Outbound] by (auto simp: getOutboundMessage_def)
qed

theorem stored_message_replaced_witness:
  "\<exists>r s' m'. enqueueInbound rbt_level plain_text 20 (sample_envelope ''m1'' ''mallory'' ''x'') None None None sample_queue = Inr (r, s')
    \<and> getOutboundMessage rbt_level ''m1'' s' = Some m' \<and> sm_envelope m' = sample_envelope ''m1'' ''mallory'' ''x''"
proof -
  obtain m where "getOutboundMessage rbt_level ''m1'' sample_queue = Some m" using sample_outbox by blast
  then show ?thesis
    using stored_message_replaced [OF rbt_level_store plain_text_ok _ sample_queue_def, of "sample_envelope ''m1'' ''mallory'' ''x''" m]
    by (simp add: sample_envelope_def valid_envelope_def) blast
qed

text \<open>A retry does not clear a failure of the encrypted delivery. When a stored message has a failed delivery and is not
  archived, it is read as failed after \<open>retryMessage\<close> as before.\<close>

theorem retry_keeps_failure:
  assumes "level_store ops" "text_ok tx" "\<forall>k. lv_get ops start_db k = None" "s = queue_run ops tx os (start_queue start_db)"
    "getMessage ops i None (mq_storage s) = Some m" "some_delivery (\<lambda>x. x = DlFailed) m"
  shows "map_option sm_status (getMessage ops i None (mq_storage (retryMessage ops i s))) = Some MsFailed"
proof -
  have ms: "message_store ops tx" by (intro message_store.intro message_store_axioms.intro assms(1,2))
  have ok: "store_ok ops (mq_storage s)"
    using message_store.run_box [OF ms, of "start_queue start_db" os] message_store.empty_box [OF ms] assms(3) by (simp add: assms(4) start_queue_def)
  have get: "getMessage ops i None db = map_option snd (box_state ops db i)" for db
    by (simp add: getMessage_def box_state_def option.map_comp comp_def split_def)
  obtain d where b: "box_state ops (mq_storage s) i = Some (d, m)" using assms(5) by (auto simp: get)
  have "\<And>m. sm_envelope (as_retried m) = sm_envelope m" by (simp add: as_retried_def)
  from message_store.update_box(2) [OF ms ok, OF this]
  have "box_state ops (mq_storage (retryMessage ops i s)) i = Some (d, normal (as_retried m))"
    using b by (simp add: retryMessage_def on_storage_def spec_update_def)
  moreover have "sm_status (normal (as_retried m)) = MsFailed"
    using assms(6) by (simp add: normal_def as_retried_def storedMessageStatus_def some_delivery_def)
  ultimately show ?thesis by (simp add: get)
qed

definition failed_delivery :: delivery where
  "failed_delivery = \<lparr>dl_transport = ViaSession, dl_transportMessageId = Some ''x1'', dl_senderDeviceId = ''d1'', dl_receiverDeviceId = ''d2'',
     dl_sessionId = ''s1'', dl_state = DlFailed, dl_recordedAt = 8, dl_usedSkippedMessageKey = None, dl_error = Some (Some ''gone'')\<rparr>"

definition failed_queue :: "(string, store_value) rbt message_queue" where
  "failed_queue = queue_run rbt_level plain_text [EnqueueOut 7 (sample_envelope ''m1'' ''a'' ''b'') [failed_delivery]] (start_queue RBT.empty)"

lemma failed_message: "\<exists>m. getMessage rbt_level ''m1'' None (mq_storage failed_queue) = Some m \<and> some_delivery (\<lambda>x. x = DlFailed) m"
proof -
  let ?os = "[EnqueueOut 7 (sample_envelope ''m1'' ''a'' ''b'') [failed_delivery]]"
  have A: "box_state rbt_level (mq_storage failed_queue) = spec_run plain_text ?os Map.empty"
    using rbt_messages.run_box [of "start_queue RBT.empty" ?os] rbt_messages.empty_box [of RBT.empty]
    by (simp add: failed_queue_def start_queue_def)
  have "getMessage rbt_level ''m1'' None (mq_storage failed_queue) = map_option snd (box_state rbt_level (mq_storage failed_queue) ''m1'')"
    by (simp add: getMessage_def box_state_def option.map_comp comp_def split_def)
  then show ?thesis unfolding A
    by (simp add: spec_run_def spec_apply_def spec_put_def outbound_message_def sample_envelope_def valid_envelope_def normal_def
        failed_delivery_def some_delivery_def)
qed

theorem retry_keeps_failure_witness:
  "map_option sm_status (getMessage rbt_level ''m1'' None (mq_storage (retryMessage rbt_level ''m1'' failed_queue))) = Some MsFailed"
proof -
  obtain m where "getMessage rbt_level ''m1'' None (mq_storage failed_queue) = Some m" "some_delivery (\<lambda>x. x = DlFailed) m"
    using failed_message by blast
  from retry_keeps_failure [OF rbt_level_store plain_text_ok _ failed_queue_def this] show ?thesis by simp
qed

end
