(* ===== verification/Message_Defense_Props.thy ===== *)
theory Message_Defense_Props
  imports Message_Defense Message_Queue_Props Trust_System_Props
begin

text \<open>
  Properties of the defence: the bound of a token bucket over any window of any history, that a blocked sender stays out, and that
  an accepted message is not accepted again.
\<close>

section \<open>Token buckets\<close>











section \<open>Histories of the defence\<close>

datatype guard_op =
    CheckOp message_envelope bool
  | BlockAgent did string string | UnblockAgent did | AllowAgent did "string option" | UnallowAgent did
  | CleanupSeenOp | CleanupRatesOp
  | QueueStep message_op
  | TrustStep trust_op

text \<open>The list and seen-cache operations of the store are made by the defence alone.\<close>

fun queue_only :: "message_op \<Rightarrow> bool" where
  "queue_only (BlockOp _) = False" | "queue_only (UnblockOp _) = False" | "queue_only (AllowOp _) = False" | "queue_only (UnallowOp _) = False"
| "queue_only (SeenOp _) = False" | "queue_only (CleanSeenOp _ _) = False" | "queue_only (RateOp _) = False" | "queue_only (CleanRateOp _ _) = False"
| "queue_only _ = True"


text \<open>The platform: the two kinds of database, the text and the JSON.\<close>

record ('d, 'h, 'e) guard_platform =
  gp_ops :: "('d, store_value) level_ops"
  gp_hops :: "('h, interaction) level_ops"
  gp_eops :: "('e, endorsement_v1) level_ops"
  gp_text :: text_ops
  gp_json :: json_text
  gp_config :: defense_config

definition guard_apply :: "('d, 'h, 'e) guard_platform \<Rightarrow> msec \<Rightarrow> guard_op \<Rightarrow> ('d, 'h, 'e) guard \<Rightarrow> defense_result option \<times> ('d, 'h, 'e) guard" where
  "guard_apply p now op s = (case op of
     CheckOp e solicited \<Rightarrow> apfst Some (checkMessage (gp_ops p) (gp_hops p) (gp_eops p) (gp_config p) now e solicited s)
   | BlockAgent d reason who \<Rightarrow> (None, blockAgent (gp_ops p) now d reason who s)
   | UnblockAgent d \<Rightarrow> (None, unblockAgent (gp_ops p) now d s)
   | AllowAgent d note \<Rightarrow> (None, allowAgent (gp_ops p) now d note s)
   | UnallowAgent d \<Rightarrow> (None, removeFromAllowlist (gp_ops p) d s)
   | CleanupSeenOp \<Rightarrow> (None, cleanupSeen (gp_ops p) (gp_config p) now s)
   | CleanupRatesOp \<Rightarrow> (None, cleanupRateLimits (gp_ops p) now s)
   | QueueStep q \<Rightarrow> (None, if queue_only q then s\<lparr>gd_queue := queue_apply (gp_ops p) (gp_text p) q (gd_queue s)\<rparr> else s)
   | TrustStep t \<Rightarrow> (None, s\<lparr>gd_trust := snd (trust_apply (gp_json p) (gp_hops p) (gp_eops p) now t (gd_trust s))\<rparr>))"

text \<open>A run, and what each operation returned.\<close>

fun guard_run :: "('d, 'h, 'e) guard_platform \<Rightarrow> (msec \<times> guard_op) list \<Rightarrow> ('d, 'h, 'e) guard \<Rightarrow> defense_result option list \<times> ('d, 'h, 'e) guard" where
  "guard_run p [] s = ([], s)"
| "guard_run p ((now, op) # ops) s = (let (r, s') = guard_apply p now op s; (rs, s'') = guard_run p ops s' in (r # rs, s''))"

section \<open>Blocked senders\<close>

definition list_key :: "string \<Rightarrow> bool" where
  "list_key k \<longleftrightarrow> prefix ''block:'' k \<or> prefix ''allow:'' k"

lemma list_key_simps [simp]:
  "\<not> list_key (message_key d ts i)" "\<not> list_key (from_key f ts i)" "\<not> list_key (thread_key t ts i)" "\<not> list_key (session_key t)"
  "\<not> list_key (''seen:'' @ x)" "\<not> list_key (''rate:'' @ x)" "list_key (''block:'' @ x)" "list_key (''allow:'' @ x)"
  by (auto simp: list_key_def message_key_def message_prefix_def from_key_def thread_key_def thread_prefix_def session_key_def)

lemma list_key_first [simp]: "c \<noteq> CHR ''b'' \<Longrightarrow> c \<noteq> CHR ''a'' \<Longrightarrow> \<not> list_key (c # k)"
  by (auto simp: list_key_def)

text \<open>The entries of the lists are the same in both databases.\<close>

definition same_lists :: "('d, store_value) level_ops \<Rightarrow> 'd \<Rightarrow> 'd \<Rightarrow> bool" where
  "same_lists ops db db' \<longleftrightarrow> (\<forall>k. list_key k \<longrightarrow> lv_get ops db' k = lv_get ops db k)"

lemma same_lists_refl [simp]: "same_lists ops db db"
  by (simp add: same_lists_def)

lemma same_lists_trans: "same_lists ops db db' \<Longrightarrow> same_lists ops db' db'' \<Longrightarrow> same_lists ops db db''"
  by (simp add: same_lists_def)

context message_store
begin

lemma lists_put: "\<not> list_key k \<Longrightarrow> same_lists ops db (lv_put ops k v db)"
  by (auto simp: same_lists_def get_put)

lemma lists_del: "\<not> list_key k \<Longrightarrow> same_lists ops db (lv_del ops k db)"
  by (auto simp: same_lists_def get_del)

lemma lists_del_fold: "\<forall>k \<in> set ks. \<not> list_key k \<Longrightarrow> same_lists ops db (fold (lv_del ops) ks db)"
  by (auto simp: same_lists_def get_del_fold)

lemma under_prefix: "(k, m) \<in> set (messages_under ops q db) \<Longrightarrow> prefix q k"
  by (auto simp: messages_under_def map_filter_set range_mem intro: in_range_prefix)

lemma found_key:
  assumes "findStoredMessageRecord ops i dir db = Some (k, n)"
  shows "\<not> list_key k"
proof -
  obtain d where "find_in ops i d db = Some (k, n)"
    using assms by (auto simp: findStoredMessageRecord_def split: option.splits)
  then have "(k, n) \<in> set (normalized_under ops (message_prefix d) db)" unfolding find_in_def by (auto dest: find_Some_mem)
  then obtain m where "(k, m) \<in> set (messages_under ops (message_prefix d) db)" by (auto simp: normalized_under_def map_filter_set)
  then have "prefix (message_prefix d) k" by (rule under_prefix)
  then show ?thesis by (auto simp: message_prefix_def list_key_def prefix_def)
qed

lemma lists_session: "same_lists ops db (updateSessionMeta ops tx' m db)"
  by (auto simp: updateSessionMeta_def Let_def lists_put split: option.split store_value.split)

lemma lists_insert: "same_lists ops db (insert_message ops tx' m db)"
proof -
  have "same_lists ops db (lv_put ops (from_key f ts i) v (lv_put ops (message_key d ts' j) v' db))" for f ts i v d ts' j v'
    using lists_put same_lists_trans by (metis list_key_simps(1,2))
  note two = this
  have three: "same_lists ops db (lv_put ops (thread_key t ts2 l) v2 (lv_put ops (from_key f ts i) v (lv_put ops (message_key d ts' j) v' db)))"
    for t ts2 l v2 f ts i v d ts' j v'
    by (rule same_lists_trans [OF two lists_put]) simp
  show ?thesis
    unfolding insert_message_def Let_def
    using two three same_lists_trans [OF three lists_session] by (auto split: option.split)
qed

lemma lists_put_message: "same_lists ops db (or_keep db (putMessage ops tx' m db))"
  by (auto simp: or_keep_def putMessage_def and_then_def lists_insert split: sum.split option.split intro!: lists_put dest: found_key)

lemma lists_update: "same_lists ops db (updateMessage ops i u db)"
  by (auto simp: updateMessage_def split: option.split intro!: lists_put dest: found_key)

lemma lists_queue:
  assumes "queue_only q"
  shows "same_lists ops (mq_storage s) (mq_storage (queue_apply ops tx' q s))"
proof (cases q)
  case (EnqueueIn now e ts st d)
  then have "mq_storage (queue_apply ops tx' q s) = or_keep (mq_storage s) (putMessage ops tx' (inbound_message now e ts st d) (mq_storage s))"
    by (simp add: queue_apply_def enqueueInbound_def Let_def and_then_def or_keep_def split: sum.split)
  then show ?thesis by (simp add: lists_put_message)
next
  case (EnqueueOut now e ds)
  then have "mq_storage (queue_apply ops tx' q s) = or_keep (mq_storage s) (putMessage ops tx' (outbound_message now e ds) (mq_storage s))"
    by (simp add: queue_apply_def enqueueOutbound_def Let_def and_then_def or_keep_def split: sum.split)
  then show ?thesis by (simp add: lists_put_message)
next
  case (AppendDelivery i d)
  have "mq_storage (queue_apply ops tx' q s) = updateMessage ops i (\<lambda>m. mergeStoredMessageE2EDeliveries tx' m [d]) (mq_storage s)"
    by (auto simp: AppendDelivery queue_apply_def appendE2EDelivery_def upsertE2EDeliveries_def updateMessage_def Let_def split: option.split)
  then show ?thesis by (simp add: lists_update)
next
  case (AppendRetry i r)
  then show ?thesis
    by (auto simp: queue_apply_def appendE2ERetry_def upsertE2ERetry_def Let_def split: option.split intro!: lists_put dest: found_key)
next
  case (DeleteOp i)
  show ?thesis
  proof (cases "findStoredMessageRecord ops i None (mq_storage s)")
    case (Some r)
    obtain k n where r: "r = (k, n)" by (cases r)
    have one: "same_lists ops (mq_storage s) (lv_del ops k (mq_storage s))" using found_key Some r by (intro lists_del) simp
    have two: "same_lists ops (mq_storage s) (lv_del ops (from_key f ts i) (lv_del ops k (mq_storage s)))" for f ts
      by (rule same_lists_trans [OF one lists_del]) simp
    have "same_lists ops (mq_storage s) (lv_del ops (thread_key t ts' i) (lv_del ops (from_key f ts i) (lv_del ops k (mq_storage s))))" for t ts' f ts
      by (rule same_lists_trans [OF two lists_del]) simp
    with two show ?thesis
      by (simp add: DeleteOp queue_apply_def queueDelete_def on_storage_def deleteMessage_def Some r Let_def split: option.split)
  qed (simp add: DeleteOp queue_apply_def queueDelete_def on_storage_def deleteMessage_def)
next
  case (ArchiveOp now t)
  then show ?thesis by (auto simp: queue_apply_def on_storage_def or_keep_def archiveSession_def lists_put split: option.split)
next
  case (UnarchiveOp t)
  then show ?thesis by (auto simp: queue_apply_def on_storage_def or_keep_def unarchiveSession_def lists_put split: option.split)
qed (use assms in \<open>auto simp: queue_apply_def on_storage_def markAsRead_def retryMessage_def markOutboundDelivered_def markOutboundFailed_def
    queue_subscribe_def queue_unsubscribe_def Let_def lists_update\<close>)

lemma lists_seen: "same_lists ops (guard_db s) (guard_db (markAsSeen ops now i s))"
  by (simp add: markAsSeen_def with_db_def with_defense_def guard_db_def on_storage_def putSeen_def lists_put)

lemma lists_rate: "same_lists ops (guard_db s) (guard_db (snd (checkRateLimit ops cfg now d ts s)))"
  by (simp add: checkRateLimit_def Let_def split_def with_db_def with_defense_def guard_db_def on_storage_def putRateLimit_def lists_put)

lemma ranged_other: "(k, v) \<in> set (lv_range ops q (q @ js_ff) db) \<Longrightarrow> q = ''seen:'' \<or> q = ''rate:'' \<Longrightarrow> \<not> list_key k"
  using in_range_prefix [of q k js_ff] by (auto simp: range_mem list_key_def prefix_def)

lemma lists_clean:
  assumes "q = ''seen:'' \<or> q = ''rate:''"
  shows "same_lists ops db (fold (lv_del ops) (map fst (filter P (lv_range ops q (q @ js_ff) db))) db)"
proof (rule lists_del_fold, intro ballI)
  fix k assume "k \<in> set (map fst (filter P (lv_range ops q (q @ js_ff) db)))"
  then obtain v where "(k, v) \<in> set (lv_range ops q (q @ js_ff) db)" by auto
  then show "\<not> list_key k" using assms by (rule ranged_other)
qed

lemma lists_cleanups:
  "same_lists ops (guard_db s) (guard_db (cleanupSeen ops cfg now s))" "same_lists ops (guard_db s) (guard_db (cleanupRateLimits ops now s))"
proof -
  have "guard_db (cleanupSeen ops cfg now s) = cleanupSeenStore ops now (dc_seenTtlMs cfg) (guard_db s)"
    "guard_db (cleanupRateLimits ops now s) = cleanupRateLimitStore ops now (24 * 60 * 60 * 1000) (guard_db s)"
    by (simp_all add: cleanupSeen_def cleanupRateLimits_def Let_def with_db_def with_defense_def guard_db_def on_storage_def)
  then show "same_lists ops (guard_db s) (guard_db (cleanupSeen ops cfg now s))" "same_lists ops (guard_db s) (guard_db (cleanupRateLimits ops now s))"
    unfolding cleanupSeenStore_def cleanupRateLimitStore_def by (simp_all only: lists_clean [OF disjI1, OF refl] lists_clean [OF disjI2, OF refl])
qed

lemma get_lists:
  assumes "same_lists ops db db'"
  shows "getBlock ops d db' = getBlock ops d db" "getAllow ops d db' = getAllow ops d db"
proof -
  have "lv_get ops db' (''block:'' @ d) = lv_get ops db (''block:'' @ d)" "lv_get ops db' (''allow:'' @ d) = lv_get ops db (''allow:'' @ d)"
    using assms list_key_simps(7,8) unfolding same_lists_def by blast+
  then show "getBlock ops d db' = getBlock ops d db" "getAllow ops d db' = getAllow ops d db"
    by (simp_all only: getBlock_def getAllow_def)
qed

end

text \<open>A sender that the operator has blocked, and has not put on the allow list.\<close>

definition kept_out :: "('d, store_value) level_ops \<Rightarrow> did \<Rightarrow> ('d, 'h, 'e) guard \<Rightarrow> bool" where
  "kept_out ops d s \<longleftrightarrow> (\<exists>b. getBlock ops d (guard_db s) = Some b \<and> \<not> js_startsWith (bl_reason b) ''Auto-blocked: '') \<and> getAllow ops d (guard_db s) = None"

text \<open>The operations of the operator that let the sender in again.\<close>

fun lets_in :: "did \<Rightarrow> guard_op \<Rightarrow> bool" where
  "lets_in d (UnblockAgent d') = (d' = d)"
| "lets_in d (AllowAgent d' _) = (d' = d)"
| "lets_in d (BlockAgent d' reason _) = (d' = d \<and> js_startsWith reason ''Auto-blocked: '')"
| "lets_in d _ = False"

fun check_of :: "did \<Rightarrow> guard_op \<Rightarrow> bool" where
  "check_of d (CheckOp e _) = (me_from e = d)"
| "check_of d _ = False"

lemma guard_db_trust: "guard_db (s\<lparr>gd_trust := t\<rparr>) = guard_db s"
  by (simp add: guard_db_def)

lemma kept_out_same: "kept_out ops d s \<Longrightarrow> getBlock ops d (guard_db s') = getBlock ops d (guard_db s) \<Longrightarrow> getAllow ops d (guard_db s') = getAllow ops d (guard_db s)
    \<Longrightarrow> kept_out ops d s'"
  by (simp add: kept_out_def)

lemma kept_out_refused:
  "kept_out ops (me_from e) s \<Longrightarrow> checkMessage ops hops eops cfg now e sol s = (refused Blocked, s)"
  by (auto simp: kept_out_def checkMessage_def isAllowed_def)

context message_store
begin

lemma lists_other_block:
  "d' \<noteq> d \<Longrightarrow> getBlock ops d (lv_put ops (''block:'' @ d') v db) = getBlock ops d db \<and> getAllow ops d (lv_put ops (''block:'' @ d') v db) = getAllow ops d db"
  "d' \<noteq> d \<Longrightarrow> getBlock ops d (lv_del ops (''block:'' @ d') db) = getBlock ops d db \<and> getAllow ops d (lv_del ops (''block:'' @ d') db) = getAllow ops d db"
  "d' \<noteq> d \<Longrightarrow> getBlock ops d (lv_put ops (''allow:'' @ d') v db) = getBlock ops d db \<and> getAllow ops d (lv_put ops (''allow:'' @ d') v db) = getAllow ops d db"
  "getBlock ops d (lv_del ops (''allow:'' @ d') db) = getBlock ops d db \<and> getAllow ops d (lv_del ops (''allow:'' @ d') db) = (if d' = d then None else getAllow ops d db)"
  by (auto simp: getBlock_def getAllow_def get_put get_del)

lemma block_own: "getBlock ops d (putBlock ops b db) = (if bl_did b = d then Some b else getBlock ops d db)" "getAllow ops d (putBlock ops b db) = getAllow ops d db"
  by (auto simp: getBlock_def getAllow_def putBlock_def get_put)

lemma check_lists:
  fixes s :: "('d, 'h, 'e) guard"
  assumes "me_from e \<noteq> d"
  shows "getBlock ops d (guard_db (snd (checkMessage ops hops eops cfg now e sol s))) = getBlock ops d (guard_db s)
    \<and> getAllow ops d (guard_db (snd (checkMessage ops hops eops cfg now e sol s))) = getAllow ops d (guard_db s)"
proof -
  have seen: "getBlock ops d (guard_db (markAsSeen ops now i g)) = getBlock ops d (guard_db g)" "getAllow ops d (guard_db (markAsSeen ops now i g)) = getAllow ops d (guard_db g)"
    for i and g :: "('d, 'h, 'e) guard" using get_lists [OF lists_seen] by blast+
  have rate: "getBlock ops d (guard_db (snd (checkRateLimit ops cfg now d' ts g))) = getBlock ops d (guard_db g)"
    "getAllow ops d (guard_db (snd (checkRateLimit ops cfg now d' ts g))) = getAllow ops d (guard_db g)" for d' ts and g :: "('d, 'h, 'e) guard"
    using get_lists [OF lists_rate] by blast+
  have accept: "getBlock ops d (guard_db (snd (check_rate_and_accept ops cfg now e sol ts st g))) = getBlock ops d (guard_db g)
      \<and> getAllow ops d (guard_db (snd (check_rate_and_accept ops cfg now e sol ts st g))) = getAllow ops d (guard_db g)" for ts st and g :: "('d, 'h, 'e) guard"
    by (simp add: check_rate_and_accept_def Let_def split_def seen rate)
  have block: "getBlock ops d (guard_db (blockAgent ops now (me_from e) r who g)) = getBlock ops d (guard_db g)
      \<and> getAllow ops d (guard_db (blockAgent ops now (me_from e) r who g)) = getAllow ops d (guard_db g)" for r who and g :: "('d, 'h, 'e) guard"
    using assms by (simp add: blockAgent_def with_db_def on_storage_def guard_db_def block_own)
  have trust: "getBlock ops d (guard_db (snd (check_trust ops cfg now e sol sc g))) = getBlock ops d (guard_db g)
      \<and> getAllow ops d (guard_db (snd (check_trust ops cfg now e sol sc g))) = getAllow ops d (guard_db g)" for sc and g :: "('d, 'h, 'e) guard"
    using accept block by (simp add: check_trust_def Let_def)
  show ?thesis
    by (cases sol; use trust in \<open>simp add: checkMessage_def Let_def split_def seen guard_db_trust\<close>)
qed

end


lemma kept_out_step:
  assumes "level_store (gp_ops p)" "text_ok (gp_text p)" "kept_out (gp_ops p) d s" "\<not> lets_in d op"
  shows "kept_out (gp_ops p) d (snd (guard_apply p now op s))"
    "check_of d op \<Longrightarrow> fst (guard_apply p now op s) = Some (refused Blocked)"
proof -
  have ms: "message_store (gp_ops p) (gp_text p)" by (intro message_store.intro message_store_axioms.intro assms(1,2))
  note same = kept_out_same [OF assms(3)]
  note lists = message_store.get_lists [OF ms]
  show "kept_out (gp_ops p) d (snd (guard_apply p now op s))"
  proof (cases op)
    case (CheckOp e sol)
    show ?thesis
    proof (cases "me_from e = d")
      case True
      with assms(3) CheckOp show ?thesis by (auto simp: guard_apply_def kept_out_refused)
    next
      case False
      show ?thesis
        by (rule same) (simp_all add: CheckOp guard_apply_def message_store.check_lists [OF ms False])
    qed
  next
    case (BlockAgent d' reason who)
    then show ?thesis
      using assms(3,4) by (auto simp: guard_apply_def blockAgent_def with_db_def on_storage_def guard_db_def kept_out_def message_store.block_own [OF ms])
  next
    case (UnblockAgent d')
    then have n: "d' \<noteq> d" using assms(4) by simp
    have db: "guard_db (snd (guard_apply p now op s)) = lv_del (gp_ops p) (''block:'' @ d') (guard_db s)"
      by (simp add: UnblockAgent guard_apply_def unblockAgent_def with_defense_def with_db_def on_storage_def guard_db_def deleteBlock_def)
    show ?thesis by (rule same) (simp_all only: db message_store.lists_other_block(2) [OF ms n])
  next
    case (AllowAgent d' remark)
    then have n: "d' \<noteq> d" using assms(4) by simp
    have db: "\<exists>v. guard_db (snd (guard_apply p now op s)) = lv_put (gp_ops p) (''allow:'' @ d') v (guard_db s)"
      by (auto simp: AllowAgent guard_apply_def allowAgent_def with_db_def on_storage_def guard_db_def putAllow_def)
    then show ?thesis using message_store.lists_other_block(3) [OF ms n] same by metis
  next
    case (UnallowAgent d')
    have db: "guard_db (snd (guard_apply p now op s)) = lv_del (gp_ops p) (''allow:'' @ d') (guard_db s)"
      by (simp add: UnallowAgent guard_apply_def removeFromAllowlist_def with_db_def on_storage_def guard_db_def deleteAllow_def)
    show ?thesis using assms(3) unfolding kept_out_def db by (simp only: message_store.lists_other_block(4) [OF ms]) simp
  next
    case CleanupSeenOp
    show ?thesis by (rule same) (simp_all add: CleanupSeenOp guard_apply_def lists [OF message_store.lists_cleanups(1) [OF ms]])
  next
    case CleanupRatesOp
    show ?thesis by (rule same) (simp_all add: CleanupRatesOp guard_apply_def lists [OF message_store.lists_cleanups(2) [OF ms]])
  next
    case (QueueStep q)
    show ?thesis
    proof (cases "queue_only q")
      case True
      have "same_lists (gp_ops p) (guard_db s) (guard_db (snd (guard_apply p now op s)))"
        using message_store.lists_queue [OF ms True] True by (simp add: QueueStep guard_apply_def guard_db_def)
      from lists [OF this] show ?thesis by (intro same)
    qed (use assms(3) QueueStep in \<open>simp add: guard_apply_def\<close>)
  next
    case (TrustStep t)
    then show ?thesis by (intro same) (simp_all add: guard_apply_def guard_db_trust)
  qed
  show "fst (guard_apply p now op s) = Some (refused Blocked)" if c: "check_of d op"
    using c assms(3) by (cases op) (auto simp: guard_apply_def kept_out_refused)
qed

text \<open>C24: A blocked sender stays out. Once the operator has blocked an agent that is not on the allow list, with a reason that
  is not the one of an automatic block, every message of the agent is refused as blocked, solicited or not, over any history
  of messages, queue operations, clean-ups and other changes, until the operator unblocks or allows the agent.\<close>

theorem blocked_sender_stays_out:
  assumes "level_store (gp_ops p)" "text_ok (gp_text p)" "kept_out (gp_ops p) d s" "list_all (\<lambda>(now, op). \<not> lets_in d op) ops"
  shows "list_all (\<lambda>((now, op), r). check_of d op \<longrightarrow> r = Some (refused Blocked)) (zip ops (fst (guard_run p ops s)))"
  using assms(3,4)
proof (induction ops arbitrary: s)
  case (Cons top ops)
  obtain now op where t: "top = (now, op)" by (cases top)
  obtain r s' where a: "guard_apply p now op s = (r, s')" by fastforce
  have n: "\<not> lets_in d op" using Cons.prems(2) t by simp
  from kept_out_step [OF assms(1,2) Cons.prems(1) n, of now] a Cons.IH [of s'] Cons.prems(2) show ?case
    by (auto simp: t split: prod.split)
qed simp


section \<open>Duplicates\<close>

text \<open>The seen cache holds \<open>i\<close>, seen at \<open>t\<close>, and at least \<open>k\<close> more marks fit before it is evicted.\<close>

definition remembered :: "string \<Rightarrow> msec \<Rightarrow> nat \<Rightarrow> (string, msec) jsmap \<Rightarrow> bool" where
  "remembered i t k m \<longleftrightarrow> jm_ok m \<and> length m \<le> MAX_SEEN_CACHE \<and> [] \<notin> set (jm_keys m)
     \<and> (\<exists>older recent. m = older @ (i, t) # recent \<and> k \<le> length older + (MAX_SEEN_CACHE - length m))"

definition cache_ok :: "(string, msec) jsmap \<Rightarrow> bool" where
  "cache_ok m \<longleftrightarrow> jm_ok m \<and> length m \<le> MAX_SEEN_CACHE \<and> [] \<notin> set (jm_keys m)"

lemma remembered_cache: "remembered i t k m \<Longrightarrow> cache_ok m"
  by (auto simp: remembered_def cache_ok_def)


lemma evict_ok: "cache_ok m \<Longrightarrow> cache_ok (evict_oldest m)"
  using jm_length_del_le [of _ m] by (auto simp: cache_ok_def evict_oldest_def split: list.split)

lemma evict_short: "cache_ok m \<Longrightarrow> length (evict_oldest m) < MAX_SEEN_CACHE"
  by (cases m) (auto simp: cache_ok_def evict_oldest_def MAX_SEEN_CACHE_def)

lemma cache_set: "cache_ok m \<Longrightarrow> length m < MAX_SEEN_CACHE \<Longrightarrow> i \<noteq> [] \<Longrightarrow> cache_ok (jm_set i t m)"
  unfolding cache_ok_def map_of_eq_None_iff [symmetric] list.set_map by (simp add: jm_length_set)


lemma del_absent: "k \<notin> set (jm_keys m) \<Longrightarrow> jm_del k m = m"
  by (induction m) auto

lemma evict_remembered:
  assumes "remembered i t (Suc k) m"
  shows "\<exists>older recent. evict_oldest m = older @ (i, t) # recent \<and> Suc k \<le> length older + (MAX_SEEN_CACHE - length (evict_oldest m))"
proof -
  obtain older recent where m: "m = older @ (i, t) # recent" "Suc k \<le> length older + (MAX_SEEN_CACHE - length m)" "jm_ok m" "[] \<notin> set (jm_keys m)"
    "length m \<le> MAX_SEEN_CACHE"
    using assms unfolding remembered_def by blast
  show ?thesis
  proof (cases "length m \<ge> MAX_SEEN_CACHE")
    case True
    then obtain j u rest where o: "older = (j, u) # rest" using m(2) by (cases older) auto
    have "jm_del j m = rest @ (i, t) # recent"
      using m(3) by (simp add: m(1) o del_absent)
    moreover have "evict_oldest m = jm_del j m" using True m(4) by (auto simp: evict_oldest_def m(1) o)
    ultimately have ev: "evict_oldest m = rest @ (i, t) # recent" by simp
    have "length m = MAX_SEEN_CACHE" using True m(5) by simp
    then have "Suc k \<le> length rest + (MAX_SEEN_CACHE - length (evict_oldest m))" using m(2) unfolding ev by (simp add: m(1) o)
    with ev show ?thesis by blast
  next
    case False
    then have "evict_oldest m = m" by (simp add: evict_oldest_def)
    with m show ?thesis by auto
  qed
qed

lemma set_in_list:
  assumes "jm_ok (older @ (i, t) # recent)" "j \<noteq> i"
  shows "\<exists>older' recent'. jm_set j u (older @ (i, t) # recent) = older' @ (i, t) # recent' \<and> length older' = length older"
  using assms
proof (induction older)
  case Nil
  then show ?case by auto
next
  case (Cons p older)
  show ?case
  proof (cases "fst p = j")
    case True
    then show ?thesis by (intro exI [of _ "(j, u) # older"] exI [of _ recent]) (cases p, simp)
  next
    case False
    obtain older' recent' where "jm_set j u (older @ (i, t) # recent) = older' @ (i, t) # recent'" "length older' = length older"
      using Cons by auto
    then show ?thesis using False by (intro exI [of _ "p # older'"] exI [of _ recent']) (cases p, simp)
  qed
qed

lemma marked_other:
  assumes "remembered i t (Suc k) m" "j \<noteq> []" "j \<noteq> i"
  shows "remembered i t k (jm_set j u (evict_oldest m))"
proof -
  have c: "cache_ok m" using assms(1) by (rule remembered_cache)
  have e: "cache_ok (evict_oldest m)" "length (evict_oldest m) < MAX_SEEN_CACHE" using c by (simp_all add: evict_ok evict_short)
  obtain older recent where m: "evict_oldest m = older @ (i, t) # recent" "Suc k \<le> length older + (MAX_SEEN_CACHE - length (evict_oldest m))"
    using evict_remembered [OF assms(1)] by blast
  have "jm_ok (older @ (i, t) # recent)" using e(1) m(1) by (simp add: cache_ok_def)
  then obtain older' recent' where s: "jm_set j u (evict_oldest m) = older' @ (i, t) # recent'" "length older' = length older"
    using set_in_list assms(3) m(1) by metis
  have "cache_ok (jm_set j u (evict_oldest m))" using cache_set [OF e assms(2)] .
  moreover have "length (jm_set j u (evict_oldest m)) \<le> Suc (length (evict_oldest m))" by (simp add: jm_length_set)
  ultimately show ?thesis unfolding remembered_def cache_ok_def using m(2) s by (intro conjI exI [of _ older'] exI [of _ recent']) auto
qed



lemma seen_simps [simp]:
  "seenCache (gd_defense (with_db f s)) = seenCache (gd_defense s)"
  "seenCache (gd_defense (markAsSeen ops now i s)) = jm_set i now (evict_oldest (seenCache (gd_defense s)))"
  "seenCache (gd_defense (snd (checkRateLimit ops cfg now d ts s))) = seenCache (gd_defense s)"
  "seenCache (gd_defense (blockAgent ops now d reason who s)) = seenCache (gd_defense s)"
  by (simp_all add: with_db_def markAsSeen_def with_defense_def checkRateLimit_def Let_def split_def blockAgent_def)









lemma remembered_id: "remembered i t k m \<Longrightarrow> i \<noteq> []"
  by (force simp: remembered_def)


lemma set_same:
  assumes "jm_ok (older @ (i, t) # recent)"
  shows "jm_set i u (older @ (i, t) # recent) = older @ (i, u) # recent"
  using assms by (induction older) auto

lemma marked_same:
  assumes "remembered i t (Suc k) m"
  shows "remembered i u k (jm_set i u (evict_oldest m))"
proof -
  have c: "cache_ok m" using assms(1) by (rule remembered_cache)
  have e: "cache_ok (evict_oldest m)" "length (evict_oldest m) < MAX_SEEN_CACHE" using c by (simp_all add: evict_ok evict_short)
  obtain older recent where m: "evict_oldest m = older @ (i, t) # recent" "Suc k \<le> length older + (MAX_SEEN_CACHE - length (evict_oldest m))"
    using evict_remembered [OF assms(1)] by blast
  have s: "jm_set i u (evict_oldest m) = older @ (i, u) # recent" using e(1) unfolding m(1) cache_ok_def by (intro set_same) blast
  have "cache_ok (jm_set i u (evict_oldest m))" using cache_set [OF e remembered_id [OF assms(1)]] .
  moreover have "k \<le> length older + (MAX_SEEN_CACHE - length (older @ (i, u) # recent))" using m(2) unfolding m(1) by simp
  ultimately show ?thesis unfolding remembered_def cache_ok_def s by blast
qed

lemma marked_any:
  "remembered i t (Suc k) m \<Longrightarrow> j \<noteq> [] \<Longrightarrow> t \<le> u \<Longrightarrow> \<exists>t' \<ge> t. remembered i t' k (jm_set j u (evict_oldest m))"
  using marked_other marked_same by (cases "j = i") blast+





section \<open>Rates\<close>



lemma bucket_simps [simp]:
  "buckets (gd_defense (with_db f s)) = buckets (gd_defense s)"
  "buckets (gd_defense (markAsSeen ops now i s)) = buckets (gd_defense s)"
  "buckets (gd_defense (blockAgent ops now d reason who s)) = buckets (gd_defense s)"
  by (simp_all add: with_db_def markAsSeen_def with_defense_def blockAgent_def)












section \<open>A guard\<close>

definition sample_platform :: "((string, store_value) rbt, (string, interaction) rbt, (string, endorsement_v1) rbt) guard_platform" where
  "sample_platform = \<lparr>gp_ops = rbt_level, gp_hops = rbt_level, gp_eops = rbt_level, gp_text = plain_text,
     gp_json = \<lparr>json_encode = (\<lambda>_. []), json_decode = (\<lambda>_. None)\<rparr>, gp_config = default_defense\<rparr>"

definition sample_guard :: "((string, store_value) rbt, (string, interaction) rbt, (string, endorsement_v1) rbt) guard" where
  "sample_guard = \<lparr>gd_queue = start_queue RBT.empty, gd_trust = start_trust RBT.empty RBT.empty, gd_defense = new_defense\<rparr>"

abbreviation "from_a \<equiv> sample_envelope ''m1'' ''a'' ''b''"

lemma blocked_a:
  "kept_out rbt_level (''did:agent:a'') (blockAgent rbt_level 1 ''did:agent:a'' ''spam'' ''local'' sample_guard)"
  by (simp add: kept_out_def guard_db_def blockAgent_def with_db_def on_storage_def putBlock_def getBlock_def getAllow_def sample_guard_def start_queue_def)

definition a_checks :: "(msec \<times> guard_op) list" where
  "a_checks = [(200, CheckOp from_a False), (300, CleanupSeenOp), (400, AllowAgent ''did:agent:c'' None), (500, CheckOp from_a True)]"

theorem blocked_sender_stays_out_witness:
  "list_all (\<lambda>((now, op), r). check_of ''did:agent:a'' op \<longrightarrow> r = Some (refused Blocked))
     (zip a_checks (fst (guard_run sample_platform a_checks (blockAgent rbt_level 1 ''did:agent:a'' ''spam'' ''local'' sample_guard))))"
  by (rule blocked_sender_stays_out) (simp_all add: sample_platform_def rbt_level_store plain_text_ok blocked_a a_checks_def)






end
