(* ===== verification/Daemon_Recovery.thy ===== *)
theory Daemon_Recovery
  imports E2E_Envelope Message_Queue
begin

text \<open>
  The recovery of broken sessions in the daemon, \<open>js/core/runtime/src/daemon-server.ts\<close>: the batches of replay requests and of
  retry notifications, the recovery epochs, and the handshake of \<open>e2e/session-reset\<close> and \<open>e2e/session-reset-ack\<close>. The peer
  session lock makes each handler one step. The clock and the identifiers that are drawn are arguments, and so is
  what the router answers to a send.
\<close>

section \<open>State\<close>

record peer_recovery =
  pr_epoch :: rat
  pr_startedAt :: rat
  pr_reason :: string
  pr_awaitingAck :: bool

record replay_request =
  rq_lookupMessageId :: string
  rq_reason :: string
  rq_requestedAt :: rat

record decrypt_failure =
  df_transportMessageId :: string
  df_reason :: string
  df_requestedAt :: rat
  df_threadId :: "string option"

text \<open>The timer of a batch: \<open>null\<close>, set, or a handle whose callback has run. A batch is an object: \<open>pb_object\<close> is its identity.\<close>

datatype batch_timer = NoTimer | Armed | Fired

record 'a peer_batch =
  pb_object :: nat
  pb_items :: "(string, 'a) jsmap"
  pb_timer :: batch_timer
  pb_running :: bool

record recovery =
  rc_replays :: "(did, replay_request peer_batch) jsmap"
  rc_notices :: "(did, decrypt_failure peer_batch) jsmap"
  rc_objects :: nat
  rc_states :: "(did, peer_recovery) jsmap"
  rc_floors :: "(did, rat) jsmap"
  rc_config :: e2e_config

definition new_recovery :: "e2e_config \<Rightarrow> recovery" where
  "new_recovery cfg = \<lparr>rc_replays = [], rc_notices = [], rc_objects = 0, rc_states = [], rc_floors = [], rc_config = cfg\<rparr>"

section \<open>Batches\<close>

definition getOrCreatePeerBatch :: "nat \<Rightarrow> did \<Rightarrow> (did, 'a peer_batch) jsmap \<Rightarrow> 'a peer_batch" where
  "getOrCreatePeerBatch n peer bs = (case jm_get bs peer of Some b \<Rightarrow> b
     | None \<Rightarrow> \<lparr>pb_object = n, pb_items = [], pb_timer = NoTimer, pb_running = False\<rparr>)"

definition schedule_item :: "nat \<Rightarrow> did \<Rightarrow> string \<Rightarrow> 'a \<Rightarrow> (did, 'a peer_batch) jsmap \<Rightarrow> (did, 'a peer_batch) jsmap" where
  "schedule_item n peer key x bs = (let b = getOrCreatePeerBatch n peer bs
     in jm_set peer (b\<lparr>pb_items := jm_set key x (pb_items b), pb_timer := Armed\<rparr>) bs)"

definition clearPendingPeerBatch :: "did \<Rightarrow> (did, 'a peer_batch) jsmap \<Rightarrow> nat \<times> (did, 'a peer_batch) jsmap" where
  "clearPendingPeerBatch peer bs = (case jm_get bs peer of None \<Rightarrow> (0, bs) | Some b \<Rightarrow> (length (pb_items b), jm_del peer bs))"

text \<open>The callback of the timer: what it takes from the batch, with the identity of the batch, and the batches after it.\<close>

definition flush_start :: "('a \<Rightarrow> rat) \<Rightarrow> did \<Rightarrow> (did, 'a peer_batch) jsmap \<Rightarrow> (nat \<times> 'a list) option \<times> (did, 'a peer_batch) jsmap" where
  "flush_start time_of peer bs = (case jm_get bs peer of None \<Rightarrow> (None, bs)
     | Some b \<Rightarrow> if pb_running b then (None, jm_set peer (b\<lparr>pb_timer := Fired\<rparr>) bs)
        else (Some (pb_object b, js_sort (\<lambda>l r. time_of l - time_of r) (jm_vals (pb_items b))),
              jm_set peer (b\<lparr>pb_items := [], pb_timer := NoTimer, pb_running := True\<rparr>) bs))"

text \<open>The end of a flush. A batch that was cleared in between has no items and no timer, and is no longer in the map: the code then
  deletes whatever batch the peer has by now.\<close>

definition flush_finish :: "nat \<Rightarrow> did \<Rightarrow> (did, 'a peer_batch) jsmap \<Rightarrow> (did, 'a peer_batch) jsmap" where
  "flush_finish object peer bs = (case jm_get bs peer of None \<Rightarrow> bs
     | Some b \<Rightarrow>
        if pb_object b \<noteq> object then jm_del peer bs
        else if pb_items b \<noteq> [] then jm_set peer (b\<lparr>pb_running := False, pb_timer := Armed\<rparr>) bs
        else if pb_timer b = NoTimer then jm_del peer bs
        else jm_set peer (b\<lparr>pb_running := False\<rparr>) bs)"

record cancelled =
  cn_replayRequests :: nat
  cn_retryNotifications :: nat

definition no_cancelled :: cancelled where "no_cancelled = \<lparr>cn_replayRequests = 0, cn_retryNotifications = 0\<rparr>"

definition clearPendingPeerRecovery :: "did \<Rightarrow> recovery \<Rightarrow> cancelled \<times> recovery" where
  "clearPendingPeerRecovery peer r = (case (clearPendingPeerBatch peer (rc_replays r), clearPendingPeerBatch peer (rc_notices r)) of
     ((n, reps), (m, nots)) \<Rightarrow> (\<lparr>cn_replayRequests = n, cn_retryNotifications = m\<rparr>, r\<lparr>rc_replays := reps, rc_notices := nots\<rparr>))"

definition clearAllPendingRecovery :: "recovery \<Rightarrow> (nat \<times> nat) \<times> recovery" where
  "clearAllPendingRecovery r = ((length (rc_replays r), length (rc_notices r)), r\<lparr>rc_replays := [], rc_notices := []\<rparr>)"

definition schedulePeerReplay :: "did \<Rightarrow> replay_request \<Rightarrow> recovery \<Rightarrow> recovery" where
  "schedulePeerReplay peer q r =
     r\<lparr>rc_replays := schedule_item (rc_objects r) peer (rq_lookupMessageId q) q (rc_replays r), rc_objects := rc_objects r + 1\<rparr>"

definition schedulePeerRetryNotification :: "did \<Rightarrow> decrypt_failure \<Rightarrow> recovery \<Rightarrow> recovery" where
  "schedulePeerRetryNotification peer f r =
     r\<lparr>rc_notices := schedule_item (rc_objects r) peer (df_transportMessageId f) f (rc_notices r), rc_objects := rc_objects r + 1\<rparr>"

section \<open>Epochs and states\<close>

definition epoch_floor :: "did \<Rightarrow> recovery \<Rightarrow> rat" where
  "epoch_floor peer r = (case jm_get (rc_floors r) peer of Some e \<Rightarrow> e | None \<Rightarrow> 0)"

definition notePeerRecoveryEpoch :: "did \<Rightarrow> rat \<Rightarrow> recovery \<Rightarrow> recovery" where
  "notePeerRecoveryEpoch peer epoch r = (if epoch > epoch_floor peer r then r\<lparr>rc_floors := jm_set peer epoch (rc_floors r)\<rparr> else r)"

definition nextPeerRecoveryEpoch :: "msec \<Rightarrow> did \<Rightarrow> recovery \<Rightarrow> rat \<times> recovery" where
  "nextPeerRecoveryEpoch now peer r = (let epoch = max (of_int now) (epoch_floor peer r + 1) in (epoch, r\<lparr>rc_floors := jm_set peer epoch (rc_floors r)\<rparr>))"

definition clearPeerRecoveryState :: "did \<Rightarrow> rat option \<Rightarrow> recovery \<Rightarrow> bool \<times> recovery" where
  "clearPeerRecoveryState peer epoch r = (case jm_get (rc_states r) peer of None \<Rightarrow> (False, r)
     | Some st \<Rightarrow> if epoch \<noteq> None \<and> epoch \<noteq> Some (pr_epoch st) then (False, r)
        else (True, notePeerRecoveryEpoch peer (pr_epoch st) (r\<lparr>rc_states := jm_del peer (rc_states r)\<rparr>)))"

definition clearAllPeerRecoveryStates :: "recovery \<Rightarrow> nat \<times> recovery" where
  "clearAllPeerRecoveryStates r =
     (length (rc_states r), (fold (\<lambda>(peer, st). notePeerRecoveryEpoch peer (pr_epoch st)) (rc_states r) r)\<lparr>rc_states := []\<rparr>)"

text \<open>The sessions of the current device with a peer.\<close>

definition clearPeerSessions :: "e2e_config \<Rightarrow> did \<Rightarrow> e2e_config \<times> nat" where
  "clearPeerSessions cfg peer = (case jm_get (ec_devices cfg) (ec_currentDeviceId cfg) of None \<Rightarrow> (cfg, 0)
     | Some d \<Rightarrow>
       (let next = filter (\<lambda>(k, _). \<not> js_startsWith k (peer @ '':'')) (ld_sessions d); n = length (ld_sessions d) - length next
        in if n = 0 then (cfg, 0) else (cfg\<lparr>ec_devices := jm_set (ec_currentDeviceId cfg) (d\<lparr>ld_sessions := next\<rparr>) (ec_devices cfg)\<rparr>, n)))"

text \<open>\<open>stored\<close> is whether the transaction on the stored configuration succeeds; its failure is caught.\<close>

definition clear_stored_sessions :: "bool \<Rightarrow> did \<Rightarrow> recovery \<Rightarrow> nat \<times> recovery" where
  "clear_stored_sessions stored peer r = (if stored
     then (case clearPeerSessions (rc_config r) peer of (cfg, n) \<Rightarrow> (n, r\<lparr>rc_config := cfg\<rparr>)) else (0, r))"

record local_recovery =
  lr_state :: peer_recovery
  lr_started :: bool
  lr_cancelled :: cancelled
  lr_clearedCount :: nat

definition beginLocalPeerRecovery :: "msec \<Rightarrow> bool \<Rightarrow> did \<Rightarrow> string \<Rightarrow> rat \<Rightarrow> recovery \<Rightarrow> local_recovery \<times> recovery" where
  "beginLocalPeerRecovery now stored peer reason requestedAt r = (case jm_get (rc_states r) peer of
     Some st \<Rightarrow> (\<lparr>lr_state = st, lr_started = False, lr_cancelled = no_cancelled, lr_clearedCount = 0\<rparr>, r)
   | None \<Rightarrow>
       (let (epoch, r1) = nextPeerRecoveryEpoch now peer r;
            st = \<lparr>pr_epoch = epoch, pr_startedAt = requestedAt, pr_reason = reason, pr_awaitingAck = True\<rparr>;
            (cn, r2) = clearPendingPeerRecovery peer (r1\<lparr>rc_states := jm_set peer st (rc_states r1)\<rparr>);
            (n, r3) = clear_stored_sessions stored peer r2
        in (\<lparr>lr_state = st, lr_started = True, lr_cancelled = cn, lr_clearedCount = n\<rparr>, r3)))"

datatype recovery_action = AckReset | ResendReset

record remote_decision =
  rd_action :: recovery_action
  rd_state :: peer_recovery
  rd_clearAfterSend :: bool
  rd_cancelled :: cancelled
  rd_clearedCount :: nat

definition adopt_epoch :: "bool \<Rightarrow> did \<Rightarrow> rat \<Rightarrow> string \<Rightarrow> rat \<Rightarrow> recovery \<Rightarrow> remote_decision \<times> recovery" where
  "adopt_epoch stored peer epoch reason requestedAt r =
     (let st = \<lparr>pr_epoch = epoch, pr_startedAt = requestedAt, pr_reason = reason, pr_awaitingAck = False\<rparr>;
          (cn, r2) = clearPendingPeerRecovery peer (r\<lparr>rc_states := jm_set peer st (rc_states r)\<rparr>);
          (n, r3) = clear_stored_sessions stored peer r2
      in (\<lparr>rd_action = AckReset, rd_state = st, rd_clearAfterSend = True, rd_cancelled = cn, rd_clearedCount = n\<rparr>, r3))"

definition handleRemotePeerRecovery :: "bool \<Rightarrow> did \<Rightarrow> rat \<Rightarrow> string \<Rightarrow> rat \<Rightarrow> recovery \<Rightarrow> remote_decision \<times> recovery" where
  "handleRemotePeerRecovery stored peer epoch reason requestedAt r =
     (let r1 = notePeerRecoveryEpoch peer epoch r
      in case jm_get (rc_states r1) peer of
           None \<Rightarrow> adopt_epoch stored peer epoch reason requestedAt r1
         | Some st \<Rightarrow>
             if pr_epoch st > epoch
             then (\<lparr>rd_action = (if pr_awaitingAck st then ResendReset else AckReset), rd_state = st, rd_clearAfterSend = (\<not> pr_awaitingAck st),
                    rd_cancelled = no_cancelled, rd_clearedCount = 0\<rparr>, r1)
             else if pr_epoch st = epoch
             then (\<lparr>rd_action = AckReset, rd_state = st, rd_clearAfterSend = True, rd_cancelled = no_cancelled, rd_clearedCount = 0\<rparr>, r1)
             else adopt_epoch stored peer epoch reason requestedAt r1)"

section \<open>Messages\<close>

text \<open>The agent: its crypto, JSON text, DID and key.\<close>

record agent_keys =
  ak_crypto :: crypto
  ak_json :: json_text
  ak_did :: did
  ak_signKey :: bytes

text \<open>What one step gets from outside: the time, the identifiers it draws, the outcome of the transaction that clears
  sessions, and the answer of the router to an envelope.\<close>

record step_env =
  sv_now :: msec
  sv_newId :: "nat \<Rightarrow> string"
  sv_stored :: bool
  sv_accepts :: "message_envelope \<Rightarrow> e2e_error + unit"

definition control_envelope :: "agent_keys \<Rightarrow> step_env \<Rightarrow> nat \<Rightarrow> did \<Rightarrow> string \<Rightarrow> json \<Rightarrow> e2e_error + message_envelope" where
  "control_envelope a v n to protocol payload = make_application_envelope (ak_crypto a) (ak_json a) (ak_signKey a) (sv_newId v n) (of_int (sv_now v))
     (ak_did a) to (Some ''message'') protocol payload None None"

text \<open>An envelope that is built and given to the router: the result, and the envelope if it left.\<close>

definition send_control :: "agent_keys \<Rightarrow> step_env \<Rightarrow> nat \<Rightarrow> did \<Rightarrow> string \<Rightarrow> json \<Rightarrow> (e2e_error + unit) \<times> message_envelope list" where
  "send_control a v n to protocol payload = (case control_envelope a v n to protocol payload of Inl e \<Rightarrow> (Inl e, [])
     | Inr env \<Rightarrow> (case sv_accepts v env of Inl e \<Rightarrow> (Inl e, []) | Inr _ \<Rightarrow> (Inr (), [env])))"

definition reset_payload :: "did \<Rightarrow> did \<Rightarrow> string \<Rightarrow> rat \<Rightarrow> rat \<Rightarrow> json" where
  "reset_payload sender to reason epoch timestamp = JObj [(''from'', JStr sender), (''to'', JStr to), (''reason'', JStr reason), (''epoch'', JNum epoch),
     (''timestamp'', JNum timestamp)]"

definition sendSessionReset :: "agent_keys \<Rightarrow> step_env \<Rightarrow> nat \<Rightarrow> did \<Rightarrow> string \<Rightarrow> rat \<Rightarrow> rat \<Rightarrow> (e2e_error + unit) \<times> message_envelope list" where
  "sendSessionReset a v n to reason epoch timestamp =
     send_control a v n to ''e2e/session-reset'' (reset_payload (ak_did a) to reason epoch timestamp)"

definition sendSessionResetAck :: "agent_keys \<Rightarrow> step_env \<Rightarrow> nat \<Rightarrow> did \<Rightarrow> rat \<Rightarrow> string \<Rightarrow> rat \<Rightarrow> (e2e_error + unit) \<times> message_envelope list" where
  "sendSessionResetAck a v n to epoch reason timestamp =
     send_control a v n to ''e2e/session-reset-ack'' (reset_payload (ak_did a) to reason epoch timestamp)"

definition retry_payload :: "did \<Rightarrow> did \<Rightarrow> string \<Rightarrow> string \<Rightarrow> string \<Rightarrow> rat \<Rightarrow> string option \<Rightarrow> json" where
  "retry_payload sender to mid reason failedTransport timestamp threadId =
     JObj ([(''from'', JStr sender), (''to'', JStr to), (''messageId'', JStr mid), (''reason'', JStr reason),
       (''failedTransport'', JStr failedTransport), (''timestamp'', JNum timestamp)] @ opt_field ''threadId'' (given_string threadId))"

definition sendSessionRetry :: "agent_keys \<Rightarrow> step_env \<Rightarrow> nat \<Rightarrow> did \<Rightarrow> string \<Rightarrow> string \<Rightarrow> string \<Rightarrow> rat \<Rightarrow> string option
    \<Rightarrow> (e2e_error + unit) \<times> message_envelope list" where
  "sendSessionRetry a v n to mid reason failedTransport timestamp threadId =
     send_control a v n to ''e2e/session-retry'' (retry_payload (ak_did a) to mid reason failedTransport timestamp threadId)"

text \<open>The fields of a control payload, with the defaults of the code.\<close>

definition payload_string :: "json \<Rightarrow> string \<Rightarrow> string option" where
  "payload_string v k = (case json_field v k of Some (JStr s) \<Rightarrow> Some s | _ \<Rightarrow> None)"

definition payload_number :: "json \<Rightarrow> string \<Rightarrow> rat option" where
  "payload_number v k = (case json_field v k of Some (JNum x) \<Rightarrow> Some x | _ \<Rightarrow> None)"

definition control_timestamp :: "msec \<Rightarrow> json \<Rightarrow> rat" where
  "control_timestamp now v = or_else (payload_number v ''timestamp'') (of_int now)"

definition control_epoch :: "msec \<Rightarrow> json \<Rightarrow> rat" where
  "control_epoch now v = or_else (payload_number v ''epoch'') (control_timestamp now v)"

definition control_reason :: "json \<Rightarrow> string" where
  "control_reason v = or_else (payload_string v ''reason'') ''decrypt-failed''"

section \<open>Handlers\<close>

definition on_session_reset :: "agent_keys \<Rightarrow> step_env \<Rightarrow> message_envelope \<Rightarrow> recovery \<Rightarrow> message_envelope list \<times> recovery" where
  "on_session_reset a v e r =
     (let payload = me_payload e; now = sv_now v;
          (d, r1) = handleRemotePeerRecovery (sv_stored v) (me_from e) (control_epoch now payload) (control_reason payload) (control_timestamp now payload) r;
          st = rd_state d;
          (res, out) = (case rd_action d of
             ResendReset \<Rightarrow> sendSessionReset a v 0 (me_from e) (pr_reason st) (pr_epoch st) (of_int now)
           | AckReset \<Rightarrow> sendSessionResetAck a v 0 (me_from e) (pr_epoch st) (pr_reason st) (of_int now))
      in (out, case res of Inl _ \<Rightarrow> r1
            | Inr _ \<Rightarrow> if rd_clearAfterSend d then snd (clearPeerRecoveryState (me_from e) (Some (pr_epoch st)) r1) else r1))"

definition on_reset_ack :: "msec \<Rightarrow> message_envelope \<Rightarrow> recovery \<Rightarrow> recovery" where
  "on_reset_ack now e r = snd (clearPeerRecoveryState (me_from e) (Some (control_epoch now (me_payload e))) r)"

definition on_session_retry :: "msec \<Rightarrow> message_envelope \<Rightarrow> recovery \<Rightarrow> recovery" where
  "on_session_retry now e r =
     (if jm_get (rc_states r) (me_from e) \<noteq> None then r
      else let payload = me_payload e
           in case given_string (payload_string payload ''messageId'') of None \<Rightarrow> r
              | Some i \<Rightarrow> if or_else (payload_string payload ''failedTransport'') ''session'' \<noteq> ''session'' then r
                 else schedulePeerReplay (me_from e)
                   \<lparr>rq_lookupMessageId = i, rq_reason = control_reason payload, rq_requestedAt = control_timestamp now payload\<rparr> r)"

text \<open>A failed decryption, without the diagnostic message that it stores, and the reset that is sent by hand.\<close>

definition on_decrypt_failure :: "agent_keys \<Rightarrow> step_env \<Rightarrow> did \<Rightarrow> recovery \<Rightarrow> local_recovery \<times> message_envelope list \<times> recovery" where
  "on_decrypt_failure a v peer r =
     (let (l, r1) = beginLocalPeerRecovery (sv_now v) (sv_stored v) peer ''decrypt-failed'' (of_int (sv_now v)) r
      in (l, if lr_started l then snd (sendSessionReset a v 0 peer (pr_reason (lr_state l)) (pr_epoch (lr_state l)) (of_int (sv_now v))) else [], r1))"

definition reset_one_peer :: "agent_keys \<Rightarrow> step_env \<Rightarrow> nat \<Rightarrow> did \<Rightarrow> recovery \<Rightarrow> (e2e_error + unit) \<times> message_envelope list \<times> recovery" where
  "reset_one_peer a v n peer r =
     (let (l, r1) = beginLocalPeerRecovery (sv_now v) (sv_stored v) peer ''manual-reset'' (of_int (sv_now v)) r;
          (res, out) = sendSessionReset a v n peer ''manual-reset'' (pr_epoch (lr_state l)) (of_int (sv_now v))
      in (res, out, r1))"

definition formatPeerRecoveryError :: "text_ops \<Rightarrow> did \<Rightarrow> peer_recovery \<Rightarrow> string" where
  "formatPeerRecoveryError tx peer st = ''Peer '' @ peer @ '' is recovering E2E session (epoch '' @ number_text tx (pr_epoch st) @ '', reason ''
     @ pr_reason st @ ''); retry after session-reset-ack''"

end
