(* ===== verification/Daemon.thy ===== *)
theory Daemon
  imports Daemon_Recovery Message_Defense
begin

text \<open>
  The daemon of an agent, \<open>js/core/runtime/src/daemon-server.ts\<close>: incoming messages, sends, replays and retry notifications,
  pre-key maintenance, and the requests of local clients. One operation that does not wait for the relay is one step. A send or a
  replay holds the lock of its peer while it waits for the relay: it is a job, and each answer of the relay is a step of
  its own.
\<close>

section \<open>State\<close>

text \<open>What the daemon runs on: the keys of the agent, the databases, and the text functions of the platform.\<close>

record ('d, 'h, 'e) daemon_platform =
  dp_keys :: agent_keys
  dp_messages :: "('d, store_value) level_ops"
  dp_history :: "('h, interaction) level_ops"
  dp_endorsements :: "('e, endorsement_v1) level_ops"
  dp_text :: text_ops

datatype delivery_mode = Required | Preferred | Disabled

record send_request =
  sq_to :: did
  sq_protocol :: "string option"
  sq_payload :: json
  sq_type :: "string option"
  sq_replyTo :: "string option"
  sq_threadId :: "string option"

text \<open>A job: a send over the sessions (the targets whose answer is awaited), a plain send, or a replay (the message and the
  targets of the request that is being replayed, when its target was begun, the configuration after it, the requests after
  it, and the identity of the batch).\<close>

record replay_job =
  rj_message :: stored_message
  rj_request :: replay_request
  rj_targets :: "send_target list"
  rj_recordedAt :: msec
  rj_after :: e2e_config
  rj_requests :: "replay_request list"
  rj_object :: nat

datatype job =
    EncryptedSend send_request delivery_mode message_envelope "send_target list"
  | PlainSend send_request delivery_mode message_envelope
  | Replay replay_job

datatype maintenance_action = NoAction | ResupplyKeys | RotateSignedKey

record maintenance_status =
  pm_lastCheckedAt :: "msec option"
  pm_lastAction :: "maintenance_action option"
  pm_lastChangedAt :: "msec option"
  pm_lastRepublishedAt :: "msec option"
  pm_lastError :: "string option"

text \<open>What one step gets from outside, beside the clock and the answers of a \<open>step_env\<close>: the error of a transaction on the stored
  configuration that fails, the error of a fetch that fails, the devices and bundles that the relay has, and the keys that are drawn.\<close>

record daemon_env =
  dv_step :: step_env
  dv_storeError :: e2e_error
  dv_fetchError :: "e2e_error option"
  dv_devices :: "published_device list option"
  dv_bundles :: "string \<Rightarrow> claimed_bundle option"
  dv_draws :: "string \<Rightarrow> draws \<times> bytes"
  dv_keyDraws :: device_draws

text \<open>What the daemon puts out: envelopes for the relay, and messages for the sockets that subscribe to the inbox.\<close>

datatype daemon_out = ToRelay message_envelope | ToSocket nat string stored_message

definition no_maintenance :: maintenance_status where
  "no_maintenance = \<lparr>pm_lastCheckedAt = None, pm_lastAction = None, pm_lastChangedAt = None, pm_lastRepublishedAt = None, pm_lastError = None\<rparr>"

text \<open>\<open>dm_flushes\<close> are the batches of requests that a timer has taken and that wait for the lock of their peer, with the identity
  of the batch.\<close>

record ('d, 'h, 'e) daemon =
  dm_recovery :: recovery
  dm_guard :: "('d, 'h, 'e) guard"
  dm_jobs :: "(did, job) jsmap"
  dm_flushes :: "(did \<times> nat \<times> replay_request list) list"
  dm_sockets :: "(nat, string list) jsmap"
  dm_maintenance :: maintenance_status

definition start_daemon :: "e2e_config \<Rightarrow> 'd \<Rightarrow> ('h, 'e) trust_system \<Rightarrow> ('d, 'h, 'e) daemon" where
  "start_daemon cfg db trust = \<lparr>dm_recovery = new_recovery cfg, dm_guard = \<lparr>gd_queue = start_queue db, gd_trust = trust, gd_defense = new_defense\<rparr>,
     dm_jobs = [], dm_flushes = [], dm_sockets = [], dm_maintenance = no_maintenance\<rparr>"

definition dm_queue :: "('d, 'h, 'e) daemon \<Rightarrow> 'd message_queue" where
  "dm_queue s = gd_queue (dm_guard s)"

definition dm_config :: "('d, 'h, 'e) daemon \<Rightarrow> e2e_config" where
  "dm_config s = rc_config (dm_recovery s)"

definition with_recovery :: "(recovery \<Rightarrow> recovery) \<Rightarrow> ('d, 'h, 'e) daemon \<Rightarrow> ('d, 'h, 'e) daemon" where
  "with_recovery f s = s\<lparr>dm_recovery := f (dm_recovery s)\<rparr>"

definition set_config :: "e2e_config \<Rightarrow> ('d, 'h, 'e) daemon \<Rightarrow> ('d, 'h, 'e) daemon" where
  "set_config cfg = with_recovery (\<lambda>r. r\<lparr>rc_config := cfg\<rparr>)"

definition with_guard :: "(('d, 'h, 'e) guard \<Rightarrow> ('d, 'h, 'e) guard) \<Rightarrow> ('d, 'h, 'e) daemon \<Rightarrow> ('d, 'h, 'e) daemon" where
  "with_guard f s = s\<lparr>dm_guard := f (dm_guard s)\<rparr>"

definition with_queue :: "('d message_queue \<Rightarrow> 'd message_queue) \<Rightarrow> ('d, 'h, 'e) daemon \<Rightarrow> ('d, 'h, 'e) daemon" where
  "with_queue f = with_guard (\<lambda>g. g\<lparr>gd_queue := f (gd_queue g)\<rparr>)"

definition with_trust :: "(('h, 'e) trust_system \<Rightarrow> ('h, 'e) trust_system) \<Rightarrow> ('d, 'h, 'e) daemon \<Rightarrow> ('d, 'h, 'e) daemon" where
  "with_trust f = with_guard (\<lambda>g. g\<lparr>gd_trust := f (gd_trust g)\<rparr>)"

definition peer_state :: "did \<Rightarrow> ('d, 'h, 'e) daemon \<Rightarrow> peer_recovery option" where
  "peer_state p s = jm_get (rc_states (dm_recovery s)) p"

text \<open>The text of an error.\<close>

definition message_of :: "e2e_error \<Rightarrow> string" where
  "message_of e = (case e of EncryptionError m \<Rightarrow> m | IdentityError m \<Rightarrow> m | MessagingError m \<Rightarrow> m | JsError m \<Rightarrow> m)"

definition with_job :: "did \<Rightarrow> job \<Rightarrow> ('d, 'h, 'e) daemon \<Rightarrow> ('d, 'h, 'e) daemon" where
  "with_job p j s = s\<lparr>dm_jobs := jm_set p j (dm_jobs s)\<rparr>"

definition end_job :: "did \<Rightarrow> ('d, 'h, 'e) daemon \<Rightarrow> ('d, 'h, 'e) daemon" where
  "end_job p s = s\<lparr>dm_jobs := jm_del p (dm_jobs s)\<rparr>"

section \<open>Incoming messages\<close>

definition isSolicitedReply :: "('d, 'h, 'e) daemon_platform \<Rightarrow> message_envelope \<Rightarrow> ('d, 'h, 'e) daemon \<Rightarrow> bool" where
  "isSolicitedReply P e s \<longleftrightarrow> (case given_string (me_replyTo e) of None \<Rightarrow> False
     | Some i \<Rightarrow> (case getOutboundMessage (dp_messages P) i (dm_queue s) of None \<Rightarrow> False | Some m \<Rightarrow> me_to (sm_envelope m) = me_from e))"

text \<open>A local note about a peer in the inbox; its signature is a constant text.\<close>

definition buildLocalDiagnosticEnvelope :: "agent_keys \<Rightarrow> step_env \<Rightarrow> did \<Rightarrow> string \<Rightarrow> json \<Rightarrow> e2e_error + message_envelope" where
  "buildLocalDiagnosticEnvelope a v sender protocol payload =
     and_then (createEnvelope (sv_newId v 0) (of_int (sv_now v)) sender (ak_did a) ''message'' protocol payload None None None)
       (\<lambda>e. Inr (unsigned_envelope.extend e (message_envelope.fields ''local-diagnostic'')))"


text \<open>An operation throws or not, puts things out, and leaves a state.\<close>

type_synonym ('d, 'h, 'e) outcome = "e2e_error option \<times> daemon_out list \<times> ('d, 'h, 'e) daemon"

definition events_for :: "stored_message \<Rightarrow> string list \<Rightarrow> ('d, 'h, 'e) daemon \<Rightarrow> daemon_out list" where
  "events_for m ids s = concat (map (\<lambda>i. map (\<lambda>(k, _). ToSocket k i m) (filter (\<lambda>(k, subs). i \<in> set subs) (dm_sockets s))) ids)"

definition store_inbound :: "('d, 'h, 'e) daemon_platform \<Rightarrow> msec \<Rightarrow> message_envelope \<Rightarrow> rat option \<Rightarrow> trust_status option \<Rightarrow> delivery option
    \<Rightarrow> ('d, 'h, 'e) daemon \<Rightarrow> ('d, 'h, 'e) outcome" where
  "store_inbound P now e score st d s = (case enqueueInbound (dp_messages P) (dp_text P) now e score st d (dm_queue s) of
     Inl err \<Rightarrow> (Some err, [], s) | Inr ((m, ids), q) \<Rightarrow> (None, events_for m ids s, with_queue (\<lambda>_. q) s))"

definition interaction_of :: "msec \<Rightarrow> did \<Rightarrow> bool \<Rightarrow> string option \<Rightarrow> interaction" where
  "interaction_of now d ok why = \<lparr>ia_agentDid = d, ia_timestamp = now, ia_type = MessageInteraction, ia_success = ok, ia_responseTime = 0,
     ia_rating = None, ia_feedback = None, ia_failureReason = why\<rparr>"

definition refusal_text :: "refusal \<Rightarrow> string option" where
  "refusal_text r = (case r of RateLimited \<Rightarrow> Some ''rate_limited'' | Blocked \<Rightarrow> Some ''blocked'' | TrustTooLow \<Rightarrow> Some ''trust_too_low''
     | Duplicate \<Rightarrow> None)"

text \<open>A message \<open>e\<close> that came in the transport envelope \<open>t\<close>, with its delivery when it was encrypted.\<close>

definition receive_message :: "('d, 'h, 'e) daemon_platform \<Rightarrow> msec \<Rightarrow> message_envelope \<Rightarrow> message_envelope \<Rightarrow> delivery option
    \<Rightarrow> ('d, 'h, 'e) daemon \<Rightarrow> ('d, 'h, 'e) outcome" where
  "receive_message P now t e d s =
     (let (res, g) = checkMessage (dp_messages P) (dp_history P) (dp_endorsements P) default_defense now e (isSolicitedReply P e s) (dm_guard s);
          s1 = s\<lparr>dm_guard := g\<rparr>
      in if dr_allowed res
         then (case store_inbound P now e (dr_trustScore res) (dr_trustStatus res) d s1 of
             (Some err, out, s2) \<Rightarrow> (Some err, out, s2)
           | (None, out, s2) \<Rightarrow> (None, out, with_trust (recordInteraction (dp_history P) now (interaction_of now (me_from e) True None)) s2))
         else (case (dr_reason res, d) of
             (Some Duplicate, Some dl) \<Rightarrow> (case appendE2EDelivery (dp_messages P) (dp_text P) (me_id e) dl (dm_queue s1) of
                 (Some _, q) \<Rightarrow> (None, [], with_queue (\<lambda>_. q) s1)
               | (None, q) \<Rightarrow> store_inbound P now e (dr_trustScore res) (dr_trustStatus res) d (with_queue (\<lambda>_. q) s1))
           | (Some r, _) \<Rightarrow> (None, [], case refusal_text r of None \<Rightarrow> s1
               | Some why \<Rightarrow> with_trust (recordInteraction (dp_history P) now (interaction_of now (me_from t) False (Some why))) s1)
           | (None, _) \<Rightarrow> (None, [], s1)))"

definition stored_transport :: "E2E_Envelope.e2e_transport \<Rightarrow> Message_Store.e2e_transport" where
  "stored_transport t = (case t of ByPreKey \<Rightarrow> ViaPrekey | BySession \<Rightarrow> ViaSession)"

definition received_delivery :: "msec \<Rightarrow> decrypted_envelope \<Rightarrow> delivery" where
  "received_delivery now d = \<lparr>dl_transport = stored_transport (de_transport d), dl_transportMessageId = None, dl_senderDeviceId = de_senderDeviceId d,
     dl_receiverDeviceId = de_receiverDeviceId d, dl_sessionId = de_sessionId d, dl_state = DlReceived, dl_recordedAt = now,
     dl_usedSkippedMessageKey = Some (de_usedSkippedMessageKey d), dl_error = None\<rparr>"

text \<open>The payload of the note about a failed decryption.\<close>

definition decrypt_failed_payload :: "e2e_error \<Rightarrow> rat \<Rightarrow> json" where
  "decrypt_failed_payload err epoch = JObj [(''error'', JStr (message_of err)), (''epoch'', JNum epoch),
     (''hint'', JStr ''Peer moved to explicit session recovery. Normal sends are blocked until reset-ack arrives.'')]"

definition decrypt_transport :: "('d, 'h, 'e) daemon_platform \<Rightarrow> daemon_env \<Rightarrow> message_envelope \<Rightarrow> ('d, 'h, 'e) daemon \<Rightarrow> e2e_error + decrypted_envelope" where
  "decrypt_transport P v t s = (if sv_stored (dv_step v)
     then prepareEncryptedReceive (ak_crypto (dp_keys P)) (ak_json (dp_keys P)) (dm_config s) (ak_did (dp_keys P)) t (sv_now (dv_step v))
     else Inl (dv_storeError v))"

definition on_decrypt_error :: "('d, 'h, 'e) daemon_platform \<Rightarrow> daemon_env \<Rightarrow> message_envelope \<Rightarrow> e2e_error \<Rightarrow> ('d, 'h, 'e) daemon \<Rightarrow> ('d, 'h, 'e) outcome" where
  "on_decrypt_error P v t err s =
     (let w = dv_step v; (l, sent, r) = on_decrypt_failure (dp_keys P) w (me_from t) (dm_recovery s); s1 = s\<lparr>dm_recovery := r\<rparr>
      in case buildLocalDiagnosticEnvelope (dp_keys P) w (me_from t) ''e2e/decrypt-failed'' (decrypt_failed_payload err (pr_epoch (lr_state l))) of
           Inl x \<Rightarrow> (Some x, [], s1)
         | Inr e \<Rightarrow> (case store_inbound P (sv_now w) e None None None s1 of
             (Some x, out, s2) \<Rightarrow> (Some x, out, s2) | (None, out, s2) \<Rightarrow> (None, out @ map ToRelay sent, s2)))"

definition on_e2e_transport :: "('d, 'h, 'e) daemon_platform \<Rightarrow> daemon_env \<Rightarrow> message_envelope \<Rightarrow> ('d, 'h, 'e) daemon \<Rightarrow> ('d, 'h, 'e) outcome" where
  "on_e2e_transport P v t s =
     (if peer_state (me_from t) s \<noteq> None then (None, [], s)
      else case decrypt_transport P v t s of
           Inl err \<Rightarrow> on_decrypt_error P v t err s
         | Inr d \<Rightarrow> receive_message P (sv_now (dv_step v)) t (de_applicationEnvelope d) (Some (received_delivery (sv_now (dv_step v)) d)) (set_config (de_config d) s))"

definition handleIncomingMessage :: "('d, 'h, 'e) daemon_platform \<Rightarrow> daemon_env \<Rightarrow> message_envelope \<Rightarrow> ('d, 'h, 'e) daemon \<Rightarrow> ('d, 'h, 'e) outcome" where
  "handleIncomingMessage P v t s =
     (if me_protocol t = ''e2e/session-reset''
      then (case on_session_reset (dp_keys P) (dv_step v) t (dm_recovery s) of (sent, r) \<Rightarrow> (None, map ToRelay sent, s\<lparr>dm_recovery := r\<rparr>))
      else if me_protocol t = ''e2e/session-reset-ack'' then (None, [], with_recovery (on_reset_ack (sv_now (dv_step v)) t) s)
      else if me_protocol t = ''e2e/session-retry'' then (None, [], with_recovery (on_session_retry (sv_now (dv_step v)) t) s)
      else if me_protocol t = E2E_APPLICATION_ENVELOPE_PROTOCOL then on_e2e_transport P v t s
      else receive_message P (sv_now (dv_step v)) t t None s)"

text \<open>The messages that are handled under the lock of their sender.\<close>

definition under_peer_lock :: "message_envelope \<Rightarrow> bool" where
  "under_peer_lock t \<longleftrightarrow> me_protocol t \<in> {''e2e/session-reset'', ''e2e/session-reset-ack'', ''e2e/session-retry'', E2E_APPLICATION_ENVELOPE_PROTOCOL}"


section \<open>Sending\<close>

definition normalizeSendDeliveryMode :: "json option \<Rightarrow> e2e_error + delivery_mode" where
  "normalizeSendDeliveryMode x =
     (if x = None \<or> x = Some JNull \<or> x = Some (JStr '''') \<or> x = Some (JStr ''required'') then Inr Required
      else if x = Some (JStr ''preferred'') then Inr Preferred
      else if x = Some (JStr ''disabled'') then Inr Disabled
      else Inl (JsError ''Delivery mode must be one of: required, preferred, disabled.''))"

definition shouldFallbackToPlaintextDelivery :: "e2e_error \<Rightarrow> bool" where
  "shouldFallbackToPlaintextDelivery err = (let m = message_of err
     in js_startsWith m ''No Agent Card found for '' \<or> js_includes m ''does not publish any E2E devices''
        \<or> js_includes m ''No claimed pre-key bundle available'')"

definition canFallbackToPlaintextDelivery :: "delivery_mode \<Rightarrow> e2e_error \<Rightarrow> bool" where
  "canFallbackToPlaintextDelivery mode err \<longleftrightarrow> mode = Preferred \<and> shouldFallbackToPlaintextDelivery err"

datatype delivery_path = E2EPath | PlaintextPath
datatype send_reply = SendOk string delivery_mode delivery_path | SendError string

definition request_envelope :: "agent_keys \<Rightarrow> step_env \<Rightarrow> nat \<Rightarrow> send_request \<Rightarrow> e2e_error + message_envelope" where
  "request_envelope a w n q = make_application_envelope (ak_crypto a) (ak_json a) (ak_signKey a) (sv_newId w n) (of_int (sv_now w)) (ak_did a) (sq_to q)
     (Some (or_else (given_string (sq_type q)) ''message'')) (or_else (sq_protocol q) ''/agent/msg/1.0.0'') (sq_payload q) (sq_replyTo q) (sq_threadId q)"

definition prepareEncryptedSendsWithoutCommit :: "('d, 'h, 'e) daemon_platform \<Rightarrow> daemon_env \<Rightarrow> e2e_error + message_envelope \<Rightarrow> did \<Rightarrow> e2e_config
    \<Rightarrow> e2e_error + message_envelope \<times> send_target list \<times> e2e_config" where
  "prepareEncryptedSendsWithoutCommit P v made peer cfg = and_then made (\<lambda>e. case dv_fetchError v of Some x \<Rightarrow> Inl x
     | None \<Rightarrow> prepareEncryptedSends (ak_crypto (dp_keys P)) (ak_json (dp_keys P)) (locale_compare (dp_text P)) (dv_draws v) (dv_devices v) (dv_bundles v)
         (ak_signKey (dp_keys P)) (Inr e) peer cfg)"

definition target_delivery :: "msec \<Rightarrow> delivery_state \<Rightarrow> string option option \<Rightarrow> send_target \<Rightarrow> delivery" where
  "target_delivery now st err t = \<lparr>dl_transport = stored_transport (st_transport t), dl_transportMessageId = Some (me_id (st_outerEnvelope t)),
     dl_senderDeviceId = st_senderDeviceId t, dl_receiverDeviceId = st_recipientDeviceId t, dl_sessionId = st_sessionId t, dl_state = st,
     dl_recordedAt = now, dl_usedSkippedMessageKey = None, dl_error = err\<rparr>"

definition record_delivery :: "('d, 'h, 'e) daemon_platform \<Rightarrow> string \<Rightarrow> delivery \<Rightarrow> ('d, 'h, 'e) daemon \<Rightarrow> ('d, 'h, 'e) daemon" where
  "record_delivery P i d = with_queue (\<lambda>q. snd (appendE2EDelivery (dp_messages P) (dp_text P) i d q))"

type_synonym ('d, 'h, 'e) send_outcome = "send_reply option \<times> daemon_out list \<times> ('d, 'h, 'e) daemon"

text \<open>The job goes on: the next envelope is given to the relay client, or the send is over.\<close>

definition proceed_send :: "('d, 'h, 'e) daemon_platform \<Rightarrow> did \<Rightarrow> job \<Rightarrow> ('d, 'h, 'e) daemon \<Rightarrow> ('d, 'h, 'e) send_outcome" where
  "proceed_send P peer j s = (case j of
     EncryptedSend q m e [] \<Rightarrow> (Some (SendOk (me_id e) m E2EPath), [], end_job peer (with_queue (markOutboundDelivered (dp_messages P) (me_id e)) s))
   | EncryptedSend q m e (t # ts) \<Rightarrow> (None, [ToRelay (st_outerEnvelope t)], with_job peer j s)
   | PlainSend q m e \<Rightarrow> (None, [ToRelay e], with_job peer j s)
   | Replay r \<Rightarrow> (None, [], s))"

definition begin_encrypted :: "('d, 'h, 'e) daemon_platform \<Rightarrow> daemon_env \<Rightarrow> delivery_mode \<Rightarrow> send_request \<Rightarrow> ('d, 'h, 'e) daemon
    \<Rightarrow> e2e_error + job \<times> ('d, 'h, 'e) daemon" where
  "begin_encrypted P v mode q s = (if \<not> sv_stored (dv_step v) then Inl (dv_storeError v) else
     and_then (prepareEncryptedSendsWithoutCommit P v (request_envelope (dp_keys P) (dv_step v) 0 q) (sq_to q) (dm_config s)) (\<lambda>(e, ts, _).
     and_then (enqueueOutbound (dp_messages P) (dp_text P) (sv_now (dv_step v)) e (map (target_delivery (sv_now (dv_step v)) DlPending None) ts) (dm_queue s))
       (\<lambda>(_, mq). Inr (EncryptedSend q mode e ts, with_queue (\<lambda>_. mq) s))))"

definition begin_plaintext :: "('d, 'h, 'e) daemon_platform \<Rightarrow> daemon_env \<Rightarrow> delivery_mode \<Rightarrow> send_request \<Rightarrow> ('d, 'h, 'e) daemon
    \<Rightarrow> e2e_error + job \<times> ('d, 'h, 'e) daemon" where
  "begin_plaintext P v mode q s = and_then (request_envelope (dp_keys P) (dv_step v) 1 q) (\<lambda>e.
     and_then (enqueueOutbound (dp_messages P) (dp_text P) (sv_now (dv_step v)) e [] (dm_queue s))
       (\<lambda>(_, mq). Inr (PlainSend q mode e, with_queue (\<lambda>_. mq) s)))"

text \<open>A send that failed: an error for the client, or a plain send when the mode prefers encryption and the peer has none.\<close>

definition give_up :: "('d, 'h, 'e) daemon_platform \<Rightarrow> daemon_env \<Rightarrow> delivery_mode \<Rightarrow> send_request \<Rightarrow> e2e_error \<Rightarrow> ('d, 'h, 'e) daemon
    \<Rightarrow> ('d, 'h, 'e) send_outcome" where
  "give_up P v mode q err s =
     (if canFallbackToPlaintextDelivery mode err
      then (case begin_plaintext P v mode q s of Inl e \<Rightarrow> (Some (SendError (message_of e)), [], s) | Inr (j, s1) \<Rightarrow> proceed_send P (sq_to q) j s1)
      else (Some (SendError (message_of err)), [], s))"

definition handleSend :: "('d, 'h, 'e) daemon_platform \<Rightarrow> daemon_env \<Rightarrow> json option \<Rightarrow> send_request \<Rightarrow> ('d, 'h, 'e) daemon \<Rightarrow> ('d, 'h, 'e) send_outcome" where
  "handleSend P v mode q s = (case normalizeSendDeliveryMode mode of
     Inl err \<Rightarrow> (Some (SendError (message_of err)), [], s)
   | Inr m \<Rightarrow> (case peer_state (sq_to q) s of
       Some st \<Rightarrow> (Some (SendError (formatPeerRecoveryError (dp_text P) (sq_to q) st)), [], s)
     | None \<Rightarrow> (case (if m = Disabled then begin_plaintext P v m q s else begin_encrypted P v m q s) of
         Inl err \<Rightarrow> give_up P v m q err s
       | Inr (j, s1) \<Rightarrow> proceed_send P (sq_to q) j s1)))"

text \<open>The answer of the relay to what a send has given it. The configuration that was computed with the envelope replaces the stored one.\<close>

definition commitAcceptedE2EConfig :: "daemon_env \<Rightarrow> e2e_config \<Rightarrow> ('d, 'h, 'e) daemon \<Rightarrow> e2e_error + ('d, 'h, 'e) daemon" where
  "commitAcceptedE2EConfig v cfg s = (if sv_stored (dv_step v) then Inr (set_config cfg s) else Inl (dv_storeError v))"

definition answer_send :: "('d, 'h, 'e) daemon_platform \<Rightarrow> daemon_env \<Rightarrow> did \<Rightarrow> e2e_error + unit \<Rightarrow> job \<Rightarrow> ('d, 'h, 'e) daemon \<Rightarrow> ('d, 'h, 'e) send_outcome" where
  "answer_send P v peer res j s = (let now = sv_now (dv_step v) in case j of
     EncryptedSend q m e (t # ts) \<Rightarrow> (case and_then res (\<lambda>_. commitAcceptedE2EConfig v (st_configAfterSend t) s) of
         Inr s1 \<Rightarrow> proceed_send P peer (EncryptedSend q m e ts) (record_delivery P (me_id e) (target_delivery now DlSent (Some None) t) s1)
       | Inl err \<Rightarrow> give_up P v m q err (end_job peer (with_queue (markOutboundFailed (dp_messages P) (me_id e) (message_of err))
             (record_delivery P (me_id e) (target_delivery now DlFailed (Some (Some (message_of err))) t) s))))
   | PlainSend q m e \<Rightarrow> (case res of
         Inr _ \<Rightarrow> (Some (SendOk (me_id e) m PlaintextPath), [], end_job peer (with_queue (markOutboundDelivered (dp_messages P) (me_id e)) s))
       | Inl err \<Rightarrow> (Some (SendError (message_of err)), [], end_job peer s))
   | _ \<Rightarrow> (None, [], s))"


section \<open>Replays\<close>

definition MAX_SESSION_REPLAY_ATTEMPTS :: int where "MAX_SESSION_REPLAY_ATTEMPTS = 3"

definition lookupOutboundMessageForRecovery :: "('d, 'h, 'e) daemon_platform \<Rightarrow> did \<Rightarrow> string \<Rightarrow> ('d, 'h, 'e) daemon \<Rightarrow> stored_message option" where
  "lookupOutboundMessageForRecovery P peer i s =
     (let sent_to = (\<lambda>r. case r of Some m \<Rightarrow> me_to (sm_envelope m) = peer | None \<Rightarrow> False);
          direct = getOutboundMessage (dp_messages P) i (dm_queue s);
          transport = getOutboundMessageByTransportMessageId (dp_messages P) i (dm_queue s)
      in if sent_to direct then direct else if sent_to transport then transport else None)"

definition replay_count :: "stored_message \<Rightarrow> int" where
  "replay_count m = (case retry_of m of Some r \<Rightarrow> rm_replayCount r | None \<Rightarrow> 0)"

definition record_retry :: "('d, 'h, 'e) daemon_platform \<Rightarrow> string \<Rightarrow> retry_meta \<Rightarrow> ('d, 'h, 'e) daemon \<Rightarrow> ('d, 'h, 'e) daemon" where
  "record_retry P i r = with_queue (\<lambda>q. snd (appendE2ERetry (dp_messages P) i r q))"

definition retry_record :: "int \<Rightarrow> replay_request \<Rightarrow> rat option \<Rightarrow> retry_meta" where
  "retry_record n q at_ms = \<lparr>rm_replayCount = n, rm_lastRequestedAt = Some (rq_requestedAt q), rm_lastReplayedAt = at_ms, rm_lastReason = Some (rq_reason q)\<rparr>"

definition finish_replay :: "did \<Rightarrow> nat \<Rightarrow> ('d, 'h, 'e) daemon \<Rightarrow> ('d, 'h, 'e) daemon" where
  "finish_replay peer object s = end_job peer (with_recovery (\<lambda>r. r\<lparr>rc_replays := flush_finish object peer (rc_replays r)\<rparr>) s)"

definition begin_target :: "('d, 'h, 'e) daemon_platform \<Rightarrow> did \<Rightarrow> replay_job \<Rightarrow> ('d, 'h, 'e) daemon \<Rightarrow> ('d, 'h, 'e) outcome" where
  "begin_target P peer r s = (case rj_targets r of [] \<Rightarrow> (None, [], s)
     | t # _ \<Rightarrow> (None, [ToRelay (st_outerEnvelope t)], with_job peer (Replay r)
         (record_delivery P (me_id (sm_envelope (rj_message r))) (target_delivery (rj_recordedAt r) DlPending None t) s)))"

text \<open>The requests of a batch in turn, up to the first that has to wait for the relay. An error ends the batch.\<close>

fun replay_requests :: "('d, 'h, 'e) daemon_platform \<Rightarrow> daemon_env \<Rightarrow> did \<Rightarrow> nat \<Rightarrow> e2e_config \<Rightarrow> replay_request list \<Rightarrow> ('d, 'h, 'e) daemon
    \<Rightarrow> ('d, 'h, 'e) outcome" where
  "replay_requests P v peer object base [] s = (None, [], finish_replay peer object s)"
| "replay_requests P v peer object base (q # qs) s = (case lookupOutboundMessageForRecovery P peer (rq_lookupMessageId q) s of
     None \<Rightarrow> replay_requests P v peer object base qs s
   | Some m \<Rightarrow>
       (let e = sm_envelope m; s1 = record_retry P (me_id e) (retry_record (replay_count m) q None) s
        in if replay_count m \<ge> MAX_SESSION_REPLAY_ATTEMPTS then replay_requests P v peer object base qs s1
           else (case prepareEncryptedSendsWithoutCommit P v (Inr e) (me_to e) base of
               Inl err \<Rightarrow> (Some err, [], finish_replay peer object s1)
             | Inr (_, [], _) \<Rightarrow> replay_requests P v peer object base qs s1
             | Inr (_, t # ts, after) \<Rightarrow> begin_target P peer \<lparr>rj_message = m, rj_request = q, rj_targets = t # ts, rj_recordedAt = sv_now (dv_step v),
                 rj_after = after, rj_requests = qs, rj_object = object\<rparr> s1)))"

definition answer_replay :: "('d, 'h, 'e) daemon_platform \<Rightarrow> daemon_env \<Rightarrow> did \<Rightarrow> e2e_error + unit \<Rightarrow> replay_job \<Rightarrow> ('d, 'h, 'e) daemon \<Rightarrow> ('d, 'h, 'e) outcome" where
  "answer_replay P v peer res r s = (let now = sv_now (dv_step v); i = me_id (sm_envelope (rj_message r)) in case rj_targets r of
     [] \<Rightarrow> (None, [], s)
   | t # ts \<Rightarrow> (case and_then res (\<lambda>_. commitAcceptedE2EConfig v (st_configAfterSend t) s) of
         Inl err \<Rightarrow> (Some err, [], finish_replay peer (rj_object r) (record_delivery P i (target_delivery now DlFailed (Some (Some (message_of err))) t) s))
       | Inr s1 \<Rightarrow>
          (let s2 = record_delivery P i (target_delivery now DlSent (Some None) t) s1
           in if ts \<noteq> [] then begin_target P peer (r\<lparr>rj_targets := ts, rj_recordedAt := now\<rparr>) s2
              else replay_requests P v peer (rj_object r) (rj_after r) (rj_requests r)
                (record_retry P i (retry_record (replay_count (rj_message r) + 1) (rj_request r) (Some (of_int (rj_recordedAt r)))) s2))))"

text \<open>The timer takes the batch; the batch then waits for the lock of the peer. Its sessions are cleared first, in a transaction.\<close>

definition replay_timer :: "did \<Rightarrow> ('d, 'h, 'e) daemon \<Rightarrow> ('d, 'h, 'e) daemon" where
  "replay_timer peer s = (case flush_start rq_requestedAt peer (rc_replays (dm_recovery s)) of
     (None, bs) \<Rightarrow> with_recovery (\<lambda>r. r\<lparr>rc_replays := bs\<rparr>) s
   | (Some (object, qs), bs) \<Rightarrow>
       if qs = [] then with_recovery (\<lambda>r. r\<lparr>rc_replays := flush_finish object peer bs\<rparr>) s
       else (with_recovery (\<lambda>r. r\<lparr>rc_replays := bs\<rparr>) s)\<lparr>dm_flushes := dm_flushes s @ [(peer, object, qs)]\<rparr>)"

definition replayOutboundMessages :: "('d, 'h, 'e) daemon_platform \<Rightarrow> daemon_env \<Rightarrow> did \<Rightarrow> ('d, 'h, 'e) daemon \<Rightarrow> ('d, 'h, 'e) outcome" where
  "replayOutboundMessages P v peer s = (case List.find (\<lambda>(p, _). p = peer) (dm_flushes s) of
     None \<Rightarrow> (None, [], s)
   | Some (p, object, qs) \<Rightarrow>
       (let s1 = s\<lparr>dm_flushes := remove1 (p, object, qs) (dm_flushes s)\<rparr>
        in if \<not> sv_stored (dv_step v) then (Some (dv_storeError v), [], finish_replay peer object s1)
           else let cfg = fst (clearPeerSessions (dm_config s) peer) in replay_requests P v peer object cfg qs (set_config cfg s1)))"

text \<open>The notices about failed decryptions, one after the other until one fails.\<close>

fun send_notices :: "agent_keys \<Rightarrow> step_env \<Rightarrow> nat \<Rightarrow> did \<Rightarrow> decrypt_failure list \<Rightarrow> (e2e_error + unit) \<times> message_envelope list" where
  "send_notices a w n peer [] = (Inr (), [])"
| "send_notices a w n peer (f # fs) =
     (case sendSessionRetry a w n peer (df_transportMessageId f) (df_reason f) ''session'' (df_requestedAt f) (df_threadId f) of
        (Inl e, out) \<Rightarrow> (Inl e, out)
      | (Inr _, out) \<Rightarrow> (case send_notices a w (n + 1) peer fs of (r, out') \<Rightarrow> (r, out @ out')))"

definition sendPeerRetryNotifications :: "('d, 'h, 'e) daemon_platform \<Rightarrow> daemon_env \<Rightarrow> did \<Rightarrow> ('d, 'h, 'e) daemon \<Rightarrow> ('d, 'h, 'e) outcome" where
  "sendPeerRetryNotifications P v peer s = (case flush_start df_requestedAt peer (rc_notices (dm_recovery s)) of
     (None, bs) \<Rightarrow> (None, [], with_recovery (\<lambda>r. r\<lparr>rc_notices := bs\<rparr>) s)
   | (Some (object, fs), bs) \<Rightarrow>
       (let finish = with_recovery (\<lambda>r. r\<lparr>rc_notices := flush_finish object peer bs\<rparr>)
        in if fs = [] then (None, [], finish s)
           else if \<not> sv_stored (dv_step v) then (Some (dv_storeError v), [], finish s)
           else let (res, out) = send_notices (dp_keys P) (dv_step v) 0 peer fs; s1 = set_config (fst (clearPeerSessions (dm_config s) peer)) s
                in (case res of Inl e \<Rightarrow> Some e | Inr _ \<Rightarrow> None, map ToRelay out, finish s1)))"

text \<open>The answer of the relay to the job of a peer.\<close>

definition on_answer :: "('d, 'h, 'e) daemon_platform \<Rightarrow> daemon_env \<Rightarrow> did \<Rightarrow> e2e_error + unit \<Rightarrow> ('d, 'h, 'e) daemon
    \<Rightarrow> send_reply option \<times> daemon_out list \<times> ('d, 'h, 'e) daemon" where
  "on_answer P v peer res s = (case jm_get (dm_jobs s) peer of
     None \<Rightarrow> (None, [], s)
   | Some (Replay r) \<Rightarrow> (case answer_replay P v peer res r s of (_, out, s1) \<Rightarrow> (None, out, s1))
   | Some j \<Rightarrow> answer_send P v peer res j s)"


section \<open>Pre-key maintenance\<close>

definition LOW_ONE_TIME_PREKEY_THRESHOLD :: nat where "LOW_ONE_TIME_PREKEY_THRESHOLD = 4"
definition STALE_SIGNED_PREKEY_AGE_MS :: int where "STALE_SIGNED_PREKEY_AGE_MS = 14 * 24 * 60 * 60 * 1000"

record maintenance_result =
  mr_action :: maintenance_action
  mr_deviceId :: string
  mr_oneTimePreKeysRemainingBefore :: nat
  mr_signedPreKeyAgeMsBefore :: int

definition daemon_resupply :: "device_draws \<Rightarrow> msec \<Rightarrow> local_device \<Rightarrow> e2e_config \<Rightarrow> e2e_error + e2e_config" where
  "daemon_resupply dd now d cfg = and_then (buildOneTimePreKeys (dd_oneTime dd) (max (length (filter unclaimed (ld_oneTimePreKeys d))) 16) now) (\<lambda>ks.
     Inr (cfg\<lparr>ec_devices := jm_set (ec_currentDeviceId cfg) (d\<lparr>ld_oneTimePreKeys := ks, ld_lastResupplyAt := now\<rparr>) (ec_devices cfg)\<rparr>))"

definition maintainCurrentDevicePreKeyHealth :: "agent_keys \<Rightarrow> daemon_env \<Rightarrow> e2e_config \<Rightarrow> e2e_error + maintenance_result \<times> e2e_config" where
  "maintainCurrentDevicePreKeyHealth a v cfg = (if \<not> sv_stored (dv_step v) then Inl (dv_storeError v) else
     case jm_get (ec_devices cfg) (ec_currentDeviceId cfg) of
       None \<Rightarrow> Inl (JsError (''Missing current E2E device state for '' @ ec_currentDeviceId cfg))
     | Some d \<Rightarrow>
        (let now = sv_now (dv_step v); remaining = length (filter unclaimed (ld_oneTimePreKeys d)); age = max (now - sp_createdAt (ld_signedPreKey d)) 0;
             result = (\<lambda>act. \<lparr>mr_action = act, mr_deviceId = ec_currentDeviceId cfg, mr_oneTimePreKeysRemainingBefore = remaining, mr_signedPreKeyAgeMsBefore = age\<rparr>)
         in if age \<ge> STALE_SIGNED_PREKEY_AGE_MS
            then and_then (rotateLocalDeviceSignedPreKey (ak_crypto a) (dv_keyDraws v) (ak_signKey a) \<lparr>do_deviceId = None, do_signedPreKeyId = None,
              do_oneTimePreKeyCount = None\<rparr> now (ec_currentDeviceId cfg) cfg) (\<lambda>cfg'. Inr (result RotateSignedKey, cfg'))
            else if remaining \<le> LOW_ONE_TIME_PREKEY_THRESHOLD
            then and_then (daemon_resupply (dv_keyDraws v) now d cfg) (\<lambda>cfg'. Inr (result ResupplyKeys, cfg'))
            else Inr (result NoAction, cfg)))"

record maintenance_execution =
  mx_checkedAt :: msec
  mx_maintenance :: maintenance_result
  mx_republished :: bool
  mx_republishError :: "string option"

definition recordPreKeyMaintenanceResult :: "maintenance_execution \<Rightarrow> maintenance_status \<Rightarrow> maintenance_status" where
  "recordPreKeyMaintenanceResult x st = \<lparr>pm_lastCheckedAt = Some (mx_checkedAt x), pm_lastAction = Some (mr_action (mx_maintenance x)),
     pm_lastChangedAt = (if mr_action (mx_maintenance x) = NoAction then pm_lastChangedAt st else Some (mx_checkedAt x)),
     pm_lastRepublishedAt = (if mx_republished x then Some (mx_checkedAt x) else pm_lastRepublishedAt st), pm_lastError = mx_republishError x\<rparr>"

definition recordPreKeyMaintenanceFailure :: "msec \<Rightarrow> e2e_error \<Rightarrow> maintenance_status \<Rightarrow> maintenance_status" where
  "recordPreKeyMaintenanceFailure now err st = st\<lparr>pm_lastCheckedAt := Some now, pm_lastError := Some (message_of err)\<rparr>"

text \<open>\<open>publish\<close> is what publishing the discovery state gives, or \<open>None\<close> when the card is not published or there is no relay client.\<close>

definition executePreKeyMaintenanceCycle :: "('d, 'h, 'e) daemon_platform \<Rightarrow> daemon_env \<Rightarrow> bool \<Rightarrow> (e2e_error + unit) option \<Rightarrow> ('d, 'h, 'e) daemon
    \<Rightarrow> (e2e_error + maintenance_execution) \<times> ('d, 'h, 'e) daemon" where
  "executePreKeyMaintenanceCycle P v republish publish s = (let now = sv_now (dv_step v) in
     case maintainCurrentDevicePreKeyHealth (dp_keys P) v (dm_config s) of
       Inl err \<Rightarrow> (Inl err, s\<lparr>dm_maintenance := recordPreKeyMaintenanceFailure now err (dm_maintenance s)\<rparr>)
     | Inr (m, cfg) \<Rightarrow>
        (let tried = (if republish \<and> mr_action m \<noteq> NoAction then publish else None);
             x = \<lparr>mx_checkedAt = now, mx_maintenance = m, mx_republished = (tried = Some (Inr ())),
                  mx_republishError = (case tried of Some (Inl e) \<Rightarrow> Some (message_of e) | _ \<Rightarrow> None)\<rparr>
         in (Inr x, (set_config cfg s)\<lparr>dm_maintenance := recordPreKeyMaintenanceResult x (dm_maintenance s)\<rparr>)))"

record e2e_health =
  hl_available :: bool
  hl_currentDeviceId :: "string option"
  hl_deviceCount :: nat
  hl_sessionCount :: nat
  hl_oneTimePreKeysRemaining :: nat
  hl_signedPreKeyAgeMs :: "int option"

definition buildE2EHealthSummary :: "msec \<Rightarrow> e2e_config option \<Rightarrow> e2e_health" where
  "buildE2EHealthSummary now cfg =
     (let none = \<lparr>hl_available = False, hl_currentDeviceId = None, hl_deviceCount = 0, hl_sessionCount = 0, hl_oneTimePreKeysRemaining = 0,
        hl_signedPreKeyAgeMs = None\<rparr>
      in case cfg of None \<Rightarrow> none
       | Some c \<Rightarrow> if ec_currentDeviceId c = '''' then none
           else (case jm_get (ec_devices c) (ec_currentDeviceId c) of
               None \<Rightarrow> none\<lparr>hl_currentDeviceId := Some (ec_currentDeviceId c), hl_deviceCount := length (ec_devices c)\<rparr>
             | Some d \<Rightarrow> \<lparr>hl_available = True, hl_currentDeviceId = Some (ec_currentDeviceId c), hl_deviceCount = length (ec_devices c),
                 hl_sessionCount = length (ld_sessions d), hl_oneTimePreKeysRemaining = length (filter unclaimed (ld_oneTimePreKeys d)),
                 hl_signedPreKeyAgeMs = Some (now - sp_createdAt (ld_signedPreKey d))\<rparr>))"

section \<open>Recovery by hand\<close>

record reload_result =
  rl_deviceId :: string
  rl_sessionCount :: nat
  rl_maintenance :: maintenance_execution
  rl_cancelledReplayPeers :: nat
  rl_cancelledRetryPeers :: nat
  rl_clearedRecoveringPeers :: nat

definition handleReloadE2E :: "('d, 'h, 'e) daemon_platform \<Rightarrow> daemon_env \<Rightarrow> (e2e_error + unit) option \<Rightarrow> ('d, 'h, 'e) daemon
    \<Rightarrow> (e2e_error + reload_result) \<times> ('d, 'h, 'e) daemon" where
  "handleReloadE2E P v publish s =
     (let ((reps, nots), r1) = clearAllPendingRecovery (dm_recovery s);
          (cleared, r2) = clearAllPeerRecoveryStates r1
      in case executePreKeyMaintenanceCycle P v True publish (s\<lparr>dm_recovery := r2\<rparr>) of
           (Inl e, s1) \<Rightarrow> (Inl e, s1)
         | (Inr x, s1) \<Rightarrow> (Inr \<lparr>rl_deviceId = ec_currentDeviceId (dm_config s1),
             rl_sessionCount = (case jm_get (ec_devices (dm_config s1)) (ec_currentDeviceId (dm_config s1)) of Some d \<Rightarrow> length (ld_sessions d) | None \<Rightarrow> 0),
             rl_maintenance = x, rl_cancelledReplayPeers = reps, rl_cancelledRetryPeers = nots, rl_clearedRecoveringPeers = cleared\<rparr>, s1))"

text \<open>The peers of a request to reset, without blanks and repetitions, each under its lock.\<close>

definition reset_peers :: "string list \<Rightarrow> did list" where
  "reset_peers peers = rev (remdups (rev (filter (\<lambda>p. p \<noteq> '''') (map js_trim peers))))"

fun reset_each :: "agent_keys \<Rightarrow> step_env \<Rightarrow> nat \<Rightarrow> did list \<Rightarrow> recovery \<Rightarrow> (did list \<times> (did \<times> string) list) \<times> message_envelope list \<times> recovery" where
  "reset_each a w n [] r = (([], []), [], r)"
| "reset_each a w n (p # ps) r =
     (let (res, out, r1) = reset_one_peer a w n p r; ((notified, failed), out', r2) = reset_each a w (n + 1) ps r1
      in ((case res of Inr _ \<Rightarrow> (p # notified, failed) | Inl e \<Rightarrow> (notified, (p, message_of e) # failed)), out @ out', r2))"

definition handleE2EResetNotify :: "('d, 'h, 'e) daemon_platform \<Rightarrow> daemon_env \<Rightarrow> string list \<Rightarrow> ('d, 'h, 'e) daemon
    \<Rightarrow> (did list \<times> (did \<times> string) list) \<times> daemon_out list \<times> ('d, 'h, 'e) daemon" where
  "handleE2EResetNotify P v peers s = (let (res, out, r) = reset_each (dp_keys P) (dv_step v) 0 (reset_peers peers) (dm_recovery s)
     in (res, map ToRelay out, s\<lparr>dm_recovery := r\<rparr>))"

section \<open>Inbox and subscriptions\<close>

definition isInboxMessageVisible :: "stored_message \<Rightarrow> did list \<Rightarrow> bool" where
  "isInboxMessageVisible m blocked \<longleftrightarrow> \<not> (sm_direction m = Inbound \<and> me_from (sm_envelope m) \<in> set blocked)"

definition paginateVisibleInboxMessages :: "stored_message list \<Rightarrow> did list \<Rightarrow> int option \<Rightarrow> int option \<Rightarrow> message_page" where
  "paginateVisibleInboxMessages ms blocked limit offset =
     (let l = or_else limit 50; o' = or_else offset 0; visible = filter (\<lambda>m. isInboxMessageVisible m blocked) ms; page = js_slice visible o' (o' + l)
      in \<lparr>mp_messages = page, mp_total = length visible, mp_hasMore = (int (length visible) > o' + int (length page))\<rparr>)"

definition MAX_SAFE_INTEGER :: int where "MAX_SAFE_INTEGER = 9007199254740991"

definition handleInbox :: "('d, 'h, 'e) daemon_platform \<Rightarrow> msec \<Rightarrow> message_filter \<Rightarrow> int option \<Rightarrow> int option \<Rightarrow> ('d, 'h, 'e) daemon \<Rightarrow> message_page" where
  "handleInbox P now f limit offset s = (let db = mq_storage (dm_queue s) in
     paginateVisibleInboxMessages (mp_messages (queryMessages (dp_messages P) (dp_text P) now Inbound f MAX_SAFE_INTEGER 0 db))
       (map bl_did (listBlocked (dp_messages P) db)) limit offset)"

definition handleMessages :: "('d, 'h, 'e) daemon_platform \<Rightarrow> msec \<Rightarrow> int option \<Rightarrow> ('d, 'h, 'e) daemon \<Rightarrow> message_page" where
  "handleMessages P now limit s = getInbox (dp_messages P) (dp_text P) now no_filter (or_else limit 10) 0 (dm_queue s)"

definition handleGetMessage :: "('d, 'h, 'e) daemon_platform \<Rightarrow> string \<Rightarrow> ('d, 'h, 'e) daemon \<Rightarrow> string + stored_message" where
  "handleGetMessage P i s = of_option ''Message not found'' (getMessage (dp_messages P) i None (mq_storage (dm_queue s)))"

definition handleSubscribeInbox :: "nat \<Rightarrow> subscription_filter \<Rightarrow> ('d, 'h, 'e) daemon \<Rightarrow> string \<times> ('d, 'h, 'e) daemon" where
  "handleSubscribeInbox socket f s = (case queue_subscribe f (dm_queue s) of (i, q) \<Rightarrow>
     (i, (with_queue (\<lambda>_. q) s)\<lparr>dm_sockets := jm_set socket ((let ids = or_else (jm_get (dm_sockets s) socket) [] in if i \<in> set ids then ids else ids @ [i])) (dm_sockets s)\<rparr>))"

definition daemon_unsubscribe :: "nat \<Rightarrow> string \<Rightarrow> ('d, 'h, 'e) daemon \<Rightarrow> string + ('d, 'h, 'e) daemon" where
  "daemon_unsubscribe socket i s = (if i = '''' then Inl ''Missing subscriptionId parameter''
     else Inr ((with_queue (queue_unsubscribe i) s)\<lparr>dm_sockets := jm_modify socket (filter (\<lambda>x. x \<noteq> i)) (dm_sockets s)\<rparr>))"

definition cleanupSocketSubscriptions :: "nat \<Rightarrow> ('d, 'h, 'e) daemon \<Rightarrow> ('d, 'h, 'e) daemon" where
  "cleanupSocketSubscriptions socket s = (case jm_get (dm_sockets s) socket of None \<Rightarrow> s
     | Some ids \<Rightarrow> (with_queue (fold queue_unsubscribe ids) s)\<lparr>dm_sockets := jm_del socket (dm_sockets s)\<rparr>)"


section \<open>Requests about the block list, the allow list and trust\<close>

definition handleBlock :: "('d, 'h, 'e) daemon_platform \<Rightarrow> msec \<Rightarrow> did \<Rightarrow> string option \<Rightarrow> ('d, 'h, 'e) daemon \<Rightarrow> ('d, 'h, 'e) daemon" where
  "handleBlock P now d reason = with_guard (blockAgent (dp_messages P) now d (or_else reason ''Blocked by user'') (ak_did (dp_keys P)))"

definition handleUnblock :: "('d, 'h, 'e) daemon_platform \<Rightarrow> msec \<Rightarrow> did \<Rightarrow> bool \<Rightarrow> ('d, 'h, 'e) daemon \<Rightarrow> ('d, 'h, 'e) daemon" where
  "handleUnblock P now d resetTrust s = (let s1 = with_guard (unblockAgent (dp_messages P) now d) s
     in if resetTrust then with_trust (resetInteractionHistory (dp_history P) d) s1 else s1)"

definition handleBlockAgent :: "('d, 'h, 'e) daemon_platform \<Rightarrow> msec \<Rightarrow> did option \<Rightarrow> did option \<Rightarrow> string \<Rightarrow> string option \<Rightarrow> bool \<Rightarrow> ('d, 'h, 'e) daemon
    \<Rightarrow> string + (bool \<times> did) \<times> ('d, 'h, 'e) daemon" where
  "handleBlockAgent P now d target act reason resetTrust s =
     (case given_string (case d of Some x \<Rightarrow> Some x | None \<Rightarrow> target) of
        None \<Rightarrow> Inl ''Missing did parameter''
      | Some x \<Rightarrow> Inr ((act \<noteq> ''unblock'', x), if act = ''unblock'' then handleUnblock P now x resetTrust s else handleBlock P now x reason s))"

datatype allowlist_action = AllowAdd | AllowRemove | AllowList | UnknownAction string

definition handleAllowlist :: "('d, 'h, 'e) daemon_platform \<Rightarrow> msec \<Rightarrow> allowlist_action \<Rightarrow> did \<Rightarrow> string option \<Rightarrow> ('d, 'h, 'e) daemon
    \<Rightarrow> string + allow_entry list \<times> ('d, 'h, 'e) daemon" where
  "handleAllowlist P now act d text s = (case act of
     AllowAdd \<Rightarrow> Inr ([], with_guard (allowAgent (dp_messages P) now d text) s)
   | AllowRemove \<Rightarrow> Inr ([], with_guard (removeFromAllowlist (dp_messages P) d) s)
   | AllowList \<Rightarrow> Inr (listAllowed (dp_messages P) (mq_storage (dm_queue s)), s)
   | UnknownAction a \<Rightarrow> Inl (''Unknown allowlist action: '' @ a))"

definition handleTrustScore :: "('d, 'h, 'e) daemon_platform \<Rightarrow> msec \<Rightarrow> did \<Rightarrow> ('d, 'h, 'e) daemon
    \<Rightarrow> string + (trust_score \<times> endorsement_v1 list) \<times> ('d, 'h, 'e) daemon" where
  "handleTrustScore P now d s = (if d = '''' then Inl ''Missing did parameter''
     else (case getTrustScore (dp_history P) (dp_endorsements P) now d (gd_trust (dm_guard s)) of (score, t) \<Rightarrow>
       Inr ((score, getEndorsementsFor (dp_endorsements P) d (sy_endorsements t)), with_trust (\<lambda>_. t) s)))"

definition handleCreateEndorsement :: "('d, 'h, 'e) daemon_platform \<Rightarrow> msec \<Rightarrow> did \<Rightarrow> rat option \<Rightarrow> string option \<Rightarrow> ('d, 'h, 'e) daemon
    \<Rightarrow> string + endorsement_v1 \<times> ('d, 'h, 'e) daemon" where
  "handleCreateEndorsement P now d score reason s = (let a = dp_keys P in
     if d = '''' \<or> score = None then Inl ''Missing did or score parameter''
     else (case trust_endorse (ak_json a) (dp_endorsements P) now (\<lambda>data. identity_sign (ak_crypto a) data (ak_signKey a)) (ak_did a) d (the score)
            (or_else reason '''') (gd_trust (dm_guard s)) of
         Inl e \<Rightarrow> Inl (message_of e) | Inr (x, t) \<Rightarrow> Inr (x, with_trust (\<lambda>_. t) s)))"

text \<open>What the relay answered to a trust query, narrowed to one endorser and cut to a limit.\<close>

definition handleQueryEndorsements :: "string option \<Rightarrow> int option \<Rightarrow> endorsement list \<Rightarrow> endorsement list \<times> nat" where
  "handleQueryEndorsements createdBy limit es =
     (let found = (case given_string createdBy of Some d \<Rightarrow> filter (\<lambda>e. en_from e = d) es | None \<Rightarrow> es);
          page = (case limit of Some n \<Rightarrow> js_slice found 0 n | None \<Rightarrow> found)
      in (page, length page))"

section \<open>Conversations\<close>

definition session_average :: "stored_message list \<Rightarrow> rat" where
  "session_average ms =
     (let times = List.map_filter (\<lambda>(x, y). if sm_direction x = Inbound \<and> sm_direction y = Outbound
            then Some (getMessageSortTimestamp y - getMessageSortTimestamp x) else None) (zip ms (tl ms))
      in if times \<noteq> [] then sum_list times / of_nat (length times) else 0)"

record session_stats =
  ss_threadId :: string
  ss_peerDid :: did
  ss_messageCount :: int
  ss_inboundCount :: nat
  ss_outboundCount :: nat
  ss_duration :: rat
  ss_avgResponseTime :: rat
  ss_startedAt :: rat
  ss_lastMessageAt :: rat

definition session_messages :: "('d, 'h, 'e) daemon_platform \<Rightarrow> string \<Rightarrow> ('d, 'h, 'e) daemon \<Rightarrow> string + session_meta \<times> stored_message list" where
  "session_messages P t s = (let db = mq_storage (dm_queue s) in
     if t = '''' then Inl ''Missing threadId parameter''
     else and_then (of_option ''Session not found'' (getSession (dp_messages P) t db)) (\<lambda>m.
       Inr (m, mp_messages (queryMessagesByThread (dp_messages P) (dp_text P) t 1000 0 db))))"

definition handleSessionStats :: "('d, 'h, 'e) daemon_platform \<Rightarrow> string \<Rightarrow> ('d, 'h, 'e) daemon \<Rightarrow> string + session_stats" where
  "handleSessionStats P t s = and_then (session_messages P t s) (\<lambda>(m, ms). Inr
     \<lparr>ss_threadId = t, ss_peerDid = se_peerDid m, ss_messageCount = se_messageCount m,
      ss_inboundCount = length (filter (\<lambda>x. sm_direction x = Inbound) ms), ss_outboundCount = length (filter (\<lambda>x. sm_direction x = Outbound) ms),
      ss_duration = se_lastMessageAt m - se_startedAt m, ss_avgResponseTime = session_average ms,
      ss_startedAt = se_startedAt m, ss_lastMessageAt = se_lastMessageAt m\<rparr>)"

text \<open>Any \<open>before\<close> at all skips one message.\<close>

definition handleSessionMessages :: "('d, 'h, 'e) daemon_platform \<Rightarrow> string \<Rightarrow> int option \<Rightarrow> bool \<Rightarrow> ('d, 'h, 'e) daemon \<Rightarrow> message_page" where
  "handleSessionMessages P t limit before s =
     queryMessagesByThread (dp_messages P) (dp_text P) t (or_else limit 50) (if before then 1 else 0) (mq_storage (dm_queue s))"

definition handleSearchSessions :: "('d, 'h, 'e) daemon_platform \<Rightarrow> string \<Rightarrow> int option \<Rightarrow> ('d, 'h, 'e) daemon \<Rightarrow> string + session_meta list \<times> nat" where
  "handleSearchSessions P query limit s = (if query = '''' then Inl ''Missing query parameter''
     else let found = searchSessions (dp_messages P) (dp_text P) query (or_else limit 50) (mq_storage (dm_queue s)) in Inr (found, length found))"

text \<open>The text of an export. \<open>iso\<close> is the date text of the platform and \<open>as_text\<close> its conversion of a value to text.\<close>

record export_text =
  ex_iso :: "rat \<Rightarrow> string"
  ex_as_text :: "json \<Rightarrow> string"
  ex_stringify :: "json \<Rightarrow> string"

definition newline :: string where "newline = [CHR 0x0A]"

definition message_text :: "export_text \<Rightarrow> json \<Rightarrow> string" where
  "message_text X payload =
     (let pick = (\<lambda>k. case json_field payload k of Some v \<Rightarrow> if json_truthy v then Some v else None | None \<Rightarrow> None)
      in case pick ''text'' of Some v \<Rightarrow> ex_as_text X v
         | None \<Rightarrow> (case pick ''message'' of Some v \<Rightarrow> ex_as_text X v | None \<Rightarrow> ex_stringify X payload))"

definition speaker :: "stored_message \<Rightarrow> string" where
  "speaker m = (if sm_direction m = Outbound then ''You'' else me_from (sm_envelope m))"

definition exportToMarkdown :: "export_text \<Rightarrow> session_meta \<Rightarrow> stored_message list \<Rightarrow> string" where
  "exportToMarkdown X m ms = ''# Conversation Thread'' @ newline @ newline @ ''**Thread ID:** '' @ se_threadId m @ newline
     @ ''**Peer:** '' @ se_peerDid m @ newline @ ''**Started:** '' @ ex_iso X (se_startedAt m) @ newline
     @ ''**Last Activity:** '' @ ex_iso X (se_lastMessageAt m) @ newline @ ''**Messages:** '' @ js_show_int (se_messageCount m) @ newline @ newline
     @ ''---'' @ newline @ newline
     @ concat (map (\<lambda>x. ''## '' @ speaker x @ newline @ ''*'' @ ex_iso X (getMessageSortTimestamp x) @ ''*'' @ newline @ newline
         @ message_text X (me_payload (sm_envelope x)) @ newline @ newline) ms)"

definition exportToText :: "export_text \<Rightarrow> session_meta \<Rightarrow> stored_message list \<Rightarrow> string" where
  "exportToText X m ms = ''Conversation Thread'' @ newline @ ''=================='' @ newline @ newline
     @ ''Thread ID: '' @ se_threadId m @ newline @ ''Peer: '' @ se_peerDid m @ newline @ ''Started: '' @ ex_iso X (se_startedAt m) @ newline
     @ ''Last Activity: '' @ ex_iso X (se_lastMessageAt m) @ newline @ ''Messages: '' @ js_show_int (se_messageCount m) @ newline @ newline
     @ ''--------------------------------------------------'' @ newline @ newline
     @ concat (map (\<lambda>x. ''['' @ ex_iso X (getMessageSortTimestamp x) @ ''] '' @ speaker x @ newline
         @ message_text X (me_payload (sm_envelope x)) @ newline @ newline) ms)"


section \<open>The daemon as a whole\<close>

datatype daemon_event =
    Incoming message_envelope
  | SendReq "json option" send_request
  | RelayAnswer did "e2e_error + unit"
  | ReplayTimer did | RunReplay did | NoticeTimer did
  | ResetPeer did
  | Reload "(e2e_error + unit) option"
  | Maintain bool "(e2e_error + unit) option"
  | BlockReq did "string option" | UnblockReq did bool | AllowlistReq allowlist_action did "string option"
  | MarkReadReq string | DeleteReq string | RetryReq string
  | SubscribeReq nat subscription_filter | UnsubscribeReq nat string | SocketClosed nat
  | TrustScoreReq did | EndorseReq did "rat option" "string option"
  | ArchiveReq string | UnarchiveReq string

text \<open>The peer whose lock an event takes.\<close>

definition locks_peer :: "daemon_event \<Rightarrow> did option" where
  "locks_peer ev = (case ev of
     Incoming t \<Rightarrow> if under_peer_lock t then Some (me_from t) else None
   | SendReq _ q \<Rightarrow> Some (sq_to q) | RunReplay p \<Rightarrow> Some p | NoticeTimer p \<Rightarrow> Some p | ResetPeer p \<Rightarrow> Some p | _ \<Rightarrow> None)"

definition locked :: "did \<Rightarrow> ('d, 'h, 'e) daemon \<Rightarrow> bool" where
  "locked p s \<longleftrightarrow> jm_get (dm_jobs s) p \<noteq> None"

definition or_same :: "'s \<Rightarrow> 'x + 'a \<times> 's \<Rightarrow> 's" where
  "or_same s r = (case r of Inl _ \<Rightarrow> s | Inr (_, s') \<Rightarrow> s')"

definition daemon_handle :: "('d, 'h, 'e) daemon_platform \<Rightarrow> daemon_env \<Rightarrow> daemon_event \<Rightarrow> ('d, 'h, 'e) daemon \<Rightarrow> daemon_out list \<times> ('d, 'h, 'e) daemon" where
  "daemon_handle P v ev s = (let now = sv_now (dv_step v); ops = dp_messages P in case ev of
     Incoming t \<Rightarrow> snd (handleIncomingMessage P v t s)
   | SendReq mode q \<Rightarrow> snd (handleSend P v mode q s)
   | RelayAnswer p res \<Rightarrow> snd (on_answer P v p res s)
   | ReplayTimer p \<Rightarrow> ([], replay_timer p s)
   | RunReplay p \<Rightarrow> snd (replayOutboundMessages P v p s)
   | NoticeTimer p \<Rightarrow> snd (sendPeerRetryNotifications P v p s)
   | ResetPeer p \<Rightarrow> (case reset_one_peer (dp_keys P) (dv_step v) 0 p (dm_recovery s) of (_, out, r) \<Rightarrow> (map ToRelay out, s\<lparr>dm_recovery := r\<rparr>))
   | Reload publish \<Rightarrow> ([], snd (handleReloadE2E P v publish s))
   | Maintain republish publish \<Rightarrow> ([], snd (executePreKeyMaintenanceCycle P v republish publish s))
   | BlockReq d reason \<Rightarrow> ([], handleBlock P now d reason s)
   | UnblockReq d resetTrust \<Rightarrow> ([], handleUnblock P now d resetTrust s)
   | AllowlistReq act d text \<Rightarrow> ([], or_same s (handleAllowlist P now act d text s))
   | MarkReadReq i \<Rightarrow> ([], with_queue (markAsRead ops now i) s)
   | DeleteReq i \<Rightarrow> ([], with_queue (queueDelete ops i) s)
   | RetryReq i \<Rightarrow> ([], with_queue (retryMessage ops i) s)
   | SubscribeReq k f \<Rightarrow> ([], snd (handleSubscribeInbox k f s))
   | UnsubscribeReq k i \<Rightarrow> ([], case daemon_unsubscribe k i s of Inl _ \<Rightarrow> s | Inr s' \<Rightarrow> s')
   | SocketClosed k \<Rightarrow> ([], cleanupSocketSubscriptions k s)
   | TrustScoreReq d \<Rightarrow> ([], or_same s (handleTrustScore P now d s))
   | EndorseReq d score reason \<Rightarrow> ([], or_same s (handleCreateEndorsement P now d score reason s))
   | ArchiveReq t \<Rightarrow> ([], with_queue (on_storage (\<lambda>db. case archiveSession ops now t db of Inl _ \<Rightarrow> db | Inr db' \<Rightarrow> db')) s)
   | UnarchiveReq t \<Rightarrow> ([], with_queue (on_storage (\<lambda>db. case unarchiveSession ops t db of Inl _ \<Rightarrow> db | Inr db' \<Rightarrow> db')) s))"

text \<open>An event whose lock is held waits: it happens in a later step.\<close>

definition daemon_step :: "('d, 'h, 'e) daemon_platform \<Rightarrow> daemon_env \<times> daemon_event \<Rightarrow> ('d, 'h, 'e) daemon \<Rightarrow> daemon_out list \<times> ('d, 'h, 'e) daemon" where
  "daemon_step P ve s = (case locks_peer (snd ve) of
     Some p \<Rightarrow> if locked p s then ([], s) else daemon_handle P (fst ve) (snd ve) s
   | None \<Rightarrow> daemon_handle P (fst ve) (snd ve) s)"

text \<open>A run: every event with the state before it, what it puts out, and the state after it.\<close>

fun daemon_trace :: "('d, 'h, 'e) daemon_platform \<Rightarrow> (daemon_env \<times> daemon_event) list \<Rightarrow> ('d, 'h, 'e) daemon
    \<Rightarrow> ((daemon_env \<times> daemon_event) \<times> ('d, 'h, 'e) daemon \<times> daemon_out list \<times> ('d, 'h, 'e) daemon) list" where
  "daemon_trace P [] s = []"
| "daemon_trace P (ve # ves) s = (let (out, s') = daemon_step P ve s in (ve, s, out, s') # daemon_trace P ves s')"

definition daemon_run :: "('d, 'h, 'e) daemon_platform \<Rightarrow> (daemon_env \<times> daemon_event) list \<Rightarrow> ('d, 'h, 'e) daemon \<Rightarrow> ('d, 'h, 'e) daemon" where
  "daemon_run P ves s = fold (\<lambda>ve s. snd (daemon_step P ve s)) ves s"

end
