(* ===== verification/Daemon_Recovery_Props.thy ===== *)
theory Daemon_Recovery_Props
  imports Daemon_Recovery E2E_Agents
begin

text \<open>
  Properties of the recovery: the epochs of a daemon, and the convergence of the handshake in a network of daemons whose
  messages are delivered in any order and any number of times.
\<close>

section \<open>Epochs\<close>

lemma floor_note [simp]: "epoch_floor q (notePeerRecoveryEpoch p e r) = (if q = p then max e (epoch_floor p r) else epoch_floor q r)"
  by (auto simp: notePeerRecoveryEpoch_def epoch_floor_def max_def split: option.splits)

lemma note_fields [simp]:
  "rc_states (notePeerRecoveryEpoch p e r) = rc_states r" "rc_config (notePeerRecoveryEpoch p e r) = rc_config r"
  "rc_replays (notePeerRecoveryEpoch p e r) = rc_replays r" "rc_notices (notePeerRecoveryEpoch p e r) = rc_notices r"
  by (simp_all add: notePeerRecoveryEpoch_def)

lemma next_epoch [simp]:
  "fst (nextPeerRecoveryEpoch now p r) = max (of_int now) (epoch_floor p r + 1)"
  "epoch_floor q (snd (nextPeerRecoveryEpoch now p r)) = (if q = p then max (of_int now) (epoch_floor p r + 1) else epoch_floor q r)"
  "rc_states (snd (nextPeerRecoveryEpoch now p r)) = rc_states r" "rc_config (snd (nextPeerRecoveryEpoch now p r)) = rc_config r"
  by (simp_all add: nextPeerRecoveryEpoch_def Let_def epoch_floor_def)

lemma cancel_fields [simp]:
  "rc_states (snd (clearPendingPeerRecovery p r)) = rc_states r" "rc_floors (snd (clearPendingPeerRecovery p r)) = rc_floors r"
  "rc_config (snd (clearPendingPeerRecovery p r)) = rc_config r"
  by (simp_all add: clearPendingPeerRecovery_def split_def)

lemma cleared_fields [simp]:
  "rc_states (snd (clear_stored_sessions ok p r)) = rc_states r" "rc_floors (snd (clear_stored_sessions ok p r)) = rc_floors r"
  "rc_config (snd (clear_stored_sessions ok p r)) = (if ok then fst (clearPeerSessions (rc_config r) p) else rc_config r)"
  by (simp_all add: clear_stored_sessions_def split_def)

lemma floor_other [simp]:
  "epoch_floor q (r\<lparr>rc_states := x\<rparr>) = epoch_floor q r" "epoch_floor q (snd (clearPendingPeerRecovery p r)) = epoch_floor q r"
  "epoch_floor q (snd (clear_stored_sessions ok p r)) = epoch_floor q r"
  by (simp_all add: epoch_floor_def)

lemma adopt_fields [simp]:
  "rc_states (snd (adopt_epoch ok p e why t r)) = jm_set p \<lparr>pr_epoch = e, pr_startedAt = t, pr_reason = why, pr_awaitingAck = False\<rparr> (rc_states r)"
  "rc_floors (snd (adopt_epoch ok p e why t r)) = rc_floors r"
  "rc_config (snd (adopt_epoch ok p e why t r)) = (if ok then fst (clearPeerSessions (rc_config r) p) else rc_config r)"
  "rd_action (fst (adopt_epoch ok p e why t r)) = AckReset" "pr_epoch (rd_state (fst (adopt_epoch ok p e why t r))) = e"
  "rd_clearAfterSend (fst (adopt_epoch ok p e why t r))" "epoch_floor q (snd (adopt_epoch ok p e why t r)) = epoch_floor q r"
  by (simp_all add: adopt_epoch_def Let_def split_def epoch_floor_def)


lemma clear_config [simp]: "rc_config (snd (clearPeerRecoveryState p e r)) = rc_config r"
  by (simp add: clearPeerRecoveryState_def split: option.split)

lemma clear_states: "jm_get (rc_states (snd (clearPeerRecoveryState p (Some e) r))) q =
   (if q = p \<and> (\<exists>st. jm_get (rc_states r) p = Some st \<and> pr_epoch st = e) then None else jm_get (rc_states r) q)"
  by (auto simp: clearPeerRecoveryState_def split: option.split)





lemma schedule_floor [simp]: "epoch_floor q (schedulePeerReplay p x r) = epoch_floor q r" "epoch_floor q (schedulePeerRetryNotification p y r) = epoch_floor q r"
  by (simp_all add: schedulePeerReplay_def schedulePeerRetryNotification_def epoch_floor_def)













section \<open>A network of daemons\<close>

definition control_receive :: "agent_keys \<Rightarrow> step_env \<Rightarrow> message_envelope \<Rightarrow> recovery \<Rightarrow> message_envelope list \<times> recovery" where
  "control_receive a v e r =
     (if me_protocol e = ''e2e/session-reset'' then on_session_reset a v e r
      else if me_protocol e = ''e2e/session-reset-ack'' then ([], on_reset_ack (sv_now v) e r) else ([], r))"

record daemon_net =
  dn_agents :: "did \<Rightarrow> recovery"
  dn_msgs :: "message_envelope list"

text \<open>A daemon fails to decrypt a message of a peer or is reset by hand; the network delivers one of the messages under way, or
  makes a second copy of it.\<close>

datatype net_op = FailsAt did did step_env | ResetAt did did step_env | DeliverMsg nat step_env | RepeatMsg nat

fun net_step :: "(did \<Rightarrow> agent_keys) \<Rightarrow> net_op \<Rightarrow> daemon_net \<Rightarrow> daemon_net" where
  "net_step K (FailsAt x y v) s = (case on_decrypt_failure (K x) v y (dn_agents s x) of
     (_, out, r) \<Rightarrow> \<lparr>dn_agents = (dn_agents s)(x := r), dn_msgs = dn_msgs s @ out\<rparr>)"
| "net_step K (ResetAt x y v) s = (case reset_one_peer (K x) v 0 y (dn_agents s x) of
     (_, out, r) \<Rightarrow> \<lparr>dn_agents = (dn_agents s)(x := r), dn_msgs = dn_msgs s @ out\<rparr>)"
| "net_step K (DeliverMsg n v) s = (if n < length (dn_msgs s)
     then let e = dn_msgs s ! n
          in case control_receive (K (me_to e)) v e (dn_agents s (me_to e)) of
               (out, r) \<Rightarrow> \<lparr>dn_agents = (dn_agents s)(me_to e := r), dn_msgs = take n (dn_msgs s) @ drop (Suc n) (dn_msgs s) @ out\<rparr>
     else s)"
| "net_step K (RepeatMsg n) s = (if n < length (dn_msgs s) then s\<lparr>dn_msgs := dn_msgs s @ [dn_msgs s ! n]\<rparr> else s)"

definition net_run :: "(did \<Rightarrow> agent_keys) \<Rightarrow> net_op list \<Rightarrow> daemon_net \<Rightarrow> daemon_net" where
  "net_run K ops s = fold (net_step K) ops s"

text \<open>The platform works: transactions succeed, the router accepts, and keys sign.\<close>

fun op_works :: "net_op \<Rightarrow> bool" where
  "op_works (FailsAt x y v) = (sv_stored v \<and> (\<forall>e. sv_accepts v e = Inr ()))"
| "op_works (ResetAt x y v) = (sv_stored v \<and> (\<forall>e. sv_accepts v e = Inr ()))"
| "op_works (DeliverMsg n v) = (sv_stored v \<and> (\<forall>e. sv_accepts v e = Inr ()))"
| "op_works (RepeatMsg n) = True"

definition keys_work :: "(did \<Rightarrow> agent_keys) \<Rightarrow> bool" where
  "keys_work K \<longleftrightarrow> (\<forall>x. ak_did (K x) = x \<and> (\<forall>data. noble_sign (ak_crypto (K x)) data (ak_signKey (K x)) \<noteq> None))"

definition barrier :: "daemon_net \<Rightarrow> did \<Rightarrow> did \<Rightarrow> peer_recovery option" where
  "barrier s x y = jm_get (rc_states (dn_agents s x)) y"

text \<open>No session of the current device of \<open>x\<close> with \<open>y\<close> is left.\<close>

definition sessions_cleared :: "recovery \<Rightarrow> did \<Rightarrow> bool" where
  "sessions_cleared r y \<longleftrightarrow> snd (clearPeerSessions (rc_config r) y) = 0"

text \<open>The messages of the handshake.\<close>

definition is_reset :: "did \<Rightarrow> did \<Rightarrow> rat \<Rightarrow> message_envelope \<Rightarrow> bool" where
  "is_reset x y epoch e \<longleftrightarrow> me_from e = x \<and> me_to e = y \<and> me_protocol e = ''e2e/session-reset'' \<and> payload_number (me_payload e) ''epoch'' = Some epoch"

definition is_ack :: "did \<Rightarrow> did \<Rightarrow> rat \<Rightarrow> message_envelope \<Rightarrow> bool" where
  "is_ack x y epoch e \<longleftrightarrow> me_from e = x \<and> me_to e = y \<and> me_protocol e = ''e2e/session-reset-ack'' \<and> payload_number (me_payload e) ''epoch'' = Some epoch"

lemma control_epoch_number: "payload_number p ''epoch'' = Some x \<Longrightarrow> control_epoch now p = x"
  by (simp add: control_epoch_def or_else_def)

lemma reset_payload_epoch [simp]: "payload_number (reset_payload f t why x ts) ''epoch'' = Some x"
  by (simp add: payload_number_def json_field_def reset_payload_def)

lemma control_made:
  assumes "keys_work K"
  obtains e where "control_envelope (K x) v n y protocol payload = Inr e" "me_from e = x" "me_to e = y" "me_protocol e = protocol" "me_payload e = payload"
proof -
  have d: "ak_did (K x) = x" using assms by (simp add: keys_work_def)
  have "\<exists>sg. identity_sign (ak_crypto (K x)) data (ak_signKey (K x)) = Inr sg" for data
  proof -
    have "noble_sign (ak_crypto (K x)) data (ak_signKey (K x)) \<noteq> None" using assms unfolding keys_work_def by blast
    then show ?thesis by (auto simp: identity_sign_def of_option_def)
  qed
  then obtain sg where sg: "\<And>data. identity_sign (ak_crypto (K x)) data (ak_signKey (K x)) = Inr (sg data)" by metis
  let ?e = "\<lparr>me_id = sv_newId v n, me_from = x, me_to = y, me_type = Message, me_protocol = protocol, me_payload = payload, me_timestamp = of_int (sv_now v),
    me_replyTo = None, me_threadId = None, me_groupId = None\<rparr>"
  have "createEnvelope (sv_newId v n) (of_int (sv_now v)) x y ''message'' protocol payload None None None = Inr ?e"
    by (simp add: createEnvelope_def normalizeEnvelopeType_def given_string_def)
  then have "control_envelope (K x) v n y protocol payload = Inr (unsigned_envelope.extend ?e
      (message_envelope.fields (bytesToHex (sg (encodeCanonicalJson (ak_json (K x)) (JObj (envelope_fields ?e)))))))"
    by (simp add: control_envelope_def make_application_envelope_def d or_else_def signEnvelope_def sg)
  then show thesis by (rule that) (simp_all add: unsigned_envelope.defs message_envelope.defs)
qed

lemma reset_sent:
  assumes "keys_work K" "\<forall>e. sv_accepts v e = Inr ()"
  obtains e where "sendSessionReset (K x) v n y why ep ts = (Inr (), [e])" "is_reset x y ep e"
proof -
  obtain e where "control_envelope (K x) v n y ''e2e/session-reset'' (reset_payload (ak_did (K x)) y why ep ts) = Inr e" "me_from e = x" "me_to e = y"
    "me_protocol e = ''e2e/session-reset''" "me_payload e = reset_payload (ak_did (K x)) y why ep ts"
    using control_made [OF assms(1)] by blast
  with assms(2) show thesis by (intro that [of e]) (simp_all add: sendSessionReset_def send_control_def is_reset_def)
qed

lemma ack_sent:
  assumes "keys_work K" "\<forall>e. sv_accepts v e = Inr ()"
  obtains e where "sendSessionResetAck (K x) v n y ep why ts = (Inr (), [e])" "is_ack x y ep e"
proof -
  obtain e where "control_envelope (K x) v n y ''e2e/session-reset-ack'' (reset_payload (ak_did (K x)) y why ep ts) = Inr e" "me_from e = x" "me_to e = y"
    "me_protocol e = ''e2e/session-reset-ack''" "me_payload e = reset_payload (ak_did (K x)) y why ep ts"
    using control_made [OF assms(1)] by blast
  with assms(2) show thesis by (intro that [of e]) (simp_all add: sendSessionResetAck_def send_control_def is_ack_def)
qed


text \<open>What one step does to a daemon that awaits an acknowledgement wherever it has a barrier.\<close>

lemma filter_all [simp]: "length xs \<le> length (filter P xs) \<longleftrightarrow> (\<forall>x \<in> set xs. P x)"
  by (metis filter_True length_filter_less linorder_not_le order_refl)

definition not_with :: "did \<Rightarrow> string \<times> session \<Rightarrow> bool" where
  "not_with p kv \<longleftrightarrow> \<not> js_startsWith (fst kv) (p @ '':'')"

lemma clear_split: "clearPeerSessions cfg p = (case jm_get (ec_devices cfg) (ec_currentDeviceId cfg) of None \<Rightarrow> (cfg, 0)
    | Some d \<Rightarrow> if list_all (not_with p) (ld_sessions d) then (cfg, 0)
      else (cfg\<lparr>ec_devices := jm_set (ec_currentDeviceId cfg) (d\<lparr>ld_sessions := filter (not_with p) (ld_sessions d)\<rparr>) (ec_devices cfg)\<rparr>,
            length (ld_sessions d) - length (filter (not_with p) (ld_sessions d))))"
  by (simp add: clearPeerSessions_def Let_def not_with_def [abs_def] split_def list_all_iff split: option.split)

lemma cleared_iff: "snd (clearPeerSessions cfg p) = 0 \<longleftrightarrow> (case jm_get (ec_devices cfg) (ec_currentDeviceId cfg) of None \<Rightarrow> True
    | Some d \<Rightarrow> list_all (not_with p) (ld_sessions d))"
  by (simp add: clear_split list_all_iff split: option.split)

lemma cleared_idem: "snd (clearPeerSessions (fst (clearPeerSessions cfg p)) p) = 0"
  unfolding cleared_iff by (auto simp: clear_split list_all_iff split: option.split)

lemma cleared_other:
  assumes "snd (clearPeerSessions cfg q) = 0"
  shows "snd (clearPeerSessions (fst (clearPeerSessions cfg p)) q) = 0"
  using assms unfolding cleared_iff by (auto simp: clear_split list_all_iff split: option.splits)

lemma reset_effect:
  assumes "keys_work K" "\<forall>e. sv_accepts v e = Inr ()" "sv_stored v" "is_reset x y ep e" "\<forall>st. jm_get (rc_states r) x = Some st \<longrightarrow> pr_awaitingAck st"
    "control_receive (K y) v e r = (out, r')"
  shows "(\<exists>st m. jm_get (rc_states r) x = Some st \<and> ep < pr_epoch st \<and> out = [m] \<and> is_reset y x (pr_epoch st) m
        \<and> rc_states r' = rc_states r \<and> rc_config r' = rc_config r)
    \<or> (\<exists>m. out = [m] \<and> is_ack y x ep m \<and> (\<forall>st. jm_get (rc_states r) x = Some st \<longrightarrow> pr_epoch st \<le> ep) \<and> (\<forall>q. jm_get (rc_states r') q = (if q = x then None else jm_get (rc_states r) q))
        \<and> (if \<exists>st. jm_get (rc_states r) x = Some st \<and> pr_epoch st = ep then rc_config r' = rc_config r
           else rc_config r' = fst (clearPeerSessions (rc_config r) x)))"
proof -
  have e: "me_from e = x" "control_epoch (sv_now v) (me_payload e) = ep" "me_protocol e = ''e2e/session-reset''"
    using assms(4) by (simp_all add: is_reset_def control_epoch_number)
  define d where "d = handleRemotePeerRecovery (sv_stored v) x ep (control_reason (me_payload e)) (control_timestamp (sv_now v) (me_payload e)) r"
  have cr: "control_receive (K y) v e r = on_session_reset (K y) v e r" by (simp add: control_receive_def e)
  obtain m1 where m1: "sendSessionReset (K y) v 0 x (pr_reason (rd_state (fst d))) (pr_epoch (rd_state (fst d))) (of_int (sv_now v)) = (Inr (), [m1])"
    "is_reset y x (pr_epoch (rd_state (fst d))) m1" using reset_sent [OF assms(1,2)] by blast
  obtain m2 where m2: "sendSessionResetAck (K y) v 0 x (pr_epoch (rd_state (fst d))) (pr_reason (rd_state (fst d))) (of_int (sv_now v)) = (Inr (), [m2])"
    "is_ack y x (pr_epoch (rd_state (fst d))) m2" using ack_sent [OF assms(1,2)] by blast
  have os: "on_session_reset (K y) v e r = (case rd_action (fst d) of
       ResendReset \<Rightarrow> ([m1], if rd_clearAfterSend (fst d) then snd (clearPeerRecoveryState x (Some (pr_epoch (rd_state (fst d)))) (snd d)) else snd d)
     | AckReset \<Rightarrow> ([m2], if rd_clearAfterSend (fst d) then snd (clearPeerRecoveryState x (Some (pr_epoch (rd_state (fst d)))) (snd d)) else snd d))"
    by (simp add: on_session_reset_def Let_def split_def e d_def [symmetric] m1 m2 split: recovery_action.split)
  show ?thesis
  proof (cases "\<exists>st. jm_get (rc_states r) x = Some st \<and> ep < pr_epoch st")
    case True
    then obtain st where st: "jm_get (rc_states r) x = Some st" "ep < pr_epoch st" by blast
    then have "d = (\<lparr>rd_action = ResendReset, rd_state = st, rd_clearAfterSend = False, rd_cancelled = no_cancelled, rd_clearedCount = 0\<rparr>, notePeerRecoveryEpoch x ep r)"
      using assms(5) by (simp add: d_def handleRemotePeerRecovery_def Let_def)
    with os cr assms(6) m1(2) st show ?thesis by auto
  next
    case False
    have k: "pr_epoch (rd_state (fst d)) = ep" "rd_action (fst d) = AckReset" "rd_clearAfterSend (fst d)"
      "\<forall>q. q \<noteq> x \<longrightarrow> jm_get (rc_states (snd d)) q = jm_get (rc_states r) q" "\<exists>st. jm_get (rc_states (snd d)) x = Some st \<and> pr_epoch st = ep"
      "if \<exists>st. jm_get (rc_states r) x = Some st \<and> pr_epoch st = ep then rc_config (snd d) = rc_config r else rc_config (snd d) = fst (clearPeerSessions (rc_config r) x)"
      using False assms(3) by (auto simp: d_def handleRemotePeerRecovery_def Let_def split: option.split)
    then show ?thesis using False os cr assms(6) m2(2) by (auto simp: clear_states not_less)
  qed
qed

lemma ack_effect:
  assumes "is_ack x y ep e" "control_receive a v e r = (out, r')"
  shows "out = []" "rc_config r' = rc_config r"
    "jm_get (rc_states r') q = (if q = x \<and> (\<exists>st. jm_get (rc_states r) x = Some st \<and> pr_epoch st = ep) then None else jm_get (rc_states r) q)"
proof -
  have "control_epoch (sv_now v) (me_payload e) = ep" "me_from e = x" "me_protocol e = ''e2e/session-reset-ack''"
    using assms(1) by (simp_all add: is_ack_def control_epoch_number)
  with assms(2) show "out = []" "rc_config r' = rc_config r"
    "jm_get (rc_states r') q = (if q = x \<and> (\<exists>st. jm_get (rc_states r) x = Some st \<and> pr_epoch st = ep) then None else jm_get (rc_states r) q)"
    by (auto simp: control_receive_def on_reset_ack_def clear_states)
qed

lemma begin_effect:
  assumes "beginLocalPeerRecovery now True y why t r = (l, r')"
  shows "(lr_state l, lr_started l) = (case jm_get (rc_states r) y of Some st \<Rightarrow> (st, False) | None \<Rightarrow> (lr_state l, True))"
    "jm_get (rc_states r) y \<noteq> None \<Longrightarrow> r' = r"
    "jm_get (rc_states r) y = None \<Longrightarrow> pr_awaitingAck (lr_state l) \<and> rc_states r' = jm_set y (lr_state l) (rc_states r) \<and> rc_config r' = fst (clearPeerSessions (rc_config r) y)"
  using assms by (auto simp: beginLocalPeerRecovery_def Let_def split_def split: option.splits)


definition answered :: "message_envelope list \<Rightarrow> did \<Rightarrow> did \<Rightarrow> rat \<Rightarrow> bool" where
  "answered M x y ep \<longleftrightarrow> (\<exists>e \<in> set M. is_reset x y ep e \<or> is_ack y x ep e \<or> (\<exists>ep' \<ge> ep. is_reset y x ep' e))"

text \<open>The reset of \<open>x\<close> towards \<open>y\<close> has cleared the sessions on both sides, or is still under way.\<close>

definition reset_done :: "daemon_net \<Rightarrow> did \<Rightarrow> did \<Rightarrow> bool" where
  "reset_done s x y \<longleftrightarrow> sessions_cleared (dn_agents s x) y \<and> (sessions_cleared (dn_agents s y) x \<or> (\<exists>e \<in> set (dn_msgs s). \<exists>ep. is_reset x y ep e))"

definition net_ok :: "daemon_net \<Rightarrow> bool" where
  "net_ok s \<longleftrightarrow> (\<forall>e \<in> set (dn_msgs s). \<exists>x y ep. is_reset x y ep e \<or> is_ack x y ep e)
     \<and> (\<forall>x y st. barrier s x y = Some st \<longrightarrow> pr_awaitingAck st \<and> answered (dn_msgs s) x y (pr_epoch st) \<and> reset_done s x y)"

lemma net_ok_barrier:
  assumes "net_ok s" "barrier s x y = Some st"
  shows "pr_awaitingAck st" "answered (dn_msgs s) x y (pr_epoch st)" "reset_done s x y"
  using assms unfolding net_ok_def by blast+

lemma answered_more: "answered M x y ep \<Longrightarrow> set M \<subseteq> set M' \<Longrightarrow> answered M' x y ep"
  by (auto simp: answered_def)

lemma answered_rest:
  assumes "answered M x y ep" "set M \<subseteq> insert e (set M')" "\<not> (is_reset x y ep e \<or> is_ack y x ep e \<or> (\<exists>ep' \<ge> ep. is_reset y x ep' e))"
  shows "answered M' x y ep"
  using assms unfolding answered_def by blast

lemma is_reset_same: "is_reset x y ep e \<Longrightarrow> is_reset x' y' ep' e \<longleftrightarrow> x' = x \<and> y' = y \<and> ep' = ep"
  by (auto simp: is_reset_def)

lemma is_ack_same: "is_ack x y ep e \<Longrightarrow> is_ack x' y' ep' e \<longleftrightarrow> x' = x \<and> y' = y \<and> ep' = ep"
  by (auto simp: is_ack_def)

lemma is_reset_ack: "is_reset x y ep e \<Longrightarrow> \<not> is_ack x' y' ep' e" "is_ack x y ep e \<Longrightarrow> \<not> is_reset x' y' ep' e"
  by (auto simp: is_reset_def is_ack_def)

text \<open>A step that begins a recovery of \<open>z\<close> with \<open>p\<close>, or sends its reset again.\<close>

lemma begin_step:
  assumes "keys_work K" "op_works op" "op = FailsAt z p v \<or> op = ResetAt z p v" "net_ok s"
  shows "\<exists>out. dn_msgs (net_step K op s) = dn_msgs s @ out \<and> (\<forall>x. x \<noteq> z \<longrightarrow> dn_agents (net_step K op s) x = dn_agents s x)
    \<and> (\<forall>e \<in> set out. \<exists>ep. is_reset z p ep e) \<and> (\<forall>q. q \<noteq> p \<longrightarrow> barrier (net_step K op s) z q = barrier s z q)
    \<and> (if barrier s z p = None
       then (\<exists>st. barrier (net_step K op s) z p = Some st \<and> pr_awaitingAck st \<and> (\<exists>e \<in> set out. is_reset z p (pr_epoch st) e))
         \<and> rc_config (dn_agents (net_step K op s) z) = fst (clearPeerSessions (rc_config (dn_agents s z)) p)
       else dn_agents (net_step K op s) = dn_agents s)"
proof -
  have v: "sv_stored v" "\<forall>e. sv_accepts v e = Inr ()" using assms(2,3) by auto
  let ?r = "dn_agents s z"
  obtain why l r' out res where b: "beginLocalPeerRecovery (sv_now v) True p why (of_int (sv_now v)) ?r = (l, r')"
    and n: "net_step K op s = \<lparr>dn_agents = (dn_agents s)(z := r'), dn_msgs = dn_msgs s @ out\<rparr>"
    and o: "\<forall>e \<in> set out. is_reset z p (pr_epoch (lr_state l)) e" "lr_started l \<Longrightarrow> \<exists>e \<in> set out. is_reset z p (pr_epoch (lr_state l)) e"
    using assms(3)
  proof
    assume op: "op = FailsAt z p v"
    obtain l r' where b: "beginLocalPeerRecovery (sv_now v) True p ''decrypt-failed'' (of_int (sv_now v)) ?r = (l, r')" by fastforce
    obtain m where "sendSessionReset (K z) v 0 p (pr_reason (lr_state l)) (pr_epoch (lr_state l)) (of_int (sv_now v)) = (Inr (), [m])" "is_reset z p (pr_epoch (lr_state l)) m"
      using reset_sent [OF assms(1) v(2)] by blast
    with b show thesis by (intro that [OF b, of "if lr_started l then [m] else []"]) (simp_all add: op on_decrypt_failure_def Let_def split_def v)
  next
    assume op: "op = ResetAt z p v"
    obtain l r' where b: "beginLocalPeerRecovery (sv_now v) True p ''manual-reset'' (of_int (sv_now v)) ?r = (l, r')" by fastforce
    obtain m where "sendSessionReset (K z) v 0 p ''manual-reset'' (pr_epoch (lr_state l)) (of_int (sv_now v)) = (Inr (), [m])" "is_reset z p (pr_epoch (lr_state l)) m"
      using reset_sent [OF assms(1) v(2)] by blast
    with b show thesis by (intro that [OF b, of "[m]"]) (simp_all add: op reset_one_peer_def Let_def split_def v)
  qed
  show ?thesis
  proof (cases "jm_get (rc_states ?r) p")
    case None
    then have "lr_started l" "pr_awaitingAck (lr_state l)" "rc_states r' = jm_set p (lr_state l) (rc_states ?r)" "rc_config r' = fst (clearPeerSessions (rc_config ?r) p)"
      using begin_effect [OF b] by auto
    with None n o show ?thesis by (intro exI [of _ out]) (auto simp: barrier_def)
  next
    case (Some st)
    then have "r' = ?r" using begin_effect(2) [OF b] by simp
    then have "dn_agents (net_step K op s) = dn_agents s" using n by simp
    with Some n o show ?thesis by (intro exI [of _ out]) (auto simp: barrier_def)
  qed
qed


text \<open>A delivery of the message \<open>e\<close>, and the three outcomes at its recipient.\<close>

lemma set_taken: "n < length M \<Longrightarrow> set M = insert (M ! n) (set (take n M @ drop (Suc n) M))"
  using id_take_nth_drop [of n M] by (metis list.simps(15) set_append Un_insert_right append_Cons)

lemma deliver_step:
  assumes "keys_work K" "op_works (DeliverMsg n v)" "net_ok s" "n < length (dn_msgs s)"
  obtains (resend) x y ep st m where "is_reset x y ep (dn_msgs s ! n)" "barrier s y x = Some st" "ep < pr_epoch st" "is_reset y x (pr_epoch st) m"
      "dn_msgs (net_step K (DeliverMsg n v) s) = take n (dn_msgs s) @ drop (Suc n) (dn_msgs s) @ [m]"
      "\<And>a b. barrier (net_step K (DeliverMsg n v) s) a b = barrier s a b" "\<And>a. rc_config (dn_agents (net_step K (DeliverMsg n v) s) a) = rc_config (dn_agents s a)"
  | (ack) x y ep m where "is_reset x y ep (dn_msgs s ! n)" "is_ack y x ep m" "\<And>st. barrier s y x = Some st \<Longrightarrow> pr_epoch st \<le> ep"
      "dn_msgs (net_step K (DeliverMsg n v) s) = take n (dn_msgs s) @ drop (Suc n) (dn_msgs s) @ [m]"
      "\<And>a b. barrier (net_step K (DeliverMsg n v) s) a b = (if a = y \<and> b = x then None else barrier s a b)"
      "\<And>a. rc_config (dn_agents (net_step K (DeliverMsg n v) s) a) = (if a = y \<and> \<not> (\<exists>st. barrier s y x = Some st \<and> pr_epoch st = ep)
         then fst (clearPeerSessions (rc_config (dn_agents s y)) x) else rc_config (dn_agents s a))"
  | (settled) x y ep where "is_ack x y ep (dn_msgs s ! n)" "dn_msgs (net_step K (DeliverMsg n v) s) = take n (dn_msgs s) @ drop (Suc n) (dn_msgs s)"
      "\<And>a b. barrier (net_step K (DeliverMsg n v) s) a b = (if a = y \<and> b = x \<and> (\<exists>st. barrier s y x = Some st \<and> pr_epoch st = ep) then None else barrier s a b)"
      "\<And>a. rc_config (dn_agents (net_step K (DeliverMsg n v) s) a) = rc_config (dn_agents s a)"
proof -
  let ?e = "dn_msgs s ! n" and ?s = "net_step K (DeliverMsg n v) s"
  have v: "sv_stored v" "\<forall>e. sv_accepts v e = Inr ()" using assms(2) by simp_all
  obtain out r' where c: "control_receive (K (me_to ?e)) v ?e (dn_agents s (me_to ?e)) = (out, r')" by fastforce
  then have s': "?s = \<lparr>dn_agents = (dn_agents s)(me_to ?e := r'), dn_msgs = take n (dn_msgs s) @ drop (Suc n) (dn_msgs s) @ out\<rparr>"
    using assms(4) by (simp add: Let_def)
  have "?e \<in> set (dn_msgs s)" using assms(4) by simp
  then obtain x y ep where e: "is_reset x y ep ?e \<or> is_ack x y ep ?e" using assms(3) unfolding net_ok_def by blast
  then have y: "me_to ?e = y" by (auto simp: is_reset_def is_ack_def)
  from e show thesis
  proof
    assume r: "is_reset x y ep ?e"
    have w: "\<forall>st. jm_get (rc_states (dn_agents s y)) x = Some st \<longrightarrow> pr_awaitingAck st" using assms(3) by (simp add: net_ok_def barrier_def)
    from reset_effect [OF assms(1) v(2,1) r w c [unfolded y]] show thesis
    proof (elim disjE exE conjE)
      fix st m
      assume "jm_get (rc_states (dn_agents s y)) x = Some st" "ep < pr_epoch st" "out = [m]" "is_reset y x (pr_epoch st) m"
        "rc_states r' = rc_states (dn_agents s y)" "rc_config r' = rc_config (dn_agents s y)"
      then show thesis by (intro resend [OF r, of st m]) (auto simp: s' y barrier_def simp del: net_step.simps)
    next
      fix m
      assume a: "out = [m]" "is_ack y x ep m" "\<forall>st. jm_get (rc_states (dn_agents s y)) x = Some st \<longrightarrow> pr_epoch st \<le> ep" "\<forall>q. jm_get (rc_states r') q = (if q = x then None else jm_get (rc_states (dn_agents s y)) q)"
        "if \<exists>st. jm_get (rc_states (dn_agents s y)) x = Some st \<and> pr_epoch st = ep then rc_config r' = rc_config (dn_agents s y)
         else rc_config r' = fst (clearPeerSessions (rc_config (dn_agents s y)) x)"
      then show thesis by (intro ack [OF r a(2)]) (auto simp: s' y barrier_def simp del: net_step.simps)
    qed
  next
    assume a: "is_ack x y ep ?e"
    from ack_effect [OF a c [unfolded y]] show thesis by (intro settled [OF a]) (auto simp: s' y barrier_def simp del: net_step.simps)
  qed
qed


lemma cleared_after:
  assumes "sessions_cleared r q" "rc_config r' = rc_config r \<or> rc_config r' = fst (clearPeerSessions (rc_config r) p)"
  shows "sessions_cleared r' q"
  using assms cleared_other [of "rc_config r" q p] by (auto simp: sessions_cleared_def)

lemma cleared_mono:
  assumes "keys_work K" "op_works op" "net_ok s" "sessions_cleared (dn_agents s x) y"
  shows "sessions_cleared (dn_agents (net_step K op s) x) y"
proof -
  have fresh: ?thesis if "op = FailsAt z p v \<or> op = ResetAt z p v" for z p v
    using begin_step [OF assms(1,2) that assms(3)] cleared_after [OF assms(4), of "dn_agents (net_step K op s) x" p] assms(4) by (metis (no_types))
  have deliver: ?thesis if op: "op = DeliverMsg n v" "n < length (dn_msgs s)" for n v
    using assms(4) cleared_after [OF assms(4)]
    by (rule_tac deliver_step [OF assms(1) assms(2) [unfolded op(1)] assms(3) op(2)]) (metis op(1))+
  show ?thesis
  proof (cases op)
    case (DeliverMsg n v)
    then show ?thesis using deliver [OF DeliverMsg] assms(4) by (cases "n < length (dn_msgs s)") simp_all
  next
    case (RepeatMsg n)
    then show ?thesis using assms(4) by simp
  qed (use fresh in blast)+
qed

lemma reset_done_mono:
  assumes "keys_work K" "op_works op" "net_ok s" "reset_done s x y"
  shows "reset_done (net_step K op s) x y"
proof -
  have x: "sessions_cleared (dn_agents (net_step K op s) x) y" using cleared_mono [OF assms(1-3)] assms(4) by (simp add: reset_done_def)
  show ?thesis
  proof (cases "sessions_cleared (dn_agents s y) x")
    case True
    then show ?thesis using x cleared_mono [OF assms(1-3)] by (simp add: reset_done_def)
  next
    case False
    then obtain e ep where e: "e \<in> set (dn_msgs s)" "is_reset x y ep e" using assms(4) by (auto simp: reset_done_def)
    have keep: "e \<in> set (dn_msgs (net_step K op s)) \<or> sessions_cleared (dn_agents (net_step K op s) y) x"
    proof (cases op)
      case (FailsAt z p v)
      then show ?thesis using begin_step [OF assms(1,2) _ assms(3), of z p v] e(1) by auto
    next
      case (ResetAt z p v)
      then show ?thesis using begin_step [OF assms(1,2) _ assms(3), of z p v] e(1) by auto
    next
      case (RepeatMsg n)
      then show ?thesis using e(1) by simp
    next
      case (DeliverMsg n v)
      show ?thesis
      proof (cases "n < length (dn_msgs s) \<and> dn_msgs s ! n = e")
        case True
        have "barrier s y x = None" using net_ok_barrier(3) [OF assms(3)] False unfolding reset_done_def by (metis option.exhaust)
        have nl: "n < length (dn_msgs s)" and ne: "is_reset x y ep (dn_msgs s ! n)" using True e(2) by auto
        show ?thesis
        proof (rule deliver_step [OF assms(1) assms(2) [unfolded DeliverMsg] assms(3) nl])
          fix x' y' ep' st
          assume "is_reset x' y' ep' (dn_msgs s ! n)" "barrier s y' x' = Some st"
          with ne \<open>barrier s y x = None\<close> show ?thesis by (simp add: is_reset_same [OF ne])
        next
          fix x' y' ep'
          assume r: "is_reset x' y' ep' (dn_msgs s ! n)"
            and c: "\<And>a. rc_config (dn_agents (net_step K (DeliverMsg n v) s) a) = (if a = y' \<and> \<not> (\<exists>st. barrier s y' x' = Some st \<and> pr_epoch st = ep')
              then fst (clearPeerSessions (rc_config (dn_agents s y')) x') else rc_config (dn_agents s a))"
          have "x' = x" "y' = y" using r by (simp_all add: is_reset_same [OF ne])
          then show ?thesis using c [of y] \<open>barrier s y x = None\<close> cleared_idem by (simp add: DeliverMsg sessions_cleared_def del: net_step.simps)
        qed (use ne in \<open>simp add: is_reset_ack\<close>)
      next
        case False
        then have "n < length (dn_msgs s) \<Longrightarrow> e \<in> set (take n (dn_msgs s) @ drop (Suc n) (dn_msgs s))" using set_taken [of n "dn_msgs s"] e(1) by auto
        then show ?thesis using e(1) by (auto simp: DeliverMsg Let_def split: prod.split)
      qed
    qed
    with x e(2) show ?thesis by (auto simp: reset_done_def)
  qed
qed


lemma net_ok_begin:
  assumes "keys_work K" "op_works op" "op = FailsAt z p v \<or> op = ResetAt z p v" "net_ok s"
  shows "net_ok (net_step K op s) \<and> reset_done (net_step K op s) z p"
proof -
  let ?s = "net_step K op s"
  obtain out where o: "dn_msgs ?s = dn_msgs s @ out" "\<forall>x. x \<noteq> z \<longrightarrow> dn_agents ?s x = dn_agents s x" "\<forall>e \<in> set out. \<exists>ep. is_reset z p ep e"
    "\<forall>q. q \<noteq> p \<longrightarrow> barrier ?s z q = barrier s z q"
    "if barrier s z p = None
       then (\<exists>st. barrier ?s z p = Some st \<and> pr_awaitingAck st \<and> (\<exists>e \<in> set out. is_reset z p (pr_epoch st) e))
         \<and> rc_config (dn_agents ?s z) = fst (clearPeerSessions (rc_config (dn_agents s z)) p)
       else dn_agents ?s = dn_agents s" using begin_step [OF assms] by blast
  have old: "pr_awaitingAck st \<and> answered (dn_msgs ?s) x y (pr_epoch st) \<and> reset_done ?s x y" if "barrier s x y = Some st" for x y st
    using net_ok_barrier [OF assms(4) that] answered_more [of "dn_msgs s" x y "pr_epoch st" "dn_msgs ?s"] o(1) reset_done_mono [OF assms(1,2,4)] by simp
  have new: "(\<exists>st. barrier ?s z p = Some st \<and> pr_awaitingAck st \<and> answered (dn_msgs ?s) z p (pr_epoch st)) \<and> reset_done ?s z p"
  proof (cases "barrier s z p")
    case None
    with o(5) obtain st e where st: "barrier ?s z p = Some st" "pr_awaitingAck st" "e \<in> set out" "is_reset z p (pr_epoch st) e"
      and c: "rc_config (dn_agents ?s z) = fst (clearPeerSessions (rc_config (dn_agents s z)) p)" by auto
    have "sessions_cleared (dn_agents ?s z) p" using c cleared_idem by (simp add: sessions_cleared_def)
    with st o(1) show ?thesis by (auto simp: answered_def reset_done_def)
  next
    case (Some st)
    with o(5) have "barrier ?s z p = Some st" by (simp add: barrier_def)
    with old [OF Some] show ?thesis by blast
  qed
  have "pr_awaitingAck st \<and> answered (dn_msgs ?s) x y (pr_epoch st) \<and> reset_done ?s x y" if b: "barrier ?s x y = Some st" for x y st
  proof (cases "x = z \<and> y = p")
    case True
    with new b show ?thesis by auto
  next
    case False
    then have "barrier s x y = Some st" using b o(2,4) by (cases "x = z") (auto simp: barrier_def)
    then show ?thesis by (rule old)
  qed
  moreover have "\<forall>e \<in> set (dn_msgs ?s). \<exists>x y ep. is_reset x y ep e \<or> is_ack x y ep e" using o(3) assms(4) unfolding o(1) set_append net_ok_def by blast
  ultimately show ?thesis using new unfolding net_ok_def by blast
qed

lemma net_ok_deliver:
  assumes "keys_work K" "op_works (DeliverMsg n v)" "net_ok s" "n < length (dn_msgs s)"
  shows "net_ok (net_step K (DeliverMsg n v) s)"
proof -
  let ?s = "net_step K (DeliverMsg n v) s" and ?e = "dn_msgs s ! n" and ?M = "take n (dn_msgs s) @ drop (Suc n) (dn_msgs s)"
  have sub: "set (dn_msgs s) = insert ?e (set ?M)" using set_taken [OF assms(4)] .
  have form: "\<forall>e \<in> set ?M. \<exists>x y ep. is_reset x y ep e \<or> is_ack x y ep e" using assms(3) sub unfolding net_ok_def by auto
  have ok: "net_ok ?s" if "\<And>x y st. barrier ?s x y = Some st \<Longrightarrow> barrier s x y = Some st \<and> answered (dn_msgs ?s) x y (pr_epoch st)"
    "\<forall>e \<in> set (dn_msgs ?s). \<exists>x y ep. is_reset x y ep e \<or> is_ack x y ep e"
    using that net_ok_barrier [OF assms(3)] reset_done_mono [OF assms(1-3)] unfolding net_ok_def by blast
  have keep: "answered M' x y (pr_epoch st)" if "barrier s x y = Some st" "set ?M \<subseteq> set M'"
    "\<not> (is_reset x y (pr_epoch st) ?e \<or> is_ack y x (pr_epoch st) ?e \<or> (\<exists>ep' \<ge> pr_epoch st. is_reset y x ep' ?e))" for x y st M'
    using answered_more [OF answered_rest [OF net_ok_barrier(2) [OF assms(3) that(1)] _ that(3), of ?M] that(2)] sub by simp
  show ?thesis
  proof (cases rule: deliver_step [OF assms, case_names resend ack settled])
    case (resend x0 y0 ep st0 m)
    have "answered (dn_msgs ?s) x y (pr_epoch st)" if b: "barrier s x y = Some st" for x y st
    proof (cases "x = x0 \<and> y = y0 \<and> pr_epoch st = ep")
      case True
      then show ?thesis using resend(3-5) by (auto simp: answered_def intro: order_less_imp_le)
    next
      case False
      have "\<not> (x0 = y \<and> y0 = x \<and> pr_epoch st \<le> ep)" using resend(2,3) b by auto
      with False show ?thesis
        by (intro keep [OF b]) (auto simp: resend(5) is_reset_same [OF resend(1)] is_reset_ack(1) [OF resend(1)] simp del: net_step.simps)
    qed
    moreover have "\<forall>e \<in> set (dn_msgs ?s). \<exists>x y ep. is_reset x y ep e \<or> is_ack x y ep e" using form resend(4,5) by auto
    ultimately show ?thesis by (intro ok) (auto simp: resend(6) simp del: net_step.simps)
  next
    case (ack x0 y0 ep m)
    have "answered (dn_msgs ?s) x y (pr_epoch st)" if b: "barrier s x y = Some st" "\<not> (x = y0 \<and> y = x0)" for x y st
    proof (cases "x = x0 \<and> y = y0 \<and> pr_epoch st = ep")
      case True
      then show ?thesis using ack(2,4) by (auto simp: answered_def)
    next
      case False
      with b(2) show ?thesis
        by (intro keep [OF b(1)]) (auto simp: ack(4) is_reset_same [OF ack(1)] is_reset_ack(1) [OF ack(1)] simp del: net_step.simps)
    qed
    moreover have "\<forall>e \<in> set (dn_msgs ?s). \<exists>x y ep. is_reset x y ep e \<or> is_ack x y ep e" using form ack(2,4) by auto
    ultimately show ?thesis by (intro ok) (auto simp: ack(5) split: if_splits simp del: net_step.simps)
  next
    case (settled x0 y0 ep)
    have "answered (dn_msgs ?s) x y (pr_epoch st)" if b: "barrier ?s x y = Some st" for x y st
    proof -
      have "barrier s x y = Some st" "\<not> (x = y0 \<and> y = x0 \<and> pr_epoch st = ep)" using b by (auto simp: settled(3) split: if_splits simp del: net_step.simps)
      then show ?thesis
        by (intro keep) (auto simp: settled(2) is_ack_same [OF settled(1)] is_reset_ack(2) [OF settled(1)] simp del: net_step.simps)
    qed
    moreover have "barrier s x y = Some st" if "barrier ?s x y = Some st" for x y st using that by (simp add: settled(3) split: if_splits del: net_step.simps)
    ultimately show ?thesis using form by (intro ok) (auto simp: settled(2) simp del: net_step.simps)
  qed
qed

lemma net_ok_step:
  assumes "keys_work K" "op_works op" "net_ok s"
  shows "net_ok (net_step K op s)"
proof (cases op)
  case (DeliverMsg n v)
  show ?thesis
  proof (cases "n < length (dn_msgs s)")
    case True
    then show ?thesis using net_ok_deliver [OF assms(1) assms(2) [unfolded DeliverMsg] assms(3)] by (simp only: DeliverMsg)
  qed (use assms(3) DeliverMsg in simp)
next
  case (RepeatMsg n)
  have "net_ok (s\<lparr>dn_msgs := dn_msgs s @ [dn_msgs s ! n]\<rparr>)" if "n < length (dn_msgs s)"
  proof -
    have sub: "set (dn_msgs s @ [dn_msgs s ! n]) = set (dn_msgs s)" using that by auto
    then show ?thesis using assms(3) unfolding net_ok_def answered_def reset_done_def barrier_def by simp
  qed
  then show ?thesis using assms(3) by (simp add: RepeatMsg)
qed (use net_ok_begin [OF assms(1,2) _ assms(3)] in blast)+


text \<open>How many messages the delivery of a message can still cause, itself included: an acknowledgement causes none, a reset an
  acknowledgement, or another reset for each barrier between the two with a higher epoch.\<close>

definition above :: "daemon_net \<Rightarrow> did \<Rightarrow> did \<Rightarrow> rat \<Rightarrow> bool" where
  "above s x y ep \<longleftrightarrow> (\<exists>st. barrier s x y = Some st \<and> ep < pr_epoch st)"

definition weight :: "daemon_net \<Rightarrow> message_envelope \<Rightarrow> nat" where
  "weight s e = (if me_protocol e = ''e2e/session-reset''
     then (let ep = the (payload_number (me_payload e) ''epoch'')
           in 2 + of_bool (above s (me_from e) (me_to e) ep) + of_bool (above s (me_to e) (me_from e) ep)) else 1)"

definition net_weight :: "daemon_net \<Rightarrow> nat" where
  "net_weight s = sum_list (map (weight s) (dn_msgs s))"

lemma weight_reset: "is_reset x y ep e \<Longrightarrow> weight s e = 2 + of_bool (above s x y ep) + of_bool (above s y x ep)"
  by (simp add: is_reset_def weight_def)

lemma weight_ack: "is_ack x y ep e \<Longrightarrow> weight s e = 1"
  by (simp add: is_ack_def weight_def)

lemma weight_less:
  assumes "\<And>a b st. barrier s' a b = Some st \<Longrightarrow> barrier s a b = Some st"
  shows "weight s' e \<le> weight s e"
proof -
  have "above s' a b ep \<Longrightarrow> above s a b ep" for a b ep using assms unfolding above_def by blast
  then show ?thesis by (auto simp: weight_def Let_def of_bool_def)
qed

lemma weight_bound: "net_weight s \<le> 4 * length (dn_msgs s)"
proof -
  have w: "weight s e \<le> 4" for e by (simp add: weight_def Let_def of_bool_def)
  have "sum_list (map (weight s) xs) \<le> 4 * length xs" for xs
  proof (induction xs)
    case (Cons e xs)
    then show ?case using w [of e] by simp
  qed simp
  then show ?thesis by (simp add: net_weight_def)
qed

lemma weight_drops:
  assumes "keys_work K" "op_works (DeliverMsg n v)" "net_ok s" "n < length (dn_msgs s)"
  shows "net_weight (net_step K (DeliverMsg n v) s) < net_weight s"
proof -
  let ?s = "net_step K (DeliverMsg n v) s" and ?e = "dn_msgs s ! n" and ?M = "take n (dn_msgs s) @ drop (Suc n) (dn_msgs s)"
  have sum: "net_weight s = weight s ?e + sum_list (map (weight s) ?M)"
    unfolding net_weight_def by (subst id_take_nth_drop [OF assms(4)]) simp
  have less: "sum_list (map (weight ?s) ?M) \<le> sum_list (map (weight s) ?M)" if "\<And>a b st. barrier ?s a b = Some st \<Longrightarrow> barrier s a b = Some st"
    using weight_less [OF that] by (intro sum_list_mono)
  show ?thesis
  proof (cases rule: deliver_step [OF assms, case_names resend ack settled])
    case (resend x y ep st m)
    have "above s x y (pr_epoch st) \<Longrightarrow> above s x y ep" using resend(3) by (auto simp: above_def intro: order_less_trans)
    then have "weight ?s m < weight s ?e"
      using resend(2,3) by (simp add: weight_reset [OF resend(1)] weight_reset [OF resend(4)] above_def resend(6) del: net_step.simps)
    moreover have "net_weight ?s = weight ?s m + sum_list (map (weight ?s) ?M)" unfolding net_weight_def resend(5) by simp
    ultimately show ?thesis using less sum resend(6) by simp
  next
    case (ack x y ep m)
    have "sum_list (map (weight ?s) ?M) \<le> sum_list (map (weight s) ?M)" by (rule less) (simp add: ack(5) split: if_splits del: net_step.simps)
    moreover have "net_weight ?s = 1 + sum_list (map (weight ?s) ?M)" unfolding net_weight_def ack(4) by (simp add: weight_ack [OF ack(2)])
    ultimately show ?thesis using sum weight_reset [OF ack(1), of s] by simp
  next
    case (settled x y ep)
    have "sum_list (map (weight ?s) ?M) \<le> sum_list (map (weight s) ?M)" by (rule less) (simp add: settled(3) split: if_splits del: net_step.simps)
    moreover have "net_weight ?s = sum_list (map (weight ?s) ?M)" unfolding net_weight_def settled(2) by simp
    ultimately show ?thesis using sum weight_ack [OF settled(1), of s] by simp
  qed
qed

text \<open>A run in which the network only delivers messages that are under way.\<close>

fun only_delivers :: "(did \<Rightarrow> agent_keys) \<Rightarrow> net_op list \<Rightarrow> daemon_net \<Rightarrow> bool" where
  "only_delivers K [] s = True"
| "only_delivers K (op # ops) s = ((case op of DeliverMsg n v \<Rightarrow> n < length (dn_msgs s) | _ \<Rightarrow> False) \<and> only_delivers K ops (net_step K op s))"

lemma deliveries_end:
  assumes "keys_work K"
  shows "net_ok s \<Longrightarrow> list_all op_works ops \<Longrightarrow> only_delivers K ops s \<Longrightarrow> length ops \<le> net_weight s"
proof (induction ops arbitrary: s)
  case (Cons op ops)
  then obtain n v where op: "op = DeliverMsg n v" "n < length (dn_msgs s)" by (auto split: net_op.splits)
  have w: "op_works (DeliverMsg n v)" using Cons.prems(2) op(1) by simp
  have "length ops \<le> net_weight (net_step K op s)"
    using Cons.IH [OF net_ok_step [OF assms _ Cons.prems(1)]] Cons.prems(2,3) by simp
  also have "\<dots> < net_weight s" using weight_drops [OF assms w Cons.prems(1) op(2)] by (simp only: op)
  finally show ?case by simp
qed simp

lemma net_run_ok: "keys_work K \<Longrightarrow> net_ok s \<Longrightarrow> list_all op_works ops \<Longrightarrow> net_ok (net_run K ops s)"
  unfolding net_run_def by (induction ops arbitrary: s) (simp_all add: net_ok_step)

lemma run_reset_done: "keys_work K \<Longrightarrow> net_ok s \<Longrightarrow> list_all op_works ops \<Longrightarrow> reset_done s x y \<Longrightarrow> reset_done (net_run K ops s) x y"
  unfolding net_run_def by (induction ops arbitrary: s) (simp_all add: net_ok_step reset_done_mono)

text \<open>The pairs whose recovery was begun.\<close>

fun begun_pair :: "net_op \<Rightarrow> (did \<times> did) list" where
  "begun_pair (FailsAt x y v) = [(x, y)]"
| "begun_pair (ResetAt x y v) = [(x, y)]"
| "begun_pair _ = []"

lemma run_begun:
  assumes "keys_work K"
  shows "net_ok s \<Longrightarrow> list_all op_works ops \<Longrightarrow> (x, y) \<in> set (concat (map begun_pair ops)) \<Longrightarrow> reset_done (net_run K ops s) x y"
proof (induction ops arbitrary: s)
  case (Cons op ops)
  have ok: "net_ok (net_step K op s)" using net_ok_step [OF assms _ Cons.prems(1)] Cons.prems(2) by simp
  have run: "net_run K (op # ops) s = net_run K ops (net_step K op s)" by (simp add: net_run_def)
  show ?case
  proof (cases "(x, y) \<in> set (begun_pair op)")
    case True
    then have "\<exists>v. op = FailsAt x y v \<or> op = ResetAt x y v" by (cases op) auto
    then have "reset_done (net_step K op s) x y" using net_ok_begin [OF assms _ _ Cons.prems(1)] Cons.prems(2) by auto
    then show ?thesis using run_reset_done [OF assms ok] Cons.prems(2) by (simp add: run)
  next
    case False
    then show ?thesis using Cons.IH [OF ok] Cons.prems(2,3) by (simp add: run)
  qed
qed simp

text \<open>C29: The handshake of a recovery converges. In any network of daemons, whoever fails to decrypt or resets whom, in whatever order
  and how often the messages are delivered: at most four deliveries per message under way remain, and when none is under way no
  daemon has a barrier, and of every pair that reset, both sides have dropped their sessions with each other. (Routers
  accept, transactions succeed, and nothing is lost.)\<close>

theorem recovery_converges:
  assumes "keys_work K" "list_all op_works ops" "list_all op_works later" "\<forall>x. rc_states (dn_agents start x) = []" "dn_msgs start = []"
    "s = net_run K ops start" "only_delivers K later s"
  shows "length later \<le> 4 * length (dn_msgs s)
    \<and> (dn_msgs (net_run K later s) = [] \<longrightarrow> (\<forall>x y. barrier (net_run K later s) x y = None)
        \<and> list_all (\<lambda>(x, y). sessions_cleared (dn_agents (net_run K later s) x) y \<and> sessions_cleared (dn_agents (net_run K later s) y) x)
            (concat (map begun_pair ops)))"
proof -
  have "net_ok start" using assms(4,5) by (simp add: net_ok_def barrier_def)
  then have ok: "net_ok s" using net_run_ok [OF assms(1) _ assms(2)] by (simp add: assms(6))
  let ?t = "net_run K later s"
  have ok': "net_ok ?t" using net_run_ok [OF assms(1) ok assms(3)] .
  have "barrier ?t x y = None" if "dn_msgs ?t = []" for x y
    using net_ok_barrier(2) [OF ok', of x y] that by (cases "barrier ?t x y") (simp_all add: answered_def)
  moreover have "reset_done ?t x y" if "(x, y) \<in> set (concat (map begun_pair ops))" for x y
    using run_reset_done [OF assms(1) ok assms(3)] run_begun [OF assms(1) \<open>net_ok start\<close> assms(2) that] by (simp add: assms(6))
  ultimately show ?thesis
    using deliveries_end [OF assms(1) ok assms(3,7)] weight_bound [of s] unfolding list_all_iff reset_done_def by fastforce
qed


definition plain_keys :: "did \<Rightarrow> agent_keys" where
  "plain_keys x = \<lparr>ak_crypto = toy_crypto, ak_json = \<lparr>json_encode = (\<lambda>_. []), json_decode = (\<lambda>_. None)\<rparr>, ak_did = x, ak_signKey = []\<rparr>"

definition at_time :: "msec \<Rightarrow> step_env" where
  "at_time t = \<lparr>sv_now = t, sv_newId = (\<lambda>_. ''i''), sv_stored = True, sv_accepts = (\<lambda>_. Inr ())\<rparr>"

definition quiet_net :: daemon_net where
  "quiet_net = \<lparr>dn_agents = (\<lambda>x. new_recovery \<lparr>ec_currentDeviceId = ''dev'', ec_devices = []\<rparr>), dn_msgs = []\<rparr>"

text \<open>Both sides fail to decrypt at once, and their resets cross.\<close>

definition crossing :: "net_op list" where
  "crossing = [FailsAt ''did:agent:a'' ''did:agent:b'' (at_time 5), FailsAt ''did:agent:b'' ''did:agent:a'' (at_time 7)]"

definition deliver_first :: net_op where "deliver_first = DeliverMsg 0 (at_time 9)"

definition control_of :: "did \<Rightarrow> did \<Rightarrow> string \<Rightarrow> msec \<Rightarrow> rat \<Rightarrow> rat \<Rightarrow> message_envelope" where
  "control_of x y protocol now ep ts = \<lparr>me_id = ''i'', me_from = x, me_to = y, me_type = Message, me_protocol = protocol,
     me_payload = reset_payload x y ''decrypt-failed'' ep ts, me_timestamp = of_int now, me_replyTo = None, me_threadId = None, me_groupId = None, me_signature = []\<rparr>"

lemma plain_sends [simp]:
  "sendSessionReset (plain_keys x) (at_time t) n y ''decrypt-failed'' ep ts = (Inr (), [control_of x y ''e2e/session-reset'' t ep ts])"
  "sendSessionResetAck (plain_keys x) (at_time t) n y ep ''decrypt-failed'' ts = (Inr (), [control_of x y ''e2e/session-reset-ack'' t ep ts])"
  by (simp_all add: sendSessionReset_def sendSessionResetAck_def send_control_def control_envelope_def make_application_envelope_def createEnvelope_def
      normalizeEnvelopeType_def given_string_def or_else_def signEnvelope_def identity_sign_def plain_keys_def at_time_def toy_crypto_def control_of_def
      encodeCanonicalJson_def bytesToHex_def rethrow_messaging_def unsigned_envelope.defs message_envelope.defs)

lemma control_fields [simp]:
  "me_from (control_of x y p now ep ts) = x" "me_to (control_of x y p now ep ts) = y" "me_protocol (control_of x y p now ep ts) = p"
  "control_epoch t (me_payload (control_of x y p now ep ts)) = ep" "control_timestamp t (me_payload (control_of x y p now ep ts)) = ts"
  "control_reason (me_payload (control_of x y p now ep ts)) = ''decrypt-failed''"
  by (simp_all add: control_of_def control_epoch_def control_timestamp_def control_reason_def reset_payload_def payload_number_def payload_string_def
      json_field_def or_else_def)

lemmas replay_defs = net_run_def crossing_def deliver_first_def quiet_net_def new_recovery_def control_receive_def on_decrypt_failure_def on_session_reset_def
  on_reset_ack_def handleRemotePeerRecovery_def adopt_epoch_def beginLocalPeerRecovery_def nextPeerRecoveryEpoch_def notePeerRecoveryEpoch_def
  clearPeerRecoveryState_def clearPendingPeerRecovery_def clearPendingPeerBatch_def clear_stored_sessions_def clearPeerSessions_def epoch_floor_def Let_def

lemma crossing_end:
  "only_delivers plain_keys (replicate 5 deliver_first) (net_run plain_keys crossing quiet_net)"
  "dn_msgs (net_run plain_keys (replicate 5 deliver_first) (net_run plain_keys crossing quiet_net)) = []"
  by code_simp+

lemma crossing_works:
  "keys_work plain_keys" "list_all op_works crossing" "list_all op_works (replicate 5 deliver_first)" "\<forall>x. rc_states (dn_agents quiet_net x) = []"
  "dn_msgs quiet_net = []"
  by (simp_all add: keys_work_def plain_keys_def toy_crypto_def crossing_def deliver_first_def quiet_net_def new_recovery_def at_time_def numeral_eq_Suc)

theorem recovery_converges_witness:
  "dn_msgs (net_run plain_keys (replicate 5 deliver_first) (net_run plain_keys crossing quiet_net)) = []
   \<and> barrier (net_run plain_keys (replicate 5 deliver_first) (net_run plain_keys crossing quiet_net)) ''did:agent:a'' ''did:agent:b'' = None"
  using recovery_converges [OF crossing_works refl crossing_end(1)] crossing_end(2) by blast





end
