(* ===== verification/Daemon_Props.thy ===== *)
theory Daemon_Props
  imports Daemon Message_Defense_Props Daemon_Recovery_Props E2E_Config_Props
begin

text \<open>
  Properties of the daemon: what its steps do to the queue, the defence and the trust system, that a blocked sender stays out,
  that nothing is sent to a peer behind the barrier, and what the maintenance leaves.
\<close>

section \<open>Steps as operations of the queue, the defence and the trust system\<close>

definition guard_of :: "('d, 'h, 'e) daemon_platform \<Rightarrow> ('d, 'h, 'e) guard_platform" where
  "guard_of P = \<lparr>gp_ops = dp_messages P, gp_hops = dp_history P, gp_eops = dp_endorsements P, gp_text = dp_text P, gp_json = ak_json (dp_keys P),
     gp_config = default_defense\<rparr>"

definition does :: "('d, 'h, 'e) daemon_platform \<Rightarrow> msec \<Rightarrow> (guard_op \<Rightarrow> bool) \<Rightarrow> ('d, 'h, 'e) daemon \<Rightarrow> ('d, 'h, 'e) daemon \<Rightarrow> bool" where
  "does P now W s s' \<longleftrightarrow> (\<exists>ops. list_all W ops \<and> dm_guard s' = snd (guard_run (guard_of P) (map (Pair now) ops) (dm_guard s)))"

lemma does_refl: "dm_guard s' = dm_guard s \<Longrightarrow> does P now W s s'"
  unfolding does_def by (rule exI [of _ "[]"]) simp




lemma guard_frames [simp]:
  "dm_guard (with_recovery f s) = dm_guard s" "dm_guard (set_config cfg s) = dm_guard s" "dm_guard (with_job p j s) = dm_guard s"
  "dm_guard (end_job p s) = dm_guard s" "dm_guard (with_guard g s) = g (dm_guard s)"
  "dm_guard (with_queue h s) = (dm_guard s)\<lparr>gd_queue := h (dm_queue s)\<rparr>" "dm_guard (with_trust k s) = (dm_guard s)\<lparr>gd_trust := k (gd_trust (dm_guard s))\<rparr>"
  by (simp_all add: with_recovery_def set_config_def with_job_def end_job_def with_guard_def with_queue_def with_trust_def dm_queue_def)





















lemma finish_guard [simp]: "dm_guard (finish_replay p n s) = dm_guard s"
  by (simp add: finish_replay_def)








lemma does_cycle: "does P now W s (snd (executePreKeyMaintenanceCycle P v republish publish s))"
  by (rule does_refl) (auto simp: executePreKeyMaintenanceCycle_def Let_def split: sum.split prod.split)

lemma cycle_guard [simp]: "dm_guard (snd (executePreKeyMaintenanceCycle P v republish publish s)) = dm_guard s"
  by (auto simp: executePreKeyMaintenanceCycle_def Let_def split: sum.split prod.split)






section \<open>Blocked senders\<close>












section \<open>Behind the barrier\<close>

text \<open>Envelopes go to the peer of their job.\<close>

lemma device_target_to: "send_to_device c j drs fetch key e rc cfg d = Inr t \<Longrightarrow> me_to (st_outerEnvelope t) = me_to e"
  by (auto simp: send_to_device_def and_then_Inr Let_def signEncryptedTransportEnvelope_def signEnvelope_def
      unsigned_envelope.defs message_envelope.defs split: if_splits)

lemma targets_to: "send_to_devices c j drs fetch key e rc cfg ds = Inr (ts, cfg') \<Longrightarrow> list_all (\<lambda>t. me_to (st_outerEnvelope t) = me_to e) ts"
  by (induction c j drs fetch key e rc cfg ds arbitrary: ts cfg' rule: send_to_devices.induct) (auto simp: and_then_Inr device_target_to)

lemma prepared_to:
  assumes "prepareEncryptedSendsWithoutCommit P v made peer cfg = Inr (e, ts, cfg')"
  shows "made = Inr e" "list_all (\<lambda>t. me_to (st_outerEnvelope t) = me_to e) ts"
  using assms targets_to
  by (auto simp: prepareEncryptedSendsWithoutCommit_def prepareEncryptedSends_def and_then_Inr split: option.splits)

lemma request_to: "request_envelope a w n q = Inr e \<Longrightarrow> me_to e = sq_to q"
  by (auto simp: request_envelope_def make_application_envelope_def and_then_Inr createEnvelope_def signEnvelope_def
      unsigned_envelope.defs message_envelope.defs split: option.splits if_splits)

definition job_for :: "did \<Rightarrow> job \<Rightarrow> bool" where
  "job_for p j \<longleftrightarrow> (case j of EncryptedSend q m e ts \<Rightarrow> sq_to q = p \<and> list_all (\<lambda>t. me_to (st_outerEnvelope t) = p) ts
     | PlainSend q m e \<Rightarrow> sq_to q = p \<and> me_to e = p
     | Replay r \<Rightarrow> list_all (\<lambda>t. me_to (st_outerEnvelope t) = p) (rj_targets r))"

definition goes_to :: "did \<Rightarrow> daemon_out \<Rightarrow> bool" where
  "goes_to p x \<longleftrightarrow> (case x of ToRelay e \<Rightarrow> me_to e = p | ToSocket _ _ _ \<Rightarrow> False)"

definition rec_ok :: "recovery \<Rightarrow> bool" where
  "rec_ok r \<longleftrightarrow> rc_notices r = [] \<and> (\<forall>p. jm_get (rc_states r) p \<noteq> None \<longrightarrow> jm_get (rc_replays r) p = None)"

definition daemon_ok :: "('d, 'h, 'e) daemon \<Rightarrow> bool" where
  "daemon_ok s \<longleftrightarrow> rec_ok (dm_recovery s) \<and> (\<forall>p j. jm_get (dm_jobs s) p = Some j \<longrightarrow> job_for p j)"

lemma cancelled_batches:
  "jm_get (rc_replays (snd (clearPendingPeerRecovery p r))) q = (if q = p then None else jm_get (rc_replays r) q)"
  "rc_notices r = [] \<Longrightarrow> rc_notices (snd (clearPendingPeerRecovery p r)) = []"
  by (auto simp: clearPendingPeerRecovery_def clearPendingPeerBatch_def split: option.split)

lemma stored_batches [simp]:
  "rc_replays (snd (clear_stored_sessions ok p r)) = rc_replays r" "rc_notices (snd (clear_stored_sessions ok p r)) = rc_notices r"
  by (simp_all add: clear_stored_sessions_def split_def)

lemma note_ok: "rec_ok r \<Longrightarrow> rec_ok (notePeerRecoveryEpoch p e r)"
  by (simp add: rec_ok_def)

lemma adopt_ok: "rec_ok r \<Longrightarrow> rec_ok (snd (adopt_epoch ok p e why t r))"
  by (auto simp: rec_ok_def adopt_epoch_def Let_def split_def cancelled_batches)

lemma remote_ok: "rec_ok r \<Longrightarrow> rec_ok (snd (handleRemotePeerRecovery ok p e why t r))"
  by (auto simp: handleRemotePeerRecovery_def Let_def note_ok intro!: adopt_ok split: option.split)

lemma clear_ok: "rec_ok r \<Longrightarrow> rec_ok (snd (clearPeerRecoveryState p e r))"
  by (auto simp: clearPeerRecoveryState_def rec_ok_def split: option.split)

lemma begin_ok: "rec_ok r \<Longrightarrow> rec_ok (snd (beginLocalPeerRecovery now ok p why t r))"
  by (auto simp: beginLocalPeerRecovery_def Let_def split_def rec_ok_def cancelled_batches nextPeerRecoveryEpoch_def split: option.split)

lemma reset_ok: "rec_ok r \<Longrightarrow> rec_ok (snd (on_session_reset a w t r))"
proof -
  assume r: "rec_ok r"
  let ?r1 = "snd (handleRemotePeerRecovery (sv_stored w) (me_from t) (control_epoch (sv_now w) (me_payload t)) (control_reason (me_payload t))
    (control_timestamp (sv_now w) (me_payload t)) r)"
  have "snd (on_session_reset a w t r) = ?r1 \<or> (\<exists>x. snd (on_session_reset a w t r) = snd (clearPeerRecoveryState (me_from t) x ?r1))"
    by (auto simp: on_session_reset_def Let_def split_def split: sum.split)
  then show ?thesis using remote_ok [OF r] clear_ok by auto
qed

lemma retry_ok: "rec_ok r \<Longrightarrow> rec_ok (on_session_retry now t r)"
  by (auto simp: on_session_retry_def Let_def rec_ok_def schedulePeerReplay_def schedule_item_def split: option.split)

lemma finish_batches: "jm_get bs p = None \<Longrightarrow> jm_get (flush_finish n q bs) p = None"
  by (auto simp: flush_finish_def Let_def split: option.split)

lemma start_batches: "jm_get bs p = None \<Longrightarrow> flush_start f q bs = (x, bs') \<Longrightarrow> jm_get bs' p = None"
  by (auto simp: flush_start_def Let_def split: option.splits if_splits)

lemma fold_note_fields:
  "rc_states (fold (\<lambda>(p, st). notePeerRecoveryEpoch p (pr_epoch st)) xs r) = rc_states r \<and>
   rc_replays (fold (\<lambda>(p, st). notePeerRecoveryEpoch p (pr_epoch st)) xs r) = rc_replays r \<and>
   rc_notices (fold (\<lambda>(p, st). notePeerRecoveryEpoch p (pr_epoch st)) xs r) = rc_notices r"
  by (induction xs arbitrary: r) auto

lemma reload_ok: "rec_ok (snd (clearAllPeerRecoveryStates (snd (clearAllPendingRecovery r))))"
  using fold_note_fields [of "rc_states r" "snd (clearAllPendingRecovery r)"] by (simp add: clearAllPeerRecoveryStates_def clearAllPendingRecovery_def rec_ok_def)

lemma rec_frames [simp]:
  "dm_recovery (with_queue h s) = dm_recovery s" "dm_recovery (with_guard g s) = dm_recovery s" "dm_recovery (with_trust k s) = dm_recovery s"
  "dm_recovery (with_job p j s) = dm_recovery s" "dm_recovery (end_job p s) = dm_recovery s" "dm_recovery (with_recovery f s) = f (dm_recovery s)"
  "dm_recovery (set_config cfg s) = (dm_recovery s)\<lparr>rc_config := cfg\<rparr>" "dm_recovery (record_delivery P i d s) = dm_recovery s"
  "dm_recovery (record_retry P i rr s) = dm_recovery s"
  by (simp_all add: with_recovery_def set_config_def with_job_def end_job_def with_guard_def with_queue_def with_trust_def record_delivery_def record_retry_def)

lemma job_frames [simp]:
  "dm_jobs (with_queue h s) = dm_jobs s" "dm_jobs (with_guard g s) = dm_jobs s" "dm_jobs (with_trust k s) = dm_jobs s"
  "dm_jobs (with_job p j s) = jm_set p j (dm_jobs s)" "dm_jobs (end_job p s) = jm_del p (dm_jobs s)" "dm_jobs (with_recovery f s) = dm_jobs s"
  "dm_jobs (set_config cfg s) = dm_jobs s" "dm_jobs (record_delivery P i d s) = dm_jobs s" "dm_jobs (record_retry P i rr s) = dm_jobs s"
  by (simp_all add: with_recovery_def set_config_def with_job_def end_job_def with_guard_def with_queue_def with_trust_def record_delivery_def record_retry_def)

lemma flush_frames [simp]:
  "dm_flushes (with_queue h s) = dm_flushes s" "dm_flushes (with_guard g s) = dm_flushes s" "dm_flushes (with_trust k s) = dm_flushes s"
  "dm_flushes (with_job p j s) = dm_flushes s" "dm_flushes (end_job p s) = dm_flushes s" "dm_flushes (with_recovery f s) = dm_flushes s"
  "dm_flushes (set_config cfg s) = dm_flushes s" "dm_flushes (record_delivery P i d s) = dm_flushes s" "dm_flushes (record_retry P i rr s) = dm_flushes s"
  by (simp_all add: with_recovery_def set_config_def with_job_def end_job_def with_guard_def with_queue_def with_trust_def record_delivery_def record_retry_def)

lemma rec_ok_config [simp]: "rec_ok (r\<lparr>rc_config := cfg\<rparr>) = rec_ok r"
  by (simp add: rec_ok_def)


text \<open>What a send or a replay to \<open>q\<close> does: it leaves the barriers and the jobs of other peers alone, and sends to \<open>q\<close> only.\<close>

definition send_like :: "did \<Rightarrow> daemon_out list \<Rightarrow> ('d, 'h, 'e) daemon \<Rightarrow> ('d, 'h, 'e) daemon \<Rightarrow> bool" where
  "send_like q out s s' \<longleftrightarrow> rc_states (dm_recovery s') = rc_states (dm_recovery s) \<and> rc_notices (dm_recovery s') = rc_notices (dm_recovery s)
     \<and> (\<forall>p. jm_get (rc_replays (dm_recovery s)) p = None \<longrightarrow> jm_get (rc_replays (dm_recovery s')) p = None)
     \<and> (\<forall>p. p \<noteq> q \<longrightarrow> jm_get (dm_jobs s') p = jm_get (dm_jobs s) p)
     \<and> (\<forall>j. jm_get (dm_jobs s') q = Some j \<longrightarrow> job_for q j)
     \<and> (\<forall>x \<in> set out. \<forall>p. goes_to p x \<longrightarrow> p = q) \<and> set (dm_flushes s') \<subseteq> set (dm_flushes s)"

lemma send_like_trans: "send_like q out s s1 \<Longrightarrow> send_like q out' s1 s2 \<Longrightarrow> send_like q out' s s2"
  unfolding send_like_def by (elim conjE) (intro conjI; simp)

lemma send_like_frame:
  assumes "rc_states (dm_recovery s') = rc_states (dm_recovery s)" "rc_notices (dm_recovery s') = rc_notices (dm_recovery s)"
    "rc_replays (dm_recovery s') = rc_replays (dm_recovery s)" "dm_jobs s' = dm_jobs s" "dm_flushes s' = dm_flushes s"
    "\<forall>j. jm_get (dm_jobs s) q = Some j \<longrightarrow> job_for q j"
  shows "send_like q [] s s'"
  using assms by (simp add: send_like_def)

lemma send_like_ends: "send_like q [] s (end_job q s)"
  by (simp add: send_like_def)

lemma proceed_like:
  assumes "job_for q j" "\<forall>j. jm_get (dm_jobs s) q = Some j \<longrightarrow> job_for q j"
  shows "send_like q (fst (snd (proceed_send P q j s))) s (snd (snd (proceed_send P q j s)))"
proof (cases j)
  case (EncryptedSend r m e ts)
  show ?thesis
  proof (cases ts)
    case (Cons t ts')
    with assms(1) have "me_to (st_outerEnvelope t) = q" by (simp add: EncryptedSend job_for_def)
    with assms(1) show ?thesis by (simp add: proceed_send_def send_like_def EncryptedSend Cons goes_to_def)
  qed (simp add: proceed_send_def send_like_def EncryptedSend)
next
  case (PlainSend r m e)
  with assms(1) have "me_to e = q" by (simp add: job_for_def)
  with assms(1) show ?thesis by (simp add: proceed_send_def send_like_def PlainSend goes_to_def)
qed (use assms(2) in \<open>simp add: proceed_send_def send_like_frame\<close>)

lemma prepared_request_to:
  "prepareEncryptedSendsWithoutCommit P v (request_envelope a w n r) peer cfg = Inr (e, ts, cfg') \<Longrightarrow> list_all (\<lambda>t. me_to (st_outerEnvelope t) = sq_to r) ts"
  using prepared_to request_to by metis

lemma begun_like:
  assumes "begin_encrypted P v m r s = Inr (j, s1) \<or> begin_plaintext P v m r s = Inr (j, s1)" "\<forall>j. jm_get (dm_jobs s) (sq_to r) = Some j \<longrightarrow> job_for (sq_to r) j"
  shows "send_like (sq_to r) [] s s1" "job_for (sq_to r) j" "\<forall>j. jm_get (dm_jobs s1) (sq_to r) = Some j \<longrightarrow> job_for (sq_to r) j"
proof -
  have "(\<exists>mq. s1 = with_queue mq s) \<and> job_for (sq_to r) j"
    using assms(1) by (auto simp: begin_encrypted_def begin_plaintext_def and_then_Inr job_for_def dest!: prepared_request_to request_to split: if_splits)
  then obtain mq where s1: "s1 = with_queue mq s" and j: "job_for (sq_to r) j" by blast
  show "job_for (sq_to r) j" by (rule j)
  show "send_like (sq_to r) [] s s1" unfolding s1 by (rule send_like_frame) (simp_all add: assms(2))
  show "\<forall>j. jm_get (dm_jobs s1) (sq_to r) = Some j \<longrightarrow> job_for (sq_to r) j" using assms(2) by (simp add: s1)
qed

lemma give_up_like:
  assumes "\<forall>j. jm_get (dm_jobs s) (sq_to r) = Some j \<longrightarrow> job_for (sq_to r) j"
  shows "send_like (sq_to r) (fst (snd (give_up P v m r err s))) s (snd (snd (give_up P v m r err s)))"
proof (cases "canFallbackToPlaintextDelivery m err")
  case True
  show ?thesis
  proof (cases "begin_plaintext P v m r s")
    case (Inr x)
    obtain j s1 where x: "x = (j, s1)" by (cases x)
    note b = begun_like [of P v m r s j s1, OF disjI2 assms, OF Inr [unfolded x]]
    from send_like_trans [OF b(1) proceed_like [OF b(2,3)]] True Inr x show ?thesis by (simp add: give_up_def)
  qed (use True assms in \<open>simp add: give_up_def send_like_frame\<close>)
qed (use assms in \<open>simp add: give_up_def send_like_frame\<close>)

lemma send_like_send:
  assumes "\<forall>j. jm_get (dm_jobs s) (sq_to r) = Some j \<longrightarrow> job_for (sq_to r) j"
  shows "send_like (sq_to r) (fst (snd (handleSend P v mode r s))) s (snd (snd (handleSend P v mode r s)))"
proof (cases "normalizeSendDeliveryMode mode")
  case (Inr m)
  show ?thesis
  proof (cases "peer_state (sq_to r) s")
    case None
    let ?b = "if m = Disabled then begin_plaintext P v m r s else begin_encrypted P v m r s"
    show ?thesis
    proof (cases ?b)
      case (Inl err)
      then have "handleSend P v mode r s = give_up P v m r err s" using Inr None by (simp add: handleSend_def)
      with give_up_like [OF assms] show ?thesis by simp
    next
      case b: (Inr x)
      obtain j s1 where x: "x = (j, s1)" by (cases x)
      have "begin_encrypted P v m r s = Inr (j, s1) \<or> begin_plaintext P v m r s = Inr (j, s1)" using b x by (auto split: if_splits)
      note b' = begun_like [OF this assms]
      have "handleSend P v mode r s = proceed_send P (sq_to r) j s1" using b x Inr None by (simp add: handleSend_def)
      with send_like_trans [OF b'(1) proceed_like [OF b'(2,3)]] show ?thesis by simp
    qed
  qed (use assms Inr in \<open>simp add: handleSend_def send_like_frame\<close>)
qed (use assms in \<open>simp add: handleSend_def send_like_frame\<close>)

lemma committed_frames:
  assumes "and_then res (\<lambda>_. commitAcceptedE2EConfig v cfg s) = Inr s1"
  shows "dm_recovery s1 = (dm_recovery s)\<lparr>rc_config := cfg\<rparr>" "dm_jobs s1 = dm_jobs s" "dm_flushes s1 = dm_flushes s"
  using assms by (auto simp: and_then_Inr commitAcceptedE2EConfig_def split: if_splits)

lemma answer_send_like:
  assumes "jm_get (dm_jobs s) q = Some j" "job_for q j"
  shows "send_like q (fst (snd (answer_send P v q res j s))) s (snd (snd (answer_send P v q res j s)))"
proof (cases j)
  case (EncryptedSend r m e ts)
  note to = assms(2) [unfolded EncryptedSend]
  have r: "sq_to r = q" using to by (simp add: job_for_def)
  show ?thesis
  proof (cases ts)
    case (Cons t ts')
    show ?thesis
    proof (cases "and_then res (\<lambda>_. commitAcceptedE2EConfig v (st_configAfterSend t) s)")
      case (Inl err)
      let ?s1 = "record_delivery P (me_id e) (target_delivery (sv_now (dv_step v)) DlFailed (Some (Some (message_of err))) t) s"
      let ?s2 = "end_job q (with_queue (markOutboundFailed (dp_messages P) (me_id e) (message_of err)) ?s1)"
      have "send_like q [] s ?s2" by (simp add: send_like_def)
      moreover have "send_like q (fst (snd (give_up P v m r err ?s2))) ?s2 (snd (snd (give_up P v m r err ?s2)))"
        using give_up_like [where r = r and s = ?s2, of P v m err] by (simp add: r)
      ultimately have "send_like q (fst (snd (give_up P v m r err ?s2))) s (snd (snd (give_up P v m r err ?s2)))" by (rule send_like_trans)
      with Inl show ?thesis by (simp add: answer_send_def EncryptedSend Cons)
    next
      case (Inr s1)
      let ?s2 = "record_delivery P (me_id e) (target_delivery (sv_now (dv_step v)) DlSent (Some None) t) s1"
      have "send_like q [] s ?s2" using committed_frames [OF Inr] assms by (intro send_like_frame) simp_all
      moreover have "\<forall>j. jm_get (dm_jobs ?s2) q = Some j \<longrightarrow> job_for q j" using committed_frames [OF Inr] assms by simp
      moreover have "job_for q (EncryptedSend r m e ts')" using to Cons by (simp add: job_for_def)
      ultimately have "send_like q (fst (snd (proceed_send P q (EncryptedSend r m e ts') ?s2))) s (snd (snd (proceed_send P q (EncryptedSend r m e ts') ?s2)))"
        using send_like_trans proceed_like by blast
      with Inr show ?thesis by (simp add: answer_send_def EncryptedSend Cons)
    qed
  qed (use assms in \<open>simp add: answer_send_def EncryptedSend send_like_frame\<close>)
next
  case (PlainSend r m e)
  then show ?thesis by (auto simp: answer_send_def send_like_def split: sum.split)
qed (use assms in \<open>simp add: answer_send_def send_like_frame\<close>)

lemma finish_like: "send_like q [] s (finish_replay q n s)"
  by (auto simp: send_like_def finish_replay_def finish_batches)

lemma begin_target_like:
  assumes "list_all (\<lambda>t. me_to (st_outerEnvelope t) = q) (rj_targets r)" "\<forall>j. jm_get (dm_jobs s) q = Some j \<longrightarrow> job_for q j"
  shows "send_like q (fst (snd (begin_target P q r s))) s (snd (snd (begin_target P q r s)))"
  using assms by (auto simp: begin_target_def send_like_def job_for_def goes_to_def split: list.splits)

lemma lookup_to: "lookupOutboundMessageForRecovery P q i s = Some m \<Longrightarrow> me_to (sm_envelope m) = q"
  by (auto simp: lookupOutboundMessageForRecovery_def Let_def split: option.splits if_splits)

lemma requests_like:
  assumes "\<forall>j. jm_get (dm_jobs s) q = Some j \<longrightarrow> job_for q j"
  shows "send_like q (fst (snd (replay_requests P v q n base qs s))) s (snd (snd (replay_requests P v q n base qs s)))"
  using assms
proof (induction qs arbitrary: s)
  case (Cons x qs)
  show ?case
  proof (cases "lookupOutboundMessageForRecovery P q (rq_lookupMessageId x) s")
    case (Some m)
    let ?s1 = "record_retry P (me_id (sm_envelope m)) (retry_record (replay_count m) x None) s"
    have one: "send_like q [] s ?s1" using Cons.prems by (intro send_like_frame) simp_all
    have j1: "\<forall>j. jm_get (dm_jobs ?s1) q = Some j \<longrightarrow> job_for q j" using Cons.prems by simp
    note ih = send_like_trans [OF one Cons.IH [OF j1]]
    show ?thesis
    proof (cases "replay_count m \<ge> MAX_SESSION_REPLAY_ATTEMPTS")
      case False
      show ?thesis
      proof (cases "prepareEncryptedSendsWithoutCommit P v (Inr (sm_envelope m)) (me_to (sm_envelope m)) base")
        case (Inl err)
        with False Some send_like_trans [OF one finish_like] show ?thesis by (simp add: Let_def)
      next
        case (Inr y)
        obtain e ts after where y: "y = (e, ts, after)" by (cases y)
        from prepared_to [OF Inr [unfolded y]] lookup_to [OF Some] have ts: "list_all (\<lambda>t. me_to (st_outerEnvelope t) = q) ts" by auto
        show ?thesis
        proof (cases ts)
          case (Cons t ts')
          let ?r = "\<lparr>rj_message = m, rj_request = x, rj_targets = t # ts', rj_recordedAt = sv_now (dv_step v), rj_after = after, rj_requests = qs, rj_object = n\<rparr>"
          have "send_like q (fst (snd (begin_target P q ?r ?s1))) ?s1 (snd (snd (begin_target P q ?r ?s1)))"
            using ts Cons j1 by (intro begin_target_like) simp_all
          from send_like_trans [OF one this] False Some Inr y Cons show ?thesis by (simp add: Let_def)
        qed (use False Some Inr y ih in \<open>simp add: Let_def\<close>)
      qed
    qed (use Some ih in \<open>simp add: Let_def\<close>)
  qed (use Cons in simp)
qed (simp add: finish_like)

lemma answer_replay_like:
  assumes "jm_get (dm_jobs s) q = Some (Replay r)" "job_for q (Replay r)"
  shows "send_like q (fst (snd (answer_replay P v q res r s))) s (snd (snd (answer_replay P v q res r s)))"
proof (cases "rj_targets r")
  case (Cons t ts)
  let ?now = "sv_now (dv_step v)" and ?i = "me_id (sm_envelope (rj_message r))"
  show ?thesis
  proof (cases "and_then res (\<lambda>_. commitAcceptedE2EConfig v (st_configAfterSend t) s)")
    case (Inl err)
    let ?s1 = "record_delivery P ?i (target_delivery ?now DlFailed (Some (Some (message_of err))) t) s"
    have "send_like q [] s ?s1" using assms by (intro send_like_frame) simp_all
    from send_like_trans [OF this finish_like] Inl show ?thesis by (simp add: answer_replay_def Cons)
  next
    case (Inr s1)
    let ?s2 = "record_delivery P ?i (target_delivery ?now DlSent (Some None) t) s1"
    let ?r = "r\<lparr>rj_targets := ts, rj_recordedAt := ?now\<rparr>"
    let ?s3 = "record_retry P ?i (retry_record (replay_count (rj_message r) + 1) (rj_request r) (Some (of_int (rj_recordedAt r)))) ?s2"
    have one: "send_like q [] s ?s2" "send_like q [] s ?s3" using committed_frames [OF Inr] assms by (auto intro!: send_like_frame)
    have j: "\<forall>j. jm_get (dm_jobs ?s2) q = Some j \<longrightarrow> job_for q j" "\<forall>j. jm_get (dm_jobs ?s3) q = Some j \<longrightarrow> job_for q j"
      using committed_frames [OF Inr] assms by simp_all
    have "send_like q (fst (snd (begin_target P q ?r ?s2))) ?s2 (snd (snd (begin_target P q ?r ?s2)))"
      using assms(2) Cons j(1) by (intro begin_target_like) (simp_all add: job_for_def)
    from send_like_trans [OF one(1) this] send_like_trans [OF one(2) requests_like [OF j(2)]] Inr show ?thesis
      by (simp add: answer_replay_def Cons Let_def)
  qed
qed (use assms in \<open>simp add: answer_replay_def send_like_frame\<close>)

lemma on_answer_like:
  assumes "\<forall>j. jm_get (dm_jobs s) q = Some j \<longrightarrow> job_for q j"
  shows "send_like q (fst (snd (on_answer P v q res s))) s (snd (snd (on_answer P v q res s)))"
proof (cases "jm_get (dm_jobs s) q")
  case (Some j)
  with assms answer_send_like [OF Some] answer_replay_like [of s q] show ?thesis by (cases j) (simp_all add: on_answer_def split_def)
qed (simp add: on_answer_def send_like_frame)

lemma run_replay_like:
  assumes "jm_get (dm_jobs s) q = None"
  shows "send_like q (fst (snd (replayOutboundMessages P v q s))) s (snd (snd (replayOutboundMessages P v q s)))"
proof (cases "List.find (\<lambda>(p, _). p = q) (dm_flushes s)")
  case (Some x)
  obtain p n qs where x: "x = (p, n, qs)" by (cases x)
  let ?s1 = "s\<lparr>dm_flushes := remove1 (p, n, qs) (dm_flushes s)\<rparr>"
  have one: "send_like q [] s ?s1" "send_like q [] s (set_config cfg ?s1)" for cfg using assms set_remove1_subset [of "(p, n, qs)" "dm_flushes s"] by (auto simp: send_like_def)
  have "\<forall>j. jm_get (dm_jobs (set_config cfg ?s1)) q = Some j \<longrightarrow> job_for q j" for cfg using assms by simp
  from send_like_trans [OF one(2) requests_like [OF this]] send_like_trans [OF one(1) finish_like] Some x show ?thesis
    by (simp add: replayOutboundMessages_def Let_def)
qed (use assms in \<open>simp add: replayOutboundMessages_def send_like_frame\<close>)


lemma control_to: "e \<in> set (snd (send_control a w n peer pr pl)) \<Longrightarrow> me_to e = peer"
  by (auto simp: send_control_def control_envelope_def make_application_envelope_def and_then_Inr createEnvelope_def signEnvelope_def
      unsigned_envelope.defs message_envelope.defs split: sum.splits option.splits if_splits)

lemma reset_to:
  "e \<in> set (snd (sendSessionReset a w n peer why ep t)) \<Longrightarrow> me_to e = peer" "e \<in> set (snd (sendSessionResetAck a w n peer ep why t)) \<Longrightarrow> me_to e = peer"
  by (simp_all add: sendSessionReset_def sendSessionResetAck_def control_to)

lemma other_states:
  "p \<noteq> q \<Longrightarrow> jm_get (rc_states (snd (beginLocalPeerRecovery now ok q why t r))) p = jm_get (rc_states r) p"
  "p \<noteq> q \<Longrightarrow> jm_get (rc_states (snd (handleRemotePeerRecovery ok q ep why t r))) p = jm_get (rc_states r) p"
  "p \<noteq> q \<Longrightarrow> jm_get (rc_states (snd (clearPeerRecoveryState q e r))) p = jm_get (rc_states r) p"
  by (auto simp: beginLocalPeerRecovery_def handleRemotePeerRecovery_def clearPeerRecoveryState_def Let_def split_def split: option.split)

lemma failure_recovery:
  assumes "on_decrypt_failure a w q r = (l, sent, r')"
  shows "rec_ok r \<Longrightarrow> rec_ok r'" "p \<noteq> q \<Longrightarrow> jm_get (rc_states r') p = jm_get (rc_states r) p" "\<forall>e \<in> set sent. me_to e = q"
  using assms begin_ok other_states(1) reset_to(1) by (auto simp: on_decrypt_failure_def Let_def split_def split: if_splits)

lemma session_reset_recovery:
  "p \<noteq> me_from t \<Longrightarrow> jm_get (rc_states (snd (on_session_reset a w t r))) p = jm_get (rc_states r) p"
  "e \<in> set (fst (on_session_reset a w t r)) \<Longrightarrow> me_to e = me_from t"
proof -
  let ?r1 = "snd (handleRemotePeerRecovery (sv_stored w) (me_from t) (control_epoch (sv_now w) (me_payload t)) (control_reason (me_payload t))
    (control_timestamp (sv_now w) (me_payload t)) r)"
  have "snd (on_session_reset a w t r) = ?r1 \<or> (\<exists>x. snd (on_session_reset a w t r) = snd (clearPeerRecoveryState (me_from t) x ?r1))"
    by (auto simp: on_session_reset_def Let_def split_def split: sum.split)
  then show "p \<noteq> me_from t \<Longrightarrow> jm_get (rc_states (snd (on_session_reset a w t r))) p = jm_get (rc_states r) p"
    using other_states(2,3) by (auto split: if_splits)
  show "e \<in> set (fst (on_session_reset a w t r)) \<Longrightarrow> me_to e = me_from t"
    by (auto simp: on_session_reset_def Let_def split_def dest: reset_to split: recovery_action.splits)
qed

lemma one_peer_recovery:
  assumes "reset_one_peer a w n q r = (res, sent, r')"
  shows "rec_ok r \<Longrightarrow> rec_ok r'" "p \<noteq> q \<Longrightarrow> jm_get (rc_states r') p = jm_get (rc_states r) p" "\<forall>e \<in> set sent. me_to e = q"
  using assms begin_ok other_states(1) reset_to(1) by (auto simp: reset_one_peer_def Let_def split_def)

lemma retry_states [simp]: "rc_states (on_session_retry now t r) = rc_states r"
  by (simp add: on_session_retry_def Let_def schedulePeerReplay_def split: option.split)

text \<open>The events that can end the barrier of a peer.\<close>

fun wakes :: "did \<Rightarrow> daemon_event \<Rightarrow> bool" where
  "wakes p (Incoming t) = (me_from t = p \<and> me_protocol t \<in> {''e2e/session-reset'', ''e2e/session-reset-ack''})"
| "wakes p (ResetPeer q) = (q = p)"
| "wakes p (Reload _) = True"
| "wakes p _ = False"

definition behind :: "did \<Rightarrow> peer_recovery \<Rightarrow> ('d, 'h, 'e) daemon \<Rightarrow> bool" where
  "behind p st s \<longleftrightarrow> daemon_ok s \<and> peer_state p s = Some st \<and> jm_get (dm_jobs s) p = None \<and> (\<forall>x \<in> set (dm_flushes s). fst x \<noteq> p)"

definition keeps :: "did \<Rightarrow> daemon_out list \<Rightarrow> ('d, 'h, 'e) daemon \<Rightarrow> ('d, 'h, 'e) daemon \<Rightarrow> bool" where
  "keeps p out s s' \<longleftrightarrow> (daemon_ok s \<longrightarrow> daemon_ok s') \<and> (\<forall>st. behind p st s \<longrightarrow> behind p st s' \<and> list_all (\<lambda>x. \<not> goes_to p x) out)"

lemma like_ok:
  assumes "daemon_ok s" "send_like q out s s'" shows "daemon_ok s'"
  unfolding daemon_ok_def rec_ok_def
proof (intro conjI allI impI)
  note l = assms(2) [unfolded send_like_def]
  show "rc_notices (dm_recovery s') = []" using assms(1) l by (simp add: daemon_ok_def rec_ok_def)
  show "jm_get (rc_replays (dm_recovery s')) x = None" if "jm_get (rc_states (dm_recovery s')) x \<noteq> None" for x
    using assms(1) l that by (simp add: daemon_ok_def rec_ok_def)
  show "job_for x j" if "jm_get (dm_jobs s') x = Some j" for x j
    using assms(1) l that by (cases "x = q") (simp_all add: daemon_ok_def)
qed

lemma like_keeps:
  assumes "daemon_ok s \<Longrightarrow> send_like q out s s'" "\<And>st. behind p st s \<Longrightarrow> q = p \<Longrightarrow> s' = s \<and> out = []"
  shows "keeps p out s s'"
  unfolding keeps_def
proof (intro conjI impI allI)
  show "daemon_ok s'" if "daemon_ok s" using like_ok [OF that assms(1) [OF that]] .
  fix st assume b: "behind p st s"
  then have ok: "daemon_ok s" by (simp add: behind_def)
  note l = assms(1) [OF ok]
  show "behind p st s'"
  proof (cases "q = p")
    case False
    then show ?thesis using like_ok [OF ok l] b l by (auto simp: behind_def peer_state_def send_like_def)
  qed (use assms(2) [OF b] b in simp)
  show "list_all (\<lambda>x. \<not> goes_to p x) out"
    using assms(2) [OF b] l by (cases "q = p") (auto simp: list_all_iff send_like_def)
qed

text \<open>An operation that changes only the recovery, and not the barrier of \<open>p\<close>.\<close>

lemma recovery_keeps:
  assumes "rec_ok (dm_recovery s) \<Longrightarrow> rec_ok (dm_recovery s')" "dm_jobs s' = dm_jobs s" "dm_flushes s' = dm_flushes s"
    "\<And>st. peer_state p s = Some st \<Longrightarrow> rec_ok (dm_recovery s) \<Longrightarrow> peer_state p s' = Some st \<and> list_all (\<lambda>x. \<not> goes_to p x) out"
  shows "keeps p out s s'"
  using assms by (auto simp: keeps_def daemon_ok_def behind_def)

lemma frame_keeps:
  assumes "dm_recovery s' = (dm_recovery s)\<lparr>rc_config := cfg\<rparr>" "dm_jobs s' = dm_jobs s" "dm_flushes s' = dm_flushes s" "list_all (\<lambda>x. \<not> goes_to p x) out"
  shows "keeps p out s s'"
  using assms by (intro recovery_keeps) (simp_all add: peer_state_def)

lemma same_keeps: "dm_recovery s' = dm_recovery s \<Longrightarrow> dm_jobs s' = dm_jobs s \<Longrightarrow> dm_flushes s' = dm_flushes s \<Longrightarrow> keeps p [] s s'"
  by (rule frame_keeps [where cfg = "rc_config (dm_recovery s)"]) simp_all


lemma store_inbound_frames:
  "dm_recovery (snd (snd (store_inbound P now e a b d s))) = dm_recovery s \<and> dm_jobs (snd (snd (store_inbound P now e a b d s))) = dm_jobs s
   \<and> dm_flushes (snd (snd (store_inbound P now e a b d s))) = dm_flushes s \<and> list_all (\<lambda>x. \<not> goes_to p x) (fst (snd (store_inbound P now e a b d s)))"
  by (auto simp: store_inbound_def events_for_def goes_to_def list_all_iff split: sum.split)

lemma receive_frames:
  "dm_recovery (snd (snd (receive_message P now t e d s))) = dm_recovery s \<and> dm_jobs (snd (snd (receive_message P now t e d s))) = dm_jobs s
   \<and> dm_flushes (snd (snd (receive_message P now t e d s))) = dm_flushes s \<and> list_all (\<lambda>x. \<not> goes_to p x) (fst (snd (receive_message P now t e d s)))"
proof -
  obtain res g where c: "checkMessage (dp_messages P) (dp_history P) (dp_endorsements P) default_defense now e (isSolicitedReply P e s) (dm_guard s) = (res, g)"
    by fastforce
  let ?s1 = "s\<lparr>dm_guard := g\<rparr>"
  have store: "dm_recovery s2 = dm_recovery x \<and> dm_jobs s2 = dm_jobs x \<and> dm_flushes s2 = dm_flushes x \<and> list_all (\<lambda>x. \<not> goes_to p x) out"
    if "store_inbound P now e a b d x = (err, out, s2)" for a b d x err out s2
    using store_inbound_frames [where P = P and now = now and e = e and a = a and b = b and d = d and s = x and p = p] that by auto
  show ?thesis
  proof (cases "dr_allowed res")
    case True
    obtain err out s2 where st: "store_inbound P now e (dr_trustScore res) (dr_trustStatus res) d ?s1 = (err, out, s2)"
      by (cases "store_inbound P now e (dr_trustScore res) (dr_trustStatus res) d ?s1")
    with True store [OF st] show ?thesis by (cases err) (simp_all add: receive_message_def c)
  next
    case False
    show ?thesis
    proof (cases "dr_reason res = Some Duplicate \<and> d \<noteq> None")
      case True
      then obtain dl where d: "d = Some dl" "dr_reason res = Some Duplicate" by auto
      obtain r q where a: "appendE2EDelivery (dp_messages P) (dp_text P) (me_id e) dl (dm_queue ?s1) = (r, q)" by fastforce
      obtain err out s2 where st: "store_inbound P now e (dr_trustScore res) (dr_trustStatus res) (Some dl) (with_queue (\<lambda>_. q) ?s1) = (err, out, s2)"
        by (cases "store_inbound P now e (dr_trustScore res) (dr_trustStatus res) (Some dl) (with_queue (\<lambda>_. q) ?s1)")
      show ?thesis using False d a st store [OF st] by (cases r) (simp_all add: receive_message_def c)
    next
      case n: False
      then show ?thesis using False by (cases "dr_reason res"; cases d) (auto simp: receive_message_def c refusal_text_def Let_def split: refusal.splits)
    qed
  qed
qed

lemma decrypt_error_keeps: "keeps p (fst (snd (on_decrypt_error P v t err s))) s (snd (snd (on_decrypt_error P v t err s)))" if "peer_state (me_from t) s = None"
proof -
  obtain l sent r where f: "on_decrypt_failure (dp_keys P) (dv_step v) (me_from t) (dm_recovery s) = (l, sent, r)"
    by (cases "on_decrypt_failure (dp_keys P) (dv_step v) (me_from t) (dm_recovery s)")
  let ?s1 = "s\<lparr>dm_recovery := r\<rparr>" and ?x = "on_decrypt_error P v t err s"
  have fr: "dm_recovery (snd (snd ?x)) = r \<and> dm_jobs (snd (snd ?x)) = dm_jobs s \<and> dm_flushes (snd (snd ?x)) = dm_flushes s
      \<and> list_all (\<lambda>x. goes_to p x \<longrightarrow> p = me_from t) (fst (snd ?x))"
  proof (cases "buildLocalDiagnosticEnvelope (dp_keys P) (dv_step v) (me_from t) ''e2e/decrypt-failed'' (decrypt_failed_payload err (pr_epoch (lr_state l)))")
    case (Inr e)
    obtain y out s2 where st: "store_inbound P (sv_now (dv_step v)) e None None None ?s1 = (y, out, s2)"
      by (cases "store_inbound P (sv_now (dv_step v)) e None None None ?s1")
    show ?thesis
      using store_inbound_frames [where P = P and now = "sv_now (dv_step v)" and e = e and a = None and b = None and d = None and s = ?s1 and p = p] st Inr failure_recovery(3) [OF f]
      by (cases y) (auto simp: on_decrypt_error_def f list_all_iff goes_to_def)
  qed (simp add: on_decrypt_error_def f)
  show ?thesis
  proof (rule recovery_keeps)
    fix st assume "peer_state p s = Some st"
    then have "p \<noteq> me_from t" using that by auto
    with fr failure_recovery(2) [OF f] \<open>peer_state p s = Some st\<close> show "peer_state p (snd (snd ?x)) = Some st \<and> list_all (\<lambda>x. \<not> goes_to p x) (fst (snd ?x))"
      by (auto simp: peer_state_def list_all_iff)
  qed (use fr failure_recovery(1) [OF f] in auto)
qed

lemma incoming_keeps:
  "\<not> wakes p (Incoming t) \<Longrightarrow> keeps p (fst (snd (handleIncomingMessage P v t s))) s (snd (snd (handleIncomingMessage P v t s)))"
  "daemon_ok s \<Longrightarrow> daemon_ok (snd (snd (handleIncomingMessage P v t s)))"
proof -
  let ?now = "sv_now (dv_step v)"
  have rm: "keeps p (fst (snd (receive_message P ?now t' e d s'))) s (snd (snd (receive_message P ?now t' e d s')))"
    if "dm_recovery s' = (dm_recovery s)\<lparr>rc_config := cfg\<rparr>" "dm_jobs s' = dm_jobs s" "dm_flushes s' = dm_flushes s" for t' e d s' cfg
    by (rule frame_keeps [where cfg = cfg]) (simp_all add: receive_frames that)
  have e2e: "keeps p (fst (snd (on_e2e_transport P v t s))) s (snd (snd (on_e2e_transport P v t s)))"
    using decrypt_error_keeps [of t s] rm [of "set_config _ s"] by (auto simp: on_e2e_transport_def same_keeps split: sum.split)
  have plain: "keeps p (fst (snd (receive_message P ?now t t None s))) s (snd (snd (receive_message P ?now t t None s)))"
    by (rule rm [of s "rc_config (dm_recovery s)"]) simp_all
  obtain sent r where sr: "on_session_reset (dp_keys P) (dv_step v) t (dm_recovery s) = (sent, r)" by fastforce
  have ro: "rec_ok (dm_recovery s) \<Longrightarrow> rec_ok r" using reset_ok [of "dm_recovery s" "dp_keys P" "dv_step v" t] sr by simp
  show "keeps p (fst (snd (handleIncomingMessage P v t s))) s (snd (snd (handleIncomingMessage P v t s)))" if "\<not> wakes p (Incoming t)"
  proof -
    have reset: "keeps p (map ToRelay sent) s (s\<lparr>dm_recovery := r\<rparr>)" if "p \<noteq> me_from t"
      using session_reset_recovery(1) [of p t "dp_keys P" "dv_step v" "dm_recovery s"] session_reset_recovery(2) [of _ "dp_keys P" "dv_step v" t "dm_recovery s"] sr that ro
      by (intro recovery_keeps) (auto simp: peer_state_def list_all_iff goes_to_def)
    have ack: "keeps p [] s (with_recovery (on_reset_ack ?now t) s)" if "p \<noteq> me_from t"
      using that other_states(3) clear_ok by (intro recovery_keeps) (auto simp: peer_state_def on_reset_ack_def)
    have retry: "keeps p [] s (with_recovery (on_session_retry ?now t) s)"
      by (intro recovery_keeps) (auto simp: peer_state_def retry_ok)
    show ?thesis using that reset ack retry e2e plain by (auto simp: handleIncomingMessage_def sr)
  qed
  show "daemon_ok (snd (snd (handleIncomingMessage P v t s)))" if ok: "daemon_ok s"
  proof -
    have "daemon_ok (s\<lparr>dm_recovery := r\<rparr>)" "daemon_ok (with_recovery (on_reset_ack ?now t) s)" "daemon_ok (with_recovery (on_session_retry ?now t) s)"
      using ok ro by (simp_all add: daemon_ok_def on_reset_ack_def clear_ok retry_ok)
    with e2e plain ok show ?thesis by (auto simp: handleIncomingMessage_def sr keeps_def)
  qed
qed


lemma cycle_frames: "dm_jobs (snd (executePreKeyMaintenanceCycle P v rp pub s)) = dm_jobs s" "dm_flushes (snd (executePreKeyMaintenanceCycle P v rp pub s)) = dm_flushes s"
  "\<exists>cfg. dm_recovery (snd (executePreKeyMaintenanceCycle P v rp pub s)) = (dm_recovery s)\<lparr>rc_config := cfg\<rparr>"
  by (auto simp: executePreKeyMaintenanceCycle_def Let_def split: sum.split prod.split intro: exI [of _ "rc_config (dm_recovery s)"])

lemma timer_ok: "rec_ok r \<Longrightarrow> (\<And>x. jm_get (rc_replays r) x = None \<Longrightarrow> jm_get bs x = None) \<Longrightarrow> rec_ok (r\<lparr>rc_replays := bs\<rparr>)"
  by (simp add: rec_ok_def)

lemma replay_timer_keeps: "keeps p [] s (replay_timer q s)"
proof (cases "flush_start rq_requestedAt q (rc_replays (dm_recovery s))")
  case (Pair x bs)
  have none: "jm_get bs y = None" if "jm_get (rc_replays (dm_recovery s)) y = None" for y using start_batches [OF that Pair] .
  have ok: "rec_ok (dm_recovery s) \<Longrightarrow> rec_ok ((dm_recovery s)\<lparr>rc_replays := bs\<rparr>)" using none by (intro timer_ok)
  show ?thesis
  proof (cases x)
    case None
    then show ?thesis using ok Pair by (intro recovery_keeps) (simp_all add: replay_timer_def peer_state_def)
  next
    case (Some y)
    obtain n qs where y: "y = (n, qs)" by (cases y)
    have q: "jm_get (rc_replays (dm_recovery s)) q \<noteq> None" using Pair Some by (auto simp: flush_start_def split: option.splits)
    show ?thesis
    proof (cases "qs = []")
      case True
      have "rec_ok (dm_recovery s) \<Longrightarrow> rec_ok ((dm_recovery s)\<lparr>rc_replays := flush_finish n q bs\<rparr>)" using none finish_batches by (intro timer_ok) blast+
      then show ?thesis using Pair Some y True by (intro recovery_keeps) (simp_all add: replay_timer_def peer_state_def)
    next
      case False
      let ?s' = "(with_recovery (\<lambda>r. r\<lparr>rc_replays := bs\<rparr>) s)\<lparr>dm_flushes := dm_flushes s @ [(q, n, qs)]\<rparr>"
      have "daemon_ok ?s'" if "daemon_ok s" using that ok by (simp add: daemon_ok_def)
      moreover have "q \<noteq> p" if "behind p st s" for st using that q by (auto simp: behind_def daemon_ok_def rec_ok_def peer_state_def)
      ultimately have "keeps p [] s ?s'" by (auto simp: keeps_def behind_def peer_state_def)
      then show ?thesis using Pair Some y False by (simp add: replay_timer_def)
    qed
  qed
qed

lemma notice_timer_keeps: "keeps p (fst (snd (sendPeerRetryNotifications P v q s))) s (snd (snd (sendPeerRetryNotifications P v q s)))"
proof -
  have "snd (snd (sendPeerRetryNotifications P v q s)) = s \<and> fst (snd (sendPeerRetryNotifications P v q s)) = []" if "rc_notices (dm_recovery s) = []"
    using that by (simp add: sendPeerRetryNotifications_def flush_start_def with_recovery_def)
  then show ?thesis by (auto simp: keeps_def behind_def daemon_ok_def rec_ok_def)
qed

lemma handle_keeps:
  assumes "\<forall>q. locks_peer ev = Some q \<longrightarrow> \<not> locked q s"
  shows "\<not> wakes p ev \<Longrightarrow> keeps p (fst (daemon_handle P v ev s)) s (snd (daemon_handle P v ev s))" "daemon_ok s \<Longrightarrow> daemon_ok (snd (daemon_handle P v ev s))"
proof -
  have jobs: "\<forall>j. jm_get (dm_jobs s) r = Some j \<longrightarrow> job_for r j" if "daemon_ok s" for r using that by (simp add: daemon_ok_def)
  have all: "keeps p (fst (daemon_handle P v ev s)) s (snd (daemon_handle P v ev s)) \<or> wakes p ev \<and> (daemon_ok s \<longrightarrow> daemon_ok (snd (daemon_handle P v ev s)))"
  proof (cases ev)
    case (Incoming t)
    then show ?thesis using incoming_keeps(1) [of p t P v s] incoming_keeps(2) [of s P v t] by (auto simp: daemon_handle_def simp del: wakes.simps)
  next
    case (SendReq mode r)
    have "keeps p (fst (snd (handleSend P v mode r s))) s (snd (snd (handleSend P v mode r s)))"
    proof (rule like_keeps [of _ "sq_to r"])
      show "snd (snd (handleSend P v mode r s)) = s \<and> fst (snd (handleSend P v mode r s)) = []" if "behind p st s" "sq_to r = p" for st
        using that by (auto simp: handleSend_def behind_def split: sum.split)
    qed (use jobs in \<open>auto intro: send_like_send\<close>)
    then show ?thesis by (simp add: SendReq daemon_handle_def)
  next
    case (RelayAnswer r res)
    have "keeps p (fst (snd (on_answer P v r res s))) s (snd (snd (on_answer P v r res s)))"
    proof (rule like_keeps [of _ r])
      show "snd (snd (on_answer P v r res s)) = s \<and> fst (snd (on_answer P v r res s)) = []" if "behind p st s" "r = p" for st
        using that by (simp add: on_answer_def behind_def)
    qed (use jobs in \<open>auto intro: on_answer_like\<close>)
    then show ?thesis by (simp add: RelayAnswer daemon_handle_def)
  next
    case (RunReplay r)
    have free: "jm_get (dm_jobs s) r = None" using assms by (simp add: RunReplay locks_peer_def locked_def)
    have "keeps p (fst (snd (replayOutboundMessages P v r s))) s (snd (snd (replayOutboundMessages P v r s)))"
    proof (rule like_keeps [of _ r])
      show "snd (snd (replayOutboundMessages P v r s)) = s \<and> fst (snd (replayOutboundMessages P v r s)) = []" if "behind p st s" "r = p" for st
      proof -
        have "List.find (\<lambda>(q, _). q = r) (dm_flushes s) = None" using that by (auto simp: behind_def find_None_iff)
        then show ?thesis by (simp add: replayOutboundMessages_def)
      qed
    qed (use run_replay_like [OF free] in auto)
    then show ?thesis by (simp add: RunReplay daemon_handle_def)
  next
    case (ResetPeer r)
    obtain res sent rc where o: "reset_one_peer (dp_keys P) (dv_step v) 0 r (dm_recovery s) = (res, sent, rc)"
      by (cases "reset_one_peer (dp_keys P) (dv_step v) 0 r (dm_recovery s)")
    have ok: "daemon_ok s \<longrightarrow> daemon_ok (s\<lparr>dm_recovery := rc\<rparr>)" using one_peer_recovery(1) [OF o] by (simp add: daemon_ok_def)
    have "keeps p (map ToRelay sent) s (s\<lparr>dm_recovery := rc\<rparr>)" if "p \<noteq> r"
      using one_peer_recovery [OF o] that by (intro recovery_keeps) (auto simp: peer_state_def list_all_iff goes_to_def)
    with ok show ?thesis by (cases "p = r") (simp_all add: ResetPeer daemon_handle_def o)
  next
    case (Reload pub)
    let ?s1 = "s\<lparr>dm_recovery := snd (clearAllPeerRecoveryStates (snd (clearAllPendingRecovery (dm_recovery s))))\<rparr>"
    have "snd (handleReloadE2E P v pub s) = snd (executePreKeyMaintenanceCycle P v True pub ?s1)"
      by (simp add: handleReloadE2E_def Let_def split_def split: sum.split)
    then show ?thesis using cycle_frames(1,2) [of P v True pub ?s1] cycle_frames(3) [of P v True pub ?s1] reload_ok [of "dm_recovery s"]
      by (auto simp: Reload daemon_handle_def daemon_ok_def)
  next
    case (Maintain rp pub)
    obtain cfg where "dm_recovery (snd (executePreKeyMaintenanceCycle P v rp pub s)) = (dm_recovery s)\<lparr>rc_config := cfg\<rparr>" using cycle_frames(3) by blast
    from frame_keeps [OF this cycle_frames(1,2)] show ?thesis by (simp add: Maintain daemon_handle_def)
  next
    case (ReplayTimer r)
    then show ?thesis using replay_timer_keeps by (simp add: daemon_handle_def)
  next
    case (NoticeTimer r)
    then show ?thesis using notice_timer_keeps by (simp add: daemon_handle_def)
  qed (auto simp: daemon_handle_def handleBlock_def handleUnblock_def handleAllowlist_def or_same_def handleSubscribeInbox_def daemon_unsubscribe_def
      cleanupSocketSubscriptions_def handleTrustScore_def handleCreateEndorsement_def Let_def intro!: same_keeps split: allowlist_action.split option.split sum.split prod.split)
  show "keeps p (fst (daemon_handle P v ev s)) s (snd (daemon_handle P v ev s))" if "\<not> wakes p ev" using all that by blast
  show "daemon_ok (snd (daemon_handle P v ev s))" if "daemon_ok s" using all that by (auto simp: keeps_def)
qed

lemma daemon_step_ok: "daemon_ok s \<Longrightarrow> daemon_ok (snd (daemon_step P ve s))"
  using handle_keeps(2) [of "snd ve" s P "fst ve"] by (auto simp: daemon_step_def split: option.split)


lemma run_daemon_ok: "daemon_ok s \<Longrightarrow> daemon_ok (daemon_run P ves s)"
  unfolding daemon_run_def by (induction ves arbitrary: s) (simp_all add: daemon_step_ok)




section \<open>What a send undoes\<close>

lemma incoming_jobs: "dm_jobs (snd (snd (handleIncomingMessage P v t s))) = dm_jobs s"
proof -
  have err: "dm_jobs (snd (snd (on_decrypt_error P v t x s))) = dm_jobs s" for x
  proof -
    obtain l sent r where f: "on_decrypt_failure (dp_keys P) (dv_step v) (me_from t) (dm_recovery s) = (l, sent, r)"
      by (cases "on_decrypt_failure (dp_keys P) (dv_step v) (me_from t) (dm_recovery s)")
    show ?thesis
    proof (cases "buildLocalDiagnosticEnvelope (dp_keys P) (dv_step v) (me_from t) ''e2e/decrypt-failed'' (decrypt_failed_payload x (pr_epoch (lr_state l)))")
      case (Inr e)
      obtain y out s2 where st: "store_inbound P (sv_now (dv_step v)) e None None None (s\<lparr>dm_recovery := r\<rparr>) = (y, out, s2)"
        by (cases "store_inbound P (sv_now (dv_step v)) e None None None (s\<lparr>dm_recovery := r\<rparr>)")
      have "dm_jobs s2 = dm_jobs s"
        using store_inbound_frames [where P = P and now = "sv_now (dv_step v)" and e = e and a = None and b = None and d = None and s = "s\<lparr>dm_recovery := r\<rparr>"] st by simp
      then show ?thesis using st Inr by (cases y) (simp_all add: on_decrypt_error_def f)
    qed (simp add: on_decrypt_error_def f)
  qed
  show ?thesis
    using err by (auto simp: handleIncomingMessage_def on_e2e_transport_def receive_frames split: prod.split sum.split)
qed

lemma handle_jobs:
  assumes "\<forall>q. locks_peer ev = Some q \<longrightarrow> \<not> locked q s" "daemon_ok s" "locked p s" "\<And>res. ev \<noteq> RelayAnswer p res"
  shows "jm_get (dm_jobs (snd (daemon_handle P v ev s))) p = jm_get (dm_jobs s) p"
proof -
  have jobs: "\<forall>j. jm_get (dm_jobs s) r = Some j \<longrightarrow> job_for r j" for r using assms(2) by (simp add: daemon_ok_def)
  show ?thesis
  proof (cases ev)
    case (Incoming t)
    then show ?thesis by (simp add: daemon_handle_def incoming_jobs)
  next
    case (SendReq mode r)
    then have "sq_to r \<noteq> p" using assms(1,3) by (auto simp: locks_peer_def)
    with send_like_send [OF jobs, of r P v mode] show ?thesis by (simp add: SendReq daemon_handle_def send_like_def)
  next
    case (RelayAnswer r res)
    then have "r \<noteq> p" using assms(4) by auto
    with on_answer_like [OF jobs, of r P v res] show ?thesis by (simp add: RelayAnswer daemon_handle_def send_like_def)
  next
    case (RunReplay r)
    then have free: "jm_get (dm_jobs s) r = None" using assms(1) by (simp add: locks_peer_def locked_def)
    moreover have "r \<noteq> p" using free assms(3) by (auto simp: locked_def)
    ultimately show ?thesis using run_replay_like [OF free, of P v] by (simp add: RunReplay daemon_handle_def send_like_def)
  next
    case (Reload pub)
    let ?s1 = "s\<lparr>dm_recovery := snd (clearAllPeerRecoveryStates (snd (clearAllPendingRecovery (dm_recovery s))))\<rparr>"
    have "snd (handleReloadE2E P v pub s) = snd (executePreKeyMaintenanceCycle P v True pub ?s1)"
      by (simp add: handleReloadE2E_def Let_def split_def split: sum.split)
    then show ?thesis by (simp add: Reload daemon_handle_def cycle_frames)
  next
    case (ReplayTimer r)
    then show ?thesis by (simp add: daemon_handle_def replay_timer_def split: prod.split option.split)
  next
    case (NoticeTimer r)
    then show ?thesis by (simp add: daemon_handle_def sendPeerRetryNotifications_def Let_def split_def split: option.split)
  qed (auto simp: daemon_handle_def handleBlock_def handleUnblock_def handleAllowlist_def or_same_def handleSubscribeInbox_def daemon_unsubscribe_def
      cleanupSocketSubscriptions_def handleTrustScore_def handleCreateEndorsement_def Let_def cycle_frames split: allowlist_action.split option.split sum.split prod.split)
qed

lemma step_jobs:
  assumes "daemon_ok s" "locked p s" "\<And>res. ev \<noteq> RelayAnswer p res"
  shows "jm_get (dm_jobs (snd (daemon_step P (v, ev) s))) p = jm_get (dm_jobs s) p"
  using handle_jobs [OF _ assms] by (auto simp: daemon_step_def split: option.split)

lemma run_jobs:
  assumes "daemon_ok s" "jm_get (dm_jobs s) p = Some j" "list_all (\<lambda>(_, ev). case ev of RelayAnswer q _ \<Rightarrow> q \<noteq> p | _ \<Rightarrow> True) ves"
  shows "jm_get (dm_jobs (daemon_run P ves s)) p = Some j"
  using assms
proof (induction ves arbitrary: s)
  case (Cons x ves)
  obtain v ev where x: "x = (v, ev)" by (cases x)
  have "jm_get (dm_jobs (snd (daemon_step P x s))) p = Some j"
    using step_jobs [OF Cons.prems(1), of p ev P v] Cons.prems(2,3) by (auto simp: x locked_def split: daemon_event.splits)
  then show ?case using Cons.IH [OF daemon_step_ok [OF Cons.prems(1)], of P x] Cons.prems(3) by (simp add: daemon_run_def)
qed (simp add: daemon_run_def)

lemma proceed_config [simp]: "rc_config (dm_recovery (snd (snd (proceed_send P p j s)))) = rc_config (dm_recovery s)"
  by (simp add: proceed_send_def split: job.split list.split)

text \<open>C35: An accepted send undoes what happened while it waited. When the relay accepts what a send has given it, the stored
  configuration becomes the one that was computed when the send began: it is the same whatever the daemon received, reset,
  rotated or sent to other peers in between.\<close>

theorem accepted_send_undoes:
  assumes "s = daemon_run P ves (start_daemon cfg db trust)" "jm_get (dm_jobs s) p = Some (EncryptedSend q m e (t # ts))"
    "list_all (\<lambda>(_, ev). case ev of RelayAnswer r _ \<Rightarrow> r \<noteq> p | _ \<Rightarrow> True) between" "sv_stored (dv_step v)"
  shows "dm_config (snd (daemon_step P (v, RelayAnswer p (Inr ())) (daemon_run P between s)))
     = dm_config (snd (daemon_step P (v, RelayAnswer p (Inr ())) s))"
proof -
  have "daemon_ok (start_daemon cfg db trust)" by (simp add: daemon_ok_def start_daemon_def new_recovery_def rec_ok_def)
  then have ok: "daemon_ok s" using run_daemon_ok assms(1) by simp
  have answer: "dm_config (snd (daemon_step P (v, RelayAnswer p (Inr ())) x)) = st_configAfterSend t"
    if "jm_get (dm_jobs x) p = Some (EncryptedSend q m e (t # ts))" for x
    using that assms(4)
    by (simp add: daemon_step_def locks_peer_def daemon_handle_def on_answer_def answer_send_def commitAcceptedE2EConfig_def dm_config_def and_then_def Let_def)
  show ?thesis using answer [OF assms(2)] answer [OF run_jobs [OF ok assms(2,3)]] by simp
qed

section \<open>Maintenance\<close>

lemma sequence_length: "sequence_results rs = Inr xs \<Longrightarrow> length xs = length rs"
  by (induction rs arbitrary: xs) (auto simp: and_then_Inr)

lemma built_keys: "buildOneTimePreKeys kps n now = Inr ks \<Longrightarrow> length (filter unclaimed ks) = n"
  by (auto simp: buildOneTimePreKeys_def and_then_Inr one_time_key_of_def unclaimed_def filter_map comp_def split_def dest!: sequence_length)

text \<open>C34: The maintenance keeps a device able to receive first messages. Whenever a maintenance cycle succeeds, the device has more than four
  one-time keys that are not claimed and a signed pre-key younger than fourteen days, its sessions are what they were, and the status
  says when.\<close>

theorem maintenance_restores_keys:
  assumes "executePreKeyMaintenanceCycle P v republish publish s = (Inr x, s')"
  shows "\<exists>d d'. jm_get (ec_devices (dm_config s)) (ec_currentDeviceId (dm_config s)) = Some d
     \<and> jm_get (ec_devices (dm_config s')) (ec_currentDeviceId (dm_config s)) = Some d' \<and> ec_currentDeviceId (dm_config s') = ec_currentDeviceId (dm_config s)
     \<and> length (filter unclaimed (ld_oneTimePreKeys d')) > 4 \<and> sv_now (dv_step v) - sp_createdAt (ld_signedPreKey d') < 14 * 24 * 60 * 60 * 1000
     \<and> ld_sessions d' = ld_sessions d \<and> pm_lastCheckedAt (dm_maintenance s') = Some (sv_now (dv_step v))"
proof -
  obtain r cfg where r: "maintainCurrentDevicePreKeyHealth (dp_keys P) v (dm_config s) = Inr (r, cfg)" "dm_config s' = cfg"
    "pm_lastCheckedAt (dm_maintenance s') = Some (sv_now (dv_step v))"
    using assms by (auto simp: executePreKeyMaintenanceCycle_def Let_def dm_config_def recordPreKeyMaintenanceResult_def split: sum.splits prod.splits)
  obtain d where d: "jm_get (ec_devices (dm_config s)) (ec_currentDeviceId (dm_config s)) = Some d"
    using r(1) by (auto simp: maintainCurrentDevicePreKeyHealth_def split: if_splits option.splits)
  have "\<exists>d'. jm_get (ec_devices cfg) (ec_currentDeviceId (dm_config s)) = Some d' \<and> ec_currentDeviceId cfg = ec_currentDeviceId (dm_config s)
     \<and> length (filter unclaimed (ld_oneTimePreKeys d')) > 4 \<and> sv_now (dv_step v) - sp_createdAt (ld_signedPreKey d') < 14 * 24 * 60 * 60 * 1000
     \<and> ld_sessions d' = ld_sessions d"
    using r(1) d
    by (auto simp: maintainCurrentDevicePreKeyHealth_def Let_def and_then_Inr daemon_resupply_def rotateLocalDeviceSignedPreKey_def signed_key_of_def
        LOW_ONE_TIME_PREKEY_THRESHOLD_def STALE_SIGNED_PREKEY_AGE_MS_def resupply_count_def or_else_def DEFAULT_ONE_TIME_PRE_KEY_COUNT_def
        split: if_splits dest!: built_keys)
  with d r(2,3) show ?thesis by blast
qed


section \<open>Examples\<close>

definition plain_platform :: "((string, store_value) rbt, (string, interaction) rbt, (string, endorsement_v1) rbt) daemon_platform" where
  "plain_platform = \<lparr>dp_keys = plain_keys ''did:agent:b'', dp_messages = rbt_level, dp_history = rbt_level, dp_endorsements = rbt_level, dp_text = plain_text\<rparr>"

definition toy_agent :: "((string, store_value) rbt, (string, interaction) rbt, (string, endorsement_v1) rbt) daemon_platform" where
  "toy_agent = plain_platform\<lparr>dp_keys := \<lparr>ak_crypto = toy_platform, ak_json = toy_json, ak_did = toy_did 50, ak_signKey = [of_nat 50]\<rparr>\<rparr>"

definition toy_env :: "msec \<Rightarrow> daemon_env" where
  "toy_env t = \<lparr>dv_step = at_time t, dv_storeError = JsError ''locked'', dv_fetchError = None, dv_devices = Some [toy_entry],
     dv_bundles = (\<lambda>_. Some (toy_bundle 60 0 None)), dv_draws = (\<lambda>_. (toy_draws 9, [])), dv_keyDraws = toy_device_draws 70\<rparr>"

abbreviation "started cfg \<equiv> start_daemon cfg RBT.empty (start_trust RBT.empty RBT.empty)"

lemma started_config: "dm_config (started cfg) = cfg"
  by (simp add: dm_config_def start_daemon_def new_recovery_def)








lemma toy_resupply: "\<exists>x s'. executePreKeyMaintenanceCycle toy_agent (toy_env 9) False None (started (toy_config 50 2)) = (Inr x, s')"
proof -
  have "\<exists>r cfg. maintainCurrentDevicePreKeyHealth (dp_keys toy_agent) (toy_env 9) (toy_config 50 2) = Inr (r, cfg)"
    by (simp add: maintainCurrentDevicePreKeyHealth_def toy_env_def at_time_def toy_agent_def Let_def toy_device_def signed_key_of_def
        STALE_SIGNED_PREKEY_AGE_MS_def LOW_ONE_TIME_PREKEY_THRESHOLD_def daemon_resupply_def buildOneTimePreKeys_def toy_device_draws_def toy_one_time
        upt_conv_Cons one_time_key_of_def unclaimed_def numeral_eq_Suc)
  then show ?thesis by (auto simp: executePreKeyMaintenanceCycle_def dm_config_def start_daemon_def new_recovery_def Let_def split: sum.split)
qed

theorem maintenance_restores_keys_witness:
  "\<exists>x s' d'. executePreKeyMaintenanceCycle toy_agent (toy_env 9) False None (started (toy_config 50 2)) = (Inr x, s')
     \<and> jm_get (ec_devices (dm_config s')) ''dev'' = Some d' \<and> length (filter unclaimed (ld_oneTimePreKeys d')) > 4"
proof -
  obtain x s' where x: "executePreKeyMaintenanceCycle toy_agent (toy_env 9) False None (started (toy_config 50 2)) = (Inr x, s')" using toy_resupply by blast
  have "ec_currentDeviceId (toy_config 50 2) = ''dev''" by (simp add: toy_config_def)
  then show ?thesis using maintenance_restores_keys [OF x] x by (auto simp: started_config)
qed


text \<open>A send to an agent waits for the relay while the session of another agent is reset: the answer brings that session back.\<close>

definition two_sessions :: e2e_config where
  "two_sessions = \<lparr>ec_currentDeviceId = ''dev'', ec_devices = [(''dev'', (toy_device 50 0)\<lparr>ld_sessions :=
     [(buildLocalSessionKey (toy_did 60) ''dev'', toy_session), (buildLocalSessionKey (toy_did 70) ''dev'', toy_session\<lparr>ls_peerDid := toy_did 70\<rparr>)]\<rparr>)]\<rparr>"

definition ask_60 :: send_request where
  "ask_60 = \<lparr>sq_to = toy_did 60, sq_protocol = None, sq_payload = JStr ''hi'', sq_type = None, sq_replyTo = None, sq_threadId = None\<rparr>"

lemma toy_dids: "js_startsWith (toy_did n) ''did:agent:''" 
  by (simp add: toy_did_def)

lemma toy_request:
  "\<exists>e. request_envelope (dp_keys toy_agent) w n ask_60 = Inr e \<and> me_to e = toy_did 60 \<and> valid_envelope e"
proof -
  obtain ue where ue: "createEnvelope (sv_newId w n) (of_int (sv_now w)) (toy_did 50) (toy_did 60) ''message'' ''/agent/msg/1.0.0'' (JStr ''hi'') None None None = Inr ue"
    "me_to ue = toy_did 60" "valid_envelope ue"
    by (simp add: createEnvelope_def normalizeEnvelopeType_def given_string_def valid_envelope_def toy_dids)
  obtain e where e: "signEnvelope toy_json ue (sign_by toy_platform [of_nat 50]) = Inr e" using signed_ex [OF toy_identity] by blast
  show ?thesis using ue e signed_fields [OF e]
    by (auto simp: request_envelope_def make_application_envelope_def ask_60_def toy_agent_def given_string_def or_else_def sign_by_def [abs_def] valid_envelope_def)
qed

lemma started_quiet: "jm_get (dm_jobs (started cfg)) p = None" "peer_state p (started cfg) = None"
  by (simp_all add: start_daemon_def peer_state_def new_recovery_def)

lemma waiting_job: "jm_get (dm_jobs (snd (snd (proceed_send P p (EncryptedSend q m e (t # ts)) s)))) p = Some (EncryptedSend q m e (t # ts))"
  by (simp add: proceed_send_def with_job_def)

lemma toy_waiting:
  "\<exists>e t. jm_get (dm_jobs (daemon_run toy_agent [(toy_env 5, SendReq None ask_60)] (started two_sessions))) (toy_did 60)
     = Some (EncryptedSend ask_60 Required e [t])"
proof -
  obtain e where e: "request_envelope (dp_keys toy_agent) (at_time 5) 0 ask_60 = Inr e" "me_to e = toy_did 60" "valid_envelope e"
    using toy_request by blast
  have s: "ec_currentDeviceId two_sessions = ''dev''" "loadLocalSession two_sessions ''dev'' (toy_did 60) ''dev'' = Some toy_session"
    "\<exists>d. jm_get (ec_devices two_sessions) ''dev'' = Some d" by (simp_all add: two_sessions_def loadLocalSession_def)
  then obtain t where t: "send_to_device toy_platform toy_json (\<lambda>_. (toy_draws 9, [])) (\<lambda>_. Some (toy_bundle 60 0 None)) [of_nat 50] e (toy_did 60) two_sessions toy_entry = Inr t"
    using toy_session_send [OF e(2) s(1,2)] by blast
  have sent: "prepareEncryptedSendsWithoutCommit toy_agent (toy_env 5) (Inr e) (toy_did 60) two_sessions = Inr (e, [t], st_configAfterSend t)"
    using t by (simp add: prepareEncryptedSendsWithoutCommit_def toy_env_def toy_agent_def prepareEncryptedSends_def selectRecipientDevices_def js_sort_def)
  obtain x where put: "enqueueOutbound rbt_level plain_text 5 e [target_delivery 5 DlPending None t] (start_queue RBT.empty) = Inr x"
    using rbt_messages.put_box(1) [OF rbt_messages.empty_box(1), of RBT.empty "outbound_message 5 e [target_delivery 5 DlPending None t]"] e(3)
    by (auto simp: enqueueOutbound_def Let_def start_queue_def outbound_message_def and_then_def)
  have "begin_encrypted toy_agent (toy_env 5) Required ask_60 (started two_sessions)
      = Inr (EncryptedSend ask_60 Required e [t], with_queue (\<lambda>_. snd x) (started two_sessions))"
    using e(1) sent put
    by (simp add: begin_encrypted_def started_config ask_60_def)
      (simp add: prepareEncryptedSendsWithoutCommit_def toy_agent_def plain_platform_def toy_env_def at_time_def dm_queue_def start_daemon_def split_def)
  moreover have "sq_to ask_60 = toy_did 60" by (simp add: ask_60_def)
  ultimately show ?thesis
    by (simp add: daemon_run_def daemon_step_def locks_peer_def locked_def daemon_handle_def handleSend_def normalizeSendDeliveryMode_def waiting_job started_quiet Let_def)
qed

definition meanwhile :: "(daemon_env \<times> daemon_event) list" where
  "meanwhile = [(toy_env 6, ResetPeer (toy_did 70)), (toy_env 7, Incoming from_a)]"

theorem accepted_send_undoes_witness:
  "dm_config (snd (daemon_step toy_agent (toy_env 8, RelayAnswer (toy_did 60) (Inr ()))
       (daemon_run toy_agent meanwhile (daemon_run toy_agent [(toy_env 5, SendReq None ask_60)] (started two_sessions)))))
   = dm_config (snd (daemon_step toy_agent (toy_env 8, RelayAnswer (toy_did 60) (Inr ()))
       (daemon_run toy_agent [(toy_env 5, SendReq None ask_60)] (started two_sessions))))"
proof -
  obtain e t where w: "jm_get (dm_jobs (daemon_run toy_agent [(toy_env 5, SendReq None ask_60)] (started two_sessions))) (toy_did 60)
     = Some (EncryptedSend ask_60 Required e [t])" using toy_waiting by blast
  show ?thesis by (rule accepted_send_undoes [OF refl w]) (simp_all add: meanwhile_def toy_env_def at_time_def)
qed

end
