(* ===== verification/Relay_Client.thy ===== *)
theory Relay_Client
  imports Message_Envelope Relay_Types Js_Number
begin

text \<open>
  The relay client, \<open>js/core/protocol/src/transport/relay-client.ts\<close>, with the messages of \<open>relay-types.ts\<close> that it
  uses and the signature of a card, \<open>discovery/agent-card.ts\<close>. A client is a state and its steps: a call of the interface, an
  event of a socket, a timer that fires, a promise job (\<open>Dispatch\<close> takes the next message of the \<open>inboundDispatchChain\<close> of a
  connection), a delivery handler that ends. A call returns a promise; it is a number, and the step that settles it puts
  out \<open>Settled\<close>. Promises that are settled in a step start what was chained to them at the end of the step. A timer
  that is set is a part of the state, so that only a timer that is set can fire. Sockets are numbered as they are opened.
  Objects that come from the network have the types that the interfaces declare.
\<close>

section \<open>Cards\<close>

text \<open>A card is the object as it was received, without its signature.\<close>

record wire_card =
  wc_fields :: "(string \<times> json) list"
  wc_signature :: string

definition or_default :: "'a option \<Rightarrow> 'a \<Rightarrow> 'a" where
  "or_default x d = (case x of None \<Rightarrow> d | Some y \<Rightarrow> y)"

definition wc_did :: "wire_card \<Rightarrow> did" where
  "wc_did c = or_default (json_str (wc_fields c) ''did'') ''''"

definition list_field :: "(string \<times> json) list \<Rightarrow> string \<Rightarrow> json list" where
  "list_field m k = (case map_of m k of Some (JArr vs) \<Rightarrow> vs | _ \<Rightarrow> [])"

definition wc_capability_ids :: "wire_card \<Rightarrow> string list" where
  "wc_capability_ids c = List.map_filter (\<lambda>v. case v of JObj m \<Rightarrow> json_str m ''id'' | _ \<Rightarrow> None) (list_field (wc_fields c) ''capabilities'')"

definition wc_endpoints :: "wire_card \<Rightarrow> string list" where
  "wc_endpoints c = List.map_filter (\<lambda>v. case v of JStr s \<Rightarrow> Some s | _ \<Rightarrow> None) (list_field (wc_fields c) ''endpoints'')"

definition card_json :: "wire_card \<Rightarrow> json" where
  "card_json c = JObj (wc_fields c @ [(''signature'', JStr (wc_signature c))])"

definition normalizeRelayUrl :: "string \<Rightarrow> string" where
  "normalizeRelayUrl url = js_trim url"

definition isWebSocketEndpoint :: "string \<Rightarrow> bool" where
  "isWebSocketEndpoint url \<longleftrightarrow> js_startsWith url ''ws://'' \<or> js_startsWith url ''wss://''"

definition hasRelayCapability :: "wire_card \<Rightarrow> bool" where
  "hasRelayCapability c \<longleftrightarrow> list_ex (\<lambda>i. js_startsWith i ''relay/'') (wc_capability_ids c)"

definition extractRelayEndpoints :: "wire_card \<Rightarrow> string list" where
  "extractRelayEndpoints c = js_unique (filter isWebSocketEndpoint (filter (\<lambda>e. e \<noteq> '''') (map js_trim (wc_endpoints c))))"

text \<open>\<open>signAgentCard\<close> and \<open>verifyAgentCard\<close>; a \<open>DiscoveryError\<close> is a \<open>JsError\<close> here.\<close>

definition rethrow_discovery :: "string \<Rightarrow> e2e_error + 'a \<Rightarrow> e2e_error + 'a" where
  "rethrow_discovery msg r = (case r of Inl _ \<Rightarrow> Inl (JsError msg) | Inr x \<Rightarrow> Inr x)"

definition signAgentCard :: "json_text \<Rightarrow> (string \<times> json) list \<Rightarrow> (bytes \<Rightarrow> e2e_error + bytes) \<Rightarrow> e2e_error + wire_card" where
  "signAgentCard j cd signFn = rethrow_discovery ''Failed to sign Agent Card''
     (and_then (signFn (encodeCanonicalJson j (JObj cd))) (\<lambda>sig. Inr \<lparr>wc_fields = cd, wc_signature = bytesToHex sig\<rparr>))"

definition verifyAgentCard :: "json_text \<Rightarrow> wire_card \<Rightarrow> (bytes \<Rightarrow> bytes \<Rightarrow> e2e_error + bool) \<Rightarrow> e2e_error + bool" where
  "verifyAgentCard j cd verifyFn = rethrow_discovery ''Failed to verify Agent Card''
     (any_verifies (verifyFn (hexToBytes (wc_signature cd))) (encodeJsonSignaturePayloads j (JObj (wc_fields cd))))"

record discovered =
  dg_did :: did
  dg_card :: wire_card
  dg_online :: bool
  dg_homeRelay :: "did option"

definition isRelayProvider :: "discovered \<Rightarrow> bool" where
  "isRelayProvider a \<longleftrightarrow> hasRelayCapability (dg_card a) \<and> extractRelayEndpoints (dg_card a) \<noteq> []"

definition thrown_text :: "e2e_error \<Rightarrow> string" where
  "thrown_text e = (case e of EncryptionError m \<Rightarrow> m | IdentityError m \<Rightarrow> m | MessagingError m \<Rightarrow> m | JsError m \<Rightarrow> m)"

text \<open>\<open>None\<close> is \<open>valid: true\<close>, otherwise the reason.\<close>

definition verifyCardBinding :: "crypto \<Rightarrow> json_text \<Rightarrow> wire_card option \<Rightarrow> did option \<Rightarrow> string option" where
  "verifyCardBinding c j given expectedDid = (case given of
     None \<Rightarrow> Some ''missing card payload''
   | Some cd \<Rightarrow>
       if \<not> validateDID c (wc_did cd) then Some (''invalid card DID: '' @ wc_did cd)
       else if (case given_string expectedDid of Some d \<Rightarrow> wc_did cd \<noteq> d | None \<Rightarrow> False)
       then Some (''envelope DID '' @ or_default expectedDid '''' @ '' does not match card DID '' @ wc_did cd)
       else (case and_then (extractPublicKey c (wc_did cd)) (\<lambda>key. verifyAgentCard j cd (\<lambda>sig data. identity_verify c sig data key)) of
           Inl e \<Rightarrow> Some (thrown_text e)
         | Inr valid \<Rightarrow> if valid then None else Some (''invalid signature for '' @ wc_did cd)))"

definition filterVerifiedDiscoveredAgents :: "crypto \<Rightarrow> json_text \<Rightarrow> discovered list \<Rightarrow> discovered list" where
  "filterVerifiedDiscoveredAgents c j agents = filter (\<lambda>a. verifyCardBinding c j (Some (dg_card a)) (Some (dg_did a)) = None) agents"

section \<open>Messages\<close>

record wire_hello =
  wh_did :: did
  wh_card :: wire_card
  wh_timestamp :: msec
  wh_signature :: bytes
  wh_inviteToken :: "string option"

datatype wire_msg =
    WHello wire_hello
  | WWelcome "string option" nat
  | WSend did bytes
  | WDeliver string did bytes
  | WDiscover "string option" "string option" "rat option" "int option"
  | WDiscovered "discovered list"
  | WAck string
  | WDeliveryReport string delivery_status msec
  | WPing
  | WPong nat
  | WFetchCard did
  | WCard did "wire_card option"
  | WGoodbye "int option"
  | WTrustQuery did "string option" "msec option" "string option"
  | WTrustResult did "endorsement list" nat rat "string option"
  | WPublishCard "wire_card option"
  | WUnpublishCard
  | WPublishPreKeys "published_bundle list"
  | WPreKeysPublished did nat
  | WFetchPreKeyBundle did string
  | WPreKeyBundle did string "claimed_bundle option"
  | WOther string

text \<open>\<open>RelaySendOutcome\<close>, and the errors by their messages.\<close>

record relay_send_outcome =
  so_messageId :: string
  so_status :: delivery_status
  so_reportedAt :: msec

datatype client_error = TransportError string | SocketError string

definition error_message :: "client_error \<Rightarrow> string" where
  "error_message e = (case e of TransportError m \<Rightarrow> m | SocketError m \<Rightarrow> m)"

text \<open>The operations that wait for a response of the relay.\<close>

datatype client_op =
    OpDiscover "string option" "string option" "rat option" "int option"
  | OpFetchCard did
  | OpQueryTrust did "string option" "msec option" "string option"
  | OpPublishPreKeys "published_bundle list"
  | OpFetchPreKeyBundle did string

definition op_request :: "client_op \<Rightarrow> wire_msg" where
  "op_request opn = (case opn of
     OpDiscover q c mt l \<Rightarrow> WDiscover q c mt l
   | OpFetchCard d \<Rightarrow> WFetchCard d
   | OpQueryTrust t d s c \<Rightarrow> WTrustQuery t d s c
   | OpPublishPreKeys bs \<Rightarrow> WPublishPreKeys bs
   | OpFetchPreKeyBundle d dev \<Rightarrow> WFetchPreKeyBundle d dev)"

definition op_matches :: "client_op \<Rightarrow> wire_msg \<Rightarrow> bool" where
  "op_matches opn m = (case (opn, m) of
     (OpDiscover _ _ _ _, WDiscovered _) \<Rightarrow> True
   | (OpFetchCard d, WCard d' _) \<Rightarrow> d' = d
   | (OpQueryTrust t _ _ _, WTrustResult t' _ _ _ _) \<Rightarrow> t' = t
   | (OpPublishPreKeys _, WPreKeysPublished _ _) \<Rightarrow> True
   | (OpFetchPreKeyBundle d dev, WPreKeyBundle d' dev' _) \<Rightarrow> d' = d \<and> dev' = dev
   | _ \<Rightarrow> False)"

definition op_type :: "client_op \<Rightarrow> string" where
  "op_type opn = (case opn of OpDiscover _ _ _ _ \<Rightarrow> ''DISCOVER'' | OpFetchCard _ \<Rightarrow> ''FETCH_CARD''
     | OpQueryTrust _ _ _ _ \<Rightarrow> ''TRUST_QUERY'' | OpPublishPreKeys _ \<Rightarrow> ''PUBLISH_PREKEYS'' | OpFetchPreKeyBundle _ _ \<Rightarrow> ''FETCH_PREKEY_BUNDLE'')"

definition op_timeout :: "client_op \<Rightarrow> string" where
  "op_timeout opn = (case opn of OpDiscover _ _ _ _ \<Rightarrow> ''Discover timeout'' | OpFetchCard _ \<Rightarrow> ''Fetch card timeout''
     | OpQueryTrust _ _ _ _ \<Rightarrow> ''Trust query timeout'' | OpPublishPreKeys _ \<Rightarrow> ''Publish pre-key bundles timeout''
     | OpFetchPreKeyBundle _ _ \<Rightarrow> ''Fetch pre-key bundle timeout'')"

datatype client_result =
    RUnit
  | RSent relay_send_outcome
  | RAgents "discovered list"
  | RCard "wire_card option"
  | RTrust did "endorsement list" nat rat "string option"
  | RBundle "claimed_bundle option"
  | RFailed client_error

text \<open>What a call gives for the response it waited for.\<close>

definition op_result :: "crypto \<Rightarrow> json_text \<Rightarrow> client_op \<Rightarrow> wire_msg \<Rightarrow> client_result" where
  "op_result c j opn m = (case (opn, m) of
     (OpDiscover _ _ _ _, WDiscovered as) \<Rightarrow> RAgents (filterVerifiedDiscoveredAgents c j as)
   | (OpFetchCard d, WCard _ cd) \<Rightarrow> RCard (if verifyCardBinding c j cd (Some d) = None then cd else None)
   | (OpQueryTrust _ _ _ _, WTrustResult t es n avg cur) \<Rightarrow> RTrust t es n avg cur
   | (OpFetchPreKeyBundle _ _, WPreKeyBundle _ _ b) \<Rightarrow> RBundle b
   | _ \<Rightarrow> RUnit)"

section \<open>State\<close>

record reconnect_config =
  re_baseMs :: "rat option"
  re_jitterMs :: "rat option"
  re_maxDelayMs :: "rat option"
  re_stableAfterMs :: "rat option"

record client_config =
  cc_relayUrls :: "string list"
  cc_inviteToken :: "string option"
  cc_did :: did
  cc_privateKey :: bytes
  cc_card :: wire_card
  cc_autoDiscoverRelays :: "bool option"
  cc_targetRelayCount :: "rat option"
  cc_discoveryCapability :: "string option"
  cc_reconnect :: reconnect_config

text \<open>What the client gets from libraries: cryptography, the text of JSON values, and CBOR of JSON values.\<close>

record client_platform =
  cp_crypto :: crypto
  cp_json :: json_text
  cp_encode :: "json \<Rightarrow> bytes"
  cp_decode :: "bytes \<Rightarrow> json option"
  cp_config :: client_config

definition auto_discover :: "client_platform \<Rightarrow> bool" where
  "auto_discover P = or_default (cc_autoDiscoverRelays (cp_config P)) True"

text \<open>\<open>Math.round\<close> rounds halves up.\<close>

definition targetRelayCount :: "client_platform \<Rightarrow> int" where
  "targetRelayCount P = max 1 \<lfloor>or_default (cc_targetRelayCount (cp_config P)) (of_nat (max 1 (length (cc_relayUrls (cp_config P))))) + 1 / 2\<rfloor>"

definition discovery_capability :: "client_platform \<Rightarrow> string" where
  "discovery_capability P = or_default (cc_discoveryCapability (cp_config P)) ''relay/message-routing''"

text \<open>A send that waits for its turn on a connection: with the socket it captured, or none when the connection was degraded.\<close>

record accepted_send =
  as_ticket :: nat
  as_to :: did
  as_bytes :: bytes
  as_envelopeId :: string
  as_ws :: "nat option"

text \<open>A request without a ticket is the search of the maintenance.\<close>

record pending_request =
  pq_ticket :: "nat option"
  pq_op :: client_op
  pq_queuedMatch :: bool
  pq_outOfBand :: bool

record relay_connection =
  lk_ws :: "nat option"
  lk_connected :: bool
  lk_connecting :: bool
  lk_fatalError :: "client_error option"
  lk_reconnectAttempt :: nat
  lk_reconnectTimer :: "rat option"
  lk_stableTimer :: bool
  lk_pingTimer :: bool
  lk_peerCount :: nat
  lk_pendingRequest :: "pending_request option"
  lk_pendingAcceptance :: "accepted_send option"
  lk_sends :: "accepted_send list"
  lk_inbox :: "wire_msg list"
  lk_handling :: "string option"
  lk_handlerDepth :: nat
  lk_relayId :: "string option"
  lk_degraded :: bool

definition new_connection :: relay_connection where
  "new_connection = \<lparr>lk_ws = None, lk_connected = False, lk_connecting = False, lk_fatalError = None, lk_reconnectAttempt = 0,
     lk_reconnectTimer = None, lk_stableTimer = False, lk_pingTimer = False, lk_peerCount = 0, lk_pendingRequest = None,
     lk_pendingAcceptance = None, lk_sends = [], lk_inbox = [], lk_handling = None, lk_handlerDepth = 0, lk_relayId = None, lk_degraded = False\<rparr>"

record relay_failure =
  rf_attempts :: nat
  rf_lastFailureAt :: msec
  rf_lastError :: "string option"

text \<open>A socket waits to be open, has its handlers, or was given up while it opened: then nothing but \<open>HELLO\<close> comes of it.\<close>

datatype socket_phase = SocketOpening | SocketLive | SocketGivenUp

record relay_client =
  cl_card :: wire_card
  cl_connections :: "(string, relay_connection) jsmap"
  cl_sockets :: "(nat, string \<times> socket_phase) jsmap"
  cl_nextSocket :: nat
  cl_nextTicket :: nat
  cl_failures :: "(string, relay_failure) jsmap"
  cl_hasDeliver :: bool
  cl_hasReport :: bool
  cl_stopped :: bool
  cl_maintenanceTimer :: bool
  cl_firstMaintenance :: nat
  cl_maintenanceInFlight :: bool
  cl_lastDiscoveryAt :: "msec option"
  cl_active :: bool
  cl_requests :: "(nat option \<times> client_op) list"
  cl_dials :: "(string \<times> rat) list"
  cl_starting :: "(nat \<times> msec) list"

text \<open>A step has the clock, a random number, the sockets on which \<open>send\<close> throws, and the addresses that
  \<open>new WebSocket\<close> refuses.\<close>

record client_env =
  ce_now :: msec
  ce_random :: rat
  ce_sendThrows :: "nat \<Rightarrow> string option"
  ce_badUrl :: "string \<Rightarrow> string option"

text \<open>What a step does outside: open a socket, call \<open>send\<close> or \<open>close\<close> of a socket, call the handlers of deliveries and of reports, and
  settle the promise of a call.\<close>

datatype client_out =
    OpenSocket nat string
  | SendWs nat wire_msg
  | CloseWsWith nat "int option"
  | HandDeliver string string did bytes
  | HandReport string delivery_status msec
  | Settled nat client_result

type_synonym client_act = "relay_client \<Rightarrow> client_out list \<times> relay_client"

definition and_do :: "client_act \<Rightarrow> client_act \<Rightarrow> client_act" where
  "and_do f g s = (let (o1, s1) = f s; (o2, s2) = g s1 in (o1 @ o2, s2))"

definition on_link :: "string \<Rightarrow> (relay_connection \<Rightarrow> relay_connection) \<Rightarrow> relay_client \<Rightarrow> relay_client" where
  "on_link url f s = s\<lparr>cl_connections := jm_modify url f (cl_connections s)\<rparr>"

definition getConnectedConnection :: "relay_client \<Rightarrow> (string \<times> relay_connection) option" where
  "getConnectedConnection s = List.find (\<lambda>(u, k). lk_connected k \<and> lk_ws k \<noteq> None) (cl_connections s)"

definition listConnectedRelays :: "relay_client \<Rightarrow> string list" where
  "listConnectedRelays s = map fst (filter (\<lambda>(u, k). lk_connected k) (cl_connections s))"

definition getConnectedRelayIds :: "relay_client \<Rightarrow> string list" where
  "getConnectedRelayIds s = List.map_filter (\<lambda>(u, k). if lk_connected k then given_string (lk_relayId k) else None) (cl_connections s)"

definition listKnownRelays :: "relay_client \<Rightarrow> string list" where
  "listKnownRelays s = map fst (cl_connections s)"

definition ensureConnection :: "string \<Rightarrow> relay_client \<Rightarrow> relay_client" where
  "ensureConnection url s = (let u = normalizeRelayUrl url
     in if jm_has (cl_connections s) u then s else s\<lparr>cl_connections := jm_set u new_connection (cl_connections s)\<rparr>)"

definition createRelayClient :: "client_platform \<Rightarrow> relay_client" where
  "createRelayClient P = fold ensureConnection (cc_relayUrls (cp_config P))
     \<lparr>cl_card = cc_card (cp_config P), cl_connections = [], cl_sockets = [], cl_nextSocket = 0, cl_nextTicket = 0, cl_failures = [],
      cl_hasDeliver = False, cl_hasReport = False, cl_stopped = False, cl_maintenanceTimer = False, cl_firstMaintenance = 0,
      cl_maintenanceInFlight = False, cl_lastDiscoveryAt = None, cl_active = False, cl_requests = [], cl_dials = [], cl_starting = []\<rparr>"

section \<open>Connections\<close>

definition recordFailure :: "msec \<Rightarrow> string \<Rightarrow> string \<Rightarrow> relay_client \<Rightarrow> relay_client" where
  "recordFailure now url m s = s\<lparr>cl_failures := jm_set url
     \<lparr>rf_attempts = (case jm_get (cl_failures s) url of Some f \<Rightarrow> rf_attempts f | None \<Rightarrow> 0) + 1, rf_lastFailureAt = now, rf_lastError = Some m\<rparr> (cl_failures s)\<rparr>"

definition clearFailure :: "string \<Rightarrow> relay_client \<Rightarrow> relay_client" where
  "clearFailure url s = s\<lparr>cl_failures := jm_del url (cl_failures s)\<rparr>"

definition or_text :: "string \<Rightarrow> string \<Rightarrow> string" where
  "or_text reason dflt = (if reason = '''' then dflt else reason)"

definition mapRelayCloseError :: "int \<Rightarrow> string \<Rightarrow> client_error option" where
  "mapRelayCloseError code reason =
     (if code = 4010 then Some (TransportError (''Relay rejected authentication: '' @ or_text reason ''Invite token required''))
      else if code = 4011 then Some (TransportError (''Relay rejected invite token signature: '' @ or_text reason ''Invalid token signature''))
      else if code = 4012 then Some (TransportError (''Relay rejected expired invite token: '' @ or_text reason ''Token expired''))
      else if code = 4013 then Some (TransportError (''Relay rejected revoked invite token: '' @ or_text reason ''Token revoked''))
      else if code = 4014 then Some (TransportError (''Relay rejected invite token DID binding: '' @ or_text reason ''Token not valid for this DID''))
      else if code = 4015 then Some (TransportError (''Relay rejected invite token due to max agent limit: '' @ or_text reason ''Token max agents reached''))
      else if code = 4016 then Some (TransportError (''Relay rejected connection because the realm is full: '' @ or_text reason ''Realm full''))
      else if code = 1008 then Some (TransportError (''Relay rejected handshake: '' @ or_text reason ''Policy violation''))
      else None)"

definition reconnect_delay :: "client_platform \<Rightarrow> client_env \<Rightarrow> nat \<Rightarrow> rat" where
  "reconnect_delay P v n = (let c = cc_reconnect (cp_config P)
     in min (or_default (re_baseMs c) 1000 * 2 ^ n + ce_random v * or_default (re_jitterMs c) 2000) (or_default (re_maxDelayMs c) 30000))"

definition scheduleReconnect :: "client_platform \<Rightarrow> client_env \<Rightarrow> string \<Rightarrow> relay_client \<Rightarrow> relay_client" where
  "scheduleReconnect P v url s = (if cl_stopped s then s else on_link url (\<lambda>k. if lk_reconnectTimer k \<noteq> None then k
     else k\<lparr>lk_reconnectAttempt := lk_reconnectAttempt k + 1, lk_reconnectTimer := Some (reconnect_delay P v (lk_reconnectAttempt k))\<rparr>) s)"

text \<open>The \<open>catch\<close> of \<open>connectToRelay\<close>.\<close>

definition connect_failed :: "client_platform \<Rightarrow> client_env \<Rightarrow> string \<Rightarrow> string \<Rightarrow> relay_client \<Rightarrow> relay_client" where
  "connect_failed P v url m s = scheduleReconnect P v url (recordFailure (ce_now v) url m
     (on_link url (\<lambda>k. k\<lparr>lk_ws := None, lk_connected := False, lk_connecting := False\<rparr>) s))"

definition connectToRelay :: "client_platform \<Rightarrow> client_env \<Rightarrow> string \<Rightarrow> client_act" where
  "connectToRelay P v url s = (case jm_get (cl_connections s) url of None \<Rightarrow> ([], s) | Some k \<Rightarrow>
     if cl_stopped s \<or> lk_connected k \<or> lk_connecting k then ([], s)
     else (let s1 = on_link url (\<lambda>k. k\<lparr>lk_fatalError := None, lk_connecting := True\<rparr>) s; w = cl_nextSocket s
       in case ce_badUrl v url of
            Some m \<Rightarrow> ([], connect_failed P v url m s1)
          | None \<Rightarrow> ([OpenSocket w url], (on_link url (\<lambda>k. k\<lparr>lk_ws := Some w\<rparr>) s1)
              \<lparr>cl_nextSocket := w + 1, cl_sockets := jm_set w (url, SocketOpening) (cl_sockets s)\<rparr>)))"

definition hello_message :: "client_platform \<Rightarrow> msec \<Rightarrow> relay_client \<Rightarrow> e2e_error + wire_msg" where
  "hello_message P now s = (let c = cp_config P; token = given_string (cc_inviteToken c);
       payload = JObj ([(''did'', JStr (cc_did c)), (''card'', card_json (cl_card s)), (''timestamp'', JNum (of_int now))]
         @ (case token of Some t \<Rightarrow> [(''inviteToken'', JStr t)] | None \<Rightarrow> []))
     in and_then (identity_sign (cp_crypto P) (cp_encode P payload) (cc_privateKey c)) (\<lambda>sig.
        Inr (WHello \<lparr>wh_did = cc_did c, wh_card = cl_card s, wh_timestamp = now, wh_signature = sig, wh_inviteToken = token\<rparr>)))"

definition set_phase :: "nat \<Rightarrow> string \<Rightarrow> socket_phase \<Rightarrow> relay_client \<Rightarrow> relay_client" where
  "set_phase w url ph s = s\<lparr>cl_sockets := jm_set w (url, ph) (cl_sockets s)\<rparr>"

definition on_socket_open :: "client_platform \<Rightarrow> client_env \<Rightarrow> nat \<Rightarrow> client_act" where
  "on_socket_open P v w s = (case jm_get (cl_sockets s) w of
     Some (url, SocketOpening) \<Rightarrow> (case hello_message P (ce_now v) s of
         Inl e \<Rightarrow> ([], connect_failed P v url (thrown_text e) (set_phase w url SocketGivenUp s))
       | Inr m \<Rightarrow> (case ce_sendThrows v w of
             Some x \<Rightarrow> ([], connect_failed P v url x (set_phase w url SocketGivenUp s))
           | None \<Rightarrow> ([SendWs w m], set_phase w url SocketLive s)))
   | Some (url, SocketGivenUp) \<Rightarrow> (case hello_message P (ce_now v) s of
         Inl e \<Rightarrow> ([], s) | Inr m \<Rightarrow> (if ce_sendThrows v w = None then [SendWs w m] else [], s))
   | _ \<Rightarrow> ([], s))"

text \<open>An error of the socket, or the timeout of ten seconds, before it is open.\<close>

definition on_open_failed :: "client_platform \<Rightarrow> client_env \<Rightarrow> nat \<Rightarrow> string \<Rightarrow> relay_client \<Rightarrow> relay_client" where
  "on_open_failed P v w m s = (case jm_get (cl_sockets s) w of
     Some (url, SocketOpening) \<Rightarrow> connect_failed P v url m (set_phase w url SocketGivenUp s) | _ \<Rightarrow> s)"

section \<open>Requests and accepted sends\<close>

text \<open>The rest of \<open>maintainRelaySet\<close>, with the relays that were found: their endpoints in turn, until as many connections are planned
  as the target.\<close>

fun plan_endpoints :: "client_platform \<Rightarrow> client_env \<Rightarrow> string list \<Rightarrow> int \<Rightarrow> relay_client \<Rightarrow> client_out list \<times> int \<times> relay_client" where
  "plan_endpoints P v [] planned s = ([], planned, s)"
| "plan_endpoints P v (e # es) planned s =
     (let u = normalizeRelayUrl e; s1 = ensureConnection e s;
          free = (case jm_get (cl_connections s1) u of Some k \<Rightarrow> \<not> lk_connected k \<and> \<not> lk_connecting k \<and> lk_reconnectTimer k = None | None \<Rightarrow> False)
      in if free \<and> planned < targetRelayCount P
         then (let (out, s2) = connectToRelay P v u s1; (out', n, s3) = plan_endpoints P v es (planned + 1) s2 in (out @ out', n, s3))
         else plan_endpoints P v es planned s1)"

fun plan_relays :: "client_platform \<Rightarrow> client_env \<Rightarrow> string list \<Rightarrow> discovered list \<Rightarrow> int \<Rightarrow> client_act" where
  "plan_relays P v ids [] planned s = ([], s)"
| "plan_relays P v ids (a # as) planned s =
     (if \<not> isRelayProvider a \<or> dg_did a \<in> set ids then plan_relays P v ids as planned s
      else (let (out, n, s1) = plan_endpoints P v (extractRelayEndpoints (dg_card a)) planned s; (out', s2) = plan_relays P v ids as n s1
        in (out @ out', s2)))"

definition finish_maintenance :: "client_platform \<Rightarrow> client_env \<Rightarrow> client_error + wire_msg \<Rightarrow> client_act" where
  "finish_maintenance P v res s = (case res of
     Inr (WDiscovered as) \<Rightarrow>
       (let (out, s1) = plan_relays P v (getConnectedRelayIds s) (filterVerifiedDiscoveredAgents (cp_crypto P) (cp_json P) as)
          (int (length (listConnectedRelays s))) (s\<lparr>cl_lastDiscoveryAt := Some (ce_now v)\<rparr>)
        in (out, s1\<lparr>cl_maintenanceInFlight := False\<rparr>))
   | _ \<Rightarrow> ([], s\<lparr>cl_maintenanceInFlight := False\<rparr>))"

text \<open>A request ends: its promise is settled, or the maintenance goes on.\<close>

definition settle_request :: "client_platform \<Rightarrow> client_env \<Rightarrow> nat option \<Rightarrow> client_op \<Rightarrow> client_error + wire_msg \<Rightarrow> client_act" where
  "settle_request P v t opn res s = (case t of
     None \<Rightarrow> finish_maintenance P v res (s\<lparr>cl_active := False\<rparr>)
   | Some t \<Rightarrow> ([Settled t (case res of Inl e \<Rightarrow> RFailed e | Inr m \<Rightarrow> op_result (cp_crypto P) (cp_json P) opn m)], s\<lparr>cl_active := False\<rparr>))"

text \<open>\<open>withSerializedRequest\<close>, \<open>getConnectedConnection\<close> and \<open>awaitControlResponse\<close>: the operations start in turn, until one waits for its
  response.\<close>

fun start_requests :: "client_platform \<Rightarrow> client_env \<Rightarrow> (nat option \<times> client_op) list \<Rightarrow> client_act" where
  "start_requests P v [] s = ([], s\<lparr>cl_requests := []\<rparr>)"
| "start_requests P v ((t, opn) # qs) s = (case getConnectedConnection s of
     None \<Rightarrow> and_do (settle_request P v t opn (Inl (TransportError ''No connected relay''))) (start_requests P v qs) s
   | Some (u, k) \<Rightarrow> (case lk_pendingRequest k of
         Some pq \<Rightarrow> and_do (settle_request P v t opn (Inl (TransportError (''Relay request already pending: '' @ op_type (pq_op pq))))) (start_requests P v qs) s
       | None \<Rightarrow> (case lk_ws k of
             None \<Rightarrow> and_do (settle_request P v t opn (Inl (TransportError ''No connected relay''))) (start_requests P v qs) s
           | Some w \<Rightarrow> (case ce_sendThrows v w of
               Some x \<Rightarrow> and_do (settle_request P v t opn (Inl (TransportError (''Failed to send '' @ op_type opn)))) (start_requests P v qs) s
             | None \<Rightarrow> ([SendWs w (op_request opn)],
                 (on_link u (\<lambda>k. k\<lparr>lk_pendingRequest := Some \<lparr>pq_ticket = t, pq_op = opn, pq_queuedMatch = False, pq_outOfBand = lk_handlerDepth k > 0\<rparr>\<rparr>) s)
                   \<lparr>cl_active := True, cl_requests := qs\<rparr>)))))"

definition run_requests :: "client_platform \<Rightarrow> client_env \<Rightarrow> client_act" where
  "run_requests P v s = (if cl_active s then ([], s) else start_requests P v (cl_requests s) s)"

definition enqueue_request :: "nat option \<Rightarrow> client_op \<Rightarrow> relay_client \<Rightarrow> relay_client" where
  "enqueue_request t opn s = s\<lparr>cl_requests := cl_requests s @ [(t, opn)]\<rparr>"

definition take_pending :: "string \<Rightarrow> relay_client \<Rightarrow> relay_client" where
  "take_pending url s = on_link url (\<lambda>k. k\<lparr>lk_pendingRequest := None\<rparr>) s"

definition rejectPendingRequest :: "client_platform \<Rightarrow> client_env \<Rightarrow> string \<Rightarrow> client_error \<Rightarrow> bool \<Rightarrow> client_act" where
  "rejectPendingRequest P v url err force s = (case Option.bind (jm_get (cl_connections s) url) lk_pendingRequest of
     None \<Rightarrow> ([], s)
   | Some pq \<Rightarrow> if \<not> force \<and> pq_queuedMatch pq then ([], s) else settle_request P v (pq_ticket pq) (pq_op pq) (Inl err) (take_pending url s))"

definition accepted_outcome :: "msec \<Rightarrow> string \<Rightarrow> relay_send_outcome" where
  "accepted_outcome now i = \<lparr>so_messageId = i, so_status = Accepted, so_reportedAt = now\<rparr>"

definition rejectPendingDeliveryAcceptance :: "string \<Rightarrow> client_error \<Rightarrow> client_act" where
  "rejectPendingDeliveryAcceptance url err s = (case Option.bind (jm_get (cl_connections s) url) lk_pendingAcceptance of
     None \<Rightarrow> ([], s)
   | Some a \<Rightarrow> ([Settled (as_ticket a) (RFailed err)], on_link url (\<lambda>k. k\<lparr>lk_pendingAcceptance := None\<rparr>) s))"

text \<open>The \<open>sendAcceptanceChain\<close> of a connection: the sends start in turn, until one waits for its report.\<close>

fun start_sends :: "client_env \<Rightarrow> string \<Rightarrow> accepted_send list \<Rightarrow> client_act" where
  "start_sends v url [] s = ([], on_link url (\<lambda>k. k\<lparr>lk_sends := []\<rparr>) s)"
| "start_sends v url (a # as) s = (case as_ws a of
     Some w \<Rightarrow> (case ce_sendThrows v w of
         Some x \<Rightarrow> and_do (\<lambda>s. ([Settled (as_ticket a) (RFailed (TransportError ''Failed to send envelope''))], s)) (start_sends v url as) s
       | None \<Rightarrow> ([SendWs w (WSend (as_to a) (as_bytes a))], on_link url (\<lambda>k. k\<lparr>lk_pendingAcceptance := Some a, lk_sends := as\<rparr>) s))
   | None \<Rightarrow> (case jm_get (cl_connections s) url of
         None \<Rightarrow> ([], s)
       | Some k \<Rightarrow> (case (if lk_connected k then lk_ws k else None) of
             None \<Rightarrow> and_do (\<lambda>s. ([Settled (as_ticket a) (RFailed (TransportError ''No connected relay''))], s)) (start_sends v url as) s
           | Some w \<Rightarrow> (case ce_sendThrows v w of
               Some x \<Rightarrow> and_do (\<lambda>s. ([Settled (as_ticket a) (RFailed (TransportError ''Failed to send envelope''))], s)) (start_sends v url as) s
             | None \<Rightarrow> and_do (\<lambda>s. ([SendWs w (WSend (as_to a) (as_bytes a)), Settled (as_ticket a) (RSent (accepted_outcome (ce_now v) (as_envelopeId a)))], s))
                 (start_sends v url as) s))))"

definition run_sends :: "client_env \<Rightarrow> string \<Rightarrow> client_act" where
  "run_sends v url s = (case jm_get (cl_connections s) url of None \<Rightarrow> ([], s)
     | Some k \<Rightarrow> if lk_pendingAcceptance k \<noteq> None then ([], s) else start_sends v url (lk_sends k) s)"

fun run_all_sends :: "client_env \<Rightarrow> string list \<Rightarrow> client_act" where
  "run_all_sends v [] s = ([], s)"
| "run_all_sends v (u # us) s = and_do (run_sends v u) (run_all_sends v us) s"

definition extractEnvelopeId :: "client_platform \<Rightarrow> bytes \<Rightarrow> client_error + string" where
  "extractEnvelopeId P bs = (case cp_decode P bs of
     None \<Rightarrow> Inl (SocketError ''Failed to decode'')
   | Some (JObj m) \<Rightarrow> (case json_str m ''id'' of Some i \<Rightarrow> Inr i | None \<Rightarrow> Inl (TransportError ''Outgoing envelope is missing an id''))
   | Some _ \<Rightarrow> Inl (TransportError ''Outgoing envelope is missing an id''))"

definition sendEnvelopeAwaitAccepted :: "client_platform \<Rightarrow> nat \<Rightarrow> did \<Rightarrow> bytes \<Rightarrow> client_act" where
  "sendEnvelopeAwaitAccepted P t rcpt bs s = (case getConnectedConnection s of
     None \<Rightarrow> ([Settled t (RFailed (TransportError ''No connected relay''))], s)
   | Some (u, k) \<Rightarrow> (case extractEnvelopeId P bs of
       Inl e \<Rightarrow> ([Settled t (RFailed e)], s)
     | Inr i \<Rightarrow> ([], on_link u (\<lambda>k. k\<lparr>lk_sends := lk_sends k @
         [\<lparr>as_ticket = t, as_to = rcpt, as_bytes = bs, as_envelopeId = i, as_ws = (if lk_degraded k then None else lk_ws k)\<rparr>]\<rparr>) s)))"

text \<open>No report came in time: the send counts as accepted, and the connection is degraded.\<close>

definition on_accept_timeout :: "client_env \<Rightarrow> string \<Rightarrow> client_act" where
  "on_accept_timeout v url s = (case Option.bind (jm_get (cl_connections s) url) lk_pendingAcceptance of
     None \<Rightarrow> ([], s)
   | Some a \<Rightarrow> ([Settled (as_ticket a) (RSent (accepted_outcome (ce_now v) (as_envelopeId a)))],
       on_link url (\<lambda>k. k\<lparr>lk_pendingAcceptance := None, lk_degraded := True\<rparr>) s))"

definition on_request_timeout :: "client_platform \<Rightarrow> client_env \<Rightarrow> string \<Rightarrow> client_act" where
  "on_request_timeout P v url s = (case Option.bind (jm_get (cl_connections s) url) lk_pendingRequest of
     None \<Rightarrow> ([], s)
   | Some pq \<Rightarrow> settle_request P v (pq_ticket pq) (pq_op pq) (Inl (TransportError (op_timeout (pq_op pq)))) (take_pending url s))"

section \<open>Messages of the relay\<close>

definition deliveryReportError :: "delivery_status \<Rightarrow> client_error" where
  "deliveryReportError st = TransportError (case st of
     QueueFullReport \<Rightarrow> ''Relay queue full for recipient''
   | UnknownRecipient \<Rightarrow> ''Recipient not found on relay''
   | ExpiredReport \<Rightarrow> ''Relay delivery expired before acceptance''
   | Accepted \<Rightarrow> ''Unexpected relay delivery report: accepted''
   | Delivered \<Rightarrow> ''Unexpected relay delivery report: delivered'')"

definition settlePendingDeliveryAcceptance :: "string \<Rightarrow> string \<Rightarrow> delivery_status \<Rightarrow> msec \<Rightarrow> client_act" where
  "settlePendingDeliveryAcceptance url i st ts s = (case Option.bind (jm_get (cl_connections s) url) lk_pendingAcceptance of
     None \<Rightarrow> ([], s)
   | Some a \<Rightarrow>
       if st = Delivered then ([], s)
       else ([Settled (as_ticket a) (if st = Accepted then RSent \<lparr>so_messageId = i, so_status = st, so_reportedAt = ts\<rparr> else RFailed (deliveryReportError st))],
         on_link url (\<lambda>k. k\<lparr>lk_pendingAcceptance := None\<rparr>) s))"

definition ack_out :: "client_env \<Rightarrow> string \<Rightarrow> relay_connection \<Rightarrow> client_out list" where
  "ack_out v i k = (case lk_ws k of
     Some w \<Rightarrow> if lk_connected k \<and> ce_sendThrows v w = None then [SendWs w (WAck i)] else [] | None \<Rightarrow> [])"

definition on_welcome :: "string \<Rightarrow> relay_connection \<Rightarrow> string option \<Rightarrow> nat \<Rightarrow> client_act" where
  "on_welcome url k relayId peers s =
     (let s1 = on_link url (\<lambda>k. k\<lparr>lk_relayId := relayId\<rparr>) s
      in if given_string relayId \<noteq> None \<and> list_ex (\<lambda>(u, x). u \<noteq> url \<and> lk_connected x \<and> lk_relayId x = relayId) (cl_connections s)
         then (case lk_ws k of Some w \<Rightarrow> [CloseWsWith w (Some 1000)] | None \<Rightarrow> [],
           on_link url (\<lambda>k. k\<lparr>lk_connected := False, lk_connecting := False, lk_fatalError := Some (TransportError ''Duplicate relay connection''),
             lk_ws := None\<rparr>) s1)
         else ([], clearFailure url (on_link url (\<lambda>k. k\<lparr>lk_connected := True, lk_connecting := False, lk_peerCount := peers, lk_reconnectAttempt := 0,
           lk_degraded := False, lk_stableTimer := True, lk_pingTimer := True\<rparr>) s1)))"

definition handleRelayMessage :: "client_env \<Rightarrow> string \<Rightarrow> relay_connection \<Rightarrow> wire_msg \<Rightarrow> client_act" where
  "handleRelayMessage v url k m s = (case m of
     WWelcome relayId peers \<Rightarrow> on_welcome url k relayId peers s
   | WDeliver i f bs \<Rightarrow>
       if cl_hasDeliver s then ([HandDeliver url i f bs], on_link url (\<lambda>k. k\<lparr>lk_handling := Some i, lk_handlerDepth := lk_handlerDepth k + 1\<rparr>) s)
       else (ack_out v i k, s)
   | WDeliveryReport i st ts \<Rightarrow> and_do (settlePendingDeliveryAcceptance url i st ts) (\<lambda>s. (if cl_hasReport s then [HandReport i st ts] else [], s)) s
   | WPong peers \<Rightarrow> ([], on_link url (\<lambda>k. k\<lparr>lk_peerCount := peers\<rparr>) s)
   | WGoodbye after \<Rightarrow> (case lk_ws k of Some w \<Rightarrow> [CloseWsWith w None] | None \<Rightarrow> [],
       s\<lparr>cl_dials := cl_dials s @ [(url, of_int (case after of Some n \<Rightarrow> if n = 0 then 5000 else n | None \<Rightarrow> 5000))]\<rparr>)
   | _ \<Rightarrow> ([], s))"

text \<open>The next job of the \<open>inboundDispatchChain\<close>, unless the delivery handler of the job before has not ended.\<close>

definition dispatchRelayMessage :: "client_platform \<Rightarrow> client_env \<Rightarrow> string \<Rightarrow> client_act" where
  "dispatchRelayMessage P v url s = (case jm_get (cl_connections s) url of None \<Rightarrow> ([], s) | Some k \<Rightarrow>
     if lk_handling k \<noteq> None then ([], s)
     else (case lk_inbox k of [] \<Rightarrow> ([], s) | m # ms \<Rightarrow>
       (let s1 = on_link url (\<lambda>k. k\<lparr>lk_inbox := ms\<rparr>) s
        in case lk_pendingRequest k of
             Some pq \<Rightarrow> if op_matches (pq_op pq) m then settle_request P v (pq_ticket pq) (pq_op pq) (Inr m) (take_pending url s1)
               else handleRelayMessage v url k m s1
           | None \<Rightarrow> handleRelayMessage v url k m s1)))"

text \<open>The promise of a delivery handler is fulfilled or rejected.\<close>

definition on_handler_done :: "client_env \<Rightarrow> string \<Rightarrow> bool \<Rightarrow> client_act" where
  "on_handler_done v url fulfilled s = (case jm_get (cl_connections s) url of None \<Rightarrow> ([], s) | Some k \<Rightarrow>
     (case lk_handling k of None \<Rightarrow> ([], s) | Some i \<Rightarrow>
       (if fulfilled then ack_out v i k else [], on_link url (\<lambda>k. k\<lparr>lk_handling := None, lk_handlerDepth := lk_handlerDepth k - 1\<rparr>) s)))"

definition on_socket_message :: "client_platform \<Rightarrow> client_env \<Rightarrow> nat \<Rightarrow> wire_msg \<Rightarrow> client_act" where
  "on_socket_message P v w m s = (case jm_get (cl_sockets s) w of
     Some (url, SocketLive) \<Rightarrow>
       (let queued = on_link url (\<lambda>k. k\<lparr>lk_inbox := lk_inbox k @ [m]\<rparr>)
        in case Option.bind (jm_get (cl_connections s) url) lk_pendingRequest of
             Some pq \<Rightarrow>
               if \<not> op_matches (pq_op pq) m then ([], queued s)
               else if pq_outOfBand pq then settle_request P v (pq_ticket pq) (pq_op pq) (Inr m) (take_pending url s)
               else ([], queued (on_link url (\<lambda>k. k\<lparr>lk_pendingRequest := Some (pq\<lparr>pq_queuedMatch := True\<rparr>)\<rparr>) s))
           | None \<Rightarrow> ([], queued s))
   | _ \<Rightarrow> ([], s))"

definition on_socket_closed :: "client_platform \<Rightarrow> client_env \<Rightarrow> nat \<Rightarrow> int \<Rightarrow> string \<Rightarrow> client_act" where
  "on_socket_closed P v w code reason s = (case jm_get (cl_sockets s) w of
     Some (url, SocketLive) \<Rightarrow>
       and_do (rejectPendingRequest P v url (TransportError ''Relay connection closed before response'') False)
        (and_do (rejectPendingDeliveryAcceptance url (TransportError ''Relay connection closed before delivery report''))
          (\<lambda>s. ([], case mapRelayCloseError code reason of
             Some e \<Rightarrow> recordFailure (ce_now v) url (error_message e) (on_link url (\<lambda>k. k\<lparr>lk_fatalError := Some e\<rparr>) s)
           | None \<Rightarrow> if cl_stopped s then s
               else scheduleReconnect P v url (recordFailure (ce_now v) url (or_text reason (''Relay closed with code '' @ js_show_int code)) s))))
         ((on_link url (\<lambda>k. k\<lparr>lk_connected := False, lk_connecting := False, lk_ws := None, lk_degraded := False, lk_stableTimer := False, lk_pingTimer := False\<rparr>) s)
           \<lparr>cl_sockets := jm_del w (cl_sockets s)\<rparr>)
   | _ \<Rightarrow> ([], s))"

section \<open>Calls\<close>

definition sendToRelay :: "client_env \<Rightarrow> nat \<Rightarrow> wire_msg \<Rightarrow> client_act" where
  "sendToRelay v t m s = (case Option.bind (getConnectedConnection s) (\<lambda>(u, k). lk_ws k) of
     None \<Rightarrow> ([Settled t (RFailed (TransportError ''No connected relay''))], s)
   | Some w \<Rightarrow> (case ce_sendThrows v w of
         Some x \<Rightarrow> ([Settled t (RFailed (SocketError x))], s) | None \<Rightarrow> ([SendWs w m, Settled t RUnit], s)))"

definition startMaintenanceLoop :: "client_platform \<Rightarrow> relay_client \<Rightarrow> relay_client" where
  "startMaintenanceLoop P s = (if \<not> auto_discover P \<or> cl_maintenanceTimer s then s
     else s\<lparr>cl_maintenanceTimer := True, cl_firstMaintenance := cl_firstMaintenance s + 1\<rparr>)"

text \<open>One turn of the loop of \<open>start\<close>, every hundred milliseconds for fifteen seconds.\<close>

definition start_turn :: "client_platform \<Rightarrow> msec \<Rightarrow> nat \<Rightarrow> msec \<Rightarrow> client_act" where
  "start_turn P now t t0 s = (let errors = List.map_filter (\<lambda>(u, k). lk_fatalError k) (cl_connections s);
       finish = (\<lambda>r s. ([Settled t r], s\<lparr>cl_starting := remove1 (t, t0) (cl_starting s)\<rparr>))
     in if now - t0 < 15000
        then if getConnectedConnection s \<noteq> None then finish RUnit (startMaintenanceLoop P s)
          else if cl_connections s \<noteq> [] \<and> length errors = length (cl_connections s) then finish (RFailed (hd errors)) s
          else ([], s)
        else finish (RFailed (case errors of e # _ \<Rightarrow> e | [] \<Rightarrow> TransportError ''Failed to connect to any relay'')) s)"

definition on_start :: "client_platform \<Rightarrow> client_env \<Rightarrow> nat \<Rightarrow> client_act" where
  "on_start P v t s = start_turn P (ce_now v) t (ce_now v)
     (s\<lparr>cl_stopped := False, cl_dials := cl_dials s @ map (\<lambda>u. (u, ce_random v * 2000)) (jm_keys (cl_connections s)),
       cl_starting := cl_starting s @ [(t, ce_now v)]\<rparr>)"

definition stop_connection :: "client_platform \<Rightarrow> client_env \<Rightarrow> string \<Rightarrow> client_act" where
  "stop_connection P v url s =
     and_do (rejectPendingRequest P v url (TransportError ''Relay client stopped before response'') True)
      (and_do (rejectPendingDeliveryAcceptance url (TransportError ''Relay client stopped before delivery report''))
        (\<lambda>s. (case Option.bind (jm_get (cl_connections s) url) lk_ws of Some w \<Rightarrow> [CloseWsWith w None] | None \<Rightarrow> [],
          on_link url (\<lambda>k. k\<lparr>lk_ws := None, lk_connected := False, lk_connecting := False\<rparr>) s)))
      (on_link url (\<lambda>k. k\<lparr>lk_reconnectTimer := None, lk_stableTimer := False, lk_pingTimer := False\<rparr>) s)"

fun stop_connections :: "client_platform \<Rightarrow> client_env \<Rightarrow> string list \<Rightarrow> client_act" where
  "stop_connections P v [] s = ([], s)"
| "stop_connections P v (u # us) s = and_do (stop_connection P v u) (stop_connections P v us) s"

definition on_stop :: "client_platform \<Rightarrow> client_env \<Rightarrow> nat \<Rightarrow> client_act" where
  "on_stop P v t s = and_do (stop_connections P v (jm_keys (cl_connections s))) (\<lambda>s. ([Settled t RUnit], s))
     (s\<lparr>cl_stopped := True, cl_maintenanceTimer := False\<rparr>)"

definition maintainRelaySet :: "client_platform \<Rightarrow> client_act" where
  "maintainRelaySet P s =
     (if cl_stopped s \<or> cl_maintenanceInFlight s \<or> \<not> auto_discover P then ([], s)
      else if int (length (listConnectedRelays s)) \<ge> targetRelayCount P \<or> getConnectedConnection s = None then ([], s)
      else ([], enqueue_request None (OpDiscover None (Some (discovery_capability P)) None (Some (max (targetRelayCount P * 4) 10))) (s\<lparr>cl_maintenanceInFlight := True\<rparr>)))"

datatype client_call =
    StartCall
  | StopCall
  | SendEnvelopeCall did bytes
  | SendAwaitCall did bytes
  | RequestCall client_op
  | PublishCardCall "wire_card option"
  | UnpublishCardCall

definition client_call :: "client_platform \<Rightarrow> client_env \<Rightarrow> nat \<Rightarrow> client_call \<Rightarrow> client_act" where
  "client_call P v t c s = (case c of
     StartCall \<Rightarrow> on_start P v t s
   | StopCall \<Rightarrow> on_stop P v t s
   | SendEnvelopeCall d bs \<Rightarrow> sendToRelay v t (WSend d bs) s
   | SendAwaitCall d bs \<Rightarrow> sendEnvelopeAwaitAccepted P t d bs s
   | RequestCall opn \<Rightarrow> ([], enqueue_request (Some t) opn s)
   | PublishCardCall cd \<Rightarrow> sendToRelay v t (WPublishCard cd) (case cd of Some x \<Rightarrow> s\<lparr>cl_card := x\<rparr> | None \<Rightarrow> s)
   | UnpublishCardCall \<Rightarrow> sendToRelay v t WUnpublishCard s)"

section \<open>Steps\<close>

datatype client_event =
    Call client_call
  | OnDeliver
  | OnDeliveryReport
  | SocketOpen nat
  | SocketFailed nat string
  | ConnectTimeout nat
  | SocketMessage nat wire_msg
  | SocketClosed nat int string
  | Dispatch string
  | HandlerDone string bool
  | RequestTimeout string
  | AcceptTimeout string
  | ReconnectTimer string
  | StableTimer string
  | PingTimer string
  | DialTimer string
  | FirstMaintenance
  | MaintenanceTimer
  | StartTurn nat

definition timer_set :: "(relay_connection \<Rightarrow> bool) \<Rightarrow> string \<Rightarrow> relay_client \<Rightarrow> bool" where
  "timer_set f url s \<longleftrightarrow> (case jm_get (cl_connections s) url of Some k \<Rightarrow> f k | None \<Rightarrow> False)"

definition client_handle :: "client_platform \<Rightarrow> client_env \<Rightarrow> client_event \<Rightarrow> client_act" where
  "client_handle P v ev s = (case ev of
     Call c \<Rightarrow> client_call P v (cl_nextTicket s) c (s\<lparr>cl_nextTicket := cl_nextTicket s + 1\<rparr>)
   | OnDeliver \<Rightarrow> ([], s\<lparr>cl_hasDeliver := True\<rparr>)
   | OnDeliveryReport \<Rightarrow> ([], s\<lparr>cl_hasReport := True\<rparr>)
   | SocketOpen w \<Rightarrow> on_socket_open P v w s
   | SocketFailed w m \<Rightarrow> ([], on_open_failed P v w m s)
   | ConnectTimeout w \<Rightarrow> ([], on_open_failed P v w ''Connection timeout'' s)
   | SocketMessage w m \<Rightarrow> on_socket_message P v w m s
   | SocketClosed w code reason \<Rightarrow> on_socket_closed P v w code reason s
   | Dispatch url \<Rightarrow> dispatchRelayMessage P v url s
   | HandlerDone url fulfilled \<Rightarrow> on_handler_done v url fulfilled s
   | RequestTimeout url \<Rightarrow> on_request_timeout P v url s
   | AcceptTimeout url \<Rightarrow> on_accept_timeout v url s
   | ReconnectTimer url \<Rightarrow> if timer_set (\<lambda>k. lk_reconnectTimer k \<noteq> None) url s
       then connectToRelay P v url (on_link url (\<lambda>k. k\<lparr>lk_reconnectTimer := None\<rparr>) s) else ([], s)
   | StableTimer url \<Rightarrow> ([], if timer_set lk_stableTimer url s then on_link url (\<lambda>k. k\<lparr>lk_reconnectAttempt := 0, lk_stableTimer := False\<rparr>) s else s)
   | PingTimer url \<Rightarrow> (case jm_get (cl_connections s) url of
       Some k \<Rightarrow> (case lk_ws k of Some w \<Rightarrow> if lk_pingTimer k \<and> lk_connected k \<and> ce_sendThrows v w = None then [SendWs w WPing] else [] | None \<Rightarrow> [])
     | None \<Rightarrow> [], s)
   | DialTimer url \<Rightarrow> (case List.find (\<lambda>(u, d). u = url) (cl_dials s) of
       None \<Rightarrow> ([], s) | Some x \<Rightarrow> connectToRelay P v url (s\<lparr>cl_dials := remove1 x (cl_dials s)\<rparr>))
   | FirstMaintenance \<Rightarrow> if cl_firstMaintenance s > 0 then maintainRelaySet P (s\<lparr>cl_firstMaintenance := cl_firstMaintenance s - 1\<rparr>) else ([], s)
   | MaintenanceTimer \<Rightarrow> if cl_maintenanceTimer s then maintainRelaySet P s else ([], s)
   | StartTurn t \<Rightarrow> (case List.find (\<lambda>(u, t0). u = t) (cl_starting s) of
       None \<Rightarrow> ([], s) | Some (u, t0) \<Rightarrow> start_turn P (ce_now v) t t0 s))"

definition client_step :: "client_platform \<Rightarrow> client_env \<times> client_event \<Rightarrow> client_act" where
  "client_step P ve = and_do (client_handle P (fst ve) (snd ve))
     (and_do (run_requests P (fst ve)) (\<lambda>s. run_all_sends (fst ve) (jm_keys (cl_connections s)) s))"

fun client_run :: "client_platform \<Rightarrow> (client_env \<times> client_event) list \<Rightarrow> client_act" where
  "client_run P [] s = ([], s)"
| "client_run P (ve # ves) s = and_do (client_step P ve) (client_run P ves) s"

section \<open>What the client reports\<close>

definition isConnected :: "relay_client \<Rightarrow> bool" where
  "isConnected s \<longleftrightarrow> getConnectedConnection s \<noteq> None"

definition getPeerCount :: "relay_client \<Rightarrow> nat" where
  "getPeerCount s = (case getConnectedConnection s of Some (u, k) \<Rightarrow> lk_peerCount k | None \<Rightarrow> 0)"

record reachability_status =
  rs_connectedRelays :: "string list"
  rs_knownRelays :: "string list"
  rs_lastDiscoveryAt :: "msec option"
  rs_relayFailures :: "(string \<times> relay_failure) list"
  rs_targetRelayCount :: int
  rs_autoDiscoverRelays :: bool

definition getReachabilityStatus :: "client_platform \<Rightarrow> relay_client \<Rightarrow> reachability_status" where
  "getReachabilityStatus P s = \<lparr>rs_connectedRelays = listConnectedRelays s, rs_knownRelays = listKnownRelays s, rs_lastDiscoveryAt = cl_lastDiscoveryAt s,
     rs_relayFailures = cl_failures s, rs_targetRelayCount = targetRelayCount P, rs_autoDiscoverRelays = auto_discover P\<rparr>"

end
