(* ===== verification/Relay_Client_Props.thy ===== *)
theory Relay_Client_Props
  imports Relay_Client E2E_Agents
begin

text \<open>
  Properties of the relay client: every call is settled once, with a result that fits, or waits; requests never collide; what a
  cycle of the maintenance opens; and three ways in which the client does not do what it promises.
\<close>

section \<open>Calls that wait\<close>

definition asked :: "(nat option \<times> client_op) list \<Rightarrow> nat multiset" where
  "asked qs = mset (List.map_filter fst qs)"

definition link_waiting :: "relay_connection \<Rightarrow> nat multiset" where
  "link_waiting k = (case lk_pendingRequest k of Some pq \<Rightarrow> asked [(pq_ticket pq, pq_op pq)] | None \<Rightarrow> {#})
     + (case lk_pendingAcceptance k of Some a \<Rightarrow> {#as_ticket a#} | None \<Rightarrow> {#}) + mset (map as_ticket (lk_sends k))"

definition links_waiting :: "(string, relay_connection) jsmap \<Rightarrow> nat multiset" where
  "links_waiting ks = sum_list (map (\<lambda>(u, k). link_waiting k) ks)"

definition waiting :: "relay_client \<Rightarrow> nat multiset" where
  "waiting s = links_waiting (cl_connections s) + asked (cl_requests s) + mset (map fst (cl_starting s))"

definition settled :: "client_out list \<Rightarrow> nat multiset" where
  "settled out = mset (List.map_filter (\<lambda>x. case x of Settled t r \<Rightarrow> Some t | _ \<Rightarrow> None) out)"

lemma asked_simps [simp]: "asked [] = {#}" "asked ((t, opn) # qs) = (case t of None \<Rightarrow> {#} | Some t \<Rightarrow> {#t#}) + asked qs" "asked (qs @ qs') = asked qs + asked qs'"
  by (simp_all add: asked_def map_filter_simps map_filter_append split: option.split)

lemma settled_simps [simp]:
  "settled [] = {#}" "settled (Settled t r # out) = add_mset t (settled out)" "settled (out @ out') = settled out + settled out'"
  "settled (OpenSocket w u # out) = settled out" "settled (SendWs w m # out) = settled out" "settled (CloseWsWith w c # out) = settled out"
  "settled (HandDeliver u i f bs # out) = settled out" "settled (HandReport i st ts # out) = settled out"
  by (simp_all add: settled_def map_filter_simps map_filter_append)

lemma modify_waiting:
  "jm_get ks url = Some k \<Longrightarrow> links_waiting (jm_modify url f ks) + link_waiting k = links_waiting ks + link_waiting (f k)"
  unfolding links_waiting_def jm_modify_def by (induction ks) (auto simp: ac_simps)

definition keeps :: "client_act \<Rightarrow> nat multiset \<Rightarrow> nat multiset \<Rightarrow> relay_client \<Rightarrow> bool" where
  "keeps f new extra s \<longleftrightarrow> settled (fst (f s)) + waiting (snd (f s)) + extra = waiting s + new"

lemma on_link_waiting:
  assumes "\<And>k. jm_get (cl_connections s) url = Some k \<Longrightarrow> link_waiting (f k) = link_waiting k"
  shows "waiting (on_link url f s) = waiting s"
proof (cases "jm_get (cl_connections s) url")
  case (Some k)
  with modify_waiting [OF Some, of f] assms show ?thesis by (simp add: on_link_def waiting_def)
qed (simp add: on_link_def jm_modify_None)

lemma on_link_keep [simp]: "(\<And>k. link_waiting (f k) = link_waiting k) \<Longrightarrow> waiting (on_link url f s) = waiting s"
  by (rule on_link_waiting) blast

lemma on_link_change:
  "jm_get (cl_connections s) url = Some k \<Longrightarrow> waiting (on_link url f s) + link_waiting k = waiting s + link_waiting (f k)"
  using modify_waiting [of "cl_connections s" url k f] by (simp add: on_link_def waiting_def ac_simps)

lemma link_waiting_simps [simp]:
  "link_waiting new_connection = {#}"
  "link_waiting (k\<lparr>lk_ws := a\<rparr>) = link_waiting k" "link_waiting (k\<lparr>lk_connected := b\<rparr>) = link_waiting k"
  "link_waiting (k\<lparr>lk_connecting := b\<rparr>) = link_waiting k" "link_waiting (k\<lparr>lk_fatalError := c\<rparr>) = link_waiting k"
  "link_waiting (k\<lparr>lk_reconnectAttempt := n\<rparr>) = link_waiting k" "link_waiting (k\<lparr>lk_reconnectTimer := d\<rparr>) = link_waiting k"
  "link_waiting (k\<lparr>lk_stableTimer := b\<rparr>) = link_waiting k" "link_waiting (k\<lparr>lk_pingTimer := b\<rparr>) = link_waiting k"
  "link_waiting (k\<lparr>lk_peerCount := n\<rparr>) = link_waiting k" "link_waiting (k\<lparr>lk_inbox := ms\<rparr>) = link_waiting k"
  "link_waiting (k\<lparr>lk_handling := h\<rparr>) = link_waiting k" "link_waiting (k\<lparr>lk_handlerDepth := n\<rparr>) = link_waiting k"
  "link_waiting (k\<lparr>lk_relayId := h\<rparr>) = link_waiting k" "link_waiting (k\<lparr>lk_degraded := b\<rparr>) = link_waiting k"
  by (simp_all add: link_waiting_def new_connection_def)

lemma waiting_simps [simp]:
  "waiting (s\<lparr>cl_card := a\<rparr>) = waiting s" "waiting (s\<lparr>cl_sockets := b\<rparr>) = waiting s" "waiting (s\<lparr>cl_nextSocket := n\<rparr>) = waiting s"
  "waiting (s\<lparr>cl_nextTicket := n\<rparr>) = waiting s" "waiting (s\<lparr>cl_failures := c\<rparr>) = waiting s" "waiting (s\<lparr>cl_hasDeliver := d\<rparr>) = waiting s"
  "waiting (s\<lparr>cl_hasReport := d\<rparr>) = waiting s" "waiting (s\<lparr>cl_stopped := d\<rparr>) = waiting s" "waiting (s\<lparr>cl_maintenanceTimer := d\<rparr>) = waiting s"
  "waiting (s\<lparr>cl_firstMaintenance := n\<rparr>) = waiting s" "waiting (s\<lparr>cl_maintenanceInFlight := d\<rparr>) = waiting s"
  "waiting (s\<lparr>cl_lastDiscoveryAt := e\<rparr>) = waiting s" "waiting (s\<lparr>cl_active := d\<rparr>) = waiting s" "waiting (s\<lparr>cl_dials := f\<rparr>) = waiting s"
  by (simp_all add: waiting_def)

lemma fields_on_link [simp]:
  "cl_requests (on_link url f s) = cl_requests s" "cl_starting (on_link url f s) = cl_starting s" "cl_active (on_link url f s) = cl_active s"
  "cl_nextTicket (on_link url f s) = cl_nextTicket s" "cl_hasDeliver (on_link url f s) = cl_hasDeliver s" "cl_stopped (on_link url f s) = cl_stopped s"
  "jm_get (cl_connections (on_link url f s)) u = (if u = url then map_option f (jm_get (cl_connections s) u) else jm_get (cl_connections s) u)"
  "jm_keys (cl_connections (on_link url f s)) = jm_keys (cl_connections s)" "cl_sockets (on_link url f s) = cl_sockets s"
  "cl_nextSocket (on_link url f s) = cl_nextSocket s" "cl_dials (on_link url f s) = cl_dials s" "cl_maintenanceInFlight (on_link url f s) = cl_maintenanceInFlight s"
  by (simp_all add: on_link_def)

lemma ensure_waiting [simp]: "waiting (ensureConnection u s) = waiting s"
proof -
  have "links_waiting (jm_set u k ks) = links_waiting ks + link_waiting k" if "\<not> jm_has ks u" for u k ks
    using that by (induction ks) (auto simp: links_waiting_def ac_simps split: if_splits)
  then show ?thesis by (simp add: ensureConnection_def Let_def waiting_def)
qed

lemma failed_waiting [simp]: "waiting (recordFailure now url m s) = waiting s" "waiting (clearFailure url s) = waiting s" "waiting (scheduleReconnect P v url s) = waiting s"
  "waiting (connect_failed P v url m s) = waiting s"
  by (simp_all add: recordFailure_def clearFailure_def scheduleReconnect_def connect_failed_def)

lemma connect_waiting [simp]: "waiting (snd (connectToRelay P v url s)) = waiting s" "settled (fst (connectToRelay P v url s)) = {#}"
  by (simp_all add: connectToRelay_def Let_def split: option.split)

lemma open_waiting [simp]: "waiting (snd (on_socket_open P v w s)) = waiting s" "settled (fst (on_socket_open P v w s)) = {#}"
  "waiting (on_open_failed P v w m s) = waiting s"
  by (simp_all add: on_socket_open_def on_open_failed_def set_phase_def split: option.split prod.split socket_phase.split sum.split)

text \<open>What a step settles and what then waits is what waited before with what is new; \<open>B\<close> is what the caller still accounts for.\<close>

definition conserves :: "relay_client \<Rightarrow> client_out list \<times> relay_client \<Rightarrow> nat multiset \<Rightarrow> nat multiset \<Rightarrow> bool" where
  "conserves s r A B \<longleftrightarrow> settled (fst r) + waiting (snd r) + B = waiting s + A"

lemma conserves_do:
  assumes "conserves s (f s) A B" "conserves (snd (f s)) (g (snd (f s))) C D"
  shows "conserves s (and_do f g s) (A + C) (B + D)"
proof -
  have do: "fst (and_do f g s) = fst (f s) @ fst (g (snd (f s)))" "snd (and_do f g s) = snd (g (snd (f s)))"
    by (simp_all add: and_do_def split_def Let_def)
  show ?thesis unfolding conserves_def
  proof (rule multiset_eqI)
    fix x
    show "count (settled (fst (and_do f g s)) + waiting (snd (and_do f g s)) + (B + D)) x = count (waiting s + (A + C)) x"
      using assms [unfolded conserves_def, THEN arg_cong, of "\<lambda>m. count m x"] by (simp add: do)
  qed
qed

lemma conserves_start: "conserves s' r A B \<Longrightarrow> waiting s' = waiting s \<Longrightarrow> conserves s r A B"
  by (simp add: conserves_def)

lemma plan_endpoints_waiting: "plan_endpoints P v es n s = (out, n', s') \<Longrightarrow> waiting s' = waiting s \<and> settled out = {#}"
proof (induction es arbitrary: n s out n' s')
  case (Cons e es)
  obtain out1 s1 where c: "connectToRelay P v (normalizeRelayUrl e) (ensureConnection e s) = (out1, s1)" by force
  have "waiting s1 = waiting s" "settled out1 = {#}"
    using connect_waiting [of P v "normalizeRelayUrl e" "ensureConnection e s"] by (simp_all add: c)
  with Cons show ?case by (auto simp: Let_def c split: if_splits prod.splits)
qed simp

lemma plan_relays_waiting: "plan_relays P v ids as n s = (out, s') \<Longrightarrow> waiting s' = waiting s \<and> settled out = {#}"
proof (induction as arbitrary: n s out s')
  case (Cons a as)
  obtain out1 n1 s1 where e: "plan_endpoints P v (extractRelayEndpoints (dg_card a)) n s = (out1, n1, s1)" by (metis prod_cases3)
  show ?case using Cons plan_endpoints_waiting [OF e] by (auto simp: e Let_def split: if_splits prod.splits)
qed simp

lemma maintenance_waiting: "waiting (snd (finish_maintenance P v res s)) = waiting s" "settled (fst (finish_maintenance P v res s)) = {#}"
  using plan_relays_waiting [of P v "getConnectedRelayIds s" _ _ "s\<lparr>cl_lastDiscoveryAt := Some (ce_now v)\<rparr>"]
  by (fastforce simp: finish_maintenance_def Let_def split: sum.split wire_msg.split prod.split)+

lemma settle_conserves: "conserves s (settle_request P v t opn res s) (asked [(t, opn)]) {#}"
  by (cases t) (simp_all add: conserves_def settle_request_def maintenance_waiting ac_simps)

lemma take_waiting:
  "Option.bind (jm_get (cl_connections s) url) lk_pendingRequest = Some pq \<Longrightarrow> waiting (take_pending url s) + asked [(pq_ticket pq, pq_op pq)] = waiting s"
  using on_link_change [of s url _ "\<lambda>k. k\<lparr>lk_pendingRequest := None\<rparr>"]
  by (auto simp: take_pending_def link_waiting_def bind_eq_Some_conv ac_simps split: if_splits)

lemma settle_taken:
  assumes "Option.bind (jm_get (cl_connections s) url) lk_pendingRequest = Some pq"
  shows "conserves s (settle_request P v (pq_ticket pq) (pq_op pq) res (take_pending url s)) {#} {#}"
  using settle_conserves [of "take_pending url s" P v "pq_ticket pq" "pq_op pq" res] take_waiting [OF assms] by (simp add: conserves_def ac_simps)

text \<open>The connections keep their keys, and new ones are added at the end.\<close>

definition links_ok :: "relay_client \<Rightarrow> bool" where
  "links_ok s \<longleftrightarrow> jm_ok (cl_connections s)"

lemma connected_get: "links_ok s \<Longrightarrow> getConnectedConnection s = Some (u, k) \<Longrightarrow> jm_get (cl_connections s) u = Some k \<and> lk_connected k \<and> lk_ws k \<noteq> None"
  by (auto simp: getConnectedConnection_def find_Some_iff links_ok_def) (metis jm_in_set_iff nth_mem)

lemma links_ok_simps [simp]:
  "links_ok (on_link u f s) = links_ok s" "links_ok (s\<lparr>cl_card := a\<rparr>) = links_ok s" "links_ok (s\<lparr>cl_sockets := b\<rparr>) = links_ok s"
  "links_ok (s\<lparr>cl_nextSocket := n\<rparr>) = links_ok s" "links_ok (s\<lparr>cl_nextTicket := n\<rparr>) = links_ok s" "links_ok (s\<lparr>cl_failures := c\<rparr>) = links_ok s"
  "links_ok (s\<lparr>cl_hasDeliver := d\<rparr>) = links_ok s" "links_ok (s\<lparr>cl_hasReport := d\<rparr>) = links_ok s" "links_ok (s\<lparr>cl_stopped := d\<rparr>) = links_ok s"
  "links_ok (s\<lparr>cl_maintenanceTimer := d\<rparr>) = links_ok s" "links_ok (s\<lparr>cl_firstMaintenance := n\<rparr>) = links_ok s"
  "links_ok (s\<lparr>cl_maintenanceInFlight := d\<rparr>) = links_ok s" "links_ok (s\<lparr>cl_lastDiscoveryAt := e\<rparr>) = links_ok s"
  "links_ok (s\<lparr>cl_active := d\<rparr>) = links_ok s" "links_ok (s\<lparr>cl_dials := g\<rparr>) = links_ok s" "links_ok (s\<lparr>cl_requests := h\<rparr>) = links_ok s"
  "links_ok (s\<lparr>cl_starting := i\<rparr>) = links_ok s"
  by (simp_all add: links_ok_def on_link_def)

lemma ensure_ok [simp]: "links_ok s \<Longrightarrow> links_ok (ensureConnection u s)"
  by (simp add: links_ok_def ensureConnection_def Let_def distinct_update)

lemma failed_ok [simp]: "links_ok (recordFailure now url m s) = links_ok s" "links_ok (clearFailure url s) = links_ok s"
  "links_ok (scheduleReconnect P v url s) = links_ok s" "links_ok (connect_failed P v url m s) = links_ok s" "links_ok (take_pending url s) = links_ok s"
  "links_ok (enqueue_request t opn s) = links_ok s" "links_ok (set_phase w url ph s) = links_ok s"
  by (simp_all add: recordFailure_def clearFailure_def scheduleReconnect_def connect_failed_def take_pending_def enqueue_request_def set_phase_def)

lemma failed_requests [simp]: "cl_requests (recordFailure now url m s) = cl_requests s" "cl_requests (clearFailure url s) = cl_requests s"
  "cl_requests (scheduleReconnect P v url s) = cl_requests s" "cl_requests (connect_failed P v url m s) = cl_requests s" "cl_requests (take_pending url s) = cl_requests s"
  "cl_requests (ensureConnection u s) = cl_requests s"
  by (simp_all add: recordFailure_def clearFailure_def scheduleReconnect_def connect_failed_def take_pending_def ensureConnection_def Let_def)

lemma connect_ok [simp]: "links_ok (snd (connectToRelay P v url s)) = links_ok s" "cl_requests (snd (connectToRelay P v url s)) = cl_requests s"
  by (simp_all add: connectToRelay_def Let_def split: option.split)

lemma plan_endpoints_ok: "plan_endpoints P v es n s = (out, n', s') \<Longrightarrow> links_ok s \<Longrightarrow> links_ok s' \<and> cl_requests s' = cl_requests s"
proof (induction es arbitrary: n s out n' s')
  case (Cons e es)
  obtain out1 s1 where c: "connectToRelay P v (normalizeRelayUrl e) (ensureConnection e s) = (out1, s1)" by force
  have "links_ok s1" "cl_requests s1 = cl_requests s" using connect_ok [of P v "normalizeRelayUrl e" "ensureConnection e s"] Cons.prems(2) by (simp_all add: c)
  with Cons show ?case by (auto simp: Let_def c split: if_splits prod.splits)
qed simp

lemma plan_relays_ok: "plan_relays P v ids as n s = (out, s') \<Longrightarrow> links_ok s \<Longrightarrow> links_ok s' \<and> cl_requests s' = cl_requests s"
proof (induction as arbitrary: n s out s')
  case (Cons a as)
  obtain out1 n1 s1 where e: "plan_endpoints P v (extractRelayEndpoints (dg_card a)) n s = (out1, n1, s1)" by (metis prod_cases3)
  show ?case using Cons plan_endpoints_ok [OF e] by (auto simp: e Let_def split: if_splits prod.splits)
qed simp

lemma maintenance_ok: "links_ok s \<Longrightarrow> links_ok (snd (finish_maintenance P v res s)) \<and> cl_requests (snd (finish_maintenance P v res s)) = cl_requests s"
  using plan_relays_ok [of P v "getConnectedRelayIds s" _ _ "s\<lparr>cl_lastDiscoveryAt := Some (ce_now v)\<rparr>"]
  by (fastforce simp: finish_maintenance_def Let_def split: sum.split wire_msg.split prod.split)

lemma settle_ok: "links_ok s \<Longrightarrow> links_ok (snd (settle_request P v t opn res s)) \<and> cl_requests (snd (settle_request P v t opn res s)) = cl_requests s"
  using maintenance_ok [of "s\<lparr>cl_active := False\<rparr>" P v res] by (cases t) (simp_all add: settle_request_def)

lemma start_requests_waiting: "links_ok s \<Longrightarrow> conserves s (start_requests P v qs s) (asked qs) (asked (cl_requests s))"
proof (induction qs arbitrary: s)
  case (Cons q qs)
  obtain t opn where q: "q = (t, opn)" by force
  have fail: "conserves s (and_do (settle_request P v t opn res) (start_requests P v qs) s) (asked (q # qs)) (asked (cl_requests s))" for res
    using conserves_do [of s "settle_request P v t opn res" "asked [(t, opn)]" "{#}" "start_requests P v qs" "asked qs" "asked (cl_requests s)"]
      settle_conserves [of s P v t opn res] Cons.IH [of "snd (settle_request P v t opn res s)"] settle_ok [OF Cons.prems, of P v t opn res]
    by (simp add: q)
  show ?case
  proof (cases "getConnectedConnection s")
    case (Some x)
    obtain u k where x: "x = (u, k)" by force
    then have k: "jm_get (cl_connections s) u = Some k" using connected_get [OF Cons.prems] Some by blast
    note ch = on_link_change [OF k, of "\<lambda>k. k\<lparr>lk_pendingRequest := Some \<lparr>pq_ticket = t, pq_op = opn, pq_queuedMatch = False, pq_outOfBand = lk_handlerDepth k > 0\<rparr>\<rparr>"]
    show ?thesis using fail ch
      by (auto simp: q Some x conserves_def waiting_def link_waiting_def ac_simps split: option.split)
  qed (use fail in \<open>simp add: q\<close>)
qed (simp add: conserves_def waiting_def ac_simps)

lemma run_requests_waiting: "links_ok s \<Longrightarrow> conserves s (run_requests P v s) {#} {#}"
  using start_requests_waiting [of s P v "cl_requests s"] by (simp add: run_requests_def conserves_def ac_simps)

lemma start_requests_ok: "links_ok s \<Longrightarrow> links_ok (snd (start_requests P v qs s))"
proof (induction qs arbitrary: s)
  case (Cons q qs)
  obtain t opn where q: "q = (t, opn)" by force
  have "links_ok (snd (and_do (settle_request P v t opn res) (start_requests P v qs) s))" for res
    using Cons.IH settle_ok [OF Cons.prems, of P v t opn res] by (simp add: and_do_def split_def Let_def)
  then show ?case using Cons.prems by (simp add: q split: option.split)
qed simp

lemma run_requests_ok: "links_ok s \<Longrightarrow> links_ok (snd (run_requests P v s))"
  by (simp add: run_requests_def start_requests_ok)

lemma settles_then: "settled (fst (and_do (\<lambda>s. (out, s)) f s)) = settled out + settled (fst (f s))" "snd (and_do (\<lambda>s. (out, s)) f s) = snd (f s)"
  by (simp_all add: and_do_def split_def Let_def)

lemma start_sends_waiting:
  assumes "jm_get (cl_connections s) url = Some k" "lk_pendingAcceptance k = None"
  shows "conserves s (start_sends v url as s) (mset (map as_ticket as)) (mset (map as_ticket (lk_sends k)))"
  using assms
proof (induction as)
  case Nil
  from on_link_change [OF Nil(1), of "\<lambda>k. k\<lparr>lk_sends := []\<rparr>"] show ?case by (simp add: conserves_def link_waiting_def ac_simps)
next
  case (Cons a as)
  from on_link_change [OF Cons.prems(1), of "\<lambda>k. k\<lparr>lk_pendingAcceptance := Some a, lk_sends := as\<rparr>"] Cons
  show ?case by (auto simp: conserves_def link_waiting_def settles_then ac_simps split: option.split)
qed

lemma start_sends_ok: "jm_keys (cl_connections (snd (start_sends v url as s))) = jm_keys (cl_connections s)"
  by (induction as) (simp_all add: settles_then split: option.split)

lemma run_sends_waiting: "conserves s (run_sends v url s) {#} {#}"
proof (cases "jm_get (cl_connections s) url")
  case (Some k)
  with start_sends_waiting [of s url k v "lk_sends k"] show ?thesis by (auto simp: run_sends_def conserves_def)
qed (simp add: run_sends_def conserves_def)

lemma run_sends_keys: "jm_keys (cl_connections (snd (run_sends v url s))) = jm_keys (cl_connections s)"
  by (simp add: run_sends_def start_sends_ok split: option.split)

lemma conserves_both: "conserves s (f s) {#} {#} \<Longrightarrow> conserves (snd (f s)) (g (snd (f s))) {#} {#} \<Longrightarrow> conserves s (and_do f g s) {#} {#}"
  using conserves_do [of s f "{#}" "{#}" g "{#}" "{#}"] by simp

lemma all_sends_waiting: "conserves s (run_all_sends v us s) {#} {#}"
proof (induction us arbitrary: s)
  case (Cons u us)
  from conserves_both [of s "run_sends v u" "run_all_sends v us"] Cons run_sends_waiting show ?case by simp
qed (simp add: conserves_def)

lemma all_sends_keys: "jm_keys (cl_connections (snd (run_all_sends v us s))) = jm_keys (cl_connections s)"
  by (induction us arbitrary: s) (simp_all add: and_do_def split_def Let_def run_sends_keys)

section \<open>Events\<close>

lemma conserves_quiet: "settled (fst r) = {#} \<Longrightarrow> waiting (snd r) = waiting s \<Longrightarrow> conserves s r {#} {#}"
  by (simp add: conserves_def)

lemma reject_request_waiting: "conserves s (rejectPendingRequest P v url e force s) {#} {#}"
  using settle_taken [of s url _ P v "Inl e"] by (simp add: rejectPendingRequest_def conserves_def split: option.split)

lemma acceptance_waiting:
  assumes "Option.bind (jm_get (cl_connections s) url) lk_pendingAcceptance = Some a" "\<And>k. link_waiting (f k) = link_waiting (k\<lparr>lk_pendingAcceptance := None\<rparr>)"
  shows "conserves s ([Settled (as_ticket a) r], on_link url f s) {#} {#}"
proof -
  obtain k where k: "jm_get (cl_connections s) url = Some k" "lk_pendingAcceptance k = Some a" using assms(1) by (auto simp: bind_eq_Some_conv)
  have "link_waiting k = add_mset (as_ticket a) (link_waiting (f k))" unfolding assms(2) by (simp add: link_waiting_def k(2) ac_simps)
  with on_link_change [OF k(1), of f] show ?thesis by (simp add: conserves_def)
qed

lemma reject_acceptance_waiting: "conserves s (rejectPendingDeliveryAcceptance url e s) {#} {#}"
proof (cases "Option.bind (jm_get (cl_connections s) url) lk_pendingAcceptance")
  case (Some a)
  from acceptance_waiting [OF Some refl] show ?thesis by (simp add: rejectPendingDeliveryAcceptance_def Some)
qed (simp add: rejectPendingDeliveryAcceptance_def conserves_def)

lemma report_waiting: "conserves s (settlePendingDeliveryAcceptance url i st ts s) {#} {#}"
proof (cases "Option.bind (jm_get (cl_connections s) url) lk_pendingAcceptance")
  case (Some a)
  from acceptance_waiting [OF Some refl] show ?thesis by (simp add: settlePendingDeliveryAcceptance_def Some conserves_quiet)
qed (simp add: settlePendingDeliveryAcceptance_def conserves_def)

lemma accept_timeout_waiting: "conserves s (on_accept_timeout v url s) {#} {#}"
proof (cases "Option.bind (jm_get (cl_connections s) url) lk_pendingAcceptance")
  case (Some a)
  from acceptance_waiting [OF Some, of "\<lambda>k. k\<lparr>lk_pendingAcceptance := None, lk_degraded := True\<rparr>"] show ?thesis by (simp add: on_accept_timeout_def Some link_waiting_def)
qed (simp add: on_accept_timeout_def conserves_def)

lemma request_timeout_waiting: "conserves s (on_request_timeout P v url s) {#} {#}"
  using settle_taken [of s url _ P v] by (simp add: on_request_timeout_def conserves_def split: option.split)

lemma welcome_waiting: "conserves s (on_welcome url k r n s) {#} {#}"
  by (simp add: on_welcome_def Let_def conserves_def split: option.split)

lemma relay_message_waiting: "conserves s (handleRelayMessage v url k m s) {#} {#}"
proof (cases m)
  case (WWelcome r n)
  then show ?thesis by (simp add: handleRelayMessage_def welcome_waiting)
next
  case (WDeliveryReport i st ts)
  from conserves_both [of s "settlePendingDeliveryAcceptance url i st ts" "\<lambda>s. (if cl_hasReport s then [HandReport i st ts] else [], s)"] report_waiting
  show ?thesis by (simp add: handleRelayMessage_def WDeliveryReport conserves_quiet)
qed (simp_all add: handleRelayMessage_def conserves_def ack_out_def split: option.split)

lemma bind_link: "jm_get ks u = Some k \<Longrightarrow> f k = Some x \<Longrightarrow> Option.bind (jm_get ks u) f = Some x"
  by simp

lemma dispatch_waiting: "conserves s (dispatchRelayMessage P v url s) {#} {#}"
proof (cases "jm_get (cl_connections s) url")
  case (Some k)
  have inbox: "waiting (on_link url (\<lambda>k. k\<lparr>lk_inbox := ms\<rparr>) s) = waiting s" for ms by simp
  have "conserves s (settle_request P v (pq_ticket pq) (pq_op pq) r (take_pending url (on_link url (\<lambda>k. k\<lparr>lk_inbox := ms\<rparr>) s))) {#} {#}"
    if "lk_pendingRequest k = Some pq" for pq r ms
    by (rule conserves_start [OF settle_taken inbox]) (simp add: Some that)
  moreover have "conserves s (handleRelayMessage v url k m (on_link url (\<lambda>k. k\<lparr>lk_inbox := ms\<rparr>) s)) {#} {#}" for m ms
    by (rule conserves_start [OF relay_message_waiting inbox])
  ultimately show ?thesis by (simp add: dispatchRelayMessage_def Some Let_def conserves_quiet split: list.split option.split)
qed (simp add: dispatchRelayMessage_def conserves_def)

lemma socket_message_waiting: "conserves s (on_socket_message P v w m s) {#} {#}"
proof (cases "jm_get (cl_sockets s) w")
  case (Some x)
  obtain url ph where x: "x = (url, ph)" by force
  show ?thesis
  proof (cases "Option.bind (jm_get (cl_connections s) url) lk_pendingRequest")
    case (Some pq)
    then obtain k where k: "jm_get (cl_connections s) url = Some k" "lk_pendingRequest k = Some pq" by (auto simp: bind_eq_Some_conv)
    have "waiting (on_link url (\<lambda>k. k\<lparr>lk_pendingRequest := Some (pq\<lparr>pq_queuedMatch := True\<rparr>)\<rparr>) s) = waiting s"
      by (rule on_link_waiting) (simp add: k link_waiting_def)
    then show ?thesis using settle_taken [OF Some, of P v "Inr m"]
      by (simp add: on_socket_message_def \<open>jm_get (cl_sockets s) w = Some x\<close> x Some conserves_quiet Let_def split: socket_phase.split)
  qed (simp add: on_socket_message_def Some x conserves_quiet split: socket_phase.split)
qed (simp add: on_socket_message_def conserves_def)

lemma socket_closed_waiting: "conserves s (on_socket_closed P v w code reason s) {#} {#}"
proof (cases "jm_get (cl_sockets s) w")
  case (Some x)
  obtain url ph where x: "x = (url, ph)" by force
  have "conserves s' (and_do (rejectPendingRequest P v url e1 b) (and_do (rejectPendingDeliveryAcceptance url e2) (\<lambda>s. ([], f s))) s') {#} {#}"
    if "\<And>s. waiting (f s) = waiting s" for s' f e1 e2 b
    by (rule conserves_both [OF reject_request_waiting], rule conserves_both [OF reject_acceptance_waiting]) (simp add: conserves_quiet that)
  note step = this
  show ?thesis
  proof (cases ph)
    case SocketLive
    show ?thesis unfolding on_socket_closed_def Some x SocketLive option.case prod.case socket_phase.case
      by (rule conserves_start [OF step]) (simp_all split: option.split)
  qed (simp_all add: on_socket_closed_def Some x conserves_quiet)
qed (simp add: on_socket_closed_def conserves_def)

lemma stop_connection_waiting: "conserves s (stop_connection P v url s) {#} {#}"
  unfolding stop_connection_def
  by (rule conserves_start, rule conserves_both [OF reject_request_waiting], rule conserves_both [OF reject_acceptance_waiting])
    (simp_all add: conserves_quiet split: option.split)

lemma stop_connections_waiting: "conserves s (stop_connections P v us s) {#} {#}"
proof (induction us arbitrary: s)
  case (Cons u us)
  from conserves_both [of s "stop_connection P v u" "stop_connections P v us"] Cons stop_connection_waiting show ?case by simp
qed (simp add: conserves_def)

lemma remove1_fst: "(t, t0) \<in> set xs \<Longrightarrow> add_mset t (mset (map fst (remove1 (t, t0) xs))) = mset (map fst xs)"
  by (induction xs) auto

lemma start_turn_waiting:
  assumes "(t, t0) \<in> set (cl_starting s)"
  shows "conserves s (start_turn P now t t0 s) {#} {#}"
proof -
  note remove1_fst [OF assms]
  then have "conserves s ([Settled t r], s'\<lparr>cl_starting := remove1 (t, t0) (cl_starting s')\<rparr>) {#} {#}"
    if "waiting s' = waiting s" "cl_starting s' = cl_starting s" "cl_connections s' = cl_connections s" "cl_requests s' = cl_requests s" for s' r
    using that by (simp add: conserves_def waiting_def ac_simps)
  then show ?thesis by (simp add: start_turn_def Let_def conserves_quiet startMaintenanceLoop_def)
qed

text \<open>What no step but a call and a registration changes.\<close>

definition tame :: "relay_client \<Rightarrow> relay_client \<Rightarrow> bool" where
  "tame s s' \<longleftrightarrow> (links_ok s \<longrightarrow> links_ok s') \<and> cl_nextTicket s' = cl_nextTicket s \<and> cl_hasDeliver s' = cl_hasDeliver s"

lemma tame_trans: "tame s s' \<Longrightarrow> tame s' s'' \<Longrightarrow> tame s s''"
  by (simp add: tame_def)

lemma tame_do: "tame s (snd (f s)) \<Longrightarrow> (\<And>s. tame s (snd (g s))) \<Longrightarrow> tame s (snd (and_do f g s))"
  by (simp add: and_do_def split_def Let_def) (metis tame_trans)

lemma tame_basic [simp]:
  "tame s s" "tame s (on_link u f s) " "tame s (s\<lparr>cl_sockets := b\<rparr>)" "tame s (ensureConnection u s)" "tame s (recordFailure now u m s)"
  "tame s (clearFailure u s)" "tame s (scheduleReconnect P v u s)" "tame s (connect_failed P v u m s)" "tame s (take_pending u s)"
  "tame s (enqueue_request t opn s)" "tame s (set_phase w u ph s)" "tame s (snd (connectToRelay P v u s))"
  by (simp_all add: tame_def ensureConnection_def recordFailure_def clearFailure_def scheduleReconnect_def connect_failed_def take_pending_def
      enqueue_request_def set_phase_def connectToRelay_def Let_def links_ok_def on_link_def distinct_update split: option.split)

lemma tame_plan_endpoints: "plan_endpoints P v es n s = (out, n', s') \<Longrightarrow> tame s s'"
proof (induction es arbitrary: n s out n' s')
  case (Cons e es)
  obtain out1 s1 where c: "connectToRelay P v (normalizeRelayUrl e) (ensureConnection e s) = (out1, s1)" by force
  have "tame s (ensureConnection e s)" "tame (ensureConnection e s) s1" using tame_basic(12) [of "ensureConnection e s" P v "normalizeRelayUrl e"] by (simp_all add: c)
  then have "tame s s1" by (meson tame_basic(4) tame_trans)
  have "(\<exists>out2. plan_endpoints P v es (n + 1) s1 = (out2, n', s')) \<or> plan_endpoints P v es n (ensureConnection e s) = (out, n', s')"
    using Cons.prems by (auto simp: Let_def c split: if_splits prod.splits)
  then show ?case using Cons.IH \<open>tame s s1\<close> \<open>tame s (ensureConnection e s)\<close> tame_trans by blast
qed simp

lemma tame_plan_relays: "plan_relays P v ids as n s = (out, s') \<Longrightarrow> tame s s'"
proof (induction as arbitrary: n s out s')
  case (Cons a as)
  obtain out1 n1 s1 where e: "plan_endpoints P v (extractRelayEndpoints (dg_card a)) n s = (out1, n1, s1)" by (metis prod_cases3)
  show ?case using Cons tame_plan_endpoints [OF e] by (auto simp: e Let_def split: if_splits prod.splits intro: tame_trans)
qed simp

lemma tame_maintenance: "tame s (snd (finish_maintenance P v res s))"
proof (cases res)
  case (Inr m)
  show ?thesis
  proof (cases m)
    case (WDiscovered as)
    obtain out s' where p: "plan_relays P v (getConnectedRelayIds s) (filterVerifiedDiscoveredAgents (cp_crypto P) (cp_json P) as)
          (int (length (listConnectedRelays s))) (s\<lparr>cl_lastDiscoveryAt := Some (ce_now v)\<rparr>) = (out, s')" by force
    from tame_plan_relays [OF p] show ?thesis by (simp add: finish_maintenance_def Inr WDiscovered p tame_def)
  qed (simp_all add: finish_maintenance_def Inr tame_def)
qed (simp add: finish_maintenance_def tame_def)

lemma tame_settle: "tame s (snd (settle_request P v t opn res s))"
  using tame_maintenance [of "s\<lparr>cl_active := False\<rparr>" P v res] by (cases t) (simp_all add: settle_request_def tame_def)

lemma tame_start_requests: "tame s (snd (start_requests P v qs s))"
proof (induction qs arbitrary: s)
  case (Cons q qs)
  obtain t opn where q: "q = (t, opn)" by force
  have "tame s (snd (and_do (settle_request P v t opn res) (start_requests P v qs) s))" for res
    by (rule tame_do [OF tame_settle Cons.IH])
  then show ?case by (simp add: q split: option.split) (simp add: tame_def)
qed (simp add: tame_def)

lemma tame_start_sends: "tame s (snd (start_sends v url as s))"
  by (induction as) (simp_all add: settles_then split: option.split)

lemma tame_all_sends: "tame s (snd (run_all_sends v us s))"
proof (induction us arbitrary: s)
  case (Cons u us)
  have "tame s (snd (run_sends v u s))" for s by (simp add: run_sends_def tame_start_sends split: option.split)
  then show ?case using tame_do Cons by simp
qed simp

lemma tame_reject [simp]: "tame s (snd (rejectPendingRequest P v url e b s))" "tame s (snd (rejectPendingDeliveryAcceptance url e s))"
  "tame s (snd (settlePendingDeliveryAcceptance url i st ts s))" "tame s (snd (on_accept_timeout v url s))" "tame s (snd (on_request_timeout P v url s))"
  using tame_trans [OF tame_basic(9) tame_settle]
  by (simp_all add: rejectPendingRequest_def rejectPendingDeliveryAcceptance_def settlePendingDeliveryAcceptance_def on_accept_timeout_def on_request_timeout_def
      split: option.split)

lemma tame_socket [simp]: "tame s (snd (on_socket_open P v w s))" "tame s (on_open_failed P v w m s)"
  using tame_trans [OF tame_basic(11) tame_basic(8)]
  by (simp_all add: on_socket_open_def on_open_failed_def split: option.split prod.split socket_phase.split sum.split)

lemma tame_relay_message: "tame s (snd (handleRelayMessage v url k m s))"
proof (cases m)
  case (WWelcome r n)
  have "tame s (clearFailure url (on_link url f (on_link url g s)))" "tame s (on_link url f (on_link url g s))" for f g
    by (meson tame_basic(2,6) tame_trans)+
  then show ?thesis by (simp add: handleRelayMessage_def WWelcome on_welcome_def Let_def)
next
  case (WDeliveryReport i st ts)
  then show ?thesis by (simp add: handleRelayMessage_def tame_do)
qed (simp_all add: handleRelayMessage_def, simp_all add: tame_def)

lemma tame_dispatch: "tame s (snd (dispatchRelayMessage P v url s))"
  unfolding dispatchRelayMessage_def using tame_trans [OF tame_basic(2) tame_relay_message]
    tame_trans [OF tame_trans [OF tame_basic(2) tame_basic(9)] tame_settle]
  by (simp add: Let_def split: option.split list.split)

lemma tame_socket_message: "tame s (snd (on_socket_message P v w m s))"
  unfolding on_socket_message_def using tame_trans [OF tame_basic(9) tame_settle] tame_trans [OF tame_basic(2) tame_basic(2)]
  by (simp add: Let_def split: option.split prod.split socket_phase.split)

lemma tame_socket_closed: "tame s (snd (on_socket_closed P v w code reason s))"
proof (cases "jm_get (cl_sockets s) w")
  case (Some x)
  obtain url ph where x: "x = (url, ph)" by force
  have f: "tame s (recordFailure now url m (on_link url f s))" "tame s (scheduleReconnect P v url (recordFailure now url m s))" for s now m f
    by (meson tame_basic tame_trans)+
  have "tame s' (snd (and_do (rejectPendingRequest P v url e1 b) (and_do (rejectPendingDeliveryAcceptance url e2) (\<lambda>s. ([], f s))) s'))"
    if "\<And>s. tame s (f s)" for s' f e1 e2 b
    by (intro tame_do) (simp_all add: that)
  note step = this
  show ?thesis
  proof (cases ph)
    case SocketLive
    show ?thesis unfolding on_socket_closed_def Some x SocketLive option.case prod.case socket_phase.case
      by (rule tame_trans [OF _ step]) (use f in \<open>simp_all add: tame_def split: option.split\<close>)
  qed (simp_all add: on_socket_closed_def Some x)
qed (simp add: on_socket_closed_def)

lemma tame_stop: "tame s (snd (stop_connections P v us s))"
proof (induction us arbitrary: s)
  case (Cons u us)
  have "tame s (snd (and_do (rejectPendingRequest P v u e1 b) (and_do (rejectPendingDeliveryAcceptance u e2) (\<lambda>s. (f s, on_link u g s))) s))" for s e1 b e2 f g
    by (intro tame_do) simp_all
  then have "tame s (snd (stop_connection P v u s))" for s
    unfolding stop_connection_def by (rule tame_trans [OF tame_basic(2)])
  then show ?case using tame_do Cons by simp
qed simp

text \<open>The steps that are not calls.\<close>

definition is_call :: "client_event \<Rightarrow> bool" where
  "is_call ev \<longleftrightarrow> (case ev of Call c \<Rightarrow> True | _ \<Rightarrow> False)"

lemma maintain_waiting: "conserves s (maintainRelaySet P s) {#} {#}"
  by (simp add: maintainRelaySet_def conserves_def enqueue_request_def waiting_def)

lemma handle_waiting:
  assumes "\<not> is_call ev"
  shows "conserves s (client_handle P v ev s) {#} {#}"
proof (cases ev)
  case (StartTurn t)
  show ?thesis
  proof (cases "List.find (\<lambda>(u, t0). u = t) (cl_starting s)")
    case (Some x)
    obtain u t0 where x: "x = (u, t0)" by force
    with Some have "(t, t0) \<in> set (cl_starting s)" by (auto simp: find_Some_iff) (metis nth_mem)
    from start_turn_waiting [OF this] show ?thesis by (simp add: client_handle_def StartTurn Some x)
  qed (simp add: client_handle_def StartTurn conserves_def)
qed (use assms in \<open>simp_all add: client_handle_def is_call_def dispatch_waiting socket_message_waiting socket_closed_waiting request_timeout_waiting
    accept_timeout_waiting conserves_quiet ack_out_def on_handler_done_def maintain_waiting
    conserves_start [OF maintain_waiting] split: option.split\<close>)

lemma send_waiting: "conserves s (sendToRelay v t m s) {#t#} {#}"
  by (simp add: sendToRelay_def conserves_def split: option.split)

lemma await_waiting:
  assumes "links_ok s"
  shows "conserves s (sendEnvelopeAwaitAccepted P t d bs s) {#t#} {#}"
proof (cases "getConnectedConnection s")
  case (Some x)
  obtain u k where x: "x = (u, k)" by force
  with connected_get [OF assms] Some have k: "jm_get (cl_connections s) u = Some k" by blast
  from on_link_change [OF k, of "\<lambda>k. k\<lparr>lk_sends := lk_sends k @ [\<lparr>as_ticket = t, as_to = d, as_bytes = bs, as_envelopeId = i,
    as_ws = (if lk_degraded k then None else lk_ws k)\<rparr>]\<rparr>" for i]
  show ?thesis by (simp add: sendEnvelopeAwaitAccepted_def Some x conserves_def link_waiting_def ac_simps split: sum.split)
qed (simp add: sendEnvelopeAwaitAccepted_def conserves_def)

lemma call_waiting:
  assumes "links_ok s"
  shows "conserves s (client_call P v t c s) {#t#} {#}"
proof (cases c)
  case StartCall
  let ?s = "s\<lparr>cl_stopped := False, cl_dials := cl_dials s @ map (\<lambda>u. (u, ce_random v * 2000)) (jm_keys (cl_connections s)),
       cl_starting := cl_starting s @ [(t, ce_now v)]\<rparr>"
  have "conserves ?s (start_turn P (ce_now v) t (ce_now v) ?s) {#} {#}" by (rule start_turn_waiting) simp
  moreover have "waiting ?s = waiting s + {#t#}" by (simp add: waiting_def ac_simps)
  ultimately show ?thesis by (simp add: client_call_def StartCall on_start_def conserves_def)
next
  case StopCall
  let ?s = "s\<lparr>cl_stopped := True, cl_maintenanceTimer := False\<rparr>"
  from conserves_do [of ?s "stop_connections P v (jm_keys (cl_connections s))" "{#}" "{#}" "\<lambda>s. ([Settled t RUnit], s)" "{#t#}" "{#}"]
    stop_connections_waiting [of ?s P v] show ?thesis
    by (simp add: client_call_def StopCall on_stop_def conserves_def)
next
  case (RequestCall opn)
  then show ?thesis by (simp add: client_call_def conserves_def enqueue_request_def waiting_def ac_simps)
next
  case (PublishCardCall cd)
  have "waiting (case cd of Some x \<Rightarrow> s\<lparr>cl_card := x\<rparr> | None \<Rightarrow> s) = waiting s" by (simp split: option.split)
  with send_waiting show ?thesis by (simp add: client_call_def PublishCardCall conserves_def)
qed (simp_all add: client_call_def send_waiting await_waiting assms)

lemma tame_dial: "tame s' (snd (connectToRelay P v u s'')) \<Longrightarrow> tame s s' \<Longrightarrow> tame s (snd (connectToRelay P v u s''))"
  using tame_trans by blast

lemma tame_start_turn: "tame s (snd (start_turn P now t t0 s))"
  by (simp add: start_turn_def Let_def startMaintenanceLoop_def) (simp add: tame_def)

lemma tame_maintain: "tame s (snd (maintainRelaySet P s))"
  by (simp add: maintainRelaySet_def enqueue_request_def) (simp add: tame_def)

lemma tame_dials:
  "tame s (snd (connectToRelay P v u (on_link u' f s)))" "tame s (snd (connectToRelay P v u (s\<lparr>cl_dials := d\<rparr>)))" "tame s (snd (maintainRelaySet P (s\<lparr>cl_firstMaintenance := n\<rparr>)))"
  using tame_basic(12) [of "s\<lparr>cl_dials := d\<rparr>" P v u] tame_maintain [of "s\<lparr>cl_firstMaintenance := n\<rparr>" P] tame_trans [OF tame_basic(2) tame_basic(12)]
  by (simp_all add: tame_def)

lemma tame_handle: "\<not> is_call ev \<Longrightarrow> ev \<noteq> OnDeliver \<Longrightarrow> tame s (snd (client_handle P v ev s))"
  by (cases ev) (simp_all add: client_handle_def is_call_def tame_dispatch tame_socket_message tame_socket_closed on_handler_done_def tame_dials tame_maintain
      tame_start_turn split: option.split, simp_all add: tame_def)

lemma tame_call: "tame s (snd (client_call P v t c s))"
proof (cases c)
  case StartCall
  with tame_start_turn [of "s\<lparr>cl_stopped := False, cl_dials := cl_dials s @ map (\<lambda>u. (u, ce_random v * 2000)) (jm_keys (cl_connections s)),
       cl_starting := cl_starting s @ [(t, ce_now v)]\<rparr>" P "ce_now v" t "ce_now v"] show ?thesis
    by (simp add: client_call_def on_start_def tame_def)
next
  case StopCall
  with tame_do [of "s\<lparr>cl_stopped := True, cl_maintenanceTimer := False\<rparr>" "stop_connections P v (jm_keys (cl_connections s))" "\<lambda>s. ([Settled t RUnit], s)"]
    tame_stop show ?thesis by (simp add: client_call_def on_stop_def) (simp add: tame_def)
qed (simp_all add: client_call_def sendToRelay_def sendEnvelopeAwaitAccepted_def split: option.split sum.split prod.split, simp_all add: tame_def)

section \<open>Runs\<close>

lemma step_waiting:
  assumes "links_ok s"
  shows "conserves s (client_step P (v, ev) s) (if is_call ev then {#cl_nextTicket s#} else {#}) {#}" and "links_ok (snd (client_step P (v, ev) s))"
    and "cl_nextTicket (snd (client_step P (v, ev) s)) = cl_nextTicket s + (if is_call ev then 1 else 0)"
    and "ev \<noteq> OnDeliver \<Longrightarrow> cl_hasDeliver (snd (client_step P (v, ev) s)) = cl_hasDeliver s"
proof -
  let ?h = "client_handle P v ev s"
  have h: "conserves s ?h (if is_call ev then {#cl_nextTicket s#} else {#}) {#} \<and> links_ok (snd ?h)
      \<and> cl_nextTicket (snd ?h) = cl_nextTicket s + (if is_call ev then 1 else 0) \<and> (ev \<noteq> OnDeliver \<longrightarrow> cl_hasDeliver (snd ?h) = cl_hasDeliver s)"
  proof (cases "is_call ev")
    case True
    then obtain c where c: "ev = Call c" by (auto simp: is_call_def split: client_event.splits)
    let ?s = "s\<lparr>cl_nextTicket := cl_nextTicket s + 1\<rparr>"
    from call_waiting [of ?s P v "cl_nextTicket s" c] tame_call [of ?s P v "cl_nextTicket s" c] assms show ?thesis
      by (simp add: c client_handle_def is_call_def tame_def conserves_def)
  next
    case False
    then show ?thesis using handle_waiting [OF False] tame_handle [OF False, of s P v] assms
      by (cases "ev = OnDeliver") (auto simp: tame_def client_handle_def)
  qed
  have rest: "tame s' (snd (and_do (run_requests P v) (\<lambda>s. run_all_sends v (jm_keys (cl_connections s)) s) s'))" for s'
    by (rule tame_do) (simp_all add: run_requests_def tame_start_requests tame_all_sends)
  have more: "conserves s' (and_do (run_requests P v) (\<lambda>s. run_all_sends v (jm_keys (cl_connections s)) s) s') {#} {#}" if "links_ok s'" for s'
    by (rule conserves_both, rule run_requests_waiting [OF that], rule all_sends_waiting)
  show "conserves s (client_step P (v, ev) s) (if is_call ev then {#cl_nextTicket s#} else {#}) {#}"
    using conserves_do [of s "client_handle P v ev" "if is_call ev then {#cl_nextTicket s#} else {#}" "{#}"
      "and_do (run_requests P v) (\<lambda>s. run_all_sends v (jm_keys (cl_connections s)) s)" "{#}" "{#}"] h more by (simp add: client_step_def)
  show "links_ok (snd (client_step P (v, ev) s))" "cl_nextTicket (snd (client_step P (v, ev) s)) = cl_nextTicket s + (if is_call ev then 1 else 0)"
    "ev \<noteq> OnDeliver \<Longrightarrow> cl_hasDeliver (snd (client_step P (v, ev) s)) = cl_hasDeliver s"
    using h rest [of "snd ?h"] by (simp_all add: client_step_def and_do_def [of "client_handle P v ev"] split_def Let_def tame_def)
qed

lemma client_created_ok: "links_ok (createRelayClient P)" "waiting (createRelayClient P) = {#}" "cl_nextTicket (createRelayClient P) = 0" "cl_hasDeliver (createRelayClient P) = False"
proof -
  have "links_ok (fold ensureConnection us s) \<and> waiting (fold ensureConnection us s) = waiting s \<and> cl_nextTicket (fold ensureConnection us s) = cl_nextTicket s
      \<and> cl_hasDeliver (fold ensureConnection us s) = cl_hasDeliver s" if "links_ok s" for us s
    using that
  proof (induction us arbitrary: s)
    case (Cons u us)
    have "cl_nextTicket (ensureConnection u s) = cl_nextTicket s" "cl_hasDeliver (ensureConnection u s) = cl_hasDeliver s" by (simp_all add: ensureConnection_def Let_def)
    with Cons.IH [of "ensureConnection u s"] Cons.prems show ?case by simp
  qed simp
  note this [of "\<lparr>cl_card = cc_card (cp_config P), cl_connections = [], cl_sockets = [], cl_nextSocket = 0, cl_nextTicket = 0, cl_failures = [],
      cl_hasDeliver = False, cl_hasReport = False, cl_stopped = False, cl_maintenanceTimer = False, cl_firstMaintenance = 0,
      cl_maintenanceInFlight = False, cl_lastDiscoveryAt = None, cl_active = False, cl_requests = [], cl_dials = [], cl_starting = []\<rparr>" "cc_relayUrls (cp_config P)"]
  then show "links_ok (createRelayClient P)" "waiting (createRelayClient P) = {#}" "cl_nextTicket (createRelayClient P) = 0" "cl_hasDeliver (createRelayClient P) = False"
    by (simp_all add: createRelayClient_def links_ok_def waiting_def links_waiting_def)
qed

lemma run_waiting:
  assumes "links_ok s"
  shows "settled (fst (client_run P ves s)) + waiting (snd (client_run P ves s)) = waiting s + mset [cl_nextTicket s..<cl_nextTicket (snd (client_run P ves s))]
    \<and> cl_nextTicket (snd (client_run P ves s)) = cl_nextTicket s + length (filter (\<lambda>(v, ev). is_call ev) ves)"
  using assms
proof (induction ves arbitrary: s)
  case (Cons x ves)
  obtain v ev where x: "x = (v, ev)" by force
  let ?s1 = "snd (client_step P x s)" and ?o1 = "fst (client_step P x s)"
  let ?s2 = "snd (client_run P ves ?s1)" and ?o2 = "fst (client_run P ves ?s1)"
  have st: "settled ?o1 + waiting ?s1 = waiting s + (if is_call ev then {#cl_nextTicket s#} else {#})" "links_ok ?s1"
    "cl_nextTicket ?s1 = cl_nextTicket s + (if is_call ev then 1 else 0)"
    using step_waiting [OF Cons.prems, where P = P and v = v and ev = ev] by (simp_all add: x conserves_def)
  have run: "settled ?o2 + waiting ?s2 = waiting ?s1 + mset [cl_nextTicket ?s1..<cl_nextTicket ?s2]"
    "cl_nextTicket ?s2 = cl_nextTicket ?s1 + length (filter (\<lambda>(v, ev). is_call ev) ves)" using Cons.IH [OF st(2)] by simp_all
  have "mset [cl_nextTicket s..<cl_nextTicket ?s2] = (if is_call ev then {#cl_nextTicket s#} else {#}) + mset [cl_nextTicket ?s1..<cl_nextTicket ?s2]"
  proof (cases "is_call ev")
    case True
    then have "cl_nextTicket s < cl_nextTicket ?s2" using run(2) st(3) by simp
    then show ?thesis using True by (simp only: upt_conv_Cons mset.simps st(3) if_True) simp
  qed (simp add: st(3))
  moreover have "settled ?o1 + (settled ?o2 + waiting ?s2) = waiting s + ((if is_call ev then {#cl_nextTicket s#} else {#}) + mset [cl_nextTicket ?s1..<cl_nextTicket ?s2])"
    unfolding run(1) by (metis (no_types, lifting) add.assoc st(1))
  ultimately show ?case using run(2) st(3) by (simp add: and_do_def split_def Let_def x ac_simps)
qed simp

text \<open>C36: Every call of the relay client is settled once or waits. In any run of the client, with any behaviour of the relays, the
  sockets and the timers, the calls made so far are exactly those whose promise was settled, each of them once, and those that still
  wait: for a response, for a report, for their turn, or for the first connection.\<close>

theorem calls_settled_once:
  "let (out, s) = client_run P ves (createRelayClient P)
   in mset [0..<length (filter (\<lambda>(v, ev). is_call ev) ves)] = settled out + waiting s"
  using run_waiting [OF client_created_ok(1), where P = P and ves = ves] by (simp add: client_created_ok split_def Let_def)

section \<open>Results that fit\<close>

definition verified_for :: "client_platform \<Rightarrow> wire_card \<Rightarrow> did \<Rightarrow> bool" where
  "verified_for P cd d \<longleftrightarrow> verifyCardBinding (cp_crypto P) (cp_json P) (Some cd) (Some d) = None"

fun op_fits :: "client_platform \<Rightarrow> client_op \<Rightarrow> client_result \<Rightarrow> bool" where
  "op_fits P opn (RFailed e) = True"
| "op_fits P (OpDiscover _ _ _ _) (RAgents as) = list_all (\<lambda>a. verified_for P (dg_card a) (dg_did a)) as"
| "op_fits P (OpFetchCard d) (RCard cd) = (case cd of None \<Rightarrow> True | Some x \<Rightarrow> verified_for P x d)"
| "op_fits P (OpQueryTrust target _ _ _) (RTrust t es n avg cur) = (t = target)"
| "op_fits P (OpPublishPreKeys _) RUnit = True"
| "op_fits P (OpFetchPreKeyBundle _ _) (RBundle b) = True"
| "op_fits P _ _ = False"

fun result_fits :: "client_platform \<Rightarrow> client_call \<Rightarrow> client_result \<Rightarrow> bool" where
  "result_fits P (RequestCall opn) r = op_fits P opn r"
| "result_fits P (SendAwaitCall d bs) r = (case r of RSent x \<Rightarrow> so_status x = Accepted | RFailed e \<Rightarrow> True | _ \<Rightarrow> False)"
| "result_fits P _ r = (case r of RUnit \<Rightarrow> True | RFailed e \<Rightarrow> True | _ \<Rightarrow> False)"


text \<open>The calls by their tickets, and what waits stands for them.\<close>

definition request_good :: "(nat \<Rightarrow> client_call option) \<Rightarrow> nat option \<times> client_op \<Rightarrow> bool" where
  "request_good C q \<longleftrightarrow> (case fst q of None \<Rightarrow> True | Some t \<Rightarrow> C t = Some (RequestCall (snd q)))"

definition send_good :: "(nat \<Rightarrow> client_call option) \<Rightarrow> accepted_send \<Rightarrow> bool" where
  "send_good C a \<longleftrightarrow> C (as_ticket a) = Some (SendAwaitCall (as_to a) (as_bytes a))"

definition link_good :: "(nat \<Rightarrow> client_call option) \<Rightarrow> relay_connection \<Rightarrow> bool" where
  "link_good C k \<longleftrightarrow> (case lk_pendingRequest k of None \<Rightarrow> True | Some pq \<Rightarrow> request_good C (pq_ticket pq, pq_op pq))
     \<and> (case lk_pendingAcceptance k of None \<Rightarrow> True | Some a \<Rightarrow> send_good C a) \<and> list_all (send_good C) (lk_sends k)"

definition good :: "(nat \<Rightarrow> client_call option) \<Rightarrow> relay_client \<Rightarrow> bool" where
  "good C s \<longleftrightarrow> (\<forall>u k. jm_get (cl_connections s) u = Some k \<longrightarrow> link_good C k) \<and> list_all (request_good C) (cl_requests s)
     \<and> list_all (\<lambda>(t, t0). C t = Some StartCall) (cl_starting s)"

definition out_good :: "client_platform \<Rightarrow> (nat \<Rightarrow> client_call option) \<Rightarrow> client_out \<Rightarrow> bool" where
  "out_good P C x \<longleftrightarrow> (case x of Settled t r \<Rightarrow> (\<exists>c. C t = Some c \<and> result_fits P c r) | _ \<Rightarrow> True)"




lemma out_good_simps [simp]: "out_good P C (OpenSocket w u)" "out_good P C (SendWs w m)" "out_good P C (CloseWsWith w c)" "out_good P C (HandDeliver u i f bs)"
  "out_good P C (HandReport i st ts)" "out_good P C (Settled t r) = (\<exists>c. C t = Some c \<and> result_fits P c r)"
  by (simp_all add: out_good_def)

lemma failed_fits [simp]: "result_fits P c (RFailed e)"
  by (cases c) simp_all

lemma link_good_simps [simp]:
  "link_good C new_connection"
  "link_good C (k\<lparr>lk_ws := a\<rparr>) = link_good C k" "link_good C (k\<lparr>lk_connected := b\<rparr>) = link_good C k"
  "link_good C (k\<lparr>lk_connecting := b\<rparr>) = link_good C k" "link_good C (k\<lparr>lk_fatalError := c\<rparr>) = link_good C k"
  "link_good C (k\<lparr>lk_reconnectAttempt := n\<rparr>) = link_good C k" "link_good C (k\<lparr>lk_reconnectTimer := d\<rparr>) = link_good C k"
  "link_good C (k\<lparr>lk_stableTimer := b\<rparr>) = link_good C k" "link_good C (k\<lparr>lk_pingTimer := b\<rparr>) = link_good C k"
  "link_good C (k\<lparr>lk_peerCount := n\<rparr>) = link_good C k" "link_good C (k\<lparr>lk_inbox := ms\<rparr>) = link_good C k"
  "link_good C (k\<lparr>lk_handling := h\<rparr>) = link_good C k" "link_good C (k\<lparr>lk_handlerDepth := n\<rparr>) = link_good C k"
  "link_good C (k\<lparr>lk_relayId := h\<rparr>) = link_good C k" "link_good C (k\<lparr>lk_degraded := b\<rparr>) = link_good C k"
  by (simp_all add: link_good_def new_connection_def)

lemma good_simps [simp]:
  "good C (s\<lparr>cl_card := a\<rparr>) = good C s" "good C (s\<lparr>cl_sockets := b\<rparr>) = good C s" "good C (s\<lparr>cl_nextSocket := n\<rparr>) = good C s"
  "good C (s\<lparr>cl_nextTicket := n\<rparr>) = good C s" "good C (s\<lparr>cl_failures := c\<rparr>) = good C s" "good C (s\<lparr>cl_hasDeliver := d\<rparr>) = good C s"
  "good C (s\<lparr>cl_hasReport := d\<rparr>) = good C s" "good C (s\<lparr>cl_stopped := d\<rparr>) = good C s" "good C (s\<lparr>cl_maintenanceTimer := d\<rparr>) = good C s"
  "good C (s\<lparr>cl_firstMaintenance := n\<rparr>) = good C s" "good C (s\<lparr>cl_maintenanceInFlight := d\<rparr>) = good C s"
  "good C (s\<lparr>cl_lastDiscoveryAt := e\<rparr>) = good C s" "good C (s\<lparr>cl_active := d\<rparr>) = good C s" "good C (s\<lparr>cl_dials := f\<rparr>) = good C s"
  by (simp_all add: good_def)

lemma good_link: "good C s \<Longrightarrow> (\<And>k. jm_get (cl_connections s) u = Some k \<Longrightarrow> link_good C k \<Longrightarrow> link_good C (f k)) \<Longrightarrow> good C (on_link u f s)"
  by (auto simp: good_def)

lemma good_link_keep [simp]: "good C s \<Longrightarrow> (\<And>k. link_good C (f k) = link_good C k) \<Longrightarrow> good C (on_link u f s)"
  by (rule good_link) simp_all


lemma good_failed [simp]: "good C s \<Longrightarrow> good C (recordFailure now u m s)" "good C s \<Longrightarrow> good C (clearFailure u s)" "good C s \<Longrightarrow> good C (scheduleReconnect P v u s)"
  "good C s \<Longrightarrow> good C (connect_failed P v u m s)" "good C s \<Longrightarrow> good C (set_phase w u ph s)" "good C s \<Longrightarrow> good C (take_pending u s)" "good C s \<Longrightarrow> good C (ensureConnection u s)"
proof -
  show "good C s \<Longrightarrow> good C (take_pending u s)" for s unfolding take_pending_def by (rule good_link) (simp_all add: link_good_def)
  show "good C s \<Longrightarrow> good C (ensureConnection u s)" for s by (auto simp: ensureConnection_def Let_def good_def)
qed (simp_all add: recordFailure_def clearFailure_def scheduleReconnect_def connect_failed_def set_phase_def)





























section \<open>What the maintenance opens\<close>

lemma connect_out: "fst (connectToRelay P v u s) = [] \<or> fst (connectToRelay P v u s) = [OpenSocket (cl_nextSocket s) u]"
  by (simp add: connectToRelay_def Let_def split: option.split)

lemma plan_endpoints_bound:
  "plan_endpoints P v es n s = (out, n', s') \<Longrightarrow> int (length out) \<le> n' - n \<and> n' \<le> max n (targetRelayCount P)
     \<and> list_all (\<lambda>x. \<exists>w e. x = OpenSocket w (normalizeRelayUrl e) \<and> e \<in> set es) out"
proof (induction es arbitrary: n s out n' s')
  case (Cons e es)
  obtain out1 s1 where c: "connectToRelay P v (normalizeRelayUrl e) (ensureConnection e s) = (out1, s1)" by force
  have o1: "length out1 \<le> 1" "list_all (\<lambda>x. \<exists>w e'. x = OpenSocket w (normalizeRelayUrl e') \<and> e' \<in> set (e # es)) out1"
    using connect_out [of P v "normalizeRelayUrl e" "ensureConnection e s"] by (auto simp: c)
  have more: "list_all (\<lambda>x. \<exists>w e'. x = OpenSocket w (normalizeRelayUrl e') \<and> e' \<in> set es) out2 \<Longrightarrow>
      list_all (\<lambda>x. \<exists>w e'. x = OpenSocket w (normalizeRelayUrl e') \<and> e' \<in> set (e # es)) out2" for out2
    by (fastforce simp: list_all_iff)
  have "(n < targetRelayCount P \<and> (\<exists>out2. plan_endpoints P v es (n + 1) s1 = (out2, n', s') \<and> out = out1 @ out2))
      \<or> plan_endpoints P v es n (ensureConnection e s) = (out, n', s')"
    using Cons.prems by (auto simp: Let_def c split: if_splits prod.splits)
  then show ?case
  proof
    assume "n < targetRelayCount P \<and> (\<exists>out2. plan_endpoints P v es (n + 1) s1 = (out2, n', s') \<and> out = out1 @ out2)"
    then obtain out2 where p: "n < targetRelayCount P" "plan_endpoints P v es (n + 1) s1 = (out2, n', s')" "out = out1 @ out2" by blast
    from Cons.IH [OF p(2)] p(1,3) o1 more [of out2] show ?thesis by auto
  next
    assume "plan_endpoints P v es n (ensureConnection e s) = (out, n', s')"
    from Cons.IH [OF this] more [of out] show ?thesis by blast
  qed
qed simp

lemma plan_relays_bound:
  "plan_relays P v ids as n s = (out, s') \<Longrightarrow> int (length out) \<le> max n (targetRelayCount P) - n
     \<and> list_all (\<lambda>x. \<exists>w e a. x = OpenSocket w (normalizeRelayUrl e) \<and> a \<in> set as \<and> isRelayProvider a \<and> dg_did a \<notin> set ids
          \<and> e \<in> set (extractRelayEndpoints (dg_card a))) out"
proof (induction as arbitrary: n s out s')
  case (Cons a as)
  obtain out1 n1 s1 where e: "plan_endpoints P v (extractRelayEndpoints (dg_card a)) n s = (out1, n1, s1)" by (metis prod_cases3)
  have more: "list_all (\<lambda>x. \<exists>w e b. x = OpenSocket w (normalizeRelayUrl e) \<and> b \<in> set as \<and> isRelayProvider b \<and> dg_did b \<notin> set ids
        \<and> e \<in> set (extractRelayEndpoints (dg_card b))) out2
      \<Longrightarrow> list_all (\<lambda>x. \<exists>w e b. x = OpenSocket w (normalizeRelayUrl e) \<and> b \<in> set (a # as) \<and> isRelayProvider b \<and> dg_did b \<notin> set ids
        \<and> e \<in> set (extractRelayEndpoints (dg_card b))) out2" for out2
    by (fastforce simp: list_all_iff)
  show ?case
  proof (cases "\<not> isRelayProvider a \<or> dg_did a \<in> set ids")
    case True
    then have "plan_relays P v ids as n s = (out, s')" using Cons.prems by simp
    from Cons.IH [OF this] more [of out] show ?thesis by blast
  next
    case False
    obtain out2 where p: "plan_relays P v ids as n1 s1 = (out2, s')" "out = out1 @ out2" using Cons.prems(1) False by (auto simp: e Let_def split: prod.splits)
    have "list_all (\<lambda>x. \<exists>w e b. x = OpenSocket w (normalizeRelayUrl e) \<and> b \<in> set (a # as) \<and> isRelayProvider b \<and> dg_did b \<notin> set ids
        \<and> e \<in> set (extractRelayEndpoints (dg_card b))) out1"
      using plan_endpoints_bound [OF e] False by (fastforce simp: list_all_iff)
    with Cons.IH [OF p(1)] more [of out2] plan_endpoints_bound [OF e] show ?thesis by (auto simp: p(2))
  qed
qed simp

text \<open>C38: What the maintenance of the relay set opens. When its search is answered, it opens at most as many sockets as connections are missing
  to the target, and each of them to a WebSocket endpoint on a card that was found, that is signed by the DID it is listed under, that offers a
  relay capability, and whose relay is not connected yet.\<close>

theorem maintenance_opens:
  "int (length (fst (finish_maintenance P v (Inr (WDiscovered as)) s))) \<le> max (int (length (listConnectedRelays s))) (targetRelayCount P) - int (length (listConnectedRelays s))
   \<and> list_all (\<lambda>x. \<exists>w e a. x = OpenSocket w (normalizeRelayUrl e) \<and> a \<in> set as \<and> verified_for P (dg_card a) (dg_did a) \<and> isRelayProvider a
        \<and> dg_did a \<notin> set (getConnectedRelayIds s) \<and> e \<in> set (extractRelayEndpoints (dg_card a)) \<and> isWebSocketEndpoint e)
      (fst (finish_maintenance P v (Inr (WDiscovered as)) s))"
proof -
  let ?as = "filterVerifiedDiscoveredAgents (cp_crypto P) (cp_json P) as"
  obtain out s' where p: "plan_relays P v (getConnectedRelayIds s) ?as (int (length (listConnectedRelays s))) (s\<lparr>cl_lastDiscoveryAt := Some (ce_now v)\<rparr>) = (out, s')"
    by force
  have "isWebSocketEndpoint e" if "e \<in> set (extractRelayEndpoints cd)" for e cd using that by (auto simp: extractRelayEndpoints_def)
  moreover have "a \<in> set as \<and> verified_for P (dg_card a) (dg_did a)" if "a \<in> set ?as" for a
    using that by (simp add: filterVerifiedDiscoveredAgents_def verified_for_def)
  ultimately show ?thesis using plan_relays_bound [OF p] by (fastforce simp: finish_maintenance_def p list_all_iff)
qed

section \<open>Deliveries before there is a handler\<close>

lemma run_no_handler:
  assumes "links_ok s" "list_all (\<lambda>(v, ev). ev \<noteq> OnDeliver) ves" "\<not> cl_hasDeliver s"
  shows "\<not> cl_hasDeliver (snd (client_run P ves s))"
  using assms
proof (induction ves arbitrary: s)
  case (Cons x ves)
  obtain v ev where x: "x = (v, ev)" by force
  from Cons step_waiting(2,4) [OF Cons.prems(1), where P = P and v = v and ev = ev] show ?case by (simp add: x and_do_def split_def Let_def)
qed simp

text \<open>C39: A delivery before there is a handler is lost. In any run in which no delivery handler was registered, the whole effect of a delivered message
  is that it is acknowledged: it is given to no one, and the relay deletes it. The daemon registers its handler after \<open>start\<close> has returned, that is
  after the relay has welcomed it and has begun to send what it had queued.\<close>

theorem early_delivery_acknowledged:
  assumes "s = snd (client_run P ves (createRelayClient P))" "list_all (\<lambda>(v, ev). ev \<noteq> OnDeliver) ves"
    "jm_get (cl_connections s) url = Some k" "lk_connected k" "lk_ws k = Some w" "lk_handling k = None" "lk_inbox k = WDeliver i f bs # ms"
    "ce_sendThrows v w = None"
  shows "client_handle P v (Dispatch url) s = ([SendWs w (WAck i)], on_link url (\<lambda>k. k\<lparr>lk_inbox := ms\<rparr>) s)"
proof -
  have "\<not> cl_hasDeliver s" using run_no_handler [OF client_created_ok(1) assms(2), of P P] client_created_ok(4) assms(1) by simp
  moreover have "\<not> op_matches opn (WDeliver i f bs)" for opn by (cases opn) (simp_all add: op_matches_def)
  ultimately show ?thesis using assms(3-8)
    by (simp add: client_handle_def dispatchRelayMessage_def handleRelayMessage_def ack_out_def Let_def split: option.split)
qed

section \<open>Sends inside a delivery handler\<close>

text \<open>The delivery handler of a connection runs, and a send on the connection waits for its report.\<close>

definition blocked :: "string \<Rightarrow> string \<Rightarrow> accepted_send \<Rightarrow> relay_client \<Rightarrow> bool" where
  "blocked url i a s \<longleftrightarrow> (case jm_get (cl_connections s) url of
     Some k \<Rightarrow> lk_handling k = Some i \<and> lk_pendingAcceptance k = Some a | None \<Rightarrow> False)"

lemma blocked_link: "blocked url i a s \<Longrightarrow> (u = url \<Longrightarrow> (\<And>k. lk_handling (f k) = lk_handling k \<and> lk_pendingAcceptance (f k) = lk_pendingAcceptance k))
    \<Longrightarrow> blocked url i a (on_link u f s)"
  by (auto simp: blocked_def split: option.splits)

lemma blocked_simps [simp]:
  "blocked url i a (s\<lparr>cl_card := x1\<rparr>) = blocked url i a s" "blocked url i a (s\<lparr>cl_sockets := x2\<rparr>) = blocked url i a s"
  "blocked url i a (s\<lparr>cl_nextSocket := x3\<rparr>) = blocked url i a s" "blocked url i a (s\<lparr>cl_nextTicket := x3\<rparr>) = blocked url i a s"
  "blocked url i a (s\<lparr>cl_failures := x4\<rparr>) = blocked url i a s" "blocked url i a (s\<lparr>cl_hasDeliver := x5\<rparr>) = blocked url i a s"
  "blocked url i a (s\<lparr>cl_hasReport := x5\<rparr>) = blocked url i a s" "blocked url i a (s\<lparr>cl_stopped := x5\<rparr>) = blocked url i a s"
  "blocked url i a (s\<lparr>cl_maintenanceTimer := x5\<rparr>) = blocked url i a s" "blocked url i a (s\<lparr>cl_firstMaintenance := x3\<rparr>) = blocked url i a s"
  "blocked url i a (s\<lparr>cl_maintenanceInFlight := x5\<rparr>) = blocked url i a s" "blocked url i a (s\<lparr>cl_lastDiscoveryAt := x6\<rparr>) = blocked url i a s"
  "blocked url i a (s\<lparr>cl_active := x5\<rparr>) = blocked url i a s" "blocked url i a (s\<lparr>cl_dials := x7\<rparr>) = blocked url i a s"
  "blocked url i a (s\<lparr>cl_requests := x8\<rparr>) = blocked url i a s" "blocked url i a (s\<lparr>cl_starting := x9\<rparr>) = blocked url i a s"
  by (simp_all add: blocked_def)

lemma blocked_do: "blocked url i a (snd (f s)) \<Longrightarrow> (\<And>s. blocked url i a s \<Longrightarrow> blocked url i a (snd (g s))) \<Longrightarrow> blocked url i a (snd (and_do f g s))"
  by (simp add: and_do_def split_def Let_def)

lemma blocked_basic [simp]:
  assumes "blocked url i a s"
  shows "blocked url i a (recordFailure now u m s)" "blocked url i a (clearFailure u s)" "blocked url i a (scheduleReconnect P v u s)"
    "blocked url i a (connect_failed P v u m s)" "blocked url i a (set_phase w u ph s)" "blocked url i a (take_pending u s)"
    "blocked url i a (ensureConnection u s)" "blocked url i a (snd (connectToRelay P v u s))"
proof -
  have f: "blocked url i a s \<Longrightarrow> blocked url i a (recordFailure now u m s)" "blocked url i a s \<Longrightarrow> blocked url i a (scheduleReconnect P v u s)" for s now u m
    by (simp_all add: recordFailure_def scheduleReconnect_def blocked_link)
  show "blocked url i a (recordFailure now u m s)" "blocked url i a (scheduleReconnect P v u s)" using f assms by simp_all
  have c: "blocked url i a (connect_failed P v u m s)" if "blocked url i a s" for s m
    unfolding connect_failed_def by (intro f blocked_link that) simp
  then show "blocked url i a (connect_failed P v u m s)" using assms by simp
  show "blocked url i a (snd (connectToRelay P v u s))"
    using assms by (auto simp: connectToRelay_def Let_def split: option.split intro!: blocked_link c)
  show "blocked url i a (ensureConnection u s)" using assms by (auto simp: ensureConnection_def Let_def blocked_def split: option.splits)
qed (use assms in \<open>simp_all add: clearFailure_def set_phase_def take_pending_def blocked_link\<close>)

lemma blocked_plan_endpoints: "plan_endpoints P v es n s = (out, n', s') \<Longrightarrow> blocked url i a s \<Longrightarrow> blocked url i a s'"
proof (induction es arbitrary: n s out n' s')
  case (Cons e es)
  obtain out1 s1 where c: "connectToRelay P v (normalizeRelayUrl e) (ensureConnection e s) = (out1, s1)" by force
  have "blocked url i a s1" using blocked_basic(8) [OF blocked_basic(7) [OF Cons.prems(2)], of P v "normalizeRelayUrl e" e] by (simp add: c)
  moreover have "(\<exists>out2. plan_endpoints P v es (n + 1) s1 = (out2, n', s')) \<or> plan_endpoints P v es n (ensureConnection e s) = (out, n', s')"
    using Cons.prems by (auto simp: Let_def c split: if_splits prod.splits)
  ultimately show ?case using Cons.IH blocked_basic(7) [OF Cons.prems(2)] by blast
qed simp

lemma blocked_plan_relays: "plan_relays P v ids as n s = (out, s') \<Longrightarrow> blocked url i a s \<Longrightarrow> blocked url i a s'"
proof (induction as arbitrary: n s out s')
  case (Cons x as)
  obtain out1 n1 s1 where e: "plan_endpoints P v (extractRelayEndpoints (dg_card x)) n s = (out1, n1, s1)" by (metis prod_cases3)
  show ?case using Cons blocked_plan_endpoints [OF e] by (auto simp: e Let_def split: if_splits prod.splits)
qed simp

lemma blocked_maintenance: "blocked url i a s \<Longrightarrow> blocked url i a (snd (finish_maintenance P v res s))"
  using blocked_plan_relays [of P v "getConnectedRelayIds s" _ _ "s\<lparr>cl_lastDiscoveryAt := Some (ce_now v)\<rparr>"]
  by (fastforce simp: finish_maintenance_def Let_def split: sum.split wire_msg.split prod.split)

lemma blocked_settle: "blocked url i a s \<Longrightarrow> blocked url i a (snd (settle_request P v t opn res s))"
  using blocked_maintenance [of url i a "s\<lparr>cl_active := False\<rparr>"] by (cases t) (simp_all add: settle_request_def)

lemma blocked_start_requests: "blocked url i a s \<Longrightarrow> blocked url i a (snd (start_requests P v qs s))"
proof (induction qs arbitrary: s)
  case (Cons q qs)
  obtain t opn where q: "q = (t, opn)" by force
  have "blocked url i a (snd (and_do (settle_request P v t opn res) (start_requests P v qs) s))" for res
    by (intro blocked_do blocked_settle Cons)
  then show ?case using Cons.prems by (auto simp: q split: option.split intro!: blocked_link)
qed simp

lemma blocked_sends: "blocked url i a s \<Longrightarrow> blocked url i a (snd (run_all_sends v us s))"
proof (induction us arbitrary: s)
  case (Cons u us)
  have start: "blocked url i a (snd (start_sends v u as s))" if "u \<noteq> url" for as
    using Cons.prems that by (induction as) (auto simp: settles_then split: option.split intro!: blocked_link)
  have "blocked url i a (snd (run_sends v u s))"
  proof (cases "u = url")
    case False
    then show ?thesis using Cons.prems start by (simp add: run_sends_def split: option.split)
  qed (use Cons.prems in \<open>auto simp: run_sends_def blocked_def split: option.splits\<close>)
  then show ?case using Cons.IH by (simp add: blocked_do)
qed simp

lemma blocked_reject: "blocked url i a s \<Longrightarrow> blocked url i a (snd (rejectPendingRequest P v u e b s))" "blocked url i a s \<Longrightarrow> blocked url i a (snd (on_request_timeout P v u s))"
  by (simp_all add: rejectPendingRequest_def on_request_timeout_def blocked_settle split: option.split)

text \<open>The events that end the wait.\<close>

fun unblocks :: "string \<Rightarrow> client_event \<Rightarrow> bool" where
  "unblocks url (HandlerDone u _) = (u = url)"
| "unblocks url (AcceptTimeout u) = (u = url)"
| "unblocks url (Call StopCall) = True"
| "unblocks url (SocketClosed _ _ _) = True"
| "unblocks url _ = False"

lemma blocked_handle:
  assumes b: "blocked url i a s" and n: "\<not> unblocks url ev"
  shows "blocked url i a (snd (client_handle P v ev s))"
proof (cases ev)
  case (Call c)
  have b': "blocked url i a (s\<lparr>cl_nextTicket := cl_nextTicket s + 1\<rparr>)" using b by simp
  have send: "blocked url i a s \<Longrightarrow> blocked url i a (snd (sendToRelay v t m s))" for t m s by (simp add: sendToRelay_def split: option.split)
  show ?thesis
  proof (cases c)
    case StopCall
    then show ?thesis using n by (simp add: Call)
  next
    case (SendAwaitCall d bs)
    then show ?thesis using b
      by (auto simp: client_handle_def Call client_call_def sendEnvelopeAwaitAccepted_def split: option.split prod.split sum.split intro!: blocked_link)
  qed (use b in \<open>simp_all add: client_handle_def Call client_call_def send on_start_def start_turn_def startMaintenanceLoop_def Let_def enqueue_request_def split: option.split\<close>)
next
  case (SocketMessage w m)
  then show ?thesis using b
    by (auto simp: client_handle_def on_socket_message_def Let_def split: option.split prod.split socket_phase.split intro!: blocked_link blocked_settle)
next
  case (Dispatch u)
  have wel: "blocked url i a (snd (on_welcome u k r n (on_link u (\<lambda>k. k\<lparr>lk_inbox := ms\<rparr>) s)))" for k r n ms
    using b by (auto simp: on_welcome_def Let_def split: option.split intro!: blocked_link blocked_basic(2))
  have rep: "blocked url i a (snd (settlePendingDeliveryAcceptance u j st ts s'))" if "u \<noteq> url" "blocked url i a s'" for j st ts s'
    using that by (auto simp: settlePendingDeliveryAcceptance_def split: option.split intro!: blocked_link)
  have msg: "blocked url i a (snd (handleRelayMessage v u k m (on_link u (\<lambda>k. k\<lparr>lk_inbox := ms\<rparr>) s)))" if "u \<noteq> url" for k m ms
  proof (cases m)
    case (WDeliveryReport j st ts)
    show ?thesis unfolding handleRelayMessage_def WDeliveryReport wire_msg.case
      by (rule blocked_do) (use b that in \<open>simp_all add: rep blocked_link\<close>)
  qed (use b that wel in \<open>auto simp: handleRelayMessage_def split: option.split intro!: blocked_link\<close>)
  show ?thesis
  proof (cases "u = url")
    case True
    then show ?thesis using b by (auto simp: client_handle_def Dispatch dispatchRelayMessage_def blocked_def split: option.splits)
  next
    case False
    then show ?thesis using b msg
      by (auto simp: client_handle_def Dispatch dispatchRelayMessage_def Let_def split: option.split list.split intro!: blocked_settle blocked_basic(6) blocked_link)
  qed
next
  case (HandlerDone u ok)
  then show ?thesis using b n by (auto simp: client_handle_def on_handler_done_def split: option.split intro!: blocked_link)
next
  case (AcceptTimeout u)
  then show ?thesis using b n by (auto simp: client_handle_def on_accept_timeout_def split: option.split intro!: blocked_link)
next
  case (ReconnectTimer u)
  have "blocked url i a (on_link u (\<lambda>k. k\<lparr>lk_reconnectTimer := None\<rparr>) s)" using b by (auto intro!: blocked_link)
  then show ?thesis using b by (simp add: client_handle_def ReconnectTimer)
next
  case (SocketOpen w)
  then show ?thesis using b by (simp add: client_handle_def on_socket_open_def split: option.split prod.split socket_phase.split sum.split)
next
  case (StartTurn t)
  then show ?thesis using b by (simp add: client_handle_def start_turn_def startMaintenanceLoop_def Let_def split: option.split prod.split)
next
  case (StableTimer u)
  then show ?thesis using b by (auto simp: client_handle_def intro!: blocked_link)
qed (use b n in \<open>simp_all add: client_handle_def on_open_failed_def maintainRelaySet_def enqueue_request_def blocked_reject
    split: option.split prod.split socket_phase.split\<close>)

text \<open>C40: A send inside a delivery handler cannot be answered by the relay. While the delivery handler of a connection runs and a send on the connection
  waits for its report (a handler that answers the message, or that resets a session), the send keeps waiting in every run, whatever the relay sends, until its
  timeout fires, the handler ends, a socket closes or the client stops: the report waits behind the handler that waits for it. The timeout then counts as
  acceptance.\<close>

theorem send_in_handler_waits:
  assumes "blocked url i a s" "list_all (\<lambda>(v, ev). \<not> unblocks url ev) ves"
  shows "blocked url i a (snd (client_run P ves s))
   \<and> client_handle P v (AcceptTimeout url) (snd (client_run P ves s)) = ([Settled (as_ticket a) (RSent (accepted_outcome (ce_now v) (as_envelopeId a)))],
       on_link url (\<lambda>k. k\<lparr>lk_pendingAcceptance := None, lk_degraded := True\<rparr>) (snd (client_run P ves s)))"
proof -
  have r: "blocked url i a (snd (client_run P ves s))"
    using assms
  proof (induction ves arbitrary: s)
    case (Cons x ves)
    obtain v ev where x: "x = (v, ev)" by force
    have "blocked url i a (snd (client_step P x s))" unfolding client_step_def
      by (intro blocked_do) (use Cons.prems in \<open>simp_all add: x blocked_handle run_requests_def blocked_start_requests blocked_sends\<close>)
    with Cons show ?case by (simp add: and_do_def split_def Let_def)
  qed simp
  then show ?thesis
    by (auto simp: blocked_def client_handle_def on_accept_timeout_def split: option.splits)
qed

section \<open>A message after the close\<close>

lemma duplicate_link:
  "list_ex (\<lambda>(u, x). u \<noteq> url \<and> lk_connected x \<and> lk_relayId x = r) (cl_connections (on_link url f s))
     = list_ex (\<lambda>(u, x). u \<noteq> url \<and> lk_connected x \<and> lk_relayId x = r) (cl_connections s)"
proof -
  have "list_ex (\<lambda>(u, x). u \<noteq> url \<and> lk_connected x \<and> lk_relayId x = r) (jm_modify url f ks)
      = list_ex (\<lambda>(u, x). u \<noteq> url \<and> lk_connected x \<and> lk_relayId x = r) ks" for ks
    unfolding jm_modify_def by (induction ks) auto
  then show ?thesis by (simp add: on_link_def)
qed

text \<open>A welcome that is handled after its socket has closed strands the connection. It may wait behind a delivery handler that began before.
  The connection then counts as connected and is listed, but no request and no send can use it, and none of the timers that would dial it again
  opens a socket.\<close>

theorem late_welcome_strands:
  assumes "links_ok s" "jm_get (cl_connections s) url = Some k" "lk_ws k = None" "lk_handling k = None" "lk_inbox k = WWelcome r n # ms"
    "\<not> list_ex (\<lambda>(u, x). u \<noteq> url \<and> lk_connected x \<and> lk_relayId x = r) (cl_connections s)" "s' = snd (client_handle P v (Dispatch url) s)"
  shows "url \<in> set (listConnectedRelays s') \<and> map_option fst (getConnectedConnection s') \<noteq> Some url
    \<and> connectToRelay P v' url s' = ([], s') \<and> fst (client_handle P v' (ReconnectTimer url) s') = [] \<and> fst (client_handle P v' (DialTimer url) s') = []"
proof -
  let ?f = "\<lambda>k. k\<lparr>lk_inbox := ms, lk_relayId := r, lk_connected := True, lk_connecting := False, lk_peerCount := n, lk_reconnectAttempt := 0,
    lk_degraded := False, lk_stableTimer := True, lk_pingTimer := True\<rparr>"
  have "\<not> op_matches opn (WWelcome r n)" for opn by (cases opn) (simp_all add: op_matches_def)
  then have e: "s' = clearFailure url (on_link url (\<lambda>k. k\<lparr>lk_connected := True, lk_connecting := False, lk_peerCount := n, lk_reconnectAttempt := 0,
      lk_degraded := False, lk_stableTimer := True, lk_pingTimer := True\<rparr>) (on_link url (\<lambda>k. k\<lparr>lk_relayId := r\<rparr>) (on_link url (\<lambda>k. k\<lparr>lk_inbox := ms\<rparr>) s)))"
    using assms(2-7) by (simp add: client_handle_def dispatchRelayMessage_def handleRelayMessage_def on_welcome_def Let_def duplicate_link split: option.split)
  have s': "jm_get (cl_connections s') url = Some (?f k)" "links_ok s'"
    using assms(1,2) fields_on_link(7) unfolding e by (simp_all add: clearFailure_def)
  then have "url \<in> set (listConnectedRelays s')" by (force simp: listConnectedRelays_def dest: map_of_SomeD)
  moreover have "map_option fst (getConnectedConnection s') \<noteq> Some url"
    using connected_get [OF s'(2), of url] s'(1) assms(3) by auto
  moreover have "connectToRelay P v' url s'' = ([], s'')" if "jm_get (cl_connections s'') url = Some k''" "lk_connected k''" for s'' k''
    using that by (simp add: connectToRelay_def)
  ultimately show ?thesis using s'(1) by (simp add: client_handle_def split: option.split)
qed

section \<open>Examples\<close>

definition sample_card :: wire_card where
  "sample_card = \<lparr>wc_fields = [(''did'', JStr ''did:agent:a''), (''endpoints'', JArr [])], wc_signature = ''''\<rparr>"

definition sample_client :: client_platform where
  "sample_client = \<lparr>cp_crypto = toy_platform, cp_json = toy_json, cp_encode = (\<lambda>_. []), cp_decode = (\<lambda>bs. Some (JObj [(''id'', JStr ''e1'')])),
     cp_config = \<lparr>cc_relayUrls = [''ws://r1''], cc_inviteToken = None, cc_did = ''did:agent:a'', cc_privateKey = [of_nat 50], cc_card = sample_card,
       cc_autoDiscoverRelays = None, cc_targetRelayCount = None, cc_discoveryCapability = None,
       cc_reconnect = \<lparr>re_baseMs = None, re_jitterMs = None, re_maxDelayMs = None, re_stableAfterMs = None\<rparr>\<rparr>\<rparr>"

definition client_at :: "msec \<Rightarrow> client_env" where
  "client_at t = \<lparr>ce_now = t, ce_random = 0, ce_sendThrows = (\<lambda>_. None), ce_badUrl = (\<lambda>_. None)\<rparr>"

text \<open>The client starts, is welcomed, and a message arrives.\<close>

definition greeted :: "(client_env \<times> client_event) list" where
  "greeted = [(client_at 1, Call StartCall), (client_at 2, DialTimer ''ws://r1''), (client_at 3, SocketOpen 0),
     (client_at 4, SocketMessage 0 (WWelcome (Some ''r'') 3)), (client_at 5, Dispatch ''ws://r1''), (client_at 6, SocketMessage 0 (WDeliver ''m1'' ''did:agent:b'' [1]))]"

lemma greeted_state:
  "let s = snd (client_run sample_client greeted (createRelayClient sample_client))
   in case jm_get (cl_connections s) ''ws://r1'' of Some k \<Rightarrow> lk_connected k \<and> lk_ws k = Some 0 \<and> lk_handling k = None \<and> lk_inbox k = [WDeliver ''m1'' ''did:agent:b'' [1]] | None \<Rightarrow> False"
  by code_simp

theorem early_delivery_acknowledged_witness:
  "\<exists>s'. client_handle sample_client (client_at 7) (Dispatch ''ws://r1'') (snd (client_run sample_client greeted (createRelayClient sample_client)))
     = ([SendWs 0 (WAck ''m1'')], s')"
proof -
  let ?s = "snd (client_run sample_client greeted (createRelayClient sample_client))"
  obtain k where k: "jm_get (cl_connections ?s) ''ws://r1'' = Some k" "lk_connected k" "lk_ws k = Some 0" "lk_handling k = None"
    "lk_inbox k = [WDeliver ''m1'' ''did:agent:b'' [1]]"
    using greeted_state by (auto simp: Let_def split: option.splits)
  have "list_all (\<lambda>(v, ev). ev \<noteq> OnDeliver) greeted" by (simp add: greeted_def)
  from early_delivery_acknowledged [OF refl this k(1-5), of "client_at 7"] show ?thesis by (simp add: client_at_def)
qed

text \<open>With a handler that answers the message.\<close>

definition answering :: "(client_env \<times> client_event) list" where
  "answering = (client_at 0, OnDeliver) # greeted @ [(client_at 7, Dispatch ''ws://r1''), (client_at 8, Call (SendAwaitCall ''did:agent:b'' [2]))]"

lemma answering_state:
  "blocked ''ws://r1'' ''m1'' \<lparr>as_ticket = 1, as_to = ''did:agent:b'', as_bytes = [2], as_envelopeId = ''e1'', as_ws = Some 0\<rparr>
     (snd (client_run sample_client answering (createRelayClient sample_client)))"
  by code_simp

theorem send_in_handler_waits_witness:
  "fst (client_handle sample_client (client_at 5009) (AcceptTimeout ''ws://r1'') (snd (client_run sample_client
       [(client_at 9, SocketMessage 0 (WDeliveryReport ''m2'' Accepted 9)), (client_at 10, Dispatch ''ws://r1'')]
       (snd (client_run sample_client answering (createRelayClient sample_client))))))
     = [Settled 1 (RSent (accepted_outcome 5009 ''e1''))]"
  using send_in_handler_waits [OF answering_state, of "[(client_at 9, SocketMessage 0 (WDeliveryReport ''m2'' Accepted 9)), (client_at 10, Dispatch ''ws://r1'')]"
    sample_client "client_at 5009"] by (simp add: client_at_def)

text \<open>The socket closes while the handler of the message runs, and so does the next one after its welcome.\<close>

definition stranding :: "(client_env \<times> client_event) list" where
  "stranding = (client_at 0, OnDeliver) # greeted @ [(client_at 7, Dispatch ''ws://r1''), (client_at 8, SocketClosed 0 1006 ''''),
     (client_at 9, ReconnectTimer ''ws://r1''), (client_at 10, SocketOpen 1), (client_at 11, SocketMessage 1 (WWelcome (Some ''r'') 3)),
     (client_at 12, SocketClosed 1 1006 ''''), (client_at 13, HandlerDone ''ws://r1'' True)]"

lemma stranding_state:
  "let s = snd (client_run sample_client stranding (createRelayClient sample_client))
   in distinct (jm_keys (cl_connections s)) \<and> (case jm_get (cl_connections s) ''ws://r1'' of
        Some k \<Rightarrow> lk_ws k = None \<and> lk_handling k = None \<and> lk_inbox k = [WWelcome (Some ''r'') 3] | None \<Rightarrow> False)
     \<and> \<not> list_ex (\<lambda>(u, x). u \<noteq> ''ws://r1'' \<and> lk_connected x \<and> lk_relayId x = Some ''r'') (cl_connections s)"
  by code_simp

theorem late_welcome_strands_witness:
  "let s' = snd (client_handle sample_client (client_at 14) (Dispatch ''ws://r1'') (snd (client_run sample_client stranding (createRelayClient sample_client))))
   in ''ws://r1'' \<in> set (listConnectedRelays s') \<and> connectToRelay sample_client (client_at 15) ''ws://r1'' s' = ([], s')"
proof -
  let ?s = "snd (client_run sample_client stranding (createRelayClient sample_client))"
  obtain k where k: "jm_get (cl_connections ?s) ''ws://r1'' = Some k" "lk_ws k = None" "lk_handling k = None" "lk_inbox k = [WWelcome (Some ''r'') 3]" "links_ok ?s"
    "\<not> list_ex (\<lambda>(u, x). u \<noteq> ''ws://r1'' \<and> lk_connected x \<and> lk_relayId x = Some ''r'') (cl_connections ?s)"
    using stranding_state by (auto simp: Let_def links_ok_def split: option.splits)
  from late_welcome_strands [OF k(5,1-4,6) refl, of sample_client "client_at 14" "client_at 15"] show ?thesis by (simp add: Let_def)
qed

end
