(* ===== verification/Spec2Isabelle.thy ===== *)
theory Spec2Isabelle
  imports Relay_Queue_Props Relay_Registry_Props Relay_Prekeys_Props Relay_Subscriptions_Props
    Relay_Endorsements_Props Relay_Federation_Props Relay_Sessions_Props Relay_Delivery_Props
    E2E_Ratchet_Props E2E_Config_Props Trust_System_Props Trust_Computer_Props Message_Defense_Props
    Daemon_Props Relay_Client_Props
begin

text \<open>
  A verification library for the TypeScript implementation of the A4 agent network: the relay
  server (\<open>js/relay/src\<close>) and the protocol core (\<open>js/core/protocol/src\<close>).
\<close>

end
